(* ===== verification/Prelude.thy ===== *)
theory Prelude
  imports Main "HOL-Library.Word" "HOL-Library.Monad_Syntax" "HOL-Library.Sublist"
begin

text \<open>
  Shared vocabulary of the development.

  \<^item> A C \<open>char\<close> buffer, a NUL-terminated string and a slice of a received message are all
    byte lists (\<open>bytes\<close>). A \<open>char *\<close> that points into a buffer is the list of the bytes from
    that position on, so \<open>p + n\<close> is \<open>drop n p\<close>.
  \<^item> Undefined behaviour (a read through a dangling or null pointer, a write past the end of a
    fixed buffer, a division by zero) is the value \<open>None\<close> of an \<open>option\<close>: an operation of
    type \<open>'a option\<close> that returns \<open>Some\<close> has not faulted. Pointers that may be null are
    options too.
  \<^item> \<open>strncmp0\<close>, \<open>strnlen\<close>, \<open>strlen\<close>, \<open>strncpy_term\<close> are the uses the code makes of the C
    string library.
\<close>

named_theorems c_string \<open>facts about the C string functions\<close>
named_theorems runtime_defs \<open>definitions of the runtime model unfolded in component proofs\<close>

type_synonym bytes = string
type_synonym u8 = "8 word"
type_synonym u32 = "32 word"
type_synonym u64 = "64 word"
type_synonym addr = nat

abbreviation NUL :: char where "NUL \<equiv> CHR 0x00"

section \<open>Result codes\<close>

datatype cc_result = CC_SUCCESS | CC_FAIL | CC_PENDING

section \<open>C strings\<close>

definition CC_UUID_BUFFER_SIZE :: nat where
  "CC_UUID_BUFFER_SIZE = 50"

definition CC_MAX_ATTRIBUTES_LEN :: nat where
  "CC_MAX_ATTRIBUTES_LEN = 1024"

definition CC_MAX_URI_LEN :: nat where
  "CC_MAX_URI_LEN = 50"

text \<open>The byte at a position; the position after the last byte reads the terminator.\<close>

definition char_at :: "bytes \<Rightarrow> nat \<Rightarrow> char" where
  "char_at s i = (if i < length s then s ! i else NUL)"

definition cstr :: "bytes \<Rightarrow> bytes" where
  "cstr s = takeWhile (\<lambda>c. c \<noteq> NUL) s"

definition strlen :: "bytes \<Rightarrow> nat" where
  "strlen s = length (cstr s)"

definition strnlen :: "bytes \<Rightarrow> nat \<Rightarrow> nat" where
  "strnlen s n = length (cstr (take n s))"

fun first_char :: "bytes \<Rightarrow> char" where
  "first_char [] = NUL"
| "first_char (c # _) = c"

text \<open>\<open>strncmp0 a b n\<close> is the test \<open>strncmp(a, b, n) == 0\<close>.\<close>

fun strncmp0 :: "bytes \<Rightarrow> bytes \<Rightarrow> nat \<Rightarrow> bool" where
  "strncmp0 a b 0 = True"
| "strncmp0 a b (Suc n) =
     (if first_char a \<noteq> first_char b then False
      else if first_char a = NUL then True
      else strncmp0 (tl a) (tl b) n)"

text \<open>
  \<open>strncpy(dst, src, n); dst[n] = NUL\<close> for a buffer \<open>dst\<close> of \<open>cap\<close> bytes: the terminator is
  written at \<open>n\<close>, so \<open>n\<close> has to be below \<open>cap\<close>. The result is the string the buffer then holds.
\<close>

definition strncpy_term :: "nat \<Rightarrow> bytes \<Rightarrow> nat \<Rightarrow> bytes option" where
  "strncpy_term cap src n = (if n < cap then Some (cstr (take n src)) else None)"

abbreviation no_nul :: "bytes \<Rightarrow> bool" where
  "no_nul s \<equiv> NUL \<notin> set s"

subsection \<open>Facts about C strings\<close>

lemma cstr_no_nul [simp, c_string]: "no_nul s \<Longrightarrow> cstr s = s"
  unfolding cstr_def by (simp add: takeWhile_eq_all_conv) metis

lemma no_nul_cstr [simp, c_string]: "no_nul (cstr s)"
  unfolding cstr_def using set_takeWhileD by fastforce

lemma cstr_Nil [simp]: "cstr [] = []"
  by (simp add: cstr_def)

lemma no_nul_take [simp, intro]: "no_nul s \<Longrightarrow> no_nul (take n s)"
  using in_set_takeD by fastforce

lemma no_nul_drop [simp, intro]: "no_nul s \<Longrightarrow> no_nul (drop n s)"
  using in_set_dropD by fastforce

lemma strlen_no_nul [simp, c_string]: "no_nul s \<Longrightarrow> strlen s = length s"
  by (simp add: strlen_def)

lemma strnlen_no_nul [simp, c_string]: "no_nul s \<Longrightarrow> strnlen s n = min (length s) n"
  by (simp add: strnlen_def)

lemma strnlen_le: "strnlen s n \<le> n"
proof -
  have "length (cstr (take n s)) \<le> length (take n s)"
    unfolding cstr_def by (rule length_takeWhile_le)
  then show ?thesis by (simp add: strnlen_def)
qed

lemma strncmp0_refl [simp]: "strncmp0 s s n"
  by (induction n arbitrary: s) auto

lemma strncmp0_numeral [simp]:
  "strncmp0 a b (numeral k) =
     (if first_char a \<noteq> first_char b then False
      else if first_char a = NUL then True
      else strncmp0 (tl a) (tl b) (pred_numeral k))"
  by (simp add: numeral_eq_Suc)

lemma strncmp0_sym: "strncmp0 a b n = strncmp0 b a n"
  by (induction a b n rule: strncmp0.induct) auto

text \<open>
  On strings without a terminator inside, comparing at most \<open>n\<close> characters compares the first
  \<open>n\<close> characters of the two terminated strings.
\<close>

lemma strncmp0_take:
  "no_nul a \<Longrightarrow> no_nul b \<Longrightarrow> strncmp0 a b n = (take n (a @ [NUL]) = take n (b @ [NUL]))"
proof (induction n arbitrary: a b)
  case 0
  then show ?case by simp
next
  case (Suc n)
  then show ?case
    by (cases a; cases b) (auto simp: Suc.IH)
qed

lemma strncmp0_bounded_left [c_string]:
  assumes "no_nul a" and "no_nul b" and "n = length a"
  shows "strncmp0 a b n = prefix a b"
proof -
  have "take n (b @ [NUL]) = a \<longleftrightarrow> take n b = a"
  proof (cases "n \<le> length b")
    case False
    then have "take n (b @ [NUL]) = b @ [NUL]" and "take n b = b" by simp_all
    moreover have "b @ [NUL] \<noteq> a" using assms(1) by (metis in_set_conv_decomp)
    moreover have "b \<noteq> a" using False assms(3) by auto
    ultimately show ?thesis by simp
  qed simp
  then have "strncmp0 a b n = (take n b = a)"
    using assms by (auto simp: strncmp0_take)
  also have "\<dots> = prefix a b"
    using assms(3) by (metis append_take_drop_id prefix_def take_is_prefix append_eq_conv_conj)
  finally show ?thesis .
qed

lemma strncmp0_prefix_right [c_string]:
  assumes "no_nul a" and "n = length a"
  shows "strncmp0 a b n = prefix a b"
  using assms
proof (induction a arbitrary: b n)
  case Nil
  then show ?case by simp
next
  case (Cons x a)
  then show ?case by (cases b) auto
qed

lemma strncmp0_append_left:
  "n \<le> length a \<Longrightarrow> strncmp0 (a @ r) b n = strncmp0 a b n"
proof (induction n arbitrary: a b)
  case (Suc n)
  then show ?case by (cases a) auto
qed simp

lemma strncmp0_eq_length:
  assumes "no_nul a" and "no_nul b" and "length a = length b" and "n \<ge> length a"
  shows "strncmp0 a b n = (a = b)"
  using assms by (simp add: strncmp0_take)

lemma strncpy_term_no_nul [simp, c_string]:
  "no_nul s \<Longrightarrow> n < cap \<Longrightarrow> strncpy_term cap s n = Some (take n s)"
  by (simp add: strncpy_term_def)

lemma strncpy_term_fault [c_string]: "cap \<le> n \<Longrightarrow> strncpy_term cap s n = None"
  by (simp add: strncpy_term_def)

section \<open>The environment\<close>

text \<open>
  What the runtime asks of the platform. \<open>cc_platform_mem_alloc\<close> and the transport's \<open>send\<close> may
  fail: their answers are read from \<open>e_alloc\<close> and \<open>e_send\<close>, which hold the next answers and are
  quantified over in the theorems (an exhausted list answers success). \<open>e_rand\<close> holds the next
  values of \<open>rand()\<close>, \<open>e_time\<close> is what \<open>cc_platform_get_time()\<close> returns, and \<open>e_sent\<close> records
  the frames handed to the transport, the latest one last. \<open>e_hw\<close> records the calls of the libraries of the boards that have an
  effect outside of the runtime, and \<open>e_temperature_add\<close> is the static variable of a test driver.
\<close>

datatype hw_call =
    Gpio_enable u32
  | Gpio_write u32 u32
  | Gpio_disable u32
  | Sensor_enable bytes u32
  | Sensor_disable bytes
  | Pipe_write bytes
  | Socket_send int bytes
  | Socket_close int

record env =
  e_alloc :: "bool list"
  e_send :: "bool list"
  e_rand :: "nat list"
  e_time :: u32
  e_sent :: "bytes list"
  e_hw :: "hw_call list"
  e_temperature_add :: bool

definition mem_alloc :: "'a env_scheme \<Rightarrow> bool \<times> 'a env_scheme" where
  "mem_alloc e = (case e_alloc e of [] \<Rightarrow> (True, e) | b # bs \<Rightarrow> (b, e\<lparr>e_alloc := bs\<rparr>))"

definition rand :: "'a env_scheme \<Rightarrow> nat \<times> 'a env_scheme" where
  "rand e = (case e_rand e of [] \<Rightarrow> (0, e) | r # rs \<Rightarrow> (r, e\<lparr>e_rand := rs\<rparr>))"

lemma mem_alloc_always [simp]: "e_alloc e = [] \<Longrightarrow> mem_alloc e = (True, e)"
  by (simp add: mem_alloc_def)

lemma mem_alloc_cases:
  obtains (ok) e' where "mem_alloc e = (True, e')" | (fail) e' where "mem_alloc e = (False, e')"
  by (cases "mem_alloc e") (metis (full_types))

section \<open>Generic lemmas\<close>

lemma unat_lt_32: "unat (n :: u32) < 2 ^ 32"
proof -
  have "unat n < 2 ^ LENGTH(32)" by (rule unsigned_less)
  then show ?thesis by simp
qed

lemma unat_lt_64: "unat (n :: u64) < 2 ^ 64"
proof -
  have "unat n < 2 ^ LENGTH(64)" by (rule unsigned_less)
  then show ?thesis by simp
qed

lemma ucast_64_32 [simp]: "ucast (ucast (x :: u32) :: u64) = x"
  by (rule bit_word_eqI) (simp add: bit_unsigned_iff)

lemma bind_Some_iff [simp]:
  "(Option.bind x f = Some y) = (\<exists>z. x = Some z \<and> f z = Some y)"
  by (cases x) auto

lemma take_length_append [simp]: "n = length xs \<Longrightarrow> take n (xs @ ys) = xs"
  by simp

text \<open>An operation that may fault, done \<open>n\<close> times.\<close>

fun times :: "nat \<Rightarrow> ('w \<Rightarrow> 'w option) \<Rightarrow> 'w \<Rightarrow> 'w option" where
  "times 0 f w = Some w"
| "times (Suc n) f w = do { w \<leftarrow> f w; times n f w }"

section \<open>What holds whenever an operation returns\<close>

text \<open>
  \<open>always P m\<close>: the operation \<open>m\<close> faults or its result satisfies \<open>P\<close>. The rules push the condition
  through the sequencing, so that an invariant is shown step by step.
\<close>

definition always :: "('a \<Rightarrow> bool) \<Rightarrow> 'a option \<Rightarrow> bool" where
  "always P m = (\<forall>x. m = Some x \<longrightarrow> P x)"

lemma always_Some [simp]: "always P (Some x) = P x"
  by (simp add: always_def)

lemma always_None [simp]: "always P None"
  by (simp add: always_def)

lemma always_bind [simp]: "always P (Option.bind m f) = always (\<lambda>x. always P (f x)) m"
  by (cases m) simp_all

lemma always_if [simp]: "always P (if b then m else n) = (if b then always P m else always P n)"
  by simp

lemma always_case_option [simp]:
  "always P (case x of None \<Rightarrow> m | Some y \<Rightarrow> f y) = (case x of None \<Rightarrow> always P m | Some y \<Rightarrow> always P (f y))"
  by (cases x) simp_all

lemma always_case_prod [simp]:
  "always P (case x of (a, b) \<Rightarrow> f a b) = (case x of (a, b) \<Rightarrow> always P (f a b))"
  by (cases x) simp

lemma alwaysI: "(\<And>x. m = Some x \<Longrightarrow> P x) \<Longrightarrow> always P m"
  by (simp add: always_def)

lemma alwaysD: "always P m \<Longrightarrow> m = Some x \<Longrightarrow> P x"
  by (simp add: always_def)

lemma always_mono: "always Q m \<Longrightarrow> (\<And>x. Q x \<Longrightarrow> P x) \<Longrightarrow> always P m"
  by (simp add: always_def)

end
