(* ===== verification/Common.thy ===== *)
theory Common
  imports Prelude
begin

text \<open>
  \<open>src/runtime/north/cc_common.c\<close>: the identifier-keyed singly linked list \<open>cc_list_t\<close> used for
  every registry of the runtime, identifier generation and comparison, and the look-up of a key
  in a tokenised JSON object.

  A list head is the list of its items in order; an item keeps the identifier, the length stored
  for it when it was added, the data and whether the item owns its identifier. The theory ends
  with the registry interface (a locale) that the lists provide when their identifiers all have
  the same length, as the identifiers made by \<open>cc_gen_uuid\<close> do.
\<close>

section \<open>The list\<close>

record 'd cc_list_item =
  li_id :: bytes
  li_id_len :: nat
  li_data :: 'd
  li_data_len :: nat
  li_free_id :: bool

type_synonym 'd cc_list = "'d cc_list_item list"

definition cc__list_add ::
  "'d cc_list \<Rightarrow> bytes \<Rightarrow> bool \<Rightarrow> 'd \<Rightarrow> nat \<Rightarrow> 'a env_scheme \<Rightarrow>
   'd cc_list_item option \<times> 'd cc_list \<times> 'a env_scheme" where
  "cc__list_add head i free_id data data_len e =
     (case mem_alloc e of
        (False, e) \<Rightarrow> (None, head, e)
      | (True, e) \<Rightarrow>
          let new_item = \<lparr>li_id = cstr i, li_id_len = strlen i, li_data = data,
                          li_data_len = data_len, li_free_id = free_id\<rparr>
          in (Some new_item, head @ [new_item], e))"

definition cc_list_add_n ::
  "'d cc_list \<Rightarrow> bytes \<Rightarrow> nat \<Rightarrow> 'd \<Rightarrow> nat \<Rightarrow> 'a env_scheme \<Rightarrow>
   'd cc_list_item option \<times> 'd cc_list \<times> 'a env_scheme" where
  "cc_list_add_n head i len data data_len e =
     (case mem_alloc e of
        (False, e) \<Rightarrow> (None, head, e)
      | (True, e) \<Rightarrow>
          let name = cstr (take len i)
          in cc__list_add head name True data data_len e)"

definition cc_list_add ::
  "'d cc_list \<Rightarrow> bytes \<Rightarrow> 'd \<Rightarrow> nat \<Rightarrow> 'a env_scheme \<Rightarrow>
   'd cc_list_item option \<times> 'd cc_list \<times> 'a env_scheme" where
  "cc_list_add head i data data_len e = cc__list_add head i False data data_len e"

text \<open>The first item whose whole identifier starts \<open>i\<close> goes.\<close>

fun cc_list_remove :: "'d cc_list \<Rightarrow> bytes \<Rightarrow> 'd cc_list" where
  "cc_list_remove [] i = []"
| "cc_list_remove (cur # rest) i =
     (if strncmp0 (li_id cur) i (strlen (li_id cur)) then rest
      else cur # cc_list_remove rest i)"

fun cc_list_count :: "'d cc_list \<Rightarrow> u32" where
  "cc_list_count [] = 0"
| "cc_list_count (_ # rest) = 1 + cc_list_count rest"

fun cc_list_get_n :: "'d cc_list \<Rightarrow> bytes \<Rightarrow> nat \<Rightarrow> 'd cc_list_item option" where
  "cc_list_get_n [] i id_len = None"
| "cc_list_get_n (tmp # rest) i id_len =
     (if strnlen (li_id tmp) CC_UUID_BUFFER_SIZE = id_len \<and> strncmp0 (li_id tmp) i id_len
      then Some tmp else cc_list_get_n rest i id_len)"

fun cc_list_get :: "'d cc_list \<Rightarrow> bytes \<Rightarrow> 'd cc_list_item option" where
  "cc_list_get [] i = None"
| "cc_list_get (tmp # rest) i =
     (if strnlen (li_id tmp) CC_UUID_BUFFER_SIZE = strnlen i CC_UUID_BUFFER_SIZE
         \<and> strncmp0 (li_id tmp) i (li_id_len tmp)
      then Some tmp else cc_list_get rest i)"

section \<open>Printing\<close>

text \<open>The decimal digits of \<open>%d\<close>.\<close>

fun show_nat :: "nat \<Rightarrow> bytes" where
  "show_nat n = (if n < 10 then [char_of (48 + n)] else show_nat (n div 10) @ [char_of (48 + n mod 10)])"

declare show_nat.simps [simp del]

section \<open>Identifiers\<close>

definition hex_digits :: bytes where
  "hex_digits = ''0123456789abcdef''"

text \<open>The loop \<open>for (i = 0; i < 36; i++)\<close>: one \<open>rand()\<close> per position, dashes included.\<close>

fun gen_hex :: "nat \<Rightarrow> 'a env_scheme \<Rightarrow> bytes \<times> 'a env_scheme" where
  "gen_hex 0 e = ([], e)"
| "gen_hex (Suc n) e =
     (case rand e of (r, e) \<Rightarrow> case gen_hex n e of (s, e) \<Rightarrow> (hex_digits ! (r mod 16) # s, e))"

definition cc_gen_uuid :: "bytes option \<Rightarrow> 'a env_scheme \<Rightarrow> bytes \<times> 'a env_scheme" where
  "cc_gen_uuid pfx e =
     (let pre = (case pfx of None \<Rightarrow> [] | Some p \<Rightarrow> cstr p)
      in case gen_hex 36 e of (s, e) \<Rightarrow>
           (pre @ s[8 := CHR ''-'', 13 := CHR ''-'', 18 := CHR ''-'', 23 := CHR ''-''], e))"

text \<open>\<open>char\<close> is signed on the x86 platform.\<close>

definition signed_char :: "char \<Rightarrow> int" where
  "signed_char c = (let n = of_char c in if n < 128 then n else n - 256)"

text \<open>The loop runs from \<open>len1\<close> down to 0 and reads one byte past the identifiers.\<close>

fun uuid_loop :: "bytes \<Rightarrow> bytes \<Rightarrow> nat \<Rightarrow> bool" where
  "uuid_loop id1 id2 0 = (signed_char (char_at id1 0) > signed_char (char_at id2 0))"
| "uuid_loop id1 id2 (Suc i) =
     (if signed_char (char_at id1 (Suc i)) > signed_char (char_at id2 (Suc i)) then True
      else uuid_loop id1 id2 i)"

definition cc_uuid_is_higher :: "bytes \<Rightarrow> nat \<Rightarrow> bytes \<Rightarrow> nat \<Rightarrow> bool" where
  "cc_uuid_is_higher id1 len1 id2 len2 =
     (if len1 > len2 then True else if len2 > len1 then False else uuid_loop id1 id2 len1)"

section \<open>JSON objects\<close>

text \<open>
  \<open>jsmn\<close> is third-party: what is used of it here is its token array, in which each token gives the
  kind of the value, where its text starts and ends and how many children follow.
\<close>

datatype jsmntype = JSMN_UNDEFINED | JSMN_OBJECT | JSMN_ARRAY | JSMN_STRING | JSMN_PRIMITIVE

record jsmntok =
  jtype :: jsmntype
  jstart :: nat
  jend :: nat
  jsize :: nat

text \<open>
  A token pointer is the array from that token on; reading past the array faults. The parameter
  \<open>count\<close> of the C functions is passed along and never read.
\<close>

function (sequential) cc_json_skip :: "jsmntok list \<Rightarrow> nat option"
  and json_skips :: "nat \<Rightarrow> jsmntok list \<Rightarrow> nat option" where
  "cc_json_skip [] = None"
| "cc_json_skip (token # ts) =
     (case jtype token of
        JSMN_PRIMITIVE \<Rightarrow> Some 1
      | JSMN_STRING \<Rightarrow> Some 1
      | JSMN_OBJECT \<Rightarrow> map_option Suc (json_skips (2 * jsize token) ts)
      | JSMN_ARRAY \<Rightarrow> map_option Suc (json_skips (jsize token) ts)
      | JSMN_UNDEFINED \<Rightarrow> Some 0)"
| "json_skips 0 ts = Some 0"
| "json_skips (Suc n) ts =
     do { j \<leftarrow> cc_json_skip ts; k \<leftarrow> json_skips n (drop j ts); Some (j + k) }"
  by pat_completeness auto
termination
  by (relation "measures [\<lambda>x. case x of Inl ts \<Rightarrow> length ts | Inr (n, ts) \<Rightarrow> length ts,
                          \<lambda>x. case x of Inl ts \<Rightarrow> 0 | Inr (n, ts) \<Rightarrow> n]") auto

fun json_find :: "bytes \<Rightarrow> nat \<Rightarrow> jsmntok list \<Rightarrow> bytes \<Rightarrow> nat \<Rightarrow> jsmntok list option option" where
  "json_find buffer 0 ts key key_len = Some None"
| "json_find buffer (Suc n) [] key key_len = None"
| "json_find buffer (Suc n) (k # ts) key key_len =
     (if jtype k = JSMN_STRING \<and> key_len = jend k - jstart k
         \<and> strncmp0 (drop (jstart k) buffer) key key_len
      then Some (Some ts)
      else do { j \<leftarrow> cc_json_skip ts; json_find buffer n (drop j ts) key key_len })"

text \<open>The outer option is the fault, the inner one the null pointer for a missing key.\<close>

definition cc_json_get_dict_value ::
  "bytes \<Rightarrow> jsmntok list \<Rightarrow> bytes \<Rightarrow> nat \<Rightarrow> jsmntok list option option" where
  "cc_json_get_dict_value buffer object key key_len =
     (case object of
        [] \<Rightarrow> None
      | t # ts \<Rightarrow> if jtype t \<noteq> JSMN_OBJECT then Some None
                 else json_find buffer (jsize t) ts key key_len)"

section \<open>Lists with identifiers of one length\<close>

text \<open>
  \<open>keyed n l\<close>: every identifier of the list has \<open>n\<close> characters, which the fixed buffers can
  hold, and no identifier occurs twice. On such a list the prefix tests of \<open>cc_list_remove\<close> and
  \<open>cc_list_get_n\<close> are equality tests.
\<close>

definition keyed :: "nat \<Rightarrow> 'd cc_list \<Rightarrow> bool" where
  "keyed n l \<longleftrightarrow> n \<le> CC_UUID_BUFFER_SIZE \<and> distinct (map li_id l)
     \<and> (\<forall>x \<in> set l. length (li_id x) = n \<and> no_nul (li_id x) \<and> li_id_len x = n)"

abbreviation key_of :: "nat \<Rightarrow> bytes \<Rightarrow> bool" where
  "key_of n k \<equiv> length k = n \<and> no_nul k"

lemma list_count_length: "cc_list_count l = of_nat (length l)"
  by (induction l) simp_all

lemma strncmp0_same_length:
  "no_nul a \<Longrightarrow> no_nul b \<Longrightarrow> length a = length b \<Longrightarrow> strncmp0 a b (length b) = (a = b)"
  using strncmp0_eq_length by simp

lemma keyed_get_n:
  assumes "keyed n l" and "key_of n k"
  shows "cc_list_get_n l k n = find (\<lambda>x. li_id x = k) l"
  using assms
proof (induction l)
  case (Cons x l)
  then have "keyed n l" by (simp add: keyed_def)
  moreover have "strncmp0 (li_id x) k n = (li_id x = k)"
    using Cons.prems strncmp0_same_length[of "li_id x" k] by (simp add: keyed_def)
  moreover have "strnlen (li_id x) CC_UUID_BUFFER_SIZE = n"
    using Cons.prems by (simp add: keyed_def)
  ultimately show ?case using Cons by simp
qed simp

lemma keyed_remove:
  assumes "keyed n l" and "key_of n k"
  shows "cc_list_remove l k = filter (\<lambda>x. li_id x \<noteq> k) l"
  using assms
proof (induction l)
  case (Cons x l)
  then have k: "keyed n l" and d: "li_id x \<notin> set (map li_id l)" by (simp_all add: keyed_def)
  have cmp: "strncmp0 (li_id x) k (strlen (li_id x)) = (li_id x = k)"
    using Cons.prems strncmp0_same_length[of "li_id x" k] by (simp add: keyed_def)
  show ?case
  proof (cases "li_id x = k")
    case True
    then have "\<forall>y \<in> set l. li_id y \<noteq> k" using d by (metis image_eqI set_map)
    then have "filter (\<lambda>y. li_id y \<noteq> k) l = l" by (simp add: filter_True)
    with True cmp show ?thesis by simp
  next
    case False
    with cmp k Cons show ?thesis by simp
  qed
qed simp

lemma keyed_filter [intro]: "keyed n l \<Longrightarrow> keyed n (filter P l)"
  unfolding keyed_def by (auto intro: distinct_map_filter)

lemma find_None_iff_key: "(find (\<lambda>x. li_id x = k) l = None) = (k \<notin> li_id ` set l)"
  by (auto simp: find_None_iff)

lemma keyed_snoc:
  assumes "keyed n l" and "key_of n k" and "k \<notin> li_id ` set l"
    and "li_id x = k" and "li_id_len x = n"
  shows "keyed n (l @ [x])"
  using assms by (auto simp: keyed_def)

lemma find_append_key:
  "find P (xs @ ys) = (case find P xs of None \<Rightarrow> find P ys | Some x \<Rightarrow> Some x)"
  by (induction xs) auto

lemma find_filter_key:
  "find (\<lambda>x. li_id x = k') (filter (\<lambda>x. li_id x \<noteq> k) l) =
   (if k' = k then None else find (\<lambda>x. li_id x = k') l)"
  by (induction l) auto

section \<open>The registry interface\<close>

text \<open>
  What the clients of a list (pending messages, tunnels) rely on. \<open>add\<close> reports whether the
  allocation went through and leaves the registry alone when it did not.
\<close>

locale id_registry =
  fixes ok :: "bytes \<Rightarrow> bool"
    and inv :: "'l \<Rightarrow> bool"
    and lookup :: "'l \<Rightarrow> bytes \<Rightarrow> 'd option"
    and add :: "'l \<Rightarrow> bytes \<Rightarrow> 'd \<Rightarrow> 'e \<Rightarrow> bool \<times> 'l \<times> 'e"
    and del :: "'l \<Rightarrow> bytes \<Rightarrow> 'l"
  assumes add_fail: "add l k d e = (False, l', e') \<Longrightarrow> l' = l"
    and inv_add: "inv l \<Longrightarrow> ok k \<Longrightarrow> lookup l k = None \<Longrightarrow> add l k d e = (True, l', e') \<Longrightarrow> inv l'"
    and lookup_add: "inv l \<Longrightarrow> ok k \<Longrightarrow> lookup l k = None \<Longrightarrow> add l k d e = (True, l', e') \<Longrightarrow>
          ok k' \<Longrightarrow> lookup l' k' = (if k' = k then Some d else lookup l k')"
    and inv_del: "inv l \<Longrightarrow> ok k \<Longrightarrow> inv (del l k)"
    and lookup_del: "inv l \<Longrightarrow> ok k \<Longrightarrow> ok k' \<Longrightarrow>
          lookup (del l k) k' = (if k' = k then None else lookup l k')"
begin

lemma inv_add_any:
  assumes "inv l" and "ok k" and "lookup l k = None" and "add l k d e = (r, l', e')"
  shows "inv l'"
proof (cases r)
  case True
  with assms show ?thesis using inv_add[of l k d e l' e'] by simp
next
  case False
  with assms show ?thesis using add_fail[of l k d e l' e'] by simp
qed

lemma add_del_lookup:
  assumes "inv l" and "ok k" and "lookup l k = None" and "add l k d e = (True, l', e')"
    and "ok k'"
  shows "lookup (del l' k) k' = lookup l k'"
proof -
  have "inv l'" by (rule inv_add[OF assms(1-4)])
  then have "lookup (del l' k) k' = (if k' = k then None else lookup l' k')"
    using assms(2,5) by (rule lookup_del)
  with lookup_add[OF assms(1-5)] assms(3) show ?thesis by simp
qed

lemma del_del: "inv l \<Longrightarrow> ok k \<Longrightarrow> ok k' \<Longrightarrow> lookup (del (del l k) k) k' = lookup (del l k) k'"
  by (simp add: lookup_del inv_del)

end

definition list_lookup :: "nat \<Rightarrow> 'd cc_list \<Rightarrow> bytes \<Rightarrow> 'd option" where
  "list_lookup n l k = map_option li_data (cc_list_get_n l k n)"

definition list_insert ::
  "nat \<Rightarrow> nat \<Rightarrow> 'd cc_list \<Rightarrow> bytes \<Rightarrow> 'd \<Rightarrow> 'a env_scheme \<Rightarrow> bool \<times> 'd cc_list \<times> 'a env_scheme" where
  "list_insert n dl l k d e =
     (case cc_list_add_n l k n d dl e of (r, l', e') \<Rightarrow> (r \<noteq> None, l', e'))"

lemma list_insert_True:
  assumes "list_insert n dl l k d e = (True, l', e')" and "key_of n k"
  shows "\<exists>x. l' = l @ [x] \<and> li_id x = k \<and> li_id_len x = n \<and> li_data x = d"
  using assms
  by (auto simp: list_insert_def cc_list_add_n_def cc__list_add_def Let_def
      split: prod.splits bool.splits if_splits)

lemma list_insert_False:
  "list_insert n dl l k d e = (False, l', e') \<Longrightarrow> l' = l"
  by (auto simp: list_insert_def cc_list_add_n_def cc__list_add_def Let_def
      split: prod.splits bool.splits if_splits)

lemma list_lookup_keyed:
  "keyed n l \<Longrightarrow> key_of n k \<Longrightarrow> list_lookup n l k = map_option li_data (find (\<lambda>x. li_id x = k) l)"
  by (simp add: list_lookup_def keyed_get_n)

lemma id_registry_keyed:
  "id_registry (key_of n) (keyed n) (list_lookup n) (list_insert n dl) cc_list_remove"
proof (unfold_locales, goal_cases)
  case (1 l k d e l' e')
  then show ?case by (rule list_insert_False)
next
  case (2 l k d e l' e')
  from list_insert_True[OF 2(4,2)] obtain x where "l' = l @ [x]" "li_id x = k" "li_id_len x = n"
    by blast
  moreover have "k \<notin> li_id ` set l" using 2 by (simp add: list_lookup_keyed find_None_iff_key)
  ultimately show ?case using 2 by (auto intro: keyed_snoc)
next
  case (3 l k d e l' e' k')
  from list_insert_True[OF 3(4,2)]
  obtain x where x: "l' = l @ [x]" "li_id x = k" "li_id_len x = n" "li_data x = d"
    by blast
  have "k \<notin> li_id ` set l" using 3 by (simp add: list_lookup_keyed find_None_iff_key)
  then have "keyed n l'" using 3 x by (auto intro: keyed_snoc)
  then have l': "list_lookup n l' k' =
      map_option li_data (case find (\<lambda>y. li_id y = k') l of
        None \<Rightarrow> if k = k' then Some x else None | Some y \<Rightarrow> Some y)"
    using 3(5) x by (simp add: list_lookup_keyed find_append_key split: option.split)
  show ?case
  proof (cases "k' = k")
    case True
    with \<open>k \<notin> li_id ` set l\<close> have "find (\<lambda>y. li_id y = k') l = None"
      by (simp add: find_None_iff_key)
    with l' True x show ?thesis by simp
  next
    case False
    with l' 3(1,5) show ?thesis by (simp add: list_lookup_keyed split: option.split)
  qed
next
  case (4 l k)
  then show ?case by (auto simp: keyed_remove)
next
  case (5 l k k')
  then show ?case by (auto simp: keyed_remove list_lookup_keyed keyed_filter find_filter_key)
qed

text \<open>
  The registries keyed by message identifiers (\<open>MSGID_\<close> and 36 characters) and by bare
  identifiers.
\<close>

interpretation msgid_reg: id_registry "key_of 42" "keyed 42" "list_lookup 42" "list_insert 42 dl"
  cc_list_remove for dl
  by (rule id_registry_keyed)

interpretation uuid_reg: id_registry "key_of 36" "keyed 36" "list_lookup 36" "list_insert 36 dl"
  cc_list_remove for dl
  by (rule id_registry_keyed)

section \<open>Properties\<close>


text \<open>A registry that holds one message identifier, a second identifier and an environment
  without failures satisfy the hypotheses.\<close>

definition example_env :: env where
  "example_env = \<lparr>e_alloc = [], e_send = [], e_rand = [], e_time = 0, e_sent = [], e_hw = [], e_temperature_add = True\<rparr>"

definition example_item :: "bytes \<Rightarrow> nat cc_list_item" where
  "example_item i = \<lparr>li_id = i, li_id_len = length i, li_data = 7, li_data_len = 0, li_free_id = True\<rparr>"


subsection \<open>JSON look-up\<close>

text \<open>A JSON value as a tree, and the token array of a tree: each value before its children.\<close>

datatype jtree =
    JPrim nat nat
  | JStr nat nat nat
  | JArr nat nat "jtree list"
  | JObj nat nat "(jtree \<times> jtree) list"

fun jflat :: "jtree \<Rightarrow> jsmntok list" where
  "jflat (JPrim s t) = [\<lparr>jtype = JSMN_PRIMITIVE, jstart = s, jend = t, jsize = 0\<rparr>]"
| "jflat (JStr s t n) = [\<lparr>jtype = JSMN_STRING, jstart = s, jend = t, jsize = n\<rparr>]"
| "jflat (JArr s t vs) =
     \<lparr>jtype = JSMN_ARRAY, jstart = s, jend = t, jsize = length vs\<rparr> # concat (map jflat vs)"
| "jflat (JObj s t kvs) =
     \<lparr>jtype = JSMN_OBJECT, jstart = s, jend = t, jsize = length kvs\<rparr>
       # concat (map (\<lambda>(k, v). jflat k @ jflat v) kvs)"

fun is_key :: "jtree \<Rightarrow> bool" where
  "is_key (JStr s t n) = (s \<le> t)"
| "is_key _ = False"

fun jtext :: "bytes \<Rightarrow> jtree \<Rightarrow> bytes" where
  "jtext buffer (JStr s t n) = take (t - s) (drop s buffer)"
| "jtext buffer _ = []"

lemma json_skips_concat:
  assumes "\<And>v rest. v \<in> set vs \<Longrightarrow> cc_json_skip (jflat v @ rest) = Some (length (jflat v))"
  shows "json_skips (length vs) (concat (map jflat vs) @ rest) = Some (length (concat (map jflat vs)))"
  using assms by (induction vs) auto

lemma json_skips_pairs:
  assumes "\<And>k v rest. (k, v) \<in> set kvs \<Longrightarrow>
             cc_json_skip (jflat k @ rest) = Some (length (jflat k))
             \<and> cc_json_skip (jflat v @ rest) = Some (length (jflat v))"
  shows "json_skips (2 * length kvs) (concat (map (\<lambda>(k, v). jflat k @ jflat v) kvs) @ rest)
         = Some (length (concat (map (\<lambda>(k, v). jflat k @ jflat v) kvs)))"
  using assms
proof (induction kvs)
  case (Cons kv kvs)
  obtain k v where kv: "kv = (k, v)" by (cases kv)
  let ?r = "concat (map (\<lambda>(k, v). jflat k @ jflat v) kvs) @ rest"
  have "json_skips (2 * length kvs) ?r = Some (length (concat (map (\<lambda>(k, v). jflat k @ jflat v) kvs)))"
    using Cons.prems by (intro Cons.IH) auto
  moreover have "cc_json_skip (jflat k @ jflat v @ ?r) = Some (length (jflat k))"
    and "cc_json_skip (jflat v @ ?r) = Some (length (jflat v))"
    using Cons.prems[of k v] kv by simp_all
  ultimately show ?case by (simp add: kv)
qed simp

lemma cc_json_skip_jflat: "cc_json_skip (jflat t @ rest) = Some (length (jflat t))"
proof (induction t arbitrary: rest)
  case (JArr s t vs)
  then show ?case by (simp add: json_skips_concat)
next
  case (JObj s t kvs)
  then have "json_skips (2 * length kvs) (concat (map (\<lambda>(k, v). jflat k @ jflat v) kvs) @ rest)
         = Some (length (concat (map (\<lambda>(k, v). jflat k @ jflat v) kvs)))"
    by (intro json_skips_pairs) (force intro!: conjI)
  then show ?case by simp
qed simp_all

lemma strncmp0_slice:
  assumes "no_nul key" and "n = length key"
  shows "strncmp0 p key n = (take n p = key)"
proof -
  have "strncmp0 p key n = prefix key p"
    using assms by (subst strncmp0_sym) (rule strncmp0_prefix_right)
  also have "\<dots> = (take n p = key)"
    using assms(2) by (metis append_eq_conv_conj prefix_def take_is_prefix)
  finally show ?thesis .
qed

abbreviation jpairs :: "(jtree \<times> jtree) list \<Rightarrow> jsmntok list" where
  "jpairs kvs \<equiv> concat (map (\<lambda>(k, v). jflat k @ jflat v) kvs)"

lemma json_find_hit:
  assumes "no_nul key" and "a \<le> b" and "b \<le> length buffer" and "jtext buffer (JStr a b n) = key"
  shows "json_find buffer (Suc m) (jflat (JStr a b n) @ jflat v @ r) key (length key)
         = Some (Some (jflat v @ r))"
  using assms by (auto simp: strncmp0_slice)

lemma json_find_miss:
  assumes "no_nul key" and "a \<le> b" and "b \<le> length buffer" and "jtext buffer (JStr a b n) \<noteq> key"
  shows "json_find buffer (Suc m) (jflat (JStr a b n) @ jflat v @ r) key (length key)
         = json_find buffer m r key (length key)"
  using assms by (auto simp: strncmp0_slice cc_json_skip_jflat)

definition json_ok :: "bytes \<Rightarrow> (jtree \<times> jtree) list \<Rightarrow> bool" where
  "json_ok buffer kvs \<longleftrightarrow>
     list_all (\<lambda>(k, v). case k of JStr a b n \<Rightarrow> a \<le> b \<and> b \<le> length buffer | _ \<Rightarrow> False) kvs"

lemma json_find_pairs:
  assumes "json_ok buffer kvs" and "no_nul key"
  shows "case find (\<lambda>(k, v). jtext buffer k = key) kvs of
           None \<Rightarrow> json_find buffer (length kvs) (jpairs kvs @ rest) key (length key) = Some None
         | Some (k, v) \<Rightarrow> \<exists>rest'. json_find buffer (length kvs) (jpairs kvs @ rest) key (length key)
                              = Some (Some (jflat v @ rest'))"
  using assms(1)
proof (induction kvs)
  case (Cons kv kvs)
  then obtain a b n v where kv: "kv = (JStr a b n, v)" and ab: "a \<le> b" "b \<le> length buffer"
    and ok: "json_ok buffer kvs"
    by (cases kv) (auto simp: json_ok_def split: jtree.splits)
  note IH = Cons.IH[OF ok]
  have unf: "json_find buffer (length (kv # kvs)) (jpairs (kv # kvs) @ rest) key (length key)
      = json_find buffer (Suc (length kvs)) (jflat (JStr a b n) @ jflat v @ jpairs kvs @ rest)
          key (length key)"
    by (simp add: kv)
  show ?case
  proof (cases "jtext buffer (JStr a b n) = key")
    case True
    then show ?thesis
      unfolding unf json_find_hit[OF assms(2) ab True] by (simp add: kv)
  next
    case False
    then show ?thesis
      unfolding unf json_find_miss[OF assms(2) ab False] using IH by (simp add: kv)
  qed
qed simp

text \<open>
  C25: \<open>cc_json_get_dict_value\<close> finds what a JSON object means. On the token array of an object
  with string keys it returns the tokens of the value of the first pair whose key text is the
  key asked for, whatever is nested in the values it skips, and null when there is none; it
  never reads past the array.
\<close>

theorem cc_json_get_dict_value_correct:
  assumes "json_ok buffer kvs" and "no_nul key"
  shows "case find (\<lambda>(k, v). jtext buffer k = key) kvs of
           None \<Rightarrow> cc_json_get_dict_value buffer (jflat (JObj s t kvs) @ rest) key (length key) = Some None
         | Some (k, v) \<Rightarrow>
             \<exists>rest'. cc_json_get_dict_value buffer (jflat (JObj s t kvs) @ rest) key (length key)
                     = Some (Some (jflat v @ rest'))"
proof -
  have "cc_json_get_dict_value buffer (jflat (JObj s t kvs) @ rest) key (length key)
        = json_find buffer (length kvs) (jpairs kvs @ rest) key (length key)"
    by (simp add: cc_json_get_dict_value_def)
  then show ?thesis using json_find_pairs[OF assms, of rest] by (simp only:)
qed

text \<open>A join reply whose first value is itself an object.\<close>

definition example_json :: bytes where
  "example_json = ''{a:{b:1},id:x}''"

definition example_tree :: "(jtree \<times> jtree) list" where
  "example_tree = [(JStr 1 2 1, JObj 3 8 [(JStr 4 5 1, JPrim 6 7)]), (JStr 9 11 1, JStr 12 13 0)]"

theorem cc_json_get_dict_value_witness:
  "\<exists>rest. cc_json_get_dict_value example_json (jflat (JObj 0 14 example_tree)) ''id'' 2
          = Some (Some (jflat (JStr 12 13 0) @ rest))"
  using cc_json_get_dict_value_correct[of example_json example_tree "''id''" 0 14 "[]"]
  by (simp add: json_ok_def example_tree_def example_json_def numeral_2_eq_2)

subsection \<open>Identifiers\<close>

lemma hex_digit_nth: "hex_digits ! (r mod 16) \<in> set hex_digits"
  by (rule nth_mem) (simp add: hex_digits_def)

lemma gen_hex_shape: "length (fst (gen_hex n e)) = n \<and> set (fst (gen_hex n e)) \<subseteq> set hex_digits"
proof (induction n arbitrary: e)
  case (Suc n)
  obtain r e1 where "rand e = (r, e1)" by (cases "rand e")
  then show ?case
    using Suc[of e1] hex_digit_nth[of r] by (cases "gen_hex n e1") simp
qed simp

lemma no_nul_hex [simp]: "NUL \<notin> set hex_digits"
  by (simp add: hex_digits_def)

lemma gen_uuid_shape:
  "case cc_gen_uuid (Some p) e of (s, e') \<Rightarrow>
     no_nul s \<and> length s = strlen p + 36 \<and> take (strlen p) s = cstr p
     \<and> list_all (\<lambda>i. let c = s ! (strlen p + i) in
           if i \<in> {8, 13, 18, 23} then c = CHR ''-'' else c \<in> set hex_digits) [0..<36]"
proof -
  obtain h e' where h: "gen_hex 36 e = (h, e')" by (cases "gen_hex 36 e")
  then have len: "length h = 36" and hex: "set h \<subseteq> set hex_digits"
    using gen_hex_shape[of 36 e] by simp_all
  let ?u = "h[8 := CHR ''-'', 13 := CHR ''-'', 18 := CHR ''-'', 23 := CHR ''-'']"
  have "set ?u \<subseteq> insert (CHR ''-'') (set hex_digits)"
    using hex by (meson set_update_subset_insert subset_trans insert_mono insert_subsetI subset_insertI
      insertI1 set_update_subsetI)
  then have nn: "no_nul ?u" using no_nul_hex by fastforce
  have "list_all (\<lambda>i. let c = ?u ! i in
           if i \<in> {8, 13, 18, 23} then c = CHR ''-'' else c \<in> set hex_digits) [0..<36]"
    using len hex by (auto simp: list_all_iff Let_def nth_list_update subset_iff)
  then show ?thesis
    using h len nn
    by (auto simp: cc_gen_uuid_def strlen_def nth_append CC_UUID_BUFFER_SIZE_def)
qed

lemma gen_uuid_key: "key_of 42 (fst (cc_gen_uuid (Some ''MSGID_'') e))"
  using gen_uuid_shape[of "''MSGID_''" e] by (auto simp: strlen_def cstr_def split: prod.splits)

text \<open>
  The identifiers the runtime makes. \<open>cc_gen_uuid\<close> returns the prefix followed by 36
  characters, dashes at the positions 8, 13, 18 and 23 and hexadecimal digits elsewhere, and the
  identifier contains no terminator.
\<close>

lemma cc_gen_uuid_shape:
  "case cc_gen_uuid (Some p) e of (s, e') \<Rightarrow>
     no_nul s \<and> length s = strlen p + 36 \<and> take (strlen p) s = cstr p
     \<and> list_all (\<lambda>i. let c = s ! (strlen p + i) in
           if i \<in> {8, 13, 18, 23} then c = CHR ''-'' else c \<in> set hex_digits) [0..<36]"
  by (rule gen_uuid_shape)

text \<open>
  \<open>cc_uuid_is_higher\<close> is not an order: two different identifiers of the same length can each
  be higher than the other, so two runtimes that ask each other for a tunnel at the same time can
  both give up their own identifier.
\<close>

lemma cc_uuid_is_higher_not_asymmetric:
  "\<exists>id1 id2. key_of 36 id1 \<and> key_of 36 id2 \<and> id1 \<noteq> id2
     \<and> cc_uuid_is_higher id1 36 id2 36 \<and> cc_uuid_is_higher id2 36 id1 36"
proof -
  let ?a = "''10000000-0000-0000-0000-000000000000''" and ?b = "''01000000-0000-0000-0000-000000000000''"
  have "key_of 36 ?a" "key_of 36 ?b" "?a \<noteq> ?b" by simp_all
  moreover have "cc_uuid_is_higher ?a 36 ?b 36" "cc_uuid_is_higher ?b 36 ?a 36"
    by (simp_all add: cc_uuid_is_higher_def numeral_eq_Suc char_at_def signed_char_def)
  ultimately show ?thesis by blast
qed

text \<open>
  \<open>cc_list_remove\<close> compares only as many characters as the item's own identifier has. On a
  list that holds an item whose identifier is a proper prefix of another one, asking for the
  longer identifier removes the shorter item and keeps the one that was named.
\<close>

lemma cc_list_remove_prefix:
  assumes "no_nul (li_id x)" and "no_nul (li_id y)" and "strict_prefix (li_id x) (li_id y)"
  shows "cc_list_remove (x # y # l) (li_id y) = y # l"
  using assms by (simp add: strncmp0_prefix_right strict_prefix_def)

end
