(* ===== verification/Msgpuck.thy ===== *)
theory Msgpuck
  imports Prelude
begin

text \<open>
  The interface of the \<open>msgpuck\<close> library, whose sources are not part of the repository. The coder
  takes its functions as the parameter \<open>mp\<close>, a record with one field per library function; the
  locale \<open>msgpuck\<close> states what the library documents: the type of the first byte of an encoded
  value, that decoding an encoded value returns it and the rest of the buffer, and that
  \<open>mp_next\<close> skips exactly one value, nested ones included.

  A pointer into the buffer is the list of the bytes from there on. Decoders that take a
  \<open>const char **\<close> return the advanced pointer; \<open>None\<close> is a read past the buffer or a failed
  assertion. Encoders return the bytes they write. Floating point numbers are kept as their
  IEEE-754 bit patterns.
\<close>

datatype mp_type =
    MP_NIL | MP_UINT | MP_INT | MP_STR | MP_BIN | MP_ARRAY | MP_MAP | MP_BOOL | MP_FLOAT
  | MP_DOUBLE | MP_EXT

record mp =
  mp_typeof :: "char \<Rightarrow> mp_type"
  mp_decode_map :: "bytes \<Rightarrow> (u32 \<times> bytes) option"
  mp_decode_array :: "bytes \<Rightarrow> (u32 \<times> bytes) option"
  mp_decode_str :: "bytes \<Rightarrow> (bytes \<times> u32 \<times> bytes) option"
  mp_decode_bin :: "bytes \<Rightarrow> (bytes \<times> u32 \<times> bytes) option"
  mp_decode_bool :: "bytes \<Rightarrow> (bool \<times> bytes) option"
  mpk_decode_uint :: "bytes \<Rightarrow> (u64 \<times> bytes) option"
  mp_decode_int :: "bytes \<Rightarrow> (u64 \<times> bytes) option"
  mp_decode_float :: "bytes \<Rightarrow> (u32 \<times> bytes) option"
  mp_decode_double :: "bytes \<Rightarrow> (u64 \<times> bytes) option"
  mp_next :: "bytes \<Rightarrow> bytes option"
  mp_encode_map :: "u32 \<Rightarrow> bytes"
  mp_encode_array :: "u32 \<Rightarrow> bytes"
  mp_encode_str :: "bytes \<Rightarrow> u32 \<Rightarrow> bytes"
  mp_encode_bin :: "bytes \<Rightarrow> u32 \<Rightarrow> bytes"
  mp_encode_uint :: "u64 \<Rightarrow> bytes"
  mp_encode_int :: "u64 \<Rightarrow> bytes"
  mp_encode_float :: "u32 \<Rightarrow> bytes"
  mp_encode_double :: "u64 \<Rightarrow> bytes"
  mp_encode_bool :: "bool \<Rightarrow> bytes"
  mp_encode_nil :: bytes
  mp_sizeof_uint :: "u64 \<Rightarrow> u32"
  mp_sizeof_int :: "u64 \<Rightarrow> u32"
  mp_sizeof_bool :: "bool \<Rightarrow> u32"
  mp_sizeof_double :: "u64 \<Rightarrow> u32"
  mp_sizeof_float :: "u32 \<Rightarrow> u32"
  mp_sizeof_str :: "u32 \<Rightarrow> u32"
  mp_sizeof_nil :: u32

text \<open>\<open>mp_typeof(*r)\<close>: reading the byte faults at the end of the buffer.\<close>

definition type_at :: "mp \<Rightarrow> bytes \<Rightarrow> mp_type option" where
  "type_at mp r = (case r of [] \<Rightarrow> None | c # _ \<Rightarrow> Some (mp_typeof mp c))"

section \<open>Values and their encoding\<close>

datatype mpv =
    MNil
  | MBool bool
  | MUint u64
  | MInt u64
  | MFloat u32
  | MDouble u64
  | MStr bytes
  | MBin bytes
  | MArr "mpv list"
  | MMap "(mpv \<times> mpv) list"

fun enc :: "mp \<Rightarrow> mpv \<Rightarrow> bytes" where
  "enc mp MNil = mp_encode_nil mp"
| "enc mp (MBool b) = mp_encode_bool mp b"
| "enc mp (MUint n) = mp_encode_uint mp n"
| "enc mp (MInt n) = mp_encode_int mp n"
| "enc mp (MFloat n) = mp_encode_float mp n"
| "enc mp (MDouble n) = mp_encode_double mp n"
| "enc mp (MStr s) = mp_encode_str mp s (of_nat (length s))"
| "enc mp (MBin s) = mp_encode_bin mp s (of_nat (length s))"
| "enc mp (MArr vs) = mp_encode_array mp (of_nat (length vs)) @ concat (map (enc mp) vs)"
| "enc mp (MMap kvs) =
     mp_encode_map mp (of_nat (length kvs)) @ concat (map (\<lambda>(k, v). enc mp k @ enc mp v) kvs)"

text \<open>Lengths fit the 32 bits of the format; negative integers are encoded as such.\<close>

fun wf_mpv :: "mpv \<Rightarrow> bool" where
  "wf_mpv (MStr s) = (length s < 2 ^ 32)"
| "wf_mpv (MBin s) = (length s < 2 ^ 32)"
| "wf_mpv (MArr vs) = (length vs < 2 ^ 32 \<and> list_all wf_mpv vs)"
| "wf_mpv (MMap kvs) = (length kvs < 2 ^ 32 \<and> list_all (\<lambda>(k, v). wf_mpv k \<and> wf_mpv v) kvs)"
| "wf_mpv (MInt n) = (sint n < 0)"
| "wf_mpv _ = True"

fun mp_type_of :: "mpv \<Rightarrow> mp_type" where
  "mp_type_of MNil = MP_NIL"
| "mp_type_of (MBool _) = MP_BOOL"
| "mp_type_of (MUint _) = MP_UINT"
| "mp_type_of (MInt _) = MP_INT"
| "mp_type_of (MFloat _) = MP_FLOAT"
| "mp_type_of (MDouble _) = MP_DOUBLE"
| "mp_type_of (MStr _) = MP_STR"
| "mp_type_of (MBin _) = MP_BIN"
| "mp_type_of (MArr _) = MP_ARRAY"
| "mp_type_of (MMap _) = MP_MAP"

lemma unat_of_nat_u32 [simp]: "n < 2 ^ 32 \<Longrightarrow> unat (of_nat n :: u32) = n"
  by (simp add: unat_of_nat)

lemma unat_of_nat_u32' [simp]: "n < 4294967296 \<Longrightarrow> unat (of_nat n :: u32) = n"
  by (simp add: unat_of_nat)

section \<open>What the library promises\<close>

locale msgpuck =
  fixes mp :: mp
  assumes type_at_enc: "wf_mpv v \<Longrightarrow> type_at mp (enc mp v @ rest) = Some (mp_type_of v)"
    and next_enc: "wf_mpv v \<Longrightarrow> mp_next mp (enc mp v @ rest) = Some rest"
    and map_enc: "mp_decode_map mp (mp_encode_map mp n @ rest) = Some (n, rest)"
    and array_enc: "mp_decode_array mp (mp_encode_array mp n @ rest) = Some (n, rest)"
    and str_enc: "unat n = length s \<Longrightarrow>
          mp_decode_str mp (mp_encode_str mp s n @ rest) = Some (s @ rest, n, rest)"
    and bin_enc: "unat n = length s \<Longrightarrow>
          mp_decode_bin mp (mp_encode_bin mp s n @ rest) = Some (s @ rest, n, rest)"
    and str_take: "unat n \<le> length s \<Longrightarrow> mp_encode_str mp s n = mp_encode_str mp (take (unat n) s) n"
    and bin_take: "unat n \<le> length s \<Longrightarrow> mp_encode_bin mp s n = mp_encode_bin mp (take (unat n) s) n"
    and bool_enc: "mp_decode_bool mp (mp_encode_bool mp b @ rest) = Some (b, rest)"
    and uint_enc: "mpk_decode_uint mp (mp_encode_uint mp i @ rest) = Some (i, rest)"
    and int_enc: "sint i < 0 \<Longrightarrow> mp_decode_int mp (mp_encode_int mp i @ rest) = Some (i, rest)"
    and float_enc: "mp_decode_float mp (mp_encode_float mp f @ rest) = Some (f, rest)"
    and double_enc: "mp_decode_double mp (mp_encode_double mp d @ rest) = Some (d, rest)"
    and sizeof_uint: "unat (mp_sizeof_uint mp i) = length (mp_encode_uint mp i)"
    and sizeof_double: "unat (mp_sizeof_double mp d) = length (mp_encode_double mp d)"
    and sizeof_bool: "unat (mp_sizeof_bool mp b) = length (mp_encode_bool mp b)"
    and sizeof_nil: "unat (mp_sizeof_nil mp) = length (mp_encode_nil mp)"
    and sizeof_str: "unat n \<le> length s \<Longrightarrow>
          length (mp_encode_str mp s n) = unat (mp_sizeof_str mp n) + unat n"
begin

lemma enc_not_Nil: "wf_mpv v \<Longrightarrow> enc mp v \<noteq> []"
  using type_at_enc[of v "[]"] by (auto simp: type_at_def)

lemma type_at_enc0: "wf_mpv v \<Longrightarrow> type_at mp (enc mp v) = Some (mp_type_of v)"
  using type_at_enc[of v "[]"] by simp

text \<open>Encoding is injective on well-formed values read off the front of a buffer.\<close>

lemma enc_prefix_free:
  assumes "wf_mpv v" and "wf_mpv v'" and "enc mp v @ r = enc mp v' @ r'"
  shows "enc mp v = enc mp v' \<and> r = r'"
proof -
  have "Some r = Some r'" using next_enc[OF assms(1), of r] next_enc[OF assms(2), of r'] assms(3) by simp
  with assms(3) show ?thesis by simp
qed

end

end
