(* ===== verification/MsgPack_Ref.thy ===== *)
theory MsgPack_Ref
  imports Msgpuck
begin

text \<open>
  An implementation of the MessagePack format that satisfies the laws of the locale \<open>msgpuck\<close>.
  It shows that the laws hold together and gives the witnesses something to compute with; it is
  not the code of the library. Lengths and unsigned integers use the shortest form; negative
  integers are written in the 64 bit form.
\<close>

section \<open>Big-endian numbers\<close>

fun be :: "nat \<Rightarrow> nat \<Rightarrow> bytes" where
  "be 0 n = []"
| "be (Suc k) n = be k (n div 256) @ [char_of (n mod 256)]"

definition unbe :: "bytes \<Rightarrow> nat" where
  "unbe s = foldl (\<lambda>a c. 256 * a + of_char c) 0 s"

definition read_be :: "nat \<Rightarrow> bytes \<Rightarrow> (nat \<times> bytes) option" where
  "read_be k s = (if length s < k then None else Some (unbe (take k s), drop k s))"

lemma length_be [simp]: "length (be k n) = k"
  by (induction k arbitrary: n) auto

lemma unbe_be: "n < 256 ^ k \<Longrightarrow> unbe (be k n) = n"
proof (induction k arbitrary: n)
  case (Suc k)
  then have "n div 256 < 256 ^ k" by (simp add: less_mult_imp_div_less mult.commute)
  then have "unbe (be k (n div 256)) = n div 256" by (rule Suc.IH)
  then show ?case by (simp add: unbe_def)
qed (simp add: unbe_def)

lemma read_be_be: "n < 256 ^ k \<Longrightarrow> read_be k (be k n @ r) = Some (n, r)"
  by (simp add: read_be_def unbe_be)

section \<open>Tagged numbers\<close>

text \<open>
  A number below \<open>lim\<close> is part of the tag byte; a larger one follows a tag that gives its width.
\<close>

fun enc_wide :: "(nat \<times> nat) list \<Rightarrow> nat \<Rightarrow> bytes" where
  "enc_wide [] n = []"
| "enc_wide ((tag, k) # ws) n =
     (if n < 256 ^ k \<or> ws = [] then char_of tag # be k n else enc_wide ws n)"

definition enc_num :: "nat \<Rightarrow> nat \<Rightarrow> (nat \<times> nat) list \<Rightarrow> nat \<Rightarrow> bytes" where
  "enc_num base lim ws n = (if n < lim then [char_of (base + n)] else enc_wide ws n)"

fun dec_num :: "nat \<Rightarrow> nat \<Rightarrow> (nat \<times> nat) list \<Rightarrow> bytes \<Rightarrow> (nat \<times> bytes) option" where
  "dec_num base lim ws [] = None"
| "dec_num base lim ws (c # r) =
     (let t = of_char c in
      if base \<le> t \<and> t < base + lim then Some (t - base, r)
      else case map_of ws t of None \<Rightarrow> None | Some k \<Rightarrow> read_be k r)"

lemma enc_wide_shape:
  assumes "ws \<noteq> []" and "n < 256 ^ snd (last ws)"
  shows "\<exists>(tag, k) \<in> set ws. enc_wide ws n = char_of tag # be k n \<and> n < 256 ^ k"
  using assms
proof (induction ws)
  case (Cons w ws)
  then show ?case by (cases w; cases "n < 256 ^ snd w \<or> ws = []") (auto split: if_splits)
qed simp

lemma of_char_of_nat [simp]: "n < 256 \<Longrightarrow> of_char (char_of n :: char) = (n :: nat)"
  by simp

lemma dec_enc_num:
  assumes "ws \<noteq> []" and "n < 256 ^ snd (last ws)" and "base + lim \<le> 256" and "distinct (map fst ws)"
    and "\<forall>(tag, k) \<in> set ws. tag < 256 \<and> \<not> (base \<le> tag \<and> tag < base + lim)"
  shows "dec_num base lim ws (enc_num base lim ws n @ r) = Some (n, r)"
proof (cases "n < lim")
  case True
  with assms(3) show ?thesis by (simp add: enc_num_def Let_def)
next
  case False
  obtain tag k where w: "(tag, k) \<in> set ws" "enc_wide ws n = char_of tag # be k n" "n < 256 ^ k"
    using enc_wide_shape[OF assms(1,2)] by blast
  then have "map_of ws tag = Some k" using assms(4) by simp
  moreover have "tag < 256" "\<not> (base \<le> tag \<and> tag < base + lim)" using assms(5) w(1) by auto
  ultimately show ?thesis using False w by (auto simp: enc_num_def Let_def read_be_be)
qed

abbreviation "w_uint \<equiv> [(0xcc, Suc 0), (0xcd, 2), (0xce, 4), (0xcf, 8)]"
abbreviation "w_str \<equiv> [(0xd9, Suc 0), (0xda, 2), (0xdb, 4)]"
abbreviation "w_bin \<equiv> [(0xc4, Suc 0), (0xc5, 2), (0xc6, 4)]"
abbreviation "w_array \<equiv> [(0xdc, 2), (0xdd, 4)]"
abbreviation "w_map \<equiv> [(0xde, 2), (0xdf, 4)]"

section \<open>The codec\<close>

definition tag_type :: "nat \<Rightarrow> mp_type" where
  "tag_type t =
     (if t < 0x80 then MP_UINT else if t < 0x90 then MP_MAP else if t < 0xa0 then MP_ARRAY
      else if t < 0xc0 then MP_STR else if t = 0xc0 then MP_NIL else if t = 0xc1 then MP_EXT
      else if t < 0xc4 then MP_BOOL else if t < 0xc7 then MP_BIN else if t < 0xca then MP_EXT
      else if t = 0xca then MP_FLOAT else if t = 0xcb then MP_DOUBLE else if t < 0xd0 then MP_UINT
      else if t < 0xd4 then MP_INT else if t < 0xd9 then MP_EXT else if t < 0xdc then MP_STR
      else if t < 0xde then MP_ARRAY else if t < 0xe0 then MP_MAP else MP_INT)"

definition ref_data :: "(nat \<times> bytes) option \<Rightarrow> (bytes \<times> u32 \<times> bytes) option" where
  "ref_data h = do { (n, r) \<leftarrow> h;
     if n \<le> length r then Some (r, of_nat n, drop n r) else None }"

definition ref_tagged :: "nat \<Rightarrow> nat \<Rightarrow> bytes \<Rightarrow> (nat \<times> bytes) option" where
  "ref_tagged tag k s = (case s of [] \<Rightarrow> None
     | c # r \<Rightarrow> if of_char c = tag then read_be k r else None)"

definition ref_bool :: "bytes \<Rightarrow> (bool \<times> bytes) option" where
  "ref_bool s = (case s of [] \<Rightarrow> None
     | c # r \<Rightarrow> if of_char c = (0xc3::nat) then Some (True, r)
               else if of_char c = (0xc2::nat) then Some (False, r) else None)"

abbreviation "wmap f \<equiv> map_option (\<lambda>(n, r). (f n, r))"

text \<open>What follows the tag of one value: its own bytes are skipped, its children are counted.\<close>

definition ref_skip1 :: "bytes \<Rightarrow> (nat \<times> bytes) option" where
  "ref_skip1 s = (case s of [] \<Rightarrow> None
     | c # r \<Rightarrow>
        (case tag_type (of_char c) of
           MP_NIL \<Rightarrow> Some (0, r)
         | MP_BOOL \<Rightarrow> Some (0, r)
         | MP_UINT \<Rightarrow> wmap (\<lambda>_. 0) (dec_num 0 128 w_uint s)
         | MP_INT \<Rightarrow> wmap (\<lambda>_. 0) (ref_tagged 0xd3 8 s)
         | MP_FLOAT \<Rightarrow> wmap (\<lambda>_. 0) (ref_tagged 0xca 4 s)
         | MP_DOUBLE \<Rightarrow> wmap (\<lambda>_. 0) (ref_tagged 0xcb 8 s)
         | MP_STR \<Rightarrow> map_option (\<lambda>(d, n, r). (0, r)) (ref_data (dec_num 0xa0 32 w_str s))
         | MP_BIN \<Rightarrow> map_option (\<lambda>(d, n, r). (0, r)) (ref_data (dec_num 0 0 w_bin s))
         | MP_ARRAY \<Rightarrow> dec_num 0x90 16 w_array s
         | MP_MAP \<Rightarrow> wmap (\<lambda>n. 2 * n) (dec_num 0x80 16 w_map s)
         | MP_EXT \<Rightarrow> None))"

lemma read_be_length: "read_be k s = Some (n, r) \<Longrightarrow> length r \<le> length s"
  by (auto simp: read_be_def split: if_splits)

lemma dec_num_length: "dec_num base lim ws s = Some (n, r) \<Longrightarrow> length r < length s"
  by (cases s) (auto simp: Let_def less_Suc_eq_le dest: read_be_length split: if_splits option.splits)

lemma ref_tagged_length: "ref_tagged tag k s = Some (n, r) \<Longrightarrow> length r < length s"
  by (cases s) (auto simp: ref_tagged_def less_Suc_eq_le dest: read_be_length split: if_splits)

lemma ref_data_length:
  "ref_data h = Some (d, m, r) \<Longrightarrow> \<exists>n r'. h = Some (n, r') \<and> length r \<le> length r'"
  by (auto simp: ref_data_def split: if_splits)

lemma ref_skip1_length: "ref_skip1 s = Some (n, r) \<Longrightarrow> length r < length s"
  by (cases s)
    (force simp: ref_skip1_def simp del: dec_num.simps
       dest!: ref_data_length dest: dec_num_length ref_tagged_length split: mp_type.splits)+

function ref_next :: "nat \<Rightarrow> bytes \<Rightarrow> bytes option" where
  "ref_next k s = (if k = 0 then Some s
     else case ref_skip1 s of None \<Rightarrow> None | Some (n, r) \<Rightarrow> ref_next (k - 1 + n) r)"
  by pat_completeness auto
termination
  by (relation "measure (\<lambda>(k, s). length s)") (auto dest: ref_skip1_length)

declare ref_next.simps [simp del]

definition ref_size :: "bytes \<Rightarrow> u32" where
  "ref_size s = of_nat (length s)"

definition mp_ref :: mp where
  "mp_ref = \<lparr>
     mp_typeof = (\<lambda>c. tag_type (of_char c)),
     mp_decode_map = (\<lambda>s. wmap of_nat (dec_num 0x80 16 w_map s)),
     mp_decode_array = (\<lambda>s. wmap of_nat (dec_num 0x90 16 w_array s)),
     mp_decode_str = (\<lambda>s. ref_data (dec_num 0xa0 32 w_str s)),
     mp_decode_bin = (\<lambda>s. ref_data (dec_num 0 0 w_bin s)),
     mp_decode_bool = ref_bool,
     mpk_decode_uint = (\<lambda>s. wmap of_nat (dec_num 0 128 w_uint s)),
     mp_decode_int = (\<lambda>s. wmap of_nat (ref_tagged 0xd3 8 s)),
     mp_decode_float = (\<lambda>s. wmap of_nat (ref_tagged 0xca 4 s)),
     mp_decode_double = (\<lambda>s. wmap of_nat (ref_tagged 0xcb 8 s)),
     mp_next = ref_next 1,
     mp_encode_map = (\<lambda>n. enc_num 0x80 16 w_map (unat n)),
     mp_encode_array = (\<lambda>n. enc_num 0x90 16 w_array (unat n)),
     mp_encode_str = (\<lambda>s n. enc_num 0xa0 32 w_str (unat n) @ take (unat n) s),
     mp_encode_bin = (\<lambda>s n. enc_num 0 0 w_bin (unat n) @ take (unat n) s),
     mp_encode_uint = (\<lambda>n. enc_num 0 128 w_uint (unat n)),
     mp_encode_int = (\<lambda>n. char_of (0xd3::nat) # be 8 (unat n)),
     mp_encode_float = (\<lambda>n. char_of (0xca::nat) # be 4 (unat n)),
     mp_encode_double = (\<lambda>n. char_of (0xcb::nat) # be 8 (unat n)),
     mp_encode_bool = (\<lambda>b. [char_of (if b then 0xc3 else 0xc2 :: nat)]),
     mp_encode_nil = [char_of (0xc0::nat)],
     mp_sizeof_uint = (\<lambda>n. ref_size (enc_num 0 128 w_uint (unat n))),
     mp_sizeof_int = (\<lambda>n. 9),
     mp_sizeof_bool = (\<lambda>b. 1),
     mp_sizeof_double = (\<lambda>d. 9),
     mp_sizeof_float = (\<lambda>d. 5),
     mp_sizeof_str = (\<lambda>n. ref_size (enc_num 0xa0 32 w_str (unat n))),
     mp_sizeof_nil = 1\<rparr>"

section \<open>The laws\<close>

lemma uint_num: "n < 2 ^ 64 \<Longrightarrow> dec_num 0 128 w_uint (enc_num 0 128 w_uint n @ r) = Some (n, r)"
  by (rule dec_enc_num) auto

lemma str_num: "n < 2 ^ 32 \<Longrightarrow> dec_num 0xa0 32 w_str (enc_num 0xa0 32 w_str n @ r) = Some (n, r)"
  by (rule dec_enc_num) auto

lemma bin_num: "n < 2 ^ 32 \<Longrightarrow> dec_num 0 0 w_bin (enc_num 0 0 w_bin n @ r) = Some (n, r)"
  by (rule dec_enc_num) auto

lemma array_num: "n < 2 ^ 32 \<Longrightarrow> dec_num 0x90 16 w_array (enc_num 0x90 16 w_array n @ r) = Some (n, r)"
  by (rule dec_enc_num) auto

lemma map_num: "n < 2 ^ 32 \<Longrightarrow> dec_num 0x80 16 w_map (enc_num 0x80 16 w_map n @ r) = Some (n, r)"
  by (rule dec_enc_num) auto

lemma tagged_be: "tag < 256 \<Longrightarrow> n < 256 ^ k \<Longrightarrow> ref_tagged tag k (char_of tag # be k n @ r) = Some (n, r)"
  by (simp add: ref_tagged_def read_be_be)

lemmas ref_nums = uint_num str_num bin_num array_num map_num tagged_be

lemma enc_num_first:
  assumes "ws \<noteq> []" and "n < 256 ^ snd (last ws)" and "base + lim \<le> 256"
    and "\<forall>t \<in> {base..<base + lim} \<union> fst ` set ws. t < 256 \<and> tag_type t = T"
  shows "\<exists>c cs. enc_num base lim ws n = c # cs \<and> tag_type (of_char c) = T"
proof (cases "n < lim")
  case True
  then have "base + n \<in> {base..<base + lim}" by simp
  then have "base + n < 256 \<and> tag_type (base + n) = T" using assms(4) by blast
  with True show ?thesis by (simp add: enc_num_def)
next
  case False
  obtain tag k where w: "(tag, k) \<in> set ws" "enc_wide ws n = char_of tag # be k n"
    using enc_wide_shape[OF assms(1,2)] by blast
  then have "tag < 256 \<and> tag_type tag = T" using assms(4) by force
  with False w show ?thesis by (simp add: enc_num_def)
qed

lemma first_uint: "n < 2 ^ 64 \<Longrightarrow> \<exists>c cs. enc_num 0 128 w_uint n = c # cs \<and> tag_type (of_char c) = MP_UINT"
  by (rule enc_num_first) (auto simp: tag_type_def)

lemma first_str: "n < 2 ^ 32 \<Longrightarrow> \<exists>c cs. enc_num 0xa0 32 w_str n = c # cs \<and> tag_type (of_char c) = MP_STR"
  by (rule enc_num_first) (auto simp: tag_type_def)

lemma first_bin: "n < 2 ^ 32 \<Longrightarrow> \<exists>c cs. enc_num 0 0 w_bin n = c # cs \<and> tag_type (of_char c) = MP_BIN"
  by (rule enc_num_first) (auto simp: tag_type_def)

lemma first_array: "n < 2 ^ 32 \<Longrightarrow> \<exists>c cs. enc_num 0x90 16 w_array n = c # cs \<and> tag_type (of_char c) = MP_ARRAY"
  by (rule enc_num_first) (auto simp: tag_type_def)

lemma first_map: "n < 2 ^ 32 \<Longrightarrow> \<exists>c cs. enc_num 0x80 16 w_map n = c # cs \<and> tag_type (of_char c) = MP_MAP"
  by (rule enc_num_first) (auto simp: tag_type_def)



lemmas ref_firsts = first_uint[OF unat_lt_64] first_str[OF unat_lt_32] first_bin[OF unat_lt_32]
  first_array[OF unat_lt_32] first_map[OF unat_lt_32]

lemma mp_ref_type_at: "wf_mpv v \<Longrightarrow> type_at mp_ref (enc mp_ref v @ rest) = Some (mp_type_of v)"
proof (cases v)
  case (MUint n) with ref_firsts(1)[of n] show ?thesis by (auto simp: type_at_def mp_ref_def)
next
  case (MStr n) with ref_firsts(2)[of "of_nat (length n)"] show ?thesis
    by (auto simp: type_at_def mp_ref_def simp del: unat_of_nat_u32 unat_of_nat_u32')
next
  case (MBin n) with ref_firsts(3)[of "of_nat (length n)"] show ?thesis
    by (auto simp: type_at_def mp_ref_def simp del: unat_of_nat_u32 unat_of_nat_u32')
next
  case (MArr n) with ref_firsts(4)[of "of_nat (length n)"] show ?thesis
    by (auto simp: type_at_def mp_ref_def simp del: unat_of_nat_u32 unat_of_nat_u32')
next
  case (MMap n) with ref_firsts(5)[of "of_nat (length n)"] show ?thesis
    by (auto simp: type_at_def mp_ref_def simp del: unat_of_nat_u32 unat_of_nat_u32')
qed (auto simp: type_at_def mp_ref_def tag_type_def)

lemma ref_next_Suc:
  assumes "ref_skip1 s = Some (n, r)"
  shows "ref_next (Suc k) s = ref_next (n + k) r"
  by (subst ref_next.simps) (use assms in \<open>simp add: add.commute\<close>)

lemma ref_next_0 [simp]: "ref_next 0 s = Some s"
  by (simp add: ref_next.simps)

lemma skip1_num:
  assumes "\<exists>c cs. e = c # cs \<and> tag_type (of_char c) = T"
  shows "\<exists>c r. e @ s = c # r \<and> tag_type (of_char c) = T"
  using assms by auto

lemma skip1_uint: "ref_skip1 (enc mp_ref (MUint n) @ r) = Some (0, r)"
  using ref_firsts(1)[of n] uint_num[OF unat_lt_64, of n r]
  by (auto simp: mp_ref_def ref_skip1_def simp del: dec_num.simps)

lemma skip1_str: "length s < 2 ^ 32 \<Longrightarrow> ref_skip1 (enc mp_ref (MStr s) @ r) = Some (0, r)"
  using first_str[of "length s"] str_num[of "length s" "s @ r"]
  by (auto simp: mp_ref_def ref_skip1_def ref_data_def simp del: dec_num.simps)

lemma skip1_bin: "length s < 2 ^ 32 \<Longrightarrow> ref_skip1 (enc mp_ref (MBin s) @ r) = Some (0, r)"
  using first_bin[of "length s"] bin_num[of "length s" "s @ r"]
  by (auto simp: mp_ref_def ref_skip1_def ref_data_def simp del: dec_num.simps)

lemma skip1_array:
  "n < 2 ^ 32 \<Longrightarrow> ref_skip1 (mp_encode_array mp_ref (of_nat n) @ r) = Some (n, r)"
  using first_array[of n] array_num[of n r]
  by (auto simp: mp_ref_def ref_skip1_def simp del: dec_num.simps)

lemma skip1_map:
  "n < 2 ^ 32 \<Longrightarrow> ref_skip1 (mp_encode_map mp_ref (of_nat n) @ r) = Some (2 * n, r)"
  using first_map[of n] map_num[of n r]
  by (auto simp: mp_ref_def ref_skip1_def simp del: dec_num.simps)

lemma skip1_fixed:
  "ref_skip1 (enc mp_ref MNil @ r) = Some (0, r)"
  "ref_skip1 (enc mp_ref (MBool b) @ r) = Some (0, r)"
  "ref_skip1 (enc mp_ref (MInt i) @ r) = Some (0, r)"
  "ref_skip1 (enc mp_ref (MFloat f) @ r) = Some (0, r)"
  "ref_skip1 (enc mp_ref (MDouble d) @ r) = Some (0, r)"
  using unat_lt_64[of i] unat_lt_64[of d] unat_lt_32[of f]
  by (simp_all add: mp_ref_def ref_skip1_def tag_type_def tagged_be)

lemma next_list:
  assumes "\<And>v k rest. v \<in> set vs \<Longrightarrow> ref_next (Suc k) (f v @ rest) = ref_next k rest"
  shows "ref_next (length vs + k) (concat (map f vs) @ rest) = ref_next k rest"
  using assms by (induction vs) auto

lemma next_pairs:
  assumes "\<And>a b k rest. (a, b) \<in> set vs \<Longrightarrow> ref_next (Suc k) (f a @ rest) = ref_next k rest
             \<and> ref_next (Suc k) (f b @ rest) = ref_next k rest"
  shows "ref_next (2 * length vs + k) (concat (map (\<lambda>(a, b). f a @ f b) vs) @ rest) = ref_next k rest"
  using assms
proof (induction vs)
  case (Cons p vs)
  obtain a b where p: "p = (a, b)" by (cases p)
  have "ref_next (2 * length vs + k) (concat (map (\<lambda>(a, b). f a @ f b) vs) @ rest) = ref_next k rest"
    using Cons.prems by (intro Cons.IH) auto
  with Cons.prems[of a b] show ?case by (simp add: p)
qed simp

lemma mp_ref_next: "wf_mpv v \<Longrightarrow> ref_next (Suc k) (enc mp_ref v @ rest) = ref_next k rest"
proof (induction v arbitrary: k rest)
  case (MArr vs)
  have "ref_next (length vs + k) (concat (map (enc mp_ref) vs) @ rest) = ref_next k rest"
    using MArr by (intro next_list) (auto simp: list_all_iff)
  with MArr.prems ref_next_Suc[OF skip1_array] show ?case by simp
next
  case (MMap kvs)
  have "ref_next (2 * length kvs + k) (concat (map (\<lambda>(a, b). enc mp_ref a @ enc mp_ref b) kvs) @ rest)
      = ref_next k rest"
    using MMap by (intro next_pairs) (fastforce simp: list_all_iff)
  with MMap.prems ref_next_Suc[OF skip1_map] show ?case by simp
qed (simp_all only: ref_next_Suc[OF skip1_fixed(1)] ref_next_Suc[OF skip1_fixed(2)]
       ref_next_Suc[OF skip1_fixed(3)] ref_next_Suc[OF skip1_fixed(4)]
       ref_next_Suc[OF skip1_fixed(5)] ref_next_Suc[OF skip1_uint]
       ref_next_Suc[OF skip1_str] ref_next_Suc[OF skip1_bin] wf_mpv.simps add_0)

lemma tagged_u64: "tag < 256 \<Longrightarrow> ref_tagged tag 8 (char_of tag # be 8 (unat (i :: u64)) @ r) = Some (unat i, r)"
  using unat_lt_64[of i] by (intro tagged_be) simp_all

lemma tagged_u32: "tag < 256 \<Longrightarrow> ref_tagged tag 4 (char_of tag # be 4 (unat (i :: u32)) @ r) = Some (unat i, r)"
  using unat_lt_32[of i] by (intro tagged_be) simp_all

lemma data_num:
  "unat (n :: u32) = length s \<Longrightarrow> dec_num b l ws (e @ s @ r) = Some (length s, s @ r) \<Longrightarrow>
   ref_data (dec_num b l ws (e @ s @ r)) = Some (s @ r, n, r)"
  by (simp add: ref_data_def) (metis of_nat_unat ucast_id)

lemmas ref_units = uint_num[OF unat_lt_64] str_num[OF unat_lt_32] bin_num[OF unat_lt_32]
  array_num[OF unat_lt_32] map_num[OF unat_lt_32]
  tagged_u64 tagged_u32

lemma enc_num_size: "length (enc_num base lim w_str n) \<le> 5" "length (enc_num base lim w_uint n) \<le> 9"
  by (simp_all add: enc_num_def)

lemma unat_ref_size: "length s \<le> 9 \<Longrightarrow> unat (ref_size s) = length s"
  by (simp add: ref_size_def)

interpretation ref: msgpuck mp_ref
proof
  show "wf_mpv v \<Longrightarrow> mp_next mp_ref (enc mp_ref v @ rest) = Some rest" for v rest
    using mp_ref_next[of v 0 rest] by (simp add: mp_ref_def)
  show "unat n \<le> length s \<Longrightarrow> length (mp_encode_str mp_ref s n) = unat (mp_sizeof_str mp_ref n) + unat n"
    for n and s :: bytes
    using enc_num_size(1)[of "0xa0" 32 "unat n"] by (simp add: mp_ref_def unat_ref_size)
  show "unat (mp_sizeof_uint mp_ref i) = length (mp_encode_uint mp_ref i)" for i
    using enc_num_size(2)[of 0 128 "unat i"] by (simp add: mp_ref_def unat_ref_size)
  show "unat n = length s \<Longrightarrow> mp_decode_str mp_ref (mp_encode_str mp_ref s n @ rest) = Some (s @ rest, n, rest)"
    for n s rest
    using data_num[of n s _ _ _ _ rest] ref_units(2)[of n "s @ rest"] by (simp add: mp_ref_def)
  show "unat n = length s \<Longrightarrow> mp_decode_bin mp_ref (mp_encode_bin mp_ref s n @ rest) = Some (s @ rest, n, rest)"
    for n s rest
    using data_num[of n s _ _ _ _ rest] ref_units(3)[of n "s @ rest"] by (simp add: mp_ref_def)
qed (simp_all add: mp_ref_type_at,
     simp_all add: mp_ref_def ref_units ref_bool_def del: map_option_eq_Some)

end
