(* ===== verification/Coder.thy ===== *)
theory Coder
  imports Msgpuck MsgPack_Ref
begin

text \<open>
  \<open>src/runtime/north/coder/cc_coder_msgpuck.c\<close>: the serialisation interface of the runtime over
  the \<open>msgpuck\<close> functions \<open>mp\<close>. Encoders take the bytes written so far and return them with the
  new ones appended, as the C functions return the advanced write pointer. Decoders return an
  option for a memory fault around an option for \<open>CC_FAIL\<close>; \<open>Some (Some x)\<close> is \<open>CC_SUCCESS\<close> with
  the out-parameters \<open>x\<close>.
\<close>

datatype cc_coder_type =
    CC_CODER_UNDEF | CC_CODER_NIL | CC_CODER_STR | CC_CODER_ARRAY | CC_CODER_MAP | CC_CODER_UINT
  | CC_CODER_INT | CC_CODER_FLOAT | CC_CODER_DOUBLE | CC_CODER_BOOL | CC_CODER_BIN

definition cc_coder_type_of :: "mp \<Rightarrow> bytes \<Rightarrow> cc_coder_type option" where
  "cc_coder_type_of mp buffer = do {
     t \<leftarrow> type_at mp buffer;
     Some (case t of
        MP_FLOAT \<Rightarrow> CC_CODER_FLOAT
      | MP_DOUBLE \<Rightarrow> CC_CODER_DOUBLE
      | MP_BOOL \<Rightarrow> CC_CODER_BOOL
      | MP_INT \<Rightarrow> CC_CODER_INT
      | MP_UINT \<Rightarrow> CC_CODER_UINT
      | MP_MAP \<Rightarrow> CC_CODER_MAP
      | MP_STR \<Rightarrow> CC_CODER_STR
      | MP_NIL \<Rightarrow> CC_CODER_NIL
      | MP_BIN \<Rightarrow> CC_CODER_BIN
      | MP_ARRAY \<Rightarrow> CC_CODER_ARRAY
      | _ \<Rightarrow> CC_CODER_UNDEF) }"

section \<open>Sizes\<close>

definition cc_coder_sizeof_uint :: "mp \<Rightarrow> u32 \<Rightarrow> u32" where
  "cc_coder_sizeof_uint mp value = mp_sizeof_uint mp (ucast value)"

definition cc_coder_sizeof_int :: "mp \<Rightarrow> u32 \<Rightarrow> u32" where
  "cc_coder_sizeof_int mp value = mp_sizeof_int mp (scast value)"

definition cc_coder_sizeof_bool :: "mp \<Rightarrow> bool \<Rightarrow> u32" where
  "cc_coder_sizeof_bool mp value = mp_sizeof_bool mp value"

definition cc_coder_sizeof_double :: "mp \<Rightarrow> u64 \<Rightarrow> u32" where
  "cc_coder_sizeof_double mp value = mp_sizeof_double mp value"

definition cc_coder_sizeof_float :: "mp \<Rightarrow> u32 \<Rightarrow> u32" where
  "cc_coder_sizeof_float mp value = mp_sizeof_float mp value"

definition cc_coder_sizeof_str :: "mp \<Rightarrow> u32 \<Rightarrow> u32" where
  "cc_coder_sizeof_str mp len = mp_sizeof_str mp len + len"

definition cc_coder_sizeof_nil :: "mp \<Rightarrow> u32" where
  "cc_coder_sizeof_nil mp = mp_sizeof_nil mp"

section \<open>Encoders\<close>

definition cc_coder_encode_map :: "mp \<Rightarrow> bytes \<Rightarrow> u32 \<Rightarrow> bytes" where
  "cc_coder_encode_map mp buffer items = buffer @ mp_encode_map mp items"

definition cc_coder_encode_str :: "mp \<Rightarrow> bytes \<Rightarrow> bytes \<Rightarrow> u32 \<Rightarrow> bytes" where
  "cc_coder_encode_str mp buffer data len = buffer @ mp_encode_str mp data len"

definition cc_coder_encode_bin :: "mp \<Rightarrow> bytes \<Rightarrow> bytes \<Rightarrow> u32 \<Rightarrow> bytes" where
  "cc_coder_encode_bin mp buffer data len = buffer @ mp_encode_bin mp data len"

definition cc_coder_encode_uint :: "mp \<Rightarrow> bytes \<Rightarrow> u32 \<Rightarrow> bytes" where
  "cc_coder_encode_uint mp buffer data = buffer @ mp_encode_uint mp (ucast data)"

text \<open>The parameter is declared \<open>uint32_t\<close>, so the widening to 64 bits does not keep a sign.\<close>

definition cc_coder_encode_int :: "mp \<Rightarrow> bytes \<Rightarrow> u32 \<Rightarrow> bytes" where
  "cc_coder_encode_int mp buffer data = buffer @ mp_encode_int mp (ucast data)"

definition cc_coder_encode_double :: "mp \<Rightarrow> bytes \<Rightarrow> u64 \<Rightarrow> bytes" where
  "cc_coder_encode_double mp buffer data = buffer @ mp_encode_double mp data"

definition cc_coder_encode_float :: "mp \<Rightarrow> bytes \<Rightarrow> u32 \<Rightarrow> bytes" where
  "cc_coder_encode_float mp buffer data = buffer @ mp_encode_float mp data"

definition cc_coder_encode_nil :: "mp \<Rightarrow> bytes \<Rightarrow> bytes" where
  "cc_coder_encode_nil mp buffer = buffer @ mp_encode_nil mp"

definition cc_coder_encode_array :: "mp \<Rightarrow> bytes \<Rightarrow> u32 \<Rightarrow> bytes" where
  "cc_coder_encode_array mp buffer items = buffer @ mp_encode_array mp items"

definition cc_coder_encode_bool :: "mp \<Rightarrow> bytes \<Rightarrow> bool \<Rightarrow> bytes" where
  "cc_coder_encode_bool mp buffer value = buffer @ mp_encode_bool mp value"

text \<open>\<open>mp_encode_str(buffer, key, strlen(key))\<close>\<close>

definition encode_key :: "mp \<Rightarrow> bytes \<Rightarrow> bytes \<Rightarrow> bytes" where
  "encode_key mp buffer key = buffer @ mp_encode_str mp key (of_nat (strlen key))"

definition cc_coder_encode_kv_str :: "mp \<Rightarrow> bytes \<Rightarrow> bytes \<Rightarrow> bytes \<Rightarrow> u32 \<Rightarrow> bytes" where
  "cc_coder_encode_kv_str mp buffer key value value_len =
     encode_key mp buffer key @ mp_encode_str mp value value_len"

definition cc_coder_encode_kv_bin :: "mp \<Rightarrow> bytes \<Rightarrow> bytes \<Rightarrow> bytes \<Rightarrow> u32 \<Rightarrow> bytes" where
  "cc_coder_encode_kv_bin mp buffer key value value_len =
     encode_key mp buffer key @ mp_encode_bin mp value value_len"

definition cc_coder_encode_kv_uint :: "mp \<Rightarrow> bytes \<Rightarrow> bytes \<Rightarrow> u32 \<Rightarrow> bytes" where
  "cc_coder_encode_kv_uint mp buffer key value =
     encode_key mp buffer key @ mp_encode_uint mp (ucast value)"

definition cc_coder_encode_kv_int :: "mp \<Rightarrow> bytes \<Rightarrow> bytes \<Rightarrow> u32 \<Rightarrow> bytes" where
  "cc_coder_encode_kv_int mp buffer key value =
     encode_key mp buffer key @ mp_encode_int mp (scast value)"

definition cc_coder_encode_kv_double :: "mp \<Rightarrow> bytes \<Rightarrow> bytes \<Rightarrow> u64 \<Rightarrow> bytes" where
  "cc_coder_encode_kv_double mp buffer key value =
     encode_key mp buffer key @ mp_encode_double mp value"

definition cc_coder_encode_kv_float :: "mp \<Rightarrow> bytes \<Rightarrow> bytes \<Rightarrow> u32 \<Rightarrow> bytes" where
  "cc_coder_encode_kv_float mp buffer key value =
     encode_key mp buffer key @ mp_encode_float mp value"

definition cc_coder_encode_kv_bool :: "mp \<Rightarrow> bytes \<Rightarrow> bytes \<Rightarrow> bool \<Rightarrow> bytes" where
  "cc_coder_encode_kv_bool mp buffer key value =
     encode_key mp buffer key @ mp_encode_bool mp value"

definition cc_coder_encode_kv_nil :: "mp \<Rightarrow> bytes \<Rightarrow> bytes \<Rightarrow> bytes" where
  "cc_coder_encode_kv_nil mp buffer key = encode_key mp buffer key @ mp_encode_nil mp"

definition cc_coder_encode_kv_map :: "mp \<Rightarrow> bytes \<Rightarrow> bytes \<Rightarrow> u32 \<Rightarrow> bytes" where
  "cc_coder_encode_kv_map mp buffer key keys = encode_key mp buffer key @ mp_encode_map mp keys"

definition cc_coder_encode_kv_array :: "mp \<Rightarrow> bytes \<Rightarrow> bytes \<Rightarrow> u32 \<Rightarrow> bytes" where
  "cc_coder_encode_kv_array mp buffer key keys = encode_key mp buffer key @ mp_encode_array mp keys"

text \<open>\<open>memcpy\<close> of \<open>sz\<close> bytes faults when the value has fewer.\<close>

definition cc_coder_encode_kv_value :: "mp \<Rightarrow> bytes \<Rightarrow> bytes \<Rightarrow> bytes option \<Rightarrow> nat \<Rightarrow> bytes option" where
  "cc_coder_encode_kv_value mp buffer key value sz =
     (let buffer = encode_key mp buffer key in
      case value of
        None \<Rightarrow> Some (cc_coder_encode_nil mp buffer)
      | Some v \<Rightarrow> if sz \<le> length v then Some (buffer @ take sz v) else None)"

section \<open>Decoders\<close>

definition cc_coder_decode_str :: "mp \<Rightarrow> bytes \<Rightarrow> (bytes \<times> u32) option option" where
  "cc_coder_decode_str mp buffer = do {
     t \<leftarrow> type_at mp buffer;
     if t \<noteq> MP_STR then Some None
     else do { (value, len, r) \<leftarrow> mp_decode_str mp buffer; Some (Some (value, len)) } }"

definition cc_coder_decode_bin :: "mp \<Rightarrow> bytes \<Rightarrow> (bytes \<times> u32) option option" where
  "cc_coder_decode_bin mp buffer = do {
     t \<leftarrow> type_at mp buffer;
     if t \<noteq> MP_BIN then Some None
     else do { (value, len, r) \<leftarrow> mp_decode_bin mp buffer; Some (Some (value, len)) } }"

definition cc_coder_decode_bool :: "mp \<Rightarrow> bytes \<Rightarrow> bool option option" where
  "cc_coder_decode_bool mp buffer = do {
     t \<leftarrow> type_at mp buffer;
     if t \<noteq> MP_BOOL then Some None
     else do { (value, r) \<leftarrow> mp_decode_bool mp buffer; Some (Some value) } }"

text \<open>
  \<open>(uint32_t)f\<close> for a floating point number with \<open>p\<close> fraction and \<open>w\<close> exponent bits: the value is
  truncated towards zero; infinities, NaNs and values outside the range are undefined.
\<close>

definition ieee_trunc :: "nat \<Rightarrow> nat \<Rightarrow> nat \<Rightarrow> u32 option" where
  "ieee_trunc p w n =
     (let sgn = n div 2 ^ (p + w); ex = (n div 2 ^ p) mod 2 ^ w; m = n mod 2 ^ p;
          bias = 2 ^ (w - 1) - 1
      in if ex = 2 ^ w - 1 then None
         else let mag = (if ex = 0 then 0
                         else if ex \<ge> bias + p then (2 ^ p + m) * 2 ^ (ex - bias - p)
                         else (2 ^ p + m) div 2 ^ (bias + p - ex))
              in if sgn = 1 \<and> mag \<noteq> 0 then None
                 else if mag < 2 ^ 32 then Some (of_nat mag) else None)"

definition float_to_u32 :: "u32 \<Rightarrow> u32 option" where
  "float_to_u32 f = ieee_trunc 23 8 (unat f)"

definition double_to_u32 :: "u64 \<Rightarrow> u32 option" where
  "double_to_u32 d = ieee_trunc 52 11 (unat d)"

definition cc_coder_decode_uint :: "mp \<Rightarrow> bytes \<Rightarrow> u32 option option" where
  "cc_coder_decode_uint mp buffer = do {
     t \<leftarrow> type_at mp buffer;
     case t of
       MP_UINT \<Rightarrow> do { (n, r) \<leftarrow> mpk_decode_uint mp buffer; Some (Some (ucast n)) }
     | MP_FLOAT \<Rightarrow> do { (f, r) \<leftarrow> mp_decode_float mp buffer; n \<leftarrow> float_to_u32 f; Some (Some n) }
     | MP_DOUBLE \<Rightarrow> do { (d, r) \<leftarrow> mp_decode_double mp buffer; n \<leftarrow> double_to_u32 d; Some (Some n) }
     | _ \<Rightarrow> Some None }"

definition cc_coder_decode_int :: "mp \<Rightarrow> bytes \<Rightarrow> u32 option option" where
  "cc_coder_decode_int mp buffer = do {
     t \<leftarrow> type_at mp buffer;
     if t \<noteq> MP_INT then Some None
     else do { (value, r) \<leftarrow> mp_decode_int mp buffer; Some (Some (ucast value)) } }"

definition cc_coder_decode_float :: "mp \<Rightarrow> bytes \<Rightarrow> u32 option option" where
  "cc_coder_decode_float mp buffer = do {
     t \<leftarrow> type_at mp buffer;
     if t \<noteq> MP_FLOAT then Some None
     else do { (value, r) \<leftarrow> mp_decode_float mp buffer; Some (Some value) } }"

definition cc_coder_decode_double :: "mp \<Rightarrow> bytes \<Rightarrow> u64 option option" where
  "cc_coder_decode_double mp buffer = do {
     t \<leftarrow> type_at mp buffer;
     if t \<noteq> MP_DOUBLE then Some None
     else do { (value, r) \<leftarrow> mp_decode_double mp buffer; Some (Some value) } }"

subsection \<open>Maps\<close>

text \<open>
  The loop over the pairs of a map in \<open>cc_coder_has_key\<close>, \<open>cc_coder_decode_string_from_map\<close> and
  \<open>cc_coder_decode_bin_from_map\<close>: a key is compared over its own length, and behind a key that is
  not a string only one value is skipped. The result points at the value found.
\<close>

fun map_find_skip :: "mp \<Rightarrow> bytes \<Rightarrow> nat \<Rightarrow> bytes \<Rightarrow> bytes option option" where
  "map_find_skip mp key 0 r = Some None"
| "map_find_skip mp key (Suc n) r = do {
     d \<leftarrow> cc_coder_decode_str mp r;
     case d of
       Some (tmp, key_len) \<Rightarrow> do {
         r \<leftarrow> mp_next mp r;
         if strncmp0 tmp key (unat key_len) then Some (Some r)
         else do { r \<leftarrow> mp_next mp r; map_find_skip mp key n r } }
     | None \<Rightarrow> do { r \<leftarrow> mp_next mp r; map_find_skip mp key n r } }"

text \<open>
  The loop of the numeric look-ups: a key that is not a string is not skipped, so the remaining
  iterations read it again.
\<close>

fun map_find_stay :: "mp \<Rightarrow> bytes \<Rightarrow> nat \<Rightarrow> bytes \<Rightarrow> bytes option option" where
  "map_find_stay mp key 0 r = Some None"
| "map_find_stay mp key (Suc n) r = do {
     d \<leftarrow> cc_coder_decode_str mp r;
     case d of
       Some (tmp, key_len) \<Rightarrow> do {
         r \<leftarrow> mp_next mp r;
         if strncmp0 tmp key (unat key_len) then Some (Some r)
         else do { r \<leftarrow> mp_next mp r; map_find_stay mp key n r } }
     | None \<Rightarrow> map_find_stay mp key n r }"

text \<open>
  The loop of \<open>cc_coder_get_value_from_map_n\<close>: the comparison runs over the length of the key
  asked for, and may read on behind the end of the key in the message.
\<close>

fun map_find_n :: "mp \<Rightarrow> bytes \<Rightarrow> u32 \<Rightarrow> nat \<Rightarrow> bytes \<Rightarrow> bytes option option" where
  "map_find_n mp key key_len 0 r = Some None"
| "map_find_n mp key key_len (Suc n) r = do {
     d \<leftarrow> cc_coder_decode_str mp r;
     case d of
       Some (tmp_key, tmp_key_len) \<Rightarrow> do {
         r \<leftarrow> mp_next mp r;
         if strncmp0 key tmp_key (unat key_len) then Some (Some r)
         else do { r \<leftarrow> mp_next mp r; map_find_n mp key key_len n r } }
     | None \<Rightarrow> Some None }"

text \<open>\<open>if (mp_typeof(*r) == MP_MAP) map_size = mp_decode_map(&r)\<close> and the loop.\<close>

definition in_map :: "mp \<Rightarrow> bytes \<Rightarrow> (nat \<Rightarrow> bytes \<Rightarrow> bytes option option) \<Rightarrow> bytes option option" where
  "in_map mp buffer loop = do {
     t \<leftarrow> type_at mp buffer;
     if t = MP_MAP then do { (map_size, r) \<leftarrow> mp_decode_map mp buffer; loop (unat map_size) r }
     else Some None }"

definition cc_coder_has_key :: "mp \<Rightarrow> bytes \<Rightarrow> bytes \<Rightarrow> bool option" where
  "cc_coder_has_key mp buffer key = do {
     v \<leftarrow> in_map mp buffer (map_find_skip mp key);
     Some (v \<noteq> None) }"

definition cc_coder_get_value_from_map_n :: "mp \<Rightarrow> bytes \<Rightarrow> bytes \<Rightarrow> u32 \<Rightarrow> bytes option option" where
  "cc_coder_get_value_from_map_n mp buffer key key_len = in_map mp buffer (map_find_n mp key key_len)"

definition cc_coder_get_value_from_map :: "mp \<Rightarrow> bytes \<Rightarrow> bytes \<Rightarrow> bytes option option" where
  "cc_coder_get_value_from_map mp buffer key =
     cc_coder_get_value_from_map_n mp buffer key (of_nat (strlen key))"

definition cc_coder_decode_string_from_map :: "mp \<Rightarrow> bytes \<Rightarrow> bytes \<Rightarrow> (bytes \<times> u32) option option" where
  "cc_coder_decode_string_from_map mp buffer key = do {
     v \<leftarrow> in_map mp buffer (map_find_skip mp key);
     case v of None \<Rightarrow> Some None | Some r \<Rightarrow> cc_coder_decode_str mp r }"

definition cc_coder_decode_bin_from_map :: "mp \<Rightarrow> bytes \<Rightarrow> bytes \<Rightarrow> (bytes \<times> u32) option option" where
  "cc_coder_decode_bin_from_map mp buffer key = do {
     v \<leftarrow> in_map mp buffer (map_find_skip mp key);
     case v of None \<Rightarrow> Some None | Some r \<Rightarrow> cc_coder_decode_bin mp r }"

definition cc_coder_decode_uint_from_map :: "mp \<Rightarrow> bytes \<Rightarrow> bytes \<Rightarrow> u32 option option" where
  "cc_coder_decode_uint_from_map mp buffer key = do {
     v \<leftarrow> in_map mp buffer (map_find_stay mp key);
     case v of None \<Rightarrow> Some None
     | Some r \<Rightarrow> do { (n, r) \<leftarrow> mpk_decode_uint mp r; Some (Some (ucast n)) } }"

definition cc_coder_decode_bool_from_map :: "mp \<Rightarrow> bytes \<Rightarrow> bytes \<Rightarrow> bool option option" where
  "cc_coder_decode_bool_from_map mp buffer key = do {
     v \<leftarrow> in_map mp buffer (map_find_stay mp key);
     case v of None \<Rightarrow> Some None
     | Some r \<Rightarrow> do { (b, r) \<leftarrow> mp_decode_bool mp r; Some (Some b) } }"

definition cc_coder_decode_double_from_map :: "mp \<Rightarrow> bytes \<Rightarrow> bytes \<Rightarrow> u64 option option" where
  "cc_coder_decode_double_from_map mp buffer key = do {
     v \<leftarrow> in_map mp buffer (map_find_stay mp key);
     case v of None \<Rightarrow> Some None
     | Some r \<Rightarrow> do { (d, r) \<leftarrow> mp_decode_double mp r; Some (Some d) } }"

definition cc_coder_decode_float_from_map :: "mp \<Rightarrow> bytes \<Rightarrow> bytes \<Rightarrow> u32 option option" where
  "cc_coder_decode_float_from_map mp buffer key = do {
     v \<leftarrow> in_map mp buffer (map_find_stay mp key);
     case v of None \<Rightarrow> Some None
     | Some r \<Rightarrow> do { (f, r) \<leftarrow> mp_decode_float mp r; Some (Some f) } }"

subsection \<open>Arrays\<close>

fun skip_values :: "mp \<Rightarrow> nat \<Rightarrow> bytes \<Rightarrow> bytes option" where
  "skip_values mp 0 r = Some r"
| "skip_values mp (Suc i) r = do { r \<leftarrow> mp_next mp r; skip_values mp i r }"

definition cc_coder_get_size_of_array :: "mp \<Rightarrow> bytes \<Rightarrow> u32 option" where
  "cc_coder_get_size_of_array mp buffer = do { (n, r) \<leftarrow> mp_decode_array mp buffer; Some n }"

definition cc_coder_get_value_from_array :: "mp \<Rightarrow> bytes \<Rightarrow> u32 \<Rightarrow> bytes option option" where
  "cc_coder_get_value_from_array mp buffer index = do {
     (sz, r) \<leftarrow> mp_decode_array mp buffer;
     if index < sz then do { r \<leftarrow> skip_values mp (unat index) r; Some (Some r) }
     else Some None }"

definition cc_coder_decode_string_from_array :: "mp \<Rightarrow> bytes \<Rightarrow> u32 \<Rightarrow> (bytes \<times> u32) option option" where
  "cc_coder_decode_string_from_array mp buffer index = do {
     (sz, r) \<leftarrow> mp_decode_array mp buffer;
     if index < sz then do { r \<leftarrow> skip_values mp (unat index) r; cc_coder_decode_str mp r }
     else Some None }"

definition cc_coder_get_size_of_value :: "mp \<Rightarrow> bytes \<Rightarrow> nat option" where
  "cc_coder_get_size_of_value mp value = do {
     nxt \<leftarrow> mp_next mp value; Some (length value - length nxt) }"

definition cc_coder_decode_map :: "mp \<Rightarrow> bytes \<Rightarrow> (u32 \<times> bytes) option" where
  "cc_coder_decode_map mp data = mp_decode_map mp data"

definition cc_coder_decode_map_next :: "mp \<Rightarrow> bytes \<Rightarrow> bytes option" where
  "cc_coder_decode_map_next mp data = mp_next mp data"

definition cc_coder_decode_array :: "mp \<Rightarrow> bytes \<Rightarrow> (u32 \<times> bytes) option" where
  "cc_coder_decode_array mp data = mp_decode_array mp data"

definition cc_coder_decode_array_next :: "mp \<Rightarrow> bytes \<Rightarrow> bytes option" where
  "cc_coder_decode_array_next mp data = mp_next mp data"

definition cc_coder_get_name :: "'a env_scheme \<Rightarrow> bytes option \<times> 'a env_scheme" where
  "cc_coder_get_name e = (case mem_alloc e of (False, e) \<Rightarrow> (None, e) | (True, e) \<Rightarrow> (Some ''msgpack'', e))"

section \<open>Messages\<close>

text \<open>
  \<open>key_clear key kvs\<close>: the keys of the map are strings, and none but \<open>key\<close> itself is a prefix or
  an extension of \<open>key\<close>. On such maps the prefix tests of the loops above are equality tests.
\<close>

definition key_clear :: "bytes \<Rightarrow> (mpv \<times> mpv) list \<Rightarrow> bool" where
  "key_clear key kvs = list_all (\<lambda>(k, v). case k of
      MStr s \<Rightarrow> no_nul s \<and> (s = key \<or> \<not> prefix s key \<and> \<not> prefix key s) | _ \<Rightarrow> False) kvs"

lemma key_clear_simps [simp]:
  "key_clear key []"
  "key_clear key ((k, v) # kvs) \<longleftrightarrow> (\<exists>s. k = MStr s \<and> no_nul s
      \<and> (s = key \<or> \<not> prefix s key \<and> \<not> prefix key s)) \<and> key_clear key kvs"
  by (auto simp: key_clear_def split: mpv.splits)

abbreviation enc_pairs :: "mp \<Rightarrow> (mpv \<times> mpv) list \<Rightarrow> bytes" where
  "enc_pairs mp kvs \<equiv> concat (map (\<lambda>(k, v). enc mp k @ enc mp v) kvs)"

abbreviation wf_pairs :: "(mpv \<times> mpv) list \<Rightarrow> bool" where
  "wf_pairs kvs \<equiv> list_all (\<lambda>(k, v). wf_mpv k \<and> wf_mpv v) kvs"

text \<open>\<open>points_to mp v p\<close>: the pointer \<open>p\<close> points at the encoding of \<open>v\<close>.\<close>

definition points_to :: "mp \<Rightarrow> mpv \<Rightarrow> bytes \<Rightarrow> bool" where
  "points_to mp v p \<longleftrightarrow> wf_mpv v \<and> (\<exists>rest. p = enc mp v @ rest)"

text \<open>A look-up that ends without a fault, at the value or with \<open>CC_FAIL\<close> when there is none.\<close>

definition finds :: "mp \<Rightarrow> bytes option option \<Rightarrow> mpv option \<Rightarrow> bool" where
  "finds mp res v \<longleftrightarrow> (case v of None \<Rightarrow> res = Some None
     | Some v \<Rightarrow> \<exists>p. res = Some (Some p) \<and> points_to mp v p)"

context msgpuck
begin

lemma encode_key_enc: "no_nul key \<Longrightarrow> encode_key mp b key = b @ enc mp (MStr key)"
  by (simp add: encode_key_def)

lemma encode_str_enc: "unat n \<le> length s \<Longrightarrow> mp_encode_str mp s n = enc mp (MStr (take (unat n) s))"
  by (subst str_take) (simp_all add: min_def)

lemma encode_bin_enc: "unat n \<le> length s \<Longrightarrow> mp_encode_bin mp s n = enc mp (MBin (take (unat n) s))"
  by (subst bin_take) (simp_all add: min_def)

lemma kv_encodings:
  assumes "no_nul key"
  shows "unat n \<le> length s \<Longrightarrow>
           cc_coder_encode_kv_str mp b key s n = b @ enc mp (MStr key) @ enc mp (MStr (take (unat n) s))"
    and "unat n \<le> length s \<Longrightarrow>
           cc_coder_encode_kv_bin mp b key s n = b @ enc mp (MStr key) @ enc mp (MBin (take (unat n) s))"
    and "cc_coder_encode_kv_uint mp b key i = b @ enc mp (MStr key) @ enc mp (MUint (ucast i))"
    and "cc_coder_encode_kv_double mp b key d = b @ enc mp (MStr key) @ enc mp (MDouble d)"
    and "cc_coder_encode_kv_bool mp b key t = b @ enc mp (MStr key) @ enc mp (MBool t)"
    and "cc_coder_encode_kv_nil mp b key = b @ enc mp (MStr key) @ enc mp MNil"
    and "cc_coder_encode_kv_map mp b key m = b @ enc mp (MStr key) @ mp_encode_map mp m"
    and "cc_coder_encode_kv_array mp b key m = b @ enc mp (MStr key) @ mp_encode_array mp m"
  using assms encode_str_enc[of n s] encode_bin_enc[of n s]
  by (simp_all add: encode_key_enc cc_coder_encode_kv_str_def cc_coder_encode_kv_bin_def
      cc_coder_encode_kv_uint_def cc_coder_encode_kv_double_def cc_coder_encode_kv_bool_def
      cc_coder_encode_kv_nil_def cc_coder_encode_kv_map_def cc_coder_encode_kv_array_def)

lemma decode_str_enc [simp]:
  assumes "length s < 2 ^ 32"
  shows "cc_coder_decode_str mp (enc mp (MStr s) @ rest) = Some (Some (s @ rest, of_nat (length s)))"
  using assms type_at_enc[of "MStr s" rest] str_enc[of "of_nat (length s)" s rest]
  by (simp add: cc_coder_decode_str_def)

lemma decode_str_other:
  "wf_mpv v \<Longrightarrow> mp_type_of v \<noteq> MP_STR \<Longrightarrow> cc_coder_decode_str mp (enc mp v @ rest) = Some None"
  by (simp add: cc_coder_decode_str_def type_at_enc)

lemma in_map_enc:
  assumes "length kvs < 2 ^ 32" and "wf_pairs kvs"
  shows "in_map mp (enc mp (MMap kvs) @ rest) loop = loop (length kvs) (enc_pairs mp kvs @ rest)"
proof -
  have "type_at mp (enc mp (MMap kvs) @ rest) = Some MP_MAP"
    using assms type_at_enc[of "MMap kvs" rest] by simp
  then show ?thesis using assms(1) by (simp add: in_map_def map_enc)
qed

text \<open>One step of each loop on a pair with a string key.\<close>

lemma find_step:
  assumes "length s < 2 ^ 32" and "wf_mpv v"
  shows "map_find_skip mp key (Suc n) (enc mp (MStr s) @ enc mp v @ r) =
           (if strncmp0 (s @ enc mp v @ r) key (length s) then Some (Some (enc mp v @ r))
            else map_find_skip mp key n r)"
    and "map_find_stay mp key (Suc n) (enc mp (MStr s) @ enc mp v @ r) =
           (if strncmp0 (s @ enc mp v @ r) key (length s) then Some (Some (enc mp v @ r))
            else map_find_stay mp key n r)"
    and "map_find_n mp key l (Suc n) (enc mp (MStr s) @ enc mp v @ r) =
           (if strncmp0 key (s @ enc mp v @ r) (unat l) then Some (Some (enc mp v @ r))
            else map_find_n mp key l n r)"
  using assms next_enc[of "MStr s"] by (simp_all add: next_enc del: enc.simps)

lemma key_match:
  assumes "no_nul s" and "no_nul key" and "s = key \<or> \<not> prefix s key \<and> \<not> prefix key s"
  shows "strncmp0 (s @ r) key (length s) = (s = key)"
    and "strncmp0 key (s @ r) (length key) = (s = key)"
  using assms
  by (auto simp: strncmp0_append_left strncmp0_prefix_right dest: prefix_same_cases[of key "s @ r" s])

text \<open>The three loops find the first pair with the key.\<close>

lemma finds_pairs:
  assumes "wf_pairs kvs" and "key_clear key kvs" and "no_nul key" and "length key < 2 ^ 32"
  shows "finds mp (map_find_skip mp key (length kvs) (enc_pairs mp kvs @ rest)) (map_of kvs (MStr key))
    \<and> finds mp (map_find_stay mp key (length kvs) (enc_pairs mp kvs @ rest)) (map_of kvs (MStr key))
    \<and> finds mp (map_find_n mp key (of_nat (length key)) (length kvs) (enc_pairs mp kvs @ rest))
           (map_of kvs (MStr key))"
  using assms(1,2)
proof (induction kvs)
  case (Cons kv kvs)
  obtain s v where kv: "kv = (MStr s, v)" and s: "no_nul s" "length s < 2 ^ 32" "wf_mpv v"
    and clear: "s = key \<or> \<not> prefix s key \<and> \<not> prefix key s"
    and rest: "wf_pairs kvs" "key_clear key kvs"
    using Cons.prems by (cases kv) auto
  note steps = find_step[OF s(2,3)] key_match[OF s(1) assms(3) clear]
  show ?case
  proof (cases "s = key")
    case True
    then show ?thesis using s(3) assms(4)
      by (auto simp: kv steps[unfolded True] finds_def points_to_def
          simp del: enc.simps map_find_skip.simps map_find_stay.simps map_find_n.simps)
  next
    case False
    then show ?thesis using Cons.IH[OF rest] assms(4)
      by (simp add: kv steps del: enc.simps map_find_skip.simps map_find_stay.simps map_find_n.simps)
  qed
qed (auto simp: finds_def)

lemma map_lookups:
  assumes "wf_mpv (MMap kvs)" and "key_clear key kvs" and "no_nul key" and "length key < 2 ^ 32"
  shows "finds mp (in_map mp (enc mp (MMap kvs) @ rest) (map_find_skip mp key)) (map_of kvs (MStr key))"
    and "finds mp (in_map mp (enc mp (MMap kvs) @ rest) (map_find_stay mp key)) (map_of kvs (MStr key))"
    and "finds mp (cc_coder_get_value_from_map mp (enc mp (MMap kvs) @ rest) key) (map_of kvs (MStr key))"
  using assms finds_pairs[of kvs key rest]
  by (simp_all add: in_map_enc cc_coder_get_value_from_map_def cc_coder_get_value_from_map_n_def
      del: enc.simps)

lemma has_key_enc:
  assumes "wf_mpv (MMap kvs)" and "key_clear key kvs" and "no_nul key" and "length key < 2 ^ 32"
  shows "cc_coder_has_key mp (enc mp (MMap kvs) @ rest) key = Some (map_of kvs (MStr key) \<noteq> None)"
  using map_lookups(1)[OF assms, of rest]
  by (auto simp: cc_coder_has_key_def finds_def simp del: enc.simps split: option.splits)

lemma string_from_map_enc:
  assumes "wf_mpv (MMap kvs)" and "key_clear key kvs" and "no_nul key" and "length key < 2 ^ 32"
    and "map_of kvs (MStr key) = Some (MStr s)"
  shows "\<exists>r. cc_coder_decode_string_from_map mp (enc mp (MMap kvs) @ rest) key
             = Some (Some (s @ r, of_nat (length s)))"
  using map_lookups(1)[OF assms(1-4), of rest] assms(5)
  by (auto simp: cc_coder_decode_string_from_map_def finds_def points_to_def
      simp del: enc.simps bind_Some_iff split: option.splits)

lemma string_from_map_fail:
  assumes "wf_mpv (MMap kvs)" and "key_clear key kvs" and "no_nul key" and "length key < 2 ^ 32"
    and "case map_of kvs (MStr key) of None \<Rightarrow> True | Some v \<Rightarrow> mp_type_of v \<noteq> MP_STR"
  shows "cc_coder_decode_string_from_map mp (enc mp (MMap kvs) @ rest) key = Some None"
  using map_lookups(1)[OF assms(1-4), of rest] assms(5)
  by (auto simp: cc_coder_decode_string_from_map_def finds_def points_to_def decode_str_other
      simp del: enc.simps split: option.splits)

lemma uint_from_map_enc:
  assumes "wf_mpv (MMap kvs)" and "key_clear key kvs" and "no_nul key" and "length key < 2 ^ 32"
  shows "map_of kvs (MStr key) = Some (MUint n) \<Longrightarrow>
           cc_coder_decode_uint_from_map mp (enc mp (MMap kvs) @ rest) key = Some (Some (ucast n))"
    and "map_of kvs (MStr key) = None \<Longrightarrow>
           cc_coder_decode_uint_from_map mp (enc mp (MMap kvs) @ rest) key = Some None"
  using map_lookups(2)[OF assms(1-4), of rest]
  by (auto simp: cc_coder_decode_uint_from_map_def finds_def points_to_def uint_enc)

lemma bool_from_map_enc:
  assumes "wf_mpv (MMap kvs)" and "key_clear key kvs" and "no_nul key" and "length key < 2 ^ 32"
  shows "map_of kvs (MStr key) = Some (MBool b) \<Longrightarrow>
           cc_coder_decode_bool_from_map mp (enc mp (MMap kvs) @ rest) key = Some (Some b)"
    and "map_of kvs (MStr key) = None \<Longrightarrow>
           cc_coder_decode_bool_from_map mp (enc mp (MMap kvs) @ rest) key = Some None"
  using map_lookups(2)[OF assms(1-4), of rest]
  by (auto simp: cc_coder_decode_bool_from_map_def finds_def points_to_def bool_enc)

lemma skip_values_enc:
  assumes "list_all wf_mpv vs" and "i \<le> length vs"
  shows "skip_values mp i (concat (map (enc mp) vs) @ rest) = Some (concat (map (enc mp) (drop i vs)) @ rest)"
  using assms
proof (induction i arbitrary: vs)
  case (Suc i)
  then show ?case by (cases vs) (simp_all add: next_enc)
qed simp

lemma value_from_array_enc:
  assumes "wf_mpv (MArr vs)"
  shows "if unat i < length vs
         then \<exists>p. cc_coder_get_value_from_array mp (enc mp (MArr vs) @ rest) i = Some (Some p)
                  \<and> points_to mp (vs ! unat i) p
         else cc_coder_get_value_from_array mp (enc mp (MArr vs) @ rest) i = Some None"
proof -
  have lt: "i < of_nat (length vs) \<longleftrightarrow> unat i < length vs"
    using assms by (simp add: word_less_nat_alt)
  have "unat i < length vs \<Longrightarrow> drop (unat i) vs = vs ! unat i # drop (Suc (unat i)) vs"
    by (simp add: Cons_nth_drop_Suc)
  moreover have "unat i < length vs \<Longrightarrow> wf_mpv (vs ! unat i)" using assms by (simp add: list_all_length)
  ultimately show ?thesis using assms
    by (auto simp: cc_coder_get_value_from_array_def array_enc lt skip_values_enc points_to_def)
qed

lemma size_of_value_enc: "wf_mpv v \<Longrightarrow> cc_coder_get_size_of_value mp (enc mp v @ rest) = Some (length (enc mp v))"
  by (simp add: cc_coder_get_size_of_value_def next_enc)

end

section \<open>Properties\<close>

text \<open>
  C16: the map look-ups of the coder. In an encoded map with string keys of which none is a prefix
  of another, \<open>cc_coder_has_key\<close>, \<open>cc_coder_get_value_from_map\<close> and the typed look-ups find the value
  that the map associates with the key, whatever comes before and behind it, and fail when there
  is none; they never read past the message.
\<close>

theorem coder_map_lookup:
  assumes "msgpuck mp" and "wf_mpv (MMap kvs)" and "key_clear key kvs" and "no_nul key"
    and "length key < 2 ^ 32"
  shows "let m = enc mp (MMap kvs) @ rest in
         cc_coder_has_key mp m key = Some (map_of kvs (MStr key) \<noteq> None)
         \<and> (case map_of kvs (MStr key) of
              None \<Rightarrow> cc_coder_get_value_from_map mp m key = Some None
                \<and> cc_coder_decode_string_from_map mp m key = Some None
                \<and> cc_coder_decode_uint_from_map mp m key = Some None
                \<and> cc_coder_decode_bool_from_map mp m key = Some None
            | Some v \<Rightarrow>
                (\<exists>p. cc_coder_get_value_from_map mp m key = Some (Some p) \<and> points_to mp v p)
                \<and> (case v of
                      MStr s \<Rightarrow> \<exists>r. cc_coder_decode_string_from_map mp m key
                                   = Some (Some (s @ r, of_nat (length s)))
                    | MUint n \<Rightarrow> cc_coder_decode_uint_from_map mp m key = Some (Some (ucast n))
                    | MBool b \<Rightarrow> cc_coder_decode_bool_from_map mp m key = Some (Some b)
                    | _ \<Rightarrow> cc_coder_decode_string_from_map mp m key = Some None))"
proof -
  note l = assms(2-5)
  note facts = msgpuck.has_key_enc[OF assms(1) l] msgpuck.map_lookups(3)[OF assms(1) l]
    msgpuck.string_from_map_enc[OF assms(1) l] msgpuck.string_from_map_fail[OF assms(1) l]
    msgpuck.uint_from_map_enc[OF assms(1) l] msgpuck.bool_from_map_enc[OF assms(1) l]
  show ?thesis
  proof (cases "map_of kvs (MStr key)")
    case None
    then show ?thesis using facts(1,2,4)[of rest] facts(6,8)[of rest]
      by (simp add: Let_def finds_def del: enc.simps)
  next
    case (Some v)
    then show ?thesis using facts(1,2,4)[of rest] facts(3)[of _ rest] facts(5,7)[of _ rest]
      by (cases v) (simp_all add: Let_def finds_def del: enc.simps)
  qed
qed

definition example_map :: "(mpv \<times> mpv) list" where
  "example_map = [(MStr ''cmd'', MStr ''REPLY''), (MStr ''value'', MMap [(MStr ''x'', MNil)]),
     (MStr ''port'', MUint 7)]"

theorem coder_map_lookup_witness:
  "cc_coder_decode_uint_from_map mp_ref (enc mp_ref (MMap example_map)) ''port'' = Some (Some 7)"
  using coder_map_lookup[OF ref.msgpuck_axioms, of example_map "''port''" "[]"]
  by (simp add: example_map_def Let_def del: enc.simps)

text \<open>
  The array look-ups. In an encoded array the element with an index below its length is found
  and every larger index is refused; \<open>cc_coder_get_size_of_value\<close> is the length of the encoded
  value.
\<close>

lemma coder_array_lookup:
  assumes "msgpuck mp" and "wf_mpv (MArr vs)"
  shows "cc_coder_get_size_of_array mp (enc mp (MArr vs) @ rest) = Some (of_nat (length vs))
    \<and> cc_coder_get_size_of_value mp (enc mp (MArr vs) @ rest) = Some (length (enc mp (MArr vs)))
    \<and> (if unat i < length vs
       then \<exists>p. cc_coder_get_value_from_array mp (enc mp (MArr vs) @ rest) i = Some (Some p)
                \<and> points_to mp (vs ! unat i) p
       else cc_coder_get_value_from_array mp (enc mp (MArr vs) @ rest) i = Some None)"
  using msgpuck.value_from_array_enc[OF assms, of i rest] msgpuck.size_of_value_enc[OF assms, of rest]
    msgpuck.array_enc[OF assms(1)]
  by (simp add: cc_coder_get_size_of_array_def)

text \<open>
  The comparison of \<open>cc_coder_decode_string_from_map\<close> stops at the end of the key in the
  message. A message whose first key is a proper prefix of the key asked for answers with the
  value of that other key.
\<close>

lemma coder_prefix_key:
  assumes "msgpuck mp" and "wf_mpv (MMap ((MStr k, MStr v) # kvs))" and "no_nul k" and "strict_prefix k key"
  shows "\<exists>r. cc_coder_decode_string_from_map mp (enc mp (MMap ((MStr k, MStr v) # kvs)) @ rest) key
             = Some (Some (v @ r, of_nat (length v)))"
proof -
  have wf: "length k < 2 ^ 32" "wf_mpv (MStr v)" and pairs: "wf_pairs ((MStr k, MStr v) # kvs)"
    and len: "length ((MStr k, MStr v) # kvs) < 2 ^ 32"
    using assms(2) by simp_all
  have "strncmp0 (k @ r) key (length k)" for r
    using assms(3,4) by (simp add: strncmp0_append_left strncmp0_prefix_right strict_prefix_def)
  then show ?thesis using wf
    by (auto simp: cc_coder_decode_string_from_map_def msgpuck.in_map_enc[OF assms(1) len pairs]
        msgpuck.find_step[OF assms(1) wf] msgpuck.decode_str_enc[OF assms(1)]
        simp del: enc.simps map_find_skip.simps)
qed

end
