(* ===== verification/Fifo.thy ===== *)
theory Fifo
  imports Coder
begin

text \<open>
  \<open>src/runtime/north/cc_token.c\<close> and \<open>cc_fifo.c\<close>: the token queue of a port. The queue is a ring of
  \<open>size\<close> slots with three 32 bit positions that only grow: \<open>read_pos\<close> (committed), \<open>tentative_read_pos\<close>
  (read but not yet committed) and \<open>write_pos\<close>; slot \<open>p % size\<close> belongs to position \<open>p\<close>.

  A token's value is the byte string its pointer owns (\<open>None\<close> for null); a token pointer returned
  by \<open>cc_fifo_peek\<close> is the slot number. A queue of size 0 faults at every \<open>%\<close>.
\<close>

section \<open>Tokens\<close>

record cc_token =
  tok_value :: "bytes option"
  tok_size :: nat

definition null_token :: cc_token where
  "null_token = \<lparr>tok_value = None, tok_size = 0\<rparr>"

definition cc_token_set_data :: "cc_token \<Rightarrow> bytes option \<Rightarrow> nat \<Rightarrow> cc_token" where
  "cc_token_set_data token data sz =
     (let token = (case tok_value token of Some _ \<Rightarrow> token\<lparr>tok_value := None\<rparr> | None \<Rightarrow> token)
      in token\<lparr>tok_value := data, tok_size := sz\<rparr>)"

definition cc_token_encode :: "mp \<Rightarrow> bytes \<Rightarrow> cc_token \<Rightarrow> bool \<Rightarrow> bytes option" where
  "cc_token_encode mp buffer token with_key =
     (let buffer = (if with_key then cc_coder_encode_kv_map mp buffer ''token'' 2
                    else cc_coder_encode_map mp buffer 2);
          buffer = cc_coder_encode_kv_str mp buffer ''type'' ''Token'' 5
      in if tok_size token \<noteq> 0
         then cc_coder_encode_kv_value mp buffer ''data'' (tok_value token) (tok_size token)
         else Some (cc_coder_encode_kv_nil mp buffer ''data''))"

definition cc_token_free :: "cc_token \<Rightarrow> cc_token" where
  "cc_token_free token =
     (case tok_value token of None \<Rightarrow> token | Some _ \<Rightarrow> token\<lparr>tok_value := None, tok_size := 0\<rparr>)"

section \<open>The queue\<close>

record cc_fifo =
  f_size :: u32
  f_write_pos :: u32
  f_read_pos :: u32
  f_tentative_read_pos :: u32
  f_tokens :: "cc_token list"

definition empty_fifo :: "u32 \<Rightarrow> cc_fifo" where
  "empty_fifo sz = \<lparr>f_size = sz, f_write_pos = 0, f_read_pos = 0, f_tentative_read_pos = 0,
     f_tokens = replicate (unat sz) null_token\<rparr>"

text \<open>The index \<open>pos % fifo->size\<close>, and a write to a slot of the array.\<close>

definition slot :: "cc_fifo \<Rightarrow> u32 \<Rightarrow> nat option" where
  "slot fifo pos = (if f_size fifo = 0 then None else Some (unat (pos mod f_size fifo)))"

definition set_slot :: "cc_fifo \<Rightarrow> nat \<Rightarrow> (cc_token \<Rightarrow> cc_token) \<Rightarrow> cc_fifo option" where
  "set_slot fifo i f = (if i < length (f_tokens fifo)
     then Some (fifo\<lparr>f_tokens := (f_tokens fifo)[i := f (f_tokens fifo ! i)]\<rparr>) else None)"

text \<open>The loop of \<open>cc_fifo_init\<close> over the tokens of a serialised queue.\<close>

fun fifo_init_tokens ::
  "mp \<Rightarrow> bytes \<Rightarrow> nat \<Rightarrow> nat \<Rightarrow> cc_fifo \<Rightarrow> cc_result \<Rightarrow> 'a env_scheme \<Rightarrow>
   (cc_result \<times> cc_fifo \<times> 'a env_scheme) option" where
  "fifo_init_tokens mp obj_tokens i 0 fifo result e = Some (result, fifo, e)"
| "fifo_init_tokens mp obj_tokens i (Suc n) fifo result e = do {
     v \<leftarrow> cc_coder_get_value_from_array mp obj_tokens (of_nat i);
     case v of
       None \<Rightarrow> Some (CC_FAIL, fifo, e)
     | Some obj_token \<Rightarrow> do {
         d \<leftarrow> cc_coder_get_value_from_map mp obj_token ''data'';
         case d of
           None \<Rightarrow> Some (CC_FAIL, fifo, e)
         | Some obj_data \<Rightarrow>
             if f_read_pos fifo \<noteq> f_tentative_read_pos fifo \<or> f_write_pos fifo \<noteq> f_read_pos fifo
             then do {
               sz \<leftarrow> cc_coder_get_size_of_value mp obj_data;
               case mem_alloc e of
                 (False, e) \<Rightarrow> Some (CC_FAIL, fifo, e)
               | (True, e) \<Rightarrow> do {
                   fifo \<leftarrow> set_slot fifo i (\<lambda>t. cc_token_set_data t (Some (take sz obj_data)) sz);
                   fifo_init_tokens mp obj_tokens (Suc i) n fifo result e } }
             else fifo_init_tokens mp obj_tokens (Suc i) n fifo result e } }"

text \<open>Restoring the positions and tokens of a serialised queue, from \<open>write_pos\<close> on.\<close>

definition fifo_init_state ::
  "mp \<Rightarrow> bytes \<Rightarrow> cc_fifo \<Rightarrow> 'a env_scheme \<Rightarrow> (cc_fifo option \<times> 'a env_scheme) option" where
  "fifo_init_state mp r fifo e = do {
     w \<leftarrow> cc_coder_decode_uint_from_map mp r ''write_pos'';
     case w of None \<Rightarrow> Some (None, e) | Some w \<Rightarrow> do {
     t \<leftarrow> cc_coder_get_value_from_map mp r ''tentative_read_pos'';
     case t of None \<Rightarrow> Some (None, e) | Some obj_tentative_read_pos \<Rightarrow> do {
     rs \<leftarrow> cc_coder_get_value_from_map mp r ''readers'';
     case rs of None \<Rightarrow> Some (None, e) | Some obj_readers \<Rightarrow> do {
     rd \<leftarrow> cc_coder_decode_string_from_array mp obj_readers 0;
     case rd of None \<Rightarrow> Some (None, e) | Some (reader, reader_len) \<Rightarrow>
     (case mem_alloc e of (False, e) \<Rightarrow> Some (None, e) | (True, e) \<Rightarrow> do {
     let tmp_reader = cstr (take (unat reader_len) reader);
     let fifo = fifo\<lparr>f_write_pos := w\<rparr>;
     tp \<leftarrow> cc_coder_decode_uint_from_map mp obj_tentative_read_pos tmp_reader;
     let (result, fifo) = (case tp of None \<Rightarrow> (CC_FAIL, fifo)
                           | Some x \<Rightarrow> (CC_SUCCESS, fifo\<lparr>f_tentative_read_pos := x\<rparr>));
     rp \<leftarrow> cc_coder_get_value_from_map mp r ''read_pos'';
     case rp of None \<Rightarrow> Some (None, e) | Some obj_read_pos \<Rightarrow> do {
     (result, fifo) \<leftarrow> (if result = CC_SUCCESS then do {
           x \<leftarrow> cc_coder_decode_uint_from_map mp obj_read_pos tmp_reader;
           Some (case x of None \<Rightarrow> (CC_FAIL, fifo) | Some x \<Rightarrow> (CC_SUCCESS, fifo\<lparr>f_read_pos := x\<rparr>)) }
         else Some (result, fifo));
     ts \<leftarrow> cc_coder_get_value_from_map mp r ''fifo'';
     (result, fifo, e) \<leftarrow> (case ts of None \<Rightarrow> Some (result, fifo, e)
        | Some obj_tokens \<Rightarrow> do {
            nbr_of_tokens \<leftarrow> cc_coder_get_size_of_array mp obj_tokens;
            fifo_init_tokens mp obj_tokens 0 (unat nbr_of_tokens) fifo result e });
     Some (if result \<noteq> CC_SUCCESS then None else Some fifo, e) } }) } } } }"

text \<open>The array of \<open>size\<close> null tokens; \<open>cont\<close> is what follows a successful allocation.\<close>

definition fifo_alloc_tokens ::
  "u32 \<Rightarrow> (cc_fifo \<Rightarrow> 'a env_scheme \<Rightarrow> (cc_fifo option \<times> 'a env_scheme) option) \<Rightarrow> 'a env_scheme \<Rightarrow>
   (cc_fifo option \<times> 'a env_scheme) option" where
  "fifo_alloc_tokens sz cont e = (case mem_alloc e of
     (False, e) \<Rightarrow> Some (None, e) | (True, e) \<Rightarrow> cont (empty_fifo sz) e)"

definition cc_fifo_init ::
  "mp \<Rightarrow> bytes option \<Rightarrow> bytes option \<Rightarrow> 'a env_scheme \<Rightarrow> (cc_fifo option \<times> 'a env_scheme) option" where
  "cc_fifo_init mp obj_fifo obj_properties e = (case mem_alloc e of
     (False, e) \<Rightarrow> Some (None, e)
   | (True, e) \<Rightarrow>
       (case obj_fifo of
          None \<Rightarrow> do {
            p \<leftarrow> obj_properties;
            d \<leftarrow> cc_coder_decode_uint_from_map mp p ''queue_length'';
            let sz = (case d of None \<Rightarrow> 4 | Some n \<Rightarrow> n);
            fifo_alloc_tokens sz (\<lambda>fifo e. Some (Some fifo, e)) e }
        | Some r \<Rightarrow> do {
            q \<leftarrow> cc_coder_decode_string_from_map mp r ''queuetype'';
            case q of
              None \<Rightarrow> Some (None, e)
            | Some (queuetype, queuetype_len) \<Rightarrow>
                if \<not> strncmp0 ''fanout_fifo'' queuetype (unat queuetype_len) then Some (None, e)
                else do {
                  d \<leftarrow> cc_coder_decode_uint_from_map mp r ''N'';
                  case d of
                    None \<Rightarrow> Some (None, e)
                  | Some sz \<Rightarrow> fifo_alloc_tokens sz (fifo_init_state mp r) e } }))"

definition cc_fifo_init_empty :: "'a env_scheme \<Rightarrow> cc_fifo option \<times> 'a env_scheme" where
  "cc_fifo_init_empty e = (case mem_alloc e of
     (False, e) \<Rightarrow> (None, e)
   | (True, e) \<Rightarrow> (case mem_alloc e of
        (False, e) \<Rightarrow> (None, e)
      | (True, e) \<Rightarrow> (Some (empty_fifo 4), e)))"

text \<open>The values \<open>cc_fifo_free\<close> gives back to the platform.\<close>

definition cc_fifo_free :: "cc_fifo \<Rightarrow> bytes list" where
  "cc_fifo_free fifo = List.map_filter tok_value (take (unat (f_size fifo)) (f_tokens fifo))"

definition cc_fifo_cancel :: "cc_fifo \<Rightarrow> cc_fifo" where
  "cc_fifo_cancel fifo = fifo\<lparr>f_tentative_read_pos := f_read_pos fifo\<rparr>"

definition cc_fifo_peek :: "cc_fifo \<Rightarrow> (nat \<times> cc_fifo) option" where
  "cc_fifo_peek fifo = do {
     let read_pos = f_tentative_read_pos fifo;
     let fifo = fifo\<lparr>f_tentative_read_pos := read_pos + 1\<rparr>;
     i \<leftarrow> slot fifo read_pos;
     Some (i, fifo) }"

definition cc_fifo_commit_read :: "cc_fifo \<Rightarrow> bool \<Rightarrow> cc_fifo option" where
  "cc_fifo_commit_read fifo free_token =
     (if f_read_pos fifo < f_tentative_read_pos fifo
      then do {
        i \<leftarrow> slot fifo (f_read_pos fifo);
        fifo \<leftarrow> (if free_token then set_slot fifo i cc_token_free
                 else set_slot fifo i (\<lambda>t. t\<lparr>tok_value := None, tok_size := 0\<rparr>));
        Some (fifo\<lparr>f_read_pos := f_read_pos fifo + 1\<rparr>) }
      else Some fifo)"

definition cc_fifo_cancel_commit :: "cc_fifo \<Rightarrow> cc_fifo" where
  "cc_fifo_cancel_commit fifo = fifo\<lparr>f_tentative_read_pos := f_read_pos fifo\<rparr>"

definition cc_fifo_slots_available :: "cc_fifo \<Rightarrow> u32 \<Rightarrow> bool option" where
  "cc_fifo_slots_available fifo len =
     (if f_size fifo = 0 then None
      else Some (f_size fifo - ((f_write_pos fifo - f_read_pos fifo) mod f_size fifo) - 1 \<ge> len))"

definition cc_fifo_tokens_available :: "cc_fifo \<Rightarrow> u32 \<Rightarrow> bool" where
  "cc_fifo_tokens_available fifo len = (f_write_pos fifo - f_tentative_read_pos fifo \<ge> len)"

definition cc_fifo_write :: "cc_fifo \<Rightarrow> bytes option \<Rightarrow> nat \<Rightarrow> (cc_result \<times> cc_fifo) option" where
  "cc_fifo_write fifo data sz = do {
     a \<leftarrow> cc_fifo_slots_available fifo 1;
     if \<not> a then Some (CC_FAIL, fifo)
     else do {
       i \<leftarrow> slot fifo (f_write_pos fifo);
       fifo \<leftarrow> set_slot fifo i (\<lambda>t. cc_token_set_data t data sz);
       Some (CC_SUCCESS, fifo\<lparr>f_write_pos := f_write_pos fifo + 1\<rparr>) } }"

definition cc_fifo_com_peek :: "cc_fifo \<Rightarrow> (nat \<times> u32 \<times> cc_fifo) option" where
  "cc_fifo_com_peek fifo = do {
     let sequence_nbr = f_tentative_read_pos fifo;
     (i, fifo) \<leftarrow> cc_fifo_peek fifo;
     Some (i, sequence_nbr, fifo) }"

definition cc_fifo_com_write :: "cc_fifo \<Rightarrow> bytes option \<Rightarrow> nat \<Rightarrow> u32 \<Rightarrow> (cc_result \<times> cc_fifo) option" where
  "cc_fifo_com_write fifo data sz sequence_nbr =
     (if sequence_nbr \<ge> f_write_pos fifo
      then do { (_, fifo) \<leftarrow> cc_fifo_write fifo data sz; Some (CC_SUCCESS, fifo) }
      else Some (CC_SUCCESS, fifo))"

definition cc_fifo_com_commit_read :: "cc_fifo \<Rightarrow> u32 \<Rightarrow> cc_fifo option" where
  "cc_fifo_com_commit_read fifo sequence_nbr =
     (if sequence_nbr \<ge> f_tentative_read_pos fifo then Some fifo
      else if f_read_pos fifo < f_tentative_read_pos fifo \<and> sequence_nbr = f_read_pos fifo
      then do {
        i \<leftarrow> slot fifo (f_read_pos fifo);
        fifo \<leftarrow> set_slot fifo i cc_token_free;
        Some (fifo\<lparr>f_read_pos := f_read_pos fifo + 1\<rparr>) }
      else Some fifo)"

definition cc_fifo_com_cancel_read :: "cc_fifo \<Rightarrow> u32 \<Rightarrow> cc_fifo" where
  "cc_fifo_com_cancel_read fifo sequence_nbr =
     (if sequence_nbr \<ge> f_tentative_read_pos fifo \<and> sequence_nbr < f_read_pos fifo then fifo
      else fifo\<lparr>f_tentative_read_pos := sequence_nbr\<rparr>)"

section \<open>The queue as a list\<close>

text \<open>
  The abstract queue: the tokens written and not yet committed, how many of them have been read
  tentatively, and how many tokens have been committed in all (the sequence number of the first).
\<close>

record token_queue =
  q_items :: "cc_token list"
  q_pend :: nat
  q_base :: nat

definition q_write :: "bytes option \<Rightarrow> nat \<Rightarrow> token_queue \<Rightarrow> token_queue" where
  "q_write d n q = q\<lparr>q_items := q_items q @ [\<lparr>tok_value = d, tok_size = n\<rparr>]\<rparr>"

definition q_peek :: "token_queue \<Rightarrow> token_queue" where
  "q_peek q = q\<lparr>q_pend := Suc (q_pend q)\<rparr>"

definition q_commit :: "token_queue \<Rightarrow> token_queue" where
  "q_commit q = (if q_pend q = 0 then q
     else q\<lparr>q_items := tl (q_items q), q_pend := q_pend q - 1, q_base := Suc (q_base q)\<rparr>)"

definition q_cancel :: "token_queue \<Rightarrow> token_queue" where
  "q_cancel q = q\<lparr>q_pend := 0\<rparr>"

abbreviation "wr f \<equiv> unat (f_write_pos f)"
abbreviation "rd f \<equiv> unat (f_read_pos f)"
abbreviation "tn f \<equiv> unat (f_tentative_read_pos f)"
abbreviation "sz f \<equiv> unat (f_size f)"

definition ring_items :: "cc_token list \<Rightarrow> nat \<Rightarrow> nat \<Rightarrow> nat \<Rightarrow> cc_token list" where
  "ring_items ts n r w = map (\<lambda>p. ts ! (p mod n)) [r..<w]"

definition fifo_abs :: "cc_fifo \<Rightarrow> token_queue" where
  "fifo_abs f = \<lparr>q_items = ring_items (f_tokens f) (sz f) (rd f) (wr f),
     q_pend = tn f - rd f, q_base = rd f\<rparr>"

text \<open>
  The invariant. The positions are ordered, at most \<open>size - 1\<close> slots are in use, and every slot that
  is not in use owns no value, so a write never replaces a token that was not released.
\<close>

definition fifo_ok :: "cc_fifo \<Rightarrow> bool" where
  "fifo_ok f \<longleftrightarrow> f_size f \<noteq> 0 \<and> length (f_tokens f) = sz f
     \<and> rd f \<le> tn f \<and> tn f \<le> wr f \<and> wr f - rd f < sz f
     \<and> (\<forall>i < sz f. i \<notin> (\<lambda>p. p mod sz f) ` {rd f..<wr f} \<longrightarrow> tok_value (f_tokens f ! i) = None)"

definition fifo_capacity :: "cc_fifo \<Rightarrow> nat" where
  "fifo_capacity f = sz f - 1"

text \<open>The write position has not used up its 32 bits.\<close>

definition fifo_fresh :: "cc_fifo \<Rightarrow> bool" where
  "fifo_fresh f \<longleftrightarrow> wr f + 1 < 2 ^ 32"

lemma mod_ring_inj:
  fixes p q n :: nat
  assumes "p \<le> q" and "q < p + n" and "p mod n = q mod n"
  shows "p = q"
proof -
  have "(q - p) mod n = 0" using assms(1,3) by (metis mod_eq_dvd_iff_nat dvd_imp_mod_0)
  moreover have "q - p < n" using assms(1,2) by simp
  ultimately have "q - p = 0" by simp
  with assms(1) show ?thesis by simp
qed

lemma ring_items_snoc:
  assumes "r \<le> w" and "w - r < n" and "length ts = n"
  shows "ring_items (ts[w mod n := t]) n r (Suc w) = ring_items ts n r w @ [t]"
proof -
  have "p mod n \<noteq> w mod n" if "p \<in> set [r..<w]" for p
  proof
    assume "p mod n = w mod n"
    moreover have "p \<le> w" "w < p + n" using that assms by auto
    ultimately show False using mod_ring_inj[of p w n] that by simp
  qed
  then have "map (\<lambda>p. ts[w mod n := t] ! (p mod n)) [r..<w] = map (\<lambda>p. ts ! (p mod n)) [r..<w]"
    by (intro map_cong refl) (metis nth_list_update_neq)
  moreover have "w mod n < length ts" using assms by simp
  ultimately show ?thesis using assms(1) by (simp add: ring_items_def)
qed

lemma ring_items_tl:
  assumes "r < w" and "w - r < n" and "length ts = n"
  shows "ring_items (ts[r mod n := t]) n (Suc r) w = tl (ring_items ts n r w)"
proof -
  have "p mod n \<noteq> r mod n" if "p \<in> set [Suc r..<w]" for p
  proof
    assume "p mod n = r mod n"
    moreover have "r \<le> p" "p < r + n" using that assms by auto
    ultimately show False using mod_ring_inj[of r p n] that by simp
  qed
  then have "map (\<lambda>p. ts[r mod n := t] ! (p mod n)) [Suc r..<w] = map (\<lambda>p. ts ! (p mod n)) [Suc r..<w]"
    by (intro map_cong refl) (metis nth_list_update_neq)
  then show ?thesis using assms(1) by (simp add: ring_items_def upt_conv_Cons)
qed

lemma length_ring_items [simp]: "length (ring_items ts n r w) = w - r"
  by (simp add: ring_items_def)

lemma nth_ring_items: "i < w - r \<Longrightarrow> ring_items ts n r w ! i = ts ! ((r + i) mod n)"
  by (simp add: ring_items_def)

lemma unat_Suc: "unat (x :: u32) + 1 < 2 ^ 32 \<Longrightarrow> unat (x + 1) = Suc (unat x)"
  by (simp add: unat_word_ariths)

lemma unat_Suc_lt: "x < (y :: u32) \<Longrightarrow> unat (x + 1) = Suc (unat x)"
  using unat_lt_32[of y] by (intro unat_Suc) (simp add: word_less_nat_alt)

lemma fifo_ok_slot:
  "fifo_ok f \<Longrightarrow> slot f p = Some (unat p mod sz f)"
  by (simp add: fifo_ok_def slot_def unat_mod)

lemma fifo_ok_set_slot:
  assumes "fifo_ok f"
  shows "set_slot f (p mod sz f) g =
     Some (f\<lparr>f_tokens := (f_tokens f)[p mod sz f := g (f_tokens f ! (p mod sz f))]\<rparr>)"
  using assms by (simp add: fifo_ok_def set_slot_def unat_gt_0)

lemma fifo_slots:
  assumes "fifo_ok f"
  shows "cc_fifo_slots_available f n = Some (unat n \<le> fifo_capacity f - length (q_items (fifo_abs f)))"
proof -
  let ?d = "f_write_pos f - f_read_pos f"
  have le: "f_read_pos f \<le> f_write_pos f" and lt: "wr f - rd f < sz f" and nz: "f_size f \<noteq> 0"
    using assms by (auto simp: fifo_ok_def word_le_nat_alt)
  have d: "unat ?d = wr f - rd f" using le by (simp add: unat_sub)
  then have m: "?d mod f_size f = ?d" using lt by (simp add: word_less_nat_alt mod_word_less)
  have "unat (f_size f - ?d) = sz f - (wr f - rd f)"
    using d lt by (simp add: unat_sub word_le_nat_alt)
  moreover have "1 \<le> f_size f - ?d" using calculation lt by (simp add: word_le_nat_alt)
  ultimately have "unat (f_size f - ?d - 1) = sz f - (wr f - rd f) - 1"
    by (simp add: unat_sub)
  then show ?thesis using nz m
    by (simp add: cc_fifo_slots_available_def fifo_capacity_def fifo_abs_def word_le_nat_alt)
qed

lemma fifo_avail:
  assumes "fifo_ok f"
  shows "cc_fifo_tokens_available f n = (unat n \<le> length (q_items (fifo_abs f)) - q_pend (fifo_abs f))"
  using assms
  by (simp add: cc_fifo_tokens_available_def fifo_ok_def fifo_abs_def word_le_nat_alt unat_sub)

lemma set_data_simp: "cc_token_set_data t d n = \<lparr>tok_value = d, tok_size = n\<rparr>"
  by (cases t) (simp add: cc_token_set_data_def split: option.split)

lemma token_free_value [simp]: "tok_value (cc_token_free t) = None"
  by (simp add: cc_token_free_def split: option.split)

lemma fifo_write_full:
  "fifo_ok f \<Longrightarrow> \<not> length (q_items (fifo_abs f)) < fifo_capacity f \<Longrightarrow>
   cc_fifo_write f d n = Some (CC_FAIL, f)"
  using fifo_slots[of f 1] by (simp add: cc_fifo_write_def)

lemma fifo_write_ok:
  assumes ok: "fifo_ok f" and fresh: "fifo_fresh f"
    and room: "length (q_items (fifo_abs f)) < fifo_capacity f"
  shows "\<exists>f'. cc_fifo_write f d n = Some (CC_SUCCESS, f') \<and> fifo_ok f'
           \<and> fifo_abs f' = q_write d n (fifo_abs f) \<and> fifo_capacity f' = fifo_capacity f"
proof -
  let ?i = "wr f mod sz f"
  let ?f = "f\<lparr>f_tokens := (f_tokens f)[?i := \<lparr>tok_value = d, tok_size = n\<rparr>],
              f_write_pos := f_write_pos f + 1\<rparr>"
  have w: "unat (f_write_pos f + 1) = Suc (wr f)" using fresh by (simp add: fifo_fresh_def unat_Suc)
  have pos: "length (f_tokens f) = sz f" "rd f \<le> wr f" "wr f - rd f < sz f - 1" "0 < sz f"
    using ok room by (simp_all add: fifo_ok_def fifo_abs_def fifo_capacity_def unat_gt_0)
  have "cc_fifo_write f d n = Some (CC_SUCCESS, ?f)"
    using ok room fifo_slots[OF ok, of 1]
    by (simp add: cc_fifo_write_def fifo_ok_slot fifo_ok_set_slot set_data_simp)
  moreover have "fifo_abs ?f = q_write d n (fifo_abs f)"
    using pos by (simp add: fifo_abs_def q_write_def w ring_items_snoc)
  moreover have "fifo_ok ?f"
    using ok pos
    by (auto simp: fifo_ok_def w atLeastLessThanSuc nth_list_update)
  ultimately show ?thesis by (simp add: fifo_capacity_def)
qed

lemma fifo_peek_ok:
  assumes ok: "fifo_ok f" and more: "q_pend (fifo_abs f) < length (q_items (fifo_abs f))"
  shows "\<exists>i f'. cc_fifo_peek f = Some (i, f') \<and> fifo_ok f' \<and> fifo_abs f' = q_peek (fifo_abs f)
           \<and> f_tokens f' ! i = q_items (fifo_abs f) ! q_pend (fifo_abs f)"
proof -
  let ?f = "f\<lparr>f_tentative_read_pos := f_tentative_read_pos f + 1\<rparr>"
  have pos: "rd f \<le> tn f" "tn f < wr f" using ok more by (auto simp: fifo_ok_def fifo_abs_def)
  then have t: "unat (f_tentative_read_pos f + 1) = Suc (tn f)"
    by (intro unat_Suc_lt[of _ "f_write_pos f"]) (simp add: word_less_nat_alt)
  have ok': "fifo_ok ?f" using ok pos by (simp add: fifo_ok_def t)
  have "slot ?f (f_tentative_read_pos f) = Some (tn f mod sz f)"
    using fifo_ok_slot[OF ok', of "f_tentative_read_pos f"] by simp
  then have "cc_fifo_peek f = Some (tn f mod sz f, ?f)" by (simp add: cc_fifo_peek_def Let_def)
  moreover have "fifo_abs ?f = q_peek (fifo_abs f)"
    using pos by (simp add: fifo_abs_def q_peek_def t Suc_diff_le)
  moreover have "f_tokens ?f ! (tn f mod sz f) = q_items (fifo_abs f) ! q_pend (fifo_abs f)"
    using pos by (simp add: fifo_abs_def nth_ring_items)
  ultimately show ?thesis using ok' by blast
qed

text \<open>Releasing the token at \<open>read_pos\<close>, shared by the two commits.\<close>

lemma fifo_release:
  assumes ok: "fifo_ok f" and lt: "f_read_pos f < f_tentative_read_pos f"
    and none: "tok_value (g (f_tokens f ! (rd f mod sz f))) = None"
  shows "\<exists>f'. set_slot f (rd f mod sz f) g = Some f'
           \<and> fifo_ok (f'\<lparr>f_read_pos := f_read_pos f' + 1\<rparr>)
           \<and> fifo_abs (f'\<lparr>f_read_pos := f_read_pos f' + 1\<rparr>) = q_commit (fifo_abs f)
           \<and> fifo_capacity (f'\<lparr>f_read_pos := f_read_pos f' + 1\<rparr>) = fifo_capacity f"
proof -
  let ?i = "rd f mod sz f"
  have pos: "rd f < tn f" "tn f \<le> wr f" "wr f - rd f < sz f" "length (f_tokens f) = sz f"
    using ok lt by (simp_all add: fifo_ok_def word_less_nat_alt)
  have r: "unat (f_read_pos f + 1) = Suc (rd f)" by (rule unat_Suc_lt[OF lt])
  have split: "{rd f..<wr f} = insert (rd f) {Suc (rd f)..<wr f}" using pos by auto
  let ?f = "f\<lparr>f_tokens := (f_tokens f)[?i := g (f_tokens f ! ?i)], f_read_pos := f_read_pos f + 1\<rparr>"
  have "fifo_ok ?f" using ok pos none by (auto simp: fifo_ok_def r split nth_list_update)
  moreover have "fifo_abs ?f = q_commit (fifo_abs f)"
    using pos by (simp add: fifo_abs_def q_commit_def r ring_items_tl)
  ultimately show ?thesis using ok by (simp add: fifo_ok_set_slot fifo_capacity_def)
qed

lemma fifo_commit_ok:
  assumes ok: "fifo_ok f"
  shows "\<exists>f'. cc_fifo_commit_read f b = Some f' \<and> fifo_ok f' \<and> fifo_abs f' = q_commit (fifo_abs f)
           \<and> fifo_capacity f' = fifo_capacity f"
proof (cases "f_read_pos f < f_tentative_read_pos f")
  case True
  let ?g = "if b then cc_token_free else (\<lambda>t. t\<lparr>tok_value := None, tok_size := 0\<rparr>)"
  from fifo_release[OF ok True, of ?g] show ?thesis
    using True ok by (auto simp: cc_fifo_commit_read_def fifo_ok_slot)
next
  case False
  then have "q_pend (fifo_abs f) = 0" by (simp add: fifo_abs_def word_less_nat_alt)
  with False ok show ?thesis by (simp add: cc_fifo_commit_read_def q_commit_def)
qed

lemma fifo_cancel_ok:
  "fifo_ok f \<Longrightarrow> fifo_ok (cc_fifo_cancel f) \<and> fifo_abs (cc_fifo_cancel f) = q_cancel (fifo_abs f)
     \<and> fifo_capacity (cc_fifo_cancel f) = fifo_capacity f"
  by (simp add: fifo_ok_def cc_fifo_cancel_def fifo_abs_def q_cancel_def fifo_capacity_def)

lemma fifo_com_commit_ok:
  assumes ok: "fifo_ok f"
  shows "\<exists>f'. cc_fifo_com_commit_read f seq = Some f' \<and> fifo_ok f' \<and> fifo_capacity f' = fifo_capacity f
           \<and> fifo_abs f' = (if unat seq = q_base (fifo_abs f) then q_commit (fifo_abs f) else fifo_abs f)"
proof (cases "seq < f_tentative_read_pos f \<and> f_read_pos f < f_tentative_read_pos f \<and> seq = f_read_pos f")
  case True
  with fifo_release[OF ok, of cc_token_free] ok show ?thesis
    by (auto simp: cc_fifo_com_commit_read_def fifo_ok_slot fifo_abs_def)
next
  case False
  then have "cc_fifo_com_commit_read f seq = Some f" by (auto simp: cc_fifo_com_commit_read_def)
  moreover have "q_commit (fifo_abs f) = fifo_abs f" if "unat seq = q_base (fifo_abs f)"
    using False that
    by (simp add: fifo_abs_def q_commit_def word_less_nat_alt unsigned_word_eqI) 
  ultimately show ?thesis using ok by auto
qed

lemma fifo_com_cancel_ok:
  assumes "fifo_ok f" and "rd f \<le> unat seq" and "unat seq \<le> wr f"
  shows "fifo_ok (cc_fifo_com_cancel_read f seq)
    \<and> fifo_abs (cc_fifo_com_cancel_read f seq) = (fifo_abs f)\<lparr>q_pend := unat seq - rd f\<rparr>"
  using assms
  by (auto simp: fifo_ok_def cc_fifo_com_cancel_read_def fifo_abs_def word_le_nat_alt word_less_nat_alt)

section \<open>The interface of a token queue\<close>

text \<open>
  What actors, ports and the protocol rely on: the operations never fault on a queue in order and
  act on the abstract queue as \<open>q_write\<close>, \<open>q_peek\<close>, \<open>q_commit\<close> and \<open>q_cancel\<close> do.
\<close>

locale tentative_queue =
  fixes inv :: "'f \<Rightarrow> bool" and abs :: "'f \<Rightarrow> token_queue" and capacity :: "'f \<Rightarrow> nat"
    and fresh :: "'f \<Rightarrow> bool"
    and slots :: "'f \<Rightarrow> u32 \<Rightarrow> bool option" and avail :: "'f \<Rightarrow> u32 \<Rightarrow> bool"
    and put :: "'f \<Rightarrow> bytes option \<Rightarrow> nat \<Rightarrow> (cc_result \<times> 'f) option"
    and peek :: "'f \<Rightarrow> (nat \<times> 'f) option" and token_at :: "'f \<Rightarrow> nat \<Rightarrow> cc_token"
    and commit :: "'f \<Rightarrow> bool \<Rightarrow> 'f option" and cancel :: "'f \<Rightarrow> 'f"
  assumes slots_iff: "inv f \<Longrightarrow> slots f n = Some (unat n \<le> capacity f - length (q_items (abs f)))"
    and avail_iff: "inv f \<Longrightarrow> avail f n = (unat n \<le> length (q_items (abs f)) - q_pend (abs f))"
    and write_ok: "inv f \<Longrightarrow> fresh f \<Longrightarrow> length (q_items (abs f)) < capacity f \<Longrightarrow>
          \<exists>f'. put f d l = Some (CC_SUCCESS, f') \<and> inv f' \<and> abs f' = q_write d l (abs f)
               \<and> capacity f' = capacity f"
    and write_full: "inv f \<Longrightarrow> \<not> length (q_items (abs f)) < capacity f \<Longrightarrow> put f d l = Some (CC_FAIL, f)"
    and peek_ok: "inv f \<Longrightarrow> q_pend (abs f) < length (q_items (abs f)) \<Longrightarrow>
          \<exists>i f'. peek f = Some (i, f') \<and> inv f' \<and> abs f' = q_peek (abs f)
                 \<and> token_at f' i = q_items (abs f) ! q_pend (abs f)"
    and commit_ok: "inv f \<Longrightarrow>
          \<exists>f'. commit f b = Some f' \<and> inv f' \<and> abs f' = q_commit (abs f) \<and> capacity f' = capacity f"
    and cancel_ok: "inv f \<Longrightarrow> inv (cancel f) \<and> abs (cancel f) = q_cancel (abs f) \<and> capacity (cancel f) = capacity f"
begin

text \<open>What an actor does with one token: peek, then commit or cancel.\<close>

lemma peek_commit:
  assumes "inv f" and "q_pend (abs f) = 0" and "q_items (abs f) = t # ts"
  shows "\<exists>i f1 f2. peek f = Some (i, f1) \<and> token_at f1 i = t \<and> commit f1 b = Some f2 \<and> inv f2
           \<and> q_items (abs f2) = ts \<and> q_pend (abs f2) = 0"
proof -
  obtain i f1 where 1: "peek f = Some (i, f1)" "inv f1" "abs f1 = q_peek (abs f)" "token_at f1 i = t"
    using peek_ok[OF assms(1)] assms by auto
  moreover obtain f2 where "commit f1 b = Some f2" "inv f2" "abs f2 = q_commit (abs f1)"
    using commit_ok[OF 1(2)] by blast
  ultimately show ?thesis using assms by (auto simp: q_peek_def q_commit_def)
qed

lemma peek_cancel:
  assumes "inv f" and "q_pend (abs f) = 0" and "q_items (abs f) \<noteq> []"
  shows "\<exists>i f1. peek f = Some (i, f1) \<and> inv (cancel f1) \<and> abs (cancel f1) = abs f"
  using peek_ok[OF assms(1)] assms(2,3) cancel_ok by (fastforce simp: q_peek_def q_cancel_def)

text \<open>A write is accepted exactly when \<open>slots\<close> said so, and then the token becomes available.\<close>

lemma write_when_slots:
  assumes "inv f" and "fresh f"
  shows "slots f 1 = Some True \<longleftrightarrow> (\<exists>f'. put f d l = Some (CC_SUCCESS, f'))"
  using slots_iff[OF assms(1), of 1] write_ok[OF assms, of d l] write_full[OF assms(1), of d l]
  by (cases "length (q_items (abs f)) < capacity f") auto

lemma write_then_avail:
  assumes "inv f" and "fresh f" and "put f d l = Some (CC_SUCCESS, f')"
    and "q_pend (abs f) \<le> length (q_items (abs f))"
  shows "avail f' 1"
proof -
  have "length (q_items (abs f)) < capacity f"
    using write_full[OF assms(1), of d l] assms(3) by auto
  then have "inv f'" "abs f' = q_write d l (abs f)" using write_ok[OF assms(1,2), of d l] assms(3) by auto
  then show ?thesis using avail_iff[of f' 1] assms(4) by (simp add: q_write_def)
qed

end

interpretation ring: tentative_queue fifo_ok fifo_abs fifo_capacity fifo_fresh
  cc_fifo_slots_available cc_fifo_tokens_available cc_fifo_write cc_fifo_peek "\<lambda>f i. f_tokens f ! i"
  cc_fifo_commit_read cc_fifo_cancel
proof
  show "fifo_ok f \<Longrightarrow> \<exists>f'. cc_fifo_commit_read f b = Some f' \<and> fifo_ok f' \<and> fifo_abs f' = q_commit (fifo_abs f)
    \<and> fifo_capacity f' = fifo_capacity f" for f b
    by (rule fifo_commit_ok)
qed (simp_all add: fifo_slots fifo_avail fifo_write_full fifo_write_ok fifo_peek_ok fifo_cancel_ok)

section \<open>Histories\<close>

text \<open>
  \<open>fifo_run n f W C\<close>: from an empty queue of \<open>n\<close> slots, a sequence of operations led to the queue \<open>f\<close>,
  the accepted writes wrote the tokens \<open>W\<close> and the commits released the tokens \<open>C\<close>. Readers ask
  whether a token is available before they peek, and a cancel of the protocol names a token that
  was sent and not yet committed.
\<close>

inductive fifo_run :: "u32 \<Rightarrow> cc_fifo \<Rightarrow> cc_token list \<Rightarrow> cc_token list \<Rightarrow> bool" for n :: u32 where
  fr_init: "n \<noteq> 0 \<Longrightarrow> fifo_run n (empty_fifo n) [] []"
| fr_write: "fifo_run n f W C \<Longrightarrow> fifo_fresh f \<Longrightarrow> cc_fifo_write f d l = Some (CC_SUCCESS, f') \<Longrightarrow>
     fifo_run n f' (W @ [\<lparr>tok_value = d, tok_size = l\<rparr>]) C"
| fr_refused: "fifo_run n f W C \<Longrightarrow> cc_fifo_write f d l = Some (CC_FAIL, f') \<Longrightarrow> fifo_run n f' W C"
| fr_peek: "fifo_run n f W C \<Longrightarrow> cc_fifo_tokens_available f 1 \<Longrightarrow> cc_fifo_peek f = Some (i, f') \<Longrightarrow>
     fifo_run n f' W C"
| fr_commit: "fifo_run n f W C \<Longrightarrow> f_read_pos f < f_tentative_read_pos f \<Longrightarrow>
     cc_fifo_commit_read f b = Some f' \<Longrightarrow>
     fifo_run n f' W (C @ [f_tokens f ! unat (f_read_pos f mod f_size f)])"
| fr_com_commit: "fifo_run n f W C \<Longrightarrow> cc_fifo_com_commit_read f s = Some f' \<Longrightarrow>
     fifo_run n f' W (C @ (if f_read_pos f' = f_read_pos f then []
                           else [f_tokens f ! unat (f_read_pos f mod f_size f)]))"
| fr_cancel: "fifo_run n f W C \<Longrightarrow> fifo_run n (cc_fifo_cancel f) W C"
| fr_com_cancel: "fifo_run n f W C \<Longrightarrow> f_read_pos f \<le> s \<Longrightarrow> s \<le> f_tentative_read_pos f \<Longrightarrow>
     fifo_run n (cc_fifo_com_cancel_read f s) W C"

definition hist_ok :: "cc_fifo \<Rightarrow> cc_token list \<Rightarrow> cc_token list \<Rightarrow> bool" where
  "hist_ok f W C \<longleftrightarrow> fifo_ok f \<and> W = C @ q_items (fifo_abs f) \<and> length C = rd f"

lemma hist_commit:
  assumes "hist_ok f W C" and "f_read_pos f < f_tentative_read_pos f"
    and "fifo_ok f'" and "fifo_abs f' = q_commit (fifo_abs f)"
  shows "hist_ok f' W (C @ [f_tokens f ! unat (f_read_pos f mod f_size f)])"
proof -
  have pos: "rd f < tn f" "tn f \<le> wr f"
    using assms(1,2) by (simp_all add: hist_ok_def fifo_ok_def word_less_nat_alt)
  then have "q_items (fifo_abs f) = f_tokens f ! (rd f mod sz f) # tl (q_items (fifo_abs f))"
    by (simp add: fifo_abs_def ring_items_def upt_conv_Cons)
  moreover have "q_items (fifo_abs f') = tl (q_items (fifo_abs f))" "rd f' = Suc (rd f)"
    using assms(4) pos by (auto simp: q_commit_def fifo_abs_def)
  ultimately show ?thesis using assms(1,3) by (simp add: hist_ok_def unat_mod)
qed

lemma hist_same:
  "hist_ok f W C \<Longrightarrow> fifo_ok f' \<Longrightarrow> q_items (fifo_abs f') = q_items (fifo_abs f) \<Longrightarrow> rd f' = rd f \<Longrightarrow> hist_ok f' W C"
  by (simp add: hist_ok_def)

lemma fifo_run_hist: "fifo_run n f W C \<Longrightarrow> hist_ok f W C"
proof (induction rule: fifo_run.induct)
  case fr_init
  then show ?case
    by (simp add: hist_ok_def fifo_ok_def empty_fifo_def fifo_abs_def ring_items_def null_token_def unat_gt_0)
next
  case (fr_write f W C d l f')
  then have ok: "fifo_ok f" by (simp add: hist_ok_def)
  have room: "length (q_items (fifo_abs f)) < fifo_capacity f"
    using fifo_write_full[OF ok, of d l] fr_write.hyps(3) by auto
  from fifo_write_ok[OF ok fr_write.hyps(2) room, of d l] fr_write show ?case
    by (auto simp: hist_ok_def q_write_def fifo_abs_def)
next
  case (fr_refused f W C d l f')
  then have "f' = f"
    by (auto simp: cc_fifo_write_def split: if_splits)
  with fr_refused show ?case by simp
next
  case (fr_peek f W C i f')
  then have ok: "fifo_ok f" by (simp add: hist_ok_def)
  then have "q_pend (fifo_abs f) < length (q_items (fifo_abs f))"
    using fifo_avail[OF ok, of 1] fr_peek.hyps(2) by simp
  from fifo_peek_ok[OF ok this] fr_peek show ?case
    by (auto intro!: hist_same[of f] simp: q_peek_def fifo_abs_def)
next
  case (fr_commit f W C b f')
  then have "fifo_ok f" by (simp add: hist_ok_def)
  from fifo_commit_ok[OF this, of b] fr_commit show ?case
    by (intro hist_commit) auto
next
  case (fr_com_commit f W C s f')
  then have ok: "fifo_ok f" by (simp add: hist_ok_def)
  note c = fifo_com_commit_ok[OF ok, of s]
  show ?case
  proof (cases "f_read_pos f' = f_read_pos f")
    case True
    then have "f' = f"
      using fr_com_commit.hyps(2)
      by (auto simp: cc_fifo_com_commit_read_def set_slot_def split: if_splits)
    with True fr_com_commit.IH show ?thesis by auto
  next
    case False
    then have "f_read_pos f < f_tentative_read_pos f" "s = f_read_pos f"
      using fr_com_commit.hyps(2) by (auto simp: cc_fifo_com_commit_read_def split: if_splits)
    moreover have "fifo_ok f'" "fifo_abs f' = q_commit (fifo_abs f)"
      using c fr_com_commit.hyps(2) calculation by (auto simp: fifo_abs_def)
    ultimately show ?thesis using hist_commit[OF fr_com_commit.IH] False by simp
  qed
next
  case (fr_cancel f W C)
  then show ?case using fifo_cancel_ok[of f]
    by (auto intro!: hist_same[of f] simp: hist_ok_def q_cancel_def fifo_abs_def)
next
  case (fr_com_cancel f W C s)
  then have "tn f \<le> wr f" by (simp add: hist_ok_def fifo_ok_def)
  with fr_com_cancel fifo_com_cancel_ok[of f s] show ?case
    by (auto intro!: hist_same[of f] simp: hist_ok_def word_le_nat_alt fifo_abs_def)
qed

section \<open>Properties\<close>


text \<open>One token written to and committed from a queue of two slots.\<close>

lemma replicate_2: "replicate 2 x = [x, x]"
  by (simp add: numeral_2_eq_2)

definition example_fifo1 :: cc_fifo where
  "example_fifo1 = (empty_fifo 2)\<lparr>f_tokens := [\<lparr>tok_value = Some ''a'', tok_size = 1\<rparr>, null_token],
     f_write_pos := 1\<rparr>"

lemma example_run1: "fifo_run 2 example_fifo1 [\<lparr>tok_value = Some ''a'', tok_size = 1\<rparr>] []"
proof -
  have w: "cc_fifo_write (empty_fifo 2) (Some ''a'') 1 = Some (CC_SUCCESS, example_fifo1)"
    by (simp add: cc_fifo_write_def cc_fifo_slots_available_def slot_def set_slot_def empty_fifo_def
        example_fifo1_def set_data_simp replicate_2)
  have "fifo_run 2 (empty_fifo 2) [] []" by (rule fr_init) simp
  from fr_write[OF this _ w] show ?thesis by (simp add: fifo_fresh_def empty_fifo_def)
qed


text \<open>
  The sequence number that \<open>cc_fifo_com_peek\<close> hands to the protocol names the token: the token
  sent under the number \<open>s\<close> is the \<open>s\<close>-th one that was ever written, and the peek does not fault.
\<close>

lemma fifo_com_peek_sequence:
  assumes "fifo_run n f W C" and "cc_fifo_tokens_available f 1"
  shows "\<exists>i s f'. cc_fifo_com_peek f = Some (i, s, f') \<and> unat s < length W \<and> f_tokens f' ! i = W ! unat s
           \<and> fifo_run n f' W C"
proof -
  have h: "fifo_ok f" "W = C @ q_items (fifo_abs f)" "length C = rd f"
    using fifo_run_hist[OF assms(1)] by (simp_all add: hist_ok_def)
  then have lt: "q_pend (fifo_abs f) < length (q_items (fifo_abs f))"
    using fifo_avail[OF h(1), of 1] assms(2) by simp
  then obtain i f' where p: "cc_fifo_peek f = Some (i, f')"
    and t: "f_tokens f' ! i = q_items (fifo_abs f) ! q_pend (fifo_abs f)"
    using fifo_peek_ok[OF h(1)] by blast
  have q: "tn f = length C + q_pend (fifo_abs f)" using h by (simp add: fifo_abs_def fifo_ok_def)
  have "cc_fifo_com_peek f = Some (i, f_tentative_read_pos f, f')"
    by (simp add: cc_fifo_com_peek_def p Let_def)
  moreover have "fifo_run n f' W C" using fr_peek[OF assms p] .
  ultimately show ?thesis using t q lt h(2) by (auto simp: nth_append)
qed

text \<open>
  A write to a queue is accepted exactly when \<open>cc_fifo_slots_available\<close> promised a slot, and a
  refused write leaves the queue as it was.
\<close>

lemma fifo_write_iff_slots:
  assumes "fifo_ok f" and "fifo_fresh f"
  shows "if cc_fifo_slots_available f 1 = Some True
         then \<exists>f'. cc_fifo_write f d l = Some (CC_SUCCESS, f') \<and> fifo_ok f'
                   \<and> fifo_abs f' = q_write d l (fifo_abs f) \<and> cc_fifo_tokens_available f' 1
         else cc_fifo_write f d l = Some (CC_FAIL, f)"
proof (cases "length (q_items (fifo_abs f)) < fifo_capacity f")
  case True
  then have slots: "cc_fifo_slots_available f 1 = Some True" using fifo_slots[OF assms(1), of 1] by simp
  obtain f' where f': "cc_fifo_write f d l = Some (CC_SUCCESS, f')" "fifo_ok f'"
    "fifo_abs f' = q_write d l (fifo_abs f)"
    using ring.write_ok[OF assms True, of d l] by blast
  have "q_pend (fifo_abs f) \<le> length (q_items (fifo_abs f))"
    using assms(1) by (auto simp: fifo_ok_def fifo_abs_def)
  from ring.write_then_avail[OF assms f'(1) this] f' slots show ?thesis by auto
next
  case False
  then show ?thesis using fifo_slots[OF assms(1), of 1] ring.write_full[OF assms(1) False, of d l] by simp
qed

text \<open>
  A commit from the protocol (an ACK) releases a token only when it names the oldest one and that
  token has been sent; any other sequence number, old, repeated or from the future, changes nothing.
\<close>

lemma fifo_com_commit_exact:
  assumes "fifo_ok f"
  shows "\<exists>f'. cc_fifo_com_commit_read f s = Some f' \<and> fifo_ok f'
    \<and> fifo_abs f' = (if s = f_read_pos f \<and> 0 < q_pend (fifo_abs f)
                    then (fifo_abs f)\<lparr>q_items := tl (q_items (fifo_abs f)),
                           q_pend := q_pend (fifo_abs f) - 1, q_base := Suc (q_base (fifo_abs f))\<rparr>
                    else fifo_abs f)"
proof -
  have "unat s = q_base (fifo_abs f) \<longleftrightarrow> s = f_read_pos f"
    by (auto simp: fifo_abs_def unsigned_word_eqI)
  then show ?thesis using fifo_com_commit_ok[OF assms, of s] by (auto simp: q_commit_def)
qed

text \<open>
  The guard of \<open>cc_fifo_com_cancel_read\<close> never holds. A NACK with any sequence number moves
  \<open>tentative_read_pos\<close> there; with one beyond \<open>write_pos\<close> the queue is out of order and reports
  tokens available that were never written.
\<close>

lemma fifo_com_cancel_unguarded:
  assumes "fifo_ok f" and "f_write_pos f < s"
  shows "f_tentative_read_pos (cc_fifo_com_cancel_read f s) = s
         \<and> \<not> fifo_ok (cc_fifo_com_cancel_read f s)
         \<and> cc_fifo_tokens_available (cc_fifo_com_cancel_read f s) 1"
proof -
  have t: "cc_fifo_com_cancel_read f s = f\<lparr>f_tentative_read_pos := s\<rparr>"
    using assms by (auto simp: cc_fifo_com_cancel_read_def fifo_ok_def word_less_nat_alt word_le_nat_alt)
  have "f_write_pos f - s \<noteq> 0" using assms(2) by auto
  then have "1 \<le> f_write_pos f - s" by (simp add: word_le_nat_alt unat_gt_0 Suc_le_eq)
  then show ?thesis using assms(2)
    by (simp add: t fifo_ok_def cc_fifo_tokens_available_def word_less_nat_alt)
qed

end
