(* ===== verification/Transport.thy ===== *)
theory Transport
  imports Prelude
begin

text \<open>
  \<open>src/runtime/north/cc_transport.c\<close>: the framing of messages (a 4 byte big-endian length before
  each message), the reassembly of messages from what the transport's \<open>recv\<close> returns, and sending.

  The bytes on their way are a list of chunks: one call of \<open>recv\<close> with room for \<open>n\<close> bytes returns
  up to \<open>n\<close> bytes of the first chunk, as a socket does; with nothing on its way it returns 0 or an
  error. The build without TLS is modelled.
\<close>

unbundle bit_operations_syntax

datatype cc_transport_state =
    CC_TRANSPORT_INTERFACE_DOWN | CC_TRANSPORT_INTERFACE_UP | CC_TRANSPORT_CONNECTED
  | CC_TRANSPORT_DISCONNECTED | CC_TRANSPORT_PENDING | CC_TRANSPORT_ENABLED

text \<open>\<open>rx_data\<close> is \<open>None\<close> for the null buffer, otherwise the bytes received so far (\<open>pos\<close> of them).\<close>

record cc_transport_buffer =
  rx_data :: "bytes option"
  rx_pos :: u32
  rx_size :: u32

text \<open>
  The state of a client that belongs to its transport: a descriptor, an address and a port for the transports over sockets of
  \<open>src/runtime/south/transport\<close>. The address is a string in an array of the client.
\<close>

datatype cc_transport_type = CC_TRANSPORT_SOCKET_TYPE | CC_TRANSPORT_BT_TYPE | CC_TRANSPORT_FCM_TYPE | CC_TRANSPORT_SPRITZER_TYPE

record cc_transport_socket_client =
  sc_fd :: int
  sc_ip :: bytes
  sc_port :: int

record cc_transport_client =
  tc_transport_type :: cc_transport_type
  tc_uri :: bytes
  tc_peer_id :: bytes
  tc_state :: cc_transport_state
  tc_rx_buffer :: cc_transport_buffer
  tc_client_state :: "cc_transport_socket_client option"
  tc_prefix_len :: u8

definition rx_idle :: cc_transport_buffer where
  "rx_idle = \<lparr>rx_data = None, rx_pos = 0, rx_size = 0\<rparr>"

definition CC_TRANSPORT_LEN_PREFIX_SIZE :: nat where
  "CC_TRANSPORT_LEN_PREFIX_SIZE = 4"

section \<open>Frames\<close>

text \<open>\<open>buffer[i] & 0xFF\<close>\<close>

definition byte_at :: "char \<Rightarrow> u32" where
  "byte_at c = of_nat (of_char c) AND 0xFF"

definition cc_transport_get_message_len :: "bytes \<Rightarrow> u32" where
  "cc_transport_get_message_len buffer =
     byte_at (buffer ! 3) OR push_bit 8 (byte_at (buffer ! 2)) OR push_bit 16 (byte_at (buffer ! 1))
       OR push_bit 24 (byte_at (buffer ! 0))"

definition cc_transport_set_length_prefix :: "bytes \<Rightarrow> nat \<Rightarrow> bytes option" where
  "cc_transport_set_length_prefix buffer n =
     (if length buffer < 4 then None
      else Some (buffer[0 := char_of (drop_bit 24 n AND 0xFF), 1 := char_of (drop_bit 16 n AND 0xFF),
                        2 := char_of (drop_bit 8 n AND 0xFF), 3 := char_of (n AND 0xFF)]))"

text \<open>
  The transport's \<open>send\<close> answers with the number of bytes it took; anything but all of them is a
  failure. A frame that went out is recorded in \<open>e_sent\<close>.
\<close>

definition transport_send_bytes :: "bytes \<Rightarrow> 'a env_scheme \<Rightarrow> bool \<times> 'a env_scheme" where
  "transport_send_bytes frame e = (case e_send e of
     [] \<Rightarrow> (True, e\<lparr>e_sent := e_sent e @ [frame]\<rparr>)
   | True # bs \<Rightarrow> (True, e\<lparr>e_send := bs, e_sent := e_sent e @ [frame]\<rparr>)
   | False # bs \<Rightarrow> (False, e\<lparr>e_send := bs\<rparr>))"

definition cc_transport_send ::
  "cc_transport_client option \<Rightarrow> bytes \<Rightarrow> nat \<Rightarrow> 'a env_scheme \<Rightarrow> (cc_result \<times> 'a env_scheme) option" where
  "cc_transport_send transport_client buffer n e = (case transport_client of
     None \<Rightarrow> Some (CC_FAIL, e)
   | Some _ \<Rightarrow> do {
       buffer \<leftarrow> cc_transport_set_length_prefix buffer (n - CC_TRANSPORT_LEN_PREFIX_SIZE);
       case transport_send_bytes (take n buffer) e of
         (True, e) \<Rightarrow> Some (CC_SUCCESS, e)
       | (False, e) \<Rightarrow> Some (CC_FAIL, e) })"

section \<open>Receiving\<close>

fun cc_transport_recv :: "bytes list \<Rightarrow> nat \<Rightarrow> bytes \<times> bytes list" where
  "cc_transport_recv [] n = ([], [])"
| "cc_transport_recv (c # cs) n = (take n c, if n < length c then drop n c # cs else cs)"

text \<open>
  \<open>to_read\<close> is an \<open>int\<close> that is passed as a \<open>size_t\<close>: a size of \<open>2^31\<close> or more becomes negative and
  then a huge request.
\<close>

definition int_to_size :: "u32 \<Rightarrow> nat" where
  "int_to_size n = (if unat n < 2 ^ 31 then unat n else 2 ^ 64 - 2 ^ 32 + unat n)"

lemma recv_bytes: "fst (cc_transport_recv cs n) @ concat (snd (cc_transport_recv cs n)) = concat cs"
  by (cases cs) auto

lemma recv_less:
  "cc_transport_recv cs n = (d, cs') \<Longrightarrow> length (concat cs) = length d + length (concat cs')"
  using recv_bytes[of cs n] by (metis fst_conv length_append snd_conv)

text \<open>
  The top of the loop: with no message under way, read the header and allocate its buffer. \<open>Inl\<close> is
  the return with \<open>CC_FAIL\<close>.
\<close>

definition rx_header ::
  "cc_transport_buffer \<Rightarrow> bytes list \<Rightarrow> 'a env_scheme \<Rightarrow>
   (cc_transport_buffer \<times> bytes list \<times> 'a env_scheme) + (cc_transport_buffer \<times> bytes list \<times> 'a env_scheme)" where
  "rx_header rx cs e =
     (if rx_data rx \<noteq> None then Inr (rx, cs, e)
      else case cc_transport_recv cs 4 of (hd4, cs) \<Rightarrow>
        if length hd4 < 4 then Inl (rx, cs, e)
        else case mem_alloc e of
            (False, e) \<Rightarrow> Inl (rx, cs, e)
          | (True, e) \<Rightarrow> Inr (\<lparr>rx_data = Some [], rx_pos = 0,
                                rx_size = cc_transport_get_message_len hd4\<rparr>, cs, e))"

lemma rx_header_less:
  "rx_header rx cs e = Inr (rx', cs', e') \<Longrightarrow> length (concat cs') \<le> length (concat cs)"
  by (auto simp: rx_header_def simp del: length_concat dest!: recv_less
      split: if_splits prod.splits bool.splits)

text \<open>
  \<open>cc_transport_handle_data\<close>, with the runtime's handler for a complete message as \<open>handler\<close>. Each
  turn of the loop takes at least one byte off the wire or returns. Writing more bytes than the
  buffer has faults.
\<close>

function cc_transport_handle_data ::
  "('w \<Rightarrow> bytes \<Rightarrow> 'w option) \<Rightarrow> 'w \<Rightarrow> cc_transport_buffer \<Rightarrow> bytes list \<Rightarrow> 'a env_scheme \<Rightarrow>
   (cc_result \<times> 'w \<times> cc_transport_buffer \<times> bytes list \<times> 'a env_scheme) option" where
  "cc_transport_handle_data handler w rx cs e = (case rx_header rx cs e of
     Inl (rx, cs, e) \<Rightarrow> Some (CC_FAIL, w, rx, cs, e)
   | Inr (rx, cs, e) \<Rightarrow>
       (case cc_transport_recv cs (int_to_size (rx_size rx - rx_pos rx)) of (d, cs) \<Rightarrow>
          if d = [] then Some (CC_FAIL, w, rx, cs, e)
          else if unat (rx_pos rx) + length d > unat (rx_size rx) then None
          else let data = (case rx_data rx of None \<Rightarrow> d | Some b \<Rightarrow> b @ d);
                   rx = rx\<lparr>rx_data := Some data, rx_pos := rx_pos rx + of_nat (length d)\<rparr>
               in if rx_pos rx = rx_size rx
                  then do { w \<leftarrow> handler w data; Some (CC_SUCCESS, w, rx_idle, cs, e) }
                  else cc_transport_handle_data handler w rx cs e))"
  by pat_completeness auto
termination
  by (relation "measure (\<lambda>(h, w, rx, cs, e). length (concat cs))")
    (auto simp del: length_concat dest!: rx_header_less recv_less[OF sym] simp flip: length_greater_0_conv)

declare cc_transport_handle_data.simps [simp del]

text \<open>Every transport whose name the address starts with makes a client; the last one counts.\<close>

definition cc_transport_create ::
  "(bytes \<times> ('w \<Rightarrow> bytes \<Rightarrow> (cc_transport_client option \<times> 'w) option)) list \<Rightarrow> 'w \<Rightarrow> bytes \<Rightarrow>
   (cc_transport_client option \<times> 'w) option" where
  "cc_transport_create transports w uri = do {
     (client, w) \<leftarrow> foldl (\<lambda>st (name, create).
        if strncmp0 uri name (strlen name) then do { (_, w) \<leftarrow> st; create w uri } else st) (Some (None, w)) transports;
     Some (map_option (\<lambda>c. c\<lparr>tc_rx_buffer := rx_idle\<rparr>) client, w) }"

definition cc_transport_disconnect :: "cc_transport_client \<Rightarrow> cc_transport_client" where
  "cc_transport_disconnect client =
     client\<lparr>tc_state := CC_TRANSPORT_DISCONNECTED, tc_rx_buffer := rx_idle\<rparr>"

section \<open>Reassembly\<close>

text \<open>The header of a message of \<open>n\<close> bytes, and a frame.\<close>

definition len_prefix :: "nat \<Rightarrow> bytes" where
  "len_prefix n = [char_of (drop_bit 24 n AND 0xFF), char_of (drop_bit 16 n AND 0xFF),
     char_of (drop_bit 8 n AND 0xFF), char_of (n AND 0xFF)]"

lemma length_len_prefix [simp]: "length (len_prefix n) = 4"
  by (simp add: len_prefix_def)

lemma set_length_prefix_frame:
  assumes "length pad = 4"
  shows "cc_transport_set_length_prefix (pad @ m) n = Some (len_prefix n @ m)"
proof -
  obtain a b c d where "pad = [a, b, c, d]"
    using assms by (auto simp: numeral_eq_Suc length_Suc_conv)
  then show ?thesis by (simp add: cc_transport_set_length_prefix_def len_prefix_def numeral_eq_Suc)
qed

lemma byte_at_mask: "byte_at (char_of (n AND 0xFF)) = of_nat (take_bit 8 n)"
proof -
  have n: "(0xFF :: nat) = mask 8" and m: "(0xFF :: u32) = mask 8" by (simp_all add: mask_eq_exp_minus_1)
  have "of_char (char_of (n AND 0xFF) :: char) = take_bit 8 n"
    by (simp add: n flip: take_bit_eq_mask) (simp add: take_bit_eq_mod)
  then show ?thesis by (simp add: byte_at_def m flip: take_bit_eq_mask) (simp add: take_bit_of_nat)
qed

lemma get_message_len_prefix: "cc_transport_get_message_len (len_prefix n @ r) = of_nat n"
proof -
  have "cc_transport_get_message_len (len_prefix n @ r) =
      of_nat (take_bit 8 n) OR push_bit 8 (of_nat (take_bit 8 (drop_bit 8 n)))
        OR push_bit 16 (of_nat (take_bit 8 (drop_bit 16 n))) OR push_bit 24 (of_nat (take_bit 8 (drop_bit 24 n)))"
    by (simp only: cc_transport_get_message_len_def len_prefix_def append_Cons nth_Cons_0 nth_Cons_Suc
        numeral_3_eq_3 numeral_2_eq_2 One_nat_def byte_at_mask)
  also have "\<dots> = of_nat n"
  proof (rule bit_word_eqI)
    fix i assume "i < LENGTH(32)"
    then consider "i < 8" | "8 \<le> i" "i < 16" | "16 \<le> i" "i < 24" | "24 \<le> i" "i < 32" by force
    then show "bit (of_nat (take_bit 8 n) OR push_bit 8 (of_nat (take_bit 8 (drop_bit 8 n)))
        OR push_bit 16 (of_nat (take_bit 8 (drop_bit 16 n)))
        OR push_bit 24 (of_nat (take_bit 8 (drop_bit 24 n))) :: u32) i = bit (of_nat n :: u32) i"
      by cases (auto simp: bit_simps)
  qed
  finally show ?thesis .
qed

text \<open>The receive buffer when \<open>p\<close> bytes of the message \<open>m\<close> have arrived.\<close>

definition rx_at :: "bytes \<Rightarrow> nat \<Rightarrow> cc_transport_buffer" where
  "rx_at m p = \<lparr>rx_data = Some (take p m), rx_pos = of_nat p, rx_size = of_nat (length m)\<rparr>"

lemma unat_of_nat_lt: "n < 2 ^ 31 \<Longrightarrow> unat (of_nat n :: u32) = n"
  by (simp add: unat_of_nat)

lemma rx_at_rest:
  assumes "p \<le> length m" and "length m < 2 ^ 31"
  shows "int_to_size (rx_size (rx_at m p) - rx_pos (rx_at m p)) = length m - p"
proof -
  have "of_nat (length m) - of_nat p = (of_nat (length m - p) :: u32)" using assms(1) by simp
  then show ?thesis using assms by (simp add: rx_at_def int_to_size_def unat_of_nat_lt del: of_nat_diff)
qed

lemma of_nat_u32_inj: "a < 2 ^ 31 \<Longrightarrow> b < 2 ^ 31 \<Longrightarrow> (of_nat a = (of_nat b :: u32)) = (a = b)"
  by (metis unat_of_nat_lt)

text \<open>One turn of the loop on a chunk.\<close>

lemma handle_data_step:
  assumes "p < length m" and "length m < 2 ^ 31" and "d \<noteq> []" and "prefix d (drop p m)"
    and recv: "cc_transport_recv cs (length m - p) = (d, cs')"
  shows "cc_transport_handle_data handler w (rx_at m p) cs e =
     (if p + length d = length m
      then do { w \<leftarrow> handler w m; Some (CC_SUCCESS, w, rx_idle, cs', e) }
      else cc_transport_handle_data handler w (rx_at m (p + length d)) cs' e)"
proof -
  have len: "p + length d \<le> length m" using assms(1,4) prefix_length_le by fastforce
  have data: "take p m @ d = take (p + length d) m"
    using assms(4) by (auto simp: take_add prefix_def)
  have "cc_transport_recv cs (int_to_size (rx_size (rx_at m p) - rx_pos (rx_at m p))) = (d, cs')"
    using rx_at_rest[of p m] assms by simp
  moreover have "unat (rx_pos (rx_at m p)) = p" "unat (rx_size (rx_at m p)) = length m"
    using assms(1,2) by (simp_all add: rx_at_def unat_of_nat_lt)
  moreover have "rx_pos (rx_at m p) + of_nat (length d) = rx_size (rx_at m p) \<longleftrightarrow> p + length d = length m"
    using of_nat_u32_inj[of "p + length d" "length m"] len assms(2) by (simp add: rx_at_def)
  moreover have "rx_header (rx_at m p) cs e = Inr (rx_at m p, cs, e)"
    by (simp add: rx_header_def rx_at_def)
  moreover have "rx_data (rx_at m p) = Some (take p m)" by (simp add: rx_at_def)
  moreover have "(rx_at m p)\<lparr>rx_data := Some (take (p + length d) m),
      rx_pos := rx_pos (rx_at m p) + of_nat (length d)\<rparr> = rx_at m (p + length d)"
    by (simp add: rx_at_def)
  ultimately show ?thesis using assms(3) len
    by (subst cc_transport_handle_data.simps) (simp add: data Let_def)
qed

lemma handle_data_payload:
  assumes "p < length m" and "length m < 2 ^ 31" and "[] \<notin> set cs" and "concat cs = drop p m @ rest"
  shows "\<exists>cs'. concat cs' = rest \<and> [] \<notin> set cs' \<and>
     cc_transport_handle_data handler w (rx_at m p) cs e =
       do { w \<leftarrow> handler w m; Some (CC_SUCCESS, w, rx_idle, cs', e) }"
  using assms
proof (induction cs arbitrary: p)
  case (Cons c cs)
  have ne: "c \<noteq> []" using Cons.prems(3) by auto
  have cat: "c @ concat cs = drop p m @ rest" using Cons.prems(4) by simp
  show ?case
  proof (cases "length m - p \<le> length c")
    case True
    let ?cs = "if length m - p < length c then drop (length m - p) c # cs else cs"
    have "take (length m - p) (c @ concat cs) = take (length m - p) (drop p m @ rest)"
      by (simp only: cat)
    then have t: "take (length m - p) c = drop p m" using True by simp
    then have c: "c = drop p m @ drop (length m - p) c" by (metis append_take_drop_id)
    then have r: "drop (length m - p) c @ concat cs = rest"
      using cat by (metis append.assoc same_append_eq)
    have "cc_transport_handle_data handler w (rx_at m p) (c # cs) e =
        do { w \<leftarrow> handler w m; Some (CC_SUCCESS, w, rx_idle, ?cs, e) }"
      using handle_data_step[of p m "drop p m" "c # cs" ?cs handler w e] Cons.prems(1,2) t by simp
    moreover have "concat ?cs = rest"
      using r True by auto
    moreover have "[] \<notin> set ?cs" using Cons.prems(3) by auto
    ultimately show ?thesis by blast
  next
    case False
    have "take (length c) (c @ concat cs) = take (length c) (drop p m @ rest)" by (simp only: cat)
    then have t: "take (length c) (drop p m) = c" using False by simp
    then have pre: "prefix c (drop p m)" "drop p m = c @ drop (p + length c) m"
      by (metis take_is_prefix, metis append_take_drop_id drop_drop add.commute)
    have "concat cs = drop (p + length c) m @ rest" using cat pre(2) by simp
    moreover have "p + length c < length m" "[] \<notin> set cs" using False Cons.prems(1,3) by auto
    ultimately obtain cs' where "concat cs' = rest" "[] \<notin> set cs'"
      "cc_transport_handle_data handler w (rx_at m (p + length c)) cs e =
        do { w \<leftarrow> handler w m; Some (CC_SUCCESS, w, rx_idle, cs', e) }"
      using Cons.IH[of "p + length c"] Cons.prems(2) by blast
    then show ?thesis
      using handle_data_step[OF Cons.prems(1,2) ne pre(1), of "c # cs" cs handler w e] False by auto
  qed
qed simp

text \<open>A message of which only a part has arrived stays in the buffer.\<close>

lemma handle_data_partial:
  assumes "p < length m" and "length m < 2 ^ 31" and "[] \<notin> set cs" and "strict_prefix (concat cs) (drop p m)"
  shows "cc_transport_handle_data handler w (rx_at m p) cs e =
     Some (CC_FAIL, w, rx_at m (p + length (concat cs)), [], e)"
  using assms
proof (induction cs arbitrary: p)
  case Nil
  then show ?case
    by (subst cc_transport_handle_data.simps) (simp add: rx_header_def rx_at_def)
next
  case (Cons c cs)
  have ne: "c \<noteq> []" using Cons.prems(3) by auto
  obtain z where z: "drop p m = c @ concat cs @ z" "z \<noteq> []"
    using Cons.prems(4) by (auto simp: strict_prefix_def prefix_def)
  have "drop (p + length c) m = drop (length c) (drop p m)" by (simp add: add.commute)
  with z have pre: "prefix c (drop p m)" "drop (p + length c) m = concat cs @ z"
    by (auto simp: prefix_def simp del: drop_drop)
  have len: "length m - p > length c" using z by (metis length_append length_drop less_add_same_cancel1
        length_greater_0_conv append_is_Nil_conv)
  then have "cc_transport_handle_data handler w (rx_at m (p + length c)) cs e =
     Some (CC_FAIL, w, rx_at m (p + length c + length (concat cs)), [], e)"
    using Cons.IH[of "p + length c"] Cons.prems(2,3) pre z by (simp add: strict_prefix_def prefix_def)
  then show ?case
    using handle_data_step[OF Cons.prems(1,2) ne pre(1), of "c # cs" cs handler w e] len
    by (simp add: add.assoc)
qed

lemma rx_header_frame:
  assumes "length (hd cs) \<ge> 4" and "cs \<noteq> []" and "concat cs = len_prefix (length m) @ y"
    and "e_alloc e = []" and "[] \<notin> set cs"
  shows "\<exists>cs'. rx_header rx_idle cs e = Inr (rx_at m 0, cs', e) \<and> concat cs' = y \<and> [] \<notin> set cs'"
proof -
  obtain c cs1 where cs: "cs = c # cs1" using assms(2) by (cases cs) auto
  have t: "take 4 c = len_prefix (length m)"
    using assms(1,3) cs by (metis append_eq_conv_conj concat.simps(2) length_len_prefix list.sel(1)
        take_append take_all_iff diff_is_0_eq take_0 append_Nil2)
  then have "concat (if 4 < length c then drop 4 c # cs1 else cs1) = y"
    using assms(3) cs by (cases "4 < length c") (auto simp: append_eq_append_conv_if)
  then show ?thesis using assms cs t get_message_len_prefix[of "length m" "[]"]
    by (auto simp: rx_header_def rx_idle_def rx_at_def)
qed

section \<open>Properties\<close>

lemma handle_data_after_header:
  assumes "rx_header rx cs e = Inr (rx', cs', e')" and "rx_data rx' \<noteq> None"
  shows "cc_transport_handle_data handler w rx cs e = cc_transport_handle_data handler w rx' cs' e'"
proof -
  have "rx_header rx' cs' e' = Inr (rx', cs', e')" using assms(2) by (simp add: rx_header_def)
  then show ?thesis using assms(1)
    by (simp add: cc_transport_handle_data.simps[of handler w rx] cc_transport_handle_data.simps[of handler w rx'])
qed

lemma rx_at_data [simp]: "rx_data (rx_at m p) \<noteq> None"
  by (simp add: rx_at_def)

lemma send_frame:
  assumes "cc_transport_send (Some tc) (pad @ m) (4 + length m) e = Some (CC_SUCCESS, e1)" and "length pad = 4"
  shows "e_sent e1 = e_sent e @ [len_prefix (length m) @ m]"
  using assms(1)
  by (auto simp: cc_transport_send_def set_length_prefix_frame[OF assms(2)] CC_TRANSPORT_LEN_PREFIX_SIZE_def
      transport_send_bytes_def split: list.splits bool.splits)


definition example_client :: cc_transport_client where
  "example_client = \<lparr>tc_transport_type = CC_TRANSPORT_SOCKET_TYPE, tc_uri = ''calvinip://127.0.0.1:5000'', tc_peer_id = [],
     tc_state = CC_TRANSPORT_ENABLED, tc_rx_buffer = rx_idle,
     tc_client_state = Some \<lparr>sc_fd = 5, sc_ip = ''127.0.0.1'', sc_port = 5000\<rparr>, tc_prefix_len = 4\<rparr>"

definition quiet_env :: env where
  "quiet_env = \<lparr>e_alloc = [], e_send = [], e_rand = [], e_time = 0, e_sent = [], e_hw = [], e_temperature_add = True\<rparr>"

lemma send_quiet:
  "length pad = 4 \<Longrightarrow> cc_transport_send (Some tc) (pad @ m) (4 + length m) quiet_env
     = Some (CC_SUCCESS, quiet_env\<lparr>e_sent := [len_prefix (length m) @ m]\<rparr>)"
  by (simp add: cc_transport_send_def set_length_prefix_frame CC_TRANSPORT_LEN_PREFIX_SIZE_def
      transport_send_bytes_def quiet_env_def)


text \<open>
  A message may arrive over several calls. When the chunks at hand end inside the message, the call
  reports failure without calling the handler and keeps what arrived; a later call with the rest
  passes the whole message to the handler.
\<close>

lemma transport_resume:
  assumes "concat cs1 = len_prefix (length m) @ a" and "m = a @ b" and "b \<noteq> []" and "length m < 2 ^ 31"
    and "[] \<notin> set cs1" and "length (hd cs1) \<ge> 4" and "e_alloc e = []"
    and "concat cs2 = b @ rest" and "[] \<notin> set cs2"
  shows "\<exists>rx cs'. cc_transport_handle_data handler w rx_idle cs1 e = Some (CC_FAIL, w, rx, [], e)
     \<and> concat cs' = rest
     \<and> cc_transport_handle_data handler w' rx cs2 e =
         do { w \<leftarrow> handler w' m; Some (CC_SUCCESS, w, rx_idle, cs', e) }"
proof -
  have ne: "cs1 \<noteq> []" using assms(1) by (auto simp: len_prefix_def)
  obtain cs where h: "rx_header rx_idle cs1 e = Inr (rx_at m 0, cs, e)"
    and cs: "concat cs = a" "[] \<notin> set cs"
    using rx_header_frame[OF assms(6) ne assms(1,7,5)] by blast
  have m: "0 < length m" "strict_prefix (concat cs) (drop 0 m)" "length a < length m"
    using assms(2,3) cs(1) by (auto simp: strict_prefix_def)
  have 1: "cc_transport_handle_data handler w rx_idle cs1 e = Some (CC_FAIL, w, rx_at m (length a), [], e)"
    using handle_data_partial[OF m(1) assms(4) cs(2) m(2)] handle_data_after_header[OF h, of handler w] cs(1)
    by (simp del: length_concat)
  have "concat cs2 = drop (length a) m @ rest" using assms(2,8) by simp
  from handle_data_payload[OF m(3) assms(4,9) this, of handler w' e] 1 show ?thesis by blast
qed

text \<open>
  A frame of length zero stops the connection for good. Its header leaves a buffer of size 0 that is
  never completed, and from then on every call fails without taking anything off the wire or calling
  the handler.
\<close>

lemma transport_zero_length_wedge:
  assumes "e_alloc e = []" and "cs2 \<noteq> []" and "hd cs2 \<noteq> []"
  shows "\<exists>rx. cc_transport_handle_data handler w rx_idle ([NUL, NUL, NUL, NUL] # cs) e
               = Some (CC_FAIL, w, rx, snd (cc_transport_recv cs 0), e)
     \<and> cc_transport_handle_data handler w' rx cs2 e' = Some (CC_FAIL, w', rx, cs2, e')"
proof -
  let ?rx = "rx_at [] 0"
  have "len_prefix 0 = [NUL, NUL, NUL, NUL]" by (simp add: len_prefix_def char_of_def)
  then have "cc_transport_get_message_len [NUL, NUL, NUL, NUL] = 0"
    using get_message_len_prefix[of 0 "[]"] by simp
  then have h: "rx_header rx_idle ([NUL, NUL, NUL, NUL] # cs) e = Inr (?rx, cs, e)"
    using assms(1) by (simp add: rx_header_def rx_idle_def rx_at_def)
  have stuck: "cc_transport_handle_data handler v ?rx ds f = Some (CC_FAIL, v, ?rx, snd (cc_transport_recv ds 0), f)"
    for v ds f
    by (subst cc_transport_handle_data.simps, cases ds) (simp_all add: rx_header_def rx_at_def int_to_size_def)
  have "snd (cc_transport_recv cs2 0) = cs2" using assms(2,3) by (cases cs2) auto
  with stuck[of w cs e] stuck[of w' cs2 e'] handle_data_after_header[OF h, of handler w]
  show ?thesis by (intro exI[of _ ?rx]) simp
qed

end
