(* ===== verification/Actor_Instances.thy ===== *)
theory Actor_Instances
  imports Prelude
begin

text \<open>
  What an actor of each builtin type keeps behind \<open>actor->instance_state\<close>: the state structures of the files
  under \<open>src/actors\<close>. A fixed buffer for an identifier is the string it holds; a buffer that the code fills without
  writing a terminator is the list of all its bytes. A pointer to a copied value is \<open>None\<close> when it is null.
\<close>

record cc_actor_identity_state =
  idn_dump :: bool

record cc_actor_replica_identity_state =
  rid_dump :: bool
  rid_index :: u32

record cc_actor_button_state =
  btn_button :: bytes
  btn_text :: "bytes option"
  btn_text_len :: u32

record cc_actor_light_state =
  lgt_light :: bytes

record cc_actor_log_state =
  log_loglevel :: "bytes option"
  log_loglevel_size :: nat

record cc_actor_registry_state =
  reg_registry :: bytes

text \<open>\<open>cc_state_t\<close> of the accelerometer and the gyroscope\<close>

record cc_motion_state =
  mot_level :: bytes
  mot_period :: "bytes option"
  mot_period_size :: nat

record cc_actor_coap_state =
  coap_source :: bytes

record cc_actor_soil_moisture_state =
  soil_soilmoisture :: bytes
  soil_timer :: bytes

record cc_actor_temperature_state =
  tmp_temperature :: bytes
  tmp_timer :: bytes
  tmp_period :: "bytes option"
  tmp_period_size :: nat

text \<open>The structure of the same name in \<open>cc_actor_temperature_tagged.c\<close>\<close>

record cc_actor_temperature_tagged_state =
  tag_temperature :: bytes
  tag_timer :: bytes

record cc_actor_triggered_temperature_state =
  trg_temperature :: bytes

record cc_actor_counttimer_state =
  cnt_timer :: bytes
  cnt_sleep :: u32
  cnt_start :: u32
  cnt_steps :: u32
  cnt_count :: u32
  cnt_stopped :: bool

text \<open>The camera keeps the identifier that opening its object returned; other types keep what they like.\<close>

datatype actor_instance =
    Inst_identity cc_actor_identity_state
  | Inst_replica_identity cc_actor_replica_identity_state
  | Inst_button cc_actor_button_state
  | Inst_light cc_actor_light_state
  | Inst_log cc_actor_log_state
  | Inst_registry cc_actor_registry_state
  | Inst_camera bytes
  | Inst_motion cc_motion_state
  | Inst_coap cc_actor_coap_state
  | Inst_soil_moisture cc_actor_soil_moisture_state
  | Inst_temperature cc_actor_temperature_state
  | Inst_temperature_tagged cc_actor_temperature_tagged_state
  | Inst_triggered_temperature cc_actor_triggered_temperature_state
  | Inst_counttimer cc_actor_counttimer_state
  | Inst_ext bytes

end
