(* ===== verification/File_System.thy ===== *)
theory File_System
  imports Prelude
begin

text \<open>
  A file system as far as the platforms under \<open>src/runtime/south/platform\<close> use one: directories and regular files, found by
  walking along the names of a path. There are no symbolic links. What the operating system may refuse, for permissions or
  for lack of room, is the record \<open>os\<close>.
\<close>

datatype entry = Dir | File bytes

type_synonym location = "bytes list"

record fs =
  fs_entries :: "location \<rightharpoonup> entry"
  fs_cwd :: location

record os =
  os_mkdir :: "location \<Rightarrow> bool"
  os_open :: "location \<Rightarrow> bool"
  os_room :: "location \<Rightarrow> nat"

section \<open>Paths\<close>

text \<open>The names between the slashes; two slashes in a row and a slash at the end give an empty name.\<close>

fun path_names :: "bytes \<Rightarrow> bytes list" where
  "path_names [] = [[]]"
| "path_names (c # s) = (if c = CHR ''/'' then [] # path_names s else (case path_names s of n # ns \<Rightarrow> (c # n) # ns | [] \<Rightarrow> [[c]]))"

text \<open>Every name is looked up in a directory; the last one need not exist.\<close>

fun walk :: "(location \<rightharpoonup> entry) \<Rightarrow> location \<Rightarrow> bytes list \<Rightarrow> location option" where
  "walk m d [] = Some d"
| "walk m d (n # ns) = (if m d \<noteq> Some Dir then None
     else if n = [] \<or> n = ''.'' then walk m d ns
     else if n = ''..'' then walk m (butlast d) ns
     else walk m (d @ [n]) ns)"

definition absolute :: "bytes \<Rightarrow> bool" where
  "absolute path = (path \<noteq> [] \<and> hd path = CHR ''/'')"

definition locate :: "fs \<Rightarrow> bytes \<Rightarrow> location option" where
  "locate fs path = (if path = [] then None
     else walk (fs_entries fs) (if absolute path then [] else fs_cwd fs) (path_names path))"

definition entry_at :: "fs \<Rightarrow> bytes \<Rightarrow> entry option" where
  "entry_at fs path = Option.bind (locate fs path) (fs_entries fs)"

section \<open>Calls of the operating system\<close>

definition os_mkdir_call :: "os \<Rightarrow> bytes \<Rightarrow> fs \<Rightarrow> fs option" where
  "os_mkdir_call os path fs = do {
     l \<leftarrow> locate fs path;
     if fs_entries fs l \<noteq> None \<or> \<not> os_mkdir os l then None
     else Some (fs\<lparr>fs_entries := (fs_entries fs)(l \<mapsto> Dir)\<rparr>) }"

text \<open>\<open>fopen\<close> with \<open>w+\<close>: the file is created or emptied.\<close>

definition os_create :: "os \<Rightarrow> bytes \<Rightarrow> fs \<Rightarrow> (location \<times> fs) option" where
  "os_create os path fs = do {
     l \<leftarrow> locate fs path;
     if fs_entries fs l = Some Dir \<or> \<not> os_open os l then None
     else Some (l, fs\<lparr>fs_entries := (fs_entries fs)(l \<mapsto> File [])\<rparr>) }"

text \<open>\<open>fopen\<close> with \<open>r+\<close>: the content of a file that exists.\<close>

definition os_content :: "os \<Rightarrow> bytes \<Rightarrow> fs \<Rightarrow> bytes option" where
  "os_content os path fs = do {
     l \<leftarrow> locate fs path;
     case fs_entries fs l of Some (File b) \<Rightarrow> (if os_open os l then Some b else None) | _ \<Rightarrow> None }"

text \<open>\<open>fwrite\<close> into a new file: as many bytes as there is room for.\<close>

definition os_fwrite :: "os \<Rightarrow> location \<Rightarrow> bytes \<Rightarrow> fs \<Rightarrow> nat \<times> fs" where
  "os_fwrite os l b fs = (let n = min (os_room os l) (length b) in (n, fs\<lparr>fs_entries := (fs_entries fs)(l \<mapsto> File (take n b))\<rparr>))"

definition os_unlink :: "os \<Rightarrow> bytes \<Rightarrow> fs \<Rightarrow> fs option" where
  "os_unlink os path fs = do {
     l \<leftarrow> locate fs path;
     case fs_entries fs l of Some (File b) \<Rightarrow> (if os_open os l then Some (fs\<lparr>fs_entries := (fs_entries fs)(l := None)\<rparr>) else None) | _ \<Rightarrow> None }"

section \<open>Walking\<close>

text \<open>
  \<open>grows m m'\<close>: directories stay directories. Then every path that leads somewhere leads to the same location afterwards.
\<close>

definition grows :: "(location \<rightharpoonup> entry) \<Rightarrow> (location \<rightharpoonup> entry) \<Rightarrow> bool" where
  "grows m m' = (\<forall>d. m d = Some Dir \<longrightarrow> m' d = Some Dir)"

lemma grows_refl [simp]: "grows m m"
  by (simp add: grows_def)

lemma grows_trans: "grows m1 m2 \<Longrightarrow> grows m2 m3 \<Longrightarrow> grows m1 m3"
  by (simp add: grows_def)

lemma walk_grows: "grows m m' \<Longrightarrow> walk m d ns = Some l \<Longrightarrow> walk m' d ns = Some l"
  by (induction m d ns rule: walk.induct) (auto simp: grows_def split: if_splits)

lemma locate_grows: "grows (fs_entries fs) (fs_entries fs') \<Longrightarrow> fs_cwd fs' = fs_cwd fs \<Longrightarrow> locate fs path = Some l \<Longrightarrow> locate fs' path = Some l"
  by (auto simp: locate_def walk_grows split: if_splits)

lemma walk_append: "walk m d (ns @ ns') = Option.bind (walk m d ns) (\<lambda>d. walk m d ns')"
  by (induction m d ns rule: walk.induct) auto

text \<open>A path of plain names, the way configuration files are named.\<close>

definition plain_name :: "bytes \<Rightarrow> bool" where
  "plain_name n = (n \<noteq> [] \<and> n \<noteq> ''.'' \<and> n \<noteq> ''..'' \<and> CHR ''/'' \<notin> set n)"

lemma walk_plain: "list_all plain_name ns \<Longrightarrow> (\<And>k. k < length ns \<Longrightarrow> m (d @ take k ns) = Some Dir) \<Longrightarrow> walk m d ns = Some (d @ ns)"
proof (induction ns arbitrary: d)
  case (Cons n ns)
  have "m ((d @ [n]) @ take k ns) = Some Dir" if "k < length ns" for k using Cons.prems(2)[of "Suc k"] that by simp
  moreover have "m d = Some Dir" using Cons.prems(2)[of 0] by simp
  ultimately show ?case using Cons by (simp add: plain_name_def)
qed simp

lemma path_names_ne [simp]: "path_names s \<noteq> []"
  by (induction s) (auto split: list.splits)

lemma path_names_slash: "CHR ''/'' \<notin> set n \<Longrightarrow> path_names (n @ CHR ''/'' # s) = n # path_names s"
  by (induction n) auto

lemma path_names_plain: "CHR ''/'' \<notin> set n \<Longrightarrow> path_names n = [n]"
  by (induction n) auto

end
