(* ===== verification/Runtime_State.thy ===== *)
theory Runtime_State
  imports Common Coder Fifo Transport Actor_Instances File_System
begin

text \<open>
  The state of a runtime: the structures of \<open>cc_link.h\<close>, \<open>cc_tunnel.h\<close>, \<open>cc_port.h\<close>, \<open>cc_actor.h\<close> and
  \<open>cc_node.h\<close>. Links, tunnels, ports and actors are objects that other objects point to and that are
  freed while pointers to them may remain, so each kind has a heap: a partial map from addresses.
  An address that is not in the map is freed memory, and reading it is the fault \<open>None\<close>. The node and
  the environment are one record, the world, which the operations of the runtime pass along; \<open>w_fs\<close>
  is the file system of the platform.

  An identifier in a fixed buffer is the string the buffer holds. A list made with \<open>cc_list_add\<close>
  shares the identifier of its object.
\<close>

section \<open>Objects\<close>

record cc_link =
  l_peer_id :: bytes
  l_ref_count :: u8
  l_is_proxy :: bool

datatype cc_tunnel_state = CC_TUNNEL_DISCONNECTED | CC_TUNNEL_ENABLED | CC_TUNNEL_PENDING

datatype cc_tunnel_type = CC_TUNNEL_TYPE_STORAGE | CC_TUNNEL_TYPE_TOKEN | CC_TUNNEL_TYPE_PROXY

record cc_tunnel =
  t_id :: bytes
  t_link :: "addr option"
  t_state :: cc_tunnel_state
  t_ref_count :: u8
  t_type :: cc_tunnel_type

datatype cc_port_direction = CC_PORT_DIRECTION_IN | CC_PORT_DIRECTION_OUT

datatype cc_port_state =
    CC_PORT_DISCONNECTED | CC_PORT_ENABLED | CC_PORT_PENDING_LOOKUP | CC_PORT_PENDING_TUNNEL
  | CC_PORT_PENDING_CONNECT | CC_PORT_DO_DELETE

datatype cc_port_reply_type = CC_PORT_REPLY_TYPE_ACK | CC_PORT_REPLY_TYPE_NACK | CC_PORT_REPLY_TYPE_ABORT

definition CC_MAX_PORT_NAME_LENGTH :: nat where
  "CC_MAX_PORT_NAME_LENGTH = 20"

record cc_port =
  p_id :: bytes
  p_name :: bytes
  p_peer_port_id :: bytes
  p_peer_id :: bytes
  p_direction :: cc_port_direction
  p_peer_port :: "addr option"
  p_tunnel :: "addr option"
  p_state :: cc_port_state
  p_fifo :: "cc_fifo option"
  p_retries :: u8
  p_actor :: addr

datatype cc_actor_state = CC_ACTOR_PENDING | CC_ACTOR_PENDING_IMPL | CC_ACTOR_ENABLED | CC_ACTOR_DO_DELETE

datatype cc_state_was = CC_STATE_WAS_ACTOR | CC_STATE_WAS_SHADOW | CC_STATE_WAS_REPLICA

text \<open>
  The data of an actor; an attribute's value is kept encoded. \<open>a_impl\<close> names the actor type whose functions
  are installed in the actor (null pointers when there is none) and \<open>a_instance\<close> is the actor's own state.
\<close>

record cc_actor =
  a_type :: "bytes option"
  a_id :: "bytes option"
  a_name :: "bytes option"
  a_state_was :: cc_state_was
  a_migrate_to :: bytes
  a_state :: cc_actor_state
  a_instance :: "actor_instance option"
  a_in_ports :: "addr cc_list"
  a_out_ports :: "addr cc_list"
  a_private_attributes :: "bytes cc_list"
  a_managed_attributes :: "bytes cc_list"
  a_impl :: "bytes option"
  a_requires :: "bytes option"

text \<open>An entry of the actor store: the functions of the type, by name, and its requirement.\<close>

record cc_actor_type =
  ty_impl :: bytes
  ty_requires :: "bytes option"

section \<open>Calvinsys\<close>

text \<open>
  \<open>src/calvinsys/cc_calvinsys.h\<close> and \<open>src/calvinsys/common\<close>. An object and a capability hold pointers to the
  functions of one family: the timers, the schedule, the attributes or a capability of the platform, which
  is named. A null pointer is \<open>None\<close>.
\<close>

datatype cap_impl = Impl_timer | Impl_schedule | Impl_attribute | Impl_ext bytes

record cc_calvinsys_timer =
  ct_timeout :: u32
  ct_armed :: bool
  ct_next_time :: u32
  ct_repeats :: bool
  ct_triggered :: bool

record cc_calvinsys_schedule =
  cs_triggered :: bool

record cc_calvinsys_attribute =
  ca_attribute_name :: "bytes option"
  ca_attribute :: "bytes option"
  ca_attribute_len :: u32

text \<open>
  What the capabilities of the platforms keep in their objects, \<open>src/runtime/south/platform\<close>: the pins and the thermometer of the
  x86 tests, the latter also of the spritzer board, a pin and the DS18B20 of the ESP8266, the sensors of Android and the
  capabilities of its other applications, and an observed resource of CoAP. A \<open>float\<close> is its bits, or a number of halves where the program
  counts with it.
\<close>

datatype cc_gpio_direction = CC_GPIO_IN | CC_GPIO_OUT

record cc_gpio_state =
  gp_pin :: u32
  gp_direction :: cc_gpio_direction
  gp_value :: u32
  gp_readings :: u32

record cc_temperature_state =
  te_can_read :: bool
  te_value :: int

record cc_calvinsys_gpio_state =
  eg_pin :: u8
  eg_direction :: cc_gpio_direction

record cc_calvinsys_temperature_state =
  ds_pin :: u32
  ds_can_read :: bool
  ds_temp :: u32

record cc_android_sensor_data =
  as_data :: "bytes option"
  as_data_size :: nat
  as_period :: u32

record platform_android_external_state =
  ax_data :: "bytes option"
  ax_data_size :: nat

record cc_coap_state =
  co_fd :: int
  co_uri :: bytes
  co_message_id :: "16 word"

datatype obj_state =
    OS_null
  | OS_timer cc_calvinsys_timer
  | OS_schedule cc_calvinsys_schedule
  | OS_attribute cc_calvinsys_attribute
  | OS_gpio cc_gpio_state
  | OS_temperature cc_temperature_state
  | OS_esp_gpio cc_calvinsys_gpio_state
  | OS_ds18b20 cc_calvinsys_temperature_state
  | OS_android_sensor cc_android_sensor_data
  | OS_android_external platform_android_external_state
  | OS_coap cc_coap_state

record cc_calvinsys_capability =
  cap_name :: bytes
  cap_open :: "cap_impl option"
  cap_deserialize :: "cap_impl option"
  cap_init_args :: "bytes option"
  cap_free_init_args :: bool
  cap_python_module :: "bytes option"

record cc_calvinsys_obj =
  o_impl :: "cap_impl option"
  o_state :: obj_state
  o_id :: bytes
  o_actor :: addr
  o_capability :: addr

section \<open>The node\<close>

datatype cc_node_state = CC_NODE_DO_START | CC_NODE_DO_SLEEP | CC_NODE_PENDING | CC_NODE_STARTED | CC_NODE_STOP

datatype cc_node_stop_method = CC_NODE_STOP_CLEAN | CC_NODE_STOP_MIGRATE

text \<open>
  A pending message keeps the handler for its reply and a pointer for it. The handlers are named, one
  constructor per function that is registered; the pointer is null, an object or the identifier
  inside an object.
\<close>

datatype cc_msg_handler =
    tunnel_request_handler | tunnel_destroy_handler
  | cc_port_remove_reply_handler | cc_port_disconnect_reply_handler | cc_port_store_reply_handler
  | cc_port_get_peer_port_reply_handler | cc_port_connect_reply_handler
  | cc_actor_req_match_reply_handler | actor_remove_reply_handler | cc_actor_migrate_reply_handler
  | actor_set_reply_handler | cc_node_setup_reply_handler | cc_node_enter_sleep_reply_handler
  | replica_remove_reply_handler | platform_node_setup_reply_handler

datatype msg_data = MD_null | MD_tunnel addr | MD_tunnel_id addr | MD_port_id addr | MD_actor_id addr

record cc_pending_msg =
  pm_handler :: cc_msg_handler
  pm_msg_data :: msg_data

text \<open>
  \<open>n_fds\<close> are the descriptors of calvinsys, \<open>-1\<close> for a free place, and \<open>n_ready\<close> those in \<open>node->fds\<close>.
\<close>

record world = env +
  h_links :: "addr \<rightharpoonup> cc_link"
  h_tunnels :: "addr \<rightharpoonup> cc_tunnel"
  h_ports :: "addr \<rightharpoonup> cc_port"
  h_actors :: "addr \<rightharpoonup> cc_actor"
  h_caps :: "addr \<rightharpoonup> cc_calvinsys_capability"
  h_objs :: "addr \<rightharpoonup> cc_calvinsys_obj"
  h_next :: addr
  n_state :: cc_node_state
  n_stop_method :: cc_node_stop_method
  n_id :: bytes
  n_attributes :: "bytes option"
  n_pending_msgs :: "cc_pending_msg cc_list"
  n_proxy_link :: "addr option"
  n_links :: "addr cc_list"
  n_storage_tunnel :: "addr option"
  n_proxy_tunnel :: "addr option"
  n_tunnels :: "addr cc_list"
  n_actors :: "addr cc_list"
  n_transport_client :: "cc_transport_client option"
  n_actor_types :: "cc_actor_type cc_list"
  n_capabilities :: "addr cc_list"
  n_objects :: "addr cc_list"
  n_proxy_uris :: "unit cc_list"
  n_seconds_since_epoch :: u32
  n_time_at_sync :: u32
  n_fds :: "int list"
  n_ready :: "int list"
  w_fs :: fs

section \<open>What the environment leaves alone\<close>

text \<open>
  \<open>env.more w\<close> is the node and the heap of the world \<open>w\<close>. Allocation, random numbers and the transport
  change only the environment.
\<close>

lemma node_eqD:
  fixes w w' :: world
  assumes "env.more w' = env.more w"
  shows "h_links w' = h_links w" "h_tunnels w' = h_tunnels w" "h_ports w' = h_ports w" "h_actors w' = h_actors w"
    "h_next w' = h_next w" "n_state w' = n_state w" "n_stop_method w' = n_stop_method w" "n_id w' = n_id w"
    "n_attributes w' = n_attributes w" "n_pending_msgs w' = n_pending_msgs w" "n_proxy_link w' = n_proxy_link w"
    "n_links w' = n_links w" "n_storage_tunnel w' = n_storage_tunnel w" "n_proxy_tunnel w' = n_proxy_tunnel w"
    "n_tunnels w' = n_tunnels w" "n_actors w' = n_actors w" "n_transport_client w' = n_transport_client w"
    "n_capabilities w' = n_capabilities w" "n_objects w' = n_objects w" "h_caps w' = h_caps w" "h_objs w' = h_objs w"
    "n_actor_types w' = n_actor_types w" "n_seconds_since_epoch w' = n_seconds_since_epoch w"
    "n_time_at_sync w' = n_time_at_sync w"
  using assms by (cases w, cases w', simp)+

lemma mem_alloc_more: "mem_alloc w = (b, w') \<Longrightarrow> env.more w' = env.more w \<and> e_sent w' = e_sent w"
  by (auto simp: mem_alloc_def split: list.splits)

lemma gen_hex_more: "gen_hex n w = (s, w') \<Longrightarrow> env.more w' = env.more w \<and> e_sent w' = e_sent w"
proof (induction n arbitrary: w s w')
  case (Suc n)
  obtain r w1 where r: "rand w = (r, w1)" by (cases "rand w")
  obtain s1 w2 where g: "gen_hex n w1 = (s1, w2)" by (cases "gen_hex n w1")
  have "env.more w1 = env.more w \<and> e_sent w1 = e_sent w"
    using r by (auto simp: rand_def split: list.splits)
  with Suc.IH[OF g] Suc.prems r g show ?case by simp
qed simp

lemma gen_uuid_more: "cc_gen_uuid p w = (s, w') \<Longrightarrow> env.more w' = env.more w \<and> e_sent w' = e_sent w"
  by (auto simp: cc_gen_uuid_def Let_def split: prod.splits dest: gen_hex_more)

lemma gen_hex_quiet: "gen_hex n w = (s, w') \<Longrightarrow> e_alloc w' = e_alloc w \<and> e_send w' = e_send w"
proof (induction n arbitrary: w s w')
  case (Suc n)
  obtain r w1 where r: "rand w = (r, w1)" by (cases "rand w")
  obtain s1 w2 where g: "gen_hex n w1 = (s1, w2)" by (cases "gen_hex n w1")
  have "e_alloc w1 = e_alloc w \<and> e_send w1 = e_send w"
    using r by (auto simp: rand_def split: list.splits)
  with Suc.IH[OF g] Suc.prems r g show ?case by simp
qed simp

lemma gen_uuid_quiet: "cc_gen_uuid p w = (s, w') \<Longrightarrow> e_alloc w' = e_alloc w \<and> e_send w' = e_send w"
  by (auto simp: cc_gen_uuid_def Let_def split: prod.splits dest: gen_hex_quiet)

lemma send_bytes_more:
  "transport_send_bytes f w = (b, w') \<Longrightarrow>
     env.more w' = env.more w \<and> e_sent w' = (if b then e_sent w @ [f] else e_sent w)"
  by (cases "e_send w"; cases "hd (e_send w)") (auto simp: transport_send_bytes_def)

lemma transport_send_more:
  "cc_transport_send tc b n w = Some (r, w') \<Longrightarrow>
     env.more w' = env.more w \<and> (if r = CC_SUCCESS then \<exists>f. e_sent w' = e_sent w @ [f]
       else r = CC_FAIL \<and> e_sent w' = e_sent w)"
proof (cases tc)
  case (Some c)
  moreover assume "cc_transport_send tc b n w = Some (r, w')"
  ultimately obtain z where z: "(case transport_send_bytes (take n z) w of (True, e) \<Rightarrow> Some (CC_SUCCESS, e)
      | (False, e) \<Rightarrow> Some (CC_FAIL, e)) = Some (r, w')"
    by (auto simp: cc_transport_send_def)
  obtain ok w1 where "transport_send_bytes (take n z) w = (ok, w1)" by (cases "transport_send_bytes (take n z) w")
  with z send_bytes_more[OF this] show ?thesis by (cases ok) auto
qed (simp add: cc_transport_send_def)

lemma list_add_more:
  "cc__list_add l i fr d n w = (x, l', w') \<Longrightarrow> env.more w' = env.more w \<and> e_sent w' = e_sent w"
  by (auto simp: cc__list_add_def Let_def split: prod.splits bool.splits dest!: mem_alloc_more)

lemma list_add_n_more:
  "cc_list_add_n l i k d n w = (x, l', w') \<Longrightarrow> env.more w' = env.more w \<and> e_sent w' = e_sent w"
  by (auto simp: cc_list_add_n_def Let_def split: prod.splits bool.splits dest!: mem_alloc_more list_add_more)

section \<open>Access to the heap\<close>

text \<open>Following a pointer; \<open>None\<close> is a null or dangling pointer.\<close>

definition get_link :: "world \<Rightarrow> addr option \<Rightarrow> cc_link option" where
  "get_link w p = do { a \<leftarrow> p; h_links w a }"

definition get_tunnel :: "world \<Rightarrow> addr option \<Rightarrow> cc_tunnel option" where
  "get_tunnel w p = do { a \<leftarrow> p; h_tunnels w a }"

definition upd_link :: "addr \<Rightarrow> (cc_link \<Rightarrow> cc_link) \<Rightarrow> world \<Rightarrow> world option" where
  "upd_link a f w = do { l \<leftarrow> h_links w a; Some (w\<lparr>h_links := (h_links w)(a \<mapsto> f l)\<rparr>) }"

definition upd_tunnel :: "addr \<Rightarrow> (cc_tunnel \<Rightarrow> cc_tunnel) \<Rightarrow> world \<Rightarrow> world option" where
  "upd_tunnel a f w = do { t \<leftarrow> h_tunnels w a; Some (w\<lparr>h_tunnels := (h_tunnels w)(a \<mapsto> f t)\<rparr>) }"

definition upd_port :: "addr \<Rightarrow> (cc_port \<Rightarrow> cc_port) \<Rightarrow> world \<Rightarrow> world option" where
  "upd_port a f w = do { p \<leftarrow> h_ports w a; Some (w\<lparr>h_ports := (h_ports w)(a \<mapsto> f p)\<rparr>) }"

definition upd_obj :: "addr \<Rightarrow> (cc_calvinsys_obj \<Rightarrow> cc_calvinsys_obj) \<Rightarrow> world \<Rightarrow> world option" where
  "upd_obj a f w = do { x \<leftarrow> h_objs w a; Some (w\<lparr>h_objs := (h_objs w)(a \<mapsto> f x)\<rparr>) }"

definition upd_actor :: "addr \<Rightarrow> (cc_actor \<Rightarrow> cc_actor) \<Rightarrow> world \<Rightarrow> world option" where
  "upd_actor a f w = do { x \<leftarrow> h_actors w a; Some (w\<lparr>h_actors := (h_actors w)(a \<mapsto> f x)\<rparr>) }"

text \<open>
  \<open>strncpy(buf, src, n)\<close> over a string \<open>old\<close> in a zero-padded buffer of \<open>cap\<close> bytes, without writing a
  terminator: what follows the first \<open>n\<close> bytes stays. A copy of \<open>cap\<close> bytes or more leaves no
  terminator in the buffer or writes behind it, and is a fault.
\<close>

definition strncpy_over :: "nat \<Rightarrow> bytes \<Rightarrow> bytes \<Rightarrow> nat \<Rightarrow> bytes option" where
  "strncpy_over cap old src n =
     (if n < cap then Some (let s = cstr (take n src) in
        if length s < n then s else s @ drop n old) else None)"

lemma strncpy_over_empty: "n < cap \<Longrightarrow> strncpy_over cap [] src n = Some (cstr (take n src))"
  by (simp add: strncpy_over_def Let_def)

section \<open>Pending messages\<close>

text \<open>\<open>src/runtime/north/cc_node.c\<close>\<close>

definition cc_node_add_pending_msg ::
  "bytes \<Rightarrow> cc_msg_handler \<Rightarrow> msg_data \<Rightarrow> world \<Rightarrow> cc_result \<times> world" where
  "cc_node_add_pending_msg msg_uuid handler msg_data w = (case mem_alloc w of
     (False, w) \<Rightarrow> (CC_FAIL, w)
   | (True, w) \<Rightarrow>
       let msg = \<lparr>pm_handler = handler, pm_msg_data = msg_data\<rparr>
       in case cc_list_add_n (n_pending_msgs w) msg_uuid (strnlen msg_uuid CC_UUID_BUFFER_SIZE) msg 0 w of
            (None, l, w) \<Rightarrow> (CC_FAIL, w\<lparr>n_pending_msgs := l\<rparr>)
          | (Some _, l, w) \<Rightarrow> (CC_SUCCESS, w\<lparr>n_pending_msgs := l\<rparr>))"

definition cc_node_remove_pending_msg :: "bytes \<Rightarrow> world \<Rightarrow> world" where
  "cc_node_remove_pending_msg msg_uuid w =
     (case cc_list_get_n (n_pending_msgs w) msg_uuid (strnlen msg_uuid CC_UUID_BUFFER_SIZE) of
        None \<Rightarrow> w
      | Some _ \<Rightarrow> w\<lparr>n_pending_msgs := cc_list_remove (n_pending_msgs w) msg_uuid\<rparr>)"

definition cc_node_get_pending_msg :: "world \<Rightarrow> bytes \<Rightarrow> cc_pending_msg option" where
  "cc_node_get_pending_msg w msg_uuid =
     map_option li_data (cc_list_get_n (n_pending_msgs w) msg_uuid (strnlen msg_uuid CC_UUID_BUFFER_SIZE))"

end
