(* ===== verification/Proto_Send.thy ===== *)
theory Proto_Send
  imports Runtime_State
begin

text \<open>
  \<open>src/runtime/north/cc_proto.c\<close>, the messages the runtime sends. Every function builds its message in
  a buffer of fixed size behind the room for the length prefix and hands it to the transport; a
  request is first registered as pending and taken back when the transport refuses it. The message of
  each function is a definition of its own (\<open>msg_\<dots>\<close>), the function adds the buffer, the identifier and
  the registration. A message that does not fit the buffer is the fault \<open>None\<close>.

  \<open>cc_proto_send_actor_new\<close> needs the serialised actor and is not part of this theory.
\<close>

section \<open>Building blocks\<close>

text \<open>\<open>cc_coder_encode_kv_str(w, key, id, strnlen(id, CC_UUID_BUFFER_SIZE))\<close>\<close>

definition kv_id :: "mp \<Rightarrow> bytes \<Rightarrow> bytes \<Rightarrow> bytes \<Rightarrow> bytes" where
  "kv_id mp w key s = cc_coder_encode_kv_str mp w key s (of_nat (strnlen s CC_UUID_BUFFER_SIZE))"

text \<open>\<open>cc_coder_encode_kv_str(w, key, s, strlen(s))\<close>\<close>

definition kv_full :: "mp \<Rightarrow> bytes \<Rightarrow> bytes \<Rightarrow> bytes \<Rightarrow> bytes" where
  "kv_full mp w key s = cc_coder_encode_kv_str mp w key s (of_nat (strlen s))"

text \<open>
  \<open>len = snprintf(buf, cap, "<prefix>%s", id)\<close> and the use of \<open>len\<close> bytes of the buffer: the length
  returned is that of the whole text, also when the buffer keeps less of it.
\<close>

definition snprintf_id :: "nat \<Rightarrow> bytes \<Rightarrow> bytes \<Rightarrow> (bytes \<times> nat) option" where
  "snprintf_id cap pfx i =
     (let s = pfx @ cstr i in
      if length s \<le> cap then Some (take cap (take (cap - 1) s @ replicate cap NUL), length s) else None)"

text \<open>The value of a \<open>success_list\<close> key.\<close>

definition success_list :: "mp \<Rightarrow> bytes \<Rightarrow> bytes" where
  "success_list mp w =
     (let w = cc_coder_encode_kv_array mp w ''success_list'' 7
      in foldl (cc_coder_encode_uint mp) w [200, 201, 202, 203, 204, 205, 206])"

text \<open>Both orders in which the envelope of a tunnel message is written.\<close>

definition tunnel_data_to_from :: "mp \<Rightarrow> bytes \<Rightarrow> bytes \<Rightarrow> bytes \<Rightarrow> bytes" where
  "tunnel_data_to_from mp to_rt from_rt tunnel_id =
     (let w = cc_coder_encode_map mp [] 5;
          w = kv_id mp w ''to_rt_uuid'' to_rt;
          w = kv_id mp w ''from_rt_uuid'' from_rt;
          w = cc_coder_encode_kv_str mp w ''cmd'' ''TUNNEL_DATA'' 11
      in kv_id mp w ''tunnel_id'' tunnel_id)"

definition tunnel_data_from_to :: "mp \<Rightarrow> bytes \<Rightarrow> bytes \<Rightarrow> bytes \<Rightarrow> bytes" where
  "tunnel_data_from_to mp from_rt to_rt tunnel_id =
     (let w = cc_coder_encode_map mp [] 5;
          w = kv_id mp w ''from_rt_uuid'' from_rt;
          w = kv_id mp w ''to_rt_uuid'' to_rt;
          w = cc_coder_encode_kv_str mp w ''cmd'' ''TUNNEL_DATA'' 11
      in kv_id mp w ''tunnel_id'' tunnel_id)"

text \<open>
  The end of every sending function: the message \<open>b\<close> stands in a buffer of \<open>cap\<close> bytes behind
  \<open>prefix_len\<close> bytes for the length.
\<close>

definition fits :: "nat \<Rightarrow> bytes \<Rightarrow> world \<Rightarrow> bool" where
  "fits cap b w = (case n_transport_client w of None \<Rightarrow> False
     | Some tc \<Rightarrow> unat (tc_prefix_len tc) + length b \<le> cap)"

definition proto_send :: "nat \<Rightarrow> bytes \<Rightarrow> world \<Rightarrow> (cc_result \<times> world) option" where
  "proto_send cap b w = do {
     tc \<leftarrow> n_transport_client w;
     if \<not> fits cap b w then None
     else let p = unat (tc_prefix_len tc)
          in cc_transport_send (Some tc) (replicate p NUL @ b) (p + length b) w }"

definition send_pending ::
  "nat \<Rightarrow> bytes \<Rightarrow> bytes \<Rightarrow> cc_msg_handler \<Rightarrow> msg_data \<Rightarrow> world \<Rightarrow> (cc_result \<times> world) option" where
  "send_pending cap b msg_uuid handler msg_data w =
     (if \<not> fits cap b w then None
      else case cc_node_add_pending_msg msg_uuid handler msg_data w of
          (CC_SUCCESS, w) \<Rightarrow> do {
            (r, w) \<leftarrow> proto_send cap b w;
            if r = CC_SUCCESS then Some (CC_SUCCESS, w)
            else Some (CC_FAIL, cc_node_remove_pending_msg msg_uuid w) }
        | (_, w) \<Rightarrow> Some (CC_FAIL, w))"

text \<open>The pointers \<open>node->proxy_tunnel\<close>, \<open>node->proxy_link\<close>, \<open>node->storage_tunnel\<close> and what is read there.\<close>

definition proxy_tunnel_peer :: "world \<Rightarrow> (cc_tunnel \<times> bytes) option" where
  "proxy_tunnel_peer w = do {
     t \<leftarrow> get_tunnel w (n_proxy_tunnel w);
     l \<leftarrow> get_link w (t_link t);
     Some (t, l_peer_id l) }"

definition storage_tunnel_peer :: "world \<Rightarrow> (cc_tunnel \<times> bytes) option" where
  "storage_tunnel_peer w = do {
     l \<leftarrow> get_link w (n_proxy_link w);
     t \<leftarrow> get_tunnel w (n_storage_tunnel w);
     Some (t, l_peer_id l) }"

section \<open>Joining and requests to the proxy\<close>

definition CC_ATTRIBUTE_BUFFER_SIZE :: nat where
  "CC_ATTRIBUTE_BUFFER_SIZE = 1024"

definition join_text :: "bytes \<Rightarrow> bytes \<Rightarrow> bytes \<Rightarrow> bytes" where
  "join_text node_id msg_uuid serializer =
     ''{\"cmd\": \"JOIN_REQUEST\", \"id\": \"'' @ cstr node_id @ ''\", \"sid\": \"'' @ cstr msg_uuid
       @ ''\", \"serializers\": [\"'' @ cstr serializer @ ''\"]}''"

definition cc_proto_send_join_request ::
  "cc_transport_client \<Rightarrow> bytes \<Rightarrow> world \<Rightarrow> (cc_result \<times> world) option" where
  "cc_proto_send_join_request tc serializer w =
     (case cc_gen_uuid (Some ''MSGID_'') w of (msg_uuid, w) \<Rightarrow>
        let p = unat (tc_prefix_len tc); s = join_text (n_id w) msg_uuid serializer
        in if p + length s > 600 then None
           else cc_transport_send (Some tc) (replicate p NUL @ take (length s) (take (599 - p) s @ [NUL]))
                  (p + length s) w)"

definition msg_node_setup :: "mp \<Rightarrow> bytes \<Rightarrow> bytes \<Rightarrow> bytes \<Rightarrow> bytes \<Rightarrow> bytes option \<Rightarrow> bytes list \<Rightarrow> bytes" where
  "msg_node_setup mp peer_id node_id tunnel_id msg_uuid attributes capabilities =
     (let w = tunnel_data_to_from mp peer_id node_id tunnel_id;
          w = cc_coder_encode_kv_map mp w ''value'' 5;
          w = kv_id mp w ''msg_uuid'' msg_uuid;
          w = cc_coder_encode_kv_str mp w ''cmd'' ''CONFIG'' 6;
          w = (case attributes of
                 Some a \<Rightarrow> cc_coder_encode_kv_str mp w ''attributes'' a (of_nat (strnlen a CC_ATTRIBUTE_BUFFER_SIZE))
               | None \<Rightarrow> cc_coder_encode_kv_nil mp w ''attributes'');
          w = cc_coder_encode_kv_array mp w ''capabilities'' (of_nat (length capabilities));
          w = foldl (\<lambda>w c. cc_coder_encode_str mp w c (of_nat (strnlen c CC_UUID_BUFFER_SIZE))) w capabilities;
          w = cc_coder_encode_kv_str mp w ''port_property_capability'' ''runtime.constrained.1'' 21
      in cc_coder_encode_kv_bool mp w ''redeploy'' False)"

definition cc_proto_send_node_setup :: "mp \<Rightarrow> cc_msg_handler \<Rightarrow> world \<Rightarrow> (cc_result \<times> world) option" where
  "cc_proto_send_node_setup mp handler w =
     (if n_transport_client w = None then Some (CC_FAIL, w)
      else case cc_gen_uuid (Some ''MSGID_'') w of (msg_uuid, w) \<Rightarrow> do {
        (t, peer_id) \<leftarrow> proxy_tunnel_peer w;
        send_pending 1000 (msg_node_setup mp peer_id (n_id w) (t_id t) msg_uuid (n_attributes w)
          (map li_id (n_capabilities w)))
          msg_uuid handler MD_null w })"

definition msg_wake_signal :: "mp \<Rightarrow> bytes \<Rightarrow> bytes \<Rightarrow> bytes \<Rightarrow> bytes \<Rightarrow> bytes" where
  "msg_wake_signal mp peer_id node_id tunnel_id msg_uuid =
     (let w = tunnel_data_to_from mp peer_id node_id tunnel_id;
          w = cc_coder_encode_kv_map mp w ''value'' 2;
          w = kv_id mp w ''msg_uuid'' msg_uuid
      in cc_coder_encode_kv_str mp w ''cmd'' ''WAKEUP'' 6)"

definition cc_proto_send_wake_signal :: "mp \<Rightarrow> cc_msg_handler \<Rightarrow> world \<Rightarrow> (cc_result \<times> world) option" where
  "cc_proto_send_wake_signal mp handler w =
     (if n_transport_client w = None then Some (CC_FAIL, w)
      else case cc_gen_uuid (Some ''MSGID_'') w of (msg_uuid, w) \<Rightarrow> do {
        (t, peer_id) \<leftarrow> proxy_tunnel_peer w;
        send_pending 500 (msg_wake_signal mp peer_id (n_id w) (t_id t) msg_uuid) msg_uuid handler MD_null w })"

definition msg_get_actor_module :: "mp \<Rightarrow> bytes \<Rightarrow> bytes \<Rightarrow> bytes \<Rightarrow> bytes \<Rightarrow> bytes \<Rightarrow> bytes" where
  "msg_get_actor_module mp peer_id node_id tunnel_id msg_uuid actor_type =
     (let w = tunnel_data_to_from mp peer_id node_id tunnel_id;
          w = cc_coder_encode_kv_map mp w ''value'' 4;
          w = kv_id mp w ''msg_uuid'' msg_uuid;
          w = cc_coder_encode_kv_str mp w ''cmd'' ''GET_ACTOR_MODULE'' 16;
          w = kv_full mp w ''actor_type'' actor_type
      in cc_coder_encode_kv_str mp w ''compiler'' ''mpy-cross'' 9)"

definition cc_proto_send_get_actor_module ::
  "mp \<Rightarrow> bytes \<Rightarrow> cc_msg_handler \<Rightarrow> world \<Rightarrow> (cc_result \<times> world) option" where
  "cc_proto_send_get_actor_module mp actor_type handler w =
     (case cc_gen_uuid (Some ''MSGID_'') w of (msg_uuid, w) \<Rightarrow> do {
        (t, peer_id) \<leftarrow> proxy_tunnel_peer w;
        send_pending 1000 (msg_get_actor_module mp peer_id (n_id w) (t_id t) msg_uuid actor_type)
          msg_uuid handler MD_null w })"

definition msg_req_match ::
  "mp \<Rightarrow> bytes \<Rightarrow> bytes \<Rightarrow> bytes \<Rightarrow> bytes \<Rightarrow> bytes \<Rightarrow> bytes option \<Rightarrow> nat \<Rightarrow> bytes option" where
  "msg_req_match mp peer_id node_id tunnel_id msg_uuid actor_id requirements requirements_len = do {
     let w = tunnel_data_to_from mp peer_id node_id tunnel_id;
     let w = cc_coder_encode_kv_map mp w ''value'' 5;
     let w = kv_id mp w ''msg_uuid'' msg_uuid;
     let w = cc_coder_encode_kv_str mp w ''cmd'' ''REQ_MATCH'' 9;
     let w = kv_full mp w ''actor_id'' actor_id;
     w \<leftarrow> cc_coder_encode_kv_value mp w ''requirements'' requirements requirements_len;
     Some (cc_coder_encode_kv_uint mp w ''max_placements'' 1) }"

definition cc_proto_send_req_match ::
  "mp \<Rightarrow> cc_actor \<Rightarrow> bytes option \<Rightarrow> nat \<Rightarrow> cc_msg_handler \<Rightarrow> world \<Rightarrow> (cc_result \<times> world) option" where
  "cc_proto_send_req_match mp actor requirements requirements_len handler w =
     (case cc_gen_uuid (Some ''MSGID_'') w of (msg_uuid, w) \<Rightarrow> do {
        (t, peer_id) \<leftarrow> proxy_tunnel_peer w;
        actor_id \<leftarrow> a_id actor;
        b \<leftarrow> msg_req_match mp peer_id (n_id w) (t_id t) msg_uuid actor_id requirements requirements_len;
        send_pending 1000 b msg_uuid handler MD_null w })"

definition msg_sleep_request :: "mp \<Rightarrow> bytes \<Rightarrow> bytes \<Rightarrow> bytes \<Rightarrow> bytes \<Rightarrow> u32 \<Rightarrow> bytes" where
  "msg_sleep_request mp peer_id node_id tunnel_id msg_uuid time_to_sleep =
     (let w = tunnel_data_to_from mp peer_id node_id tunnel_id;
          w = cc_coder_encode_kv_map mp w ''value'' 3;
          w = kv_id mp w ''msg_uuid'' msg_uuid;
          w = cc_coder_encode_kv_str mp w ''cmd'' ''WILL_SLEEP'' 10
      in cc_coder_encode_kv_uint mp w ''time'' time_to_sleep)"

definition cc_proto_send_sleep_request ::
  "mp \<Rightarrow> u32 \<Rightarrow> cc_msg_handler \<Rightarrow> world \<Rightarrow> (cc_result \<times> world) option" where
  "cc_proto_send_sleep_request mp time_to_sleep handler w =
     (case cc_gen_uuid (Some ''MSGID_'') w of (msg_uuid, w) \<Rightarrow> do {
        (t, peer_id) \<leftarrow> proxy_tunnel_peer w;
        send_pending 1000 (msg_sleep_request mp peer_id (n_id w) (t_id t) msg_uuid time_to_sleep)
          msg_uuid handler MD_null w })"

section \<open>Tunnels\<close>

definition tunnel_type_name :: "cc_tunnel_type \<Rightarrow> bytes" where
  "tunnel_type_name ty = (case ty of
     CC_TUNNEL_TYPE_STORAGE \<Rightarrow> ''storage'' | CC_TUNNEL_TYPE_PROXY \<Rightarrow> ''proxy'' | CC_TUNNEL_TYPE_TOKEN \<Rightarrow> ''token'')"

definition msg_tunnel_request :: "mp \<Rightarrow> bytes \<Rightarrow> bytes \<Rightarrow> bytes \<Rightarrow> bytes \<Rightarrow> cc_tunnel_type \<Rightarrow> bytes" where
  "msg_tunnel_request mp node_id peer_id tunnel_id msg_uuid ty =
     (let w = cc_coder_encode_map mp [] 7;
          w = kv_id mp w ''msg_uuid'' msg_uuid;
          w = kv_id mp w ''from_rt_uuid'' node_id;
          w = kv_id mp w ''to_rt_uuid'' peer_id;
          w = cc_coder_encode_kv_str mp w ''cmd'' ''TUNNEL_NEW'' 10;
          w = kv_id mp w ''tunnel_id'' tunnel_id;
          w = kv_full mp w ''type'' (tunnel_type_name ty)
      in cc_coder_encode_kv_map mp w ''policy'' 0)"

text \<open>\<open>tunnel\<close> is passed with its address: the pending message keeps the pointer.\<close>

definition cc_proto_send_tunnel_request ::
  "mp \<Rightarrow> addr \<Rightarrow> cc_tunnel \<Rightarrow> cc_msg_handler \<Rightarrow> world \<Rightarrow> (cc_result \<times> world) option" where
  "cc_proto_send_tunnel_request mp a tunnel handler w =
     (case cc_gen_uuid (Some ''MSGID_'') w of (msg_uuid, w) \<Rightarrow> do {
        l \<leftarrow> get_link w (t_link tunnel);
        send_pending 1000 (msg_tunnel_request mp (n_id w) (l_peer_id l) (t_id tunnel) msg_uuid (t_type tunnel))
          msg_uuid handler (MD_tunnel a) w })"

definition msg_tunnel_destroy :: "mp \<Rightarrow> bytes \<Rightarrow> bytes \<Rightarrow> bytes \<Rightarrow> bytes \<Rightarrow> bytes" where
  "msg_tunnel_destroy mp node_id peer_id tunnel_id msg_uuid =
     (let w = cc_coder_encode_map mp [] 5;
          w = kv_id mp w ''msg_uuid'' msg_uuid;
          w = kv_id mp w ''from_rt_uuid'' node_id;
          w = kv_id mp w ''to_rt_uuid'' peer_id;
          w = cc_coder_encode_kv_str mp w ''cmd'' ''TUNNEL_DESTROY'' 14
      in kv_id mp w ''tunnel_id'' tunnel_id)"

definition cc_proto_send_tunnel_destroy ::
  "mp \<Rightarrow> addr \<Rightarrow> cc_tunnel \<Rightarrow> cc_msg_handler \<Rightarrow> world \<Rightarrow> (cc_result \<times> world) option" where
  "cc_proto_send_tunnel_destroy mp a tunnel handler w =
     (case cc_gen_uuid (Some ''MSGID_'') w of (msg_uuid, w) \<Rightarrow> do {
        l \<leftarrow> get_link w (t_link tunnel);
        send_pending 1000 (msg_tunnel_destroy mp (n_id w) (l_peer_id l) (t_id tunnel) msg_uuid)
          msg_uuid handler (MD_tunnel_id a) w })"

section \<open>Replies\<close>

definition msg_reply :: "mp \<Rightarrow> bytes \<Rightarrow> bytes \<Rightarrow> bytes \<Rightarrow> u32 \<Rightarrow> u32 \<Rightarrow> bytes" where
  "msg_reply mp node_id msg_uuid to_rt_uuid to_rt_uuid_len status =
     (let w = cc_coder_encode_map mp [] 5;
          w = kv_id mp w ''msg_uuid'' msg_uuid;
          w = cc_coder_encode_kv_str mp w ''to_rt_uuid'' to_rt_uuid to_rt_uuid_len;
          w = kv_id mp w ''from_rt_uuid'' node_id;
          w = cc_coder_encode_kv_str mp w ''cmd'' ''REPLY'' 5;
          w = cc_coder_encode_kv_map mp w ''value'' 3;
          w = cc_coder_encode_kv_uint mp w ''status'' status;
          w = cc_coder_encode_kv_nil mp w ''data''
      in success_list mp w)"

definition proto_send_reply ::
  "mp \<Rightarrow> bytes \<Rightarrow> bytes \<Rightarrow> u32 \<Rightarrow> u32 \<Rightarrow> world \<Rightarrow> (cc_result \<times> world) option" where
  "proto_send_reply mp msg_uuid to_rt_uuid to_rt_uuid_len status w =
     (if n_transport_client w = None then Some (CC_FAIL, w)
      else proto_send 1000 (msg_reply mp (n_id w) msg_uuid to_rt_uuid to_rt_uuid_len status) w)"

text \<open>The common part of the replies that carry data: up to the \<open>data\<close> map of one pair.\<close>

definition reply_with_data :: "mp \<Rightarrow> bytes \<Rightarrow> bytes \<Rightarrow> u32 \<Rightarrow> bytes \<Rightarrow> u32 \<Rightarrow> u32 \<Rightarrow> bytes" where
  "reply_with_data mp node_id msg_uuid msg_uuid_len to_rt_uuid to_rt_uuid_len status =
     (let w = cc_coder_encode_map mp [] 5;
          w = cc_coder_encode_kv_str mp w ''msg_uuid'' msg_uuid msg_uuid_len;
          w = cc_coder_encode_kv_str mp w ''to_rt_uuid'' to_rt_uuid to_rt_uuid_len;
          w = kv_id mp w ''from_rt_uuid'' node_id;
          w = cc_coder_encode_kv_str mp w ''cmd'' ''REPLY'' 5;
          w = cc_coder_encode_kv_map mp w ''value'' 3;
          w = cc_coder_encode_kv_uint mp w ''status'' status;
          w = success_list mp w
      in cc_coder_encode_kv_map mp w ''data'' 1)"

definition proto_send_tunnel_new_reply ::
  "mp \<Rightarrow> bytes \<Rightarrow> u32 \<Rightarrow> bytes \<Rightarrow> u32 \<Rightarrow> u32 \<Rightarrow> bytes \<Rightarrow> u32 \<Rightarrow> world \<Rightarrow> (cc_result \<times> world) option" where
  "proto_send_tunnel_new_reply mp msg_uuid msg_uuid_len to_rt_uuid to_rt_uuid_len status tunnel_id tunnel_id_len w =
     (if n_transport_client w = None then Some (CC_FAIL, w)
      else proto_send 1000 (cc_coder_encode_kv_str mp
             (reply_with_data mp (n_id w) msg_uuid msg_uuid_len to_rt_uuid to_rt_uuid_len status)
             ''tunnel_id'' tunnel_id tunnel_id_len) w)"

definition proto_send_route_request_reply ::
  "mp \<Rightarrow> bytes \<Rightarrow> u32 \<Rightarrow> bytes \<Rightarrow> u32 \<Rightarrow> u32 \<Rightarrow> bytes \<Rightarrow> u32 \<Rightarrow> world \<Rightarrow> (cc_result \<times> world) option" where
  "proto_send_route_request_reply mp msg_uuid msg_uuid_len to_rt_uuid to_rt_uuid_len status dest_peer_id dest_peer_id_len w =
     (if n_transport_client w = None then Some (CC_FAIL, w)
      else proto_send 1000 (cc_coder_encode_kv_str mp
             (reply_with_data mp (n_id w) msg_uuid msg_uuid_len to_rt_uuid to_rt_uuid_len status)
             ''peer_id'' dest_peer_id dest_peer_id_len) w)"

definition cc_proto_send_port_connect_reply ::
  "mp \<Rightarrow> bytes \<Rightarrow> u32 \<Rightarrow> bytes \<Rightarrow> u32 \<Rightarrow> u32 \<Rightarrow> bytes \<Rightarrow> u32 \<Rightarrow> world \<Rightarrow> (cc_result \<times> world) option" where
  "cc_proto_send_port_connect_reply mp msg_uuid msg_uuid_len to_rt_uuid to_rt_uuid_len status port_id port_id_len w =
     proto_send 1000 (cc_coder_encode_kv_str mp
       (reply_with_data mp (n_id w) msg_uuid msg_uuid_len to_rt_uuid to_rt_uuid_len status)
       ''port_id'' port_id port_id_len) w"

definition cc_proto_send_port_disconnect_reply ::
  "mp \<Rightarrow> bytes \<Rightarrow> u32 \<Rightarrow> bytes \<Rightarrow> u32 \<Rightarrow> u32 \<Rightarrow> world \<Rightarrow> (cc_result \<times> world) option" where
  "cc_proto_send_port_disconnect_reply mp msg_uuid msg_uuid_len to_rt_uuid to_rt_uuid_len status w =
     proto_send 1000 (cc_coder_encode_kv_map mp
       (reply_with_data mp (n_id w) msg_uuid msg_uuid_len to_rt_uuid to_rt_uuid_len status)
       ''remaining_tokens'' 0) w"

section \<open>Tokens and ports\<close>

definition msg_token :: "mp \<Rightarrow> bytes \<Rightarrow> bytes \<Rightarrow> cc_port \<Rightarrow> cc_token \<Rightarrow> u32 \<Rightarrow> bytes option" where
  "msg_token mp node_id tunnel_id port token sequencenbr =
     (let w = tunnel_data_to_from mp (p_peer_id port) node_id tunnel_id;
          w = cc_coder_encode_kv_map mp w ''value'' 5;
          w = cc_coder_encode_kv_str mp w ''cmd'' ''TOKEN'' 5;
          w = cc_coder_encode_kv_uint mp w ''sequencenbr'' sequencenbr;
          w = kv_id mp w ''port_id'' (p_id port);
          w = kv_id mp w ''peer_port_id'' (p_peer_port_id port)
      in cc_token_encode mp w token True)"

definition cc_proto_send_token ::
  "mp \<Rightarrow> cc_port \<Rightarrow> cc_token \<Rightarrow> u32 \<Rightarrow> world \<Rightarrow> (cc_result \<times> world) option" where
  "cc_proto_send_token mp port token sequencenbr w = do {
     t \<leftarrow> get_tunnel w (p_tunnel port);
     b \<leftarrow> msg_token mp (n_id w) (t_id t) port token sequencenbr;
     proto_send 1000 b w }"

definition direction_name :: "cc_port_direction \<Rightarrow> bytes" where
  "direction_name d = (if d = CC_PORT_DIRECTION_IN then ''in'' else ''out'')"

definition msg_port_connect :: "mp \<Rightarrow> bytes \<Rightarrow> bytes \<Rightarrow> bytes \<Rightarrow> cc_port \<Rightarrow> bytes" where
  "msg_port_connect mp node_id tunnel_id msg_uuid port =
     (let w = cc_coder_encode_map mp [] 11;
          w = kv_id mp w ''to_rt_uuid'' (p_peer_id port);
          w = kv_id mp w ''from_rt_uuid'' node_id;
          w = kv_id mp w ''msg_uuid'' msg_uuid;
          w = kv_id mp w ''tunnel_id'' tunnel_id;
          w = cc_coder_encode_kv_str mp w ''cmd'' ''PORT_CONNECT'' 12;
          w = cc_coder_encode_kv_nil mp w ''peer_port_name'';
          w = cc_coder_encode_kv_nil mp w ''peer_actor_id'';
          w = kv_id mp w ''peer_port_id'' (p_peer_port_id port);
          w = kv_id mp w ''port_id'' (p_id port);
          w = cc_coder_encode_kv_nil mp w ''peer_port_properties'';
          w = cc_coder_encode_kv_map mp w ''port_properties'' 3;
          w = kv_full mp w ''direction'' (direction_name (p_direction port));
          w = cc_coder_encode_kv_str mp w ''routing'' ''default'' 7
      in cc_coder_encode_kv_uint mp w ''nbr_peers'' 1)"

definition cc_proto_send_port_connect ::
  "mp \<Rightarrow> addr \<Rightarrow> cc_port \<Rightarrow> cc_msg_handler \<Rightarrow> world \<Rightarrow> (cc_result \<times> world) option" where
  "cc_proto_send_port_connect mp a port handler w =
     (case cc_gen_uuid (Some ''MSGID_'') w of (msg_uuid, w) \<Rightarrow> do {
        t \<leftarrow> get_tunnel w (p_tunnel port);
        send_pending 1000 (msg_port_connect mp (n_id w) (t_id t) msg_uuid port) msg_uuid handler (MD_port_id a) w })"

definition msg_port_disconnect :: "mp \<Rightarrow> bytes \<Rightarrow> bytes \<Rightarrow> bytes \<Rightarrow> cc_port \<Rightarrow> bytes" where
  "msg_port_disconnect mp node_id tunnel_id msg_uuid port =
     (let w = cc_coder_encode_map mp [] 10;
          w = kv_id mp w ''to_rt_uuid'' (p_peer_id port);
          w = kv_id mp w ''from_rt_uuid'' node_id;
          w = kv_id mp w ''msg_uuid'' msg_uuid;
          w = kv_id mp w ''tunnel_id'' tunnel_id;
          w = cc_coder_encode_kv_str mp w ''cmd'' ''PORT_DISCONNECT'' 15;
          w = cc_coder_encode_kv_nil mp w ''peer_port_name'';
          w = cc_coder_encode_kv_nil mp w ''peer_actor_id'';
          w = kv_id mp w ''peer_port_id'' (p_peer_port_id port);
          w = kv_id mp w ''port_id'' (p_id port)
      in cc_coder_encode_kv_nil mp w ''peer_port_dir'')"

definition cc_proto_send_port_disconnect ::
  "mp \<Rightarrow> addr \<Rightarrow> cc_port \<Rightarrow> cc_msg_handler \<Rightarrow> world \<Rightarrow> (cc_result \<times> world) option" where
  "cc_proto_send_port_disconnect mp a port handler w =
     (case cc_gen_uuid (Some ''MSGID_'') w of (msg_uuid, w) \<Rightarrow> do {
        t \<leftarrow> get_tunnel w (p_tunnel port);
        send_pending 1000 (msg_port_disconnect mp (n_id w) (t_id t) msg_uuid port) msg_uuid handler (MD_port_id a) w })"

section \<open>The registry\<close>

text \<open>The two loops over an actor's ports: a map with the identifier and the name of each.\<close>

fun encode_port_names :: "mp \<Rightarrow> world \<Rightarrow> bytes \<Rightarrow> addr cc_list \<Rightarrow> bytes option" where
  "encode_port_names mp wd w [] = Some w"
| "encode_port_names mp wd w (item # l) = do {
     port \<leftarrow> h_ports wd (li_data item);
     let w = cc_coder_encode_map mp w 2;
     let w = kv_full mp w ''id'' (p_id port);
     let w = kv_full mp w ''name'' (p_name port);
     encode_port_names mp wd w l }"

text \<open>\<open>item == NULL || cc_coder_type_of(item->data) != CC_CODER_MAP\<close>, negated.\<close>

definition replication_map :: "mp \<Rightarrow> cc_actor \<Rightarrow> bytes option option" where
  "replication_map mp actor = (case cc_list_get (a_private_attributes actor) ''_replication_id'' of
     None \<Rightarrow> Some None
   | Some item \<Rightarrow> do {
       t \<leftarrow> cc_coder_type_of mp (li_data item);
       Some (if t = CC_CODER_MAP then Some (li_data item) else None) })"

definition encode_replication :: "mp \<Rightarrow> bytes \<Rightarrow> bytes \<Rightarrow> bytes option" where
  "encode_replication mp obj_replication_id w = do {
     i \<leftarrow> cc_coder_decode_string_from_map mp obj_replication_id ''id'';
     let w = (case i of
        Some (replication_str, replication_len) \<Rightarrow>
          cc_coder_encode_kv_str mp w ''replication_id'' replication_str replication_len
      | None \<Rightarrow> cc_coder_encode_kv_nil mp w ''replication_id'');
     i \<leftarrow> cc_coder_decode_string_from_map mp obj_replication_id ''original_actor_id'';
     let w = (case i of
        Some (replication_str, replication_len) \<Rightarrow>
          cc_coder_encode_kv_str mp w ''replication_master_id'' replication_str replication_len
      | None \<Rightarrow> cc_coder_encode_kv_nil mp w ''replication_master_id'');
     v \<leftarrow> cc_coder_get_value_from_map mp obj_replication_id ''index'';
     n \<leftarrow> (case v of None \<Rightarrow> Some None | Some replication_str \<Rightarrow> cc_coder_decode_uint mp replication_str);
     Some (cc_coder_encode_kv_uint mp w ''replication_index''
             (case n of Some replication_index \<Rightarrow> replication_index | None \<Rightarrow> 0)) }"

definition msg_set_actor ::
  "mp \<Rightarrow> world \<Rightarrow> bytes \<Rightarrow> bytes \<Rightarrow> bytes \<Rightarrow> cc_actor \<Rightarrow> bytes option" where
  "msg_set_actor mp wd peer_id tunnel_id msg_uuid actor = do {
     actor_id \<leftarrow> a_id actor;
     actor_name \<leftarrow> a_name actor;
     actor_type \<leftarrow> a_type actor;
     (key, key_len) \<leftarrow> snprintf_id 50 ''actor-'' actor_id;
     let w = tunnel_data_from_to mp (n_id wd) peer_id tunnel_id;
     let w = cc_coder_encode_kv_map mp w ''value'' 4;
     let w = kv_id mp w ''msg_uuid'' msg_uuid;
     let w = cc_coder_encode_kv_str mp w ''cmd'' ''SET'' 3;
     let w = cc_coder_encode_kv_str mp w ''key'' key (of_nat key_len);
     rep \<leftarrow> replication_map mp actor;
     let w = cc_coder_encode_kv_map mp w ''value'' (if rep = None then 6 else 9);
     let w = cc_coder_encode_kv_bool mp w ''is_shadow'' False;
     let w = kv_full mp w ''name'' actor_name;
     let w = kv_full mp w ''node_id'' (n_id wd);
     let w = kv_full mp w ''type'' actor_type;
     let w = cc_coder_encode_kv_array mp w ''inports'' (cc_list_count (a_in_ports actor));
     w \<leftarrow> encode_port_names mp wd w (a_in_ports actor);
     let w = cc_coder_encode_kv_array mp w ''outports'' (cc_list_count (a_out_ports actor));
     w \<leftarrow> encode_port_names mp wd w (a_out_ports actor);
     case rep of None \<Rightarrow> Some w | Some obj_replication_id \<Rightarrow> encode_replication mp obj_replication_id w }"

definition cc_proto_send_set_actor ::
  "mp \<Rightarrow> addr \<Rightarrow> cc_actor \<Rightarrow> cc_msg_handler \<Rightarrow> world \<Rightarrow> (cc_result \<times> world) option" where
  "cc_proto_send_set_actor mp a actor handler w =
     (case cc_gen_uuid (Some ''MSGID_'') w of (msg_uuid, w) \<Rightarrow> do {
        (t, peer_id) \<leftarrow> storage_tunnel_peer w;
        b \<leftarrow> msg_set_actor mp w peer_id (t_id t) msg_uuid actor;
        send_pending 1000 b msg_uuid handler (MD_actor_id a) w })"

text \<open>\<open>DELETE\<close> and \<open>GET\<close> of a key, shared by actors and ports.\<close>

definition msg_remove_actor :: "mp \<Rightarrow> bytes \<Rightarrow> bytes \<Rightarrow> bytes \<Rightarrow> bytes \<Rightarrow> bytes \<times> nat \<Rightarrow> bytes" where
  "msg_remove_actor mp node_id peer_id tunnel_id msg_uuid key =
     (let w = tunnel_data_from_to mp node_id peer_id tunnel_id;
          w = cc_coder_encode_kv_map mp w ''value'' 3;
          w = cc_coder_encode_kv_str mp w ''cmd'' ''DELETE'' 6;
          w = cc_coder_encode_kv_str mp w ''key'' (fst key) (of_nat (snd key))
      in kv_id mp w ''msg_uuid'' msg_uuid)"

definition cc_proto_send_remove_actor ::
  "mp \<Rightarrow> cc_actor \<Rightarrow> cc_msg_handler \<Rightarrow> world \<Rightarrow> (cc_result \<times> world) option" where
  "cc_proto_send_remove_actor mp actor handler w = do {
     actor_id \<leftarrow> a_id actor;
     key \<leftarrow> snprintf_id 50 ''actor-'' actor_id;
     case cc_gen_uuid (Some ''MSGID_'') w of (msg_uuid, w) \<Rightarrow> do {
        (t, peer_id) \<leftarrow> storage_tunnel_peer w;
        send_pending 1000 (msg_remove_actor mp (n_id w) peer_id (t_id t) msg_uuid key)
          msg_uuid handler MD_null w } }"

definition msg_remove_index :: "mp \<Rightarrow> bytes \<Rightarrow> bytes \<Rightarrow> bytes \<Rightarrow> bytes \<Rightarrow> bytes \<Rightarrow> bytes \<Rightarrow> bytes" where
  "msg_remove_index mp node_id peer_id tunnel_id msg_uuid key v =
     (let w = tunnel_data_from_to mp node_id peer_id tunnel_id;
          w = cc_coder_encode_kv_map mp w ''value'' 5;
          w = cc_coder_encode_kv_str mp w ''cmd'' ''REMOVE_INDEX'' 12;
          w = cc_coder_encode_kv_str mp w ''prefix'' ''index-'' 6;
          w = cc_coder_encode_kv_array mp w ''index'' 1;
          w = cc_coder_encode_str mp w key (of_nat (length key));
          w = kv_id mp w ''value'' v
      in kv_id mp w ''msg_uuid'' msg_uuid)"

text \<open>
  \<open>char id[40]\<close> receives the replication identifier and a terminator; \<open>key\<close> (80 bytes) has room for it
  behind either prefix.
\<close>

definition cc_proto_send_remove_replica ::
  "mp \<Rightarrow> cc_actor \<Rightarrow> bool \<Rightarrow> cc_msg_handler \<Rightarrow> world \<Rightarrow> (cc_result \<times> world) option" where
  "cc_proto_send_remove_replica mp actor node_also handler w = do {
     rep \<leftarrow> replication_map mp actor;
     r \<leftarrow> (case rep of None \<Rightarrow> Some None | Some m \<Rightarrow> cc_coder_decode_string_from_map mp m ''id'');
     case r of None \<Rightarrow> Some (CC_FAIL, w)
     | Some (replication_id, replication_id_len) \<Rightarrow> do {
         i \<leftarrow> strncpy_term 40 replication_id (unat replication_id_len);
         actor_id \<leftarrow> a_id actor;
         (t, peer_id) \<leftarrow> storage_tunnel_peer w;
         case cc_gen_uuid (Some ''MSGID_'') w of (msg_uuid, w) \<Rightarrow> do {
           (res, w) \<leftarrow> send_pending 1000 (msg_remove_index mp (n_id w) peer_id (t_id t) msg_uuid
                       (''replicas/actors/'' @ i) actor_id) msg_uuid handler MD_null w;
           if res \<noteq> CC_SUCCESS then Some (CC_FAIL, w)
           else if \<not> node_also then Some (CC_SUCCESS, w)
           else case cc_gen_uuid (Some ''MSGID_'') w of (msg_uuid, w) \<Rightarrow>
             send_pending 1000 (msg_remove_index mp (n_id w) peer_id (t_id t) msg_uuid
                       (''replicas/nodes/'' @ i) (n_id w)) msg_uuid handler MD_null w } } }"

definition msg_set_port ::
  "mp \<Rightarrow> bytes \<Rightarrow> bytes \<Rightarrow> bytes \<Rightarrow> bytes \<Rightarrow> bytes \<times> nat \<Rightarrow> cc_port \<Rightarrow> bytes \<Rightarrow> bytes" where
  "msg_set_port mp peer_id node_id tunnel_id msg_uuid key port actor_id =
     (let w = tunnel_data_to_from mp peer_id node_id tunnel_id;
          w = cc_coder_encode_kv_map mp w ''value'' 4;
          w = kv_id mp w ''msg_uuid'' msg_uuid;
          w = cc_coder_encode_kv_str mp w ''cmd'' ''SET'' 3;
          w = cc_coder_encode_kv_str mp w ''key'' (fst key) (of_nat (snd key));
          w = cc_coder_encode_kv_map mp w ''value'' 6;
          w = cc_coder_encode_kv_array mp w ''peers'' 1;
          w = cc_coder_encode_array mp w 2;
          w = (if strnlen (p_peer_id port) CC_UUID_BUFFER_SIZE > 0
               then cc_coder_encode_str mp w (p_peer_id port) (of_nat (strlen (p_peer_id port)))
               else cc_coder_encode_nil mp w);
          w = cc_coder_encode_str mp w (p_peer_port_id port) (of_nat (strlen (p_peer_port_id port)));
          w = cc_coder_encode_kv_map mp w ''properties'' 3;
          w = (if p_direction port = CC_PORT_DIRECTION_IN
               then cc_coder_encode_kv_str mp w ''direction'' ''in'' 2
               else cc_coder_encode_kv_str mp w ''direction'' ''out'' 3);
          w = cc_coder_encode_kv_str mp w ''routing'' ''default'' 7;
          w = cc_coder_encode_kv_uint mp w ''nbr_peers'' 1;
          w = kv_full mp w ''name'' (p_name port);
          w = kv_full mp w ''node_id'' node_id;
          w = (if p_state port = CC_PORT_ENABLED
               then cc_coder_encode_kv_str mp w ''connected'' ''true'' 4
               else cc_coder_encode_kv_str mp w ''connected'' ''false'' 5)
      in kv_full mp w ''actor_id'' actor_id)"

definition cc_proto_send_set_port ::
  "mp \<Rightarrow> addr \<Rightarrow> cc_port \<Rightarrow> cc_msg_handler \<Rightarrow> world \<Rightarrow> (cc_result \<times> world) option" where
  "cc_proto_send_set_port mp a port handler w =
     (case cc_gen_uuid (Some ''MSGID_'') w of (msg_uuid, w) \<Rightarrow> do {
        key \<leftarrow> snprintf_id 50 ''port-'' (p_id port);
        (t, peer_id) \<leftarrow> storage_tunnel_peer w;
        actor \<leftarrow> h_actors w (p_actor port);
        actor_id \<leftarrow> a_id actor;
        send_pending 2000 (msg_set_port mp peer_id (n_id w) (t_id t) msg_uuid key port actor_id)
          msg_uuid handler (MD_port_id a) w })"

definition msg_key_request :: "mp \<Rightarrow> bytes \<Rightarrow> bytes \<Rightarrow> bytes \<Rightarrow> bytes \<Rightarrow> bytes \<Rightarrow> bytes \<Rightarrow> nat \<Rightarrow> bytes" where
  "msg_key_request mp peer_id node_id tunnel_id msg_uuid cmd key key_len =
     (let w = tunnel_data_to_from mp peer_id node_id tunnel_id;
          w = cc_coder_encode_kv_map mp w ''value'' 3;
          w = cc_coder_encode_kv_str mp w ''cmd'' cmd (of_nat (length cmd));
          w = cc_coder_encode_kv_str mp w ''key'' key (of_nat key_len)
      in kv_id mp w ''msg_uuid'' msg_uuid)"

definition cc_proto_send_get_port ::
  "mp \<Rightarrow> bytes \<Rightarrow> cc_msg_handler \<Rightarrow> msg_data \<Rightarrow> world \<Rightarrow> (cc_result \<times> world) option" where
  "cc_proto_send_get_port mp port_id handler msg_data w = do {
     (key, key_len) \<leftarrow> snprintf_id 50 ''port-'' port_id;
     case cc_gen_uuid (Some ''MSGID_'') w of (msg_uuid, w) \<Rightarrow> do {
        (t, peer_id) \<leftarrow> storage_tunnel_peer w;
        send_pending 1000 (msg_key_request mp peer_id (n_id w) (t_id t) msg_uuid ''GET'' key (strnlen key key_len))
          msg_uuid handler msg_data w } }"

definition cc_proto_send_remove_port ::
  "mp \<Rightarrow> addr \<Rightarrow> cc_port \<Rightarrow> cc_msg_handler \<Rightarrow> world \<Rightarrow> (cc_result \<times> world) option" where
  "cc_proto_send_remove_port mp a port handler w = do {
     (key, key_len) \<leftarrow> snprintf_id 50 ''port-'' (p_id port);
     case cc_gen_uuid (Some ''MSGID_'') w of (msg_uuid, w) \<Rightarrow> do {
        (t, peer_id) \<leftarrow> storage_tunnel_peer w;
        send_pending 1000 (msg_key_request mp peer_id (n_id w) (t_id t) msg_uuid ''DELETE'' key key_len)
          msg_uuid handler (MD_port_id a) w } }"

section \<open>Joining\<close>

text \<open>\<open>cc_transport_join\<close> of \<open>src/runtime/north/cc_transport.c\<close>.\<close>

definition cc_transport_join ::
  "cc_transport_client \<Rightarrow> world \<Rightarrow> (cc_result \<times> cc_transport_client \<times> world) option" where
  "cc_transport_join tc w = (case cc_coder_get_name w of
     (None, w) \<Rightarrow> Some (CC_FAIL, tc, w)
   | (Some serializer, w) \<Rightarrow> do {
       (r, w) \<leftarrow> cc_proto_send_join_request tc serializer w;
       if r \<noteq> CC_SUCCESS then Some (CC_FAIL, tc, w)
       else Some (CC_SUCCESS, tc\<lparr>tc_state := CC_TRANSPORT_PENDING\<rparr>, w) })"

section \<open>The messages as values\<close>

text \<open>An identifier as a value, and the two envelopes.\<close>

definition idv :: "bytes \<Rightarrow> mpv" where
  "idv s = MStr (cstr (take CC_UUID_BUFFER_SIZE s))"

definition tunnel_data_v :: "bytes \<Rightarrow> bytes \<Rightarrow> bytes \<Rightarrow> mpv \<Rightarrow> mpv" where
  "tunnel_data_v to_rt from_rt tunnel_id v = MMap
     [(MStr ''to_rt_uuid'', idv to_rt), (MStr ''from_rt_uuid'', idv from_rt),
      (MStr ''cmd'', MStr ''TUNNEL_DATA''), (MStr ''tunnel_id'', idv tunnel_id), (MStr ''value'', v)]"

definition storage_data_v :: "bytes \<Rightarrow> bytes \<Rightarrow> bytes \<Rightarrow> mpv \<Rightarrow> mpv" where
  "storage_data_v from_rt to_rt tunnel_id v = MMap
     [(MStr ''from_rt_uuid'', idv from_rt), (MStr ''to_rt_uuid'', idv to_rt),
      (MStr ''cmd'', MStr ''TUNNEL_DATA''), (MStr ''tunnel_id'', idv tunnel_id), (MStr ''value'', v)]"

definition success_v :: mpv where
  "success_v = MArr (map MUint [200, 201, 202, 203, 204, 205, 206])"

definition reply_v :: "bytes \<Rightarrow> bytes \<Rightarrow> bytes \<Rightarrow> mpv \<Rightarrow> mpv" where
  "reply_v msg_uuid to_rt from_rt v = MMap
     [(MStr ''msg_uuid'', MStr msg_uuid), (MStr ''to_rt_uuid'', MStr to_rt), (MStr ''from_rt_uuid'', idv from_rt),
      (MStr ''cmd'', MStr ''REPLY''), (MStr ''value'', v)]"

lemma strnlen_le_length: "strnlen s n \<le> length s"
proof -
  have "length (cstr (take n s)) \<le> length (take n s)" unfolding cstr_def by (rule length_takeWhile_le)
  then show ?thesis by (simp add: strnlen_def)
qed

lemma take_strnlen: "take (strnlen s n) s = cstr (take n s)"
proof -
  have "take (length (cstr (take n s))) (take n s) = cstr (take n s)"
    unfolding cstr_def by (rule takeWhile_eq_take[symmetric, THEN trans]) simp_all
  moreover have "length (cstr (take n s)) \<le> n" using strnlen_le[of s n] by (simp add: strnlen_def)
  ultimately show ?thesis by (simp add: strnlen_def min_absorb1)
qed

lemma take_strlen: "take (strlen s) s = cstr s"
  using take_strnlen[of s "length s"] by (simp add: strnlen_def strlen_def)

lemma strlen_le_length: "strlen s \<le> length s"
  using strnlen_le_length[of s "length s"] by (simp add: strnlen_def strlen_def)

context msgpuck
begin

lemma kv_id_enc:
  assumes "no_nul key"
  shows "kv_id mp w key s = w @ enc mp (MStr key) @ enc mp (idv s)"
proof -
  have "unat (of_nat (strnlen s CC_UUID_BUFFER_SIZE) :: u32) = strnlen s CC_UUID_BUFFER_SIZE"
    using strnlen_le[of s CC_UUID_BUFFER_SIZE] by (simp add: CC_UUID_BUFFER_SIZE_def)
  then show ?thesis
    using kv_encodings(1)[OF assms, of "of_nat (strnlen s CC_UUID_BUFFER_SIZE)" s w] strnlen_le_length[of s CC_UUID_BUFFER_SIZE]
    by (simp only: kv_id_def idv_def take_strnlen simp_thms)
qed

lemma kv_full_enc:
  assumes "no_nul key" and "strlen s < 2 ^ 32"
  shows "kv_full mp w key s = w @ enc mp (MStr key) @ enc mp (MStr (cstr s))"
  using kv_encodings(1)[OF assms(1), of "of_nat (strlen s)" s w] strlen_le_length[of s] assms(2)
  by (simp add: kv_full_def take_strlen del: enc.simps)

lemma kv_lit_enc:
  assumes "no_nul key" and "unat n = length s"
  shows "cc_coder_encode_kv_str mp w key s n = w @ enc mp (MStr key) @ enc mp (MStr s)"
  using kv_encodings(1)[OF assms(1), of n s w] assms(2) by (simp del: enc.simps)

lemmas msg_parts = kv_id_enc kv_full_enc kv_lit_enc kv_encodings(2-8) cc_coder_encode_map_def
  cc_coder_encode_array_def cc_coder_encode_uint_def cc_coder_encode_nil_def

lemma tunnel_data_to_from_enc:
  "tunnel_data_to_from mp to_rt from_rt tid @ enc mp (MStr ''value'') @ enc mp v
     = enc mp (tunnel_data_v to_rt from_rt tid v)"
  by (simp add: tunnel_data_to_from_def tunnel_data_v_def msg_parts)

lemma tunnel_data_from_to_enc:
  "tunnel_data_from_to mp from_rt to_rt tid @ enc mp (MStr ''value'') @ enc mp v
     = enc mp (storage_data_v from_rt to_rt tid v)"
  by (simp add: tunnel_data_from_to_def storage_data_v_def msg_parts)

lemma success_list_enc: "success_list mp w = w @ enc mp (MStr ''success_list'') @ enc mp success_v"
  by (simp add: success_list_def success_v_def msg_parts)

text \<open>
  A message that ends with the pairs \<open>b\<close> of its value map: the header of the map and the pairs are the
  encoding of the map.
\<close>

lemma value_map_enc:
  assumes "n = of_nat (length kvs)"
  shows "cc_coder_encode_kv_map mp (tunnel_data_to_from mp to_rt from_rt tid) ''value'' n @ enc_pairs mp kvs
           = enc mp (tunnel_data_v to_rt from_rt tid (MMap kvs))"
    and "cc_coder_encode_kv_map mp (tunnel_data_from_to mp to_rt from_rt tid) ''value'' n @ enc_pairs mp kvs
           = enc mp (storage_data_v to_rt from_rt tid (MMap kvs))"
  using assms
  by (simp_all add: kv_encodings(7) flip: tunnel_data_to_from_enc tunnel_data_from_to_enc)

lemma wake_signal_enc:
  "msg_wake_signal mp to_rt from_rt tid u = enc mp (tunnel_data_v to_rt from_rt tid
     (MMap [(MStr ''msg_uuid'', idv u), (MStr ''cmd'', MStr ''WAKEUP'')]))"
  by (subst value_map_enc(1)[where n = 2, symmetric]) (simp_all add: msg_wake_signal_def msg_parts)

lemma capabilities_enc:
  "foldl (\<lambda>w c. cc_coder_encode_str mp w c (of_nat (strnlen c CC_UUID_BUFFER_SIZE))) w caps
     = w @ concat (map (\<lambda>c. enc mp (idv c)) caps)"
proof (induction caps arbitrary: w)
  case (Cons c caps)
  have "unat (of_nat (strnlen c CC_UUID_BUFFER_SIZE) :: u32) = strnlen c CC_UUID_BUFFER_SIZE"
    using strnlen_le[of c CC_UUID_BUFFER_SIZE] by (simp add: CC_UUID_BUFFER_SIZE_def)
  then have "mp_encode_str mp c (of_nat (strnlen c CC_UUID_BUFFER_SIZE)) = enc mp (idv c)"
    using encode_str_enc[of "of_nat (strnlen c CC_UUID_BUFFER_SIZE)" c] strnlen_le_length[of c CC_UUID_BUFFER_SIZE]
    by (simp only: idv_def take_strnlen simp_thms)
  then show ?case using Cons by (simp add: cc_coder_encode_str_def del: enc.simps)
qed simp

lemma attributes_enc:
  "cc_coder_encode_kv_str mp w ''attributes'' a (of_nat (strnlen a CC_ATTRIBUTE_BUFFER_SIZE))
     = w @ enc mp (MStr ''attributes'') @ enc mp (MStr (cstr (take CC_ATTRIBUTE_BUFFER_SIZE a)))"
proof -
  have "unat (of_nat (strnlen a CC_ATTRIBUTE_BUFFER_SIZE) :: u32) = strnlen a CC_ATTRIBUTE_BUFFER_SIZE"
    using strnlen_le[of a CC_ATTRIBUTE_BUFFER_SIZE] by (simp add: CC_ATTRIBUTE_BUFFER_SIZE_def)
  then show ?thesis
    using kv_encodings(1)[of "''attributes''" "of_nat (strnlen a CC_ATTRIBUTE_BUFFER_SIZE)" a w]
      strnlen_le_length[of a CC_ATTRIBUTE_BUFFER_SIZE]
    by (simp only: take_strnlen) simp
qed

lemma node_setup_enc:
  "msg_node_setup mp to_rt from_rt tid u attrs caps = enc mp (tunnel_data_v to_rt from_rt tid
     (MMap [(MStr ''msg_uuid'', idv u), (MStr ''cmd'', MStr ''CONFIG''),
        (MStr ''attributes'', case attrs of Some a \<Rightarrow> MStr (cstr (take CC_ATTRIBUTE_BUFFER_SIZE a)) | None \<Rightarrow> MNil),
        (MStr ''capabilities'', MArr (map idv caps)),
        (MStr ''port_property_capability'', MStr ''runtime.constrained.1'')]))
     @ enc mp (MStr ''redeploy'') @ enc mp (MBool False)"
  by (subst value_map_enc(1)[where n = 5, symmetric], simp)
    (cases attrs, simp_all add: msg_node_setup_def msg_parts capabilities_enc attributes_enc comp_def Let_def)

lemma get_actor_module_enc:
  "strlen ty < 2 ^ 32 \<Longrightarrow> msg_get_actor_module mp to_rt from_rt tid u ty = enc mp (tunnel_data_v to_rt from_rt tid
     (MMap [(MStr ''msg_uuid'', idv u), (MStr ''cmd'', MStr ''GET_ACTOR_MODULE''),
        (MStr ''actor_type'', MStr (cstr ty)), (MStr ''compiler'', MStr ''mpy-cross'')]))"
  by (subst value_map_enc(1)[where n = 4, symmetric]) (simp_all add: msg_get_actor_module_def msg_parts)

lemma sleep_request_enc:
  "msg_sleep_request mp to_rt from_rt tid u t = enc mp (tunnel_data_v to_rt from_rt tid
     (MMap [(MStr ''msg_uuid'', idv u), (MStr ''cmd'', MStr ''WILL_SLEEP''), (MStr ''time'', MUint (ucast t))]))"
  by (subst value_map_enc(1)[where n = 3, symmetric]) (simp_all add: msg_sleep_request_def msg_parts)

lemma req_match_enc:
  "strlen i < 2 ^ 32 \<Longrightarrow> wf_mpv reqs \<Longrightarrow>
   msg_req_match mp to_rt from_rt tid u i (Some (enc mp reqs @ r)) (length (enc mp reqs)) =
     Some (enc mp (tunnel_data_v to_rt from_rt tid
       (MMap [(MStr ''msg_uuid'', idv u), (MStr ''cmd'', MStr ''REQ_MATCH''), (MStr ''actor_id'', MStr (cstr i)),
          (MStr ''requirements'', reqs), (MStr ''max_placements'', MUint 1)])))"
  by (subst value_map_enc(1)[where n = 5, symmetric])
    (simp_all add: msg_req_match_def msg_parts cc_coder_encode_kv_value_def encode_key_def)

lemma tunnel_request_enc:
  "msg_tunnel_request mp from_rt to_rt tid u ty = enc mp (MMap
     [(MStr ''msg_uuid'', idv u), (MStr ''from_rt_uuid'', idv from_rt), (MStr ''to_rt_uuid'', idv to_rt),
      (MStr ''cmd'', MStr ''TUNNEL_NEW''), (MStr ''tunnel_id'', idv tid), (MStr ''type'', MStr (tunnel_type_name ty)),
      (MStr ''policy'', MMap [])])"
  by (cases ty) (simp_all add: msg_tunnel_request_def tunnel_type_name_def msg_parts)

lemma tunnel_destroy_enc:
  "msg_tunnel_destroy mp from_rt to_rt tid u = enc mp (MMap
     [(MStr ''msg_uuid'', idv u), (MStr ''from_rt_uuid'', idv from_rt), (MStr ''to_rt_uuid'', idv to_rt),
      (MStr ''cmd'', MStr ''TUNNEL_DESTROY''), (MStr ''tunnel_id'', idv tid)])"
  by (simp add: msg_tunnel_destroy_def msg_parts)

lemma port_connect_enc:
  "msg_port_connect mp from_rt tid u port = enc mp (MMap
     [(MStr ''to_rt_uuid'', idv (p_peer_id port)), (MStr ''from_rt_uuid'', idv from_rt), (MStr ''msg_uuid'', idv u),
      (MStr ''tunnel_id'', idv tid), (MStr ''cmd'', MStr ''PORT_CONNECT''), (MStr ''peer_port_name'', MNil),
      (MStr ''peer_actor_id'', MNil), (MStr ''peer_port_id'', idv (p_peer_port_id port)),
      (MStr ''port_id'', idv (p_id port)), (MStr ''peer_port_properties'', MNil),
      (MStr ''port_properties'', MMap [(MStr ''direction'', MStr (direction_name (p_direction port))),
         (MStr ''routing'', MStr ''default''), (MStr ''nbr_peers'', MUint 1)])])"
  by (cases "p_direction port") (simp_all add: msg_port_connect_def direction_name_def msg_parts)

lemma port_disconnect_enc:
  "msg_port_disconnect mp from_rt tid u port = enc mp (MMap
     [(MStr ''to_rt_uuid'', idv (p_peer_id port)), (MStr ''from_rt_uuid'', idv from_rt), (MStr ''msg_uuid'', idv u),
      (MStr ''tunnel_id'', idv tid), (MStr ''cmd'', MStr ''PORT_DISCONNECT''), (MStr ''peer_port_name'', MNil),
      (MStr ''peer_actor_id'', MNil), (MStr ''peer_port_id'', idv (p_peer_port_id port)),
      (MStr ''port_id'', idv (p_id port)), (MStr ''peer_port_dir'', MNil)])"
  by (simp add: msg_port_disconnect_def msg_parts)

text \<open>A token whose value is the encoding of a value.\<close>

lemma token_enc:
  assumes "tok_value tk = Some (enc mp v)" and "tok_size tk = length (enc mp v)" and "wf_mpv v"
  shows "msg_token mp from_rt tid port tk seq = Some (enc mp (tunnel_data_v (p_peer_id port) from_rt tid
     (MMap [(MStr ''cmd'', MStr ''TOKEN''), (MStr ''sequencenbr'', MUint (ucast seq)), (MStr ''port_id'', idv (p_id port)),
        (MStr ''peer_port_id'', idv (p_peer_port_id port)),
        (MStr ''token'', MMap [(MStr ''type'', MStr ''Token''), (MStr ''data'', v)])])))"
  using assms enc_not_Nil[OF assms(3)]
  by (subst value_map_enc(1)[where n = 5, symmetric])
    (simp_all add: msg_token_def cc_token_encode_def msg_parts cc_coder_encode_kv_value_def encode_key_def)

lemma remove_actor_enc:
  assumes "snprintf_id 50 pfx i = Some key" and "length (pfx @ cstr i) < 50" and "no_nul pfx"
  shows "msg_remove_actor mp from_rt to_rt tid u key = enc mp (storage_data_v from_rt to_rt tid
     (MMap [(MStr ''cmd'', MStr ''DELETE''), (MStr ''key'', MStr (pfx @ cstr i)), (MStr ''msg_uuid'', idv u)]))"
proof -
  have key: "take (snd key) (fst key) = pfx @ cstr i" "snd key = length (pfx @ cstr i)" "snd key \<le> length (fst key)"
    using assms(1,2) by (auto simp: snprintf_id_def Let_def)
  have "snd key < 4294967296" using key(2) assms(2) by simp
  then have "unat (of_nat (snd key) :: u32) = snd key" by (rule unat_of_nat_u32')
  then show ?thesis
    using kv_encodings(1)[of "''key''" "of_nat (snd key)" "fst key"] key
    by (subst value_map_enc(2)[where n = 3, symmetric]) (simp_all add: msg_remove_actor_def msg_parts del: enc.simps)
qed

lemma remove_index_enc:
  assumes "length key < 2 ^ 32"
  shows "msg_remove_index mp from_rt to_rt tid u key v = enc mp (storage_data_v from_rt to_rt tid
     (MMap [(MStr ''cmd'', MStr ''REMOVE_INDEX''), (MStr ''prefix'', MStr ''index-''), (MStr ''index'', MArr [MStr key]),
        (MStr ''value'', idv v), (MStr ''msg_uuid'', idv u)]))"
  using assms
  by (subst value_map_enc(2)[where n = 5, symmetric])
    (simp_all add: msg_remove_index_def msg_parts cc_coder_encode_str_def)

lemma key_request_enc:
  assumes "length cmd < 2 ^ 32" and "unat (of_nat n :: u32) = n" and "n \<le> length key"
  shows "msg_key_request mp to_rt from_rt tid u cmd key n = enc mp (tunnel_data_v to_rt from_rt tid
     (MMap [(MStr ''cmd'', MStr cmd), (MStr ''key'', MStr (take n key)), (MStr ''msg_uuid'', idv u)]))"
  using assms kv_encodings(1)[of "''key''" "of_nat n" key] 
  by (subst value_map_enc(1)[where n = 3, symmetric]) (simp_all add: msg_key_request_def msg_parts del: enc.simps)

lemma reply_enc:
  assumes "unat len \<le> length to_rt" and "no_nul u" and "length u \<le> CC_UUID_BUFFER_SIZE"
  shows "msg_reply mp from_rt u to_rt len status = enc mp (reply_v u (take (unat len) to_rt) from_rt
     (MMap [(MStr ''status'', MUint (ucast status)), (MStr ''data'', MNil), (MStr ''success_list'', success_v)]))"
  using assms
  by (simp add: msg_reply_def reply_v_def success_list_enc msg_parts kv_encodings(1) idv_def del: enc.simps(9))

lemma reply_with_data_enc:
  assumes "unat ul \<le> length u" and "unat len \<le> length to_rt"
  shows "reply_with_data mp from_rt u ul to_rt len status @ enc mp (MStr k) @ enc mp v =
     enc mp (reply_v (take (unat ul) u) (take (unat len) to_rt) from_rt
     (MMap [(MStr ''status'', MUint (ucast status)), (MStr ''success_list'', success_v),
        (MStr ''data'', MMap [(MStr k, v)])]))"
  using assms
  by (simp add: reply_with_data_def reply_v_def success_list_enc msg_parts kv_encodings(1))

end

section \<open>Requests are registered exactly while they are on their way\<close>

abbreviation pending_of :: "world \<Rightarrow> bytes \<Rightarrow> cc_pending_msg option" where
  "pending_of w \<equiv> list_lookup 42 (n_pending_msgs w)"

lemma add_pending_spec:
  assumes "keyed 42 (n_pending_msgs w)" and "key_of 42 u" and "pending_of w u = None"
    and "cc_node_add_pending_msg u h d w = (r, w')"
  shows "keyed 42 (n_pending_msgs w') \<and> e_sent w' = e_sent w \<and> n_transport_client w' = n_transport_client w
     \<and> (if r = CC_SUCCESS then \<forall>k. key_of 42 k \<longrightarrow>
             pending_of w' k = (if k = u then Some \<lparr>pm_handler = h, pm_msg_data = d\<rparr> else pending_of w k)
        else r = CC_FAIL \<and> n_pending_msgs w' = n_pending_msgs w)"
proof -
  let ?m = "\<lparr>pm_handler = h, pm_msg_data = d\<rparr>"
  obtain b w1 where m: "mem_alloc w = (b, w1)" by (cases "mem_alloc w")
  show ?thesis
  proof (cases b)
    case False
    then have "r = CC_FAIL" "w' = w1" using m assms(4) by (simp_all add: cc_node_add_pending_msg_def)
    with mem_alloc_more[OF m] node_eqD[of w1 w] assms(1) show ?thesis by simp
  next
    case True
    have n: "strnlen u CC_UUID_BUFFER_SIZE = 42" using assms(2) by (simp add: CC_UUID_BUFFER_SIZE_def)
    obtain x l w2 where a: "cc_list_add_n (n_pending_msgs w1) u 42 ?m 0 w1 = (x, l, w2)"
      by (cases "cc_list_add_n (n_pending_msgs w1) u 42 ?m 0 w1")
    have ins: "list_insert 42 0 (n_pending_msgs w1) u ?m w1 = (x \<noteq> None, l, w2)"
      by (simp add: list_insert_def a)
    note m1 = mem_alloc_more[OF m]
    have eq: "n_pending_msgs w1 = n_pending_msgs w" using node_eqD[of w1 w] m1 by simp
    have res: "r = (if x \<noteq> None then CC_SUCCESS else CC_FAIL)" "w' = w2\<lparr>n_pending_msgs := l\<rparr>"
      using assms(4) m True n a by (auto simp: cc_node_add_pending_msg_def Let_def split: option.splits)
    have f: "n_transport_client w' = n_transport_client w" "e_sent w' = e_sent w"
      using node_eqD[of w1 w] node_eqD[of w2 w1] list_add_n_more[OF a] m1 res(2) by simp_all
    show ?thesis
    proof (cases x)
      case None
      then have "l = n_pending_msgs w" using list_insert_False[of 42 0 _ u ?m w1] ins eq by auto
      with None res f assms(1) show ?thesis by simp
    next
      case (Some y)
      then have i: "list_insert 42 0 (n_pending_msgs w) u ?m w1 = (True, l, w2)" using ins eq by simp
      from msgid_reg.inv_add[OF assms(1-3) i] msgid_reg.lookup_add[OF assms(1-3) i] Some res f
      show ?thesis by simp
    qed
  qed
qed

lemma remove_pending_spec:
  assumes "keyed 42 (n_pending_msgs w)" and "key_of 42 u"
  shows "keyed 42 (n_pending_msgs (cc_node_remove_pending_msg u w))
     \<and> e_sent (cc_node_remove_pending_msg u w) = e_sent w
     \<and> (\<forall>k. key_of 42 k \<longrightarrow> pending_of (cc_node_remove_pending_msg u w) k = (if k = u then None else pending_of w k))"
proof -
  have n: "strnlen u CC_UUID_BUFFER_SIZE = 42" using assms(2) by (simp add: CC_UUID_BUFFER_SIZE_def)
  show ?thesis
  proof (cases "cc_list_get_n (n_pending_msgs w) u 42")
    case None
    then have "pending_of w u = None" by (simp add: list_lookup_def)
    with None assms n show ?thesis by (simp add: cc_node_remove_pending_msg_def)
  next
    case (Some x)
    with msgid_reg.inv_del[OF assms] msgid_reg.lookup_del[OF assms] n show ?thesis
      by (simp add: cc_node_remove_pending_msg_def)
  qed
qed

lemma proto_send_spec:
  assumes "proto_send cap b w = Some (r, w')"
  shows "n_pending_msgs w' = n_pending_msgs w \<and>
     (if r = CC_SUCCESS then \<exists>frame. e_sent w' = e_sent w @ [frame] else r = CC_FAIL \<and> e_sent w' = e_sent w)"
  using assms node_eqD[of w' w]
  by (auto simp: proto_send_def Let_def split: if_splits dest!: transport_send_more)

lemma send_pending_spec:
  assumes "keyed 42 (n_pending_msgs w)" and "key_of 42 u" and "pending_of w u = None"
    and "send_pending cap b u h d w = Some (r, w')"
  shows "keyed 42 (n_pending_msgs w') \<and>
    (if r = CC_SUCCESS
     then (\<exists>frame. e_sent w' = e_sent w @ [frame]) \<and> (\<forall>k. key_of 42 k \<longrightarrow>
            pending_of w' k = (if k = u then Some \<lparr>pm_handler = h, pm_msg_data = d\<rparr> else pending_of w k))
     else r = CC_FAIL \<and> e_sent w' = e_sent w \<and> (\<forall>k. key_of 42 k \<longrightarrow> pending_of w' k = pending_of w k))"
proof -
  obtain ra w1 where a: "cc_node_add_pending_msg u h d w = (ra, w1)" by (cases "cc_node_add_pending_msg u h d w")
  note A = add_pending_spec[OF assms(1-3) a]
  show ?thesis
  proof (cases "ra = CC_SUCCESS")
    case False
    then have "r = CC_FAIL" "w' = w1" using assms(4) a A by (auto simp: send_pending_def split: if_splits)
    with False A assms(1) show ?thesis by simp
  next
    case True
    obtain rs w2 where s: "proto_send cap b w1 = Some (rs, w2)"
      using assms(4) a True by (auto simp: send_pending_def split: if_splits)
    note S = proto_send_spec[OF s]
    show ?thesis
    proof (cases "rs = CC_SUCCESS")
      case ok: True
      then have "r = CC_SUCCESS" "w' = w2" using assms(4) a True s by (auto simp: send_pending_def split: if_splits)
      with ok True A S show ?thesis by simp
    next
      case fail: False
      then have w': "r = CC_FAIL" "w' = cc_node_remove_pending_msg u w2"
        using assms(4) a True s by (auto simp: send_pending_def split: if_splits)
      have "keyed 42 (n_pending_msgs w2)" using A S by simp
      from remove_pending_spec[OF this assms(2)] A S True fail w' assms(3) show ?thesis by auto
    qed
  qed
qed

section \<open>What sending a request leaves alone\<close>

text \<open>
  \<open>same_node w w'\<close>: apart from the environment and the pending messages the two worlds agree. A request
  whose message fits, and whose transport keeps room for the length, does return.
\<close>

definition same_node :: "world \<Rightarrow> world \<Rightarrow> bool" where
  "same_node w w' = (env.more (w'\<lparr>n_pending_msgs := n_pending_msgs w\<rparr>) = env.more w)"

lemma same_node_refl [simp]: "same_node w w"
  by (simp add: same_node_def)

lemma same_node_trans: "same_node w w1 \<Longrightarrow> same_node w1 w2 \<Longrightarrow> same_node w w2"
  by (cases w, cases w1, cases w2) (simp add: same_node_def)

lemma same_node_env: "env.more w' = env.more w \<Longrightarrow> same_node w w'"
  by (cases w, cases w') (simp add: same_node_def)

lemma same_node_pending [simp]: "same_node w (w\<lparr>n_pending_msgs := l\<rparr>)"
  by (cases w) (simp add: same_node_def)

lemma same_nodeD:
  assumes "same_node w w'"
  shows "h_links w' = h_links w" "h_tunnels w' = h_tunnels w" "h_ports w' = h_ports w" "h_actors w' = h_actors w"
    "h_next w' = h_next w" "n_state w' = n_state w" "n_stop_method w' = n_stop_method w" "n_id w' = n_id w"
    "n_attributes w' = n_attributes w" "n_proxy_link w' = n_proxy_link w"
    "n_links w' = n_links w" "n_storage_tunnel w' = n_storage_tunnel w" "n_proxy_tunnel w' = n_proxy_tunnel w"
    "n_tunnels w' = n_tunnels w" "n_actors w' = n_actors w" "n_transport_client w' = n_transport_client w"
    "n_capabilities w' = n_capabilities w" "n_objects w' = n_objects w" "h_caps w' = h_caps w" "h_objs w' = h_objs w"
    "n_actor_types w' = n_actor_types w" "n_seconds_since_epoch w' = n_seconds_since_epoch w"
    "n_time_at_sync w' = n_time_at_sync w"
  using node_eqD[OF assms[unfolded same_node_def]] by simp_all

lemma add_pending_same: "cc_node_add_pending_msg u h d w = (r, w') \<Longrightarrow> same_node w w'"
proof -
  assume r: "cc_node_add_pending_msg u h d w = (r, w')"
  obtain b w1 where m: "mem_alloc w = (b, w1)" by (cases "mem_alloc w")
  obtain x l w2 where a: "cc_list_add_n (n_pending_msgs w1) u (strnlen u CC_UUID_BUFFER_SIZE)
      \<lparr>pm_handler = h, pm_msg_data = d\<rparr> 0 w1 = (x, l, w2)"
    by (metis prod_cases3)
  have "same_node w w1" "same_node w1 w2" using mem_alloc_more[OF m] list_add_n_more[OF a] same_node_env by auto
  then have "same_node w w2" by (rule same_node_trans)
  moreover have "w' = w1 \<or> w' = w2\<lparr>n_pending_msgs := l\<rparr>"
    using r m a by (cases b; cases x) (auto simp: cc_node_add_pending_msg_def Let_def)
  ultimately show ?thesis using \<open>same_node w w1\<close> same_node_trans same_node_pending by blast
qed

lemma proto_send_same: "proto_send cap b w = Some (r, w') \<Longrightarrow> same_node w w'"
  by (auto simp: proto_send_def Let_def split: if_splits dest!: transport_send_more intro: same_node_env)

lemma remove_pending_same: "same_node w (cc_node_remove_pending_msg u w)"
  by (simp add: cc_node_remove_pending_msg_def split: option.split)

lemma send_pending_same:
  assumes "send_pending cap b u h d w = Some (r, w')"
  shows "same_node w w'"
proof -
  obtain ra w1 where a: "cc_node_add_pending_msg u h d w = (ra, w1)" by (cases "cc_node_add_pending_msg u h d w")
  note s1 = add_pending_same[OF a]
  show ?thesis
  proof (cases "ra = CC_SUCCESS")
    case True
    then obtain rs w2 where s: "proto_send cap b w1 = Some (rs, w2)" "w' = w2 \<or> w' = cc_node_remove_pending_msg u w2"
      using assms a by (auto simp: send_pending_def split: if_splits)
    with s1 proto_send_same[OF s(1)] remove_pending_same[of w2 u] show ?thesis by (metis same_node_trans)
  next
    case False
    then have "w' = w1" using assms a by (cases ra) (auto simp: send_pending_def split: if_splits)
    with s1 show ?thesis by simp
  qed
qed

definition fits_prefixed :: "nat \<Rightarrow> bytes \<Rightarrow> world \<Rightarrow> bool" where
  "fits_prefixed cap b w = (fits cap b w \<and>
     (case n_transport_client w of None \<Rightarrow> False | Some tc \<Rightarrow> 4 \<le> unat (tc_prefix_len tc)))"

lemma proto_send_returns:
  assumes "fits_prefixed cap b w"
  shows "\<exists>r w'. proto_send cap b w = Some (r, w')"
proof -
  obtain tc where tc: "n_transport_client w = Some tc" "4 \<le> unat (tc_prefix_len tc)" "fits cap b w"
    using assms by (auto simp: fits_prefixed_def split: option.splits)
  obtain b1 where "cc_transport_set_length_prefix (replicate (unat (tc_prefix_len tc)) NUL @ b)
      (unat (tc_prefix_len tc) + length b - CC_TRANSPORT_LEN_PREFIX_SIZE) = Some b1"
    using tc(2) by (auto simp: cc_transport_set_length_prefix_def)
  then show ?thesis using tc
    by (auto simp: proto_send_def cc_transport_send_def Let_def split: prod.split bool.split)
qed

lemma send_pending_returns:
  assumes "fits_prefixed cap b w"
  shows "\<exists>r w'. send_pending cap b u h d w = Some (r, w')"
proof -
  obtain ra w1 where a: "cc_node_add_pending_msg u h d w = (ra, w1)" by (cases "cc_node_add_pending_msg u h d w")
  have "fits_prefixed cap b w1"
    using assms same_nodeD[OF add_pending_same[OF a]] by (simp add: fits_prefixed_def fits_def)
  from proto_send_returns[OF this] obtain rs w2 where "proto_send cap b w1 = Some (rs, w2)" by blast
  with a assms show ?thesis by (cases ra) (simp_all add: send_pending_def fits_prefixed_def)
qed

section \<open>Properties\<close>

text \<open>
  The requests the runtime sends are well-formed messages. The bytes of each one are the encoding of
  one map with the fields the protocol names: the counts written in the headers agree with the pairs
  written behind them, and nothing follows.
\<close>

lemma proto_request_messages:
  assumes "msgpuck mp" and "strlen ty < 2 ^ 32"
  shows "msg_wake_signal mp to_rt from_rt tid u = enc mp (tunnel_data_v to_rt from_rt tid
           (MMap [(MStr ''msg_uuid'', idv u), (MStr ''cmd'', MStr ''WAKEUP'')]))
    \<and> msg_get_actor_module mp to_rt from_rt tid u ty = enc mp (tunnel_data_v to_rt from_rt tid
           (MMap [(MStr ''msg_uuid'', idv u), (MStr ''cmd'', MStr ''GET_ACTOR_MODULE''),
              (MStr ''actor_type'', MStr (cstr ty)), (MStr ''compiler'', MStr ''mpy-cross'')]))
    \<and> msg_sleep_request mp to_rt from_rt tid u t = enc mp (tunnel_data_v to_rt from_rt tid
           (MMap [(MStr ''msg_uuid'', idv u), (MStr ''cmd'', MStr ''WILL_SLEEP''), (MStr ''time'', MUint (ucast t))]))
    \<and> msg_tunnel_request mp from_rt to_rt tid u tty = enc mp (MMap
           [(MStr ''msg_uuid'', idv u), (MStr ''from_rt_uuid'', idv from_rt), (MStr ''to_rt_uuid'', idv to_rt),
            (MStr ''cmd'', MStr ''TUNNEL_NEW''), (MStr ''tunnel_id'', idv tid),
            (MStr ''type'', MStr (tunnel_type_name tty)), (MStr ''policy'', MMap [])])
    \<and> msg_tunnel_destroy mp from_rt to_rt tid u = enc mp (MMap
           [(MStr ''msg_uuid'', idv u), (MStr ''from_rt_uuid'', idv from_rt), (MStr ''to_rt_uuid'', idv to_rt),
            (MStr ''cmd'', MStr ''TUNNEL_DESTROY''), (MStr ''tunnel_id'', idv tid)])
    \<and> msg_port_disconnect mp from_rt tid u port = enc mp (MMap
           [(MStr ''to_rt_uuid'', idv (p_peer_id port)), (MStr ''from_rt_uuid'', idv from_rt), (MStr ''msg_uuid'', idv u),
            (MStr ''tunnel_id'', idv tid), (MStr ''cmd'', MStr ''PORT_DISCONNECT''), (MStr ''peer_port_name'', MNil),
            (MStr ''peer_actor_id'', MNil), (MStr ''peer_port_id'', idv (p_peer_port_id port)),
            (MStr ''port_id'', idv (p_id port)), (MStr ''peer_port_dir'', MNil)])"
  using msgpuck.wake_signal_enc[OF assms(1)] msgpuck.get_actor_module_enc[OF assms]
    msgpuck.sleep_request_enc[OF assms(1)] msgpuck.tunnel_request_enc[OF assms(1)]
    msgpuck.tunnel_destroy_enc[OF assms(1)] msgpuck.port_disconnect_enc[OF assms(1)]
  by (simp del: enc.simps)

text \<open>
  C20: a token message carries the token. For a token that holds an encoded value, the message sent for it is
  the encoding of one map with the ports, the sequence number and exactly that value as the token's data.
\<close>

theorem proto_token_message:
  assumes "msgpuck mp" and "tok_value tk = Some (enc mp v)" and "tok_size tk = length (enc mp v)" and "wf_mpv v"
  shows "msg_token mp from_rt tid port tk seq = Some (enc mp (tunnel_data_v (p_peer_id port) from_rt tid
     (MMap [(MStr ''cmd'', MStr ''TOKEN''), (MStr ''sequencenbr'', MUint (ucast seq)), (MStr ''port_id'', idv (p_id port)),
        (MStr ''peer_port_id'', idv (p_peer_port_id port)),
        (MStr ''token'', MMap [(MStr ''type'', MStr ''Token''), (MStr ''data'', v)])])))"
  using msgpuck.token_enc[OF assms] .

definition example_port :: cc_port where
  "example_port = \<lparr>p_id = ''p'', p_name = ''out'', p_peer_port_id = ''q'', p_peer_id = ''rt2'',
     p_direction = CC_PORT_DIRECTION_OUT, p_peer_port = None, p_tunnel = Some 0, p_state = CC_PORT_ENABLED,
     p_fifo = None, p_retries = 0, p_actor = 0\<rparr>"

theorem proto_token_message_witness:
  "msg_token mp_ref ''rt1'' ''t'' example_port
      \<lparr>tok_value = Some (enc mp_ref (MUint 7)), tok_size = length (enc mp_ref (MUint 7))\<rparr> 3 =
   Some (enc mp_ref (tunnel_data_v ''rt2'' ''rt1'' ''t''
     (MMap [(MStr ''cmd'', MStr ''TOKEN''), (MStr ''sequencenbr'', MUint (ucast (3 :: u32))), (MStr ''port_id'', idv ''p''),
        (MStr ''peer_port_id'', idv ''q''),
        (MStr ''token'', MMap [(MStr ''type'', MStr ''Token''), (MStr ''data'', MUint 7)])])))"
  using proto_token_message[OF ref.msgpuck_axioms,
      of "\<lparr>tok_value = Some (enc mp_ref (MUint 7)), tok_size = length (enc mp_ref (MUint 7))\<rparr>" "MUint 7" "''rt1''" "''t''"
        example_port 3]
  by (simp add: example_port_def del: enc.simps)

text \<open>
  \<open>cc_proto_send_node_setup\<close> announces five pairs for its value map and writes six. A receiver that
  reads the message stops before the pair \<open>redeploy\<close>, whose bytes stay behind the message.
\<close>

lemma node_setup_trailing_pair:
  assumes "msgpuck mp" and "length caps < 2 ^ 32"
  shows "mp_next mp (msg_node_setup mp to_rt from_rt tid u attrs caps)
         = Some (enc mp (MStr ''redeploy'') @ enc mp (MBool False))"
proof -
  let ?a = "case attrs of Some a \<Rightarrow> MStr (cstr (take CC_ATTRIBUTE_BUFFER_SIZE a)) | None \<Rightarrow> MNil"
  let ?kvs = "[(MStr ''msg_uuid'', idv u), (MStr ''cmd'', MStr ''CONFIG''), (MStr ''attributes'', ?a),
      (MStr ''capabilities'', MArr (map idv caps)),
      (MStr ''port_property_capability'', MStr ''runtime.constrained.1'')]"
  have "wf_mpv (idv x)" for x
    using strnlen_le[of x CC_UUID_BUFFER_SIZE] by (simp add: idv_def strnlen_def CC_UUID_BUFFER_SIZE_def)
  moreover have "wf_mpv ?a"
    using strnlen_le[of "the attrs" CC_ATTRIBUTE_BUFFER_SIZE]
    by (cases attrs) (simp_all add: strnlen_def CC_ATTRIBUTE_BUFFER_SIZE_def)
  ultimately have wf: "wf_mpv (tunnel_data_v to_rt from_rt tid (MMap ?kvs))"
    using assms(2) by (simp add: tunnel_data_v_def list_all_iff)
  have "msg_node_setup mp to_rt from_rt tid u attrs caps =
      enc mp (tunnel_data_v to_rt from_rt tid (MMap ?kvs)) @ enc mp (MStr ''redeploy'') @ enc mp (MBool False)"
    by (rule msgpuck.node_setup_enc[OF assms(1)])
  then show ?thesis using msgpuck.next_enc[OF assms(1) wf] by (simp only:)
qed


text \<open>A world with a proxy link, a token tunnel and a transport that accepts everything.\<close>

definition example_world :: world where
  "example_world = \<lparr>e_alloc = [], e_send = [], e_rand = [], e_time = 0, e_sent = [], e_hw = [], e_temperature_add = True,
     h_links = [0 \<mapsto> \<lparr>l_peer_id = ''rt2'', l_ref_count = 1, l_is_proxy = True\<rparr>],
     h_tunnels = [0 \<mapsto> \<lparr>t_id = ''t'', t_link = Some 0, t_state = CC_TUNNEL_ENABLED, t_ref_count = 1,
                       t_type = CC_TUNNEL_TYPE_TOKEN\<rparr>],
     h_ports = Map.empty, h_actors = Map.empty, h_caps = Map.empty, h_objs = Map.empty, h_next = 1, n_state = CC_NODE_STARTED,
     n_stop_method = CC_NODE_STOP_CLEAN, n_id = ''rt1'', n_attributes = None, n_pending_msgs = [],
     n_proxy_link = Some 0, n_links = [], n_storage_tunnel = None, n_proxy_tunnel = None, n_tunnels = [],
     n_actors = [], n_transport_client = Some example_client, n_actor_types = [],
     n_capabilities = [], n_objects = [], n_proxy_uris = [], n_seconds_since_epoch = 0, n_time_at_sync = 0, n_fds = replicate 10 (-1),
     n_ready = [], w_fs = \<lparr>fs_entries = [[] \<mapsto> Dir], fs_cwd = []\<rparr>\<rparr>"

lemma example_fits:
  assumes "key_of 42 u"
  shows "length (msg_port_connect mp_ref ''rt1'' ''t'' u example_port) \<le> 900"
  using assms
  by (simp add: ref.port_connect_enc idv_def CC_UUID_BUFFER_SIZE_def example_port_def direction_name_def)
    (simp add: mp_ref_def enc_num_def)

lemma example_send:
  assumes "cc_gen_uuid (Some ''MSGID_'') example_world = (u, w1)" and "key_of 42 u"
  shows "\<exists>w'. cc_proto_send_port_connect mp_ref 0 example_port cc_port_connect_reply_handler example_world
           = Some (CC_SUCCESS, w')"
proof -
  have w1: "env.more w1 = env.more example_world" "e_alloc w1 = []" "e_send w1 = []"
    using gen_uuid_more[OF assms(1)] gen_uuid_quiet[OF assms(1)] by (simp_all add: example_world_def)
  note f = node_eqD[OF w1(1)]
  have "fits 1000 (msg_port_connect mp_ref ''rt1'' ''t'' u example_port) w1"
    using example_fits[OF assms(2)] by (simp add: fits_def f example_world_def example_client_def)
  then show ?thesis
    using w1(2,3) assms(1)
    by (simp add: cc_proto_send_port_connect_def send_pending_def cc_node_add_pending_msg_def cc_list_add_n_def
        cc__list_add_def Let_def proto_send_def cc_transport_send_def transport_send_bytes_def
        cc_transport_set_length_prefix_def fits_def get_tunnel_def f example_world_def example_client_def
        example_port_def)
qed


end
