(* ===== verification/Link_Tunnel.thy ===== *)
theory Link_Tunnel
  imports Proto_Send
begin

text \<open>
  \<open>src/runtime/north/cc_link.c\<close> and \<open>cc_tunnel.c\<close>: links to other runtimes and the tunnels over them,
  both counted by 8 bit reference counts. The functions return a pointer as an optional address;
  an outer \<open>None\<close> is a fault.
\<close>

section \<open>Links\<close>

fun link_search :: "world \<Rightarrow> addr cc_list \<Rightarrow> bytes \<Rightarrow> nat \<Rightarrow> addr option option" where
  "link_search w [] peer_id n = Some None"
| "link_search w (item # links) peer_id n = do {
     link \<leftarrow> h_links w (li_data item);
     if strncmp0 (l_peer_id link) peer_id n then Some (Some (li_data item))
     else link_search w links peer_id n }"

definition cc_link_get :: "bytes \<Rightarrow> u32 \<Rightarrow> world \<Rightarrow> addr option option" where
  "cc_link_get peer_id peer_id_len w = link_search w (n_links w) peer_id (unat peer_id_len)"

definition cc_link_create :: "bytes \<Rightarrow> u32 \<Rightarrow> bool \<Rightarrow> world \<Rightarrow> (addr option \<times> world) option" where
  "cc_link_create peer_id peer_id_len is_proxy w = do {
     l \<leftarrow> cc_link_get peer_id peer_id_len w;
     case l of
       Some a \<Rightarrow> Some (Some a, w)
     | None \<Rightarrow> (case mem_alloc w of
         (False, w) \<Rightarrow> Some (None, w)
       | (True, w) \<Rightarrow> do {
           s \<leftarrow> strncpy_over CC_UUID_BUFFER_SIZE [] peer_id (unat peer_id_len);
           let a = h_next w;
           let w = w\<lparr>h_next := a + 1\<rparr>;
           case cc_list_add (n_links w) s a 0 w of
             (None, ls, w) \<Rightarrow> Some (None, w)
           | (Some _, ls, w) \<Rightarrow>
               Some (Some a, w\<lparr>n_links := ls,
                 h_links := (h_links w)(a \<mapsto> \<lparr>l_peer_id = s, l_ref_count = 0, l_is_proxy = is_proxy\<rparr>)\<rparr>) }) }"

definition cc_link_serialize :: "mp \<Rightarrow> cc_link \<Rightarrow> bytes \<Rightarrow> bytes" where
  "cc_link_serialize mp link buffer =
     (let buffer = cc_coder_encode_map mp buffer 2;
          buffer = kv_id mp buffer ''peer_id'' (l_peer_id link)
      in cc_coder_encode_kv_bool mp buffer ''is_proxy'' (l_is_proxy link))"

definition cc_link_deserialize :: "mp \<Rightarrow> bytes \<Rightarrow> world \<Rightarrow> (addr option \<times> world) option" where
  "cc_link_deserialize mp buffer w = do {
     p \<leftarrow> cc_coder_decode_string_from_map mp buffer ''peer_id'';
     case p of None \<Rightarrow> Some (None, w)
     | Some (peer_id, len) \<Rightarrow> do {
         b \<leftarrow> cc_coder_decode_bool_from_map mp buffer ''is_proxy'';
         case b of None \<Rightarrow> Some (None, w)
         | Some is_proxy \<Rightarrow> cc_link_create peer_id len is_proxy w } }"

definition cc_link_free :: "addr \<Rightarrow> world \<Rightarrow> world option" where
  "cc_link_free a w = do {
     link \<leftarrow> h_links w a;
     Some (w\<lparr>n_links := cc_list_remove (n_links w) (l_peer_id link), h_links := (h_links w)(a := None)\<rparr>) }"

definition cc_link_add_ref :: "addr option \<Rightarrow> world \<Rightarrow> world option" where
  "cc_link_add_ref p w = (case p of None \<Rightarrow> Some w
     | Some a \<Rightarrow> upd_link a (\<lambda>l. l\<lparr>l_ref_count := l_ref_count l + 1\<rparr>) w)"

definition cc_link_remove_ref :: "addr option \<Rightarrow> world \<Rightarrow> world option" where
  "cc_link_remove_ref p w = (case p of None \<Rightarrow> Some w
     | Some a \<Rightarrow> do {
         w \<leftarrow> upd_link a (\<lambda>l. l\<lparr>l_ref_count := l_ref_count l - 1\<rparr>) w;
         link \<leftarrow> h_links w a;
         if l_ref_count link = 0 then cc_link_free a w else Some w })"

section \<open>Tunnels\<close>

definition cc_tunnel_get_from_id :: "bytes \<Rightarrow> u32 \<Rightarrow> world \<Rightarrow> addr option" where
  "cc_tunnel_get_from_id tunnel_id tunnel_id_len w =
     map_option li_data (cc_list_get_n (n_tunnels w) tunnel_id (unat tunnel_id_len))"

text \<open>
  A tunnel without a link makes the loop \<open>continue\<close> without moving on, so the function does not return:
  \<open>get_link\<close> gives no value there.
\<close>

fun tunnel_search :: "world \<Rightarrow> addr cc_list \<Rightarrow> bytes \<Rightarrow> nat \<Rightarrow> cc_tunnel_type \<Rightarrow> addr option option" where
  "tunnel_search w [] peer_id n ty = Some None"
| "tunnel_search w (item # tunnels) peer_id n ty = do {
     tunnel \<leftarrow> h_tunnels w (li_data item);
     link \<leftarrow> get_link w (t_link tunnel);
     if t_type tunnel = ty \<and> strncmp0 (l_peer_id link) peer_id n then Some (Some (li_data item))
     else tunnel_search w tunnels peer_id n ty }"

definition cc_tunnel_get_from_peerid_and_type ::
  "bytes \<Rightarrow> nat \<Rightarrow> cc_tunnel_type \<Rightarrow> world \<Rightarrow> addr option option" where
  "cc_tunnel_get_from_peerid_and_type peer_id peer_id_len ty w =
     tunnel_search w (n_tunnels w) peer_id peer_id_len ty"

text \<open>
  Writing \<open>tunnel->id\<close>: the item of the tunnel list points at the same buffer.
\<close>

definition set_tunnel_id :: "addr \<Rightarrow> bytes \<Rightarrow> world \<Rightarrow> world option" where
  "set_tunnel_id a s w = do {
     w \<leftarrow> upd_tunnel a (\<lambda>t. t\<lparr>t_id := s\<rparr>) w;
     Some (w\<lparr>n_tunnels := map (\<lambda>i. if li_data i = a then i\<lparr>li_id := s\<rparr> else i) (n_tunnels w)\<rparr>) }"

text \<open>The handler of the reply to a tunnel request, and what it does to the tunnel the reply names.\<close>

definition tunnel_reply_status :: "addr \<Rightarrow> u32 \<Rightarrow> bytes \<Rightarrow> u32 \<Rightarrow> world \<Rightarrow> world option" where
  "tunnel_reply_status a status tunnel_id tunnel_id_len w =
     (if status = 200 then do {
        s \<leftarrow> strncpy_term CC_UUID_BUFFER_SIZE tunnel_id (unat tunnel_id_len);
        w \<leftarrow> set_tunnel_id a s w;
        upd_tunnel a (\<lambda>t. t\<lparr>t_state := CC_TUNNEL_ENABLED\<rparr>) w }
      else upd_tunnel a (\<lambda>t. t\<lparr>t_state := CC_TUNNEL_DISCONNECTED\<rparr>) w)"

definition handle_tunnel_request_reply :: "mp \<Rightarrow> bytes \<Rightarrow> world \<Rightarrow> (cc_result \<times> world) option" where
  "handle_tunnel_request_reply mp data w = do {
     v \<leftarrow> cc_coder_get_value_from_map mp data ''value'';
     case v of None \<Rightarrow> Some (CC_FAIL, w) | Some value \<Rightarrow> do {
     d \<leftarrow> cc_coder_get_value_from_map mp value ''data'';
     case d of None \<Rightarrow> Some (CC_FAIL, w) | Some data_value \<Rightarrow> do {
     t \<leftarrow> cc_coder_decode_string_from_map mp data_value ''tunnel_id'';
     case t of None \<Rightarrow> Some (CC_FAIL, w) | Some (tunnel_id, tunnel_id_len) \<Rightarrow> do {
     s \<leftarrow> cc_coder_decode_uint_from_map mp value ''status'';
     case s of None \<Rightarrow> Some (CC_FAIL, w) | Some status \<Rightarrow>
     (case cc_tunnel_get_from_id tunnel_id tunnel_id_len w of
        None \<Rightarrow> Some (CC_FAIL, w)
      | Some a \<Rightarrow> do { w \<leftarrow> tunnel_reply_status a status tunnel_id tunnel_id_len w; Some (CC_SUCCESS, w) }) } } } }"

text \<open>The link of a new tunnel: the one to the peer, created when there is none.\<close>

definition tunnel_create_link :: "bytes \<Rightarrow> u32 \<Rightarrow> world \<Rightarrow> (addr option \<times> world) option" where
  "tunnel_create_link peer_id peer_id_len w = do {
     l \<leftarrow> cc_link_get peer_id peer_id_len w;
     case l of
       Some a \<Rightarrow> Some (Some a, w)
     | None \<Rightarrow> do {
         proxy \<leftarrow> get_link w (n_proxy_link w);
         cc_link_create peer_id peer_id_len (strncmp0 (l_peer_id proxy) peer_id (unat peer_id_len)) w } }"

text \<open>
  The parts of \<open>cc_tunnel_create\<close>: the identifier, the request to the peer for a tunnel that is not yet
  enabled, the registration in the list of tunnels.
\<close>

definition tunnel_new_id :: "(bytes \<times> u32) option \<Rightarrow> world \<Rightarrow> (bytes \<times> world) option" where
  "tunnel_new_id tunnel_id w = (case tunnel_id of
     None \<Rightarrow> Some (cc_gen_uuid None w)
   | Some (s, n) \<Rightarrow> do { i \<leftarrow> strncpy_term CC_UUID_BUFFER_SIZE s (unat n); Some (i, w) })"

definition tunnel_announce :: "mp \<Rightarrow> addr \<Rightarrow> cc_tunnel \<Rightarrow> world \<Rightarrow> (cc_result \<times> cc_tunnel \<times> world) option" where
  "tunnel_announce mp a tunnel w =
     (if t_state tunnel \<noteq> CC_TUNNEL_ENABLED then do {
        (r, w) \<leftarrow> cc_proto_send_tunnel_request mp a tunnel tunnel_request_handler w;
        Some (r, tunnel\<lparr>t_state := CC_TUNNEL_PENDING\<rparr>, w) }
      else Some (CC_SUCCESS, tunnel, w))"

definition tunnel_register :: "addr \<Rightarrow> addr \<Rightarrow> cc_tunnel \<Rightarrow> world \<Rightarrow> (addr option \<times> world) option" where
  "tunnel_register a link tunnel w = (case cc_list_add (n_tunnels w) (t_id tunnel) a 0 w of
     (None, ts, w) \<Rightarrow> Some (None, w)
   | (Some _, ts, w) \<Rightarrow> do {
       w \<leftarrow> cc_link_add_ref (Some link) (w\<lparr>n_tunnels := ts, h_tunnels := (h_tunnels w)(a \<mapsto> tunnel)\<rparr>);
       Some (Some a, w) })"

definition tunnel_build ::
  "mp \<Rightarrow> cc_tunnel_type \<Rightarrow> cc_tunnel_state \<Rightarrow> addr \<Rightarrow> (bytes \<times> u32) option \<Rightarrow> world \<Rightarrow> (addr option \<times> world) option" where
  "tunnel_build mp ty state link tunnel_id w = do {
     let a = h_next w;
     (i, w) \<leftarrow> tunnel_new_id tunnel_id (w\<lparr>h_next := a + 1\<rparr>);
     (r, tunnel, w) \<leftarrow> tunnel_announce mp a
        \<lparr>t_id = i, t_link = Some link, t_state = state, t_ref_count = 0, t_type = ty\<rparr> w;
     if r \<noteq> CC_SUCCESS then Some (None, w) else tunnel_register a link tunnel w }"

definition cc_tunnel_create ::
  "mp \<Rightarrow> cc_tunnel_type \<Rightarrow> cc_tunnel_state \<Rightarrow> bytes \<Rightarrow> u32 \<Rightarrow> (bytes \<times> u32) option \<Rightarrow> world \<Rightarrow>
   (addr option \<times> world) option" where
  "cc_tunnel_create mp ty state peer_id peer_id_len tunnel_id w = do {
     t \<leftarrow> cc_tunnel_get_from_peerid_and_type peer_id (unat peer_id_len) ty w;
     case t of Some a \<Rightarrow> Some (Some a, w) | None \<Rightarrow> do {
     (l, w) \<leftarrow> tunnel_create_link peer_id peer_id_len w;
     case l of None \<Rightarrow> Some (None, w) | Some link \<Rightarrow>
     (case mem_alloc w of
        (False, w) \<Rightarrow> Some (None, w)
      | (True, w) \<Rightarrow> tunnel_build mp ty state link tunnel_id w) } }"

text \<open>The numbers of the enumeration constants.\<close>

definition tunnel_state_nr :: "cc_tunnel_state \<Rightarrow> u32" where
  "tunnel_state_nr st = (case st of CC_TUNNEL_DISCONNECTED \<Rightarrow> 0 | CC_TUNNEL_ENABLED \<Rightarrow> 1 | CC_TUNNEL_PENDING \<Rightarrow> 2)"

definition tunnel_type_nr :: "cc_tunnel_type \<Rightarrow> u32" where
  "tunnel_type_nr ty = (case ty of CC_TUNNEL_TYPE_STORAGE \<Rightarrow> 0 | CC_TUNNEL_TYPE_TOKEN \<Rightarrow> 1 | CC_TUNNEL_TYPE_PROXY \<Rightarrow> 2)"

text \<open>The casts back; a number without a constant is outside the model.\<close>

definition tunnel_state_of :: "u32 \<Rightarrow> cc_tunnel_state option" where
  "tunnel_state_of n = (if n = 0 then Some CC_TUNNEL_DISCONNECTED else if n = 1 then Some CC_TUNNEL_ENABLED
     else if n = 2 then Some CC_TUNNEL_PENDING else None)"

definition tunnel_type_of :: "u32 \<Rightarrow> cc_tunnel_type option" where
  "tunnel_type_of n = (if n = 0 then Some CC_TUNNEL_TYPE_STORAGE else if n = 1 then Some CC_TUNNEL_TYPE_TOKEN
     else if n = 2 then Some CC_TUNNEL_TYPE_PROXY else None)"

definition cc_tunnel_serialize :: "mp \<Rightarrow> world \<Rightarrow> cc_tunnel \<Rightarrow> bytes \<Rightarrow> bytes option" where
  "cc_tunnel_serialize mp w tunnel buffer = do {
     link \<leftarrow> get_link w (t_link tunnel);
     let buffer = cc_coder_encode_map mp buffer 4;
     let buffer = kv_id mp buffer ''id'' (t_id tunnel);
     let buffer = kv_id mp buffer ''peer_id'' (l_peer_id link);
     let buffer = cc_coder_encode_kv_uint mp buffer ''state'' (tunnel_state_nr (t_state tunnel));
     Some (cc_coder_encode_kv_uint mp buffer ''type'' (tunnel_type_nr (t_type tunnel))) }"

definition cc_tunnel_deserialize :: "mp \<Rightarrow> bytes \<Rightarrow> world \<Rightarrow> (addr option \<times> world) option" where
  "cc_tunnel_deserialize mp buffer w = do {
     i \<leftarrow> cc_coder_decode_string_from_map mp buffer ''id'';
     case i of None \<Rightarrow> Some (None, w) | Some (i, len_id) \<Rightarrow> do {
     p \<leftarrow> cc_coder_decode_string_from_map mp buffer ''peer_id'';
     case p of None \<Rightarrow> Some (None, w) | Some (peer_id, len_peer_id) \<Rightarrow> do {
     s \<leftarrow> cc_coder_decode_uint_from_map mp buffer ''state'';
     case s of None \<Rightarrow> Some (None, w) | Some s \<Rightarrow> do {
     t \<leftarrow> cc_coder_decode_uint_from_map mp buffer ''type'';
     case t of None \<Rightarrow> Some (None, w) | Some t \<Rightarrow> do {
     state \<leftarrow> tunnel_state_of s;
     ty \<leftarrow> tunnel_type_of t;
     cc_tunnel_create mp ty state peer_id len_peer_id (Some (i, len_id)) w } } } } }"

definition cc_tunnel_free :: "addr option \<Rightarrow> bool \<Rightarrow> world \<Rightarrow> world option" where
  "cc_tunnel_free p unref_link w = (case p of None \<Rightarrow> Some w
     | Some a \<Rightarrow> do {
         tunnel \<leftarrow> h_tunnels w a;
         w \<leftarrow> (if unref_link \<and> t_link tunnel \<noteq> None then cc_link_remove_ref (t_link tunnel) w else Some w);
         Some (w\<lparr>n_tunnels := cc_list_remove (n_tunnels w) (t_id tunnel), h_tunnels := (h_tunnels w)(a := None)\<rparr>) })"

definition cc_tunnel_add_ref :: "addr option \<Rightarrow> world \<Rightarrow> world option" where
  "cc_tunnel_add_ref p w = (case p of None \<Rightarrow> Some w
     | Some a \<Rightarrow> upd_tunnel a (\<lambda>t. t\<lparr>t_ref_count := t_ref_count t + 1\<rparr>) w)"

definition cc_tunnel_remove_ref :: "mp \<Rightarrow> addr option \<Rightarrow> world \<Rightarrow> world option" where
  "cc_tunnel_remove_ref mp p w = (case p of None \<Rightarrow> Some w
     | Some a \<Rightarrow> do {
         w \<leftarrow> upd_tunnel a (\<lambda>t. t\<lparr>t_ref_count := t_ref_count t - 1\<rparr>) w;
         tunnel \<leftarrow> h_tunnels w a;
         if t_ref_count tunnel = 0 then do {
           w \<leftarrow> (if n_state w \<noteq> CC_NODE_DO_SLEEP \<and> n_transport_client w \<noteq> None
                 then do { (r, w) \<leftarrow> cc_proto_send_tunnel_destroy mp a tunnel tunnel_destroy_handler w; Some w }
                 else Some w);
           cc_tunnel_free (Some a) True w }
         else Some w })"

text \<open>A request for a tunnel that exists and is not enabled: the higher identifier wins.\<close>

definition tunnel_accept :: "addr \<Rightarrow> bytes \<Rightarrow> u32 \<Rightarrow> world \<Rightarrow> world option" where
  "tunnel_accept a tunnel_id tunnel_id_len w = do {
     tunnel \<leftarrow> h_tunnels w a;
     w \<leftarrow> (if cc_uuid_is_higher tunnel_id (unat tunnel_id_len) (t_id tunnel)
                (strnlen (t_id tunnel) CC_UUID_BUFFER_SIZE)
           then do {
             s \<leftarrow> strncpy_over CC_UUID_BUFFER_SIZE (t_id tunnel) tunnel_id (unat tunnel_id_len);
             set_tunnel_id a s w }
           else Some w);
     upd_tunnel a (\<lambda>t. t\<lparr>t_state := CC_TUNNEL_ENABLED\<rparr>) w }"

definition cc_tunnel_handle_tunnel_new_request ::
  "mp \<Rightarrow> bytes \<Rightarrow> u32 \<Rightarrow> bytes \<Rightarrow> u32 \<Rightarrow> world \<Rightarrow> (cc_result \<times> world) option" where
  "cc_tunnel_handle_tunnel_new_request mp peer_id peer_id_len tunnel_id tunnel_id_len w = do {
     t \<leftarrow> cc_tunnel_get_from_peerid_and_type peer_id (unat peer_id_len) CC_TUNNEL_TYPE_TOKEN w;
     case t of
       Some a \<Rightarrow> do {
         tunnel \<leftarrow> h_tunnels w a;
         if t_state tunnel = CC_TUNNEL_ENABLED then Some (CC_SUCCESS, w)
         else do { w \<leftarrow> tunnel_accept a tunnel_id tunnel_id_len w; Some (CC_SUCCESS, w) } }
     | None \<Rightarrow> do {
         (t, w) \<leftarrow> cc_tunnel_create mp CC_TUNNEL_TYPE_TOKEN CC_TUNNEL_ENABLED peer_id peer_id_len
                    (Some (tunnel_id, tunnel_id_len)) w;
         Some (if t = None then CC_FAIL else CC_SUCCESS, w) } }"

section \<open>Reference counts\<close>

text \<open>
  The contract of a counted object: \<open>refs w a\<close> is the count of the object at \<open>a\<close>, \<open>None\<close> when it is freed.
  The release that brings the count to 0 frees the object; \<open>last_ok\<close> is what this last release needs.
  Acquiring or releasing a freed object is a fault.
\<close>

locale refcounted =
  fixes refs :: "'w \<Rightarrow> addr \<Rightarrow> u8 option"
    and acquire :: "addr \<Rightarrow> 'w \<Rightarrow> 'w option" and release :: "addr \<Rightarrow> 'w \<Rightarrow> 'w option"
    and last_ok :: "'w \<Rightarrow> addr \<Rightarrow> bool"
  assumes acquire_ok: "refs w a = Some n \<Longrightarrow>
        \<exists>w'. acquire a w = Some w' \<and> refs w' = (refs w)(a \<mapsto> n + 1) \<and> (last_ok w a \<longrightarrow> last_ok w' a)"
    and release_more: "refs w a = Some n \<Longrightarrow> n \<noteq> 1 \<Longrightarrow>
        \<exists>w'. release a w = Some w' \<and> refs w' = (refs w)(a \<mapsto> n - 1) \<and> (last_ok w a \<longrightarrow> last_ok w' a)"
    and release_last: "refs w a = Some 1 \<Longrightarrow> last_ok w a \<Longrightarrow>
        \<exists>w'. release a w = Some w' \<and> refs w' = (refs w)(a := None)"
    and freed: "refs w a = None \<Longrightarrow> acquire a w = None \<and> release a w = None"
begin

lemma acquire_times:
  assumes "refs w a = Some n"
  shows "\<exists>w'. times k (acquire a) w = Some w' \<and> refs w' = (refs w)(a \<mapsto> n + of_nat k) \<and> (last_ok w a \<longrightarrow> last_ok w' a)"
  using assms
proof (induction k arbitrary: w n)
  case 0
  then show ?case by (auto simp: fun_upd_idem)
next
  case (Suc k)
  obtain w1 where 1: "acquire a w = Some w1" "refs w1 = (refs w)(a \<mapsto> n + 1)" "last_ok w a \<longrightarrow> last_ok w1 a"
    using acquire_ok[OF Suc.prems] by blast
  then have "refs w1 a = Some (n + 1)" by simp
  from Suc.IH[OF this] 1 obtain w' where "times k (acquire a) w1 = Some w'"
    "refs w' = (refs w)(a \<mapsto> n + 1 + of_nat k)" "last_ok w a \<longrightarrow> last_ok w' a" by (metis fun_upd_upd)
  with 1(1) show ?case by (simp add: add.assoc fun_upd_def)
qed

text \<open>As long as the count does not get to 1 with a release to come, the object stays.\<close>

lemma release_times:
  assumes "refs w a = Some (of_nat n)" and "k < n" and "n < 256"
  shows "\<exists>w'. times k (release a) w = Some w' \<and> refs w' = (refs w)(a \<mapsto> of_nat (n - k)) \<and> (last_ok w a \<longrightarrow> last_ok w' a)"
  using assms
proof (induction k arbitrary: w n)
  case 0
  then show ?case by (auto simp: fun_upd_idem)
next
  case (Suc k)
  have "(of_nat n :: u8) \<noteq> 1"
  proof
    assume "(of_nat n :: u8) = 1"
    then have "unat (of_nat n :: u8) = 1" by simp
    with Suc.prems show False by (simp add: unat_of_nat)
  qed
  then obtain w1 where 1: "release a w = Some w1" "refs w1 = (refs w)(a \<mapsto> of_nat n - 1)" "last_ok w a \<longrightarrow> last_ok w1 a"
    using release_more[OF Suc.prems(1)] by blast
  then have "refs w1 a = Some (of_nat (n - 1))" using Suc.prems by (simp add: of_nat_diff)
  from Suc.IH[OF this] Suc.prems(2,3) 1 obtain w' where "times k (release a) w1 = Some w'"
    "refs w' = (refs w)(a \<mapsto> of_nat (n - 1 - k))" "last_ok w a \<longrightarrow> last_ok w' a"
    by (metis Suc_lessD Suc_less_eq Suc_pred' fun_upd_upd less_imp_diff_less zero_less_diff diff_less_mono2 less_nat_zero_code not_less_eq)
  with 1(1) show ?case by (simp add: fun_upd_def)
qed

lemma balanced:
  assumes "refs w a = Some 0" and "last_ok w a" and "0 < n" and "n < 256"
  shows "\<exists>w1 w2 w3. times n (acquire a) w = Some w1 \<and> times (n - 1) (release a) w1 = Some w2 \<and> refs w2 a = Some 1
     \<and> release a w2 = Some w3 \<and> refs w3 = (refs w)(a := None)"
proof -
  obtain w1 where 1: "times n (acquire a) w = Some w1" "refs w1 = (refs w)(a \<mapsto> of_nat n)" "last_ok w1 a"
    using acquire_times[OF assms(1), of n] assms(2) by auto
  then have "refs w1 a = Some (of_nat n)" by simp
  from release_times[OF this, of "n - 1"] assms(3,4) 1
  obtain w2 where 2: "times (n - 1) (release a) w1 = Some w2" "refs w2 = (refs w1)(a \<mapsto> 1)" "last_ok w2 a"
    by auto
  then obtain w3 where "release a w2 = Some w3" "refs w3 = (refs w2)(a := None)"
    using release_last[of w2 a] by auto
  with 1 2 show ?thesis by auto
qed

text \<open>The count is a byte: with 257 holders the first release frees the object.\<close>

lemma wrap:
  assumes "refs w a = Some 0" and "last_ok w a"
  shows "\<exists>w1 w2. times 257 (acquire a) w = Some w1 \<and> release a w1 = Some w2 \<and> refs w2 a = None
     \<and> release a w2 = None"
proof -
  obtain w1 where 1: "times 257 (acquire a) w = Some w1" "refs w1 a = Some 1" "last_ok w1 a"
    using acquire_times[OF assms(1), of 257] assms(2) by auto
  then obtain w2 where "release a w1 = Some w2" "refs w2 a = None"
    using release_last[of w1 a] by auto
  with 1 freed[of w2 a] show ?thesis by auto
qed

end

subsection \<open>Links\<close>

definition link_refs :: "world \<Rightarrow> addr \<Rightarrow> u8 option" where
  "link_refs w a = map_option l_ref_count (h_links w a)"

lemma link_acquire:
  "link_refs w a = Some n \<Longrightarrow> \<exists>w'. cc_link_add_ref (Some a) w = Some w' \<and> link_refs w' = (link_refs w)(a \<mapsto> n + 1)"
  by (auto simp: link_refs_def cc_link_add_ref_def upd_link_def fun_eq_iff)

lemma link_release:
  assumes "link_refs w a = Some n"
  shows "\<exists>w'. cc_link_remove_ref (Some a) w = Some w'
     \<and> link_refs w' = (link_refs w)(a := if n = 1 then None else Some (n - 1))"
  using assms by (auto simp: link_refs_def cc_link_remove_ref_def upd_link_def cc_link_free_def fun_eq_iff)

interpretation link: refcounted link_refs "\<lambda>a. cc_link_add_ref (Some a)" "\<lambda>a. cc_link_remove_ref (Some a)" "\<lambda>_ _. True"
proof
  show "link_refs w a = Some n \<Longrightarrow> \<exists>w'. cc_link_add_ref (Some a) w = Some w' \<and> link_refs w' = (link_refs w)(a \<mapsto> n + 1)
      \<and> (True \<longrightarrow> True)" for w a n
    using link_acquire by simp
  show "link_refs w a = Some n \<Longrightarrow> n \<noteq> 1 \<Longrightarrow> \<exists>w'. cc_link_remove_ref (Some a) w = Some w'
      \<and> link_refs w' = (link_refs w)(a \<mapsto> n - 1) \<and> (True \<longrightarrow> True)" for w a n
    using link_release[of w a n] by simp
  show "link_refs w a = Some 1 \<Longrightarrow> True \<Longrightarrow> \<exists>w'. cc_link_remove_ref (Some a) w = Some w'
      \<and> link_refs w' = (link_refs w)(a := None)" for w a
    using link_release[of w a 1] by simp
  show "link_refs w a = None \<Longrightarrow> cc_link_add_ref (Some a) w = None \<and> cc_link_remove_ref (Some a) w = None" for w a
    by (simp add: link_refs_def cc_link_add_ref_def cc_link_remove_ref_def upd_link_def)
qed

subsection \<open>Tunnels\<close>

definition tunnel_refs :: "world \<Rightarrow> addr \<Rightarrow> u8 option" where
  "tunnel_refs w a = map_option t_ref_count (h_tunnels w a)"

text \<open>
  What the last release of a tunnel needs: its link is there, and when the destruction is announced the
  message fits whatever its identifier is.
\<close>

definition tunnel_last_ok :: "mp \<Rightarrow> world \<Rightarrow> addr \<Rightarrow> bool" where
  "tunnel_last_ok mp w a = (case h_tunnels w a of None \<Rightarrow> False
     | Some t \<Rightarrow> (case get_link w (t_link t) of None \<Rightarrow> False
        | Some l \<Rightarrow> (n_state w = CC_NODE_DO_SLEEP \<or> n_transport_client w = None
             \<or> (\<forall>u. key_of 42 u \<longrightarrow> fits_prefixed 1000 (msg_tunnel_destroy mp (n_id w) (l_peer_id l) (t_id t) u) w))))"

lemma tunnel_acquire:
  assumes "tunnel_refs w a = Some n"
  shows "\<exists>w'. cc_tunnel_add_ref (Some a) w = Some w' \<and> tunnel_refs w' = (tunnel_refs w)(a \<mapsto> n + 1)
     \<and> (tunnel_last_ok mp w a \<longrightarrow> tunnel_last_ok mp w' a)"
  using assms
  by (auto simp: tunnel_refs_def cc_tunnel_add_ref_def upd_tunnel_def fun_eq_iff tunnel_last_ok_def get_link_def
      fits_prefixed_def fits_def split: option.splits)

lemma tunnel_release_more:
  assumes "tunnel_refs w a = Some n" and "n \<noteq> 1"
  shows "\<exists>w'. cc_tunnel_remove_ref mp (Some a) w = Some w' \<and> tunnel_refs w' = (tunnel_refs w)(a \<mapsto> n - 1)
     \<and> (tunnel_last_ok mp w a \<longrightarrow> tunnel_last_ok mp w' a)"
proof -
  obtain t where t: "h_tunnels w a = Some t" "t_ref_count t = n" using assms(1) by (auto simp: tunnel_refs_def)
  let ?w = "w\<lparr>h_tunnels := (h_tunnels w)(a \<mapsto> t\<lparr>t_ref_count := n - 1\<rparr>)\<rparr>"
  have "cc_tunnel_remove_ref mp (Some a) w = Some ?w"
    using t assms(2) by (simp add: cc_tunnel_remove_ref_def upd_tunnel_def del: bind_Some_iff)
  moreover have "tunnel_refs ?w = (tunnel_refs w)(a \<mapsto> n - 1)" by (simp add: tunnel_refs_def fun_eq_iff)
  moreover have "tunnel_last_ok mp w a \<Longrightarrow> tunnel_last_ok mp ?w a"
    using t(1) by (auto simp: tunnel_last_ok_def get_link_def fits_prefixed_def fits_def split: option.splits)
  ultimately show ?thesis by blast
qed

lemma send_tunnel_destroy_same:
  assumes "cc_proto_send_tunnel_destroy mp a t h w = Some (r, w')"
  shows "same_node w w'"
proof -
  obtain u w1 where g: "cc_gen_uuid (Some ''MSGID_'') w = (u, w1)" by (cases "cc_gen_uuid (Some ''MSGID_'') w")
  obtain b where "send_pending 1000 b u h (MD_tunnel_id a) w1 = Some (r, w')"
    using assms g by (auto simp: cc_proto_send_tunnel_destroy_def)
  from send_pending_same[OF this] same_node_env gen_uuid_more[OF g] same_node_trans show ?thesis by blast
qed

lemma send_tunnel_destroy_returns:
  assumes "get_link w (t_link t) = Some l"
    and "\<And>u. key_of 42 u \<Longrightarrow> fits_prefixed 1000 (msg_tunnel_destroy mp (n_id w) (l_peer_id l) (t_id t) u) w"
  shows "\<exists>r w'. cc_proto_send_tunnel_destroy mp a t h w = Some (r, w')"
proof -
  obtain u w1 where g: "cc_gen_uuid (Some ''MSGID_'') w = (u, w1)" by (cases "cc_gen_uuid (Some ''MSGID_'') w")
  have u: "key_of 42 u" using gen_uuid_key[of w] g by simp
  note f = node_eqD[of w1 w] gen_uuid_more[OF g]
  have "fits_prefixed 1000 (msg_tunnel_destroy mp (n_id w1) (l_peer_id l) (t_id t) u) w1"
    using assms(2)[OF u] f by (simp add: fits_prefixed_def fits_def)
  moreover have "get_link w1 (t_link t) = Some l" using assms(1) f by (simp add: get_link_def)
  ultimately show ?thesis using g send_pending_returns by (simp add: cc_proto_send_tunnel_destroy_def)
qed

lemma link_remove_ref_tunnels: "cc_link_remove_ref p w = Some w' \<Longrightarrow> h_tunnels w' = h_tunnels w"
  by (auto simp: cc_link_remove_ref_def upd_link_def cc_link_free_def split: option.splits if_splits)

lemma tunnel_free_refs:
  assumes "h_tunnels w a = Some t" and "get_link w (t_link t) = Some l"
  shows "\<exists>w'. cc_tunnel_free (Some a) True w = Some w' \<and> h_tunnels w' = (h_tunnels w)(a := None)"
proof -
  obtain b where b: "t_link t = Some b" "h_links w b = Some l" using assms(2) by (auto simp: get_link_def)
  then obtain w1 where "cc_link_remove_ref (Some b) w = Some w1"
    using link_release[of w b] by (auto simp: link_refs_def)
  with b assms(1) link_remove_ref_tunnels[OF this] show ?thesis by (simp add: cc_tunnel_free_def)
qed

lemma tunnel_release_last:
  assumes "tunnel_refs w a = Some 1" and "tunnel_last_ok mp w a"
  shows "\<exists>w'. cc_tunnel_remove_ref mp (Some a) w = Some w' \<and> tunnel_refs w' = (tunnel_refs w)(a := None)"
proof -
  obtain t where t: "h_tunnels w a = Some t" "t_ref_count t = 1" using assms(1) by (auto simp: tunnel_refs_def)
  obtain l where l: "get_link w (t_link t) = Some l" using assms(2) t(1) by (auto simp: tunnel_last_ok_def split: option.splits)
  let ?t = "t\<lparr>t_ref_count := 0\<rparr>" and ?w = "w\<lparr>h_tunnels := (h_tunnels w)(a \<mapsto> t\<lparr>t_ref_count := 0\<rparr>)\<rparr>"
  let ?send = "n_state w \<noteq> CC_NODE_DO_SLEEP \<and> n_transport_client w \<noteq> None"
  have "\<exists>w1. (if ?send then do { (r, w) \<leftarrow> cc_proto_send_tunnel_destroy mp a ?t tunnel_destroy_handler ?w; Some w }
       else Some ?w) = Some w1 \<and> same_node ?w w1"
  proof (cases ?send)
    case True
    have "\<exists>r w'. cc_proto_send_tunnel_destroy mp a ?t tunnel_destroy_handler ?w = Some (r, w')"
      using assms(2) t(1) l True
      by (intro send_tunnel_destroy_returns[of _ _ l])
        (auto simp: tunnel_last_ok_def get_link_def fits_prefixed_def fits_def split: option.splits)
    with True send_tunnel_destroy_same show ?thesis by fastforce
  next
    case False
    then show ?thesis by (simp only: if_False same_node_refl) simp
  qed
  then obtain w1 where w1: "(if ?send then do { (r, w) \<leftarrow> cc_proto_send_tunnel_destroy mp a ?t tunnel_destroy_handler ?w; Some w }
       else Some ?w) = Some w1" "same_node ?w w1" by blast
  have "h_tunnels w1 a = Some ?t" "get_link w1 (t_link ?t) = Some l"
    using same_nodeD[OF w1(2)] l by (simp_all add: get_link_def)
  from tunnel_free_refs[OF this] obtain w2 where
    "cc_tunnel_free (Some a) True w1 = Some w2" "h_tunnels w2 = (h_tunnels w1)(a := None)" by blast
  moreover have "cc_tunnel_remove_ref mp (Some a) w = cc_tunnel_free (Some a) True w1"
    using t w1(1) by (simp add: cc_tunnel_remove_ref_def upd_tunnel_def del: bind_Some_iff)
  ultimately show ?thesis using same_nodeD(2)[OF w1(2)] by (auto simp: tunnel_refs_def fun_eq_iff)
qed

interpretation tunnel: refcounted tunnel_refs "\<lambda>a. cc_tunnel_add_ref (Some a)" "\<lambda>a. cc_tunnel_remove_ref mp (Some a)"
  "tunnel_last_ok mp"
proof
  show "tunnel_refs w a = None \<Longrightarrow> cc_tunnel_add_ref (Some a) w = None \<and> cc_tunnel_remove_ref mp (Some a) w = None" for w a
    by (simp add: tunnel_refs_def cc_tunnel_add_ref_def cc_tunnel_remove_ref_def upd_tunnel_def)
qed (rule tunnel_acquire tunnel_release_more tunnel_release_last; assumption)+

section \<open>Links live as long as their tunnels\<close>

text \<open>
  The invariant that ties the two heaps together: every tunnel has a link that is allocated, and the
  count of a link is the number of the tunnels over it. The counts are bytes, so this needs fewer than
  256 tunnels. Addresses from \<open>h_next\<close> on are free.
\<close>

definition users :: "(addr \<rightharpoonup> cc_tunnel) \<Rightarrow> addr \<Rightarrow> addr set" where
  "users T b = {a. \<exists>t. T a = Some t \<and> t_link t = Some b}"

definition linked :: "(addr \<rightharpoonup> cc_link) \<Rightarrow> cc_tunnel \<Rightarrow> bool" where
  "linked L t = (case t_link t of None \<Rightarrow> False | Some b \<Rightarrow> L b \<noteq> None)"

definition net_maps :: "(addr \<rightharpoonup> cc_link) \<Rightarrow> (addr \<rightharpoonup> cc_tunnel) \<Rightarrow> addr \<Rightarrow> bool" where
  "net_maps L T n = (finite (dom T) \<and> card (dom T) < 256 \<and> (\<forall>a. n \<le> a \<longrightarrow> L a = None \<and> T a = None)
     \<and> (\<forall>a t. T a = Some t \<longrightarrow> linked L t)
     \<and> (\<forall>b l. L b = Some l \<longrightarrow> unat (l_ref_count l) = card (users T b)))"

definition net_inv :: "world \<Rightarrow> bool" where
  "net_inv w = net_maps (h_links w) (h_tunnels w) (h_next w)"

lemma linked_Some: "linked L t \<longleftrightarrow> (\<exists>b l. t_link t = Some b \<and> L b = Some l)"
  by (auto simp: linked_def split: option.splits)

lemma linked_upd: "linked L t \<Longrightarrow> linked (L(b \<mapsto> l)) t"
  by (simp add: linked_def split: option.splits)

lemma users_dom: "users T b \<subseteq> dom T"
  by (auto simp: users_def)

lemma users_insert: "t_link t = Some b \<Longrightarrow> T a = None \<Longrightarrow> users (T(a \<mapsto> t)) c = (if c = b then insert a (users T b) else users T c)"
  by (auto simp: users_def)

lemma users_update: "T a = Some t \<Longrightarrow> t_link t' = t_link t \<Longrightarrow> users (T(a \<mapsto> t')) c = users T c"
  by (auto simp: users_def)

lemma users_delete: "T a = Some t \<Longrightarrow> t_link t = Some b \<Longrightarrow> users (T(a := None)) c = (if c = b then users T b - {a} else users T c)"
  by (auto simp: users_def)

lemma net_maps_next: "net_maps L T n \<Longrightarrow> n \<le> m \<Longrightarrow> net_maps L T m"
  by (simp add: net_maps_def)

lemma net_maps_new_link:
  assumes "net_maps L T n" and "l_ref_count l = 0"
  shows "net_maps (L(n \<mapsto> l)) T (Suc n)"
proof -
  have "users T n = {}" using assms(1) by (fastforce simp: net_maps_def users_def linked_Some)
  with assms show ?thesis by (auto simp: net_maps_def linked_upd)
qed

lemma net_maps_new_tunnel:
  assumes "net_maps L T n" and "L b = Some l" and "t_link t = Some b" and "card (dom T) < 255"
  shows "net_maps (L(b \<mapsto> l\<lparr>l_ref_count := l_ref_count l + 1\<rparr>)) (T(n \<mapsto> t)) (Suc n)"
proof -
  have fresh: "T n = None" "L n = None" and fin: "finite (dom T)" using assms(1) by (simp_all add: net_maps_def)
  have "b \<noteq> n" using fresh(2) assms(2) by auto
  have cnt: "unat (l_ref_count l) = card (users T b)" using assms(1,2) by (auto simp: net_maps_def)
  have "card (users T b) < 255" using card_mono[OF fin users_dom] assms(4) le_less_trans by blast
  then have inc: "unat (l_ref_count l + 1) = Suc (card (users T b))"
    using cnt by (simp add: unat_word_ariths)
  have "n \<notin> users T b" using fresh(1) by (simp add: users_def)
  moreover have "finite (users T b)" using fin users_dom finite_subset by blast
  ultimately have card: "card (insert n (users T b)) = Suc (card (users T b))" by simp
  have "card (dom (T(n \<mapsto> t))) = Suc (card (dom T))" using fresh(1) fin by (simp add: domIff)
  moreover have "linked (L(b \<mapsto> m)) t" for m using assms(3) by (simp add: linked_def)
  ultimately show ?thesis using assms fresh fin \<open>b \<noteq> n\<close> inc card
    by (auto simp: net_maps_def users_insert[of t b] linked_upd simp del: fun_upd_apply)
      (auto simp: linked_upd split: if_splits)
qed

lemma net_maps_update:
  "net_maps L T n \<Longrightarrow> T a = Some t \<Longrightarrow> t_link t' = t_link t \<Longrightarrow> net_maps L (T(a \<mapsto> t')) n"
  by (auto simp: net_maps_def users_update[of T a t] insert_absorb domI) (metis linked_def)

lemma net_maps_free:
  assumes "net_maps L T n" and "T a = Some t" and "t_link t = Some b" and "L b = Some l"
  shows "net_maps (L(b := if l_ref_count l = 1 then None else Some (l\<lparr>l_ref_count := l_ref_count l - 1\<rparr>))) (T(a := None)) n"
proof -
  have fin: "finite (users T b)" using assms(1) users_dom finite_subset by (fastforce simp: net_maps_def)
  have a: "a \<in> users T b" using assms(2,3) by (auto simp: users_def)
  have cnt: "unat (l_ref_count l) = card (users T b)" using assms(1,4) by (auto simp: net_maps_def)
  then have pos: "l_ref_count l \<noteq> 0" using a fin by auto
  have one: "l_ref_count l = 1 \<Longrightarrow> users T b = {a}"
    using cnt a by (metis card_1_singletonE singletonD unat_1)
  have dec: "unat (l_ref_count l - 1) = card (users T b - {a})"
    using pos cnt a fin by (simp add: unat_minus_one)
  have "card (dom T - {a}) < 256" using assms(1) card_Diff1_le[of "dom T" a] by (auto simp: net_maps_def)
  moreover have "linked (L(b := None)) s" if "T c = Some s" "c \<noteq> a" "l_ref_count l = 1" for c s
  proof -
    have "c \<notin> users T b" using one that by auto
    then have "t_link s \<noteq> Some b" using that(1) by (auto simp: users_def)
    moreover have "linked L s" using assms(1) that(1) by (simp add: net_maps_def)
    ultimately show ?thesis by (auto simp: linked_def split: option.splits)
  qed
  ultimately show ?thesis using assms dec
    by (auto simp: net_maps_def users_delete[of T a t b] linked_upd simp del: fun_upd_apply)
      (auto simp: linked_upd split: if_splits)
qed

lemma net_inv_same: "same_node w w' \<Longrightarrow> net_inv w' = net_inv w"
  using same_nodeD[of w w'] by (simp add: net_inv_def)

lemma strncmp0_cstr_take: "strncmp0 (cstr (take n p)) p n"
proof (induction n arbitrary: p)
  case (Suc n)
  then show ?case by (cases p) (auto simp: cstr_def)
qed simp

lemma link_search_live: "link_search w ls p n = Some (Some a) \<Longrightarrow> \<exists>l. h_links w a = Some l \<and> strncmp0 (l_peer_id l) p n"
  by (induction w ls p n rule: link_search.induct) (auto split: if_splits)

text \<open>A link that is made is either an old one or a new one without tunnels.\<close>

lemma link_create_cases:
  assumes "cc_link_create p n x w = Some (r, w')"
  obtains (none) "r = None" "h_links w' = h_links w" "h_next w \<le> h_next w'" "h_tunnels w' = h_tunnels w"
    | (old) a l where "r = Some a" "w' = w" "h_links w a = Some l" "strncmp0 (l_peer_id l) p (unat n)"
    | (new) l where "r = Some (h_next w)" "h_next w' = Suc (h_next w)" "l_ref_count l = 0"
        "h_links w' = (h_links w)(h_next w \<mapsto> l)" "strncmp0 (l_peer_id l) p (unat n)"
        "h_tunnels w' = h_tunnels w" "n_tunnels w' = n_tunnels w"
proof -
  obtain q where q: "cc_link_get p n w = Some q" using assms by (auto simp: cc_link_create_def)
  show thesis
  proof (cases q)
    case (Some a)
    then obtain l where "h_links w a = Some l" "strncmp0 (l_peer_id l) p (unat n)"
      using q link_search_live by (force simp: cc_link_get_def)
    with Some q assms show thesis by (intro old) (auto simp: cc_link_create_def)
  next
    case None
    obtain b w1 where m: "mem_alloc w = (b, w1)" by (cases "mem_alloc w")
    note f = node_eqD[of w1 w] mem_alloc_more[OF m]
    show thesis
    proof (cases b)
      case False
      then show thesis using m q None assms f by (intro none) (auto simp: cc_link_create_def)
    next
      case True
      let ?s = "cstr (take (unat n) p)"
      have "unat n < CC_UUID_BUFFER_SIZE"
        using assms q None m True by (auto simp: cc_link_create_def strncpy_over_def split: if_splits)
      then have s: "strncpy_over CC_UUID_BUFFER_SIZE [] p (unat n) = Some ?s" by (rule strncpy_over_empty)
      let ?w1 = "w1\<lparr>h_next := h_next w + 1\<rparr>"
      obtain y ls w2 where a: "cc_list_add (n_links ?w1) ?s (h_next w) 0 ?w1 = (y, ls, w2)" by (metis prod_cases3)
      have g: "h_links w2 = h_links w" "h_next w2 = Suc (h_next w)" "h_tunnels w2 = h_tunnels w" "n_tunnels w2 = n_tunnels w"
        using node_eqD[of w2 ?w1] list_add_more[OF a[unfolded cc_list_add_def]] f by simp_all
      show thesis
      proof (cases y)
        case y: None
        then show thesis using assms q None m True s a f g by (intro none) (auto simp: cc_link_create_def Let_def)
      next
        case y: (Some z)
        show thesis
          by (rule new[of "\<lparr>l_peer_id = ?s, l_ref_count = 0, l_is_proxy = x\<rparr>"])
            (use assms q None m True s a y f g strncmp0_cstr_take in \<open>auto simp: cc_link_create_def Let_def\<close>)
      qed
    qed
  qed
qed

lemma link_create_net:
  assumes "net_inv w" and "cc_link_create p n x w = Some (r, w')"
  shows "net_inv w'"
  using assms(2)
proof (cases rule: link_create_cases)
  case none
  then show ?thesis using assms(1) net_maps_next by (auto simp: net_inv_def)
next
  case (new l)
  then show ?thesis using assms(1) net_maps_new_link by (simp add: net_inv_def)
qed (use assms(1) in simp)

lemma tunnel_create_link_cases:
  assumes "tunnel_create_link p n w = Some (r, w')"
  obtains (old) a l where "r = Some a" "w' = w" "h_links w a = Some l" "strncmp0 (l_peer_id l) p (unat n)"
    | (create) x where "cc_link_create p n x w = Some (r, w')"
proof -
  obtain q where q: "cc_link_get p n w = Some q" using assms by (auto simp: tunnel_create_link_def)
  show thesis
  proof (cases q)
    case (Some a)
    then obtain l where "h_links w a = Some l" "strncmp0 (l_peer_id l) p (unat n)"
      using q link_search_live by (force simp: cc_link_get_def)
    with Some q assms show thesis by (intro old) (auto simp: tunnel_create_link_def)
  next
    case None
    with q assms show thesis by (auto simp: tunnel_create_link_def intro: create)
  qed
qed

text \<open>The link of a new tunnel is allocated and belongs to the peer.\<close>

lemma tunnel_create_link_net:
  assumes "net_inv w" and "tunnel_create_link p n w = Some (r, w')"
  shows "net_inv w'" and "h_tunnels w' = h_tunnels w"
    and "r = Some a \<Longrightarrow> \<exists>l. h_links w' a = Some l \<and> strncmp0 (l_peer_id l) p (unat n) \<and> n_tunnels w' = n_tunnels w"
    and "h_links w b = Some k \<Longrightarrow> h_links w' b = Some k"
proof -
  have "net_inv w' \<and> h_tunnels w' = h_tunnels w
     \<and> (r = Some a \<longrightarrow> (\<exists>l. h_links w' a = Some l \<and> strncmp0 (l_peer_id l) p (unat n) \<and> n_tunnels w' = n_tunnels w))
     \<and> (h_links w b = Some k \<longrightarrow> h_links w' b = Some k)"
    using assms(2)
  proof (cases rule: tunnel_create_link_cases)
    case (old a l)
    then show ?thesis using assms(1) by auto
  next
    case (create x)
    have "h_links w (h_next w) = None" using assms(1) by (simp add: net_inv_def net_maps_def)
    with create link_create_net[OF assms(1) create] show ?thesis
      by (cases rule: link_create_cases) auto
  qed
  then show "net_inv w'" "h_tunnels w' = h_tunnels w"
    "r = Some a \<Longrightarrow> \<exists>l. h_links w' a = Some l \<and> strncmp0 (l_peer_id l) p (unat n) \<and> n_tunnels w' = n_tunnels w"
    "h_links w b = Some k \<Longrightarrow> h_links w' b = Some k" by auto
qed

lemma send_tunnel_request_same:
  assumes "cc_proto_send_tunnel_request mp a t h w = Some (r, w')"
  shows "same_node w w'"
proof -
  obtain u w1 where g: "cc_gen_uuid (Some ''MSGID_'') w = (u, w1)" by (cases "cc_gen_uuid (Some ''MSGID_'') w")
  obtain b where "send_pending 1000 b u h (MD_tunnel a) w1 = Some (r, w')"
    using assms g by (auto simp: cc_proto_send_tunnel_request_def)
  from send_pending_same[OF this] same_node_env gen_uuid_more[OF g] same_node_trans show ?thesis by blast
qed


lemma tunnel_build_cases:
  assumes "net_inv w" and "tunnel_build mp ty st b tid w = Some (r, w')"
  obtains (fail) "r = None" "net_inv w'"
    | (new) l t i where "r = Some (h_next w)" "h_links w b = Some l"
        "t_link t = Some b" "t_type t = ty" "t_state t = (if st = CC_TUNNEL_ENABLED then CC_TUNNEL_ENABLED else CC_TUNNEL_PENDING)"
        "h_tunnels w' = (h_tunnels w)(h_next w \<mapsto> t)"
        "h_links w' = (h_links w)(b \<mapsto> l\<lparr>l_ref_count := l_ref_count l + 1\<rparr>)"
        "h_next w' = Suc (h_next w)" "n_tunnels w' = n_tunnels w @ [i]" "li_data i = h_next w"
        "\<And>s k. tid = Some (s, k) \<Longrightarrow> t_id t = cstr (take (unat k) s)"
proof -
  let ?w = "w\<lparr>h_next := h_next w + 1\<rparr>"
  obtain i w1 where i: "tunnel_new_id tid ?w = Some (i, w1)"
    using assms(2) by (auto simp: tunnel_build_def Let_def)
  let ?t = "\<lparr>t_id = i, t_link = Some b, t_state = st, t_ref_count = 0, t_type = ty\<rparr>"
  obtain ra t w2 where ann: "tunnel_announce mp (h_next w) ?t w1 = Some (ra, t, w2)"
    using assms(2) i by (auto simp: tunnel_build_def Let_def)
  have t: "t_link t = Some b" "t_type t = ty"
    "t_state t = (if st = CC_TUNNEL_ENABLED then CC_TUNNEL_ENABLED else CC_TUNNEL_PENDING)"
    using ann by (auto simp: tunnel_announce_def split: if_splits)
  have tid: "t_id t = cstr (take (unat k) s)" if "tid = Some (s, k)" for s k
    using that i ann by (auto simp: tunnel_new_id_def strncpy_term_def tunnel_announce_def split: if_splits)
  have "same_node ?w w1"
    using i by (cases tid) (auto simp: tunnel_new_id_def dest!: gen_uuid_more intro!: same_node_env)
  moreover have "same_node w1 w2"
    using ann send_tunnel_request_same by (auto simp: tunnel_announce_def split: if_splits)
  ultimately have "same_node ?w w2" by (rule same_node_trans)
  note f = same_nodeD[OF this]
  have inv2: "net_maps (h_links w) (h_tunnels w) (Suc (h_next w))"
    using assms(1) net_maps_next by (simp add: net_inv_def)
  have reg: "(if ra \<noteq> CC_SUCCESS then Some (None, w2) else tunnel_register (h_next w) b t w2) = Some (r, w')"
    using assms(2) i ann by (auto simp: tunnel_build_def Let_def)
  show thesis
  proof (cases "ra = CC_SUCCESS")
    case False
    with reg f inv2 show thesis by (intro fail) (auto simp: net_inv_def)
  next
    case True
    obtain y ts w3 where a: "cc_list_add (n_tunnels w2) (t_id t) (h_next w) 0 w2 = (y, ts, w3)" by (metis prod_cases3)
    note g = node_eqD[OF conjunct1[OF list_add_more[OF a[unfolded cc_list_add_def]]]]
    show thesis
    proof (cases y)
      case None
      with True reg a f g inv2 show thesis by (intro fail) (auto simp: net_inv_def tunnel_register_def)
    next
      case (Some it)
      then have it: "ts = n_tunnels w @ [it]" "li_data it = h_next w"
        using a f by (auto simp: cc_list_add_def cc__list_add_def Let_def split: prod.splits bool.splits)
      obtain l where l: "h_links w b = Some l"
        using reg True a Some f g by (auto simp: tunnel_register_def cc_link_add_ref_def upd_link_def)
      show thesis
        by (rule new[of l t it]) (use reg True a Some f g l t it tid in
            \<open>auto simp: tunnel_register_def cc_link_add_ref_def upd_link_def\<close>)
    qed
  qed
qed

text \<open>
  \<open>cc_tunnel_create\<close> finds a tunnel, or makes one over a link to the peer, with the count of the link
  raised by one, or fails.
\<close>

lemma tunnel_create_cases:
  assumes "net_inv w" and "cc_tunnel_create mp ty st p n tid w = Some (r, w')"
  obtains (old) a where "r = Some a" "w' = w" "cc_tunnel_get_from_peerid_and_type p (unat n) ty w = Some (Some a)"
    | (fail) "r = None" "net_inv w'"
    | (new) w1 b l t i where "r = Some (h_next w1)" "net_inv w1" "h_tunnels w1 = h_tunnels w"
        "n_tunnels w1 = n_tunnels w" "\<And>c k. h_links w c = Some k \<Longrightarrow> h_links w1 c = Some k"
        "h_links w1 b = Some l" "strncmp0 (l_peer_id l) p (unat n)"
        "t_link t = Some b" "t_type t = ty" "t_state t = (if st = CC_TUNNEL_ENABLED then CC_TUNNEL_ENABLED else CC_TUNNEL_PENDING)"
        "h_tunnels w' = (h_tunnels w1)(h_next w1 \<mapsto> t)"
        "h_links w' = (h_links w1)(b \<mapsto> l\<lparr>l_ref_count := l_ref_count l + 1\<rparr>)"
        "h_next w' = Suc (h_next w1)" "n_tunnels w' = n_tunnels w @ [i]" "li_data i = h_next w1"
        "cc_tunnel_get_from_peerid_and_type p (unat n) ty w = Some None"
        "\<And>s k. tid = Some (s, k) \<Longrightarrow> t_id t = cstr (take (unat k) s)"
proof -
  obtain q where q: "cc_tunnel_get_from_peerid_and_type p (unat n) ty w = Some q"
    using assms(2) by (auto simp: cc_tunnel_create_def)
  show thesis
  proof (cases q)
    case (Some a)
    with q assms(2) show thesis by (intro old) (auto simp: cc_tunnel_create_def)
  next
    case None
    obtain lk w1 where c: "tunnel_create_link p n w = Some (lk, w1)"
      using q None assms(2) by (auto simp: cc_tunnel_create_def)
    note C = tunnel_create_link_net[OF assms(1) c]
    show thesis
    proof (cases lk)
      case lk: None
      with q None c assms(2) C(1) show thesis by (intro fail) (auto simp: cc_tunnel_create_def)
    next
      case lk: (Some b)
      obtain l where l: "h_links w1 b = Some l" "strncmp0 (l_peer_id l) p (unat n)" "n_tunnels w1 = n_tunnels w"
        using C(3)[OF lk] by blast
      obtain ok w2 where m: "mem_alloc w1 = (ok, w2)" by (cases "mem_alloc w1")
      note f2 = node_eqD[OF conjunct1[OF mem_alloc_more[OF m]]]
      have n2: "net_inv w2" using C(1) f2 by (simp add: net_inv_def)
      show thesis
      proof (cases ok)
        case False
        with q None c lk m assms(2) n2 show thesis by (intro fail) (auto simp: cc_tunnel_create_def)
      next
        case True
        then have "tunnel_build mp ty st b tid w2 = Some (r, w')"
          using assms(2) q None c lk m by (auto simp: cc_tunnel_create_def)
        with n2 show thesis
        proof (cases rule: tunnel_build_cases)
          case B: (new l' t i)
          then have "l' = l" using l(1) f2 by simp
          with B show thesis using n2 l C f2 q None by (intro new[of w2 b l t i]) auto
        qed (rule fail)
      qed
    qed
  qed
qed

lemma tunnel_create_net:
  assumes "net_inv w" and "card (dom (h_tunnels w)) < 255" and "cc_tunnel_create mp ty st p n tid w = Some (r, w')"
  shows "net_inv w'"
  using assms(1,3)
proof (cases rule: tunnel_create_cases)
  case (new w1 b l t i)
  have "net_maps (h_links w1) (h_tunnels w1) (h_next w1)" using new(2) by (simp add: net_inv_def)
  from net_maps_new_tunnel[OF this new(6,8)] new assms(2) show ?thesis by (simp add: net_inv_def)
qed (use assms(1) in simp_all)

lemma set_tunnel_id_net: "net_inv w \<Longrightarrow> set_tunnel_id a s w = Some w' \<Longrightarrow> net_inv w'"
  using net_maps_update by (fastforce simp: net_inv_def set_tunnel_id_def upd_tunnel_def)

lemma upd_tunnel_net:
  assumes "net_inv w" and "upd_tunnel a f w = Some w'" and "\<And>t. t_link (f t) = t_link t"
  shows "net_inv w'"
  using assms net_maps_update by (fastforce simp: net_inv_def upd_tunnel_def)

lemma tunnel_free_net:
  assumes "net_inv w" and "cc_tunnel_free (Some a) True w = Some w'"
  shows "net_inv w'"
proof -
  obtain t where t: "h_tunnels w a = Some t" using assms(2) by (auto simp: cc_tunnel_free_def)
  then obtain b l where b: "t_link t = Some b" "h_links w b = Some l"
    using assms(1) unfolding net_inv_def net_maps_def linked_Some by blast
  have "h_links w' = (h_links w)(b := if l_ref_count l = 1 then None else Some (l\<lparr>l_ref_count := l_ref_count l - 1\<rparr>))
      \<and> h_tunnels w' = (h_tunnels w)(a := None) \<and> h_next w' = h_next w"
    using assms(2) t b by (auto simp: cc_tunnel_free_def cc_link_remove_ref_def upd_link_def cc_link_free_def split: if_splits)
  then show ?thesis using net_maps_free[of "h_links w" "h_tunnels w" "h_next w" a t b l] t b assms(1) by (simp add: net_inv_def)
qed

lemma tunnel_remove_ref_net:
  assumes "net_inv w" and "cc_tunnel_remove_ref mp (Some a) w = Some w'"
  shows "net_inv w'"
proof -
  obtain w1 t where u: "upd_tunnel a (\<lambda>t. t\<lparr>t_ref_count := t_ref_count t - 1\<rparr>) w = Some w1" "h_tunnels w1 a = Some t"
    using assms(2) by (auto simp: cc_tunnel_remove_ref_def)
  have n1: "net_inv w1" by (rule upd_tunnel_net[OF assms(1) u(1)]) simp
  show ?thesis
  proof (cases "t_ref_count t = 0")
    case False
    with assms(2) u n1 show ?thesis by (auto simp: cc_tunnel_remove_ref_def)
  next
    case True
    then obtain w2 where "cc_tunnel_free (Some a) True w2 = Some w'" "same_node w1 w2"
      using assms(2) u send_tunnel_destroy_same by (fastforce simp: cc_tunnel_remove_ref_def split: if_splits)
    with n1 net_inv_same tunnel_free_net show ?thesis by blast
  qed
qed

lemma set_state_net: "upd_tunnel a (t_state_update (\<lambda>_. s)) w = Some w' \<Longrightarrow> net_inv w \<Longrightarrow> net_inv w'"
  using upd_tunnel_net by simp

lemmas net_steps = set_state_net set_tunnel_id_net[rotated]

lemma tunnel_reply_status_net: "net_inv w \<Longrightarrow> always net_inv (tunnel_reply_status a st i k w)"
  by (auto simp: tunnel_reply_status_def intro!: alwaysI dest!: net_steps)

lemma tunnel_accept_net: "net_inv w \<Longrightarrow> always net_inv (tunnel_accept a i k w)"
  unfolding tunnel_accept_def by (auto intro!: alwaysI dest!: net_steps)

lemma tunnel_reply_net:
  assumes "net_inv w"
  shows "always (\<lambda>(r, w'). net_inv w') (handle_tunnel_request_reply mp d w)"
  unfolding handle_tunnel_request_reply_def
  using assms by (auto intro!: alwaysI split: option.splits dest!: alwaysD[OF tunnel_reply_status_net[OF assms]])

lemma tunnel_new_request_net:
  assumes "net_inv w" and "card (dom (h_tunnels w)) < 255"
  shows "always (\<lambda>(r, w'). net_inv w') (cc_tunnel_handle_tunnel_new_request mp p n i k w)"
  unfolding cc_tunnel_handle_tunnel_new_request_def
  using assms(1)
  by (auto intro!: alwaysI split: option.splits dest: alwaysD[OF tunnel_accept_net[OF assms(1)]] tunnel_create_net[OF assms])

text \<open>Everything that happens to links and tunnels, in any order.\<close>

inductive net_run :: "mp \<Rightarrow> world \<Rightarrow> world \<Rightarrow> bool" for mp where
  start: "net_run mp w w"
| create: "net_run mp w w1 \<Longrightarrow> card (dom (h_tunnels w1)) < 255 \<Longrightarrow>
    cc_tunnel_create mp ty st p n tid w1 = Some (r, w2) \<Longrightarrow> net_run mp w w2"
| new_request: "net_run mp w w1 \<Longrightarrow> card (dom (h_tunnels w1)) < 255 \<Longrightarrow>
    cc_tunnel_handle_tunnel_new_request mp p n i k w1 = Some (res, w2) \<Longrightarrow> net_run mp w w2"
| reply: "net_run mp w w1 \<Longrightarrow> handle_tunnel_request_reply mp d w1 = Some (res, w2) \<Longrightarrow> net_run mp w w2"
| add_ref: "net_run mp w w1 \<Longrightarrow> cc_tunnel_add_ref (Some a) w1 = Some w2 \<Longrightarrow> net_run mp w w2"
| remove_ref: "net_run mp w w1 \<Longrightarrow> cc_tunnel_remove_ref mp (Some a) w1 = Some w2 \<Longrightarrow> net_run mp w w2"
| other: "net_run mp w w1 \<Longrightarrow> same_node w1 w2 \<Longrightarrow> net_run mp w w2"

lemma net_run_inv: "net_run mp w w' \<Longrightarrow> net_inv w \<Longrightarrow> net_inv w'"
proof (induction rule: net_run.induct)
  case (add_ref w w1 a w2)
  then show ?case using upd_tunnel_net[of w1 a "\<lambda>t. t\<lparr>t_ref_count := t_ref_count t + 1\<rparr>"]
    by (simp add: cc_tunnel_add_ref_def)
qed (auto dest: tunnel_create_net alwaysD[OF tunnel_new_request_net] alwaysD[OF tunnel_reply_net]
    tunnel_remove_ref_net simp: net_inv_same)

section \<open>A tunnel request ends in an enabled tunnel\<close>

lemma tunnel_search_mono:
  assumes "tunnel_search w ts p n ty = Some r"
    and "\<And>c k. h_links w c = Some k \<Longrightarrow> \<exists>k'. h_links w' c = Some k' \<and> l_peer_id k' = l_peer_id k"
    and "\<And>a t. h_tunnels w a = Some t \<Longrightarrow> \<exists>t'. h_tunnels w' a = Some t' \<and> t_link t' = t_link t \<and> t_type t' = t_type t"
    and "map li_data ts' = map li_data ts"
  shows "tunnel_search w' ts' p n ty = Some r"
  using assms(1,4)
proof (induction ts arbitrary: ts')
  case (Cons item ts)
  then obtain item' us where ts': "ts' = item' # us" "li_data item' = li_data item" "map li_data us = map li_data ts" by auto
  obtain t b l where t: "h_tunnels w (li_data item) = Some t" "t_link t = Some b" "h_links w b = Some l"
    using Cons.prems(1) by (auto simp: get_link_def)
  obtain t' l' where t': "h_tunnels w' (li_data item) = Some t'" "t_link t' = Some b" "t_type t' = t_type t"
      "h_links w' b = Some l'" "l_peer_id l' = l_peer_id l"
    using assms(2)[OF t(3)] assms(3)[OF t(1)] t(2) by auto
  show ?case using Cons.prems(1) Cons.IH[OF _ ts'(3)] t t' ts'
    by (auto simp: get_link_def split: if_splits)
qed simp

lemma tunnel_search_live: "tunnel_search w ts p n ty = Some (Some a) \<Longrightarrow> \<exists>t. h_tunnels w a = Some t"
  by (induction w ts p n ty rule: tunnel_search.induct) (auto split: if_splits)

lemma strncmp0_prefix_cstr:
  assumes "no_nul a" and "strncmp0 (a @ r) b (length a)"
  shows "prefix a (cstr b)"
proof -
  have "strncmp0 a b (length a)" using assms(2) by (simp add: strncmp0_append_left)
  then show ?thesis using assms(1)
  proof (induction a arbitrary: b)
    case (Cons x a)
    then show ?case by (cases b) (auto simp: cstr_def split: if_splits)
  qed simp
qed

lemma tunnel_search_append:
  "tunnel_search w ts p n ty = Some None \<Longrightarrow> tunnel_search w (ts @ us) p n ty = tunnel_search w us p n ty"
  by (induction w ts p n ty rule: tunnel_search.induct) (auto simp: get_link_def split: if_splits option.splits)

lemma tunnel_accept_found:
  assumes "cc_tunnel_get_from_peerid_and_type p n ty w = Some (Some a)"
  shows "always (\<lambda>w'. cc_tunnel_get_from_peerid_and_type p n ty w' = Some (Some a)
     \<and> (\<exists>t. h_tunnels w' a = Some t \<and> t_state t = CC_TUNNEL_ENABLED)) (tunnel_accept a i k w)"
proof (rule alwaysI)
  fix w' assume acc: "tunnel_accept a i k w = Some w'"
  then obtain t w1 where t: "h_tunnels w a = Some t"
      "w1 = w \<or> (\<exists>s. set_tunnel_id a s w = Some w1)" "upd_tunnel a (\<lambda>t. t\<lparr>t_state := CC_TUNNEL_ENABLED\<rparr>) w1 = Some w'"
    unfolding tunnel_accept_def by (auto split: if_splits)
  obtain t1 where t1: "h_tunnels w1 = (h_tunnels w)(a \<mapsto> t1)" "t_link t1 = t_link t" "t_type t1 = t_type t"
      "h_links w1 = h_links w" "map li_data (n_tunnels w1) = map li_data (n_tunnels w)"
    using t(1,2) by (fastforce simp: set_tunnel_id_def upd_tunnel_def o_def if_distrib fun_upd_idem)
  then have t2: "h_tunnels w' = (h_tunnels w)(a \<mapsto> t1\<lparr>t_state := CC_TUNNEL_ENABLED\<rparr>)"
      "h_links w' = h_links w" "map li_data (n_tunnels w') = map li_data (n_tunnels w)"
    using t(3) by (auto simp: upd_tunnel_def)
  have "cc_tunnel_get_from_peerid_and_type p n ty w' = Some (Some a)"
    unfolding cc_tunnel_get_from_peerid_and_type_def
    by (rule tunnel_search_mono[where w = w and ts = "n_tunnels w"])
      (use assms t(1) t1 t2 in \<open>auto simp: cc_tunnel_get_from_peerid_and_type_def\<close>)
  with t2(1) show "cc_tunnel_get_from_peerid_and_type p n ty w' = Some (Some a)
      \<and> (\<exists>t. h_tunnels w' a = Some t \<and> t_state t = CC_TUNNEL_ENABLED)" by simp
qed

lemma tunnel_create_found:
  assumes "net_inv w" and "cc_tunnel_get_from_peerid_and_type p (unat n) ty w = Some None"
    and "cc_tunnel_create mp ty CC_TUNNEL_ENABLED p n tid w = Some (Some a, w')"
  shows "cc_tunnel_get_from_peerid_and_type p (unat n) ty w' = Some (Some a)
     \<and> (\<exists>t. h_tunnels w' a = Some t \<and> t_state t = CC_TUNNEL_ENABLED)"
  using assms(1,3)
proof (cases rule: tunnel_create_cases)
  case (new w1 b l t i)
  have fresh: "h_tunnels w (h_next w1) = None" using new(2,3) by (simp add: net_inv_def net_maps_def)
  have "tunnel_search w' (n_tunnels w) p (unat n) ty = Some None"
    by (rule tunnel_search_mono[where w = w and ts = "n_tunnels w"])
      (use assms(2) new fresh in \<open>auto simp: cc_tunnel_get_from_peerid_and_type_def\<close>)
  from tunnel_search_append[OF this, of "[i]"] new show ?thesis
    by (auto simp: cc_tunnel_get_from_peerid_and_type_def get_link_def)
qed (use assms(2) in auto)

section \<open>Serialisation\<close>

lemma state_nr_inverse: "tunnel_state_of (tunnel_state_nr s) = Some s" "tunnel_type_of (tunnel_type_nr t) = Some t"
  by (cases s; simp add: tunnel_state_of_def tunnel_state_nr_def; fail)
    (cases t; simp add: tunnel_type_of_def tunnel_type_nr_def; fail)

definition tunnel_v :: "cc_tunnel \<Rightarrow> cc_link \<Rightarrow> (mpv \<times> mpv) list" where
  "tunnel_v t l = [(MStr ''id'', idv (t_id t)), (MStr ''peer_id'', idv (l_peer_id l)),
     (MStr ''state'', MUint (ucast (tunnel_state_nr (t_state t)))), (MStr ''type'', MUint (ucast (tunnel_type_nr (t_type t))))]"

definition link_v :: "cc_link \<Rightarrow> (mpv \<times> mpv) list" where
  "link_v l = [(MStr ''peer_id'', idv (l_peer_id l)), (MStr ''is_proxy'', MBool (l_is_proxy l))]"

lemma wf_idv [simp]: "wf_mpv (idv s)"
  using strnlen_le[of s CC_UUID_BUFFER_SIZE] by (simp add: idv_def strnlen_def CC_UUID_BUFFER_SIZE_def)

context msgpuck
begin

lemma link_serialize_enc: "cc_link_serialize mp l b = b @ enc mp (MMap (link_v l))"
  by (simp add: cc_link_serialize_def link_v_def msg_parts)

lemma tunnel_serialize_enc:
  "get_link w (t_link t) = Some l \<Longrightarrow> cc_tunnel_serialize mp w t b = Some (b @ enc mp (MMap (tunnel_v t l)))"
  by (simp add: cc_tunnel_serialize_def tunnel_v_def msg_parts del: bind_Some_iff)

lemma link_deserialize_enc:
  "\<exists>r. cc_link_deserialize mp (enc mp (MMap (link_v l)) @ rest) w
     = cc_link_create (cstr (take CC_UUID_BUFFER_SIZE (l_peer_id l)) @ r)
         (of_nat (strnlen (l_peer_id l) CC_UUID_BUFFER_SIZE)) (l_is_proxy l) w"
proof -
  have wf: "wf_mpv (MMap (link_v l))" by (simp add: link_v_def)
  have kc: "key_clear ''peer_id'' (link_v l)" "key_clear ''is_proxy'' (link_v l)"
    by (simp_all add: link_v_def)
  have "\<exists>r. cc_coder_decode_string_from_map mp (enc mp (MMap (link_v l)) @ rest) ''peer_id''
      = Some (Some (cstr (take CC_UUID_BUFFER_SIZE (l_peer_id l)) @ r, of_nat (strnlen (l_peer_id l) CC_UUID_BUFFER_SIZE)))"
    using string_from_map_enc[OF wf kc(1), of _ rest] by (simp add: link_v_def idv_def strnlen_def del: enc.simps)
  moreover have "cc_coder_decode_bool_from_map mp (enc mp (MMap (link_v l)) @ rest) ''is_proxy'' = Some (Some (l_is_proxy l))"
    by (rule bool_from_map_enc(1)[OF wf kc(2)]) (simp_all add: link_v_def)
  ultimately show ?thesis by (auto simp: cc_link_deserialize_def simp del: enc.simps)
qed

lemma tunnel_deserialize_enc:
  "\<exists>r1 r2. cc_tunnel_deserialize mp (enc mp (MMap (tunnel_v t l)) @ rest) w
     = cc_tunnel_create mp (t_type t) (t_state t) (cstr (take CC_UUID_BUFFER_SIZE (l_peer_id l)) @ r1)
         (of_nat (strnlen (l_peer_id l) CC_UUID_BUFFER_SIZE))
         (Some (cstr (take CC_UUID_BUFFER_SIZE (t_id t)) @ r2, of_nat (strnlen (t_id t) CC_UUID_BUFFER_SIZE))) w"
proof -
  have wf: "wf_mpv (MMap (tunnel_v t l))" by (simp add: tunnel_v_def)
  have kc: "key_clear ''id'' (tunnel_v t l)" "key_clear ''peer_id'' (tunnel_v t l)" "key_clear ''state'' (tunnel_v t l)"
    "key_clear ''type'' (tunnel_v t l)"
    by (simp_all add: tunnel_v_def)
  have "\<exists>r. cc_coder_decode_string_from_map mp (enc mp (MMap (tunnel_v t l)) @ rest) ''id''
      = Some (Some (cstr (take CC_UUID_BUFFER_SIZE (t_id t)) @ r, of_nat (strnlen (t_id t) CC_UUID_BUFFER_SIZE)))"
    using string_from_map_enc[OF wf kc(1), of _ rest] by (simp add: tunnel_v_def idv_def strnlen_def del: enc.simps)
  moreover have "\<exists>r. cc_coder_decode_string_from_map mp (enc mp (MMap (tunnel_v t l)) @ rest) ''peer_id''
      = Some (Some (cstr (take CC_UUID_BUFFER_SIZE (l_peer_id l)) @ r, of_nat (strnlen (l_peer_id l) CC_UUID_BUFFER_SIZE)))"
    using string_from_map_enc[OF wf kc(2), of _ rest] by (simp add: tunnel_v_def idv_def strnlen_def del: enc.simps)
  moreover have "cc_coder_decode_uint_from_map mp (enc mp (MMap (tunnel_v t l)) @ rest) ''state'' = Some (Some (tunnel_state_nr (t_state t)))"
    using uint_from_map_enc(1)[OF wf kc(3), of "ucast (tunnel_state_nr (t_state t))" rest]
    by (simp add: tunnel_v_def del: enc.simps)
  moreover have "cc_coder_decode_uint_from_map mp (enc mp (MMap (tunnel_v t l)) @ rest) ''type'' = Some (Some (tunnel_type_nr (t_type t)))"
    using uint_from_map_enc(1)[OF wf kc(4), of "ucast (tunnel_type_nr (t_type t))" rest]
    by (simp add: tunnel_v_def del: enc.simps)
  ultimately show ?thesis
    by (elim exE, intro exI) (simp add: cc_tunnel_deserialize_def state_nr_inverse del: enc.simps bind_Some_iff)
qed

end

section \<open>Properties\<close>

text \<open>
  C6: however tunnels are created, requested, acknowledged, acquired and released, in any order and with any
  failures of memory and transport, every tunnel keeps a link that is allocated and the count of every link is
  the number of tunnels over it: no link is freed under a tunnel and none is left behind counted.
\<close>

theorem tunnels_keep_their_links:
  assumes "net_inv w" and "net_run mp w w'" and "h_tunnels w' a = Some t"
  shows "net_inv w' \<and> (\<exists>b l. t_link t = Some b \<and> h_links w' b = Some l
     \<and> unat (l_ref_count l) = card (users (h_tunnels w') b) \<and> a \<in> users (h_tunnels w') b)"
proof -
  have n: "net_inv w'" using net_run_inv[OF assms(2,1)] .
  then obtain b l where b: "t_link t = Some b" "h_links w' b = Some l"
    using assms(3) unfolding net_inv_def net_maps_def linked_Some by blast
  moreover have "unat (l_ref_count l) = card (users (h_tunnels w') b)"
    using n b(2) unfolding net_inv_def net_maps_def by blast
  ultimately show ?thesis using n assms(3) by (auto simp: users_def)
qed

lemma example_net: "net_inv example_world"
proof -
  have "users (h_tunnels example_world) 0 = {0}" by (auto simp: users_def example_world_def)
  then show ?thesis by (auto simp: net_inv_def net_maps_def linked_def example_world_def)
qed

theorem tunnels_keep_their_links_witness:
  "\<exists>w'. net_run mp_ref example_world w' \<and> (\<exists>b l. h_links w' b = Some l
     \<and> unat (l_ref_count l) = card (users (h_tunnels w') b) \<and> 0 \<in> users (h_tunnels w') b)"
proof -
  obtain w' where w': "cc_tunnel_add_ref (Some 0) example_world = Some w'"
    by (simp add: cc_tunnel_add_ref_def upd_tunnel_def example_world_def)
  then have "net_run mp_ref example_world w'" by (rule net_run.add_ref[OF net_run.start])
  moreover obtain t where "h_tunnels w' 0 = Some t"
    using w' by (auto simp: cc_tunnel_add_ref_def upd_tunnel_def example_world_def)
  ultimately show ?thesis using tunnels_keep_their_links[OF example_net] by blast
qed

text \<open>
  C26: a tunnel lives exactly while it is held. After \<open>n\<close> acquisitions of a new tunnel it survives \<open>n - 1\<close>
  releases and the last one frees it, whatever the transport and the allocator answer, for every \<open>n\<close> a byte can count.
\<close>

theorem tunnel_lives_while_held:
  assumes "h_tunnels w a = Some t" and "t_ref_count t = 0" and "tunnel_last_ok mp w a" and "0 < n" and "n < 256"
  shows "\<exists>w1 w2 w3. times n (cc_tunnel_add_ref (Some a)) w = Some w1
     \<and> times (n - 1) (cc_tunnel_remove_ref mp (Some a)) w1 = Some w2 \<and> h_tunnels w2 a \<noteq> None
     \<and> cc_tunnel_remove_ref mp (Some a) w2 = Some w3 \<and> h_tunnels w3 a = None
     \<and> cc_tunnel_remove_ref mp (Some a) w3 = None"
proof -
  have r: "tunnel_refs w a = Some 0" using assms(1,2) by (simp add: tunnel_refs_def)
  from tunnel.balanced[OF r assms(3-5)] obtain w1 w2 w3 where
    w: "times n (cc_tunnel_add_ref (Some a)) w = Some w1" "times (n - 1) (cc_tunnel_remove_ref mp (Some a)) w1 = Some w2"
      "tunnel_refs w2 a = Some 1" "cc_tunnel_remove_ref mp (Some a) w2 = Some w3"
      "tunnel_refs w3 = (tunnel_refs w)(a := None)" by blast
  then have "tunnel_refs w3 a = None" by simp
  moreover from this have "h_tunnels w3 a = None" by (simp add: tunnel_refs_def)
  ultimately show ?thesis using tunnel.freed[of w3 a mp] w(1-4) by (auto simp: tunnel_refs_def)
qed

definition example_new_tunnel :: world where
  "example_new_tunnel = example_world\<lparr>h_tunnels := [0 \<mapsto> \<lparr>t_id = ''t'', t_link = Some 0, t_state = CC_TUNNEL_ENABLED,
     t_ref_count = 0, t_type = CC_TUNNEL_TYPE_TOKEN\<rparr>]\<rparr>"

lemma example_last_ok: "tunnel_last_ok mp_ref example_new_tunnel 0"
proof -
  have "length (msg_tunnel_destroy mp_ref ''rt1'' ''rt2'' ''t'' u) \<le> 900" if "key_of 42 u" for u
    using that by (simp add: ref.tunnel_destroy_enc idv_def CC_UUID_BUFFER_SIZE_def) (simp add: mp_ref_def enc_num_def)
  then show ?thesis
    by (fastforce simp: tunnel_last_ok_def example_new_tunnel_def example_world_def example_client_def get_link_def
        fits_prefixed_def fits_def)
qed

theorem tunnel_lives_while_held_witness:
  "\<exists>w1 w2 w3. times 2 (cc_tunnel_add_ref (Some 0)) example_new_tunnel = Some w1
     \<and> times (2 - 1) (cc_tunnel_remove_ref mp_ref (Some 0)) w1 = Some w2 \<and> h_tunnels w2 0 \<noteq> None
     \<and> cc_tunnel_remove_ref mp_ref (Some 0) w2 = Some w3 \<and> h_tunnels w3 0 = None
     \<and> cc_tunnel_remove_ref mp_ref (Some 0) w3 = None"
proof -
  have "h_tunnels example_new_tunnel 0 = Some \<lparr>t_id = ''t'', t_link = Some 0, t_state = CC_TUNNEL_ENABLED,
     t_ref_count = 0, t_type = CC_TUNNEL_TYPE_TOKEN\<rparr>" by (simp add: example_new_tunnel_def)
  from tunnel_lives_while_held[OF this _ example_last_ok, of 2] show ?thesis by simp
qed

text \<open>
  The counts are bytes that wrap. With 257 holders the first release frees the tunnel under the others,
  and the next release is a use of freed memory.
\<close>

lemma tunnel_count_wraps:
  assumes "h_tunnels w a = Some t" and "t_ref_count t = 0" and "tunnel_last_ok mp w a"
  shows "\<exists>w1 w2. times 257 (cc_tunnel_add_ref (Some a)) w = Some w1
     \<and> cc_tunnel_remove_ref mp (Some a) w1 = Some w2 \<and> h_tunnels w2 a = None
     \<and> cc_tunnel_remove_ref mp (Some a) w2 = None"
proof -
  have r: "tunnel_refs w a = Some 0" using assms(1,2) by (simp add: tunnel_refs_def)
  from tunnel.wrap[OF r assms(3)] show ?thesis by (auto simp: tunnel_refs_def)
qed

text \<open>
  When a request of a peer for a tunnel is answered with success, the runtime has an enabled token tunnel to
  that peer and finds it: the one it had, the pending one it had asked for itself, or a new one.
\<close>

lemma tunnel_new_request_enabled:
  assumes "net_inv w" and "cc_tunnel_handle_tunnel_new_request mp p n i k w = Some (CC_SUCCESS, w')"
  shows "\<exists>a t. cc_tunnel_get_from_peerid_and_type p (unat n) CC_TUNNEL_TYPE_TOKEN w' = Some (Some a)
     \<and> h_tunnels w' a = Some t \<and> t_state t = CC_TUNNEL_ENABLED"
proof -
  obtain q where q: "cc_tunnel_get_from_peerid_and_type p (unat n) CC_TUNNEL_TYPE_TOKEN w = Some q"
    using assms(2) by (auto simp: cc_tunnel_handle_tunnel_new_request_def)
  show ?thesis
  proof (cases q)
    case None
    then obtain a where "cc_tunnel_create mp CC_TUNNEL_TYPE_TOKEN CC_TUNNEL_ENABLED p n (Some (i, k)) w = Some (Some a, w')"
      using assms(2) q by (auto simp: cc_tunnel_handle_tunnel_new_request_def split: if_splits)
    from tunnel_create_found[OF assms(1) _ this] q None show ?thesis by blast
  next
    case (Some a)
    then obtain t where t: "h_tunnels w a = Some t" "if t_state t = CC_TUNNEL_ENABLED then w' = w else tunnel_accept a i k w = Some w'"
      using assms(2) q by (auto simp: cc_tunnel_handle_tunnel_new_request_def split: if_splits)
    show ?thesis
    proof (cases "t_state t = CC_TUNNEL_ENABLED")
      case True
      then show ?thesis using t q Some by auto
    next
      case False
      then have "tunnel_accept a i k w = Some w'" using t(2) by simp
      from alwaysD[OF tunnel_accept_found this] q Some show ?thesis by blast
    qed
  qed
qed


definition example_bare :: world where
  "example_bare = example_world\<lparr>h_links := [0 \<mapsto> \<lparr>l_peer_id = ''rt9'', l_ref_count = 0, l_is_proxy = True\<rparr>],
     h_tunnels := Map.empty\<rparr>"

definition example_tunnel :: cc_tunnel where
  "example_tunnel = \<lparr>t_id = ''t'', t_link = Some 0, t_state = CC_TUNNEL_ENABLED, t_ref_count = 1, t_type = CC_TUNNEL_TYPE_TOKEN\<rparr>"


end
