(* ===== verification/Port.thy ===== *)
theory Port
  imports Link_Tunnel
begin

text \<open>
  \<open>src/runtime/north/cc_port.c\<close>, with the two functions of \<open>cc_actor.c\<close> that a port calls when its state
  changes. A port is an object of the heap \<open>h_ports\<close>; its actor and its local peer are addresses. A port is
  read again after every call that may change it, so a port that is its own peer is treated as the code does.
\<close>

section \<open>The state of the actor\<close>

text \<open>\<open>src/runtime/north/cc_actor.c\<close>: the first port that is not enabled decides.\<close>

fun ports_state :: "world \<Rightarrow> addr cc_list \<Rightarrow> cc_actor_state option" where
  "ports_state w [] = Some CC_ACTOR_ENABLED"
| "ports_state w (item # list) = do {
     port \<leftarrow> h_ports w (li_data item);
     if p_state port = CC_PORT_DO_DELETE then Some CC_ACTOR_DO_DELETE
     else if p_state port \<noteq> CC_PORT_ENABLED then Some CC_ACTOR_PENDING
     else ports_state w list }"

definition cc_actor_set_state :: "addr \<Rightarrow> cc_actor_state \<Rightarrow> world \<Rightarrow> world option" where
  "cc_actor_set_state a state w = upd_actor a (\<lambda>x. x\<lparr>a_state := state\<rparr>) w"

definition actor_ports_state :: "world \<Rightarrow> cc_actor \<Rightarrow> cc_actor_state option" where
  "actor_ports_state w actor = do {
     s \<leftarrow> ports_state w (a_in_ports actor);
     if s = CC_ACTOR_ENABLED then ports_state w (a_out_ports actor) else Some s }"

definition cc_actor_port_state_changed :: "addr \<Rightarrow> world \<Rightarrow> world option" where
  "cc_actor_port_state_changed a w = do {
     actor \<leftarrow> h_actors w a;
     s \<leftarrow> actor_ports_state w actor;
     cc_actor_set_state a s w }"

section \<open>Looking up ports\<close>

fun port_search :: "world \<Rightarrow> addr cc_list \<Rightarrow> bytes \<Rightarrow> nat \<Rightarrow> addr option option" where
  "port_search w [] port_id n = Some None"
| "port_search w (item # actors) port_id n = do {
     actor \<leftarrow> h_actors w (li_data item);
     case cc_list_get_n (a_in_ports actor) port_id n of
       Some port \<Rightarrow> Some (Some (li_data port))
     | None \<Rightarrow> (case cc_list_get_n (a_out_ports actor) port_id n of
         Some port \<Rightarrow> Some (Some (li_data port))
       | None \<Rightarrow> port_search w actors port_id n) }"

definition cc_port_get :: "bytes \<Rightarrow> u32 \<Rightarrow> world \<Rightarrow> addr option option" where
  "cc_port_get port_id port_id_len w = port_search w (n_actors w) port_id (unat port_id_len)"

text \<open>The loops over the ports of one actor, with the test of each port as an argument.\<close>

fun find_port :: "world \<Rightarrow> (cc_port \<Rightarrow> bool) \<Rightarrow> addr cc_list \<Rightarrow> addr option option" where
  "find_port w P [] = Some None"
| "find_port w P (item # ports) = do {
     port \<leftarrow> h_ports w (li_data item);
     if P port then Some (Some (li_data item)) else find_port w P ports }"

fun peer_port_search :: "world \<Rightarrow> addr cc_list \<Rightarrow> bytes \<Rightarrow> nat \<Rightarrow> addr option option" where
  "peer_port_search w [] peer_port_id n = Some None"
| "peer_port_search w (item # actors) peer_port_id n = do {
     actor \<leftarrow> h_actors w (li_data item);
     p \<leftarrow> find_port w (\<lambda>port. strncmp0 (p_peer_port_id port) peer_port_id n) (a_in_ports actor);
     case p of Some a \<Rightarrow> Some (Some a) | None \<Rightarrow> do {
     p \<leftarrow> find_port w (\<lambda>port. strncmp0 (p_peer_port_id port) peer_port_id n) (a_out_ports actor);
     case p of Some a \<Rightarrow> Some (Some a) | None \<Rightarrow> peer_port_search w actors peer_port_id n } }"

definition cc_port_get_from_peer_port_id :: "bytes \<Rightarrow> u32 \<Rightarrow> world \<Rightarrow> addr option option" where
  "cc_port_get_from_peer_port_id peer_port_id peer_port_id_len w =
     peer_port_search w (n_actors w) peer_port_id (unat peer_port_id_len)"

definition cc_port_get_from_name :: "addr \<Rightarrow> bytes \<Rightarrow> nat \<Rightarrow> cc_port_direction \<Rightarrow> world \<Rightarrow> addr option option" where
  "cc_port_get_from_name a name name_len direction w = do {
     actor \<leftarrow> h_actors w a;
     find_port w (\<lambda>port. p_direction port = direction \<and> strncmp0 (p_name port) name name_len)
       (if direction = CC_PORT_DIRECTION_IN then a_in_ports actor else a_out_ports actor) }"

section \<open>The state of a port\<close>

definition cc_port_set_state :: "addr \<Rightarrow> cc_port_state \<Rightarrow> world \<Rightarrow> world option" where
  "cc_port_set_state a state w = do {
     port \<leftarrow> h_ports w a;
     let port = (if state = CC_PORT_ENABLED \<and> p_state port \<noteq> CC_PORT_ENABLED then port\<lparr>p_retries := 0\<rparr> else port);
     w \<leftarrow> upd_port a (\<lambda>_. port\<lparr>p_state := state\<rparr>) w;
     cc_actor_port_state_changed (p_actor port) w }"

text \<open>\<open>cc_tunnel_remove_ref(node, port->tunnel); port->tunnel = NULL\<close>, when there is a tunnel.\<close>

definition port_drop_tunnel :: "mp \<Rightarrow> addr \<Rightarrow> world \<Rightarrow> world option" where
  "port_drop_tunnel mp a w = do {
     port \<leftarrow> h_ports w a;
     if p_tunnel port \<noteq> None then do {
       w \<leftarrow> cc_tunnel_remove_ref mp (p_tunnel port) w;
       upd_port a (\<lambda>p. p\<lparr>p_tunnel := None\<rparr>) w }
     else Some w }"

definition port_set_fifo :: "addr \<Rightarrow> cc_fifo \<Rightarrow> world \<Rightarrow> world option" where
  "port_set_fifo a fifo w = upd_port a (\<lambda>p. p\<lparr>p_fifo := Some fifo\<rparr>) w"

text \<open>\<open>cc_fifo_free\<close> reads the queue, so a port without one faults.\<close>

definition cc_port_free :: "mp \<Rightarrow> addr \<Rightarrow> bool \<Rightarrow> world \<Rightarrow> world option" where
  "cc_port_free mp a remove_from_registry w = do {
     port \<leftarrow> h_ports w a;
     w \<leftarrow> (if remove_from_registry
           then do { (r, w) \<leftarrow> cc_proto_send_remove_port mp a port cc_port_remove_reply_handler w; Some w }
           else Some w);
     w \<leftarrow> (if p_tunnel port \<noteq> None then cc_tunnel_remove_ref mp (p_tunnel port) w else Some w);
     fifo \<leftarrow> p_fifo port;
     Some (w\<lparr>h_ports := (h_ports w)(a := None)\<rparr>) }"

section \<open>Connecting\<close>

definition cc_port_handle_connect ::
  "mp \<Rightarrow> bytes \<Rightarrow> u32 \<Rightarrow> bytes \<Rightarrow> u32 \<Rightarrow> world \<Rightarrow> (cc_result \<times> world) option" where
  "cc_port_handle_connect mp port_id port_id_len tunnel_id tunnel_id_len w = do {
     p \<leftarrow> cc_port_get port_id port_id_len w;
     case p of None \<Rightarrow> Some (CC_FAIL, w) | Some a \<Rightarrow> do {
     port \<leftarrow> h_ports w a;
     same \<leftarrow> (case p_tunnel port of None \<Rightarrow> Some False
              | Some t \<Rightarrow> do { tunnel \<leftarrow> h_tunnels w t; Some (strncmp0 (t_id tunnel) tunnel_id (unat tunnel_id_len)) });
     if same then do { w \<leftarrow> cc_port_set_state a CC_PORT_ENABLED w; Some (CC_SUCCESS, w) }
     else do {
       w \<leftarrow> port_drop_tunnel mp a w;
       let t = cc_tunnel_get_from_id tunnel_id tunnel_id_len w;
       w \<leftarrow> upd_port a (\<lambda>p. p\<lparr>p_tunnel := t\<rparr>) w;
       if t = None then Some (CC_FAIL, w)
       else do {
         w \<leftarrow> cc_tunnel_add_ref t w;
         w \<leftarrow> cc_port_set_state a CC_PORT_ENABLED w;
         tunnel \<leftarrow> get_tunnel w t;
         link \<leftarrow> get_link w (t_link tunnel);
         w \<leftarrow> upd_port a (\<lambda>p. p\<lparr>p_peer_id := cstr (take CC_UUID_BUFFER_SIZE (l_peer_id link))\<rparr>) w;
         Some (CC_SUCCESS, w) } } } }"

definition cc_port_handle_disconnect :: "mp \<Rightarrow> bytes \<Rightarrow> u32 \<Rightarrow> world \<Rightarrow> (cc_result \<times> world) option" where
  "cc_port_handle_disconnect mp port_id port_id_len w = do {
     p \<leftarrow> cc_port_get port_id port_id_len w;
     case p of None \<Rightarrow> Some (CC_FAIL, w) | Some a \<Rightarrow> do {
     port \<leftarrow> h_ports w a;
     fifo \<leftarrow> p_fifo port;
     w \<leftarrow> port_set_fifo a (cc_fifo_cancel fifo) w;
     w \<leftarrow> cc_port_set_state a CC_PORT_DISCONNECTED w;
     w \<leftarrow> upd_port a (\<lambda>p. p\<lparr>p_peer_id := []\<rparr>) w;
     w \<leftarrow> port_drop_tunnel mp a w;
     Some (CC_SUCCESS, w) } }"

definition cc_port_do_peer_lookup :: "mp \<Rightarrow> addr \<Rightarrow> world \<Rightarrow> world option" where
  "cc_port_do_peer_lookup mp a w = do {
     port \<leftarrow> h_ports w a;
     (r, w) \<leftarrow> cc_proto_send_get_port mp (p_peer_port_id port) cc_port_get_peer_port_reply_handler (MD_port_id a) w;
     if r \<noteq> CC_SUCCESS then cc_port_set_state a CC_PORT_DISCONNECTED w
     else cc_port_set_state a CC_PORT_PENDING_LOOKUP w }"

text \<open>One side of a local connection.\<close>

definition port_attach :: "addr \<Rightarrow> addr \<Rightarrow> world \<Rightarrow> world option" where
  "port_attach a b w = do {
     w \<leftarrow> upd_port a (\<lambda>p. p\<lparr>p_peer_port := Some b, p_peer_id := cstr (take CC_UUID_BUFFER_SIZE (n_id w))\<rparr>) w;
     cc_port_set_state a CC_PORT_ENABLED w }"

definition cc_port_connect_local :: "mp \<Rightarrow> addr \<Rightarrow> world \<Rightarrow> (cc_result \<times> world) option" where
  "cc_port_connect_local mp a w = do {
     port \<leftarrow> h_ports w a;
     p \<leftarrow> cc_port_get (p_peer_port_id port) (of_nat (strnlen (p_peer_port_id port) CC_UUID_BUFFER_SIZE)) w;
     case p of None \<Rightarrow> Some (CC_FAIL, w) | Some b \<Rightarrow> do {
     w \<leftarrow> port_drop_tunnel mp a w;
     w \<leftarrow> port_drop_tunnel mp b w;
     w \<leftarrow> port_attach a b w;
     w \<leftarrow> port_attach b a w;
     Some (CC_SUCCESS, w) } }"

definition cc_port_connect_with_pending_tunnel :: "mp \<Rightarrow> addr \<Rightarrow> world \<Rightarrow> (cc_result \<times> world) option" where
  "cc_port_connect_with_pending_tunnel mp a w = do {
     port \<leftarrow> h_ports w a;
     tunnel \<leftarrow> get_tunnel w (p_tunnel port);
     if t_state tunnel = CC_TUNNEL_PENDING then Some (CC_SUCCESS, w)
     else do {
       (r, w) \<leftarrow> (if t_state tunnel = CC_TUNNEL_ENABLED
                   then cc_proto_send_port_connect mp a port cc_port_connect_reply_handler w
                   else Some (CC_FAIL, w));
       if r = CC_SUCCESS then do { w \<leftarrow> cc_port_set_state a CC_PORT_PENDING_CONNECT w; Some (CC_SUCCESS, w) }
       else do {
         w \<leftarrow> port_drop_tunnel mp a w;
         w \<leftarrow> cc_port_set_state a CC_PORT_DISCONNECTED w;
         Some (CC_FAIL, w) } } }"

definition cc_port_get_tunnel :: "mp \<Rightarrow> addr \<Rightarrow> world \<Rightarrow> (cc_result \<times> world) option" where
  "cc_port_get_tunnel mp a w = do {
     port \<leftarrow> h_ports w a;
     let peer_id_len = strnlen (p_peer_id port) CC_UUID_BUFFER_SIZE;
     t \<leftarrow> cc_tunnel_get_from_peerid_and_type (p_peer_id port) peer_id_len CC_TUNNEL_TYPE_TOKEN w;
     (t, w) \<leftarrow> (case t of Some x \<Rightarrow> Some (Some x, w)
        | None \<Rightarrow> cc_tunnel_create mp CC_TUNNEL_TYPE_TOKEN CC_TUNNEL_DISCONNECTED (p_peer_id port) (of_nat peer_id_len) None w);
     w \<leftarrow> upd_port a (\<lambda>p. p\<lparr>p_tunnel := t\<rparr>) w;
     if t = None then Some (CC_FAIL, w)
     else do {
       w \<leftarrow> cc_tunnel_add_ref t w;
       w \<leftarrow> cc_port_set_state a CC_PORT_PENDING_TUNNEL w;
       Some (CC_SUCCESS, w) } }"

text \<open>The end of \<open>cc_port_connect\<close>: no tunnel leads to the peer, so its runtime is looked up.\<close>

definition port_lookup_again :: "mp \<Rightarrow> addr \<Rightarrow> world \<Rightarrow> world option" where
  "port_lookup_again mp a w = do {
     w \<leftarrow> upd_port a (\<lambda>p. p\<lparr>p_peer_id := []\<rparr>) w;
     w \<leftarrow> cc_port_set_state a CC_PORT_DISCONNECTED w;
     cc_port_do_peer_lookup mp a w }"

definition cc_port_connect :: "mp \<Rightarrow> addr \<Rightarrow> world \<Rightarrow> world option" where
  "cc_port_connect mp a w = do {
     port \<leftarrow> h_ports w a;
     if p_state port = CC_PORT_ENABLED then Some w
     else if p_retries port = 5 then cc_port_set_state a CC_PORT_DO_DELETE w
     else do {
       w \<leftarrow> upd_port a (\<lambda>p. p\<lparr>p_retries := p_retries p + 1\<rparr>) w;
       (r, w) \<leftarrow> cc_port_connect_local mp a w;
       if r = CC_SUCCESS then Some w
       else do {
         port \<leftarrow> h_ports w a;
         w \<leftarrow> (if p_tunnel port = None \<and> strnlen (p_peer_id port) CC_UUID_BUFFER_SIZE > 0
               then do { (_, w) \<leftarrow> cc_port_get_tunnel mp a w; Some w } else Some w);
         port \<leftarrow> h_ports w a;
         if p_tunnel port \<noteq> None then do {
           (r, w) \<leftarrow> cc_port_connect_with_pending_tunnel mp a w;
           if r = CC_SUCCESS then Some w
           else do { w \<leftarrow> port_drop_tunnel mp a w; port_lookup_again mp a w } }
         else port_lookup_again mp a w } } }"

definition cc_port_disconnect :: "mp \<Rightarrow> addr \<Rightarrow> bool \<Rightarrow> world \<Rightarrow> world option" where
  "cc_port_disconnect mp a unref_tunnel w = do {
     port \<leftarrow> h_ports w a;
     w \<leftarrow> (if p_tunnel port \<noteq> None \<and> unref_tunnel then do {
             (r, w) \<leftarrow> cc_proto_send_port_disconnect mp a port cc_port_disconnect_reply_handler w;
             cc_tunnel_remove_ref mp (p_tunnel port) w }
           else Some w);
     w \<leftarrow> upd_port a (\<lambda>p. p\<lparr>p_tunnel := None\<rparr>) w;
     w \<leftarrow> (case p_peer_port port of None \<Rightarrow> Some w
           | Some b \<Rightarrow> do {
               w \<leftarrow> cc_port_set_state b CC_PORT_DISCONNECTED w;
               upd_port a (\<lambda>p. p\<lparr>p_peer_port := None\<rparr>) w });
     w \<leftarrow> upd_port a (\<lambda>p. p\<lparr>p_peer_id := []\<rparr>) w;
     w \<leftarrow> cc_port_set_state a CC_PORT_DISCONNECTED w;
     port \<leftarrow> h_ports w a;
     fifo \<leftarrow> p_fifo port;
     port_set_fifo a (cc_fifo_cancel fifo) w }"

section \<open>Moving tokens\<close>

text \<open>Writing to and reading from the queue of a port, with an operation of the queue as an argument.\<close>

definition with_fifo :: "addr \<Rightarrow> (cc_fifo \<Rightarrow> ('r \<times> cc_fifo) option) \<Rightarrow> world \<Rightarrow> ('r \<times> world) option" where
  "with_fifo a f w = do {
     port \<leftarrow> h_ports w a;
     fifo \<leftarrow> p_fifo port;
     (r, fifo) \<leftarrow> f fifo;
     w \<leftarrow> port_set_fifo a fifo w;
     Some (r, w) }"

text \<open>\<open>cc_fifo_com_peek\<close> with the token its pointer refers to.\<close>

definition peek_token :: "cc_fifo \<Rightarrow> ((cc_token \<times> u32) \<times> cc_fifo) option" where
  "peek_token fifo = do {
     (i, sequencenbr, fifo) \<leftarrow> cc_fifo_com_peek fifo;
     if i < length (f_tokens fifo) then Some ((f_tokens fifo ! i, sequencenbr), fifo) else None }"

text \<open>The body of \<open>cc_port_transmit\<close> for an enabled out port with a token.\<close>

definition port_send_token :: "mp \<Rightarrow> addr \<Rightarrow> world \<Rightarrow> world option" where
  "port_send_token mp a w = do {
     ((token, sequencenbr), w) \<leftarrow> with_fifo a peek_token w;
     port \<leftarrow> h_ports w a;
     if p_tunnel port \<noteq> None then do {
       (r, w) \<leftarrow> cc_proto_send_token mp port token sequencenbr w;
       if r \<noteq> CC_SUCCESS
       then do { (_, w) \<leftarrow> with_fifo a (\<lambda>f. Some ((), cc_fifo_com_cancel_read f sequencenbr)) w; Some w }
       else Some w }
     else case p_peer_port port of
       Some b \<Rightarrow> do {
         (r, w) \<leftarrow> with_fifo b (\<lambda>f. cc_fifo_write f (tok_value token) (tok_size token)) w;
         (_, w) \<leftarrow> (if r = CC_SUCCESS
           then with_fifo a (\<lambda>f. do { f \<leftarrow> cc_fifo_commit_read f False; Some ((), f) }) w
           else with_fifo a (\<lambda>f. Some ((), cc_fifo_cancel_commit f)) w);
         Some w }
     | None \<Rightarrow> do { (_, w) \<leftarrow> with_fifo a (\<lambda>f. Some ((), cc_fifo_com_cancel_read f sequencenbr)) w; Some w } }"

definition cc_port_transmit :: "mp \<Rightarrow> addr \<Rightarrow> world \<Rightarrow> world option" where
  "cc_port_transmit mp a w = do {
     port \<leftarrow> h_ports w a;
     if p_state port = CC_PORT_ENABLED then do {
       actor \<leftarrow> h_actors w (p_actor port);
       if a_state actor = CC_ACTOR_ENABLED \<and> p_direction port = CC_PORT_DIRECTION_OUT then do {
         fifo \<leftarrow> p_fifo port;
         if cc_fifo_tokens_available fifo 1 then port_send_token mp a w else Some w }
       else Some w }
     else if p_state port = CC_PORT_PENDING_TUNNEL then
       (case p_tunnel port of None \<Rightarrow> Some w
        | Some t \<Rightarrow> do {
            tunnel \<leftarrow> h_tunnels w t;
            if t_state tunnel = CC_TUNNEL_ENABLED
            then do { (r, w) \<leftarrow> cc_port_connect_with_pending_tunnel mp a w; Some w } else Some w })
     else Some w }"

text \<open>\<open>src/runtime/north/cc_node.c\<close>: a token that arrives and the answer to one that was sent.\<close>

definition cc_node_handle_token :: "addr \<Rightarrow> bytes \<Rightarrow> nat \<Rightarrow> u32 \<Rightarrow> world \<Rightarrow> (cc_result \<times> world) option" where
  "cc_node_handle_token a data n sequencenbr w = do {
     port \<leftarrow> h_ports w a;
     actor \<leftarrow> h_actors w (p_actor port);
     if a_state actor = CC_ACTOR_ENABLED then do {
       fifo \<leftarrow> p_fifo port;
       slots \<leftarrow> cc_fifo_slots_available fifo 1;
       if slots then
         (case mem_alloc w of
            (False, w) \<Rightarrow> Some (CC_FAIL, w)
          | (True, w) \<Rightarrow> do {
              (r, w) \<leftarrow> with_fifo a (\<lambda>f. cc_fifo_com_write f (Some (take n data)) n sequencenbr) w;
              Some (if r = CC_SUCCESS then CC_SUCCESS else CC_FAIL, w) })
       else Some (CC_FAIL, w) }
     else Some (CC_FAIL, w) }"

definition cc_node_handle_token_reply ::
  "bytes \<Rightarrow> u32 \<Rightarrow> cc_port_reply_type \<Rightarrow> u32 \<Rightarrow> world \<Rightarrow> world option" where
  "cc_node_handle_token_reply port_id port_id_len reply_type sequencenbr w = do {
     p \<leftarrow> cc_port_get port_id port_id_len w;
     case p of None \<Rightarrow> Some w | Some a \<Rightarrow>
     (case reply_type of
        CC_PORT_REPLY_TYPE_ACK \<Rightarrow> do {
          (_, w) \<leftarrow> with_fifo a (\<lambda>f. do { f \<leftarrow> cc_fifo_com_commit_read f sequencenbr; Some ((), f) }) w; Some w }
      | CC_PORT_REPLY_TYPE_NACK \<Rightarrow> do {
          (_, w) \<leftarrow> with_fifo a (\<lambda>f. Some ((), cc_fifo_com_cancel_read f sequencenbr)) w; Some w }
      | CC_PORT_REPLY_TYPE_ABORT \<Rightarrow> Some w) }"

section \<open>Replies\<close>

definition handle_port_store_reply :: "mp \<Rightarrow> bytes \<Rightarrow> world \<Rightarrow> cc_result option" where
  "handle_port_store_reply mp data w = do {
     v \<leftarrow> cc_coder_get_value_from_map mp data ''value'';
     case v of None \<Rightarrow> Some CC_FAIL | Some value \<Rightarrow> do {
     k \<leftarrow> cc_coder_decode_string_from_map mp value ''key'';
     case k of None \<Rightarrow> Some CC_FAIL | Some (key, key_len) \<Rightarrow>
     if \<not> strncmp0 key ''port-'' 5 then Some CC_FAIL
     else do {
     p \<leftarrow> cc_port_get (drop 5 key) (key_len - 5) w;
     case p of None \<Rightarrow> Some CC_SUCCESS | Some a \<Rightarrow> do {
     r \<leftarrow> cc_coder_get_value_from_map mp value ''response'';
     case r of None \<Rightarrow> Some CC_FAIL | Some response \<Rightarrow> do {
     s \<leftarrow> cc_coder_decode_uint_from_map mp response ''status'';
     Some (if s = None then CC_FAIL else CC_SUCCESS) } } } } }"

definition handle_port_get_peer_reply :: "mp \<Rightarrow> bytes \<Rightarrow> world \<Rightarrow> (cc_result \<times> world) option" where
  "handle_port_get_peer_reply mp data w = do {
     v \<leftarrow> cc_coder_get_value_from_map mp data ''value'';
     case v of None \<Rightarrow> Some (CC_FAIL, w) | Some value \<Rightarrow> do {
     k \<leftarrow> cc_coder_decode_string_from_map mp value ''key'';
     case k of None \<Rightarrow> Some (CC_FAIL, w) | Some (key, key_len) \<Rightarrow> do {
     p \<leftarrow> cc_port_get_from_peer_port_id (drop 5 key) (key_len - 5) w;
     case p of None \<Rightarrow> Some (CC_SUCCESS, w) | Some a \<Rightarrow> do {
     port \<leftarrow> h_ports w a;
     if p_state port = CC_PORT_ENABLED then Some (CC_SUCCESS, w)
     else do {
     vv \<leftarrow> cc_coder_get_value_from_map mp value ''value'';
     case vv of None \<Rightarrow> Some (CC_FAIL, w) | Some value_value \<Rightarrow> do {
     i \<leftarrow> cc_coder_decode_string_from_map mp value_value ''node_id'';
     case i of
       None \<Rightarrow> do { w \<leftarrow> cc_port_set_state a CC_PORT_DO_DELETE w; Some (CC_FAIL, w) }
     | Some (node_id, node_id_len) \<Rightarrow> do {
         s \<leftarrow> strncpy_term CC_UUID_BUFFER_SIZE node_id (unat node_id_len);
         w \<leftarrow> upd_port a (\<lambda>p. p\<lparr>p_peer_id := s\<rparr>) w;
         w \<leftarrow> cc_port_connect mp a w;
         Some (CC_SUCCESS, w) } } } } } } }"

definition handle_port_connect_reply :: "mp \<Rightarrow> bytes \<Rightarrow> world \<Rightarrow> (cc_result \<times> world) option" where
  "handle_port_connect_reply mp data w = do {
     v \<leftarrow> cc_coder_get_value_from_map mp data ''value'';
     case v of None \<Rightarrow> Some (CC_FAIL, w) | Some value \<Rightarrow> do {
     s \<leftarrow> cc_coder_decode_uint_from_map mp value ''status'';
     case s of None \<Rightarrow> Some (CC_FAIL, w) | Some status \<Rightarrow> do {
     d \<leftarrow> cc_coder_get_value_from_map mp value ''data'';
     case d of None \<Rightarrow> Some (CC_FAIL, w) | Some value_data \<Rightarrow> do {
     i \<leftarrow> cc_coder_decode_string_from_map mp value_data ''port_id'';
     p \<leftarrow> (case i of None \<Rightarrow> Some None
           | Some (peer_port_id, peer_port_id_len) \<Rightarrow> cc_port_get_from_peer_port_id peer_port_id peer_port_id_len w);
     case p of None \<Rightarrow> Some (CC_SUCCESS, w) | Some a \<Rightarrow> do {
     w \<leftarrow> cc_port_set_state a (if status = 200 then CC_PORT_ENABLED else CC_PORT_DISCONNECTED) w;
     Some (CC_SUCCESS, w) } } } } }"

section \<open>Creating a port\<close>

text \<open>The peer from the previous connections: the peer's runtime may be nil, its port is required.\<close>

definition port_peer_prev ::
  "mp \<Rightarrow> bytes \<Rightarrow> bytes \<Rightarrow> u32 \<Rightarrow> cc_port_direction \<Rightarrow> ((bytes \<times> u32) option \<times> bytes \<times> u32) option option" where
  "port_peer_prev mp obj_prev_connections port_id port_id_len direction = do {
     ps \<leftarrow> cc_coder_get_value_from_map mp obj_prev_connections
            (if direction = CC_PORT_DIRECTION_IN then ''inports'' else ''outports'');
     case ps of None \<Rightarrow> Some None | Some obj_prev_ports \<Rightarrow> do {
     p \<leftarrow> cc_coder_get_value_from_map_n mp obj_prev_ports port_id port_id_len;
     case p of None \<Rightarrow> Some None | Some obj_prev_port \<Rightarrow> do {
     o1 \<leftarrow> cc_coder_get_value_from_array mp obj_prev_port 0;
     case o1 of None \<Rightarrow> Some None | Some obj_peer \<Rightarrow> do {
     tv \<leftarrow> cc_coder_get_value_from_array mp obj_peer 0;
     case tv of None \<Rightarrow> Some None | Some tmp_value \<Rightarrow> do {
     ty \<leftarrow> cc_coder_type_of mp tmp_value;
     peer \<leftarrow> (if ty = CC_CODER_STR
              then do { s \<leftarrow> cc_coder_decode_str mp tmp_value; Some (case s of None \<Rightarrow> None | Some x \<Rightarrow> Some (Some x)) }
              else Some (Some None));
     case peer of None \<Rightarrow> Some None | Some peer_id \<Rightarrow> do {
     pp \<leftarrow> cc_coder_decode_string_from_array mp obj_peer 1;
     case pp of None \<Rightarrow> Some None
     | Some (peer_port_id, peer_port_id_len) \<Rightarrow> Some (Some (peer_id, peer_port_id, peer_port_id_len)) } } } } } }"

text \<open>The loop over the connection list \<open>[[node_id, port_id, peer_id, peer_port_id], \<dots>]\<close>.\<close>

fun port_peer_list ::
  "mp \<Rightarrow> bytes \<Rightarrow> nat \<Rightarrow> bytes \<Rightarrow> ((bytes \<times> u32) option \<times> bytes \<times> u32) option option" where
  "port_peer_list mp port_id 0 cl = Some None"
| "port_peer_list mp port_id (Suc n) cl = do {
     t \<leftarrow> cc_coder_decode_string_from_array mp cl 1;
     case t of None \<Rightarrow> Some None
     | Some (tmp_port_id, len) \<Rightarrow>
         if \<not> strncmp0 port_id tmp_port_id (unat len)
         then do { cl \<leftarrow> cc_coder_decode_array_next mp cl; port_peer_list mp port_id n cl }
         else do {
           peer_id \<leftarrow> cc_coder_decode_string_from_array mp cl 2;
           pp \<leftarrow> cc_coder_decode_string_from_array mp cl 3;
           case pp of None \<Rightarrow> Some None
           | Some (peer_port_id, peer_port_id_len) \<Rightarrow>
               Some (if peer_id = None then None else Some (peer_id, peer_port_id, peer_port_id_len)) } }"

definition port_peer ::
  "mp \<Rightarrow> bytes \<Rightarrow> bytes \<Rightarrow> bytes \<Rightarrow> u32 \<Rightarrow> cc_port_direction \<Rightarrow> ((bytes \<times> u32) option \<times> bytes \<times> u32) option option" where
  "port_peer mp obj_prev_connections obj_connection_list port_id port_id_len direction = do {
     ty \<leftarrow> cc_coder_type_of mp obj_prev_connections;
     if ty \<noteq> CC_CODER_NIL then port_peer_prev mp obj_prev_connections port_id port_id_len direction
     else do {
       (n, cl) \<leftarrow> cc_coder_decode_array mp obj_connection_list;
       port_peer_list mp port_id (unat n) cl } }"

text \<open>The numbers of the port states, and the cast back; a number without a state is outside the model.\<close>

definition port_state_nr :: "cc_port_state \<Rightarrow> u32" where
  "port_state_nr st = (case st of CC_PORT_DISCONNECTED \<Rightarrow> 0 | CC_PORT_ENABLED \<Rightarrow> 1 | CC_PORT_PENDING_LOOKUP \<Rightarrow> 2
     | CC_PORT_PENDING_TUNNEL \<Rightarrow> 3 | CC_PORT_PENDING_CONNECT \<Rightarrow> 4 | CC_PORT_DO_DELETE \<Rightarrow> 5)"

definition port_state_of :: "u32 \<Rightarrow> cc_port_state option" where
  "port_state_of n = (if n = 0 then Some CC_PORT_DISCONNECTED else if n = 1 then Some CC_PORT_ENABLED
     else if n = 2 then Some CC_PORT_PENDING_LOOKUP else if n = 3 then Some CC_PORT_PENDING_TUNNEL
     else if n = 4 then Some CC_PORT_PENDING_CONNECT else if n = 5 then Some CC_PORT_DO_DELETE else None)"

text \<open>The new port with its identifiers copied into their buffers.\<close>

definition new_port ::
  "addr \<Rightarrow> cc_port_direction \<Rightarrow> bytes \<times> u32 \<Rightarrow> bytes \<times> u32 \<Rightarrow> (bytes \<times> u32) option \<Rightarrow> bytes \<times> u32 \<Rightarrow> cc_port option" where
  "new_port actor direction i name peer_id peer_port_id = do {
     s_id \<leftarrow> strncpy_term CC_UUID_BUFFER_SIZE (fst i) (unat (snd i));
     s_name \<leftarrow> strncpy_term CC_MAX_PORT_NAME_LENGTH (fst name) (unat (snd name));
     s_peer_port_id \<leftarrow> strncpy_term CC_UUID_BUFFER_SIZE (fst peer_port_id) (unat (snd peer_port_id));
     s_peer_id \<leftarrow> (case peer_id of None \<Rightarrow> Some [] | Some (s, n) \<Rightarrow> strncpy_term CC_UUID_BUFFER_SIZE s (unat n));
     Some \<lparr>p_id = s_id, p_name = s_name, p_peer_port_id = s_peer_port_id, p_peer_id = s_peer_id,
       p_direction = direction, p_peer_port = None, p_tunnel = None, p_state = CC_PORT_DISCONNECTED, p_fifo = None,
       p_retries = 0, p_actor = actor\<rparr> }"

text \<open>
  The end of \<open>cc_port_create\<close>: a port restored from a saved state takes up its connection again, a new one
  is stored in the registry.
\<close>

definition port_restore :: "mp \<Rightarrow> addr \<Rightarrow> bytes \<Rightarrow> u32 \<Rightarrow> world \<Rightarrow> (addr option \<times> world) option" where
  "port_restore mp a r peer_id_len w = do {
     s \<leftarrow> cc_coder_decode_uint_from_map mp r ''constrained_state'';
     case s of
       None \<Rightarrow> do { w \<leftarrow> cc_port_free mp a False w; Some (None, w) }
     | Some n \<Rightarrow> do {
         state \<leftarrow> port_state_of n;
         w \<leftarrow> upd_port a (\<lambda>p. p\<lparr>p_state := state\<rparr>) w;
         port \<leftarrow> h_ports w a;
         if state = CC_PORT_ENABLED then
           (if strncmp0 (p_peer_id port) (n_id w) (strnlen (p_peer_id port) CC_UUID_BUFFER_SIZE)
            then do { (res, w) \<leftarrow> cc_port_connect_local mp a w; Some (Some a, w) }
            else do {
              t \<leftarrow> cc_tunnel_get_from_peerid_and_type (p_peer_id port) (unat peer_id_len) CC_TUNNEL_TYPE_TOKEN w;
              w \<leftarrow> upd_port a (\<lambda>p. p\<lparr>p_tunnel := t\<rparr>) w;
              w \<leftarrow> (if t \<noteq> None then cc_tunnel_add_ref t w else cc_port_set_state a CC_PORT_DISCONNECTED w);
              Some (Some a, w) })
         else Some (Some a, w) } }"

definition port_store :: "mp \<Rightarrow> addr \<Rightarrow> world \<Rightarrow> (addr option \<times> world) option" where
  "port_store mp a w =
     (if n_transport_client w \<noteq> None then do {
        port \<leftarrow> h_ports w a;
        (r, w) \<leftarrow> cc_proto_send_set_port mp a port cc_port_store_reply_handler w;
        if r \<noteq> CC_SUCCESS then do { w \<leftarrow> cc_port_free mp a False w; Some (None, w) }
        else Some (Some a, w) }
      else Some (Some a, w))"

text \<open>From the allocation on.\<close>

definition port_build ::
  "mp \<Rightarrow> addr \<Rightarrow> cc_port_direction \<Rightarrow> bytes \<Rightarrow> bytes option \<Rightarrow> bytes \<Rightarrow> bytes \<times> u32 \<Rightarrow> bytes \<times> u32 \<Rightarrow>
   (bytes \<times> u32) option \<Rightarrow> bytes \<times> u32 \<Rightarrow> world \<Rightarrow> (addr option \<times> world) option" where
  "port_build mp actor direction r obj_queue obj_properties i name peer_id peer_port_id w =
     (case mem_alloc w of
        (False, w) \<Rightarrow> Some (None, w)
      | (True, w) \<Rightarrow> do {
          let a = h_next w;
          port \<leftarrow> new_port actor direction i name peer_id peer_port_id;
          (fifo, w) \<leftarrow> cc_fifo_init mp obj_queue (Some obj_properties) (w\<lparr>h_next := a + 1\<rparr>);
          let w = w\<lparr>h_ports := (h_ports w)(a \<mapsto> port\<lparr>p_fifo := fifo\<rparr>)\<rparr>;
          if fifo = None then do { w \<leftarrow> cc_port_free mp a False w; Some (None, w) }
          else do {
            saved \<leftarrow> cc_coder_has_key mp r ''constrained_state'';
            if saved then port_restore mp a r (case peer_id of None \<Rightarrow> 0 | Some (_, n) \<Rightarrow> n) w
            else port_store mp a w } })"

definition cc_port_create ::
  "mp \<Rightarrow> addr \<Rightarrow> bytes \<Rightarrow> bytes \<Rightarrow> cc_port_direction \<Rightarrow> bytes \<Rightarrow> world \<Rightarrow> (addr option \<times> world) option" where
  "cc_port_create mp actor obj_port obj_prev_connections direction obj_connection_list w = do {
     i \<leftarrow> cc_coder_decode_string_from_map mp obj_port ''id'';
     case i of None \<Rightarrow> Some (None, w) | Some (port_id, port_id_len) \<Rightarrow> do {
     nm \<leftarrow> cc_coder_decode_string_from_map mp obj_port ''name'';
     case nm of None \<Rightarrow> Some (None, w) | Some name \<Rightarrow> do {
     pr \<leftarrow> cc_coder_get_value_from_map mp obj_port ''properties'';
     case pr of None \<Rightarrow> Some (None, w) | Some obj_properties \<Rightarrow> do {
     ro \<leftarrow> cc_coder_decode_string_from_map mp obj_properties ''routing'';
     case ro of None \<Rightarrow> Some (None, w) | Some (routing, routing_len) \<Rightarrow>
     if \<not> strncmp0 ''default'' routing (unat routing_len) \<and> \<not> strncmp0 ''fanout'' routing (unat routing_len)
     then Some (None, w)
     else do {
     np \<leftarrow> cc_coder_decode_uint_from_map mp obj_properties ''nbr_peers'';
     case np of None \<Rightarrow> Some (None, w) | Some nbr_peers \<Rightarrow>
     if nbr_peers \<noteq> 1 then Some (None, w)
     else do {
     obj_queue \<leftarrow> cc_coder_get_value_from_map mp obj_port ''queue'';
     peer \<leftarrow> port_peer mp obj_prev_connections obj_connection_list port_id port_id_len direction;
     case peer of None \<Rightarrow> Some (None, w)
     | Some (peer_id, peer_port_id) \<Rightarrow>
         port_build mp actor direction obj_port obj_queue obj_properties (port_id, port_id_len) name peer_id peer_port_id w } } } } } }"

section \<open>Serialising a port\<close>

definition cc_port_serialize_prev_connections :: "mp \<Rightarrow> bytes \<Rightarrow> cc_port \<Rightarrow> bytes" where
  "cc_port_serialize_prev_connections mp buffer port =
     (let n = strnlen (p_peer_id port) CC_UUID_BUFFER_SIZE;
          buffer = cc_coder_encode_str mp buffer (p_id port) (of_nat (strnlen (p_id port) CC_UUID_BUFFER_SIZE));
          buffer = cc_coder_encode_array mp buffer 1;
          buffer = cc_coder_encode_array mp buffer 2;
          buffer = (if n = 0 then cc_coder_encode_nil mp buffer
                    else cc_coder_encode_str mp buffer (p_peer_id port) (of_nat n))
      in cc_coder_encode_str mp buffer (p_peer_port_id port) (of_nat (strnlen (p_peer_port_id port) CC_UUID_BUFFER_SIZE)))"

text \<open>The loop over the slots of the queue; a slot outside the array is a fault.\<close>

fun encode_tokens :: "mp \<Rightarrow> cc_fifo \<Rightarrow> nat \<Rightarrow> nat \<Rightarrow> bytes \<Rightarrow> bytes option" where
  "encode_tokens mp fifo i 0 buffer = Some buffer"
| "encode_tokens mp fifo i (Suc n) buffer =
     (if i < length (f_tokens fifo)
      then do { buffer \<leftarrow> cc_token_encode mp buffer (f_tokens fifo ! i) False; encode_tokens mp fifo (Suc i) n buffer }
      else None)"

definition encode_queue :: "mp \<Rightarrow> bytes \<Rightarrow> cc_port \<Rightarrow> cc_fifo \<Rightarrow> bytes option" where
  "encode_queue mp buffer port fifo =
     (let reader = (if p_direction port = CC_PORT_DIRECTION_IN then p_id port else p_peer_port_id port);
          buffer = cc_coder_encode_kv_map mp buffer ''queue'' 7;
          buffer = cc_coder_encode_kv_str mp buffer ''queuetype'' ''fanout_fifo'' 11;
          buffer = cc_coder_encode_kv_uint mp buffer ''write_pos'' (f_write_pos fifo);
          buffer = cc_coder_encode_kv_array mp buffer ''readers'' 1;
          buffer = cc_coder_encode_str mp buffer reader (of_nat (strnlen reader CC_UUID_BUFFER_SIZE));
          buffer = cc_coder_encode_kv_uint mp buffer ''N'' (f_size fifo);
          buffer = cc_coder_encode_kv_map mp buffer ''tentative_read_pos'' 1;
          buffer = cc_coder_encode_kv_uint mp buffer reader (f_tentative_read_pos fifo);
          buffer = cc_coder_encode_kv_map mp buffer ''read_pos'' 1;
          buffer = cc_coder_encode_kv_uint mp buffer reader
                     (if p_direction port = CC_PORT_DIRECTION_IN then f_tentative_read_pos fifo else f_read_pos fifo);
          buffer = cc_coder_encode_kv_array mp buffer ''fifo'' (f_size fifo)
      in encode_tokens mp fifo 0 (unat (f_size fifo)) buffer)"

definition cc_port_serialize_port :: "mp \<Rightarrow> bytes \<Rightarrow> cc_port \<Rightarrow> bool \<Rightarrow> bytes option" where
  "cc_port_serialize_port mp buffer port include_state = do {
     fifo \<leftarrow> p_fifo port;
     let buffer = cc_coder_encode_kv_map mp buffer (p_name port) (if include_state then 5 else 4);
     let buffer = (if include_state then cc_coder_encode_kv_uint mp buffer ''constrained_state'' (port_state_nr (p_state port)) else buffer);
     let buffer = kv_id mp buffer ''id'' (p_id port);
     let buffer = kv_id mp buffer ''name'' (p_name port);
     buffer \<leftarrow> encode_queue mp buffer port fifo;
     let buffer = cc_coder_encode_kv_map mp buffer ''properties'' 3;
     let buffer = cc_coder_encode_kv_uint mp buffer ''nbr_peers'' 1;
     let buffer = (if p_direction port = CC_PORT_DIRECTION_IN
                   then cc_coder_encode_kv_str mp buffer ''direction'' ''in'' 2
                   else cc_coder_encode_kv_str mp buffer ''direction'' ''out'' 3);
     Some (cc_coder_encode_kv_str mp buffer ''routing'' ''default'' 7) }"

section \<open>Tokens between ports\<close>

lemma peek_token_ok:
  assumes "fifo_ok f" and "q_pend (fifo_abs f) < length (q_items (fifo_abs f))"
  shows "\<exists>f'. peek_token f = Some ((q_items (fifo_abs f) ! q_pend (fifo_abs f), f_tentative_read_pos f), f')
     \<and> fifo_ok f' \<and> fifo_abs f' = q_peek (fifo_abs f) \<and> f_read_pos f' = f_read_pos f \<and> f_write_pos f' = f_write_pos f"
proof -
  obtain i f' where p: "cc_fifo_peek f = Some (i, f')" "fifo_ok f'" "fifo_abs f' = q_peek (fifo_abs f)"
      "f_tokens f' ! i = q_items (fifo_abs f) ! q_pend (fifo_abs f)"
    using fifo_peek_ok[OF assms] by blast
  have "f_read_pos f' = f_read_pos f \<and> f_write_pos f' = f_write_pos f \<and> slot f' (f_tentative_read_pos f) = Some i"
    using p(1) by (auto simp: cc_fifo_peek_def Let_def)
  moreover from this fifo_ok_slot[OF p(2)] have "i < length (f_tokens f')"
    using p(2) by (auto simp: fifo_ok_def unat_gt_0)
  ultimately show ?thesis using p by (simp add: peek_token_def cc_fifo_com_peek_def Let_def)
qed

lemma with_fifo_eq:
  assumes "h_ports w a = Some p" and "p_fifo p = Some f" and "op f = Some (r, f')"
  shows "with_fifo a op w = Some (r, w\<lparr>h_ports := (h_ports w)(a \<mapsto> p\<lparr>p_fifo := Some f'\<rparr>)\<rparr>)"
  using assms by (simp add: with_fifo_def port_set_fifo_def upd_port_def)

lemma token_eta [simp]: "\<lparr>tok_value = tok_value t, tok_size = tok_size t\<rparr> = t"
  by simp

text \<open>An enabled out port with a token in its queue sends it.\<close>

lemma transmit_enabled:
  assumes "h_ports w a = Some p" and "p_state p = CC_PORT_ENABLED" and "p_direction p = CC_PORT_DIRECTION_OUT"
    and "h_actors w (p_actor p) = Some x" and "a_state x = CC_ACTOR_ENABLED" and "p_fifo p = Some f" and "fifo_ok f"
    and "q_pend (fifo_abs f) < length (q_items (fifo_abs f))"
  shows "cc_port_transmit mp a w = port_send_token mp a w"
proof -
  have "cc_fifo_tokens_available f 1" using fifo_avail[OF assms(7), of 1] assms(8) by simp
  then show ?thesis using assms(1-6) by (simp add: cc_port_transmit_def del: bind_Some_iff)
qed

lemma send_token_local:
  assumes a: "h_ports w a = Some p" "p_tunnel p = None" "p_peer_port p = Some b" "p_fifo p = Some f" "fifo_ok f"
      "q_pend (fifo_abs f) = 0" "q_items (fifo_abs f) = t # ts"
    and b: "a \<noteq> b" "h_ports w b = Some q" "p_fifo q = Some g" "fifo_ok g" "fifo_fresh g"
  shows "\<exists>f' g'. port_send_token mp a w
       = Some (w\<lparr>h_ports := (h_ports w)(a \<mapsto> p\<lparr>p_fifo := Some f'\<rparr>, b \<mapsto> q\<lparr>p_fifo := Some g'\<rparr>)\<rparr>)
     \<and> fifo_ok f' \<and> fifo_ok g' \<and> q_pend (fifo_abs f') = 0
     \<and> (if length (q_items (fifo_abs g)) < fifo_capacity g
        then q_items (fifo_abs f') = ts \<and> fifo_abs g' = (fifo_abs g)\<lparr>q_items := q_items (fifo_abs g) @ [t]\<rparr>
        else fifo_abs f' = fifo_abs f \<and> g' = g)"
proof -
  obtain f1 where f1: "peek_token f = Some ((t, f_tentative_read_pos f), f1)" "fifo_ok f1" "fifo_abs f1 = q_peek (fifo_abs f)"
    using peek_token_ok[OF a(5)] a(6,7) by auto
  let ?w1 = "w\<lparr>h_ports := (h_ports w)(a \<mapsto> p\<lparr>p_fifo := Some f1\<rparr>)\<rparr>"
  have w1: "with_fifo a peek_token w = Some ((t, f_tentative_read_pos f), ?w1)"
    using a(1,4) f1(1) by (intro with_fifo_eq)
  have twist: "(h_ports w)(a \<mapsto> x, b \<mapsto> y, a \<mapsto> z) = (h_ports w)(a \<mapsto> z, b \<mapsto> y)" for x y z
    using b(1) by (auto simp: fun_eq_iff)
  show ?thesis
  proof (cases "length (q_items (fifo_abs g)) < fifo_capacity g")
    case True
    from fifo_write_ok[OF b(4,5) True, of "tok_value t" "tok_size t"] obtain g' where
      g': "cc_fifo_write g (tok_value t) (tok_size t) = Some (CC_SUCCESS, g')" "fifo_ok g'"
        "fifo_abs g' = q_write (tok_value t) (tok_size t) (fifo_abs g)" by blast
    from fifo_commit_ok[OF f1(2), of False] obtain f' where
      f': "cc_fifo_commit_read f1 False = Some f'" "fifo_ok f'" "fifo_abs f' = q_commit (fifo_abs f1)" by blast
    let ?w2 = "?w1\<lparr>h_ports := (h_ports ?w1)(b \<mapsto> q\<lparr>p_fifo := Some g'\<rparr>)\<rparr>"
    have "with_fifo b (\<lambda>f. cc_fifo_write f (tok_value t) (tok_size t)) ?w1 = Some (CC_SUCCESS, ?w2)"
      using b g'(1) by (intro with_fifo_eq) simp_all
    moreover have "with_fifo a (\<lambda>f. do { f \<leftarrow> cc_fifo_commit_read f False; Some ((), f) }) ?w2
        = Some ((), ?w2\<lparr>h_ports := (h_ports ?w2)(a \<mapsto> p\<lparr>p_fifo := Some f1, p_fifo := Some f'\<rparr>)\<rparr>)"
      using b(1) f'(1) by (intro with_fifo_eq) simp_all
    ultimately have "port_send_token mp a w
        = Some (w\<lparr>h_ports := (h_ports w)(a \<mapsto> p\<lparr>p_fifo := Some f'\<rparr>, b \<mapsto> q\<lparr>p_fifo := Some g'\<rparr>)\<rparr>)"
      using w1 a(2,3) b(1) by (simp add: port_send_token_def twist del: bind_Some_iff)
    then show ?thesis using f' g' f1(3) a(6,7) True
      by (intro exI[of _ f'] exI[of _ g']) (simp add: q_commit_def q_peek_def q_write_def)
  next
    case False
    let ?f' = "cc_fifo_cancel_commit f1"
    have f': "fifo_ok ?f'" "fifo_abs ?f' = q_cancel (fifo_abs f1)"
      using fifo_cancel_ok[OF f1(2)] by (simp_all add: cc_fifo_cancel_def cc_fifo_cancel_commit_def)
    have "with_fifo b (\<lambda>f. cc_fifo_write f (tok_value t) (tok_size t)) ?w1
        = Some (CC_FAIL, ?w1\<lparr>h_ports := (h_ports ?w1)(b \<mapsto> q\<lparr>p_fifo := Some g\<rparr>)\<rparr>)"
      using b fifo_write_full[OF b(4) False] by (intro with_fifo_eq) simp_all
    moreover have "with_fifo a (\<lambda>f. Some ((), cc_fifo_cancel_commit f)) (?w1\<lparr>h_ports := (h_ports ?w1)(b \<mapsto> q\<lparr>p_fifo := Some g\<rparr>)\<rparr>)
        = Some ((), w\<lparr>h_ports := (h_ports w)(a \<mapsto> p\<lparr>p_fifo := Some ?f'\<rparr>, b \<mapsto> q\<lparr>p_fifo := Some g\<rparr>)\<rparr>)"
      using b(1) by (subst with_fifo_eq[where p = "p\<lparr>p_fifo := Some f1\<rparr>" and f = f1]) (simp_all add: twist)
    ultimately have "port_send_token mp a w
        = Some (w\<lparr>h_ports := (h_ports w)(a \<mapsto> p\<lparr>p_fifo := Some ?f'\<rparr>, b \<mapsto> q\<lparr>p_fifo := Some g\<rparr>)\<rparr>)"
      using w1 a(2,3) b(1) by (simp add: port_send_token_def del: bind_Some_iff)
    then show ?thesis using f' f1(3) a(6,7) b(4) False
      by (intro exI[of _ ?f'] exI[of _ g]) (simp add: q_cancel_def q_peek_def)
  qed
qed

lemma send_token_same:
  assumes "cc_proto_send_token mp p t s w = Some (r, w')"
  shows "env.more w' = env.more w"
    and "r \<noteq> CC_SUCCESS \<Longrightarrow> e_sent w' = e_sent w" and "r = CC_SUCCESS \<Longrightarrow> \<exists>frame. e_sent w' = e_sent w @ [frame]"
proof -
  obtain tc b n where "cc_transport_send tc b n w = Some (r, w')"
    using assms by (auto simp: cc_proto_send_token_def proto_send_def Let_def split: if_splits)
  from transport_send_more[OF this] show "env.more w' = env.more w"
    "r \<noteq> CC_SUCCESS \<Longrightarrow> e_sent w' = e_sent w" "r = CC_SUCCESS \<Longrightarrow> \<exists>frame. e_sent w' = e_sent w @ [frame]"
    by (auto split: if_splits)
qed

lemma send_token_tunnel:
  assumes "h_ports w a = Some p" "p_tunnel p = Some c" "p_fifo p = Some f" "fifo_ok f"
    and "q_pend (fifo_abs f) < length (q_items (fifo_abs f))" and "port_send_token mp a w = Some w'"
  shows "\<exists>f'. h_ports w' = (h_ports w)(a \<mapsto> p\<lparr>p_fifo := Some f'\<rparr>) \<and> h_actors w' = h_actors w \<and> n_actors w' = n_actors w
     \<and> fifo_ok f' \<and> f_read_pos f' = f_read_pos f \<and> f_write_pos f' = f_write_pos f
     \<and> (if e_sent w' = e_sent w then fifo_abs f' = fifo_abs f
        else (\<exists>frame. e_sent w' = e_sent w @ [frame]) \<and> fifo_abs f' = q_peek (fifo_abs f))"
proof -
  obtain t f1 where f1: "peek_token f = Some ((t, f_tentative_read_pos f), f1)" "fifo_ok f1" "fifo_abs f1 = q_peek (fifo_abs f)"
      "f_read_pos f1 = f_read_pos f" "f_write_pos f1 = f_write_pos f"
    using peek_token_ok[OF assms(4,5)] by blast
  let ?w1 = "w\<lparr>h_ports := (h_ports w)(a \<mapsto> p\<lparr>p_fifo := Some f1\<rparr>)\<rparr>"
  have w1: "with_fifo a peek_token w = Some ((t, f_tentative_read_pos f), ?w1)"
    using assms(1,3) f1(1) by (intro with_fifo_eq)
  obtain r w2 where s: "cc_proto_send_token mp (p\<lparr>p_fifo := Some f1\<rparr>) t (f_tentative_read_pos f) ?w1 = Some (r, w2)"
    using assms(2,6) w1 by (auto simp: port_send_token_def)
  note S = send_token_same[OF s]
  note F = node_eqD[OF S(1)]
  show ?thesis
  proof (cases "r = CC_SUCCESS")
    case True
    with assms(2,6) w1 s have "w' = w2" by (simp add: port_send_token_def)
    with True F f1 S(3) show ?thesis by (intro exI[of _ f1]) auto
  next
    case False
    let ?f' = "cc_fifo_com_cancel_read f1 (f_tentative_read_pos f)"
    have "rd f1 \<le> tn f" "tn f \<le> wr f1" "tn f - rd f1 = q_pend (fifo_abs f)"
      using assms(4) f1(4,5) by (simp_all add: fifo_ok_def fifo_abs_def)
    with fifo_com_cancel_ok[OF f1(2), of "f_tentative_read_pos f"] f1(3)
    have f': "fifo_ok ?f'" "fifo_abs ?f' = fifo_abs f" by (simp_all add: q_peek_def)
    have "with_fifo a (\<lambda>f'. Some ((), cc_fifo_com_cancel_read f' (f_tentative_read_pos f))) w2
        = Some ((), w2\<lparr>h_ports := (h_ports w2)(a \<mapsto> p\<lparr>p_fifo := Some f1, p_fifo := Some ?f'\<rparr>)\<rparr>)"
      using F by (intro with_fifo_eq) simp_all
    with assms(2,6) w1 s False have "w' = w2\<lparr>h_ports := (h_ports w2)(a \<mapsto> p\<lparr>p_fifo := Some ?f'\<rparr>)\<rparr>"
      by (simp add: port_send_token_def)
    with F f' f1(4,5) S(2) False show ?thesis
      by (intro exI[of _ ?f']) (simp add: cc_fifo_com_cancel_read_def)
  qed
qed

lemma token_reply_eq:
  assumes "cc_port_get i n w = Some (Some a)" and "h_ports w a = Some p" and "p_fifo p = Some f"
    and "cc_fifo_com_commit_read f s = Some f'"
  shows "cc_node_handle_token_reply i n CC_PORT_REPLY_TYPE_ACK s w
      = Some (w\<lparr>h_ports := (h_ports w)(a \<mapsto> p\<lparr>p_fifo := Some f'\<rparr>)\<rparr>)"
    and "cc_node_handle_token_reply i n CC_PORT_REPLY_TYPE_NACK s w
      = Some (w\<lparr>h_ports := (h_ports w)(a \<mapsto> p\<lparr>p_fifo := Some (cc_fifo_com_cancel_read f s)\<rparr>)\<rparr>)"
  using assms by (simp_all add: cc_node_handle_token_reply_def with_fifo_eq del: bind_Some_iff)

lemma handle_token_effect:
  assumes "h_ports w a = Some p" "h_actors w (p_actor p) = Some x" "a_state x = CC_ACTOR_ENABLED"
    and "p_fifo p = Some f" "fifo_ok f" "fifo_fresh f" "e_alloc w = []"
  shows "\<exists>r f'. cc_node_handle_token a d n s w = Some (r, w\<lparr>h_ports := (h_ports w)(a \<mapsto> p\<lparr>p_fifo := Some f'\<rparr>)\<rparr>) \<and> fifo_ok f'
     \<and> (if length (q_items (fifo_abs f)) < fifo_capacity f
        then r = CC_SUCCESS \<and> fifo_abs f' = (if q_base (fifo_abs f) + length (q_items (fifo_abs f)) \<le> unat s
               then q_write (Some (take n d)) n (fifo_abs f) else fifo_abs f)
        else r = CC_FAIL \<and> f' = f)"
proof -
  have slots: "cc_fifo_slots_available f 1 = Some (length (q_items (fifo_abs f)) < fifo_capacity f)"
    using fifo_slots[OF assms(5), of 1] by auto
  have wr: "q_base (fifo_abs f) + length (q_items (fifo_abs f)) = wr f"
    using assms(5) by (simp add: fifo_abs_def fifo_ok_def)
  show ?thesis
  proof (cases "length (q_items (fifo_abs f)) < fifo_capacity f")
    case False
    have "w\<lparr>h_ports := (h_ports w)(a \<mapsto> p\<lparr>p_fifo := Some f\<rparr>)\<rparr> = w"
      using assms(1,4) by (cases p) (simp add: fun_upd_idem)
    then show ?thesis using False assms slots by (auto simp: cc_node_handle_token_def intro!: exI[of _ f])
  next
    case True
    obtain f' where f': "cc_fifo_com_write f (Some (take n d)) n s = Some (CC_SUCCESS, f')" "fifo_ok f'"
        "fifo_abs f' = (if wr f \<le> unat s then q_write (Some (take n d)) n (fifo_abs f) else fifo_abs f)"
      using fifo_write_ok[OF assms(5,6) True, of "Some (take n d)" n] assms(5)
      by (cases "wr f \<le> unat s") (auto simp: cc_fifo_com_write_def word_le_nat_alt)
    have "with_fifo a (\<lambda>f. cc_fifo_com_write f (Some (take n d)) n s) w
        = Some (CC_SUCCESS, w\<lparr>h_ports := (h_ports w)(a \<mapsto> p\<lparr>p_fifo := Some f'\<rparr>)\<rparr>)"
      using assms(1,4) f'(1) by (intro with_fifo_eq)
    then have "cc_node_handle_token a d n s w = Some (CC_SUCCESS, w\<lparr>h_ports := (h_ports w)(a \<mapsto> p\<lparr>p_fifo := Some f'\<rparr>)\<rparr>)"
      using assms True slots by (simp add: cc_node_handle_token_def del: bind_Some_iff)
    then show ?thesis using f' True wr by (intro exI[of _ CC_SUCCESS] exI[of _ f']) simp
  qed
qed

section \<open>The state of ports and actors\<close>

lemma ports_state_cong: "h_ports w' = h_ports w \<Longrightarrow> ports_state w' l = ports_state w l"
  by (induction l) (simp_all cong: if_cong)

lemma actor_ports_state_cong: "h_ports w' = h_ports w \<Longrightarrow> actor_ports_state w' x = actor_ports_state w x"
  by (simp add: actor_ports_state_def ports_state_cong[of w'] cong: if_cong)

lemma ports_state_enabled:
  "ports_state w l = Some CC_ACTOR_ENABLED \<longleftrightarrow> (\<forall>i \<in> set l. \<exists>q. h_ports w (li_data i) = Some q \<and> p_state q = CC_PORT_ENABLED)"
  by (induction l) auto

lemma ports_state_delete:
  "ports_state w l = Some CC_ACTOR_DO_DELETE \<Longrightarrow> \<exists>i \<in> set l. \<exists>q. h_ports w (li_data i) = Some q \<and> p_state q = CC_PORT_DO_DELETE"
  by (induction l) (auto split: if_splits)

definition with_state :: "cc_port_state \<Rightarrow> cc_port \<Rightarrow> cc_port" where
  "with_state s p = (if s = CC_PORT_ENABLED \<and> p_state p \<noteq> CC_PORT_ENABLED then p\<lparr>p_retries := 0\<rparr> else p)\<lparr>p_state := s\<rparr>"

lemma with_state_simps [simp]:
  "p_state (with_state s p) = s" "p_tunnel (with_state s p) = p_tunnel p" "p_peer_port (with_state s p) = p_peer_port p"
  "p_peer_id (with_state s p) = p_peer_id p" "p_fifo (with_state s p) = p_fifo p" "p_actor (with_state s p) = p_actor p"
  "p_id (with_state s p) = p_id p" "p_peer_port_id (with_state s p) = p_peer_port_id p"
  "p_retries (with_state s p) = (if s = CC_PORT_ENABLED \<and> p_state p \<noteq> CC_PORT_ENABLED then 0 else p_retries p)"
  by (simp_all add: with_state_def)

lemma set_state_eq:
  assumes "cc_port_set_state a s w = Some w'"
  obtains p x st where "h_ports w a = Some p" "h_actors w (p_actor p) = Some x"
    "w' = w\<lparr>h_ports := (h_ports w)(a \<mapsto> with_state s p), h_actors := (h_actors w)(p_actor p \<mapsto> x\<lparr>a_state := st\<rparr>)\<rparr>"
    "actor_ports_state w' x = Some st"
proof -
  obtain p where p: "h_ports w a = Some p" using assms by (auto simp: cc_port_set_state_def)
  let ?w = "w\<lparr>h_ports := (h_ports w)(a \<mapsto> with_state s p)\<rparr>"
  have c: "cc_actor_port_state_changed (p_actor p) ?w = Some w'"
    using assms p by (auto simp: cc_port_set_state_def upd_port_def Let_def with_state_def split: if_splits)
  then obtain x st where x: "h_actors w (p_actor p) = Some x"
      "actor_ports_state ?w x = Some st"
      "w' = ?w\<lparr>h_actors := (h_actors w)(p_actor p \<mapsto> x\<lparr>a_state := st\<rparr>)\<rparr>"
    by (auto simp: cc_actor_port_state_changed_def cc_actor_set_state_def upd_actor_def)
  have "actor_ports_state w' x = actor_ports_state ?w x"
    by (rule actor_ports_state_cong) (simp add: x(3))
  then show thesis using p x by (intro that[of p x st]) simp_all
qed

text \<open>What leaves the ports alone.\<close>

lemma link_remove_ref_ports:
  "cc_link_remove_ref l w = Some w' \<Longrightarrow> h_ports w' = h_ports w \<and> h_actors w' = h_actors w \<and> n_actors w' = n_actors w \<and> n_id w' = n_id w"
  by (auto simp: cc_link_remove_ref_def upd_link_def cc_link_free_def split: option.splits if_splits)

lemma tunnel_free_ports:
  "cc_tunnel_free t b w = Some w' \<Longrightarrow> h_ports w' = h_ports w \<and> h_actors w' = h_actors w \<and> n_actors w' = n_actors w \<and> n_id w' = n_id w"
  by (auto simp: cc_tunnel_free_def split: option.splits if_splits dest!: link_remove_ref_ports)

lemma tunnel_remove_ref_ports:
  assumes "cc_tunnel_remove_ref mp t w = Some w'"
  shows "h_ports w' = h_ports w \<and> h_actors w' = h_actors w \<and> n_actors w' = n_actors w \<and> n_id w' = n_id w"
proof (cases t)
  case (Some c)
  then obtain w1 x where u: "upd_tunnel c (\<lambda>t. t\<lparr>t_ref_count := t_ref_count t - 1\<rparr>) w = Some w1" "h_tunnels w1 c = Some x"
    using assms by (auto simp: cc_tunnel_remove_ref_def)
  then have w1: "h_ports w1 = h_ports w \<and> h_actors w1 = h_actors w \<and> n_actors w1 = n_actors w \<and> n_id w1 = n_id w"
    by (auto simp: upd_tunnel_def)
  show ?thesis
  proof (cases "t_ref_count x = 0")
    case True
    then obtain w2 where "cc_tunnel_free (Some c) True w2 = Some w'" "same_node w1 w2"
      using assms Some u send_tunnel_destroy_same by (fastforce simp: cc_tunnel_remove_ref_def split: if_splits)
    with w1 same_nodeD tunnel_free_ports show ?thesis by metis
  next
    case False
    with assms Some u w1 show ?thesis by (auto simp: cc_tunnel_remove_ref_def)
  qed
qed (use assms in \<open>simp add: cc_tunnel_remove_ref_def\<close>)

lemma drop_tunnel_eq:
  assumes "port_drop_tunnel mp a w = Some w'"
  obtains p where "h_ports w a = Some p" "h_ports w' = (h_ports w)(a \<mapsto> p\<lparr>p_tunnel := None\<rparr>)" "h_actors w' = h_actors w"
    "n_id w' = n_id w"
proof -
  obtain p where p: "h_ports w a = Some p" using assms by (auto simp: port_drop_tunnel_def)
  have "h_ports w' = (h_ports w)(a \<mapsto> p\<lparr>p_tunnel := None\<rparr>) \<and> h_actors w' = h_actors w \<and> n_id w' = n_id w"
  proof (cases "p_tunnel p")
    case None
    then have "p = p\<lparr>p_tunnel := None\<rparr>" by (cases p) simp
    with None assms p show ?thesis by (simp add: port_drop_tunnel_def fun_upd_idem)
  next
    case (Some c)
    with assms p obtain w1 where "cc_tunnel_remove_ref mp (Some c) w = Some w1" "upd_port a (\<lambda>p. p\<lparr>p_tunnel := None\<rparr>) w1 = Some w'"
      by (auto simp: port_drop_tunnel_def)
    with tunnel_remove_ref_ports[OF this(1)] p show ?thesis by (auto simp: upd_port_def)
  qed
  with p that show thesis by blast
qed

lemma attach_eq:
  assumes "port_attach a b w = Some w'"
  obtains p where "h_ports w a = Some p"
    "h_ports w' = (h_ports w)(a \<mapsto> with_state CC_PORT_ENABLED
       (p\<lparr>p_peer_port := Some b, p_peer_id := cstr (take CC_UUID_BUFFER_SIZE (n_id w))\<rparr>))" "n_id w' = n_id w"
proof -
  obtain w1 where w1: "upd_port a (\<lambda>p. p\<lparr>p_peer_port := Some b, p_peer_id := cstr (take CC_UUID_BUFFER_SIZE (n_id w))\<rparr>) w = Some w1"
      "cc_port_set_state a CC_PORT_ENABLED w1 = Some w'"
    using assms by (auto simp: port_attach_def)
  obtain p where "h_ports w a = Some p" using w1(1) by (auto simp: upd_port_def)
  with w1 show thesis by (auto simp: upd_port_def intro!: that elim!: set_state_eq)
qed

lemma actor_enabled_ports:
  "actor_ports_state w x = Some CC_ACTOR_ENABLED \<longleftrightarrow>
     (\<forall>i \<in> set (a_in_ports x @ a_out_ports x). \<exists>q. h_ports w (li_data i) = Some q \<and> p_state q = CC_PORT_ENABLED)"
  using ports_state_enabled[of w "a_in_ports x"] ports_state_enabled[of w "a_out_ports x"]
  by (auto simp: actor_ports_state_def)

lemma actor_delete_ports:
  "actor_ports_state w x = Some CC_ACTOR_DO_DELETE \<Longrightarrow>
     \<exists>i \<in> set (a_in_ports x @ a_out_ports x). \<exists>q. h_ports w (li_data i) = Some q \<and> p_state q = CC_PORT_DO_DELETE"
  using ports_state_delete[of w "a_in_ports x"] ports_state_delete[of w "a_out_ports x"]
  by (auto simp: actor_ports_state_def split: if_splits)

lemma disconnect_local:
  assumes "h_ports w a = Some p" "p_fifo p = Some f" "p_tunnel p = None" "p_peer_port p = Some b" "a \<noteq> b" "h_ports w b = Some q"
    and "cc_port_disconnect mp a u w = Some w'"
  shows "\<exists>p' q'. h_ports w' a = Some p' \<and> p_state p' = CC_PORT_DISCONNECTED \<and> p_tunnel p' = None \<and> p_peer_port p' = None
     \<and> p_peer_id p' = [] \<and> p_fifo p' = Some (cc_fifo_cancel f)
     \<and> h_ports w' b = Some q' \<and> p_state q' = CC_PORT_DISCONNECTED \<and> p_peer_port q' = p_peer_port q \<and> p_tunnel q' = p_tunnel q"
proof -
  let ?w1 = "w\<lparr>h_ports := (h_ports w)(a \<mapsto> p\<lparr>p_tunnel := None\<rparr>)\<rparr>"
  obtain w2 where w2: "cc_port_set_state b CC_PORT_DISCONNECTED ?w1 = Some w2"
    using assms(1-4,7) by (auto simp: cc_port_disconnect_def upd_port_def)
  then have h2: "h_ports w2 = (h_ports w)(a \<mapsto> p\<lparr>p_tunnel := None\<rparr>, b \<mapsto> with_state CC_PORT_DISCONNECTED q)"
    using assms(5,6) by (elim set_state_eq) simp
  let ?p3 = "p\<lparr>p_tunnel := None, p_peer_port := None, p_peer_id := []\<rparr>"
  let ?w3 = "w2\<lparr>h_ports := (h_ports w2)(a \<mapsto> ?p3)\<rparr>"
  obtain w4 where w4: "cc_port_set_state a CC_PORT_DISCONNECTED ?w3 = Some w4"
    and rest: "do { port \<leftarrow> h_ports w4 a; fifo \<leftarrow> p_fifo port; port_set_fifo a (cc_fifo_cancel fifo) w4 } = Some w'"
    using assms(1-4,5,7) w2 h2 by (auto simp: cc_port_disconnect_def upd_port_def)
  have h4: "h_ports w4 = (h_ports w2)(a \<mapsto> with_state CC_PORT_DISCONNECTED ?p3)"
    using w4 by (elim set_state_eq) simp
  show ?thesis using rest h4 h2 assms(2,5) by (auto simp: port_set_fifo_def upd_port_def)
qed

section \<open>An example\<close>

text \<open>
  A runtime with two actors: the out port 10 of actor 20, with one token, is connected to the in port 11 of
  actor 21.
\<close>

definition one_token :: "bytes option \<Rightarrow> nat \<Rightarrow> cc_fifo" where
  "one_token d n = (empty_fifo 2)\<lparr>f_tokens := [\<lparr>tok_value = d, tok_size = n\<rparr>, null_token], f_write_pos := 1\<rparr>"

lemma one_token_ok:
  "fifo_ok (one_token d n)" "q_items (fifo_abs (one_token d n)) = [\<lparr>tok_value = d, tok_size = n\<rparr>]"
  "q_pend (fifo_abs (one_token d n)) = 0" "q_base (fifo_abs (one_token d n)) = 0"
  "f_tentative_read_pos (one_token d n) = 0"
proof -
  have w: "cc_fifo_write (empty_fifo 2) d n = Some (CC_SUCCESS, one_token d n)"
    by (simp add: cc_fifo_write_def cc_fifo_slots_available_def slot_def set_slot_def empty_fifo_def
        one_token_def set_data_simp replicate_2)
  have "fifo_run 2 (empty_fifo 2) [] []" by (rule fr_init) simp
  from fifo_run_hist[OF fr_write[OF this _ w]]
  show "fifo_ok (one_token d n)" "q_items (fifo_abs (one_token d n)) = [\<lparr>tok_value = d, tok_size = n\<rparr>]"
    by (simp_all add: hist_ok_def fifo_fresh_def empty_fifo_def)
qed (simp_all add: fifo_abs_def one_token_def empty_fifo_def)

lemma empty_ok: "fifo_ok (empty_fifo 2)" "q_items (fifo_abs (empty_fifo 2)) = []" "fifo_fresh (empty_fifo 2)"
  "fifo_capacity (empty_fifo 2) = 1"
proof -
  have "fifo_run 2 (empty_fifo 2) [] []" by (rule fr_init) simp
  from fifo_run_hist[OF this] show "fifo_ok (empty_fifo 2)" "q_items (fifo_abs (empty_fifo 2)) = []"
    by (simp_all add: hist_ok_def)
qed (simp_all add: fifo_fresh_def empty_fifo_def fifo_capacity_def)

definition example_port_item :: "bytes \<Rightarrow> addr \<Rightarrow> addr cc_list_item" where
  "example_port_item i a = \<lparr>li_id = i, li_id_len = length i, li_data = a, li_data_len = 0, li_free_id = False\<rparr>"

definition example_actor :: "bytes \<Rightarrow> addr cc_list \<Rightarrow> addr cc_list \<Rightarrow> cc_actor" where
  "example_actor i ins outs = \<lparr>a_type = Some ''io.Test'', a_id = Some i, a_name = Some i, a_state_was = CC_STATE_WAS_ACTOR,
     a_migrate_to = [], a_state = CC_ACTOR_ENABLED, a_instance = None, a_in_ports = ins, a_out_ports = outs, a_private_attributes = [], a_managed_attributes = [],
     a_impl = None, a_requires = None\<rparr>"

definition example_out :: "addr option \<Rightarrow> addr option \<Rightarrow> cc_port" where
  "example_out peer tunnel = \<lparr>p_id = ''o'', p_name = ''out'', p_peer_port_id = ''i'', p_peer_id = ''rt2'',
     p_direction = CC_PORT_DIRECTION_OUT, p_peer_port = peer, p_tunnel = tunnel, p_state = CC_PORT_ENABLED,
     p_fifo = Some (one_token (Some (enc mp_ref (MUint 7))) (length (enc mp_ref (MUint 7)))), p_retries = 0, p_actor = 20\<rparr>"

definition example_in :: "addr option \<Rightarrow> cc_port" where
  "example_in peer = \<lparr>p_id = ''i'', p_name = ''in'', p_peer_port_id = ''o'', p_peer_id = ''rt1'',
     p_direction = CC_PORT_DIRECTION_IN, p_peer_port = peer, p_tunnel = None, p_state = CC_PORT_ENABLED,
     p_fifo = Some (empty_fifo 2), p_retries = 0, p_actor = 21\<rparr>"

definition example_ports :: "addr option \<Rightarrow> world" where
  "example_ports tunnel = example_world\<lparr>
     h_ports := [10 \<mapsto> example_out (if tunnel = None then Some 11 else None) tunnel, 11 \<mapsto> example_in (Some 10)],
     h_actors := [20 \<mapsto> example_actor ''A'' [] [example_port_item ''o'' 10], 21 \<mapsto> example_actor ''B'' [example_port_item ''i'' 11] []],
     n_actors := [example_port_item ''A'' 20, example_port_item ''B'' 21]\<rparr>"

lemma example_disconnect:
  "\<exists>w1 w2. cc_port_disconnect mp_ref 10 True (example_ports None) = Some w1 \<and> cc_port_free mp_ref 10 False w1 = Some w2"
  by (simp add: cc_port_disconnect_def cc_port_set_state_def upd_port_def cc_actor_port_state_changed_def
      actor_ports_state_def cc_actor_set_state_def upd_actor_def Let_def port_set_fifo_def cc_port_free_def
      example_ports_def example_out_def example_in_def example_actor_def example_port_item_def)

lemmas example_defs = example_ports_def example_out_def example_in_def example_actor_def example_port_item_def

section \<open>Properties\<close>

text \<open>
  C3: a local connection moves tokens one by one. An enabled out port whose peer is on the same runtime hands the
  first token of its queue to the peer's queue when that has room, unchanged and exactly once; when it is full both
  queues stay as they are. Nothing else in the runtime changes.
\<close>

theorem local_transmit_moves_token:
  assumes "h_ports w a = Some p" "p_state p = CC_PORT_ENABLED" "p_direction p = CC_PORT_DIRECTION_OUT"
    and "h_actors w (p_actor p) = Some x" "a_state x = CC_ACTOR_ENABLED"
    and "p_tunnel p = None" "p_peer_port p = Some b" "p_fifo p = Some f" "fifo_ok f"
    and "q_pend (fifo_abs f) = 0" "q_items (fifo_abs f) = t # ts"
    and "a \<noteq> b" "h_ports w b = Some q" "p_fifo q = Some g" "fifo_ok g" "fifo_fresh g"
  shows "\<exists>f' g'. cc_port_transmit mp a w
       = Some (w\<lparr>h_ports := (h_ports w)(a \<mapsto> p\<lparr>p_fifo := Some f'\<rparr>, b \<mapsto> q\<lparr>p_fifo := Some g'\<rparr>)\<rparr>)
     \<and> fifo_ok f' \<and> fifo_ok g' \<and> q_pend (fifo_abs f') = 0
     \<and> (if length (q_items (fifo_abs g)) < fifo_capacity g
        then q_items (fifo_abs f') = ts \<and> fifo_abs g' = (fifo_abs g)\<lparr>q_items := q_items (fifo_abs g) @ [t]\<rparr>
        else fifo_abs f' = fifo_abs f \<and> g' = g)"
proof -
  have "cc_port_transmit mp a w = port_send_token mp a w"
    using transmit_enabled[OF assms(1-5,8,9)] assms(10,11) by simp
  then show ?thesis using send_token_local[OF assms(1,6-16)] by simp
qed

theorem local_transmit_moves_token_witness:
  "\<exists>w' f' g'. cc_port_transmit mp_ref 10 (example_ports None) = Some w'
     \<and> h_ports w' 10 = Some (example_out (Some 11) None\<lparr>p_fifo := Some f'\<rparr>) \<and> q_items (fifo_abs f') = []
     \<and> h_ports w' 11 = Some (example_in (Some 10)\<lparr>p_fifo := Some g'\<rparr>)
     \<and> q_items (fifo_abs g') = [\<lparr>tok_value = Some (enc mp_ref (MUint 7)), tok_size = length (enc mp_ref (MUint 7))\<rparr>]"
proof -
  let ?w = "example_ports None"
  have "h_ports ?w 10 = Some (example_out (Some 11) None)" "h_ports ?w 11 = Some (example_in (Some 10))"
    "h_actors ?w 20 = Some (example_actor ''A'' [] [example_port_item ''o'' 10])"
    by (simp_all add: example_ports_def)
  from local_transmit_moves_token[OF this(1) _ _ _ _ _ _ _ one_token_ok(1) one_token_ok(3) one_token_ok(2) _ this(2) _ empty_ok(1,3), of _ _ _ mp_ref]
    this(3)
  show ?thesis by (fastforce simp: example_out_def example_in_def example_actor_def empty_ok simp del: enc.simps)
qed

text \<open>
  C18: a token sent over a tunnel is kept until it is acknowledged. When the transport took the frame, the token is
  marked as on its way and stays in the queue; the acknowledgement of its sequence number releases it, a negative one
  makes it the next token to send again. When the transport refused the frame nothing has changed.
\<close>

theorem tunnel_transmit_handshake:
  assumes "h_ports w a = Some p" "p_state p = CC_PORT_ENABLED" "p_direction p = CC_PORT_DIRECTION_OUT"
    and "h_actors w (p_actor p) = Some x" "a_state x = CC_ACTOR_ENABLED"
    and "p_tunnel p = Some c" "p_fifo p = Some f" "fifo_ok f"
    and "q_pend (fifo_abs f) = 0" "q_items (fifo_abs f) = t # ts"
    and "cc_port_transmit mp a w = Some w1" and "cc_port_get i n w1 = Some (Some a)"
  shows "\<exists>f1. h_ports w1 = (h_ports w)(a \<mapsto> p\<lparr>p_fifo := Some f1\<rparr>) \<and> q_items (fifo_abs f1) = t # ts \<and>
    (if e_sent w1 = e_sent w then fifo_abs f1 = fifo_abs f
     else \<exists>f2 w2 f3 w3. q_pend (fifo_abs f1) = 1
       \<and> cc_node_handle_token_reply i n CC_PORT_REPLY_TYPE_ACK (of_nat (q_base (fifo_abs f))) w1 = Some w2
       \<and> h_ports w2 a = Some (p\<lparr>p_fifo := Some f2\<rparr>) \<and> q_items (fifo_abs f2) = ts \<and> q_pend (fifo_abs f2) = 0
       \<and> cc_node_handle_token_reply i n CC_PORT_REPLY_TYPE_NACK (of_nat (q_base (fifo_abs f))) w1 = Some w3
       \<and> h_ports w3 a = Some (p\<lparr>p_fifo := Some f3\<rparr>) \<and> fifo_abs f3 = fifo_abs f)"
proof -
  have pend: "q_pend (fifo_abs f) < length (q_items (fifo_abs f))" using assms(9,10) by simp
  have "port_send_token mp a w = Some w1"
    using transmit_enabled[OF assms(1-5,7,8) pend] assms(11) by simp
  from send_token_tunnel[OF assms(1,6-8) pend this] obtain f1 where f1:
    "h_ports w1 = (h_ports w)(a \<mapsto> p\<lparr>p_fifo := Some f1\<rparr>)" "fifo_ok f1" "f_read_pos f1 = f_read_pos f"
    "f_write_pos f1 = f_write_pos f"
    "if e_sent w1 = e_sent w then fifo_abs f1 = fifo_abs f else fifo_abs f1 = q_peek (fifo_abs f)"
    by (auto split: if_splits)
  show ?thesis
  proof (cases "e_sent w1 = e_sent w")
    case True
    with f1 assms(10) show ?thesis by (intro exI[of _ f1]) simp
  next
    case False
    let ?s = "of_nat (q_base (fifo_abs f)) :: u32"
    have s: "?s = f_read_pos f" "unat ?s = q_base (fifo_abs f1)" using f1(3) by (simp_all add: fifo_abs_def)
    have abs1: "fifo_abs f1 = q_peek (fifo_abs f)" using f1(5) False by simp
    obtain f2 where f2: "cc_fifo_com_commit_read f1 ?s = Some f2" "fifo_abs f2 = q_commit (fifo_abs f1)"
      using fifo_com_commit_ok[OF f1(2), of ?s] s(2) by auto
    have "rd f1 \<le> unat ?s" "unat ?s \<le> wr f1" using f1(2,3) s(1) by (auto simp: fifo_ok_def)
    from fifo_com_cancel_ok[OF f1(2) this]
    have f3: "fifo_abs (cc_fifo_com_cancel_read f1 ?s) = fifo_abs f"
      using abs1 s(1) f1(3) assms(9) by (simp add: q_peek_def)
    have p1: "h_ports w1 a = Some (p\<lparr>p_fifo := Some f1\<rparr>)" using f1(1) by simp
    have "p_fifo (p\<lparr>p_fifo := Some f1\<rparr>) = Some f1" by simp
    note R = token_reply_eq[OF assms(12) p1 this f2(1)]
    show ?thesis
      using R f1(1) abs1 f2(2) f3 False assms(9,10)
      by (intro exI[of _ f1]) (auto simp: q_peek_def q_commit_def)
  qed
qed

lemma example_token_fits:
  "\<exists>b. msg_token mp_ref ''rt1'' ''t'' (example_out None (Some 0)\<lparr>p_fifo := f\<rparr>)
      \<lparr>tok_value = Some (enc mp_ref (MUint 7)), tok_size = length (enc mp_ref (MUint 7))\<rparr> 0 = Some b \<and> length b \<le> 900"
  by (subst msgpuck.token_enc[OF ref.msgpuck_axioms, where v = "MUint 7"])
    (simp_all add: example_out_def tunnel_data_v_def idv_def CC_UUID_BUFFER_SIZE_def mp_ref_def enc_num_def)

lemma example_transmit:
  "\<exists>w1. cc_port_transmit mp_ref 10 (example_ports (Some 0)) = Some w1 \<and> e_sent w1 \<noteq> [] \<and> n_actors w1 = n_actors (example_ports (Some 0))
     \<and> h_actors w1 = h_actors (example_ports (Some 0))"
proof -
  let ?w = "example_ports (Some 0)" and ?p = "example_out None (Some 0)"
    and ?t = "\<lparr>tok_value = Some (enc mp_ref (MUint 7)), tok_size = length (enc mp_ref (MUint 7))\<rparr>"
  let ?f = "one_token (Some (enc mp_ref (MUint 7))) (length (enc mp_ref (MUint 7)))"
  have p: "h_ports ?w 10 = Some ?p" "p_fifo ?p = Some ?f"
    "h_actors ?w (p_actor ?p) = Some (example_actor ''A'' [] [example_port_item ''o'' 10])"
    by (simp_all add: example_ports_def example_out_def)
  obtain f1 where f1: "peek_token ?f = Some ((?t, 0), f1)"
    using peek_token_ok[OF one_token_ok(1), of "Some (enc mp_ref (MUint 7))" "length (enc mp_ref (MUint 7))"]
    by (auto simp: one_token_ok simp del: enc.simps)
  let ?p1 = "?p\<lparr>p_fifo := Some f1\<rparr>" and ?w1 = "?w\<lparr>h_ports := (h_ports ?w)(10 \<mapsto> ?p\<lparr>p_fifo := Some f1\<rparr>)\<rparr>"
  have w1: "with_fifo 10 peek_token ?w = Some ((?t, 0), ?w1)" using p(1,2) f1 by (intro with_fifo_eq)
  obtain b where b: "msg_token mp_ref ''rt1'' ''t'' ?p1 ?t 0 = Some b" "length b \<le> 900" using example_token_fits by blast
  have "\<exists>w2. cc_proto_send_token mp_ref ?p1 ?t 0 ?w1 = Some (CC_SUCCESS, w2)"
    using b by (simp add: cc_proto_send_token_def proto_send_def fits_def get_tunnel_def cc_transport_send_def
        transport_send_bytes_def cc_transport_set_length_prefix_def Let_def example_ports_def example_world_def
        example_client_def example_out_def del: enc.simps)
  then obtain w2 where w2: "cc_proto_send_token mp_ref ?p1 ?t 0 ?w1 = Some (CC_SUCCESS, w2)" by blast
  have "cc_port_transmit mp_ref 10 ?w = port_send_token mp_ref 10 ?w"
    using p one_token_ok by (intro transmit_enabled) (auto simp: example_out_def example_actor_def simp del: enc.simps)
  also have "\<dots> = Some w2"
    using w1 w2 by (simp add: port_send_token_def example_out_def del: enc.simps bind_Some_iff)
  finally show ?thesis using send_token_same[OF w2] node_eqD[OF send_token_same(1)[OF w2]] by auto
qed

theorem tunnel_transmit_handshake_witness:
  "\<exists>w1 w2 f2. cc_port_transmit mp_ref 10 (example_ports (Some 0)) = Some w1
     \<and> cc_node_handle_token_reply ''o'' 1 CC_PORT_REPLY_TYPE_ACK 0 w1 = Some w2
     \<and> h_ports w2 10 = Some (example_out None (Some 0)\<lparr>p_fifo := Some f2\<rparr>) \<and> q_items (fifo_abs f2) = []"
proof -
  let ?w = "example_ports (Some 0)"
  obtain w1 where w1: "cc_port_transmit mp_ref 10 ?w = Some w1" "e_sent w1 \<noteq> []" "n_actors w1 = n_actors ?w"
      "h_actors w1 = h_actors ?w"
    using example_transmit by blast
  have g: "cc_port_get ''o'' 1 w1 = Some (Some 10)"
    using w1(3,4) by (simp add: cc_port_get_def example_ports_def example_actor_def example_port_item_def CC_UUID_BUFFER_SIZE_def)
  have p: "h_ports ?w 10 = Some (example_out None (Some 0))" by (simp add: example_ports_def)
  have sent: "e_sent w1 \<noteq> e_sent ?w" using w1(2) by (simp add: example_ports_def example_world_def)
  note o = one_token_ok[of "Some (enc mp_ref (MUint 7))" "length (enc mp_ref (MUint 7))"]
  note T = tunnel_transmit_handshake[OF p _ _ _ _ _ _ o(1,3,2) w1(1) g]
  show ?thesis
    using T[of "example_actor ''A'' [] [example_port_item ''o'' 10]" 0] sent w1(1)
    by (auto simp: example_out_def example_ports_def example_actor_def one_token_ok simp del: enc.simps)
qed

text \<open>
  C19: a token that arrives. When the actor is enabled, there is room and memory, a token with the next or a later
  sequence number is appended with exactly its bytes; one whose number was seen before is acknowledged and dropped,
  so a repeated token is not delivered twice. Without room it is refused and the queue stays as it is.
\<close>

theorem token_arrival:
  assumes "h_ports w a = Some p" "h_actors w (p_actor p) = Some x" "a_state x = CC_ACTOR_ENABLED"
    and "p_fifo p = Some f" "fifo_ok f" "fifo_fresh f" "e_alloc w = []"
  shows "\<exists>r f'. cc_node_handle_token a d n s w = Some (r, w\<lparr>h_ports := (h_ports w)(a \<mapsto> p\<lparr>p_fifo := Some f'\<rparr>)\<rparr>) \<and> fifo_ok f'
     \<and> (if length (q_items (fifo_abs f)) < fifo_capacity f
        then r = CC_SUCCESS \<and> fifo_abs f' = (if q_base (fifo_abs f) + length (q_items (fifo_abs f)) \<le> unat s
               then q_write (Some (take n d)) n (fifo_abs f) else fifo_abs f)
        else r = CC_FAIL \<and> f' = f)"
  using handle_token_effect[OF assms] .

theorem token_arrival_witness:
  "\<exists>w' f'. cc_node_handle_token 11 ''abc'' 2 0 (example_ports None) = Some (CC_SUCCESS, w')
     \<and> h_ports w' 11 = Some (example_in (Some 10)\<lparr>p_fifo := Some f'\<rparr>)
     \<and> q_items (fifo_abs f') = [\<lparr>tok_value = Some ''ab'', tok_size = 2\<rparr>]"
proof -
  let ?w = "example_ports None"
  have "h_ports ?w 11 = Some (example_in (Some 10))" "h_actors ?w 21 = Some (example_actor ''B'' [example_port_item ''i'' 11] [])"
    "e_alloc ?w = []"
    by (simp_all add: example_ports_def example_world_def)
  from token_arrival[OF this(1) _ _ _ empty_ok(1,3) this(3), of _ "''abc''" 2 0] this(2)
  obtain f' where "cc_node_handle_token 11 ''abc'' 2 0 ?w
        = Some (CC_SUCCESS, ?w\<lparr>h_ports := (h_ports ?w)(11 \<mapsto> example_in (Some 10)\<lparr>p_fifo := Some f'\<rparr>)\<rparr>)"
      "fifo_abs f' = (if q_base (fifo_abs (empty_fifo 2)) \<le> 0 then q_write (Some ''ab'') 2 (fifo_abs (empty_fifo 2)) else fifo_abs (empty_fifo 2))"
    by (auto simp: example_in_def example_actor_def empty_ok)
  moreover have "q_base (fifo_abs (empty_fifo 2)) = 0" by (simp add: fifo_abs_def empty_fifo_def)
  ultimately show ?thesis by (auto simp: q_write_def empty_ok intro!: exI[of _ f'])
qed

text \<open>
  C23: an actor runs only with all its ports connected. Whenever the state of a port is set, its actor is enabled
  afterwards exactly when every one of its ports is enabled, and marked for deletion only when one of its ports is.
\<close>

theorem actor_enabled_iff_ports:
  assumes "cc_port_set_state a s w = Some w'" and "h_ports w a = Some p"
  shows "\<exists>x. h_actors w' (p_actor p) = Some x
     \<and> (a_state x = CC_ACTOR_ENABLED \<longleftrightarrow> (\<forall>i \<in> set (a_in_ports x @ a_out_ports x).
          \<exists>q. h_ports w' (li_data i) = Some q \<and> p_state q = CC_PORT_ENABLED))
     \<and> (a_state x = CC_ACTOR_DO_DELETE \<longrightarrow> (\<exists>i \<in> set (a_in_ports x @ a_out_ports x).
          \<exists>q. h_ports w' (li_data i) = Some q \<and> p_state q = CC_PORT_DO_DELETE))"
  using assms(1)
proof (cases rule: set_state_eq)
  case (1 p' x st)
  let ?x = "x\<lparr>a_state := st\<rparr>"
  have "p' = p" using 1(1) assms(2) by simp
  then have "h_actors w' (p_actor p) = Some ?x" using 1(3) by simp
  moreover have "actor_ports_state w' ?x = Some st"
    using 1(4) by (simp add: actor_ports_state_def cong: if_cong)
  ultimately show ?thesis using actor_enabled_ports[of w' ?x] actor_delete_ports[of w' ?x] by auto
qed

theorem actor_enabled_iff_ports_witness:
  "\<exists>w' x. cc_port_set_state 10 CC_PORT_DISCONNECTED (example_ports None) = Some w' \<and> h_actors w' 20 = Some x
     \<and> a_state x \<noteq> CC_ACTOR_ENABLED"
proof -
  let ?w = "example_ports None"
  have p: "h_ports ?w 10 = Some (example_out (Some 11) None)" by (simp add: example_ports_def)
  obtain w' where w': "cc_port_set_state 10 CC_PORT_DISCONNECTED ?w = Some w'"
    by (simp add: cc_port_set_state_def upd_port_def cc_actor_port_state_changed_def actor_ports_state_def
        cc_actor_set_state_def upd_actor_def Let_def example_defs)
  then have "h_ports w' 10 = Some (with_state CC_PORT_DISCONNECTED (example_out (Some 11) None))"
    "\<exists>x. h_actors w' 20 = Some x \<and> a_out_ports x = [example_port_item ''o'' 10]"
    using p by (auto simp: example_ports_def example_actor_def example_out_def elim!: set_state_eq)
  with actor_enabled_iff_ports[OF w' p] w' show ?thesis
    by (auto simp: example_out_def example_port_item_def)
qed

text \<open>
  A port whose peer is on the same runtime is connected to it directly. Both ports end up enabled, point at each
  other, hold no tunnel and know the runtime itself as the peer's runtime.
\<close>

lemma connect_local_mutual:
  assumes "cc_port_connect_local mp a w = Some (CC_SUCCESS, w')"
  shows "\<exists>b p q. h_ports w' a = Some p \<and> h_ports w' b = Some q \<and> p_peer_port p = Some b \<and> p_peer_port q = Some a
     \<and> p_state p = CC_PORT_ENABLED \<and> p_state q = CC_PORT_ENABLED \<and> p_tunnel p = None \<and> p_tunnel q = None
     \<and> p_peer_id p = cstr (take CC_UUID_BUFFER_SIZE (n_id w)) \<and> p_peer_id q = cstr (take CC_UUID_BUFFER_SIZE (n_id w))"
proof -
  obtain b w1 w2 w3 where s: "port_drop_tunnel mp a w = Some w1" "port_drop_tunnel mp b w1 = Some w2"
      "port_attach a b w2 = Some w3" "port_attach b a w3 = Some w'"
    using assms by (auto simp: cc_port_connect_local_def split: option.splits)
  show ?thesis using s by (elim drop_tunnel_eq attach_eq) (cases "a = b"; force)
qed

text \<open>
  What \<open>cc_port_disconnect\<close> leaves behind. The port itself is disconnected: no tunnel, no peer, no peer runtime,
  and the tokens that were on their way are to be sent again. Its local peer is disconnected too, but keeps its
  pointer to this port.
\<close>

lemma port_disconnect_effect:
  assumes "h_ports w a = Some p" "p_fifo p = Some f" "p_tunnel p = None" "p_peer_port p = Some b" "a \<noteq> b" "h_ports w b = Some q"
    and "cc_port_disconnect mp a u w = Some w'"
  shows "\<exists>p' q'. h_ports w' a = Some p' \<and> p_state p' = CC_PORT_DISCONNECTED \<and> p_tunnel p' = None \<and> p_peer_port p' = None
     \<and> p_peer_id p' = [] \<and> p_fifo p' = Some (cc_fifo_cancel f)
     \<and> h_ports w' b = Some q' \<and> p_state q' = CC_PORT_DISCONNECTED \<and> p_peer_port q' = p_peer_port q \<and> p_tunnel q' = p_tunnel q"
  using disconnect_local[OF assms] by blast

text \<open>
  That pointer is followed after the port is gone. When a connected port is disconnected and freed, disconnecting
  its former local peer uses freed memory.
\<close>

lemma port_disconnect_dangling:
  assumes "h_ports w a = Some p" "p_fifo p = Some f" "p_tunnel p = None" "p_peer_port p = Some b" "a \<noteq> b" "h_ports w b = Some q"
    and "p_peer_port q = Some a" "p_tunnel q = None"
    and "cc_port_disconnect mp a u w = Some w1" "cc_port_free mp a False w1 = Some w2"
  shows "cc_port_disconnect mp b u w2 = None"
proof -
  obtain p' q' where 1: "h_ports w1 a = Some p'" "p_tunnel p' = None" "h_ports w1 b = Some q'" "p_peer_port q' = Some a"
      "p_tunnel q' = None"
    using disconnect_local[OF assms(1-6,9)] assms(7,8) by auto
  then have 2: "h_ports w2 = (h_ports w1)(a := None)" using assms(10) by (auto simp: cc_port_free_def)
  show ?thesis
    using 1 2 assms(5) by (simp add: cc_port_disconnect_def upd_port_def cc_port_set_state_def)
qed

end
