(* ===== verification/Calvinsys.thy ===== *)
theory Calvinsys
  imports Port
begin

text \<open>
  \<open>src/calvinsys/cc_calvinsys.c\<close> and \<open>src/calvinsys/common\<close>: the capabilities of a runtime, the objects that
  actors open on them, and the three capabilities that are part of the runtime: timers, the schedule and the
  node's attributes.

  What the runtime is linked with comes as one record, \<open>ext\<close>: the functions of \<open>msgpuck\<close> and \<open>jsmn\<close>, the
  capabilities of the platform and the functions of the actor types. The last two are the function pointers
  of the C structures: they get the address of their object or actor and may change the world.
\<close>

section \<open>What the runtime is linked with\<close>

record cap_ops =
  xo_open :: "addr \<Rightarrow> bytes cc_list \<Rightarrow> world \<Rightarrow> (cc_result \<times> world) option"
  xo_deserialize :: "addr \<Rightarrow> bytes cc_list \<Rightarrow> world \<Rightarrow> (cc_result \<times> world) option"
  xo_can_write :: "(addr \<Rightarrow> world \<Rightarrow> (bool \<times> world) option) option"
  xo_write :: "(addr \<Rightarrow> bytes \<Rightarrow> nat \<Rightarrow> world \<Rightarrow> (cc_result \<times> world) option) option"
  xo_can_read :: "(addr \<Rightarrow> world \<Rightarrow> (bool \<times> world) option) option"
  xo_read :: "(addr \<Rightarrow> world \<Rightarrow> (cc_result \<times> (bytes \<times> nat) option \<times> world) option) option"
  xo_close :: "(addr \<Rightarrow> world \<Rightarrow> (cc_result \<times> world) option) option"
  xo_serialize :: "(bytes \<Rightarrow> addr \<Rightarrow> bytes \<Rightarrow> world \<Rightarrow> bytes option option) option"

record actor_ops =
  ac_init :: "addr \<Rightarrow> bytes cc_list \<Rightarrow> world \<Rightarrow> (cc_result \<times> world) option"
  ac_set_state :: "addr \<Rightarrow> bytes cc_list \<Rightarrow> world \<Rightarrow> (cc_result \<times> world) option"
  ac_free_state :: "(addr \<Rightarrow> world \<Rightarrow> world option) option"
  ac_fire :: "addr \<Rightarrow> world \<Rightarrow> (bool \<times> world) option"
  ac_get_managed_attributes :: "(addr \<Rightarrow> world \<Rightarrow> (cc_result \<times> bytes option cc_list \<times> world) option) option"
  ac_will_migrate :: "(addr \<Rightarrow> world \<Rightarrow> world option) option"
  ac_will_end :: "(addr \<Rightarrow> world \<Rightarrow> world option) option"
  ac_did_migrate :: "(addr \<Rightarrow> world \<Rightarrow> world option) option"
  ac_did_replicate :: "(addr \<Rightarrow> u32 \<Rightarrow> world \<Rightarrow> world option) option"
  ac_get_requires :: "(addr \<Rightarrow> world \<Rightarrow> (cc_result \<times> unit cc_list \<times> world) option) option"

text \<open>\<open>x_jsmn js len n\<close> is the token array of \<open>jsmn_parse\<close> for at most \<open>n\<close> tokens; \<open>None\<close> is a negative result.
  \<open>x_fresh\<close> is what newly allocated memory holds.\<close>

record ext =
  x_mp :: mp
  x_jsmn :: "bytes \<Rightarrow> nat \<Rightarrow> nat \<Rightarrow> jsmntok list option"
  x_caps :: "bytes \<Rightarrow> cap_ops"
  x_actors :: "bytes \<Rightarrow> actor_ops"
  x_fresh :: "world \<Rightarrow> bytes"

text \<open>\<open>src/runtime/north/cc_node.c\<close>\<close>

definition cc_node_get_time :: "world \<Rightarrow> u32" where
  "cc_node_get_time w = n_seconds_since_epoch w + (e_time w - n_time_at_sync w)"

definition set_obj_state :: "addr \<Rightarrow> obj_state \<Rightarrow> world \<Rightarrow> world option" where
  "set_obj_state a s w = upd_obj a (\<lambda>x. x\<lparr>o_state := s\<rparr>) w"

text \<open>The functions of \<open>impl\<close> are installed in the object and its state is set.\<close>

definition install :: "addr \<Rightarrow> cap_impl \<Rightarrow> obj_state \<Rightarrow> world \<Rightarrow> world option" where
  "install a impl s w = upd_obj a (\<lambda>x. x\<lparr>o_impl := Some impl, o_state := s\<rparr>) w"

section \<open>Timers\<close>

text \<open>\<open>(cc_calvinsys_timer_t *)obj->state\<close>: another kind of state behind the pointer is a fault.\<close>

definition get_timer :: "addr \<Rightarrow> world \<Rightarrow> cc_calvinsys_timer option" where
  "get_timer a w = do { x \<leftarrow> h_objs w a; case o_state x of OS_timer t \<Rightarrow> Some t | _ \<Rightarrow> None }"

text \<open>\<open>obj->capability->calvinsys->node\<close>: the capability must still be there.\<close>

definition obj_capability :: "addr \<Rightarrow> world \<Rightarrow> cc_calvinsys_capability option" where
  "obj_capability a w = do { x \<leftarrow> h_objs w a; h_caps w (o_capability x) }"

definition cc_calvinsys_timer_set :: "world \<Rightarrow> cc_calvinsys_timer \<Rightarrow> u32 \<Rightarrow> cc_calvinsys_timer" where
  "cc_calvinsys_timer_set w timer timeout =
     timer\<lparr>ct_armed := True, ct_next_time := cc_node_get_time w + timeout\<rparr>"

definition cc_calvinsys_timer_can_read :: "addr \<Rightarrow> world \<Rightarrow> bool option" where
  "cc_calvinsys_timer_can_read a w = do { timer \<leftarrow> get_timer a w; Some (ct_triggered timer) }"

definition cc_calvinsys_timer_read :: "addr \<Rightarrow> world \<Rightarrow> (cc_result \<times> world) option" where
  "cc_calvinsys_timer_read a w = do {
     timer \<leftarrow> get_timer a w;
     let timer = timer\<lparr>ct_triggered := False\<rparr>;
     timer \<leftarrow> (if ct_repeats timer
               then do { _ \<leftarrow> obj_capability a w; Some (cc_calvinsys_timer_set w timer (ct_timeout timer)) }
               else Some timer);
     w \<leftarrow> set_obj_state a (OS_timer timer) w;
     Some (CC_SUCCESS, w) }"

definition cc_calvinsys_timer_can_write :: "addr \<Rightarrow> world \<Rightarrow> bool option" where
  "cc_calvinsys_timer_can_write a w = do {
     timer \<leftarrow> get_timer a w; Some (\<not> (ct_triggered timer \<or> ct_armed timer)) }"

definition cc_calvinsys_timer_write :: "mp \<Rightarrow> addr \<Rightarrow> bytes \<Rightarrow> world \<Rightarrow> (cc_result \<times> world) option" where
  "cc_calvinsys_timer_write mp a data w = do {
     ok \<leftarrow> cc_calvinsys_timer_can_write a w;
     if \<not> ok then Some (CC_FAIL, w)
     else do {
       d \<leftarrow> cc_coder_decode_uint mp data;
       case d of
         None \<Rightarrow> Some (CC_FAIL, w)
       | Some timeout \<Rightarrow> do {
           timer \<leftarrow> get_timer a w;
           _ \<leftarrow> obj_capability a w;
           w \<leftarrow> set_obj_state a (OS_timer (cc_calvinsys_timer_set w (timer\<lparr>ct_timeout := timeout\<rparr>) timeout)) w;
           Some (CC_SUCCESS, w) } } }"

definition cc_calvinsys_timer_close :: "addr \<Rightarrow> world \<Rightarrow> (cc_result \<times> world) option" where
  "cc_calvinsys_timer_close a w = do { w \<leftarrow> set_obj_state a OS_null w; Some (CC_SUCCESS, w) }"

definition encode_timer :: "mp \<Rightarrow> bytes \<Rightarrow> cc_calvinsys_timer \<Rightarrow> bytes" where
  "encode_timer mp buffer timer =
     (let w = cc_coder_encode_kv_map mp buffer ''obj'' 4;
          w = (if ct_armed timer then cc_coder_encode_kv_uint mp w ''nexttrigger'' (ct_next_time timer)
               else cc_coder_encode_kv_nil mp w ''nexttrigger'');
          w = cc_coder_encode_kv_bool mp w ''repeats'' (ct_repeats timer);
          w = cc_coder_encode_kv_uint mp w ''timeout'' (ct_timeout timer)
      in cc_coder_encode_kv_bool mp w ''triggered'' (ct_triggered timer))"

definition cc_calvinsys_timer_serialize :: "mp \<Rightarrow> addr \<Rightarrow> bytes \<Rightarrow> world \<Rightarrow> bytes option" where
  "cc_calvinsys_timer_serialize mp a buffer w = do {
     timer \<leftarrow> get_timer a w; Some (encode_timer mp buffer timer) }"

text \<open>
  The timer is not cleared after its allocation; the fields that are read later are set below, and an object
  whose opening fails is freed.
\<close>

definition cc_calvinsys_timer_open :: "mp \<Rightarrow> addr \<Rightarrow> bytes cc_list \<Rightarrow> world \<Rightarrow> (cc_result \<times> world) option" where
  "cc_calvinsys_timer_open mp a kwargs w = (case mem_alloc w of
     (False, w) \<Rightarrow> Some (CC_FAIL, w)
   | (True, w) \<Rightarrow> do {
       let blank = \<lparr>ct_timeout = 0, ct_armed = False, ct_next_time = 0, ct_repeats = False, ct_triggered = False\<rparr>;
       w \<leftarrow> install a Impl_timer (OS_timer blank) w;
       p \<leftarrow> (case cc_list_get kwargs ''period'' of
               None \<Rightarrow> Some (Some 0) | Some item \<Rightarrow> cc_coder_decode_uint mp (li_data item));
       case p of
         None \<Rightarrow> Some (CC_FAIL, w)
       | Some period \<Rightarrow> do {
           cap \<leftarrow> obj_capability a w;
           let timer = blank\<lparr>ct_timeout := period,
                             ct_repeats := strncmp0 (cap_name cap) ''sys.timer.repeating'' 19\<rparr>;
           let timer = (if period > 0 then cc_calvinsys_timer_set w timer period else timer);
           w \<leftarrow> set_obj_state a (OS_timer timer) w;
           Some (CC_SUCCESS, w) } })"

text \<open>\<open>cc_list_get(kwargs, key)\<close> and the decoding of its value: a missing key and a wrong value both fail.\<close>

definition kwarg :: "(bytes \<Rightarrow> 'v option option) \<Rightarrow> bytes cc_list \<Rightarrow> bytes \<Rightarrow> 'v option option" where
  "kwarg decode kwargs key = (case cc_list_get kwargs key of None \<Rightarrow> Some None | Some item \<Rightarrow> decode (li_data item))"

text \<open>The value of \<open>nexttrigger\<close>: nil and types that are not numbers count as 0.\<close>

definition decode_nexttrigger :: "mp \<Rightarrow> bytes \<Rightarrow> u32 option" where
  "decode_nexttrigger mp data = do {
     ty \<leftarrow> cc_coder_type_of mp data;
     if ty = CC_CODER_FLOAT \<or> ty = CC_CODER_DOUBLE \<or> ty = CC_CODER_UINT
     then do { d \<leftarrow> cc_coder_decode_uint mp data; Some (case d of None \<Rightarrow> 0 | Some n \<Rightarrow> n) }
     else Some 0 }"

definition cc_calvinsys_timer_deserialize ::
  "mp \<Rightarrow> addr \<Rightarrow> bytes cc_list \<Rightarrow> world \<Rightarrow> (cc_result \<times> world) option" where
  "cc_calvinsys_timer_deserialize mp a kwargs w = do {
     d1 \<leftarrow> kwarg (cc_coder_decode_uint mp) kwargs ''timeout'';
     case d1 of None \<Rightarrow> Some (CC_FAIL, w) | Some timeout \<Rightarrow> do {
     d2 \<leftarrow> kwarg (cc_coder_decode_bool mp) kwargs ''repeats'';
     case d2 of None \<Rightarrow> Some (CC_FAIL, w) | Some repeats \<Rightarrow> do {
     d3 \<leftarrow> kwarg (cc_coder_decode_bool mp) kwargs ''triggered'';
     case d3 of None \<Rightarrow> Some (CC_FAIL, w) | Some triggered \<Rightarrow>
     (case mem_alloc w of
        (False, w) \<Rightarrow> Some (CC_FAIL, w)
      | (True, w) \<Rightarrow> do {
          let timer = \<lparr>ct_timeout = timeout, ct_armed = False, ct_next_time = 0, ct_repeats = repeats,
                       ct_triggered = triggered\<rparr>;
          timer \<leftarrow> (case cc_list_get kwargs ''nexttrigger'' of
                      None \<Rightarrow> Some timer
                    | Some item \<Rightarrow> do {
                        nexttrigger \<leftarrow> decode_nexttrigger mp (li_data item);
                        _ \<leftarrow> obj_capability a w;
                        Some (cc_calvinsys_timer_set w timer (nexttrigger - cc_node_get_time w)) });
          w \<leftarrow> install a Impl_timer (OS_timer timer) w;
          Some (CC_SUCCESS, w) }) } } }"

text \<open>One timer of the loop of \<open>cc_calvinsys_timers_check\<close>, and the loop.\<close>

definition check_timer :: "u32 \<Rightarrow> cc_calvinsys_timer \<Rightarrow> u32 \<Rightarrow> cc_calvinsys_timer \<times> u32" where
  "check_timer now timer timeout =
     (if \<not> ct_armed timer then (timer, timeout)
      else if now \<ge> ct_next_time timer then (timer\<lparr>ct_triggered := True, ct_armed := False\<rparr>, 0)
      else (timer, ct_next_time timer - now))"

fun timers_loop :: "u32 \<Rightarrow> addr cc_list \<Rightarrow> u32 \<Rightarrow> world \<Rightarrow> (u32 \<times> world) option" where
  "timers_loop now [] timeout w = Some (timeout, w)"
| "timers_loop now (item # list) timeout w = do {
     cap \<leftarrow> obj_capability (li_data item) w;
     if strncmp0 (cap_name cap) ''sys.timer'' 9 then do {
       timer \<leftarrow> get_timer (li_data item) w;
       let (timer, timeout) = check_timer now timer timeout;
       w \<leftarrow> set_obj_state (li_data item) (OS_timer timer) w;
       timers_loop now list timeout w }
     else timers_loop now list timeout w }"

definition cc_calvinsys_timers_check :: "u32 \<Rightarrow> world \<Rightarrow> (u32 \<times> world) option" where
  "cc_calvinsys_timers_check timeout w = timers_loop (cc_node_get_time w) (n_objects w) timeout w"

section \<open>The schedule\<close>

definition get_schedule :: "addr \<Rightarrow> world \<Rightarrow> cc_calvinsys_schedule option" where
  "get_schedule a w = do { x \<leftarrow> h_objs w a; case o_state x of OS_schedule s \<Rightarrow> Some s | _ \<Rightarrow> None }"

definition cc_calvinsys_schedule_can_read :: "addr \<Rightarrow> world \<Rightarrow> bool option" where
  "cc_calvinsys_schedule_can_read a w = do { s \<leftarrow> get_schedule a w; Some (cs_triggered s) }"

definition cc_calvinsys_schedule_read :: "addr \<Rightarrow> world \<Rightarrow> (cc_result \<times> world) option" where
  "cc_calvinsys_schedule_read a w = do {
     s \<leftarrow> get_schedule a w; w \<leftarrow> set_obj_state a (OS_schedule (s\<lparr>cs_triggered := False\<rparr>)) w; Some (CC_SUCCESS, w) }"

definition cc_calvinsys_schedule_can_write :: "addr \<Rightarrow> world \<Rightarrow> bool option" where
  "cc_calvinsys_schedule_can_write a w = do { s \<leftarrow> get_schedule a w; Some (\<not> cs_triggered s) }"

definition cc_calvinsys_schedule_write :: "addr \<Rightarrow> world \<Rightarrow> (cc_result \<times> world) option" where
  "cc_calvinsys_schedule_write a w = do {
     s \<leftarrow> get_schedule a w; w \<leftarrow> set_obj_state a (OS_schedule (s\<lparr>cs_triggered := True\<rparr>)) w; Some (CC_SUCCESS, w) }"

definition cc_calvinsys_schedule_close :: "addr \<Rightarrow> world \<Rightarrow> (cc_result \<times> world) option" where
  "cc_calvinsys_schedule_close a w = do { w \<leftarrow> set_obj_state a OS_null w; Some (CC_SUCCESS, w) }"

definition cc_calvinsys_schedule_open :: "addr \<Rightarrow> bytes cc_list \<Rightarrow> world \<Rightarrow> (cc_result \<times> world) option" where
  "cc_calvinsys_schedule_open a kwargs w = (case mem_alloc w of
     (False, w) \<Rightarrow> Some (CC_FAIL, w)
   | (True, w) \<Rightarrow> do {
       w \<leftarrow> install a Impl_schedule (OS_schedule \<lparr>cs_triggered = True\<rparr>) w;
       Some (CC_SUCCESS, w) })"

section \<open>Attributes of the node\<close>

definition get_attribute :: "addr \<Rightarrow> world \<Rightarrow> cc_calvinsys_attribute option" where
  "get_attribute a w = do { x \<leftarrow> h_objs w a; case o_state x of OS_attribute s \<Rightarrow> Some s | _ \<Rightarrow> None }"

definition cc_calvinsys_attribute_can_read :: "addr \<Rightarrow> world \<Rightarrow> bool option" where
  "cc_calvinsys_attribute_can_read a w = do {
     s \<leftarrow> get_attribute a w; Some (ca_attribute s \<noteq> None \<or> ca_attribute_len s \<noteq> 0) }"

definition cc_calvinsys_attribute_read :: "addr \<Rightarrow> world \<Rightarrow> (cc_result \<times> (bytes \<times> nat) option \<times> world) option" where
  "cc_calvinsys_attribute_read a w = do {
     s \<leftarrow> get_attribute a w;
     case ca_attribute s of
       None \<Rightarrow> Some (CC_FAIL, None, w)
     | Some attribute \<Rightarrow>
         if ca_attribute_len s = 0 then Some (CC_FAIL, None, w)
         else (case mem_alloc w of
                 (False, w) \<Rightarrow> Some (CC_FAIL, None, w)
               | (True, w) \<Rightarrow> Some (CC_SUCCESS, Some (take (unat (ca_attribute_len s)) attribute, unat (ca_attribute_len s)), w)) }"

definition cc_calvinsys_attribute_can_write :: bool where
  "cc_calvinsys_attribute_can_write = True"

text \<open>The position of the first dot of an attribute's name.\<close>

fun dot_pos :: "bytes \<Rightarrow> nat \<Rightarrow> nat option" where
  "dot_pos s 0 = None"
| "dot_pos s (Suc n) = (if first_char s = CHR ''.'' then Some 0 else map_option Suc (dot_pos (tl s) n))"

text \<open>
  The text of \<open>indexed_public.<category>.<item>\<close> in the node's attributes. The result points into the attributes;
  a null pointer for them is read by \<open>strnlen\<close> and is a fault.
\<close>

definition cc_calvinsys_attribute_get_attribute_value ::
  "ext \<Rightarrow> bytes option \<Rightarrow> bytes \<Rightarrow> nat \<Rightarrow> (bytes \<times> nat) option option" where
  "cc_calvinsys_attribute_get_attribute_value x attributes attribute_name attribute_name_len =
     (case dot_pos attribute_name attribute_name_len of
        None \<Rightarrow> Some None
      | Some pos \<Rightarrow> do {
          attributes \<leftarrow> attributes;
          let item = drop (pos + 1) attribute_name;
          let item_len = attribute_name_len - (pos + 1);
          case x_jsmn x attributes (strnlen attributes CC_MAX_ATTRIBUTES_LEN) 40 of
            None \<Rightarrow> Some None
          | Some tokens \<Rightarrow> do {
              t \<leftarrow> cc_json_get_dict_value attributes tokens ''indexed_public'' 14;
              case t of None \<Rightarrow> Some None | Some token \<Rightarrow> do {
              t \<leftarrow> cc_json_get_dict_value attributes token attribute_name pos;
              case t of None \<Rightarrow> Some None | Some token \<Rightarrow> do {
              t \<leftarrow> cc_json_get_dict_value attributes token item item_len;
              case t of
                None \<Rightarrow> Some None
              | Some [] \<Rightarrow> None
              | Some (token # _) \<Rightarrow> Some (Some (drop (jstart token) attributes, jend token - jstart token)) } } } })"

text \<open>The encoded value, in a buffer of the size \<open>cc_coder_sizeof_str\<close> gives; a longer value is a fault.\<close>

definition encode_attribute :: "mp \<Rightarrow> bytes \<Rightarrow> nat \<Rightarrow> bytes option" where
  "encode_attribute mp attribute n =
     (let s = cc_coder_encode_str mp [] attribute (of_nat n)
      in if length s \<le> unat (cc_coder_sizeof_str mp (of_nat n)) then Some s else None)"

definition cc_calvinsys_attribute_write :: "ext \<Rightarrow> addr \<Rightarrow> bytes \<Rightarrow> world \<Rightarrow> (cc_result \<times> world) option" where
  "cc_calvinsys_attribute_write x a data w = do {
     _ \<leftarrow> obj_capability a w;
     s \<leftarrow> get_attribute a w;
     let s = (if ca_attribute s \<noteq> None then s\<lparr>ca_attribute := None, ca_attribute_len := 0\<rparr> else s);
     let s = s\<lparr>ca_attribute_name := None\<rparr>;
     w \<leftarrow> set_obj_state a (OS_attribute s) w;
     d \<leftarrow> cc_coder_decode_str (x_mp x) data;
     case d of None \<Rightarrow> Some (CC_FAIL, w) | Some (attribute_name, attribute_name_len) \<Rightarrow> do {
     v \<leftarrow> cc_calvinsys_attribute_get_attribute_value x (n_attributes w) attribute_name (unat attribute_name_len);
     case v of None \<Rightarrow> Some (CC_FAIL, w) | Some (attribute, attribute_len) \<Rightarrow>
     (case mem_alloc w of (False, w) \<Rightarrow> Some (CC_FAIL, w) | (True, w) \<Rightarrow> do {
     b \<leftarrow> encode_attribute (x_mp x) attribute attribute_len;
     let s = s\<lparr>ca_attribute := Some b, ca_attribute_len := of_nat (length b)\<rparr>;
     w \<leftarrow> set_obj_state a (OS_attribute s) w;
     case mem_alloc w of (False, w) \<Rightarrow> Some (CC_FAIL, w) | (True, w) \<Rightarrow> do {
     w \<leftarrow> set_obj_state a (OS_attribute (s\<lparr>ca_attribute_name :=
            Some (cstr (take (unat attribute_name_len) attribute_name))\<rparr>)) w;
     Some (CC_SUCCESS, w) } }) } }"

definition cc_calvinsys_attribute_close :: "addr \<Rightarrow> world \<Rightarrow> (cc_result \<times> world) option" where
  "cc_calvinsys_attribute_close a w = do { w \<leftarrow> set_obj_state a OS_null w; Some (CC_SUCCESS, w) }"

text \<open>\<open>strlen\<close> of a name that was never set is a fault.\<close>

definition cc_calvinsys_attribute_serialize :: "mp \<Rightarrow> addr \<Rightarrow> bytes \<Rightarrow> world \<Rightarrow> bytes option" where
  "cc_calvinsys_attribute_serialize mp a buffer w = do {
     s \<leftarrow> get_attribute a w;
     name \<leftarrow> ca_attribute_name s;
     let buffer = cc_coder_encode_kv_map mp buffer ''obj'' 2;
     let buffer = cc_coder_encode_kv_str mp buffer ''type'' ''indexed'' 7;
     Some (cc_coder_encode_kv_str mp buffer ''attribute'' name (of_nat (strlen name))) }"

definition cc_calvinsys_attribute_open :: "addr \<Rightarrow> bytes cc_list \<Rightarrow> world \<Rightarrow> (cc_result \<times> world) option" where
  "cc_calvinsys_attribute_open a kwargs w = (case mem_alloc w of
     (False, w) \<Rightarrow> Some (CC_FAIL, w)
   | (True, w) \<Rightarrow> do {
       w \<leftarrow> install a Impl_attribute
             (OS_attribute \<lparr>ca_attribute_name = None, ca_attribute = None, ca_attribute_len = 0\<rparr>) w;
       Some (CC_SUCCESS, w) })"

definition cc_calvinsys_attribute_deserialize ::
  "ext \<Rightarrow> addr \<Rightarrow> bytes cc_list \<Rightarrow> world \<Rightarrow> (cc_result \<times> world) option" where
  "cc_calvinsys_attribute_deserialize x a kwargs w = do {
     _ \<leftarrow> obj_capability a w;
     d1 \<leftarrow> kwarg (cc_coder_decode_str (x_mp x)) kwargs ''type'';
     case d1 of None \<Rightarrow> Some (CC_FAIL, w) | Some (ty, ty_len) \<Rightarrow>
     if \<not> strncmp0 ty ''indexed'' 7 then Some (CC_FAIL, w)
     else do {
     d2 \<leftarrow> kwarg (cc_coder_decode_str (x_mp x)) kwargs ''attribute'';
     case d2 of None \<Rightarrow> Some (CC_FAIL, w) | Some (attribute_name, attribute_name_len) \<Rightarrow> do {
     v \<leftarrow> cc_calvinsys_attribute_get_attribute_value x (n_attributes w) attribute_name (unat attribute_name_len);
     case v of None \<Rightarrow> Some (CC_FAIL, w) | Some (attribute, attribute_len) \<Rightarrow>
     (case mem_alloc w of (False, w) \<Rightarrow> Some (CC_FAIL, w) | (True, w) \<Rightarrow>
     (case mem_alloc w of (False, w) \<Rightarrow> Some (CC_FAIL, w) | (True, w) \<Rightarrow> do {
     b \<leftarrow> encode_attribute (x_mp x) attribute attribute_len;
     case mem_alloc w of (False, w) \<Rightarrow> Some (CC_FAIL, w) | (True, w) \<Rightarrow> do {
     w \<leftarrow> install a Impl_attribute (OS_attribute
            \<lparr>ca_attribute_name = Some (cstr (take (unat attribute_name_len) attribute_name)),
             ca_attribute = Some b, ca_attribute_len = of_nat (length b)\<rparr>) w;
     Some (CC_SUCCESS, w) } })) } } }"

section \<open>The functions of an object and a capability\<close>

text \<open>What a call through one of the function pointers runs; \<open>None\<close> of the outer option of \<open>x_caps\<close> is a null pointer.\<close>

definition obj_open :: "ext \<Rightarrow> cap_impl \<Rightarrow> addr \<Rightarrow> bytes cc_list \<Rightarrow> world \<Rightarrow> (cc_result \<times> world) option" where
  "obj_open x impl a kwargs w = (case impl of
     Impl_timer \<Rightarrow> cc_calvinsys_timer_open (x_mp x) a kwargs w
   | Impl_schedule \<Rightarrow> cc_calvinsys_schedule_open a kwargs w
   | Impl_attribute \<Rightarrow> cc_calvinsys_attribute_open a kwargs w
   | Impl_ext name \<Rightarrow> xo_open (x_caps x name) a kwargs w)"

definition obj_deserialize :: "ext \<Rightarrow> cap_impl \<Rightarrow> addr \<Rightarrow> bytes cc_list \<Rightarrow> world \<Rightarrow> (cc_result \<times> world) option" where
  "obj_deserialize x impl a kwargs w = (case impl of
     Impl_timer \<Rightarrow> cc_calvinsys_timer_deserialize (x_mp x) a kwargs w
   | Impl_schedule \<Rightarrow> cc_calvinsys_schedule_open a kwargs w
   | Impl_attribute \<Rightarrow> cc_calvinsys_attribute_deserialize x a kwargs w
   | Impl_ext name \<Rightarrow> xo_deserialize (x_caps x name) a kwargs w)"

definition obj_can_write :: "ext \<Rightarrow> cap_impl \<Rightarrow> addr \<Rightarrow> world \<Rightarrow> (bool \<times> world) option" where
  "obj_can_write x impl a w = (case impl of
     Impl_timer \<Rightarrow> do { b \<leftarrow> cc_calvinsys_timer_can_write a w; Some (b, w) }
   | Impl_schedule \<Rightarrow> do { b \<leftarrow> cc_calvinsys_schedule_can_write a w; Some (b, w) }
   | Impl_attribute \<Rightarrow> Some (cc_calvinsys_attribute_can_write, w)
   | Impl_ext name \<Rightarrow> (case xo_can_write (x_caps x name) of None \<Rightarrow> Some (False, w) | Some f \<Rightarrow> f a w))"

definition obj_write :: "ext \<Rightarrow> cap_impl \<Rightarrow> addr \<Rightarrow> bytes \<Rightarrow> nat \<Rightarrow> world \<Rightarrow> (cc_result \<times> world) option" where
  "obj_write x impl a data n w = (case impl of
     Impl_timer \<Rightarrow> cc_calvinsys_timer_write (x_mp x) a data w
   | Impl_schedule \<Rightarrow> cc_calvinsys_schedule_write a w
   | Impl_attribute \<Rightarrow> cc_calvinsys_attribute_write x a data w
   | Impl_ext name \<Rightarrow> (case xo_write (x_caps x name) of None \<Rightarrow> Some (CC_FAIL, w) | Some f \<Rightarrow> f a data n w))"

definition obj_can_read :: "ext \<Rightarrow> cap_impl \<Rightarrow> addr \<Rightarrow> world \<Rightarrow> (bool \<times> world) option" where
  "obj_can_read x impl a w = (case impl of
     Impl_timer \<Rightarrow> do { b \<leftarrow> cc_calvinsys_timer_can_read a w; Some (b, w) }
   | Impl_schedule \<Rightarrow> do { b \<leftarrow> cc_calvinsys_schedule_can_read a w; Some (b, w) }
   | Impl_attribute \<Rightarrow> do { b \<leftarrow> cc_calvinsys_attribute_can_read a w; Some (b, w) }
   | Impl_ext name \<Rightarrow> (case xo_can_read (x_caps x name) of None \<Rightarrow> Some (False, w) | Some f \<Rightarrow> f a w))"

text \<open>Timers and the schedule leave the data that a read returns unset.\<close>

definition obj_read :: "ext \<Rightarrow> cap_impl \<Rightarrow> addr \<Rightarrow> world \<Rightarrow> (cc_result \<times> (bytes \<times> nat) option \<times> world) option" where
  "obj_read x impl a w = (case impl of
     Impl_timer \<Rightarrow> do { (r, w) \<leftarrow> cc_calvinsys_timer_read a w; Some (r, None, w) }
   | Impl_schedule \<Rightarrow> do { (r, w) \<leftarrow> cc_calvinsys_schedule_read a w; Some (r, None, w) }
   | Impl_attribute \<Rightarrow> cc_calvinsys_attribute_read a w
   | Impl_ext name \<Rightarrow> (case xo_read (x_caps x name) of None \<Rightarrow> Some (CC_FAIL, None, w) | Some f \<Rightarrow> f a w))"

definition obj_close :: "ext \<Rightarrow> cap_impl \<Rightarrow> addr \<Rightarrow> world \<Rightarrow> (cc_result \<times> world) option" where
  "obj_close x impl a w = (case impl of
     Impl_timer \<Rightarrow> cc_calvinsys_timer_close a w
   | Impl_schedule \<Rightarrow> cc_calvinsys_schedule_close a w
   | Impl_attribute \<Rightarrow> cc_calvinsys_attribute_close a w
   | Impl_ext name \<Rightarrow> (case xo_close (x_caps x name) of None \<Rightarrow> Some (CC_SUCCESS, w) | Some f \<Rightarrow> f a w))"

text \<open>The inner \<open>None\<close>: there is no serialisation, or it returned a null pointer.\<close>

definition obj_serialize :: "ext \<Rightarrow> cap_impl \<Rightarrow> bytes \<Rightarrow> addr \<Rightarrow> bytes \<Rightarrow> world \<Rightarrow> bytes option option" where
  "obj_serialize x impl i a buffer w = (case impl of
     Impl_timer \<Rightarrow> do { b \<leftarrow> cc_calvinsys_timer_serialize (x_mp x) a buffer w; Some (Some b) }
   | Impl_schedule \<Rightarrow> Some None
   | Impl_attribute \<Rightarrow> do { b \<leftarrow> cc_calvinsys_attribute_serialize (x_mp x) a buffer w; Some (Some b) }
   | Impl_ext name \<Rightarrow> (case xo_serialize (x_caps x name) of None \<Rightarrow> Some None | Some f \<Rightarrow> f i a buffer w))"

section \<open>Capabilities\<close>

definition CC_CALVINSYS_MAX_FDS :: nat where
  "CC_CALVINSYS_MAX_FDS = 10"

definition cc_calvinsys_init :: "world \<Rightarrow> cc_result \<times> world" where
  "cc_calvinsys_init w = (case mem_alloc w of
     (False, w) \<Rightarrow> (CC_FAIL, w)
   | (True, w) \<Rightarrow> (CC_SUCCESS, w\<lparr>n_capabilities := [], n_objects := [], n_fds := replicate CC_CALVINSYS_MAX_FDS (-1)\<rparr>))"

text \<open>A capability at a new address, in the list under its name.\<close>

definition new_capability ::
  "bytes \<Rightarrow> (bytes \<Rightarrow> cc_calvinsys_capability) \<Rightarrow> world \<Rightarrow> cc_result \<times> world" where
  "new_capability name cap w = (case mem_alloc w of
     (False, w) \<Rightarrow> (CC_FAIL, w)
   | (True, w) \<Rightarrow>
       let a = h_next w; w = w\<lparr>h_next := a + 1\<rparr>
       in case cc_list_add_n (n_capabilities w) name (strlen name) a 0 w of
            (None, l, w) \<Rightarrow> (CC_FAIL, w\<lparr>n_capabilities := l\<rparr>)
          | (Some item, l, w) \<Rightarrow>
              (CC_SUCCESS, w\<lparr>n_capabilities := l, h_caps := (h_caps w)(a \<mapsto> cap (li_id item))\<rparr>))"

fun cc_calvinsys_add_capabilities :: "cc_calvinsys_capability list \<Rightarrow> world \<Rightarrow> cc_result \<times> world" where
  "cc_calvinsys_add_capabilities [] w = (CC_SUCCESS, w)"
| "cc_calvinsys_add_capabilities (c # capabilities) w =
     (case new_capability (cap_name c) (\<lambda>name. c\<lparr>cap_name := name, cap_free_init_args := False\<rparr>) w of
        (CC_SUCCESS, w) \<Rightarrow> cc_calvinsys_add_capabilities capabilities w
      | (_, w) \<Rightarrow> (CC_FAIL, w))"

definition cc_calvinsys_create_capability ::
  "bytes \<Rightarrow> cap_impl option \<Rightarrow> cap_impl option \<Rightarrow> bytes option \<Rightarrow> bool \<Rightarrow> world \<Rightarrow> cc_result \<times> world" where
  "cc_calvinsys_create_capability name open_impl deserialize_impl init_args free_init_args w =
     (if cc_list_get (n_capabilities w) name \<noteq> None then (CC_FAIL, w)
      else new_capability name (\<lambda>name. \<lparr>cap_name = name, cap_open = open_impl, cap_deserialize = deserialize_impl,
             cap_init_args = init_args, cap_free_init_args = free_init_args, cap_python_module = None\<rparr>) w)"

definition cc_calvinsys_delete_capability :: "bytes \<Rightarrow> world \<Rightarrow> world option" where
  "cc_calvinsys_delete_capability name w = (case cc_list_get (n_capabilities w) name of
     None \<Rightarrow> Some w
   | Some item \<Rightarrow> do {
       capability \<leftarrow> h_caps w (li_data item);
       Some (w\<lparr>h_caps := (h_caps w)(li_data item := None), n_capabilities := cc_list_remove (n_capabilities w) name\<rparr>) })"

definition cc_calvinsys_timer_create :: "world \<Rightarrow> cc_result \<times> world" where
  "cc_calvinsys_timer_create w =
     (case cc_calvinsys_create_capability ''sys.timer.once'' (Some Impl_timer) (Some Impl_timer) None False w of
        (CC_SUCCESS, w) \<Rightarrow>
          cc_calvinsys_create_capability ''sys.timer.repeating'' (Some Impl_timer) (Some Impl_timer) None False w
      | (_, w) \<Rightarrow> (CC_FAIL, w))"

definition cc_calvinsys_schedule_create :: "world \<Rightarrow> cc_result \<times> world" where
  "cc_calvinsys_schedule_create w =
     cc_calvinsys_create_capability ''sys.schedule'' (Some Impl_schedule) (Some Impl_schedule) None False w"

definition cc_calvinsys_attribute_create :: "world \<Rightarrow> cc_result \<times> world" where
  "cc_calvinsys_attribute_create w =
     cc_calvinsys_create_capability ''sys.attribute.indexed'' (Some Impl_attribute) (Some Impl_attribute) None False w"

section \<open>Objects\<close>

text \<open>
  The capability's own arguments are added to those of the call unless they are there. The result tells
  whether all could be decoded and added.
\<close>

fun add_init_args :: "mp \<Rightarrow> nat \<Rightarrow> bytes \<Rightarrow> bytes cc_list \<Rightarrow> world \<Rightarrow> (bool \<times> bytes cc_list \<times> world) option" where
  "add_init_args mp 0 init_args kwargs w = Some (True, kwargs, w)"
| "add_init_args mp (Suc n) init_args kwargs w = do {
     k \<leftarrow> cc_coder_decode_str mp init_args;
     case k of None \<Rightarrow> Some (False, kwargs, w) | Some (key, key_len) \<Rightarrow> do {
     init_args \<leftarrow> cc_coder_decode_map_next mp init_args;
     if cc_list_get_n kwargs key (unat key_len) = None then do {
       value_len \<leftarrow> cc_coder_get_size_of_value mp init_args;
       case cc_list_add_n kwargs key (unat key_len) init_args value_len w of
         (None, l, w) \<Rightarrow> Some (False, l, w)
       | (Some _, l, w) \<Rightarrow> do {
           init_args \<leftarrow> cc_coder_decode_map_next mp init_args;
           add_init_args mp n init_args l w } }
     else do {
       init_args \<leftarrow> cc_coder_decode_map_next mp init_args;
       add_init_args mp n init_args kwargs w } } }"

definition merge_init_args ::
  "mp \<Rightarrow> bytes option \<Rightarrow> bytes cc_list \<Rightarrow> world \<Rightarrow> (bool \<times> bytes cc_list \<times> world) option" where
  "merge_init_args mp init_args kwargs w = (case init_args of
     None \<Rightarrow> Some (True, kwargs, w)
   | Some args \<Rightarrow> do { (n, args) \<leftarrow> cc_coder_decode_map mp args; add_init_args mp (unat n) args kwargs w })"

definition free_obj :: "addr \<Rightarrow> world \<Rightarrow> world" where
  "free_obj ob w = w\<lparr>h_objs := (h_objs w)(ob := None)\<rparr>"

definition new_obj :: "bytes \<Rightarrow> addr \<Rightarrow> addr \<Rightarrow> cc_calvinsys_obj" where
  "new_obj i a cap = \<lparr>o_impl = None, o_state = OS_null, o_id = i, o_actor = a, o_capability = cap\<rparr>"

text \<open>
  \<open>cc_calvinsys_open\<close> from the object on. When the arguments cannot be merged the object is freed and stays in
  the list; when the capability refuses, the object is freed and its identifier read afterwards. The result
  has the identifier and the arguments of the call with the ones that were added.
\<close>

definition open_obj ::
  "ext \<Rightarrow> addr \<Rightarrow> cc_calvinsys_capability \<Rightarrow> cap_impl \<Rightarrow> bytes \<Rightarrow> bytes cc_list \<Rightarrow> world \<Rightarrow>
   (bytes option \<times> bytes cc_list \<times> world) option" where
  "open_obj x ob capability impl i kwargs w = do {
     (ok, kwargs, w) \<leftarrow> merge_init_args (x_mp x) (cap_init_args capability) kwargs w;
     if \<not> ok then Some (None, kwargs, free_obj ob w)
     else do {
       (r, w) \<leftarrow> obj_open x impl ob kwargs w;
       if r \<noteq> CC_SUCCESS then do {
         let w = free_obj ob w;
         obj \<leftarrow> h_objs w ob;
         Some (None, kwargs, w\<lparr>n_objects := cc_list_remove (n_objects w) (o_id obj)\<rparr>) }
       else Some (Some i, kwargs, w) } }"

definition cc_calvinsys_open ::
  "ext \<Rightarrow> addr \<Rightarrow> bytes \<Rightarrow> bytes cc_list \<Rightarrow> world \<Rightarrow> (bytes option \<times> bytes cc_list \<times> world) option" where
  "cc_calvinsys_open x a name kwargs w = (case cc_gen_uuid None w of (i, w) \<Rightarrow>
     (case cc_list_get (n_capabilities w) name of
        None \<Rightarrow> Some (None, kwargs, w)
      | Some item \<Rightarrow> do {
          capability \<leftarrow> h_caps w (li_data item);
          case cap_open capability of
            None \<Rightarrow> Some (None, kwargs, w)
          | Some impl \<Rightarrow>
             (case mem_alloc w of
                (False, w) \<Rightarrow> Some (None, kwargs, w)
              | (True, w) \<Rightarrow>
                  let ob = h_next w; w = w\<lparr>h_next := ob + 1\<rparr>
                  in case cc_list_add_n (n_objects w) i (strlen i + 1) ob 0 w of
                       (None, l, w) \<Rightarrow> Some (None, kwargs, w\<lparr>n_objects := l\<rparr>)
                     | (Some oi, l, w) \<Rightarrow>
                         open_obj x ob capability impl (li_id oi) kwargs
                           (w\<lparr>n_objects := l, h_objs := (h_objs w)(ob \<mapsto> new_obj (li_id oi) a (li_data item))\<rparr>)) }))"

definition cc_calvinsys_can_write :: "ext \<Rightarrow> bytes \<Rightarrow> world \<Rightarrow> (bool \<times> world) option" where
  "cc_calvinsys_can_write x i w = (case cc_list_get (n_objects w) i of
     None \<Rightarrow> Some (False, w)
   | Some item \<Rightarrow> do {
       obj \<leftarrow> h_objs w (li_data item);
       case o_impl obj of None \<Rightarrow> Some (False, w) | Some impl \<Rightarrow> obj_can_write x impl (li_data item) w })"

definition cc_calvinsys_write :: "ext \<Rightarrow> bytes \<Rightarrow> bytes \<Rightarrow> nat \<Rightarrow> world \<Rightarrow> (cc_result \<times> world) option" where
  "cc_calvinsys_write x i data n w = (case cc_list_get (n_objects w) i of
     None \<Rightarrow> Some (CC_FAIL, w)
   | Some item \<Rightarrow> do {
       obj \<leftarrow> h_objs w (li_data item);
       case o_impl obj of None \<Rightarrow> Some (CC_FAIL, w) | Some impl \<Rightarrow> obj_write x impl (li_data item) data n w })"

definition cc_calvinsys_can_read :: "ext \<Rightarrow> bytes \<Rightarrow> world \<Rightarrow> (bool \<times> world) option" where
  "cc_calvinsys_can_read x i w = (case cc_list_get (n_objects w) i of
     None \<Rightarrow> Some (False, w)
   | Some item \<Rightarrow> do {
       obj \<leftarrow> h_objs w (li_data item);
       case o_impl obj of None \<Rightarrow> Some (False, w) | Some impl \<Rightarrow> obj_can_read x impl (li_data item) w })"

definition cc_calvinsys_read :: "ext \<Rightarrow> bytes \<Rightarrow> world \<Rightarrow> (cc_result \<times> (bytes \<times> nat) option \<times> world) option" where
  "cc_calvinsys_read x i w = (case cc_list_get (n_objects w) i of
     None \<Rightarrow> Some (CC_FAIL, None, w)
   | Some item \<Rightarrow> do {
       obj \<leftarrow> h_objs w (li_data item);
       case o_impl obj of None \<Rightarrow> Some (CC_FAIL, None, w) | Some impl \<Rightarrow> obj_read x impl (li_data item) w })"

definition cc_calvinsys_close :: "ext \<Rightarrow> bytes \<Rightarrow> world \<Rightarrow> world option" where
  "cc_calvinsys_close x i w = (case cc_list_get (n_objects w) i of
     None \<Rightarrow> Some w
   | Some item \<Rightarrow> do {
       obj \<leftarrow> h_objs w (li_data item);
       w \<leftarrow> (case o_impl obj of None \<Rightarrow> Some w
             | Some impl \<Rightarrow> do { (r, w) \<leftarrow> obj_close x impl (li_data item) w; Some w });
       Some (free_obj (li_data item) (w\<lparr>n_objects := cc_list_remove (n_objects w) i\<rparr>)) })"

section \<open>The objects of an actor, encoded\<close>

fun count_objs :: "addr \<Rightarrow> addr cc_list \<Rightarrow> world \<Rightarrow> u32 option" where
  "count_objs a [] w = Some 0"
| "count_objs a (item # list) w = do {
     obj \<leftarrow> h_objs w (li_data item);
     n \<leftarrow> count_objs a list w;
     Some (if a = o_actor obj then 1 + n else n) }"

definition cc_calvinsys_get_number_of_attributes :: "addr \<Rightarrow> world \<Rightarrow> u32 option" where
  "cc_calvinsys_get_number_of_attributes a w = count_objs a (n_objects w) w"

definition encode_obj :: "ext \<Rightarrow> addr cc_list_item \<Rightarrow> cc_calvinsys_obj \<Rightarrow> bytes \<Rightarrow> world \<Rightarrow> bytes option" where
  "encode_obj x item obj b w = do {
     capability \<leftarrow> h_caps w (o_capability obj);
     let b = cc_coder_encode_kv_map (x_mp x) b (li_id item) 3;
     let b = cc_coder_encode_kv_str (x_mp x) b ''name'' (cap_name capability) (of_nat (strlen (cap_name capability)));
     s \<leftarrow> (case o_impl obj of None \<Rightarrow> Some None
           | Some impl \<Rightarrow> obj_serialize x impl (li_id item) (li_data item) b w);
     let b = (case s of None \<Rightarrow> cc_coder_encode_kv_map (x_mp x) b ''obj'' 0 | Some b \<Rightarrow> b);
     Some (cc_coder_encode_kv_map (x_mp x) b ''args'' 0) }"

fun encode_objs :: "ext \<Rightarrow> addr \<Rightarrow> addr cc_list \<Rightarrow> bytes \<Rightarrow> world \<Rightarrow> bytes option" where
  "encode_objs x a [] b w = Some b"
| "encode_objs x a (item # list) b w = do {
     obj \<leftarrow> h_objs w (li_data item);
     b \<leftarrow> (if a = o_actor obj then encode_obj x item obj b w else Some b);
     encode_objs x a list b w }"

text \<open>The buffer has 200 bytes for each object; what does not fit is a fault.\<close>

definition cc_calvinsys_get_attributes ::
  "ext \<Rightarrow> addr \<Rightarrow> bytes cc_list \<Rightarrow> world \<Rightarrow> (cc_result \<times> bytes cc_list \<times> world) option" where
  "cc_calvinsys_get_attributes x a private_attributes w = do {
     n \<leftarrow> cc_calvinsys_get_number_of_attributes a w;
     case mem_alloc w of
       (False, w) \<Rightarrow> Some (CC_FAIL, private_attributes, w)
     | (True, w) \<Rightarrow> do {
         b \<leftarrow> (if n = 0 then Some (cc_coder_encode_map (x_mp x) [] 0)
               else encode_objs x a (n_objects w) (cc_coder_encode_map (x_mp x) [] n) w);
         if length b > (if n = 0 then 10 else unat (n * 200)) then None
         else Some (case cc_list_add_n private_attributes ''_calvinsys'' 10 b (length b) w of
           (None, l, w) \<Rightarrow> (CC_FAIL, l, w)
         | (Some _, l, w) \<Rightarrow> (CC_SUCCESS, l, w)) } }"

text \<open>The arguments of one object: \<open>args - value\<close> is the length of the value.\<close>

fun parse_kwargs :: "mp \<Rightarrow> nat \<Rightarrow> bytes \<Rightarrow> bytes cc_list \<Rightarrow> world \<Rightarrow> (bool \<times> bytes cc_list \<times> world) option" where
  "parse_kwargs mp 0 args kwargs w = Some (True, kwargs, w)"
| "parse_kwargs mp (Suc n) args kwargs w = do {
     k \<leftarrow> cc_coder_decode_str mp args;
     case k of None \<Rightarrow> Some (False, kwargs, w) | Some (key, key_len) \<Rightarrow> do {
     value \<leftarrow> cc_coder_decode_map_next mp args;
     args \<leftarrow> cc_coder_decode_map_next mp value;
     case cc_list_add_n kwargs key (unat key_len) value (length value - length args) w of
       (None, l, w) \<Rightarrow> Some (False, l, w)
     | (Some _, l, w) \<Rightarrow> parse_kwargs mp n args l w } }"

definition decode_kwargs :: "mp \<Rightarrow> bytes \<Rightarrow> world \<Rightarrow> (bool \<times> bytes cc_list \<times> world) option" where
  "decode_kwargs mp args w = do {
     ty \<leftarrow> cc_coder_type_of mp args;
     if ty = CC_CODER_NIL then Some (True, [], w)
     else do { (n, args) \<leftarrow> cc_coder_decode_map mp args; parse_kwargs mp (unat n) args [] w } }"

text \<open>One object: its key, the value with its capability's name, and the arguments.\<close>

definition deserialize_obj ::
  "ext \<Rightarrow> addr \<Rightarrow> bytes \<Rightarrow> u32 \<Rightarrow> bytes \<Rightarrow> world \<Rightarrow> (cc_result \<times> world) option" where
  "deserialize_obj x a key key_len buffer w = do {
     d \<leftarrow> cc_coder_decode_string_from_map (x_mp x) buffer ''name'';
     case d of None \<Rightarrow> Some (CC_FAIL, w) | Some (name, name_len) \<Rightarrow>
     (case cc_list_get_n (n_capabilities w) name (unat name_len) of None \<Rightarrow> Some (CC_FAIL, w) | Some item \<Rightarrow> do {
     capability \<leftarrow> h_caps w (li_data item);
     case cap_deserialize capability of None \<Rightarrow> Some (CC_FAIL, w) | Some impl \<Rightarrow>
     (case mem_alloc w of (False, w) \<Rightarrow> Some (CC_FAIL, w) | (True, w) \<Rightarrow>
       let ob = h_next w; w = w\<lparr>h_next := ob + 1\<rparr>
       in case cc_list_add_n (n_objects w) key (unat key_len) ob 0 w of
            (None, l, w) \<Rightarrow> Some (CC_FAIL, w\<lparr>n_objects := l\<rparr>)
          | (Some oi, l, w) \<Rightarrow> do {
              let w = w\<lparr>n_objects := l, h_objs := (h_objs w)(ob \<mapsto> new_obj (li_id oi) a (li_data item))\<rparr>;
              v \<leftarrow> cc_coder_get_value_from_map (x_mp x) buffer ''obj'';
              case v of None \<Rightarrow> Some (CC_FAIL, w) | Some args \<Rightarrow> do {
              (ok, kwargs, w) \<leftarrow> decode_kwargs (x_mp x) args w;
              if \<not> ok then Some (CC_FAIL, w)
              else do {
                (r, w) \<leftarrow> obj_deserialize x impl ob kwargs w;
                Some (if r = CC_SUCCESS then CC_SUCCESS else CC_FAIL, w) } } }) }) }"

fun deserialize_objs :: "ext \<Rightarrow> addr \<Rightarrow> nat \<Rightarrow> bytes \<Rightarrow> world \<Rightarrow> (cc_result \<times> world) option" where
  "deserialize_objs x a 0 buffer w = Some (CC_SUCCESS, w)"
| "deserialize_objs x a (Suc n) buffer w = do {
     k \<leftarrow> cc_coder_decode_str (x_mp x) buffer;
     case k of None \<Rightarrow> Some (CC_FAIL, w) | Some (key, key_len) \<Rightarrow> do {
     buffer \<leftarrow> cc_coder_decode_map_next (x_mp x) buffer;
     (r, w) \<leftarrow> deserialize_obj x a key key_len buffer w;
     if r \<noteq> CC_SUCCESS then Some (CC_FAIL, w)
     else do {
       buffer \<leftarrow> cc_coder_decode_map_next (x_mp x) buffer;
       deserialize_objs x a n buffer w } } }"

definition cc_calvinsys_deserialize :: "ext \<Rightarrow> addr \<Rightarrow> bytes \<Rightarrow> world \<Rightarrow> (cc_result \<times> world) option" where
  "cc_calvinsys_deserialize x a buffer w = do {
     (n, buffer) \<leftarrow> cc_coder_decode_map (x_mp x) buffer;
     deserialize_objs x a (unat n) buffer w }"

section \<open>Timers that are written out and read back\<close>

text \<open>
  The view of the objects of an actor when all of them are timers: the identifier, the name of the capability
  and the timer, in the order of the list.
\<close>

fun timers_in :: "addr \<Rightarrow> addr cc_list \<Rightarrow> world \<Rightarrow> (bytes \<times> bytes \<times> cc_calvinsys_timer) list option" where
  "timers_in a [] w = Some []"
| "timers_in a (item # list) w = do {
     obj \<leftarrow> h_objs w (li_data item);
     ts \<leftarrow> timers_in a list w;
     if o_actor obj \<noteq> a then Some ts
     else if o_impl obj \<noteq> Some Impl_timer then None
     else do {
       capability \<leftarrow> h_caps w (o_capability obj);
       timer \<leftarrow> get_timer (li_data item) w;
       Some ((li_id item, cap_name capability, timer) # ts) } }"

abbreviation timers_of :: "addr \<Rightarrow> world \<Rightarrow> (bytes \<times> bytes \<times> cc_calvinsys_timer) list option" where
  "timers_of a w \<equiv> timers_in a (n_objects w) w"

definition timer_v :: "cc_calvinsys_timer \<Rightarrow> (mpv \<times> mpv) list" where
  "timer_v t = [(MStr ''nexttrigger'', if ct_armed t then MUint (ucast (ct_next_time t)) else MNil),
     (MStr ''repeats'', MBool (ct_repeats t)), (MStr ''timeout'', MUint (ucast (ct_timeout t))),
     (MStr ''triggered'', MBool (ct_triggered t))]"

definition timer_obj_v :: "bytes \<Rightarrow> cc_calvinsys_timer \<Rightarrow> (mpv \<times> mpv) list" where
  "timer_obj_v name t = [(MStr ''name'', MStr name), (MStr ''obj'', MMap (timer_v t)), (MStr ''args'', MMap [])]"

definition timer_pair :: "bytes \<times> bytes \<times> cc_calvinsys_timer \<Rightarrow> mpv \<times> mpv" where
  "timer_pair = (\<lambda>(i, name, t). (MStr i, MMap (timer_obj_v name t)))"

text \<open>An item of an argument list that was made from a pair of a map.\<close>

definition kwarg_item :: "mp \<Rightarrow> mpv \<times> mpv \<Rightarrow> bytes cc_list_item \<Rightarrow> bool" where
  "kwarg_item mp = (\<lambda>(k, v) i. case k of
     MStr s \<Rightarrow> li_id i = s \<and> li_id_len i = length s \<and> points_to mp v (li_data i) | _ \<Rightarrow> False)"

text \<open>What comes back for a timer: one that was not armed is armed for the time 0.\<close>

definition revive :: "cc_calvinsys_timer \<Rightarrow> cc_calvinsys_timer" where
  "revive t = (if ct_armed t then t else t\<lparr>ct_armed := True, ct_next_time := 0\<rparr>)"

lemma timers_in_append:
  "timers_in a (l1 @ l2) w = do { t1 \<leftarrow> timers_in a l1 w; t2 \<leftarrow> timers_in a l2 w; Some (t1 @ t2) }"
proof (induction l1)
  case Nil
  then show ?case by (cases "timers_in a l2 w") simp_all
next
  case (Cons i l1)
  then show ?case
    by (cases "h_objs w (li_data i)"; cases "timers_in a l1 w"; cases "timers_in a l2 w")
      (auto simp: get_timer_def split: option.splits obj_state.splits)
qed

lemma timers_in_cong:
  assumes "\<And>i. i \<in> set l \<Longrightarrow> h_objs w' (li_data i) = h_objs w (li_data i)" and "h_caps w' = h_caps w"
  shows "timers_in a l w' = timers_in a l w"
  using assms(1) by (induction l) (simp_all add: assms(2) get_timer_def cong: if_cong)

text \<open>The identifiers and names are strings that the encoding can hold.\<close>

definition named :: "bytes \<times> bytes \<times> cc_calvinsys_timer \<Rightarrow> bool" where
  "named = (\<lambda>(i, name, t). no_nul i \<and> length i < 2 ^ 32 \<and> no_nul name \<and> length name < 2 ^ 32)"

lemma wf_timer_pair: "named p \<Longrightarrow> (case timer_pair p of (k, v) \<Rightarrow> wf_mpv k \<and> wf_mpv v)"
  by (auto simp: named_def timer_pair_def timer_obj_v_def timer_v_def split: prod.splits)

lemma count_timers: "timers_in a l w = Some ts \<Longrightarrow> count_objs a l w = Some (of_nat (length ts))"
  by (induction l arbitrary: ts) (auto split: if_splits)

context msgpuck
begin

lemma decode_uint_enc: "cc_coder_decode_uint mp (enc mp (MUint n) @ rest) = Some (Some (ucast n))"
  using type_at_enc[of "MUint n" rest] by (simp add: cc_coder_decode_uint_def uint_enc)

lemma decode_bool_enc: "cc_coder_decode_bool mp (enc mp (MBool b) @ rest) = Some (Some b)"
  using type_at_enc[of "MBool b" rest] by (simp add: cc_coder_decode_bool_def bool_enc)

lemma nexttrigger_enc:
  "decode_nexttrigger mp (enc mp (MUint n) @ rest) = Some (ucast n)"
  "decode_nexttrigger mp (enc mp MNil @ rest) = Some 0"
  using type_at_enc[of "MUint n" rest] type_at_enc[of MNil rest] decode_uint_enc[of n rest]
  by (simp_all add: decode_nexttrigger_def cc_coder_type_of_def del: enc.simps)

text \<open>The argument list made from the pairs of a map.\<close>

lemma parse_kwargs_enc:
  assumes "e_alloc w = []" and "wf_pairs kvs" and "list_all (\<lambda>(k, v). \<exists>s. k = MStr s \<and> no_nul s) kvs"
  shows "\<exists>l. parse_kwargs mp (length kvs) (enc_pairs mp kvs @ rest) kwargs w = Some (True, kwargs @ l, w)
     \<and> list_all2 (kwarg_item mp) kvs l"
  using assms(2,3)
proof (induction kvs arbitrary: kwargs)
  case (Cons kv kvs)
  obtain s v where kv: "kv = (MStr s, v)" and s: "no_nul s" "length s < 2 ^ 32" "wf_mpv v" and ps: "wf_pairs kvs"
      "list_all (\<lambda>(k, v). \<exists>s. k = MStr s \<and> no_nul s) kvs"
    using Cons.prems by (cases kv) auto
  let ?r = "enc mp v @ enc_pairs mp kvs @ rest"
  let ?i = "\<lparr>li_id = s, li_id_len = length s, li_data = ?r, li_data_len = length ?r - length (enc_pairs mp kvs @ rest),
      li_free_id = True\<rparr>"
  from Cons.IH[OF ps, of "kwargs @ [?i]"] obtain l where
    l: "parse_kwargs mp (length kvs) (enc_pairs mp kvs @ rest) (kwargs @ [?i]) w = Some (True, kwargs @ ?i # l, w)"
    "list_all2 (kwarg_item mp) kvs l"
    by auto
  have "next1": "mp_next mp (enc mp (MStr s) @ ?r) = Some ?r" using next_enc[of "MStr s"] s(2) by simp
  have "parse_kwargs mp (Suc (length kvs)) (enc mp (MStr s) @ ?r) kwargs w = Some (True, kwargs @ ?i # l, w)"
    using s assms(1) l(1) next1 next_enc[OF s(3), of "enc_pairs mp kvs @ rest"]
    by (simp add: cc_coder_decode_map_next_def cc_list_add_n_def cc__list_add_def Let_def del: enc.simps bind_Some_iff)
  with l(2) s(3) show ?case by (auto simp: kv kwarg_item_def points_to_def intro!: exI[of _ "?i # l"] simp del: enc.simps)
qed simp

lemma decode_kwargs_enc:
  assumes "e_alloc w = []" and "wf_mpv (MMap kvs)" and "list_all (\<lambda>(k, v). \<exists>s. k = MStr s \<and> no_nul s) kvs"
  shows "\<exists>l. decode_kwargs mp (enc mp (MMap kvs) @ rest) w = Some (True, l, w) \<and> list_all2 (kwarg_item mp) kvs l"
proof -
  have len: "unat (of_nat (length kvs) :: u32) = length kvs" and p: "wf_pairs kvs" using assms(2) by simp_all
  from parse_kwargs_enc[OF assms(1) p assms(3), of rest "[]"] type_at_enc[OF assms(2), of rest] len show ?thesis
    by (auto simp: decode_kwargs_def cc_coder_type_of_def cc_coder_decode_map_def map_enc simp del: bind_Some_iff)
qed

lemma encode_timer_enc:
  "encode_timer mp b t = b @ enc mp (MStr ''obj'') @ enc mp (MMap (timer_v t))"
  by (simp add: encode_timer_def timer_v_def kv_encodings Let_def)

lemma encode_objs_enc:
  assumes "x_mp x = mp" and "timers_in a l w = Some ts" and "list_all named ts"
  shows "encode_objs x a l b w = Some (b @ enc_pairs mp (map timer_pair ts))"
  using assms(2,3)
proof (induction l arbitrary: ts b)
  case (Cons i l)
  obtain ob ts' where ob: "h_objs w (li_data i) = Some ob" and ts': "timers_in a l w = Some ts'"
    using Cons.prems(1) by (auto split: if_splits)
  show ?case
  proof (cases "o_actor ob = a")
    case False
    then have "ts = ts'" using Cons.prems(1) ob ts' by simp
    then show ?thesis using Cons.IH[OF ts'] Cons.prems(2) False ob by simp
  next
    case True
    then obtain cap t where c: "o_impl ob = Some Impl_timer" "h_caps w (o_capability ob) = Some cap"
        "get_timer (li_data i) w = Some t" "ts = (li_id i, cap_name cap, t) # ts'"
      using Cons.prems(1) ob ts' by (auto split: if_splits)
    have n: "no_nul (li_id i)" "no_nul (cap_name cap)" "length (cap_name cap) < 2 ^ 32" "list_all named ts'"
      using Cons.prems(2) c(4) by (simp_all add: named_def)
    have "encode_obj x i ob b w = Some (b @ enc_pairs mp [timer_pair (li_id i, cap_name cap, t)])"
      using c n by (simp add: encode_obj_def obj_serialize_def cc_calvinsys_timer_serialize_def assms(1) timer_pair_def
          timer_obj_v_def encode_timer_enc kv_encodings Let_def)
    then show ?thesis using Cons.IH[OF ts' n(4)] True ob c(4) by simp
  qed
qed simp

lemma timer_deserialize_enc:
  assumes "list_all2 (kwarg_item mp)
      (timer_v t) kwargs"
    and "e_alloc w = []" and "h_objs w ob = Some b" and "h_caps w (o_capability b) = Some cap"
  shows "cc_calvinsys_timer_deserialize mp ob kwargs w
     = Some (CC_SUCCESS, w\<lparr>h_objs := (h_objs w)(ob \<mapsto> b\<lparr>o_impl := Some Impl_timer, o_state := OS_timer (revive t)\<rparr>)\<rparr>)"
proof -
  from assms(1) obtain i1 i2 i3 i4 where k: "kwargs = [i1, i2, i3, i4]"
    and i1: "li_id i1 = ''nexttrigger''" "li_id_len i1 = 11"
      "points_to mp (if ct_armed t then MUint (ucast (ct_next_time t)) else MNil) (li_data i1)"
    and i2: "li_id i2 = ''repeats''" "li_id_len i2 = 7" "points_to mp (MBool (ct_repeats t)) (li_data i2)"
    and i3: "li_id i3 = ''timeout''" "li_id_len i3 = 7" "points_to mp (MUint (ucast (ct_timeout t))) (li_data i3)"
    and i4: "li_id i4 = ''triggered''" "li_id_len i4 = 9" "points_to mp (MBool (ct_triggered t)) (li_data i4)"
    by (auto simp: timer_v_def kwarg_item_def list_all2_Cons1)
  have g: "cc_list_get kwargs ''timeout'' = Some i3" "cc_list_get kwargs ''repeats'' = Some i2"
      "cc_list_get kwargs ''triggered'' = Some i4" "cc_list_get kwargs ''nexttrigger'' = Some i1"
    by (simp_all add: k i1 i2 i3 i4 CC_UUID_BUFFER_SIZE_def)
  have d: "cc_coder_decode_uint mp (li_data i3) = Some (Some (ct_timeout t))"
      "cc_coder_decode_bool mp (li_data i2) = Some (Some (ct_repeats t))"
      "cc_coder_decode_bool mp (li_data i4) = Some (Some (ct_triggered t))"
      "decode_nexttrigger mp (li_data i1) = Some (if ct_armed t then ct_next_time t else 0)"
    using i1(3) i2(3) i3(3) i4(3)
    by (auto simp: points_to_def decode_uint_enc decode_bool_enc nexttrigger_enc simp del: enc.simps)
  show ?thesis
    using assms(2-4)
    by (cases t) (simp add: cc_calvinsys_timer_deserialize_def kwarg_def g d obj_capability_def cc_calvinsys_timer_set_def
        install_def upd_obj_def Let_def revive_def)
qed

end

text \<open>The world has the capability of that name, and its objects are read back as timers.\<close>

definition has_timer_cap :: "world \<Rightarrow> bytes \<Rightarrow> bool" where
  "has_timer_cap w name = (case cc_list_get_n (n_capabilities w) name (length name) of
     None \<Rightarrow> False
   | Some item \<Rightarrow> (case h_caps w (li_data item) of None \<Rightarrow> False
       | Some cap \<Rightarrow> cap_name cap = name \<and> cap_deserialize cap = Some Impl_timer))"

definition free_from :: "world \<Rightarrow> bool" where
  "free_from w = ((\<forall>a \<ge> h_next w. h_objs w a = None) \<and> (\<forall>i \<in> set (n_objects w). li_data i < h_next w))"

lemma cc_list_get_n_append_left:
  "no_nul k \<Longrightarrow> n = length k \<Longrightarrow> cc_list_get_n l (k @ r) n = cc_list_get_n l k n"
proof (induction l)
  case (Cons i l)
  then show ?case using strncmp0_append_left[of n k r "li_id i"] by (simp add: strncmp0_sym)
qed simp

context msgpuck
begin

lemma deserialize_timer_obj:
  assumes "x_mp x = mp" and "e_alloc w = []" and "free_from w" and "has_timer_cap w name" and "named (i, name, t)"
    and "timers_of a w = Some ts"
  shows "\<exists>w'. deserialize_obj x a (i @ r) (of_nat (length i)) (enc mp (MMap (timer_obj_v name t)) @ rest) w
       = Some (CC_SUCCESS, w')
     \<and> e_alloc w' = [] \<and> free_from w' \<and> h_caps w' = h_caps w \<and> n_capabilities w' = n_capabilities w
     \<and> timers_of a w' = Some (ts @ [(i, name, revive t)])"
proof -
  have n: "no_nul i" "length i < 2 ^ 32" "no_nul name" "length name < 2 ^ 32" using assms(5) by (simp_all add: named_def)
  obtain item cap where c: "cc_list_get_n (n_capabilities w) name (length name) = Some item"
      "h_caps w (li_data item) = Some cap" "cap_name cap = name" "cap_deserialize cap = Some Impl_timer"
    using assms(4) by (auto simp: has_timer_cap_def split: option.splits)
  have wf: "wf_mpv (MMap (timer_obj_v name t))" "wf_mpv (MMap (timer_v t))"
    using n by (simp_all add: timer_obj_v_def timer_v_def)
  obtain r1 where name: "cc_coder_decode_string_from_map mp (enc mp (MMap (timer_obj_v name t)) @ rest) ''name''
      = Some (Some (name @ r1, of_nat (length name)))"
    using string_from_map_enc[OF wf(1), of "''name''" name rest] by (auto simp: timer_obj_v_def simp del: enc.simps)
  obtain r2 where obj: "cc_coder_get_value_from_map mp (enc mp (MMap (timer_obj_v name t)) @ rest) ''obj''
      = Some (Some (enc mp (MMap (timer_v t)) @ r2))"
    using map_lookups(3)[OF wf(1), of "''obj''" rest]
    by (auto simp: timer_obj_v_def finds_def points_to_def simp del: enc.simps)
  let ?oi = "\<lparr>li_id = i, li_id_len = length i, li_data = h_next w, li_data_len = 0, li_free_id = True\<rparr>"
  let ?ob = "new_obj i a (li_data item)"
  let ?w1 = "w\<lparr>h_next := h_next w + 1, n_objects := n_objects w @ [?oi], h_objs := (h_objs w)(h_next w \<mapsto> ?ob)\<rparr>"
  obtain kwargs where dk: "decode_kwargs mp (enc mp (MMap (timer_v t)) @ r2) ?w1 = Some (True, kwargs, ?w1)"
      and kw: "list_all2 (kwarg_item mp) (timer_v t) kwargs"
    using decode_kwargs_enc[OF _ wf(2), of ?w1 r2] assms(2) by (auto simp: timer_v_def simp del: enc.simps)
  let ?w2 = "?w1\<lparr>h_objs := (h_objs ?w1)(h_next w \<mapsto> ?ob\<lparr>o_impl := Some Impl_timer, o_state := OS_timer (revive t)\<rparr>)\<rparr>"
  have ds: "cc_calvinsys_timer_deserialize mp (h_next w) kwargs ?w1 = Some (CC_SUCCESS, ?w2)"
    using timer_deserialize_enc[OF kw, of ?w1 "h_next w" ?ob cap] assms(2) c(2) by (simp add: new_obj_def)
  have add: "cc_list_add_n (n_objects w) (i @ r) (length i) (h_next w) 0 (w\<lparr>h_next := Suc (h_next w)\<rparr>)
      = (Some ?oi, n_objects w @ [?oi], w\<lparr>h_next := Suc (h_next w)\<rparr>)"
    using n(1) assms(2) by (simp add: cc_list_add_n_def cc__list_add_def Let_def)
  have "deserialize_obj x a (i @ r) (of_nat (length i)) (enc mp (MMap (timer_obj_v name t)) @ rest) w = Some (CC_SUCCESS, ?w2)"
    using n c assms(1,2) dk ds
    by (simp add: deserialize_obj_def name obj cc_list_get_n_append_left add Let_def obj_deserialize_def
        del: enc.simps bind_Some_iff)
  moreover have "free_from ?w2" using assms(3) by (auto simp: free_from_def)
  moreover have "timers_of a ?w2 = Some (ts @ [(i, name, revive t)])"
  proof -
    have "timers_in a (n_objects w) ?w2 = Some ts"
      using assms(3,6) by (subst timers_in_cong[where w = w]) (auto simp: free_from_def)
    then show ?thesis using c(2,3) by (simp add: timers_in_append get_timer_def new_obj_def)
  qed
  ultimately show ?thesis using assms(2) by (intro exI[of _ ?w2]) simp
qed

lemma deserialize_timers:
  assumes "x_mp x = mp" and "e_alloc w = []" and "free_from w" and "list_all (\<lambda>(i, name, t). has_timer_cap w name) ts'"
    and "list_all named ts'" and "timers_of a w = Some ts"
  shows "\<exists>w'. deserialize_objs x a (length ts') (enc_pairs mp (map timer_pair ts') @ rest) w = Some (CC_SUCCESS, w')
     \<and> timers_of a w' = Some (ts @ map (\<lambda>(i, name, t). (i, name, revive t)) ts')"
  using assms(2-6)
proof (induction ts' arbitrary: w ts)
  case (Cons p ts')
  obtain i name t where p: "p = (i, name, t)" by (cases p)
  let ?v = "MMap (timer_obj_v name t)" let ?r = "enc_pairs mp (map timer_pair ts') @ rest"
  have n: "length i < 2 ^ 32" "wf_mpv (MStr i)" "wf_mpv ?v" using Cons.prems(4) wf_timer_pair[of p] by (auto simp: p timer_pair_def named_def)
  have e: "enc_pairs mp (map timer_pair (p # ts')) @ rest = enc mp (MStr i) @ enc mp ?v @ ?r" by (simp add: p timer_pair_def)
  from Cons.prems deserialize_timer_obj[OF assms(1) Cons.prems(1,2), of name i t a ts "enc mp ?v @ ?r" ?r]
  obtain w1 where w1: "deserialize_obj x a (i @ enc mp ?v @ ?r) (of_nat (length i)) (enc mp ?v @ ?r) w = Some (CC_SUCCESS, w1)"
      "e_alloc w1 = []" "free_from w1" "h_caps w1 = h_caps w" "n_capabilities w1 = n_capabilities w"
      "timers_of a w1 = Some (ts @ [(i, name, revive t)])"
    by (auto simp: p)
  have "has_timer_cap w1 = has_timer_cap w" by (rule ext) (simp add: has_timer_cap_def w1 cong: option.case_cong)
  then have "list_all (\<lambda>(i, name, t). has_timer_cap w1 name) ts'" "list_all named ts'"
    using Cons.prems(3,4) by (simp_all add: p)
  from Cons.IH[OF w1(2,3) this w1(6)] obtain w' where
    w': "deserialize_objs x a (length ts') ?r w1 = Some (CC_SUCCESS, w')"
      "timers_of a w' = Some (ts @ (i, name, revive t) # map (\<lambda>(i, name, t). (i, name, revive t)) ts')" by auto
  have "deserialize_objs x a (Suc (length ts')) (enc mp (MStr i) @ enc mp ?v @ ?r) w = Some (CC_SUCCESS, w')"
    using w1(1) w'(1) n next_enc[OF n(2), of "enc mp ?v @ ?r"] next_enc[OF n(3), of ?r]
    by (simp add: assms(1) cc_coder_decode_map_next_def del: enc.simps bind_Some_iff)
  then show ?case using w'(2) unfolding e by (intro exI[of _ w']) (simp add: p del: deserialize_objs.simps enc.simps)
qed simp

end

text \<open>
  C8: the timers of an actor survive its migration. When all the objects of an actor are timers and the runtime
  writes them out as the attribute \<open>_calvinsys\<close>, another runtime that knows their capabilities reads from it timers
  with the same identifiers, capabilities, periods and flags in the same order, and an armed timer is due at the
  same time as before whatever the clocks of the two runtimes show. A timer that was not armed comes back armed and
  due at once.
\<close>

theorem timers_migrate:
  assumes "msgpuck (x_mp x)" and "timers_of a w = Some ts" and "list_all named ts" and "length ts < 2 ^ 32"
    and "cc_calvinsys_get_attributes x a attrs w = Some (CC_SUCCESS, attrs', w1)"
    and "e_alloc v = []" and "free_from v" and "list_all (\<lambda>(i, name, t). has_timer_cap v name) ts"
    and "timers_of b v = Some []"
  shows "\<exists>item v'. attrs' = attrs @ [item] \<and> li_id item = ''_calvinsys''
     \<and> cc_calvinsys_deserialize x b (li_data item @ rest) v = Some (CC_SUCCESS, v')
     \<and> timers_of b v' = Some (map (\<lambda>(i, name, t). (i, name, revive t)) ts)"
proof -
  define bs where "bs = mp_encode_map (x_mp x) (of_nat (length ts)) @ enc_pairs (x_mp x) (map timer_pair ts)"
  obtain ok w2 where alloc: "mem_alloc w = (ok, w2)" by (cases "mem_alloc w")
  note more = node_eqD[OF conjunct1[OF mem_alloc_more[OF alloc]]]
  have "timers_in a (n_objects w) w2 = Some ts"
    using assms(2) by (subst timers_in_cong[where w = w]) (simp_all add: more)
  note enc = msgpuck.encode_objs_enc[OF assms(1) refl this assms(3)]
  have u: "unat (of_nat (length ts) :: u32) = length ts" using assms(4) by simp
  have z: "of_nat (length ts) = (0::u32) \<Longrightarrow> ts = []" using u by (metis length_0_conv unat_0)
  have p: "(if of_nat (length ts) = (0::u32) then Some (cc_coder_encode_map (x_mp x) [] 0)
        else encode_objs x a (n_objects w2) (cc_coder_encode_map (x_mp x) [] (of_nat (length ts))) w2) = Some bs"
    using enc[of "mp_encode_map (x_mp x) (of_nat (length ts))"] z
    by (cases "of_nat (length ts) = (0::u32)") (simp_all add: cc_coder_encode_map_def more bs_def)
  have n: "cc_calvinsys_get_number_of_attributes a w = Some (of_nat (length ts))"
    by (simp add: cc_calvinsys_get_number_of_attributes_def count_timers[OF assms(2)])
  obtain it l w3 where add: "cc_list_add_n attrs ''_calvinsys'' 10 bs (length bs) w2 = (it, l, w3)"
    by (cases "cc_list_add_n attrs ''_calvinsys'' 10 bs (length bs) w2")
  from assms(5) have "it \<noteq> None \<and> attrs' = l"
    unfolding cc_calvinsys_get_attributes_def n using alloc
    by (cases ok) (auto simp: p add split: if_splits option.splits)
  then have b: "\<exists>item. attrs' = attrs @ [item] \<and> li_id item = ''_calvinsys'' \<and> li_data item = bs"
    using add by (auto simp: cc_list_add_n_def cc__list_add_def Let_def split: prod.splits bool.splits)
  from msgpuck.deserialize_timers[OF assms(1) refl assms(6-8,3,9), of rest] obtain v' where
    v': "deserialize_objs x b (length ts) (enc_pairs (x_mp x) (map timer_pair ts) @ rest) v = Some (CC_SUCCESS, v')"
      "timers_of b v' = Some (map (\<lambda>(i, name, t). (i, name, revive t)) ts)" by auto
  have "cc_calvinsys_deserialize x b (bs @ rest) v = Some (CC_SUCCESS, v')"
    using v'(1) u by (simp add: bs_def cc_calvinsys_deserialize_def cc_coder_decode_map_def msgpuck.map_enc[OF assms(1)])
  with b v'(2) show ?thesis by auto
qed

section \<open>Checking the timers\<close>

definition is_timer :: "world \<Rightarrow> addr \<Rightarrow> bool" where
  "is_timer w a = (case obj_capability a w of None \<Rightarrow> False | Some c \<Rightarrow> strncmp0 (cap_name c) ''sys.timer'' 9)"

text \<open>The objects of the list are there with their capabilities, and what is named as a timer is one.\<close>

definition timers_ok :: "world \<Rightarrow> addr list \<Rightarrow> bool" where
  "timers_ok w as = (distinct as \<and> (\<forall>a \<in> set as. obj_capability a w \<noteq> None \<and> (is_timer w a \<longrightarrow> get_timer a w \<noteq> None)))"

definition timer_at :: "world \<Rightarrow> addr \<Rightarrow> cc_calvinsys_timer" where
  "timer_at w a = the (get_timer a w)"

definition tick :: "u32 \<Rightarrow> cc_calvinsys_timer \<Rightarrow> cc_calvinsys_timer" where
  "tick now t = (if ct_armed t \<and> ct_next_time t \<le> now then t\<lparr>ct_triggered := True, ct_armed := False\<rparr> else t)"

definition remaining :: "u32 \<Rightarrow> cc_calvinsys_timer \<Rightarrow> u32" where
  "remaining now t = (if ct_next_time t \<le> now then 0 else ct_next_time t - now)"

lemma check_timer_eq: "check_timer now t timeout = (tick now t, if ct_armed t then remaining now t else timeout)"
  by (simp add: check_timer_def tick_def remaining_def)

definition ticked :: "u32 \<Rightarrow> addr set \<Rightarrow> world \<Rightarrow> world" where
  "ticked now A w = w\<lparr>h_objs := \<lambda>a. if a \<in> A then map_option (\<lambda>x. x\<lparr>o_state := OS_timer (tick now (timer_at w a))\<rparr>) (h_objs w a)
                                else h_objs w a\<rparr>"

lemma obj_capability_ticked [simp]: "obj_capability a (ticked now A w) = obj_capability a w"
  by (cases "h_objs w a") (simp_all add: obj_capability_def ticked_def)

lemma get_timer_ticked [simp]: "a \<notin> A \<Longrightarrow> get_timer a (ticked now A w) = get_timer a w"
  by (simp add: get_timer_def ticked_def)

lemma set_ticked:
  assumes "get_timer a w = Some t" and "a \<notin> A"
  shows "set_obj_state a (OS_timer (tick now t)) (ticked now A w) = Some (ticked now (insert a A) w)"
proof -
  obtain x where "h_objs w a = Some x" using assms(1) by (auto simp: get_timer_def)
  moreover from this have "(h_objs (ticked now A w))(a \<mapsto> x\<lparr>o_state := OS_timer (tick now t)\<rparr>) = h_objs (ticked now (insert a A) w)"
    using assms by (intro ext) (simp add: ticked_def timer_at_def)
  ultimately show ?thesis using assms by (simp add: set_obj_state_def upd_obj_def ticked_def)
qed

text \<open>The loop leaves the time to wait that belongs to the last armed timer.\<close>

lemma timers_loop_eq:
  assumes "timers_ok w (map li_data l)" and "A \<inter> set (map li_data l) = {}"
  shows "timers_loop now l timeout (ticked now A w) =
     Some (let armed = filter ct_armed (map (timer_at w) (filter (is_timer w) (map li_data l)))
           in if armed = [] then timeout else remaining now (last armed),
           ticked now (A \<union> {a \<in> set (map li_data l). is_timer w a}) w)"
  using assms
proof (induction l arbitrary: A timeout)
  case (Cons i l)
  let ?a = "li_data i"
  have ok: "timers_ok w (map li_data l)" and a: "?a \<notin> set (map li_data l)" "?a \<notin> A"
    using Cons.prems by (auto simp: timers_ok_def)
  obtain c where c: "obj_capability ?a w = Some c" using Cons.prems by (auto simp: timers_ok_def)
  show ?case
  proof (cases "is_timer w ?a")
    case False
    then have "{a \<in> set (map li_data (i # l)). is_timer w a} = {a \<in> set (map li_data l). is_timer w a}" by auto
    then show ?thesis using False c Cons.IH[OF ok, of A] Cons.prems(2) by (simp add: is_timer_def del: strncmp0_numeral)
  next
    case True
    then obtain t where t: "get_timer ?a w = Some t" using Cons.prems by (auto simp: timers_ok_def)
    have u: "A \<union> {a \<in> set (map li_data (i # l)). is_timer w a} = insert ?a A \<union> {a \<in> set (map li_data l). is_timer w a}"
      using True by auto
    have s: "strncmp0 (cap_name c) ''sys.timer'' 9" using True c by (simp add: is_timer_def)
    have ta: "timer_at w ?a = t" using t by (simp add: timer_at_def)
    have "insert ?a A \<inter> set (map li_data l) = {}" using Cons.prems(2) a by auto
    note IH = Cons.IH[OF ok this]
    have "timers_loop now (i # l) timeout (ticked now A w)
        = timers_loop now l (if ct_armed t then remaining now t else timeout) (ticked now (insert ?a A) w)"
      using s c t a(2) by (simp add: check_timer_eq set_ticked del: strncmp0_numeral)
    then show ?thesis using True by (simp only: u IH) (simp add: ta Let_def)
  qed
qed (simp add: Let_def)

lemma ticked_empty: "ticked now {} w = w"
  by (simp add: ticked_def)

text \<open>
  What \<open>cc_calvinsys_timers_check\<close> does. Every armed timer whose time has come is triggered and disarmed, no
  other object changes, and the call returns. The time to wait that it leaves is that of the armed timer that is
  last in the list, or the time it was given when no timer is armed; it is not the least of the times.
\<close>

lemma timers_check_effect:
  assumes "timers_ok w (map li_data (n_objects w))"
  shows "let now = cc_node_get_time w; timers = filter (is_timer w) (map li_data (n_objects w));
             armed = filter ct_armed (map (timer_at w) timers)
         in \<exists>w'. cc_calvinsys_timers_check timeout w
                   = Some (if armed = [] then timeout else remaining now (last armed), w')
              \<and> (\<forall>a. if a \<in> set timers then get_timer a w' = Some (tick now (timer_at w a))
                     else h_objs w' a = h_objs w a)
              \<and> h_ports w' = h_ports w \<and> h_actors w' = h_actors w \<and> n_objects w' = n_objects w"
proof -
  let ?as = "map li_data (n_objects w)"
  have "cc_calvinsys_timers_check timeout w = Some (let armed = filter ct_armed (map (timer_at w) (filter (is_timer w) ?as))
      in if armed = [] then timeout else remaining (cc_node_get_time w) (last armed),
      ticked (cc_node_get_time w) {a \<in> set ?as. is_timer w a} w)"
    using timers_loop_eq[OF assms, of "{}" "cc_node_get_time w" timeout]
    by (simp add: cc_calvinsys_timers_check_def ticked_empty)
  moreover have "get_timer a (ticked now {a \<in> set ?as. is_timer w a} w) = Some (tick now (timer_at w a))"
    if "a \<in> set ?as" "is_timer w a" for a now
  proof -
    have "get_timer a w \<noteq> None" using that assms by (auto simp: timers_ok_def)
    then obtain x where "h_objs w a = Some x" by (auto simp: get_timer_def)
    then show ?thesis using that by (simp add: get_timer_def ticked_def)
  qed
  ultimately show ?thesis by (auto simp: Let_def ticked_def)
qed

section \<open>Examples\<close>

text \<open>A runtime without capabilities of the platform, with one actor type that does nothing.\<close>

definition example_caps :: cap_ops where
  "example_caps = \<lparr>xo_open = \<lambda>a kwargs w. Some (CC_FAIL, w), xo_deserialize = \<lambda>a kwargs w. Some (CC_FAIL, w),
     xo_can_write = None, xo_write = None, xo_can_read = None, xo_read = None, xo_close = None, xo_serialize = None\<rparr>"

definition example_actor_ops :: actor_ops where
  "example_actor_ops = \<lparr>ac_init = \<lambda>a attrs w. Some (CC_SUCCESS, w), ac_set_state = \<lambda>a attrs w. Some (CC_SUCCESS, w),
     ac_free_state = None, ac_fire = \<lambda>a w. Some (False, w), ac_get_managed_attributes = None, ac_will_migrate = None,
     ac_will_end = None, ac_did_migrate = None, ac_did_replicate = None, ac_get_requires = None\<rparr>"

definition example_ext :: ext where
  "example_ext = \<lparr>x_mp = mp_ref, x_jsmn = \<lambda>js n k. None, x_caps = \<lambda>name. example_caps,
     x_actors = \<lambda>name. example_actor_ops, x_fresh = \<lambda>w. []\<rparr>"

definition example_cap :: cc_calvinsys_capability where
  "example_cap = \<lparr>cap_name = ''sys.timer.once'', cap_open = Some Impl_timer, cap_deserialize = Some Impl_timer,
     cap_init_args = None, cap_free_init_args = False, cap_python_module = None\<rparr>"

definition example_timer :: "u32 \<Rightarrow> cc_calvinsys_timer" where
  "example_timer n = \<lparr>ct_timeout = 7, ct_armed = True, ct_next_time = n, ct_repeats = False, ct_triggered = False\<rparr>"

definition example_obj :: "bytes \<Rightarrow> u32 \<Rightarrow> cc_calvinsys_obj" where
  "example_obj i n = \<lparr>o_impl = Some Impl_timer, o_state = OS_timer (example_timer n), o_id = i, o_actor = 5, o_capability = 2\<rparr>"

definition example_obj_item :: "bytes \<Rightarrow> addr \<Rightarrow> addr cc_list_item" where
  "example_obj_item i a = \<lparr>li_id = i, li_id_len = length i, li_data = a, li_data_len = 0, li_free_id = True\<rparr>"

text \<open>The runtime an actor leaves, with two timers that are due at 105 and 200 when it is 100, and the one it enters.\<close>

definition example_target :: world where
  "example_target = example_world\<lparr>h_caps := [2 \<mapsto> example_cap], h_next := 9,
     n_capabilities := [example_obj_item ''sys.timer.once'' 2], e_time := 40\<rparr>"

definition example_source :: world where
  "example_source = example_target\<lparr>h_objs := [3 \<mapsto> example_obj ''T1'' 105, 4 \<mapsto> example_obj ''T2'' 200],
     n_objects := [example_obj_item ''T1'' 3, example_obj_item ''T2'' 4], e_time := 100\<rparr>"

lemmas example_calvinsys_defs =
  example_ext_def example_cap_def example_timer_def example_obj_def example_obj_item_def example_target_def
  example_source_def example_world_def

definition example_timers :: "(bytes \<times> bytes \<times> cc_calvinsys_timer) list" where
  "example_timers = [(''T1'', ''sys.timer.once'', example_timer 105), (''T2'', ''sys.timer.once'', example_timer 200)]"

lemma example_timers_of: "timers_of 5 example_source = Some example_timers"
  by (simp add: example_timers_def example_calvinsys_defs get_timer_def)

lemma example_named: "list_all named example_timers"
  by (simp add: example_timers_def named_def)

lemma example_written:
  "\<exists>l w. cc_calvinsys_get_attributes example_ext 5 [] example_source = Some (CC_SUCCESS, l, w)"
proof -
  have "encode_objs example_ext 5 (n_objects example_source) (mp_encode_map mp_ref 2) example_source
      = Some (mp_encode_map mp_ref 2 @ enc_pairs mp_ref (map timer_pair example_timers))"
    using msgpuck.encode_objs_enc[OF ref.msgpuck_axioms _ example_timers_of example_named, of example_ext "mp_encode_map mp_ref 2"]
    by (simp add: example_ext_def)
  moreover have "length (mp_encode_map mp_ref 2 @ enc_pairs mp_ref (map timer_pair example_timers)) \<le> 400"
    by (simp add: example_timers_def timer_pair_def timer_obj_v_def timer_v_def example_timer_def) (simp add: mp_ref_def enc_num_def)
  moreover have "e_alloc example_source = []" by (simp add: example_calvinsys_defs)
  ultimately show ?thesis
    using count_timers[OF example_timers_of]
    by (simp add: cc_calvinsys_get_attributes_def cc_calvinsys_get_number_of_attributes_def cc_coder_encode_map_def
        cc_list_add_n_def cc__list_add_def Let_def example_timers_def example_ext_def del: enc.simps)
qed

theorem timers_migrate_witness:
  "\<exists>b v'. cc_calvinsys_deserialize example_ext 5 b example_target = Some (CC_SUCCESS, v')
     \<and> timers_of 5 v' = Some example_timers"
proof -
  obtain l w where g: "cc_calvinsys_get_attributes example_ext 5 [] example_source = Some (CC_SUCCESS, l, w)"
    using example_written by auto
  have mp: "msgpuck (x_mp example_ext)" using ref.msgpuck_axioms by (simp add: example_ext_def)
  have "e_alloc example_target = []" "free_from example_target" "timers_of 5 example_target = Some []"
      "list_all (\<lambda>(i, name, t). has_timer_cap example_target name) example_timers" "length example_timers < 2 ^ 32"
    by (simp_all add: free_from_def example_calvinsys_defs example_timers_def has_timer_cap_def CC_UUID_BUFFER_SIZE_def)
  moreover have "map (\<lambda>(i, name, t). (i, name, revive t)) example_timers = example_timers"
    by (simp add: example_timers_def revive_def example_timer_def)
  ultimately show ?thesis
    using timers_migrate[OF mp example_timers_of example_named _ g, of example_target 5 "[]"] by auto
qed

text \<open>The time to wait is not the least: at 100 the node waits for 100 seconds although a timer is due in 5.\<close>

lemma timers_check_oversleeps:
  "\<exists>w'. cc_calvinsys_timers_check 3600 example_source = Some (100, w') \<and> remaining 100 (timer_at w' 3) = 5"
  by (simp add: cc_calvinsys_timers_check_def obj_capability_def get_timer_def check_timer_def set_obj_state_def upd_obj_def
      cc_node_get_time_def timer_at_def remaining_def example_calvinsys_defs)

section \<open>What an operation on an object may change\<close>

text \<open>Only the object at \<open>a\<close> changes, and it keeps its owner, its capability and its identifier.\<close>

definition only_obj :: "addr \<Rightarrow> world \<Rightarrow> world \<Rightarrow> bool" where
  "only_obj a w w' = (env.more w' = env.more (w\<lparr>h_objs := (h_objs w)(a := h_objs w' a)\<rparr>) \<and> e_sent w' = e_sent w
     \<and> (\<forall>ob. h_objs w a = Some ob \<longrightarrow> (\<exists>ob'. h_objs w' a = Some ob' \<and> o_actor ob' = o_actor ob
          \<and> o_capability ob' = o_capability ob \<and> o_id ob' = o_id ob)))"

lemma only_obj_refl [simp]: "only_obj a w w"
  by (cases w) (auto simp: only_obj_def)

lemma only_obj_alloc: "mem_alloc w = (b, w') \<Longrightarrow> only_obj a w w'"
  by (cases w; cases w') (auto simp: only_obj_def dest!: mem_alloc_more)

lemma only_objD:
  assumes "only_obj a w w'"
  shows "h_links w' = h_links w" "h_tunnels w' = h_tunnels w" "h_ports w' = h_ports w" "h_actors w' = h_actors w"
    "h_caps w' = h_caps w" "h_next w' = h_next w" "n_objects w' = n_objects w" "n_capabilities w' = n_capabilities w"
    "n_actors w' = n_actors w" "n_links w' = n_links w" "n_tunnels w' = n_tunnels w" "n_pending_msgs w' = n_pending_msgs w"
    "e_sent w' = e_sent w" "b \<noteq> a \<Longrightarrow> h_objs w' b = h_objs w b"
proof -
  have e: "env.more w' = env.more (w\<lparr>h_objs := (h_objs w)(a := h_objs w' a)\<rparr>)" using assms by (simp add: only_obj_def)
  note d = node_eqD[OF e]
  show "h_links w' = h_links w" "h_tunnels w' = h_tunnels w" "h_ports w' = h_ports w" "h_actors w' = h_actors w"
    "h_caps w' = h_caps w" "h_next w' = h_next w" "n_objects w' = n_objects w" "n_capabilities w' = n_capabilities w"
    "n_actors w' = n_actors w" "n_links w' = n_links w" "n_tunnels w' = n_tunnels w" "n_pending_msgs w' = n_pending_msgs w"
    by (simp_all only: d(1-20)) simp_all
  show "e_sent w' = e_sent w" using assms by (simp add: only_obj_def)
  show "b \<noteq> a \<Longrightarrow> h_objs w' b = h_objs w b" using fun_cong[OF d(21), of b] by simp
qed

lemma env_more_objs: "env.more v = env.more w \<Longrightarrow> env.more (v\<lparr>h_objs := h\<rparr>) = env.more (w\<lparr>h_objs := h\<rparr>)"
  for v w :: world
  by (cases v; cases w) simp

lemma only_obj_trans:
  assumes "only_obj a w w1" and "only_obj a w1 w2"
  shows "only_obj a w w2"
proof -
  have "(h_objs w1)(a := h_objs w2 a) = (h_objs w)(a := h_objs w2 a)"
    using only_objD(14)[OF assms(1)] by auto
  moreover have "env.more w2 = env.more (w1\<lparr>h_objs := (h_objs w1)(a := h_objs w2 a)\<rparr>)"
    using assms(2) unfolding only_obj_def by blast
  moreover have "env.more (w1\<lparr>h_objs := h\<rparr>) = env.more (w\<lparr>h_objs := h\<rparr>)" for h
    using env_more_objs[of w1 "w\<lparr>h_objs := (h_objs w)(a := h_objs w1 a)\<rparr>" h] assms(1) unfolding only_obj_def by simp
  ultimately have "env.more w2 = env.more (w\<lparr>h_objs := (h_objs w)(a := h_objs w2 a)\<rparr>)" by simp
  moreover have "e_sent w2 = e_sent w" using assms by (simp add: only_obj_def)
  ultimately show ?thesis using assms unfolding only_obj_def by metis
qed

lemma only_obj_upd:
  assumes "upd_obj a f w = Some w'" and "\<And>ob. o_actor (f ob) = o_actor ob \<and> o_capability (f ob) = o_capability ob \<and> o_id (f ob) = o_id ob"
  shows "only_obj a w w'"
proof -
  obtain ob where ob: "h_objs w a = Some ob" and w': "w' = w\<lparr>h_objs := (h_objs w)(a \<mapsto> f ob)\<rparr>"
    using assms(1) by (auto simp: upd_obj_def)
  then show ?thesis using assms(2)[of ob] by (simp add: only_obj_def)
qed

lemma set_obj_state_only: "set_obj_state a s w = Some w' \<Longrightarrow> only_obj a w w'"
  unfolding set_obj_state_def by (erule only_obj_upd) simp

lemma install_only: "install a impl s w = Some w' \<Longrightarrow> only_obj a w w'"
  unfolding install_def by (erule only_obj_upd) simp

lemmas only_obj_steps = only_obj_alloc set_obj_state_only install_only

text \<open>An operation that has changed only the object so far goes on to do so: one rule for each kind of step.\<close>

abbreviation confined :: "addr \<Rightarrow> world \<Rightarrow> (cc_result \<times> world) option \<Rightarrow> bool" where
  "confined a w m \<equiv> always (\<lambda>(r, w'). only_obj a w w') m"

lemma confined_done: "only_obj a w w1 \<Longrightarrow> confined a w (Some (r, w1))"
  by simp

lemma confined_set:
  "only_obj a w w1 \<Longrightarrow> (\<And>w2. only_obj a w w2 \<Longrightarrow> confined a w (f w2)) \<Longrightarrow> confined a w (Option.bind (set_obj_state a s w1) f)"
  by (cases "set_obj_state a s w1") (auto dest: set_obj_state_only only_obj_trans)

lemma confined_install:
  "only_obj a w w1 \<Longrightarrow> (\<And>w2. only_obj a w w2 \<Longrightarrow> confined a w (f w2)) \<Longrightarrow> confined a w (Option.bind (install a impl s w1) f)"
  by (cases "install a impl s w1") (auto dest: install_only only_obj_trans)

lemma confined_alloc:
  "only_obj a w w1 \<Longrightarrow> (\<And>w2. only_obj a w w2 \<Longrightarrow> confined a w (f w2)) \<Longrightarrow> (\<And>w2. only_obj a w w2 \<Longrightarrow> confined a w (g w2)) \<Longrightarrow>
   confined a w (case mem_alloc w1 of (True, w2) \<Rightarrow> f w2 | (False, w2) \<Rightarrow> g w2)"
  by (cases "mem_alloc w1") (auto dest: only_obj_alloc only_obj_trans split: bool.split)

lemma confined_bind: "(\<And>y. confined a w (f y)) \<Longrightarrow> confined a w (Option.bind m f)"
  by (cases m) simp_all

lemma confined_option: "confined a w m \<Longrightarrow> (\<And>y. confined a w (f y)) \<Longrightarrow> confined a w (case v of None \<Rightarrow> m | Some y \<Rightarrow> f y)"
  by (cases v) simp_all

lemma confined_prod: "(\<And>y z. confined a w (f y z)) \<Longrightarrow> confined a w (case v of (y, z) \<Rightarrow> f y z)"
  by (cases v) simp

lemma confined_if: "confined a w m \<Longrightarrow> confined a w n \<Longrightarrow> confined a w (if b then m else n)"
  by simp

lemma confinedD: "confined a w m \<Longrightarrow> m = Some (r, w') \<Longrightarrow> only_obj a w w'"
  by (auto dest: alwaysD)

text \<open>
  The contract of a capability: each of its functions changes its own object only, and the state of the object stays one of its kind,
  \<open>valid\<close>. The capabilities of the runtime keep it; for one of the platform it is what \<open>cc_calvinsys.c\<close> relies on.
\<close>

definition typed_obj :: "cap_impl \<Rightarrow> (obj_state \<Rightarrow> bool) \<Rightarrow> addr \<Rightarrow> world \<Rightarrow> bool" where
  "typed_obj impl valid a w = (\<exists>ob. h_objs w a = Some ob \<and> o_impl ob = Some impl \<and> valid (o_state ob))"

locale capability =
  fixes x :: ext and impl :: cap_impl and valid :: "obj_state \<Rightarrow> bool"
  assumes open_only: "obj_open x impl a kwargs w = Some (r, w') \<Longrightarrow> only_obj a w w'"
    and deserialize_only: "obj_deserialize x impl a kwargs w = Some (r, w') \<Longrightarrow> only_obj a w w'"
    and can_write_only: "obj_can_write x impl a w = Some (b, w') \<Longrightarrow> only_obj a w w'"
    and write_only: "obj_write x impl a data n w = Some (r, w') \<Longrightarrow> only_obj a w w'"
    and can_read_only: "obj_can_read x impl a w = Some (b, w') \<Longrightarrow> only_obj a w w'"
    and read_only: "obj_read x impl a w = Some (r, d, w') \<Longrightarrow> only_obj a w w'"
    and close_only: "obj_close x impl a w = Some (r, w') \<Longrightarrow> only_obj a w w'"
    and close_returns: "typed_obj impl valid a w \<Longrightarrow> \<exists>r w'. obj_close x impl a w = Some (r, w')"
    and open_typed: "obj_open x impl a kwargs w = Some (CC_SUCCESS, w') \<Longrightarrow> typed_obj impl valid a w'"
    and can_write_typed: "typed_obj impl valid a w \<Longrightarrow> obj_can_write x impl a w = Some (b, w') \<Longrightarrow> typed_obj impl valid a w'"
    and write_typed: "typed_obj impl valid a w \<Longrightarrow> obj_write x impl a data n w = Some (r, w') \<Longrightarrow> typed_obj impl valid a w'"
    and can_read_typed: "typed_obj impl valid a w \<Longrightarrow> obj_can_read x impl a w = Some (b, w') \<Longrightarrow> typed_obj impl valid a w'"
    and read_typed: "typed_obj impl valid a w \<Longrightarrow> obj_read x impl a w = Some (r, d, w') \<Longrightarrow> typed_obj impl valid a w'"
begin

lemma calvinsys_write_only:
  "cc_list_get (n_objects w) i = Some item \<Longrightarrow> h_objs w (li_data item) = Some ob \<Longrightarrow> o_impl ob = Some impl \<Longrightarrow>
   cc_calvinsys_write x i data n w = Some (r, w') \<Longrightarrow> only_obj (li_data item) w w'"
  by (auto simp: cc_calvinsys_write_def dest: write_only)

lemma calvinsys_read_only:
  "cc_list_get (n_objects w) i = Some item \<Longrightarrow> h_objs w (li_data item) = Some ob \<Longrightarrow> o_impl ob = Some impl \<Longrightarrow>
   cc_calvinsys_read x i w = Some (r, d, w') \<Longrightarrow> only_obj (li_data item) w w'"
  by (auto simp: cc_calvinsys_read_def dest: read_only)

text \<open>Closing takes the object and its entry away and leaves everything else.\<close>

lemma calvinsys_close_effect:
  assumes "cc_list_get (n_objects w) i = Some item" and "h_objs w (li_data item) = Some ob" and "o_impl ob = Some impl"
    and "cc_calvinsys_close x i w = Some w'"
  shows "n_objects w' = cc_list_remove (n_objects w) i \<and> h_objs w' = (h_objs w)(li_data item := None)
     \<and> h_ports w' = h_ports w \<and> h_actors w' = h_actors w \<and> h_tunnels w' = h_tunnels w \<and> h_links w' = h_links w
     \<and> h_caps w' = h_caps w \<and> n_actors w' = n_actors w \<and> n_capabilities w' = n_capabilities w"
proof -
  obtain r w1 where c: "obj_close x impl (li_data item) w = Some (r, w1)"
    and w': "w' = free_obj (li_data item) (w1\<lparr>n_objects := cc_list_remove (n_objects w1) i\<rparr>)"
    using assms by (auto simp: cc_calvinsys_close_def)
  note d = only_objD[OF close_only[OF c]]
  have "(h_objs w1)(li_data item := None) = (h_objs w)(li_data item := None)" using d(14) by auto
  then show ?thesis by (simp add: w' free_obj_def d)
qed

end

lemma timer_read_only: "cc_calvinsys_timer_read a w = Some (r, w') \<Longrightarrow> only_obj a w w'"
  by (erule confinedD[rotated], unfold cc_calvinsys_timer_read_def Let_def) (rule confined_done confined_set confined_install confined_alloc confined_if confined_option confined_prod | rule confined_bind | assumption | rule only_obj_refl)+

lemma timer_write_only: "cc_calvinsys_timer_write mp a data w = Some (r, w') \<Longrightarrow> only_obj a w w'"
  by (erule confinedD[rotated], unfold cc_calvinsys_timer_write_def Let_def) (rule confined_done confined_set confined_install confined_alloc confined_if confined_option confined_prod | rule confined_bind | assumption | rule only_obj_refl)+

lemma timer_open_only: "cc_calvinsys_timer_open mp a kwargs w = Some (r, w') \<Longrightarrow> only_obj a w w'"
  by (erule confinedD[rotated], unfold cc_calvinsys_timer_open_def Let_def) (rule confined_done confined_set confined_install confined_alloc confined_if confined_option confined_prod | rule confined_bind | assumption | rule only_obj_refl)+

lemma timer_deserialize_only: "cc_calvinsys_timer_deserialize mp a kwargs w = Some (r, w') \<Longrightarrow> only_obj a w w'"
  by (erule confinedD[rotated], unfold cc_calvinsys_timer_deserialize_def Let_def) (rule confined_done confined_set confined_install confined_alloc confined_if confined_option confined_prod | rule confined_bind | assumption | rule only_obj_refl)+

lemma install_installs: "install a impl s w = Some w' \<Longrightarrow> \<exists>ob. h_objs w' a = Some ob \<and> o_impl ob = Some impl"
  by (auto simp: install_def upd_obj_def)

lemma set_state_installed:
  "set_obj_state a s w = Some w' \<Longrightarrow> \<exists>ob. h_objs w a = Some ob \<and> o_impl ob = Some impl \<Longrightarrow>
   \<exists>ob. h_objs w' a = Some ob \<and> o_impl ob = Some impl"
  by (auto simp: set_obj_state_def upd_obj_def)

definition keeps_impl :: "addr \<Rightarrow> world \<Rightarrow> world \<Rightarrow> bool" where
  "keeps_impl a w w' = (\<forall>ob. h_objs w a = Some ob \<longrightarrow> (\<exists>ob'. h_objs w' a = Some ob' \<and> o_impl ob' = o_impl ob))"

lemma keeps_impl_refl [simp]: "keeps_impl a w w"
  by (simp add: keeps_impl_def)

lemma keeps_impl_trans: "keeps_impl a w w1 \<Longrightarrow> keeps_impl a w1 w2 \<Longrightarrow> keeps_impl a w w2"
  unfolding keeps_impl_def by metis

lemma keeps_impl_steps: "mem_alloc w = (b, w') \<Longrightarrow> keeps_impl a w w'" "set_obj_state a s w = Some w' \<Longrightarrow> keeps_impl a w w'"
  by (auto simp: keeps_impl_def mem_alloc_def set_obj_state_def upd_obj_def split: list.splits)

abbreviation kept :: "addr \<Rightarrow> world \<Rightarrow> (cc_result \<times> world) option \<Rightarrow> bool" where
  "kept a w m \<equiv> always (\<lambda>(r, w'). keeps_impl a w w') m"

lemma kept_set:
  "keeps_impl a w w1 \<Longrightarrow> (\<And>w2. keeps_impl a w w2 \<Longrightarrow> kept a w (f w2)) \<Longrightarrow> kept a w (Option.bind (set_obj_state a s w1) f)"
  by (cases "set_obj_state a s w1") (auto dest: keeps_impl_steps(2) keeps_impl_trans)

lemma kept_alloc:
  "keeps_impl a w w1 \<Longrightarrow> (\<And>w2. keeps_impl a w w2 \<Longrightarrow> kept a w (f w2)) \<Longrightarrow> (\<And>w2. keeps_impl a w w2 \<Longrightarrow> kept a w (g w2)) \<Longrightarrow>
   kept a w (case mem_alloc w1 of (True, w2) \<Rightarrow> f w2 | (False, w2) \<Rightarrow> g w2)"
  by (cases "mem_alloc w1") (auto dest: keeps_impl_steps(1)[of w1] keeps_impl_trans split: bool.split)

lemma kept_flow:
  "keeps_impl a w w1 \<Longrightarrow> kept a w (Some (r, w1))"
  "kept a w m \<Longrightarrow> kept a w n \<Longrightarrow> kept a w (if b then m else n)"
  "kept a w m \<Longrightarrow> (\<And>y. kept a w (g y)) \<Longrightarrow> kept a w (case v of None \<Rightarrow> m | Some y \<Rightarrow> g y)"
  "(\<And>y z. kept a w (h y z)) \<Longrightarrow> kept a w (case q of (y, z) \<Rightarrow> h y z)"
  by (simp_all split: option.split prod.split)

lemma kept_bind: "(\<And>y. kept a w (f y)) \<Longrightarrow> kept a w (Option.bind m f)"
  by (cases m) simp_all

lemma set_returns: "(\<exists>w'. set_obj_state a s w = Some w') = (h_objs w a \<noteq> None)"
  by (auto simp: set_obj_state_def upd_obj_def)

lemma timer_open_installs:
  "cc_calvinsys_timer_open mp a kwargs w = Some (CC_SUCCESS, w') \<Longrightarrow> \<exists>ob. h_objs w' a = Some ob \<and> o_impl ob = Some Impl_timer"
  by (cases "mem_alloc w") (auto simp: cc_calvinsys_timer_open_def Let_def dest!: install_installs dest: set_state_installed
      split: bool.splits option.splits if_splits)

lemma timer_keeps:
  "cc_calvinsys_timer_read a w = Some (r, w') \<Longrightarrow> keeps_impl a w w'"
  "cc_calvinsys_timer_write mp a data w = Some (r, w') \<Longrightarrow> keeps_impl a w w'"
  by (auto simp: cc_calvinsys_timer_read_def cc_calvinsys_timer_write_def Let_def split: if_splits option.splits intro: keeps_impl_steps)

interpretation timer: capability x Impl_timer "\<lambda>_. True" for x
  by unfold_locales (auto simp: obj_open_def obj_deserialize_def obj_can_write_def obj_write_def obj_can_read_def obj_read_def
      obj_close_def cc_calvinsys_timer_close_def set_returns typed_obj_def dest: timer_read_only timer_write_only timer_open_only timer_deserialize_only
      only_obj_steps timer_open_installs timer_keeps[unfolded keeps_impl_def])

lemma schedule_open_only: "cc_calvinsys_schedule_open a kwargs w = Some (r, w') \<Longrightarrow> only_obj a w w'"
  by (erule confinedD[rotated], unfold cc_calvinsys_schedule_open_def Let_def) (rule confined_done confined_set confined_install confined_alloc confined_if confined_option confined_prod | rule confined_bind | assumption | rule only_obj_refl)+

lemma schedule_open_installs:
  "cc_calvinsys_schedule_open a kwargs w = Some (CC_SUCCESS, w') \<Longrightarrow> \<exists>ob. h_objs w' a = Some ob \<and> o_impl ob = Some Impl_schedule"
  by (cases "mem_alloc w") (auto simp: cc_calvinsys_schedule_open_def dest!: install_installs split: bool.splits)

interpretation schedule: capability x Impl_schedule "\<lambda>_. True" for x
  by unfold_locales (auto simp: obj_open_def obj_deserialize_def obj_can_write_def obj_write_def obj_can_read_def obj_read_def
      obj_close_def cc_calvinsys_schedule_close_def set_returns cc_calvinsys_schedule_read_def cc_calvinsys_schedule_write_def typed_obj_def
      dest: schedule_open_only only_obj_steps schedule_open_installs keeps_impl_steps(2)[unfolded keeps_impl_def])

lemma attribute_open_only: "cc_calvinsys_attribute_open a kwargs w = Some (r, w') \<Longrightarrow> only_obj a w w'"
  by (erule confinedD[rotated], unfold cc_calvinsys_attribute_open_def Let_def) (rule confined_done confined_set confined_install confined_alloc confined_if confined_option confined_prod | rule confined_bind | assumption | rule only_obj_refl)+

lemma attribute_read_only: "cc_calvinsys_attribute_read a w = Some (r, d, w') \<Longrightarrow> only_obj a w w'"
  by (cases "mem_alloc w") (auto simp: cc_calvinsys_attribute_read_def dest!: only_obj_steps split: option.splits if_splits bool.splits)

lemma attribute_write_only: "cc_calvinsys_attribute_write x a data w = Some (r, w') \<Longrightarrow> only_obj a w w'"
  by (erule confinedD[rotated], unfold cc_calvinsys_attribute_write_def Let_def) (rule confined_done confined_set confined_install confined_alloc confined_if confined_option confined_prod | rule confined_bind | assumption | rule only_obj_refl)+

lemma attribute_deserialize_only: "cc_calvinsys_attribute_deserialize x a kwargs w = Some (r, w') \<Longrightarrow> only_obj a w w'"
  by (erule confinedD[rotated], unfold cc_calvinsys_attribute_deserialize_def Let_def) (rule confined_done confined_set confined_install confined_alloc confined_if confined_option confined_prod | rule confined_bind | assumption | rule only_obj_refl)+

lemma attribute_open_installs:
  "cc_calvinsys_attribute_open a kwargs w = Some (CC_SUCCESS, w') \<Longrightarrow> \<exists>ob. h_objs w' a = Some ob \<and> o_impl ob = Some Impl_attribute"
  by (cases "mem_alloc w") (auto simp: cc_calvinsys_attribute_open_def dest!: install_installs split: bool.splits)

lemma attribute_keeps:
  "cc_calvinsys_attribute_read a w = Some (r, d, w') \<Longrightarrow> keeps_impl a w w'"
  "cc_calvinsys_attribute_write x a data w = Some (r, w') \<Longrightarrow> keeps_impl a w w'"
proof -
  show "cc_calvinsys_attribute_read a w = Some (r, d, w') \<Longrightarrow> keeps_impl a w w'"
    by (cases "mem_alloc w") (auto simp: cc_calvinsys_attribute_read_def split: if_splits option.splits bool.splits intro: keeps_impl_steps)
  have "kept a w (cc_calvinsys_attribute_write x a data w)"
    unfolding cc_calvinsys_attribute_write_def Let_def
    by (rule kept_set kept_alloc kept_flow | rule kept_bind | assumption | rule keeps_impl_refl)+
  then show "cc_calvinsys_attribute_write x a data w = Some (r, w') \<Longrightarrow> keeps_impl a w w'" by (auto dest: alwaysD)
qed

interpretation attribute: capability x Impl_attribute "\<lambda>_. True" for x
  by unfold_locales (auto simp: obj_open_def obj_deserialize_def obj_can_write_def obj_write_def obj_can_read_def obj_read_def
      obj_close_def cc_calvinsys_attribute_close_def set_returns typed_obj_def
      dest: attribute_read_only attribute_write_only attribute_open_only attribute_deserialize_only only_obj_steps
      attribute_open_installs attribute_keeps[unfolded keeps_impl_def])


lemma builtin_capability: "impl \<in> {Impl_timer, Impl_schedule, Impl_attribute} \<Longrightarrow> capability x impl (\<lambda>_. True)"
  using timer.capability_axioms[of x] schedule.capability_axioms[of x] attribute.capability_axioms[of x] by auto

section \<open>Opening and closing\<close>

lemma gen_uuid_key0: "key_of 36 (fst (cc_gen_uuid None e))"
  using gen_uuid_shape[of "[]" e] by (auto simp: cc_gen_uuid_def strlen_def cstr_def split: prod.splits)

lemma add_init_args_more:
  "add_init_args mp n args kwargs w = Some (ok, l, w') \<Longrightarrow> env.more w' = env.more w \<and> e_sent w' = e_sent w"
proof (induction n arbitrary: args kwargs w)
  case (Suc n)
  then show ?case
    by (auto split: option.splits if_splits dest!: Suc.IH)
      (auto split: prod.splits option.splits dest!: list_add_n_more Suc.IH)
qed simp

lemma merge_init_args_more:
  "merge_init_args mp args kwargs w = Some (ok, l, w') \<Longrightarrow> env.more w' = env.more w \<and> e_sent w' = e_sent w"
  by (auto simp: merge_init_args_def split: option.splits dest!: add_init_args_more)

lemma keyed_get:
  assumes "keyed n l" and "key_of n k"
  shows "cc_list_get l k = find (\<lambda>x. li_id x = k) l"
  using assms
proof (induction l)
  case (Cons x l)
  moreover have "keyed n l" using Cons.prems(1) by (simp add: keyed_def)
  moreover have "strncmp0 (li_id x) k n = (li_id x = k)"
    using Cons.prems strncmp0_same_length[of "li_id x" k] by (simp add: keyed_def)
  ultimately show ?case by (simp add: keyed_def)
qed simp

text \<open>What an actor may do with an object between opening and closing it, in any order.\<close>

inductive session :: "ext \<Rightarrow> bytes \<Rightarrow> world \<Rightarrow> world \<Rightarrow> bool" for x i w where
  session_none: "session x i w w"
| session_can_write: "session x i w w1 \<Longrightarrow> cc_calvinsys_can_write x i w1 = Some (b, w2) \<Longrightarrow> session x i w w2"
| session_write: "session x i w w1 \<Longrightarrow> cc_calvinsys_write x i data n w1 = Some (r, w2) \<Longrightarrow> session x i w w2"
| session_can_read: "session x i w w1 \<Longrightarrow> cc_calvinsys_can_read x i w1 = Some (b, w2) \<Longrightarrow> session x i w w2"
| session_read: "session x i w w1 \<Longrightarrow> cc_calvinsys_read x i w1 = Some (r, d, w2) \<Longrightarrow> session x i w w2"

context capability
begin

text \<open>An object that was opened: it is the last of the list and the only new one of the heap.\<close>

lemma open_obj_effect:
  assumes "open_obj x ob c impl i kwargs w = Some (Some i', l, w')"
  shows "i' = i \<and> (\<exists>w1. env.more w1 = env.more w \<and> only_obj ob w1 w') \<and> typed_obj impl valid ob w'"
proof -
  obtain w1 r where m: "merge_init_args (x_mp x) (cap_init_args c) kwargs w = Some (True, l, w1)"
    and o: "obj_open x impl ob l w1 = Some (CC_SUCCESS, w')" and i: "i' = i"
    using assms by (auto simp: open_obj_def Let_def free_obj_def split: if_splits)
  from open_only[OF o] open_typed[OF o] merge_init_args_more[OF m] i show ?thesis by blast
qed

lemma open_effect:
  assumes "cc_list_get (n_capabilities w) name = Some item" and "h_caps w (li_data item) = Some cap" and "cap_open cap = Some impl"
    and "cc_calvinsys_open x a name kwargs w = Some (Some i, l, w')"
  shows "\<exists>oi ob. n_objects w' = n_objects w @ [oi] \<and> li_id oi = i \<and> li_id_len oi = length i \<and> li_data oi = h_next w
     \<and> h_objs w' = (h_objs w)(h_next w \<mapsto> ob) \<and> o_actor ob = a \<and> o_impl ob = Some impl \<and> valid (o_state ob) \<and> o_id ob = i
     \<and> o_capability ob = li_data item \<and> key_of 36 i
     \<and> h_ports w' = h_ports w \<and> h_actors w' = h_actors w \<and> h_caps w' = h_caps w \<and> n_actors w' = n_actors w"
proof -
  obtain u w1 where g: "cc_gen_uuid None w = (u, w1)" by (cases "cc_gen_uuid None w")
  note f1 = node_eqD[OF conjunct1[OF gen_uuid_more[OF g]]]
  have u: "key_of 36 u" using gen_uuid_key0[of w] g by simp
  obtain ok w2 where al: "mem_alloc w1 = (ok, w2)" by (cases "mem_alloc w1")
  note f2 = node_eqD[OF conjunct1[OF mem_alloc_more[OF al]], unfolded f1]
  obtain it l' w3 where ad: "cc_list_add_n (n_objects w2) u (strlen u + 1) (h_next w2) 0 (w2\<lparr>h_next := h_next w2 + 1\<rparr>) = (it, l', w3)"
    by (cases "cc_list_add_n (n_objects w2) u (strlen u + 1) (h_next w2) 0 (w2\<lparr>h_next := h_next w2 + 1\<rparr>)")
  note f3 = node_eqD[OF conjunct1[OF list_add_n_more[OF ad]], simplified, unfolded f2]
  let ?oi = "\<lparr>li_id = u, li_id_len = length u, li_data = h_next w, li_data_len = 0, li_free_id = True\<rparr>"
  let ?w4 = "w3\<lparr>n_objects := l', h_objs := (h_objs w3)(h_next w \<mapsto> new_obj u a (li_data item))\<rparr>"
  have ok: "ok" using assms g al by (cases ok) (auto simp: cc_calvinsys_open_def f1)
  have it: "it \<noteq> None" using assms g al ok ad by (cases it) (auto simp: cc_calvinsys_open_def f1 Let_def)
  then have it: "it = Some ?oi" "l' = n_objects w @ [?oi]"
    using ad u by (auto simp: cc_list_add_n_def cc__list_add_def Let_def f2 split: prod.splits bool.splits)
  have o: "open_obj x (h_next w) cap impl u kwargs ?w4 = Some (Some i, l, w')"
    using assms g al ok ad it by (auto simp: cc_calvinsys_open_def f1 f2 Let_def)
  obtain w5 ob where i: "i = u" and w5: "env.more w5 = env.more ?w4" "only_obj (h_next w) w5 w'"
      and ob: "h_objs w' (h_next w) = Some ob" "o_impl ob = Some impl" "valid (o_state ob)"
    using open_obj_effect[OF o] by (auto simp: typed_obj_def)
  note f5 = node_eqD[OF w5(1), simplified, unfolded f3]
  have ob': "o_actor ob = a" "o_capability ob = li_data item" "o_id ob = u"
    using w5(2) ob f5 by (auto simp: only_obj_def new_obj_def)
  have "h_objs w' = (h_objs w)(h_next w \<mapsto> ob)"
    using only_objD(14)[OF w5(2)] ob(1) f5 by auto
  then show ?thesis using only_objD[OF w5(2)] f5 it i ob ob' u by auto
qed

text \<open>The entry of a new object is found by its identifier.\<close>

lemma open_found:
  assumes "cc_list_get (n_capabilities w) name = Some item" and "h_caps w (li_data item) = Some cap" and "cap_open cap = Some impl"
    and "cc_calvinsys_open x a name kwargs w = Some (Some i, l, w')"
    and "keyed 36 (n_objects w)" and "i \<notin> li_id ` set (n_objects w)"
  shows "\<exists>oi ob. cc_list_get (n_objects w') i = Some oi \<and> li_data oi = h_next w \<and> typed_obj impl valid (h_next w) w'
     \<and> h_objs w' = (h_objs w)(h_next w \<mapsto> ob) \<and> cc_list_remove (n_objects w') i = n_objects w
     \<and> h_ports w' = h_ports w \<and> h_actors w' = h_actors w \<and> h_caps w' = h_caps w"
proof -
  from open_effect[OF assms(1-4)] obtain oi ob where
    e: "n_objects w' = n_objects w @ [oi]" "li_id oi = i" "li_id_len oi = length i" "li_data oi = h_next w"
      "h_objs w' = (h_objs w)(h_next w \<mapsto> ob)" "o_impl ob = Some impl" "valid (o_state ob)" "key_of 36 i"
      "h_ports w' = h_ports w" "h_actors w' = h_actors w" "h_caps w' = h_caps w" by blast
  have k: "keyed 36 (n_objects w')" using assms(5,6) e by (auto intro: keyed_snoc)
  have "find (\<lambda>y. li_id y = i) (n_objects w) = None" using assms(6) by (auto simp: find_None_iff)
  then have "find (\<lambda>y. li_id y = i) (n_objects w') = Some oi" using e(1,2) by (simp add: find_append_key)
  then have "cc_list_get (n_objects w') i = Some oi" using keyed_get[OF k e(8)] by simp
  moreover have "cc_list_remove (n_objects w') i = n_objects w"
    using keyed_remove[OF k e(8)] e(1,2) assms(6) by (auto simp: image_iff intro!: filter_True)
  ultimately show ?thesis using e by (auto simp: typed_obj_def)
qed

text \<open>Whatever is done with an object through \<open>cc_calvinsys.c\<close> changes only it and leaves it one of its kind.\<close>

lemma calvinsys_ops:
  assumes "cc_list_get (n_objects w) i = Some item" "typed_obj impl valid (li_data item) w"
  shows "cc_calvinsys_can_write x i w = obj_can_write x impl (li_data item) w"
    "cc_calvinsys_write x i data n w = obj_write x impl (li_data item) data n w"
    "cc_calvinsys_can_read x i w = obj_can_read x impl (li_data item) w"
    "cc_calvinsys_read x i w = obj_read x impl (li_data item) w"
  using assms by (auto simp: cc_calvinsys_can_write_def cc_calvinsys_write_def cc_calvinsys_can_read_def cc_calvinsys_read_def typed_obj_def)

lemma session_only:
  assumes "session x i w w'" "cc_list_get (n_objects w) i = Some item" "typed_obj impl valid (li_data item) w"
  shows "only_obj (li_data item) w w' \<and> typed_obj impl valid (li_data item) w'"
proof -
  have f: "cc_list_get (n_objects w1) i = Some item" if "only_obj (li_data item) w w1" for w1 using assms(2) only_objD(7)[OF that] by simp
  show ?thesis using assms(1)
  proof induction
    case session_none
    then show ?case using assms(3) by simp
  next
    case (session_can_write w1 b w2)
    with calvinsys_ops(1)[OF f, of w1] show ?case using only_obj_trans can_write_only can_write_typed by metis
  next
    case (session_write w1 data n r w2)
    with calvinsys_ops(2)[OF f, of w1] show ?case using only_obj_trans write_only write_typed by metis
  next
    case (session_can_read w1 b w2)
    with calvinsys_ops(3)[OF f, of w1] show ?case using only_obj_trans can_read_only can_read_typed by metis
  next
    case (session_read w1 r d w2)
    with calvinsys_ops(4)[OF f, of w1] show ?case using only_obj_trans read_only read_typed by metis
  qed
qed

lemma session_close:
  assumes "cc_list_get (n_capabilities w) name = Some item" and "h_caps w (li_data item) = Some cap" and "cap_open cap = Some impl"
    and "cc_calvinsys_open x a name kwargs w = Some (Some i, l, w')"
    and "keyed 36 (n_objects w)" and "i \<notin> li_id ` set (n_objects w)" and "h_objs w (h_next w) = None" and "session x i w' w1"
  shows "\<exists>w''. cc_calvinsys_close x i w1 = Some w'' \<and> h_objs w'' = h_objs w \<and> n_objects w'' = n_objects w
     \<and> h_ports w'' = h_ports w \<and> h_actors w'' = h_actors w \<and> h_caps w'' = h_caps w"
proof -
  from open_found[OF assms(1-6)] obtain oi ob where
    e: "cc_list_get (n_objects w') i = Some oi" "li_data oi = h_next w" "typed_obj impl valid (h_next w) w'"
      "h_objs w' = (h_objs w)(h_next w \<mapsto> ob)" "cc_list_remove (n_objects w') i = n_objects w"
      "h_ports w' = h_ports w" "h_actors w' = h_actors w" "h_caps w' = h_caps w" by blast
  have s: "only_obj (h_next w) w' w1" "typed_obj impl valid (h_next w) w1"
    using session_only[OF assms(8) e(1)] e(2,3) by auto
  note d = only_objD[OF s(1)]
  have g: "cc_list_get (n_objects w1) i = Some oi" using e(1) d(7) by simp
  obtain ob1 where ob1: "h_objs w1 (h_next w) = Some ob1" "o_impl ob1 = Some impl" using s(2) by (auto simp: typed_obj_def)
  obtain r w2 where "obj_close x impl (h_next w) w1 = Some (r, w2)" using close_returns[OF s(2)] by blast
  then obtain w'' where c: "cc_calvinsys_close x i w1 = Some w''" using g ob1 e(2) by (auto simp: cc_calvinsys_close_def)
  have "(h_objs w1)(h_next w := None) = h_objs w" using d(14) e(4) assms(7) by auto
  then show ?thesis using calvinsys_close_effect[OF g _ ob1(2) c] ob1 e d c by auto
qed

end

text \<open>
  Opening and closing an object of the runtime's own capabilities. An object that \<open>cc_calvinsys_open\<close> returns is new,
  belongs to the actor that asked and is the last of the list; no port, actor, capability or other object changes.
  Closing it by its identifier succeeds and leaves the objects, ports, actors and capabilities that were there before.
\<close>

lemma calvinsys_open_close:
  assumes "cc_list_get (n_capabilities w) name = Some item" and "h_caps w (li_data item) = Some cap"
    and "cap_open cap = Some impl" and "impl \<in> {Impl_timer, Impl_schedule, Impl_attribute}"
    and "cc_calvinsys_open x a name kwargs w = Some (Some i, l, w')"
    and "keyed 36 (n_objects w)" and "i \<notin> li_id ` set (n_objects w)" and "h_objs w (h_next w) = None"
  shows "(\<exists>oi ob. n_objects w' = n_objects w @ [oi] \<and> li_id oi = i \<and> li_data oi = h_next w
        \<and> h_objs w' = (h_objs w)(h_next w \<mapsto> ob) \<and> o_actor ob = a \<and> o_impl ob = Some impl
        \<and> h_ports w' = h_ports w \<and> h_actors w' = h_actors w \<and> h_caps w' = h_caps w)
     \<and> (\<exists>w''. cc_calvinsys_close x i w' = Some w'' \<and> h_objs w'' = h_objs w \<and> n_objects w'' = n_objects w
        \<and> h_ports w'' = h_ports w \<and> h_actors w'' = h_actors w \<and> h_caps w'' = h_caps w)"
proof -
  note cap = builtin_capability[OF assms(4)]
  from capability.open_effect[OF cap assms(1-3,5)] capability.session_close[OF cap assms(1-3,5-8) session_none]
  show ?thesis by blast
qed

end
