(* ===== verification/Actor.thy ===== *)
theory Actor
  imports Calvinsys
begin

text \<open>
  \<open>src/runtime/north/cc_actor.c\<close> and \<open>cc_actor_store.c\<close>: creating an actor from its serialised state, connecting and
  disconnecting its ports, writing it out, migrating it and freeing it, with \<open>cc_proto_send_actor_new\<close> of \<open>cc_proto.c\<close>.
  Actors run their own code through the functions of their type, which are parameters. The parts of the code
  that are compiled only with the Python interpreter are left out (\<open>CC_USE_PYTHON\<close> is 0).
\<close>

section \<open>The actor store\<close>

text \<open>\<open>setup\<close> fills in the functions of the type: its result is the entry, or \<open>None\<close> when it fails.\<close>

definition cc_actor_store_add ::
  "bytes \<Rightarrow> (world \<Rightarrow> cc_actor_type option \<times> world) \<Rightarrow> world \<Rightarrow> cc_result \<times> world" where
  "cc_actor_store_add name setup w = (case mem_alloc w of
     (False, w) \<Rightarrow> (CC_FAIL, w)
   | (True, w) \<Rightarrow> (case setup w of
       (None, w) \<Rightarrow> (CC_FAIL, w)
     | (Some ty, w) \<Rightarrow> (case cc_list_add_n (n_actor_types w) name (strlen name) ty 0 w of
         (None, l, w) \<Rightarrow> (CC_FAIL, w\<lparr>n_actor_types := l\<rparr>)
       | (Some _, l, w) \<Rightarrow> (CC_SUCCESS, w\<lparr>n_actor_types := l\<rparr>))))"

fun cc_actor_store_init ::
  "(bytes \<times> (world \<Rightarrow> cc_actor_type option \<times> world)) list \<Rightarrow> world \<Rightarrow> cc_result \<times> world" where
  "cc_actor_store_init [] w = (CC_SUCCESS, w)"
| "cc_actor_store_init ((name, setup) # types) w = (case cc_actor_store_add name setup w of
     (CC_SUCCESS, w) \<Rightarrow> cc_actor_store_init types w
   | (_, w) \<Rightarrow> (CC_FAIL, w))"

section \<open>Looking up actors\<close>

definition cc_actor_get :: "bytes \<Rightarrow> u32 \<Rightarrow> world \<Rightarrow> addr option" where
  "cc_actor_get actor_id actor_id_len w = map_option li_data (cc_list_get_n (n_actors w) actor_id (unat actor_id_len))"

text \<open>\<open>strncmp\<close> of a name that was never set is a fault.\<close>

fun actor_by_name :: "world \<Rightarrow> addr cc_list \<Rightarrow> bytes \<Rightarrow> nat \<Rightarrow> addr option option" where
  "actor_by_name w [] name n = Some None"
| "actor_by_name w (item # actors) name n = do {
     actor \<leftarrow> h_actors w (li_data item);
     actor_name \<leftarrow> a_name actor;
     if strncmp0 actor_name name n then Some (Some (li_data item)) else actor_by_name w actors name n }"

definition cc_actor_get_from_name :: "bytes \<Rightarrow> u32 \<Rightarrow> world \<Rightarrow> addr option option" where
  "cc_actor_get_from_name name name_len w = actor_by_name w (n_actors w) name (unat name_len)"

text \<open>The functions of the actor's type; a null pointer where the code calls one without asking is a fault.\<close>

definition actor_fns :: "ext \<Rightarrow> addr \<Rightarrow> world \<Rightarrow> actor_ops option" where
  "actor_fns x a w = do { actor \<leftarrow> h_actors w a; map_option (x_actors x) (a_impl actor) }"

text \<open>\<open>if (actor->f != NULL) actor->f(actor)\<close>\<close>

definition call_hook :: "ext \<Rightarrow> (actor_ops \<Rightarrow> (addr \<Rightarrow> world \<Rightarrow> world option) option) \<Rightarrow> addr \<Rightarrow> world \<Rightarrow> world option" where
  "call_hook x hook a w = do {
     actor \<leftarrow> h_actors w a;
     case a_impl actor of None \<Rightarrow> Some w
     | Some impl \<Rightarrow> (case hook (x_actors x impl) of None \<Rightarrow> Some w | Some f \<Rightarrow> f a w) }"

section \<open>The pieces of an actor\<close>

definition cc_actor_create_from_type :: "bytes \<Rightarrow> u32 \<Rightarrow> world \<Rightarrow> addr option \<times> world" where
  "cc_actor_create_from_type ty ty_len w = (case mem_alloc w of
     (False, w) \<Rightarrow> (None, w)
   | (True, w) \<Rightarrow> (case mem_alloc w of
       (False, w) \<Rightarrow> (None, w)
     | (True, w) \<Rightarrow> (case cc_list_get_n (n_actor_types w) ty (unat ty_len) of
         None \<Rightarrow> (None, w)
       | Some item \<Rightarrow>
           let a = h_next w;
               actor = \<lparr>a_type = Some (cstr (take (unat ty_len) ty)), a_id = None, a_name = None,
                        a_state_was = CC_STATE_WAS_ACTOR, a_migrate_to = [], a_state = CC_ACTOR_PENDING,
                        a_instance = None, a_in_ports = [], a_out_ports = [], a_private_attributes = [],
                        a_managed_attributes = [], a_impl = Some (ty_impl (li_data item)),
                        a_requires = ty_requires (li_data item)\<rparr>
           in (Some a, w\<lparr>h_next := a + 1, h_actors := (h_actors w)(a \<mapsto> actor)\<rparr>))))"

text \<open>
  An attribute whose key starts with \<open>_id\<close> (\<open>_name\<close>) is the actor's identifier (name). A failed allocation leaves
  a null pointer.
\<close>

definition take_string ::
  "mp \<Rightarrow> bytes \<Rightarrow> bytes \<Rightarrow> bytes \<Rightarrow> (bytes option \<Rightarrow> cc_actor \<Rightarrow> cc_actor) \<Rightarrow> addr \<Rightarrow> world \<Rightarrow> (bool \<times> world) option" where
  "take_string mp pre key data put a w =
     (if \<not> strncmp0 key pre (strlen pre) then Some (True, w)
      else do {
        d \<leftarrow> cc_coder_decode_str mp data;
        case d of None \<Rightarrow> Some (False, w) | Some (tmp, tmp_len) \<Rightarrow>
        (case mem_alloc w of
           (False, w) \<Rightarrow> do { w \<leftarrow> upd_actor a (put None) w; Some (False, w) }
         | (True, w) \<Rightarrow> do { w \<leftarrow> upd_actor a (put (Some (cstr (take (unat tmp_len) tmp)))) w; Some (True, w) }) })"

text \<open>
  The loop of \<open>cc_actor_get_attributes\<close>: every pair of the map becomes an attribute, except shadow arguments and,
  for the private ones, keys that do not start with an underscore. The list is dropped when a step fails, but
  not when a key is no string.
\<close>

fun get_attributes_loop ::
  "mp \<Rightarrow> addr \<Rightarrow> nat \<Rightarrow> bytes \<Rightarrow> bytes cc_list \<Rightarrow> bool \<Rightarrow> world \<Rightarrow> (cc_result \<times> bytes cc_list \<times> world) option" where
  "get_attributes_loop mp a 0 managed attributes private_only w = Some (CC_SUCCESS, attributes, w)"
| "get_attributes_loop mp a (Suc n) managed attributes private_only w = do {
     k \<leftarrow> cc_coder_decode_str mp managed;
     case k of None \<Rightarrow> Some (CC_FAIL, attributes, w) | Some (key, key_len) \<Rightarrow> do {
     value \<leftarrow> cc_coder_decode_map_next mp managed;
     if private_only \<and> first_char key \<noteq> CHR ''_'' \<or> strncmp0 key ''_shadow_args'' 12
     then do { managed \<leftarrow> cc_coder_decode_map_next mp value;
               get_attributes_loop mp a n managed attributes private_only w }
     else do {
       value_len \<leftarrow> cc_coder_get_size_of_value mp value;
       case mem_alloc w of
         (False, w) \<Rightarrow> Some (CC_FAIL, [], w)
       | (True, w) \<Rightarrow> do {
           let data = take value_len value;
           managed \<leftarrow> cc_coder_decode_map_next mp value;
           (ok1, w) \<leftarrow> take_string mp ''_id'' key data (\<lambda>s x. x\<lparr>a_id := s\<rparr>) a w;
           (ok2, w) \<leftarrow> (if ok1 then take_string mp ''_name'' key data (\<lambda>s x. x\<lparr>a_name := s\<rparr>) a w else Some (False, w));
           if \<not> ok2 then Some (CC_FAIL, [], w)
           else (case cc_list_add_n attributes key (unat key_len) data value_len w of
                   (None, l, w) \<Rightarrow> Some (CC_FAIL, [], w)
                 | (Some _, l, w) \<Rightarrow> get_attributes_loop mp a n managed l private_only w) } } } }"

definition cc_actor_get_attributes ::
  "mp \<Rightarrow> addr \<Rightarrow> bytes \<Rightarrow> bytes cc_list \<Rightarrow> bool \<Rightarrow> world \<Rightarrow> (cc_result \<times> bytes cc_list \<times> world) option" where
  "cc_actor_get_attributes mp a obj_managed attributes private_only w = do {
     (n, managed) \<leftarrow> cc_coder_decode_map mp obj_managed;
     get_attributes_loop mp a (unat n) managed attributes private_only w }"

definition get_private_attributes :: "mp \<Rightarrow> addr \<Rightarrow> bytes \<Rightarrow> world \<Rightarrow> (cc_result \<times> world) option" where
  "get_private_attributes mp a obj w = do {
     actor \<leftarrow> h_actors w a;
     (r, l, w) \<leftarrow> cc_actor_get_attributes mp a obj (a_private_attributes actor) True w;
     w \<leftarrow> upd_actor a (\<lambda>x. x\<lparr>a_private_attributes := l\<rparr>) w;
     Some (r, w) }"

definition get_managed_attributes :: "mp \<Rightarrow> addr \<Rightarrow> bytes \<Rightarrow> world \<Rightarrow> (cc_result \<times> world) option" where
  "get_managed_attributes mp a obj w = do {
     actor \<leftarrow> h_actors w a;
     (r, l, w) \<leftarrow> cc_actor_get_attributes mp a obj (a_managed_attributes actor) False w;
     w \<leftarrow> upd_actor a (\<lambda>x. x\<lparr>a_managed_attributes := l\<rparr>) w;
     Some (r, w) }"

text \<open>A port in the actor's list of its direction, under the port's identifier.\<close>

definition actor_add_port :: "addr \<Rightarrow> addr \<Rightarrow> cc_port_direction \<Rightarrow> world \<Rightarrow> (bool \<times> world) option" where
  "actor_add_port a p direction w = do {
     actor \<leftarrow> h_actors w a;
     port \<leftarrow> h_ports w p;
     let ports = (if direction = CC_PORT_DIRECTION_IN then a_in_ports actor else a_out_ports actor);
     case cc_list_add ports (p_id port) p 0 w of (it, l, w) \<Rightarrow> do {
     w \<leftarrow> upd_actor a (\<lambda>x. if direction = CC_PORT_DIRECTION_IN then x\<lparr>a_in_ports := l\<rparr> else x\<lparr>a_out_ports := l\<rparr>) w;
     Some (it \<noteq> None, w) } }"

fun create_ports_loop ::
  "mp \<Rightarrow> addr \<Rightarrow> nat \<Rightarrow> bytes \<Rightarrow> bytes \<Rightarrow> cc_port_direction \<Rightarrow> bytes \<Rightarrow> world \<Rightarrow> (cc_result \<times> world) option" where
  "create_ports_loop mp a 0 ports prev_connections direction obj_connection_list w = Some (CC_SUCCESS, w)"
| "create_ports_loop mp a (Suc n) ports prev_connections direction obj_connection_list w = do {
     ports \<leftarrow> cc_coder_decode_map_next mp ports;
     (p, w) \<leftarrow> cc_port_create mp a ports prev_connections direction obj_connection_list w;
     case p of None \<Rightarrow> Some (CC_FAIL, w) | Some port \<Rightarrow> do {
     (ok, w) \<leftarrow> actor_add_port a port direction w;
     if \<not> ok then Some (CC_FAIL, w)
     else do {
       (nbr_keys, ports) \<leftarrow> cc_coder_decode_map mp ports;
       ports \<leftarrow> skip_values mp (2 * unat nbr_keys) ports;
       create_ports_loop mp a n ports prev_connections direction obj_connection_list w } } }"

definition cc_actor_create_ports ::
  "mp \<Rightarrow> addr \<Rightarrow> bytes \<Rightarrow> bytes \<Rightarrow> cc_port_direction \<Rightarrow> bytes \<Rightarrow> world \<Rightarrow> (cc_result \<times> world) option" where
  "cc_actor_create_ports mp a obj_ports obj_prev_connections direction obj_connection_list w = do {
     (n, ports) \<leftarrow> cc_coder_decode_map mp obj_ports;
     create_ports_loop mp a (unat n) ports obj_prev_connections direction obj_connection_list w }"

text \<open>The loop over the ports of one direction: the state is pending once a port had to be connected.\<close>

fun connect_loop :: "mp \<Rightarrow> addr cc_list \<Rightarrow> cc_actor_state \<Rightarrow> world \<Rightarrow> (cc_actor_state \<times> world) option" where
  "connect_loop mp [] state w = Some (state, w)"
| "connect_loop mp (item # list) state w = do {
     port \<leftarrow> h_ports w (li_data item);
     if p_state port \<noteq> CC_PORT_ENABLED
     then do { w \<leftarrow> cc_port_connect mp (li_data item) w; connect_loop mp list CC_ACTOR_PENDING w }
     else connect_loop mp list state w }"

definition cc_actor_connect_ports :: "mp \<Rightarrow> addr \<Rightarrow> world \<Rightarrow> world option" where
  "cc_actor_connect_ports mp a w = do {
     actor \<leftarrow> h_actors w a;
     (state, w) \<leftarrow> connect_loop mp (a_in_ports actor) CC_ACTOR_ENABLED w;
     actor \<leftarrow> h_actors w a;
     (state, w) \<leftarrow> connect_loop mp (a_out_ports actor) state w;
     cc_actor_set_state a state w }"

definition cc_actor_port_disconnected :: "addr \<Rightarrow> world \<Rightarrow> world option" where
  "cc_actor_port_disconnected a w = cc_actor_set_state a CC_ACTOR_PENDING w"

fun disconnect_loop :: "mp \<Rightarrow> addr cc_list \<Rightarrow> bool \<Rightarrow> world \<Rightarrow> world option" where
  "disconnect_loop mp [] unref_tunnel w = Some w"
| "disconnect_loop mp (item # list) unref_tunnel w = do {
     w \<leftarrow> cc_port_disconnect mp (li_data item) unref_tunnel w;
     disconnect_loop mp list unref_tunnel w }"

definition disconnect_all :: "mp \<Rightarrow> addr \<Rightarrow> bool \<Rightarrow> world \<Rightarrow> world option" where
  "disconnect_all mp a unref_tunnel w = do {
     actor \<leftarrow> h_actors w a;
     w \<leftarrow> disconnect_loop mp (a_in_ports actor) unref_tunnel w;
     actor \<leftarrow> h_actors w a;
     disconnect_loop mp (a_out_ports actor) unref_tunnel w }"

definition cc_actor_disconnect :: "mp \<Rightarrow> addr \<Rightarrow> bool \<Rightarrow> world \<Rightarrow> world option" where
  "cc_actor_disconnect mp a unref_tunnel w = do {
     w \<leftarrow> disconnect_all mp a unref_tunnel w;
     cc_actor_set_state a CC_ACTOR_PENDING w }"

section \<open>Freeing an actor\<close>

fun close_loop :: "ext \<Rightarrow> addr \<Rightarrow> addr cc_list \<Rightarrow> world \<Rightarrow> world option" where
  "close_loop x a [] w = Some w"
| "close_loop x a (item # list) w = do {
     obj \<leftarrow> h_objs w (li_data item);
     w \<leftarrow> (if o_actor obj = a then cc_calvinsys_close x (li_id item) w else Some w);
     close_loop x a list w }"

fun free_ports_loop :: "mp \<Rightarrow> addr cc_list \<Rightarrow> bool \<Rightarrow> world \<Rightarrow> world option" where
  "free_ports_loop mp [] remove_from_registry w = Some w"
| "free_ports_loop mp (item # list) remove_from_registry w = do {
     w \<leftarrow> cc_port_free mp (li_data item) remove_from_registry w;
     free_ports_loop mp list remove_from_registry w }"

text \<open>The part of \<open>cc_actor_free\<close> from the ports on.\<close>

definition actor_release :: "mp \<Rightarrow> addr \<Rightarrow> bool \<Rightarrow> world \<Rightarrow> world option" where
  "actor_release mp a remove_from_registry w = do {
     actor \<leftarrow> h_actors w a;
     w \<leftarrow> free_ports_loop mp (a_in_ports actor) remove_from_registry w;
     w \<leftarrow> free_ports_loop mp (a_out_ports actor) remove_from_registry w;
     w \<leftarrow> (case a_id actor of None \<Rightarrow> Some w
           | Some i \<Rightarrow> do {
               w \<leftarrow> (if remove_from_registry
                     then do { (r, w) \<leftarrow> cc_proto_send_remove_actor mp actor actor_remove_reply_handler w; Some w }
                     else Some w);
               Some (w\<lparr>n_actors := cc_list_remove (n_actors w) i\<rparr>) });
     Some (w\<lparr>h_actors := (h_actors w)(a := None)\<rparr>) }"

definition cc_actor_free :: "ext \<Rightarrow> addr option \<Rightarrow> bool \<Rightarrow> world \<Rightarrow> world option" where
  "cc_actor_free x p remove_from_registry w = (case p of
     None \<Rightarrow> Some w
   | Some a \<Rightarrow> do {
       w \<leftarrow> call_hook x ac_will_end a w;
       actor \<leftarrow> h_actors w a;
       w \<leftarrow> (if a_instance actor \<noteq> None then call_hook x ac_free_state a w else Some w);
       w \<leftarrow> close_loop x a (n_objects w) w;
       actor_release (x_mp x) a remove_from_registry w })"

section \<open>Writing an actor out\<close>

definition actor_state_nr :: "cc_actor_state \<Rightarrow> u32" where
  "actor_state_nr s = (case s of CC_ACTOR_PENDING \<Rightarrow> 0 | CC_ACTOR_PENDING_IMPL \<Rightarrow> 1 | CC_ACTOR_ENABLED \<Rightarrow> 2 | CC_ACTOR_DO_DELETE \<Rightarrow> 3)"

fun encode_prev :: "mp \<Rightarrow> world \<Rightarrow> addr cc_list \<Rightarrow> bytes \<Rightarrow> bytes option" where
  "encode_prev mp w [] buffer = Some buffer"
| "encode_prev mp w (item # list) buffer = do {
     port \<leftarrow> h_ports w (li_data item);
     encode_prev mp w list (cc_port_serialize_prev_connections mp buffer port) }"

fun encode_ports :: "mp \<Rightarrow> world \<Rightarrow> addr cc_list \<Rightarrow> bool \<Rightarrow> bytes \<Rightarrow> bytes option" where
  "encode_ports mp w [] include_state buffer = Some buffer"
| "encode_ports mp w (item # list) include_state buffer = do {
     port \<leftarrow> h_ports w (li_data item);
     buffer \<leftarrow> cc_port_serialize_port mp buffer port include_state;
     encode_ports mp w list include_state buffer }"

fun encode_attributes :: "mp \<Rightarrow> bytes cc_list \<Rightarrow> bytes \<Rightarrow> bytes option" where
  "encode_attributes mp [] buffer = Some buffer"
| "encode_attributes mp (item # list) buffer = do {
     buffer \<leftarrow> cc_coder_encode_kv_value mp buffer (li_id item) (Some (li_data item)) (li_data_len item);
     encode_attributes mp list buffer }"

text \<open>The attributes an actor reports about itself: a null pointer is written as nil.\<close>

fun encode_managed :: "mp \<Rightarrow> bytes option cc_list \<Rightarrow> bytes \<Rightarrow> bytes option" where
  "encode_managed mp [] buffer = Some buffer"
| "encode_managed mp (item # list) buffer = do {
     buffer \<leftarrow> cc_coder_encode_kv_value mp buffer (li_id item) (li_data item) (li_data_len item);
     encode_managed mp list buffer }"

text \<open>The pair \<open>state\<close> of the message, from the actor with its \<open>_calvinsys\<close> attribute.\<close>

definition encode_actor :: "mp \<Rightarrow> world \<Rightarrow> cc_actor \<Rightarrow> bytes option cc_list \<Rightarrow> bool \<Rightarrow> bytes \<Rightarrow> bytes option" where
  "encode_actor mp w actor managed_attributes include_state buffer = do {
     ty \<leftarrow> a_type actor;
     let nbr_inports = cc_list_count (a_in_ports actor);
     let nbr_outports = cc_list_count (a_out_ports actor);
     let buffer = cc_coder_encode_kv_map mp buffer ''state'' (if include_state then 4 else 3);
     let buffer = (if include_state then cc_coder_encode_kv_uint mp buffer ''constrained_state'' (actor_state_nr (a_state actor)) else buffer);
     let buffer = cc_coder_encode_kv_str mp buffer ''actor_type'' ty (of_nat (strlen ty));
     let buffer = cc_coder_encode_kv_map mp buffer ''prev_connections'' 2;
     let buffer = cc_coder_encode_kv_map mp buffer ''inports'' nbr_inports;
     buffer \<leftarrow> encode_prev mp w (a_in_ports actor) buffer;
     let buffer = cc_coder_encode_kv_map mp buffer ''outports'' nbr_outports;
     buffer \<leftarrow> encode_prev mp w (a_out_ports actor) buffer;
     let buffer = cc_coder_encode_kv_map mp buffer ''actor_state'' 4;
     let buffer = cc_coder_encode_kv_map mp buffer ''security'' 1;
     let buffer = cc_coder_encode_kv_nil mp buffer ''_subject_attributes'';
     let buffer = cc_coder_encode_kv_map mp buffer ''custom'' 0;
     let buffer = cc_coder_encode_kv_map mp buffer ''managed'' (cc_list_count managed_attributes);
     buffer \<leftarrow> encode_managed mp managed_attributes buffer;
     let buffer = cc_coder_encode_kv_map mp buffer ''private'' (cc_list_count (a_private_attributes actor) + 2);
     buffer \<leftarrow> encode_attributes mp (a_private_attributes actor) buffer;
     let buffer = cc_coder_encode_kv_map mp buffer ''inports'' nbr_inports;
     buffer \<leftarrow> encode_ports mp w (a_in_ports actor) include_state buffer;
     let buffer = cc_coder_encode_kv_map mp buffer ''outports'' nbr_outports;
     encode_ports mp w (a_out_ports actor) include_state buffer }"

text \<open>The inner \<open>None\<close> is the null pointer that reports a failure.\<close>

definition cc_actor_serialize :: "ext \<Rightarrow> addr \<Rightarrow> bytes \<Rightarrow> bool \<Rightarrow> world \<Rightarrow> (bytes option \<times> world) option" where
  "cc_actor_serialize x a buffer include_state w = do {
     actor \<leftarrow> h_actors w a;
     if a_private_attributes actor = [] then Some (None, w)
     else do {
       (r, managed_attributes, w) \<leftarrow>
          (case a_impl actor of None \<Rightarrow> Some (CC_SUCCESS, [], w)
           | Some impl \<Rightarrow> (case ac_get_managed_attributes (x_actors x impl) of
               None \<Rightarrow> Some (CC_SUCCESS, [], w) | Some f \<Rightarrow> f a w));
       if r \<noteq> CC_SUCCESS then Some (None, w)
       else do {
         actor \<leftarrow> h_actors w a;
         (r, l, w) \<leftarrow> cc_calvinsys_get_attributes x a (a_private_attributes actor) w;
         w \<leftarrow> upd_actor a (\<lambda>y. y\<lparr>a_private_attributes := l\<rparr>) w;
         if r \<noteq> CC_SUCCESS then Some (None, w)
         else do {
           actor \<leftarrow> h_actors w a;
           b \<leftarrow> encode_actor (x_mp x) w actor managed_attributes include_state buffer;
           Some (Some b, w) } } } }"

text \<open>
  \<open>src/runtime/north/cc_proto.c\<close>: the message that hands the actor to another runtime. A null pointer from the
  serialisation is subtracted from the buffer's address, so it is a fault; so is a message over 3000 bytes.
\<close>

definition cc_proto_send_actor_new ::
  "ext \<Rightarrow> addr \<Rightarrow> bytes \<Rightarrow> u32 \<Rightarrow> cc_msg_handler \<Rightarrow> world \<Rightarrow> (cc_result \<times> world) option" where
  "cc_proto_send_actor_new x a to_rt_uuid to_rt_uuid_len handler w =
     (case cc_gen_uuid (Some ''MSGID_'') w of (msg_uuid, w) \<Rightarrow> do {
        tc \<leftarrow> n_transport_client w;
        let b = cc_coder_encode_map (x_mp x) [] 5;
        let b = cc_coder_encode_kv_str (x_mp x) b ''to_rt_uuid'' to_rt_uuid to_rt_uuid_len;
        let b = kv_id (x_mp x) b ''from_rt_uuid'' (n_id w);
        let b = cc_coder_encode_kv_str (x_mp x) b ''cmd'' ''ACTOR_NEW'' 9;
        let b = kv_id (x_mp x) b ''msg_uuid'' msg_uuid;
        (s, w) \<leftarrow> cc_actor_serialize x a b False w;
        case s of
          None \<Rightarrow> (case cc_node_add_pending_msg msg_uuid handler (MD_actor_id a) w of
                      (CC_SUCCESS, w) \<Rightarrow> None | (_, w) \<Rightarrow> Some (CC_FAIL, w))
        | Some b \<Rightarrow> send_pending 3000 b msg_uuid handler (MD_actor_id a) w })"

definition cc_actor_migrate :: "ext \<Rightarrow> addr \<Rightarrow> bytes \<Rightarrow> u32 \<Rightarrow> world \<Rightarrow> (cc_result \<times> world) option" where
  "cc_actor_migrate x a to_rt_uuid to_rt_uuid_len w = do {
     w \<leftarrow> call_hook x ac_will_migrate a w;
     w \<leftarrow> disconnect_all (x_mp x) a True w;
     cc_proto_send_actor_new x a to_rt_uuid to_rt_uuid_len cc_actor_migrate_reply_handler w }"

section \<open>Replies\<close>

definition handle_req_match_reply :: "ext \<Rightarrow> bytes \<Rightarrow> world \<Rightarrow> (cc_result \<times> world) option" where
  "handle_req_match_reply x data w = do {
     let mp = x_mp x;
     v \<leftarrow> cc_coder_get_value_from_map mp data ''value'';
     case v of None \<Rightarrow> Some (CC_FAIL, w) | Some value \<Rightarrow> do {
     v \<leftarrow> cc_coder_get_value_from_map mp value ''value'';
     case v of None \<Rightarrow> Some (CC_FAIL, w) | Some value \<Rightarrow> do {
     d \<leftarrow> cc_coder_get_value_from_map mp value ''data'';
     case d of None \<Rightarrow> Some (CC_FAIL, w) | Some obj_data \<Rightarrow> do {
     s \<leftarrow> cc_coder_decode_uint_from_map mp value ''status'';
     case s of None \<Rightarrow> Some (CC_FAIL, w) | Some status \<Rightarrow>
     if status \<noteq> 200 then Some (CC_SUCCESS, w)
     else do {
     i \<leftarrow> cc_coder_decode_string_from_map mp obj_data ''actor_id'';
     case i of None \<Rightarrow> Some (CC_FAIL, w) | Some (actor_id, actor_id_len) \<Rightarrow>
     (case cc_actor_get actor_id actor_id_len w of None \<Rightarrow> Some (CC_FAIL, w) | Some a \<Rightarrow> do {
     p \<leftarrow> cc_coder_get_value_from_map mp obj_data ''possible_placements'';
     case p of None \<Rightarrow> Some (CC_FAIL, w) | Some possible_placements \<Rightarrow> do {
     ty \<leftarrow> cc_coder_type_of mp possible_placements;
     if ty \<noteq> CC_CODER_ARRAY then Some (CC_FAIL, w)
     else do {
     n \<leftarrow> cc_coder_get_size_of_array mp possible_placements;
     if n > 0 then do {
       q \<leftarrow> cc_coder_decode_string_from_array mp possible_placements 0;
       case q of None \<Rightarrow> Some (CC_FAIL, w)
       | Some (peer_id, peer_id_len) \<Rightarrow> cc_actor_migrate x a peer_id peer_id_len w }
     else Some (CC_SUCCESS, w) } } }) } } } } }"

text \<open>
  The pointer of the pending message is the identifier of the actor: when the actor is gone it points to freed
  memory, and reading it is a fault.
\<close>

definition handle_migrate_reply :: "ext \<Rightarrow> bytes \<Rightarrow> addr \<Rightarrow> world \<Rightarrow> (cc_result \<times> world) option" where
  "handle_migrate_reply x data a0 w = do {
     actor \<leftarrow> h_actors w a0;
     actor_id \<leftarrow> a_id actor;
     let actor_id_len = strnlen actor_id CC_UUID_BUFFER_SIZE;
     v \<leftarrow> cc_coder_get_value_from_map (x_mp x) data ''value'';
     case v of None \<Rightarrow> Some (CC_FAIL, w) | Some value \<Rightarrow> do {
     s \<leftarrow> cc_coder_decode_uint_from_map (x_mp x) value ''status'';
     case s of None \<Rightarrow> Some (CC_FAIL, w) | Some status \<Rightarrow>
     (case cc_actor_get actor_id (of_nat actor_id_len) w of
        None \<Rightarrow> Some (CC_FAIL, w)
      | Some a \<Rightarrow>
          if status = 200 then do { w \<leftarrow> cc_actor_free x (Some a) False w; Some (CC_SUCCESS, w) }
          else Some (CC_FAIL, w)) } }"

definition handle_actor_set_reply :: "mp \<Rightarrow> bytes \<Rightarrow> world \<Rightarrow> cc_result option" where
  "handle_actor_set_reply mp data w = do {
     v \<leftarrow> cc_coder_get_value_from_map mp data ''value'';
     case v of None \<Rightarrow> Some CC_FAIL | Some value \<Rightarrow> do {
     k \<leftarrow> cc_coder_decode_string_from_map mp value ''key'';
     case k of None \<Rightarrow> Some CC_FAIL | Some (key, key_len) \<Rightarrow>
     if \<not> strncmp0 key ''actor-'' 6 then Some CC_FAIL
     else case cc_actor_get (drop 6 key) (key_len - 6) w of
       None \<Rightarrow> Some CC_SUCCESS
     | Some a \<Rightarrow> do {
         r \<leftarrow> cc_coder_get_value_from_map mp value ''response'';
         case r of None \<Rightarrow> Some CC_FAIL | Some response \<Rightarrow> do {
         s \<leftarrow> cc_coder_decode_uint_from_map mp response ''status'';
         Some (if s = None then CC_FAIL else CC_SUCCESS) } } } }"

section \<open>Creating an actor\<close>

text \<open>
  \<open>cc_actor_create\<close> keeps a result and skips what follows a failure, up to the clean-up at its end. The steps are
  the definitions below, in the order of the code; each returns \<open>CC_FAIL\<close> where the result becomes that.
\<close>

text \<open>The private part: the objects, the identifier and the attributes.\<close>

definition actor_private ::
  "ext \<Rightarrow> addr \<Rightarrow> bytes \<Rightarrow> world \<Rightarrow> ((bytes \<times> bytes \<times> bytes \<times> u32) option \<times> world) option" where
  "actor_private x a obj_state w = do {
     v \<leftarrow> cc_coder_get_value_from_map (x_mp x) obj_state ''actor_state'';
     case v of None \<Rightarrow> Some (None, w) | Some obj_actor_state \<Rightarrow> do {
     v \<leftarrow> cc_coder_get_value_from_map (x_mp x) obj_actor_state ''private'';
     case v of None \<Rightarrow> Some (None, w) | Some obj_private \<Rightarrow> do {
     has \<leftarrow> cc_coder_has_key (x_mp x) obj_private ''_calvinsys'';
     (r, w) \<leftarrow> (if \<not> has then Some (CC_SUCCESS, w)
               else do {
                 v \<leftarrow> cc_coder_get_value_from_map (x_mp x) obj_private ''_calvinsys'';
                 case v of None \<Rightarrow> Some (CC_FAIL, w)
                 | Some obj_calvinsys \<Rightarrow> cc_calvinsys_deserialize x a obj_calvinsys w });
     if r \<noteq> CC_SUCCESS then Some (None, w)
     else do {
     i \<leftarrow> cc_coder_decode_string_from_map (x_mp x) obj_private ''_id'';
     case i of None \<Rightarrow> Some (None, w) | Some (i, id_len) \<Rightarrow> do {
     (r, w) \<leftarrow> get_private_attributes (x_mp x) a obj_private w;
     Some (if r = CC_SUCCESS then Some (obj_actor_state, obj_private, i, id_len) else None, w) } } } } }"

text \<open>The connections: the previous ones and, when these are nil, the list of connections.\<close>

definition actor_connections :: "mp \<Rightarrow> bytes \<Rightarrow> (bytes \<times> bytes) option option" where
  "actor_connections mp obj_state = do {
     v \<leftarrow> cc_coder_get_value_from_map mp obj_state ''prev_connections'';
     case v of None \<Rightarrow> Some None | Some obj_prev_connections \<Rightarrow> do {
     ty \<leftarrow> cc_coder_type_of mp obj_prev_connections;
     if ty = CC_CODER_NIL then do {
       l \<leftarrow> cc_coder_get_value_from_map mp obj_state ''connection_list'';
       Some (map_option (\<lambda>l. (obj_prev_connections, l)) l) }
     else Some (Some (obj_prev_connections, [])) } }"

text \<open>An actor that is the master of its replication is refused.\<close>

definition is_replication_master :: "mp \<Rightarrow> bytes \<Rightarrow> bytes \<Rightarrow> u32 \<Rightarrow> bool option" where
  "is_replication_master mp obj_private i id_len = do {
     v \<leftarrow> cc_coder_get_value_from_map mp obj_private ''_replication_data'';
     case v of None \<Rightarrow> Some False | Some obj_replication_data \<Rightarrow> do {
     m \<leftarrow> cc_coder_decode_string_from_map mp obj_replication_data ''master'';
     Some (case m of None \<Rightarrow> False
       | Some (master, master_len) \<Rightarrow> master_len = id_len \<and> strncmp0 i master (unat id_len)) } }"

definition actor_make_ports ::
  "mp \<Rightarrow> addr \<Rightarrow> bytes \<Rightarrow> bytes \<Rightarrow> bytes \<Rightarrow> cc_port_direction \<Rightarrow> world \<Rightarrow> (cc_result \<times> world) option" where
  "actor_make_ports mp a obj_private obj_prev_connections obj_connection_list direction w = do {
     v \<leftarrow> cc_coder_get_value_from_map mp obj_private (if direction = CC_PORT_DIRECTION_IN then ''inports'' else ''outports'');
     case v of None \<Rightarrow> Some (CC_FAIL, w)
     | Some obj_ports \<Rightarrow> cc_actor_create_ports mp a obj_ports obj_prev_connections direction obj_connection_list w }"

text \<open>
  The managed part, and that the actor then has an identifier and a name. The result is the map of the managed
  attributes.
\<close>

definition actor_managed :: "mp \<Rightarrow> addr \<Rightarrow> bytes \<Rightarrow> world \<Rightarrow> (bytes option \<times> world) option" where
  "actor_managed mp a obj_actor_state w = do {
     v \<leftarrow> cc_coder_get_value_from_map mp obj_actor_state ''managed'';
     case v of None \<Rightarrow> Some (None, w) | Some obj_managed \<Rightarrow> do {
     (r, w) \<leftarrow> get_managed_attributes mp a obj_managed w;
     actor \<leftarrow> h_actors w a;
     Some (if r = CC_SUCCESS \<and> a_id actor \<noteq> None \<and> a_name actor \<noteq> None then Some obj_managed else None, w) } }"

text \<open>The index of a replica, for \<open>did_replicate\<close>.\<close>

definition replica_index :: "mp \<Rightarrow> cc_actor \<Rightarrow> u32 option" where
  "replica_index mp actor = (case cc_list_get (a_private_attributes actor) ''_replication_id'' of
     None \<Rightarrow> Some 0
   | Some item \<Rightarrow> do { d \<leftarrow> cc_coder_decode_uint_from_map mp (li_data item) ''index''; Some (case d of None \<Rightarrow> 0 | Some n \<Rightarrow> n) })"

text \<open>A shadow or a replica is initialised with the shadow arguments.\<close>

definition actor_start_shadow :: "ext \<Rightarrow> addr \<Rightarrow> bytes \<Rightarrow> bytes \<Rightarrow> world \<Rightarrow> (cc_result \<times> world) option" where
  "actor_start_shadow x a obj_actor_state obj_managed w = do {
     replica \<leftarrow> cc_coder_has_key (x_mp x) obj_actor_state ''replication'';
     w \<leftarrow> upd_actor a (\<lambda>y. y\<lparr>a_state_was := if replica then CC_STATE_WAS_REPLICA else CC_STATE_WAS_SHADOW\<rparr>) w;
     v \<leftarrow> cc_coder_get_value_from_map (x_mp x) obj_managed ''_shadow_args'';
     case v of None \<Rightarrow> Some (CC_FAIL, w) | Some obj_shadow_args \<Rightarrow> do {
     (r, w) \<leftarrow> get_managed_attributes (x_mp x) a obj_shadow_args w;
     if r \<noteq> CC_SUCCESS then Some (CC_FAIL, w)
     else do {
       actor \<leftarrow> h_actors w a;
       if a_state actor = CC_ACTOR_PENDING_IMPL then Some (CC_SUCCESS, w)
       else do {
         ops \<leftarrow> actor_fns x a w;
         (r, w) \<leftarrow> ac_init ops a (a_managed_attributes actor) w;
         actor \<leftarrow> h_actors w a;
         w \<leftarrow> (case ac_did_replicate ops of None \<Rightarrow> Some w
               | Some f \<Rightarrow> if a_state_was actor \<noteq> CC_STATE_WAS_REPLICA then Some w
                          else do { index \<leftarrow> replica_index (x_mp x) actor; f a index w });
         Some (r, w) } } } }"

definition actor_start :: "ext \<Rightarrow> addr \<Rightarrow> bytes \<Rightarrow> bytes \<Rightarrow> world \<Rightarrow> (cc_result \<times> world) option" where
  "actor_start x a obj_actor_state obj_managed w = do {
     shadow \<leftarrow> cc_coder_has_key (x_mp x) obj_managed ''_shadow_args'';
     if shadow then actor_start_shadow x a obj_actor_state obj_managed w
     else do {
       w \<leftarrow> upd_actor a (\<lambda>y. y\<lparr>a_state_was := CC_STATE_WAS_ACTOR\<rparr>) w;
       actor \<leftarrow> h_actors w a;
       if a_state actor = CC_ACTOR_PENDING_IMPL then Some (CC_SUCCESS, w)
       else do {
         ops \<leftarrow> actor_fns x a w;
         (r, w) \<leftarrow> ac_set_state ops a (a_managed_attributes actor) w;
         w \<leftarrow> (if r = CC_SUCCESS then call_hook x ac_did_migrate a w else Some w);
         Some (r, w) } } }"

text \<open>The steps between the creation of the actor and the clean-up.\<close>

definition actor_fill :: "ext \<Rightarrow> addr \<Rightarrow> bytes \<Rightarrow> world \<Rightarrow> (cc_result \<times> world) option" where
  "actor_fill x a obj_state w = do {
     (p, w) \<leftarrow> actor_private x a obj_state w;
     case p of None \<Rightarrow> Some (CC_FAIL, w) | Some (obj_actor_state, obj_private, i, id_len) \<Rightarrow> do {
     c \<leftarrow> actor_connections (x_mp x) obj_state;
     case c of None \<Rightarrow> Some (CC_FAIL, w) | Some (obj_prev_connections, obj_connection_list) \<Rightarrow> do {
     master \<leftarrow> is_replication_master (x_mp x) obj_private i id_len;
     if master then Some (CC_FAIL, w)
     else do {
     (r, w) \<leftarrow> actor_make_ports (x_mp x) a obj_private obj_prev_connections obj_connection_list CC_PORT_DIRECTION_IN w;
     if r \<noteq> CC_SUCCESS then Some (CC_FAIL, w)
     else do {
     (r, w) \<leftarrow> actor_make_ports (x_mp x) a obj_private obj_prev_connections obj_connection_list CC_PORT_DIRECTION_OUT w;
     if r \<noteq> CC_SUCCESS then Some (CC_FAIL, w)
     else do {
     (m, w) \<leftarrow> actor_managed (x_mp x) a obj_actor_state w;
     case m of None \<Rightarrow> Some (CC_FAIL, w) | Some obj_managed \<Rightarrow> do {
     (r, w) \<leftarrow> actor_start x a obj_actor_state obj_managed w;
     if r \<noteq> CC_SUCCESS then Some (r, w)
     else if n_transport_client w \<noteq> None then do {
       actor \<leftarrow> h_actors w a;
       (r, w) \<leftarrow> cc_proto_send_set_actor (x_mp x) a actor actor_set_reply_handler w;
       Some (if r = CC_SUCCESS then CC_SUCCESS else CC_FAIL, w) }
     else Some (CC_SUCCESS, w) } } } } } } }"

text \<open>An attribute that is written anew whenever the actor is serialised.\<close>

definition drop_attribute :: "bytes \<Rightarrow> bytes cc_list \<Rightarrow> bytes cc_list" where
  "drop_attribute key attributes = (case cc_list_get attributes key of None \<Rightarrow> attributes | Some _ \<Rightarrow> cc_list_remove attributes key)"

text \<open>
  The clean-up: the managed attributes are freed unless the implementation is still pending, and the private
  attributes that are written anew are dropped.
\<close>

definition actor_tidy :: "addr \<Rightarrow> cc_result \<Rightarrow> world \<Rightarrow> world option" where
  "actor_tidy a result w = upd_actor a (\<lambda>y. y\<lparr>
     a_managed_attributes := (if result \<noteq> CC_SUCCESS \<or> a_state y \<noteq> CC_ACTOR_PENDING_IMPL then [] else a_managed_attributes y),
     a_private_attributes := drop_attribute ''outports'' (drop_attribute ''inports''
       (drop_attribute ''_calvinsys'' (a_private_attributes y)))\<rparr>) w"

text \<open>The end: the actor is added to the node and its ports are connected, or it is freed.\<close>

definition actor_finish :: "ext \<Rightarrow> addr \<Rightarrow> cc_result \<Rightarrow> world \<Rightarrow> (addr option \<times> world) option" where
  "actor_finish x a result w = do {
     w \<leftarrow> actor_tidy a result w;
     actor \<leftarrow> h_actors w a;
     (ok, w) \<leftarrow> (if result \<noteq> CC_SUCCESS then Some (False, w)
                 else do {
                   i \<leftarrow> a_id actor;
                   case cc_list_add (n_actors w) i a 0 w of (it, l, w) \<Rightarrow> Some (it \<noteq> None, w\<lparr>n_actors := l\<rparr>) });
     if \<not> ok then do { w \<leftarrow> cc_actor_free x (Some a) False w; Some (None, w) }
     else if a_state actor = CC_ACTOR_PENDING_IMPL then Some (Some a, w)
     else do { w \<leftarrow> cc_actor_connect_ports (x_mp x) a w; Some (Some a, w) } }"

text \<open>
  Without \<open>state\<close> or \<open>actor_type\<close> there is no actor when the clean-up reads \<open>actor->managed_attributes\<close>: a fault.
\<close>

definition cc_actor_create :: "ext \<Rightarrow> bytes \<Rightarrow> world \<Rightarrow> (addr option \<times> world) option" where
  "cc_actor_create x root w = do {
     v \<leftarrow> cc_coder_get_value_from_map (x_mp x) root ''state'';
     obj_state \<leftarrow> v;
     t \<leftarrow> cc_coder_decode_string_from_map (x_mp x) obj_state ''actor_type'';
     (actor_type, actor_type_len) \<leftarrow> t;
     case cc_actor_create_from_type actor_type actor_type_len w of
       (None, w) \<Rightarrow> Some (None, w)
     | (Some a, w) \<Rightarrow> do {
         (result, w) \<leftarrow> actor_fill x a obj_state w;
         actor_finish x a result w } }"

section \<open>What freeing an actor leaves\<close>

text \<open>What the actors, ports and objects of a world are: the parts that links, tunnels and messages do not touch.\<close>

definition loc :: "world \<Rightarrow> (addr \<rightharpoonup> cc_port) \<times> (addr \<rightharpoonup> cc_actor) \<times> (addr \<rightharpoonup> cc_calvinsys_obj) \<times>
    (addr \<rightharpoonup> cc_calvinsys_capability) \<times> addr cc_list \<times> addr cc_list \<times> addr cc_list" where
  "loc w = (h_ports w, h_actors w, h_objs w, h_caps w, n_actors w, n_objects w, n_capabilities w)"

lemma loc_eq [simp]:
  "loc w' = loc w \<longleftrightarrow> h_ports w' = h_ports w \<and> h_actors w' = h_actors w \<and> h_objs w' = h_objs w \<and> h_caps w' = h_caps w
     \<and> n_actors w' = n_actors w \<and> n_objects w' = n_objects w \<and> n_capabilities w' = n_capabilities w"
  by (simp add: loc_def)

lemma same_node_loc: "same_node w w' \<Longrightarrow> loc w' = loc w"
  by (simp add: same_nodeD)

lemma link_remove_ref_loc: "cc_link_remove_ref p w = Some w' \<Longrightarrow> loc w' = loc w"
  by (auto simp: cc_link_remove_ref_def cc_link_free_def upd_link_def split: option.splits if_splits)

lemma tunnel_free_loc: "cc_tunnel_free p b w = Some w' \<Longrightarrow> loc w' = loc w"
  by (auto simp: cc_tunnel_free_def simp del: loc_eq split: option.splits if_splits dest!: link_remove_ref_loc)
    (simp_all)

lemma tunnel_remove_ref_loc: "cc_tunnel_remove_ref mp p w = Some w' \<Longrightarrow> loc w' = loc w"
  by (auto simp: cc_tunnel_remove_ref_def upd_tunnel_def split: option.splits if_splits
      dest!: tunnel_free_loc send_tunnel_destroy_same same_node_loc)

lemma uuid_pending_same:
  "cc_gen_uuid p w = (u, w1) \<Longrightarrow> send_pending c b m h d w1 = Some (r, w') \<Longrightarrow> same_node w w'"
  using gen_uuid_more send_pending_same same_node_env same_node_trans by blast

lemma remove_port_same: "cc_proto_send_remove_port mp a p h w = Some (r, w') \<Longrightarrow> same_node w w'"
  by (cases "cc_gen_uuid (Some ''MSGID_'') w") (auto simp: cc_proto_send_remove_port_def intro: uuid_pending_same)

lemma remove_actor_same: "cc_proto_send_remove_actor mp x h w = Some (r, w') \<Longrightarrow> same_node w w'"
  by (cases "cc_gen_uuid (Some ''MSGID_'') w") (auto simp: cc_proto_send_remove_actor_def intro: uuid_pending_same)

lemma port_free_loc:
  assumes "cc_port_free mp p rm w = Some w'"
  shows "loc w' = loc (w\<lparr>h_ports := (h_ports w)(p := None)\<rparr>)"
proof -
  obtain w1 w2 port where "loc w1 = loc w" "loc w2 = loc w1" "w' = w2\<lparr>h_ports := (h_ports w2)(p := None)\<rparr>"
    using assms
    by (auto simp: cc_port_free_def simp del: loc_eq split: if_splits
        dest!: tunnel_remove_ref_loc remove_port_same[THEN same_node_loc])
  then show ?thesis by simp
qed


lemma free_ports_loc:
  "free_ports_loop mp l rm w = Some w' \<Longrightarrow> loc w' = loc (w\<lparr>h_ports := h_ports w |` (- li_data ` set l)\<rparr>)"
proof (induction l arbitrary: w)
  case (Cons i l)
  then obtain w1 where w1: "cc_port_free mp (li_data i) rm w = Some w1" "free_ports_loop mp l rm w1 = Some w'" by auto
  have "((h_ports w)(li_data i := None)) |` (- li_data ` set l) = h_ports w |` (- li_data ` set (i # l))"
    by (auto simp: restrict_map_def)
  with Cons.IH[OF w1(2)] port_free_loc[OF w1(1)] show ?case by simp
qed (simp add: restrict_map_def)

text \<open>
  The objects of the list belong to capabilities of the runtime, are in the heap once each, and their
  identifiers are the ones the runtime makes.
\<close>

definition objects_ok :: "world \<Rightarrow> bool" where
  "objects_ok w = (keyed 36 (n_objects w) \<and> distinct (map li_data (n_objects w)) \<and> (\<forall>i \<in> set (n_objects w). \<exists>ob.
     h_objs w (li_data i) = Some ob \<and> o_impl ob \<in> {Some Impl_timer, Some Impl_schedule, Some Impl_attribute}))"

definition owned :: "addr \<Rightarrow> world \<Rightarrow> addr cc_list_item \<Rightarrow> bool" where
  "owned a w i = (case h_objs w (li_data i) of None \<Rightarrow> False | Some ob \<Rightarrow> o_actor ob = a)"

lemma close_effect:
  assumes "objects_ok w" and "i \<in> set (n_objects w)" and "cc_calvinsys_close x (li_id i) w = Some w'"
  shows "loc w' = loc (w\<lparr>n_objects := filter (\<lambda>j. j \<noteq> i) (n_objects w), h_objs := (h_objs w)(li_data i := None)\<rparr>)"
proof -
  have k: "keyed 36 (n_objects w)" "key_of 36 (li_id i)" using assms(1,2) by (auto simp: objects_ok_def keyed_def)
  have inj: "j \<in> set (n_objects w) \<Longrightarrow> li_id j = li_id i \<Longrightarrow> j = i" for j
    using k(1) assms(2) by (auto simp: keyed_def distinct_map inj_on_def)
  have "find (\<lambda>y. li_id y = li_id i) (n_objects w) = Some i"
  proof (cases "find (\<lambda>y. li_id y = li_id i) (n_objects w)")
    case (Some j)
    then show ?thesis using inj[of j] by (auto simp: find_Some_iff)
  qed (use assms(2) in \<open>auto simp: find_None_iff\<close>)
  then have g: "cc_list_get (n_objects w) (li_id i) = Some i" using keyed_get[OF k] by simp
  obtain ob impl where ob: "h_objs w (li_data i) = Some ob" "o_impl ob = Some impl"
      "impl \<in> {Impl_timer, Impl_schedule, Impl_attribute}"
    using assms(1,2) by (auto simp: objects_ok_def)
  have "cc_list_remove (n_objects w) (li_id i) = filter (\<lambda>j. j \<noteq> i) (n_objects w)"
    using keyed_remove[OF k] inj by (auto intro: filter_cong)
  with capability.calvinsys_close_effect[OF builtin_capability[OF ob(3)] g ob(1,2) assms(3)] show ?thesis by simp
qed


lemma close_returns_ok:
  assumes "objects_ok w" and "i \<in> set (n_objects w)"
  shows "\<exists>w'. cc_calvinsys_close x (li_id i) w = Some w'"
proof -
  obtain j ob impl where g: "cc_list_get (n_objects w) (li_id i) = Some j" and ob: "h_objs w (li_data j) = Some ob"
      "o_impl ob = Some impl" "impl \<in> {Impl_timer, Impl_schedule, Impl_attribute}"
  proof -
    have k: "keyed 36 (n_objects w)" "key_of 36 (li_id i)" using assms by (auto simp: objects_ok_def keyed_def)
    obtain j where j: "find (\<lambda>y. li_id y = li_id i) (n_objects w) = Some j"
      using assms(2) by (cases "find (\<lambda>y. li_id y = li_id i) (n_objects w)") (auto simp: find_None_iff)
    then have "j \<in> set (n_objects w)" by (auto simp: find_Some_iff)
    then show ?thesis using that[of j] keyed_get[OF k] j assms(1) by (auto simp: objects_ok_def)
  qed
  from capability.close_returns[OF builtin_capability[OF ob(3)], of "li_data j" w x] ob(1,2)
  obtain r w1 where "obj_close x impl (li_data j) w = Some (r, w1)" by (auto simp: typed_obj_def)
  then show ?thesis using g ob by (simp add: cc_calvinsys_close_def)
qed

lemma objects_ok_close:
  assumes "objects_ok w" and "i \<in> set (n_objects w)"
    and "loc w' = loc (w\<lparr>n_objects := filter (\<lambda>j. j \<noteq> i) (n_objects w), h_objs := (h_objs w)(li_data i := None)\<rparr>)"
  shows "objects_ok w'" and "j \<in> set (n_objects w) \<Longrightarrow> j \<noteq> i \<Longrightarrow> owned a w' j = owned a w j"
proof -
  have inj: "li_data j \<noteq> li_data i" if "j \<in> set (n_objects w)" "j \<noteq> i" for j
    using that assms(1,2) by (auto simp: objects_ok_def distinct_map inj_on_def)
  then show "objects_ok w'"
    using assms(1,3) by (auto simp: objects_ok_def distinct_map_filter)
  show "j \<in> set (n_objects w) \<Longrightarrow> j \<noteq> i \<Longrightarrow> owned a w' j = owned a w j"
    using inj[of j] assms(3) by (simp add: owned_def)
qed

lemma close_loop_effect:
  assumes "close_loop x a l w = Some w'" and "objects_ok w" and "set l \<subseteq> set (n_objects w)" and "distinct l"
  shows "loc w' = loc (w\<lparr>n_objects := filter (\<lambda>j. \<not> (j \<in> set l \<and> owned a w j)) (n_objects w),
      h_objs := h_objs w |` (- li_data ` {j \<in> set l. owned a w j})\<rparr>)"
  using assms
proof (induction l arbitrary: w)
  case (Cons i l)
  obtain ob w1 where ob: "h_objs w (li_data i) = Some ob"
      and w1: "(if o_actor ob = a then cc_calvinsys_close x (li_id i) w else Some w) = Some w1" "close_loop x a l w1 = Some w'"
    using Cons.prems(1) by auto
  have il: "i \<in> set (n_objects w)" "i \<notin> set l" "distinct l" "set l \<subseteq> set (n_objects w)" using Cons.prems by auto
  show ?case
  proof (cases "o_actor ob = a")
    case False
    then have o: "\<not> owned a w i" "w1 = w" using ob w1 by (simp_all add: owned_def)
    then have "{j \<in> set (i # l). owned a w j} = {j \<in> set l. owned a w j}" by auto
    moreover have "(\<lambda>j. \<not> (j \<in> set (i # l) \<and> owned a w j)) = (\<lambda>j. \<not> (j \<in> set l \<and> owned a w j))" using o by auto
    ultimately show ?thesis using Cons.IH[of w] w1(2) o(2) Cons.prems(2) il by simp
  next
    case True
    then have o: "owned a w i" using ob by (simp add: owned_def)
    have e: "loc w1 = loc (w\<lparr>n_objects := filter (\<lambda>j. j \<noteq> i) (n_objects w), h_objs := (h_objs w)(li_data i := None)\<rparr>)"
      using close_effect[OF Cons.prems(2) il(1), of x w1] w1(1) True by simp
    note ok = objects_ok_close[OF Cons.prems(2) il(1) e]
    have ow: "j \<in> set l \<Longrightarrow> owned a w1 j = owned a w j" for j using ok(2)[of j] il by auto
    have "set l \<subseteq> set (n_objects w1)" using il e by auto
    from Cons.IH[OF w1(2) ok(1) this il(3)] have
      "loc w' = loc (w1\<lparr>n_objects := filter (\<lambda>j. \<not> (j \<in> set l \<and> owned a w1 j)) (n_objects w1),
         h_objs := h_objs w1 |` (- li_data ` {j \<in> set l. owned a w1 j})\<rparr>)" .
    moreover have "filter (\<lambda>j. \<not> (j \<in> set l \<and> owned a w1 j)) (n_objects w1)
        = filter (\<lambda>j. \<not> (j \<in> set (i # l) \<and> owned a w j)) (n_objects w)"
      using e ow o by (auto intro!: filter_cong)
    moreover have "h_objs w1 |` (- li_data ` {j \<in> set l. owned a w1 j}) = h_objs w |` (- li_data ` {j \<in> set (i # l). owned a w j})"
      using e ow o by (auto simp: restrict_map_def fun_eq_iff)
    ultimately show ?thesis using e by simp
  qed
qed (simp add: restrict_map_def)

text \<open>The actor's own functions change its instance at most.\<close>

definition only_instance :: "addr \<Rightarrow> world \<Rightarrow> world \<Rightarrow> bool" where
  "only_instance a w w' = (\<exists>s. loc w' = loc (w\<lparr>h_actors := (h_actors w)(a := map_option (\<lambda>y. y\<lparr>a_instance := s\<rparr>) (h_actors w a))\<rparr>))"

lemma actor_release_effect:
  assumes "actor_release mp a rm w = Some w'" and "h_actors w a = Some actor" and "a_id actor = Some i"
    and "keyed n (n_actors w)" and "key_of n i"
  shows "loc w' = loc (w\<lparr>h_actors := (h_actors w)(a := None), n_actors := filter (\<lambda>j. li_id j \<noteq> i) (n_actors w),
      h_ports := h_ports w |` (- li_data ` set (a_in_ports actor @ a_out_ports actor))\<rparr>)"
proof -
  obtain w1 w2 w3 where l: "free_ports_loop mp (a_in_ports actor) rm w = Some w1" "free_ports_loop mp (a_out_ports actor) rm w1 = Some w2"
    and s: "loc w3 = loc w2" and w': "w' = w3\<lparr>n_actors := cc_list_remove (n_actors w3) i, h_actors := (h_actors w3)(a := None)\<rparr>"
    using assms(1-3) by (cases rm) (auto simp: actor_release_def dest: remove_actor_same[THEN same_node_loc])
  have "h_ports w2 = h_ports w |` (- li_data ` set (a_in_ports actor @ a_out_ports actor))"
    using free_ports_loc[OF l(1)] free_ports_loc[OF l(2)] by (auto simp: restrict_map_def fun_eq_iff)
  moreover have "cc_list_remove (n_actors w) i = filter (\<lambda>j. li_id j \<noteq> i) (n_actors w)" by (rule keyed_remove[OF assms(4,5)])
  ultimately show ?thesis using free_ports_loc[OF l(1)] free_ports_loc[OF l(2)] s w' by simp
qed


text \<open>When nothing is sent and no tunnel is released, freeing returns.\<close>

definition plain_ports :: "world \<Rightarrow> cc_actor \<Rightarrow> bool" where
  "plain_ports w actor = (distinct (map li_data (a_in_ports actor @ a_out_ports actor))
     \<and> (\<forall>i \<in> set (a_in_ports actor @ a_out_ports actor). \<exists>p. h_ports w (li_data i) = Some p \<and> p_tunnel p = None \<and> p_fifo p \<noteq> None))"

lemma free_ports_returns:
  assumes "distinct (map li_data l)" and "\<forall>i \<in> set l. \<exists>p. h_ports w (li_data i) = Some p \<and> p_tunnel p = None \<and> p_fifo p \<noteq> None"
  shows "\<exists>w'. free_ports_loop mp l False w = Some w'"
  using assms
proof (induction l arbitrary: w)
  case (Cons i l)
  then obtain p f where p: "h_ports w (li_data i) = Some p" "p_tunnel p = None" "p_fifo p = Some f" by auto
  let ?w = "w\<lparr>h_ports := (h_ports w)(li_data i := None)\<rparr>"
  have "\<forall>j \<in> set l. \<exists>p. h_ports ?w (li_data j) = Some p \<and> p_tunnel p = None \<and> p_fifo p \<noteq> None"
    using Cons.prems by (auto simp: image_iff)
  then obtain w' where "free_ports_loop mp l False ?w = Some w'" using Cons.IH[of ?w] Cons.prems(1) by auto
  moreover have "cc_port_free mp (li_data i) False w = Some ?w" using p by (simp add: cc_port_free_def)
  ultimately show ?case by auto
qed simp

lemma close_loop_returns:
  assumes "objects_ok w" and "set l \<subseteq> set (n_objects w)" and "distinct l"
  shows "\<exists>w'. close_loop x a l w = Some w'"
  using assms
proof (induction l arbitrary: w)
  case (Cons i l)
  then obtain ob impl where ob: "h_objs w (li_data i) = Some ob" "o_impl ob = Some impl"
      "impl \<in> {Impl_timer, Impl_schedule, Impl_attribute}" by (auto simp: objects_ok_def)
  show ?case
  proof (cases "o_actor ob = a")
    case False
    then show ?thesis using Cons.IH[of w] Cons.prems ob by auto
  next
    case True
    have i: "i \<in> set (n_objects w)" using Cons.prems(2) by simp
    obtain w1 where w1: "cc_calvinsys_close x (li_id i) w = Some w1"
      using close_returns_ok[OF Cons.prems(1) i] by blast
    note e = close_effect[OF Cons.prems(1) i w1]
    have "set l \<subseteq> set (n_objects w1)" using Cons.prems(2,3) e by auto
    then show ?thesis using Cons.IH[of w1] objects_ok_close(1)[OF Cons.prems(1) i e] Cons.prems(3) True ob w1 by auto
  qed
qed simp


text \<open>Two connected actors; each has a timer.\<close>

definition example_uuid :: "char \<Rightarrow> bytes" where
  "example_uuid c = replicate 36 c"

definition example_house :: world where
  "example_house = (example_ports None)\<lparr>h_caps := [2 \<mapsto> example_cap],
     h_objs := [3 \<mapsto> (example_obj (example_uuid CHR ''a'') 5)\<lparr>o_actor := 20\<rparr>, 4 \<mapsto> (example_obj (example_uuid CHR ''b'') 9)\<lparr>o_actor := 21\<rparr>],
     n_objects := [example_obj_item (example_uuid CHR ''a'') 3, example_obj_item (example_uuid CHR ''b'') 4]\<rparr>"

lemma example_uuid_length [simp]: "length (example_uuid c) = 36"
  by (simp add: example_uuid_def)

lemma example_uuid_no_nul [simp]: "c \<noteq> NUL \<Longrightarrow> no_nul (example_uuid c)"
  by (auto simp: example_uuid_def)

lemma example_uuid_eq [simp]: "(example_uuid c = example_uuid d) = (c = d)"
  by (simp add: example_uuid_def)


section \<open>The state of an actor after connecting\<close>

abbreviation port_enabled :: "world \<Rightarrow> addr cc_list_item \<Rightarrow> bool" where
  "port_enabled w i \<equiv> (case h_ports w (li_data i) of None \<Rightarrow> False | Some p \<Rightarrow> p_state p = CC_PORT_ENABLED)"

lemma connect_loop_state:
  assumes "connect_loop mp l s w = Some (s', w')"
  shows "if list_all (port_enabled w) l then s' = s \<and> w' = w else s' = CC_ACTOR_PENDING"
    and "s = CC_ACTOR_PENDING \<Longrightarrow> s' = CC_ACTOR_PENDING"
proof -
  have p: "s = CC_ACTOR_PENDING \<Longrightarrow> connect_loop mp l s w = Some (s', w') \<Longrightarrow> s' = CC_ACTOR_PENDING" for l s w
    by (induction l arbitrary: s w) (auto split: if_splits)
  show "s = CC_ACTOR_PENDING \<Longrightarrow> s' = CC_ACTOR_PENDING" using p assms by blast
  show "if list_all (port_enabled w) l then s' = s \<and> w' = w else s' = CC_ACTOR_PENDING"
    using assms by (induction l) (auto split: if_splits dest: p[OF refl])
qed

text \<open>
  The state \<open>cc_actor_connect_ports\<close> leaves. An actor is enabled afterwards exactly when all its ports were enabled
  before the call; a port that had to be connected leaves it pending, even when the connection was made at once and
  all its ports are now enabled.
\<close>

lemma connect_ports_state:
  assumes "h_actors w a = Some actor" and "cc_actor_connect_ports mp a w = Some w'"
  shows "\<exists>actor'. h_actors w' a = Some actor' \<and> a_state actor' =
     (if list_all (port_enabled w) (a_in_ports actor @ a_out_ports actor) then CC_ACTOR_ENABLED else CC_ACTOR_PENDING)"
proof -
  obtain s1 w1 y s2 w2 where c: "connect_loop mp (a_in_ports actor) CC_ACTOR_ENABLED w = Some (s1, w1)" "h_actors w1 a = Some y"
      "connect_loop mp (a_out_ports y) s1 w1 = Some (s2, w2)" "cc_actor_set_state a s2 w2 = Some w'"
    using assms by (auto simp: cc_actor_connect_ports_def)
  have "\<exists>actor'. h_actors w' a = Some actor' \<and> a_state actor' = s2"
    using c(4) by (auto simp: cc_actor_set_state_def upd_actor_def)
  moreover have "s2 = (if list_all (port_enabled w) (a_in_ports actor @ a_out_ports actor) then CC_ACTOR_ENABLED else CC_ACTOR_PENDING)"
    using connect_loop_state(1)[OF c(1)] connect_loop_state[OF c(3)] c(2) assms(1) by (auto split: if_splits)
  ultimately show ?thesis by simp
qed

text \<open>An actor whose only port finds its peer on the same runtime.\<close>

definition example_joining :: world where
  "example_joining = (example_ports None)\<lparr>
     h_ports := [10 \<mapsto> (example_out None None)\<lparr>p_state := CC_PORT_DISCONNECTED\<rparr>, 11 \<mapsto> (example_in None)\<lparr>p_state := CC_PORT_DISCONNECTED\<rparr>],
     h_actors := [20 \<mapsto> (example_actor ''A'' [] [example_port_item ''o'' 10])\<lparr>a_state := CC_ACTOR_PENDING\<rparr>,
                  21 \<mapsto> (example_actor ''B'' [example_port_item ''i'' 11] [])\<lparr>a_state := CC_ACTOR_PENDING\<rparr>]\<rparr>"

lemmas connect_defs = cc_actor_connect_ports_def cc_port_connect_def cc_port_connect_local_def cc_port_get_def upd_port_def
  cc_port_set_state_def cc_actor_port_state_changed_def actor_ports_state_def cc_actor_set_state_def upd_actor_def
  port_attach_def port_drop_tunnel_def

lemma example_join:
  "\<exists>w'. cc_actor_connect_ports mp_ref 20 example_joining = Some w' \<and> list_all (port_enabled w') [example_port_item ''o'' 10]"
  by (simp add: connect_defs Let_def example_joining_def example_defs CC_UUID_BUFFER_SIZE_def)

end
