(* ===== verification/Proto_Parse.thy ===== *)
theory Proto_Parse
  imports Actor
begin

text \<open>
  \<open>src/runtime/north/cc_proto.c\<close>: the messages a runtime receives, with the reply handlers of \<open>cc_node.c\<close>. A
  message is the buffer of the transport; a string in it is the rest of the buffer from its first character
  with its length, as the pointers of the code. The function of a pending message is called by its name.
\<close>

section \<open>Early returns\<close>

text \<open>A value that has to be there: \<open>if (f(...) != CC_SUCCESS) return ...\<close>\<close>

definition must :: "'a option option \<Rightarrow> 'r option \<Rightarrow> ('a \<Rightarrow> 'r option) \<Rightarrow> 'r option" where
  "must m fail k = do { v \<leftarrow> m; case v of None \<Rightarrow> fail | Some x \<Rightarrow> k x }"

lemma must_simps [simp]:
  "must None fail k = None" "must (Some None) fail k = fail" "must (Some (Some x)) fail k = k x"
  by (simp_all add: must_def)

section \<open>Replies to the node\<close>

text \<open>
  \<open>src/runtime/north/cc_node.c\<close>: the answer to the configuration of the node carries the time. A float that
  has no unsigned integer value is a fault.
\<close>

definition decode_time :: "mp \<Rightarrow> bytes \<Rightarrow> u32 option option" where
  "decode_time mp obj_time = do {
     ty \<leftarrow> cc_coder_type_of mp obj_time;
     if ty = CC_CODER_FLOAT then must (cc_coder_decode_float mp obj_time) (Some None) (\<lambda>s. map_option Some (float_to_u32 s))
     else if ty = CC_CODER_DOUBLE then must (cc_coder_decode_double mp obj_time) (Some None) (\<lambda>s. map_option Some (double_to_u32 s))
     else Some None }"

definition handle_node_setup_reply :: "mp \<Rightarrow> bytes \<Rightarrow> world \<Rightarrow> (cc_result \<times> world) option" where
  "handle_node_setup_reply mp data w =
     must (cc_coder_get_value_from_map mp data ''value'') (Some (CC_FAIL, w)) (\<lambda>value.
     must (cc_coder_get_value_from_map mp value ''value'') (Some (CC_FAIL, w)) (\<lambda>value.
     must (cc_coder_decode_uint_from_map mp value ''status'') (Some (CC_FAIL, w)) (\<lambda>status.
     must (cc_coder_get_value_from_map mp value ''data'') (Some (CC_FAIL, w)) (\<lambda>obj_data.
     must (cc_coder_get_value_from_map mp obj_data ''time'') (Some (CC_FAIL, w)) (\<lambda>obj_time.
     if status \<noteq> 200 then Some (CC_FAIL, w)
     else must (decode_time mp obj_time) (Some (CC_FAIL, w)) (\<lambda>seconds.
       Some (CC_SUCCESS, w\<lparr>n_seconds_since_epoch := seconds, n_time_at_sync := e_time w, n_state := CC_NODE_STARTED\<rparr>)))))))"

definition handle_enter_sleep_reply :: "mp \<Rightarrow> bytes \<Rightarrow> world \<Rightarrow> (cc_result \<times> world) option" where
  "handle_enter_sleep_reply mp data w =
     must (cc_coder_get_value_from_map mp data ''value'') (Some (CC_FAIL, w)) (\<lambda>value.
     must (cc_coder_get_value_from_map mp value ''value'') (Some (CC_FAIL, w)) (\<lambda>value.
     must (cc_coder_decode_uint_from_map mp value ''status'') (Some (CC_SUCCESS, w)) (\<lambda>status.
       Some (CC_SUCCESS, w\<lparr>n_state := if status = 200 then CC_NODE_DO_SLEEP else CC_NODE_STARTED\<rparr>))))"

section \<open>Replies to requests\<close>

text \<open>
  \<open>pending_msg->handler(node, data, data_len, pending_msg->msg_data)\<close>: the function and the pointer of the
  pending message.
\<close>

definition reply_handler :: "ext \<Rightarrow> cc_msg_handler \<Rightarrow> bytes \<Rightarrow> msg_data \<Rightarrow> world \<Rightarrow> (cc_result \<times> world) option" where
  "reply_handler x handler data msg_data w = (case handler of
     tunnel_request_handler \<Rightarrow> handle_tunnel_request_reply (x_mp x) data w
   | tunnel_destroy_handler \<Rightarrow> Some (CC_SUCCESS, w)
   | cc_port_remove_reply_handler \<Rightarrow> Some (CC_SUCCESS, w)
   | cc_port_disconnect_reply_handler \<Rightarrow> Some (CC_SUCCESS, w)
   | cc_port_store_reply_handler \<Rightarrow> map_option (\<lambda>r. (r, w)) (handle_port_store_reply (x_mp x) data w)
   | cc_port_get_peer_port_reply_handler \<Rightarrow> handle_port_get_peer_reply (x_mp x) data w
   | cc_port_connect_reply_handler \<Rightarrow> handle_port_connect_reply (x_mp x) data w
   | cc_actor_req_match_reply_handler \<Rightarrow> handle_req_match_reply x data w
   | actor_remove_reply_handler \<Rightarrow> Some (CC_SUCCESS, w)
   | cc_actor_migrate_reply_handler \<Rightarrow> (case msg_data of MD_actor_id a \<Rightarrow> handle_migrate_reply x data a w | _ \<Rightarrow> None)
   | actor_set_reply_handler \<Rightarrow> map_option (\<lambda>r. (r, w)) (handle_actor_set_reply (x_mp x) data w)
   | cc_node_setup_reply_handler \<Rightarrow> handle_node_setup_reply (x_mp x) data w
   | cc_node_enter_sleep_reply_handler \<Rightarrow> handle_enter_sleep_reply (x_mp x) data w
   | replica_remove_reply_handler \<Rightarrow> Some (CC_SUCCESS, w)
   | platform_node_setup_reply_handler \<Rightarrow> Some (CC_SUCCESS, w))"

text \<open>The message is no longer pending after its handler has run.\<close>

definition handle_pending :: "ext \<Rightarrow> bytes \<Rightarrow> bytes \<Rightarrow> cc_pending_msg \<Rightarrow> world \<Rightarrow> (cc_result \<times> world) option" where
  "handle_pending x data msg_uuid pending_msg w = do {
     (result, w) \<leftarrow> reply_handler x (pm_handler pending_msg) data (pm_msg_data pending_msg) w;
     Some (result, cc_node_remove_pending_msg msg_uuid w) }"

definition cc_proto_parse_reply :: "ext \<Rightarrow> bytes \<Rightarrow> world \<Rightarrow> (cc_result \<times> world) option" where
  "cc_proto_parse_reply x data w =
     must (cc_coder_decode_string_from_map (x_mp x) data ''msg_uuid'') (Some (CC_FAIL, w)) (\<lambda>(tmp, len). do {
       msg_uuid \<leftarrow> strncpy_term CC_UUID_BUFFER_SIZE tmp (unat len);
       case cc_node_get_pending_msg w msg_uuid of
         None \<Rightarrow> Some (CC_SUCCESS, w)
       | Some pending_msg \<Rightarrow> handle_pending x data msg_uuid pending_msg w })"

section \<open>Tokens\<close>

text \<open>The reply to a token, in a buffer of 400 bytes.\<close>

definition msg_token_reply ::
  "mp \<Rightarrow> bytes \<Rightarrow> bytes \<times> u32 \<Rightarrow> bytes \<times> u32 \<Rightarrow> u32 \<Rightarrow> bytes \<times> u32 \<Rightarrow> bytes \<times> u32 \<Rightarrow> bool \<Rightarrow> bytes" where
  "msg_token_reply mp node_id from_rt_uuid tunnel_id sequencenbr port_id peer_port_id ack =
     (let w = cc_coder_encode_map mp [] 5;
          w = cc_coder_encode_kv_str mp w ''to_rt_uuid'' (fst from_rt_uuid) (snd from_rt_uuid);
          w = kv_id mp w ''from_rt_uuid'' node_id;
          w = cc_coder_encode_kv_str mp w ''cmd'' ''TUNNEL_DATA'' 11;
          w = cc_coder_encode_kv_str mp w ''tunnel_id'' (fst tunnel_id) (snd tunnel_id);
          w = cc_coder_encode_kv_map mp w ''value'' 5;
          w = cc_coder_encode_kv_str mp w ''cmd'' ''TOKEN_REPLY'' 11;
          w = cc_coder_encode_kv_uint mp w ''sequencenbr'' sequencenbr;
          w = cc_coder_encode_kv_str mp w ''peer_port_id'' (fst port_id) (snd port_id);
          w = cc_coder_encode_kv_str mp w ''port_id'' (fst peer_port_id) (snd peer_port_id)
      in cc_coder_encode_kv_str mp w ''value'' (if ack then ''ACK'' else ''NACK'') (if ack then 3 else 4))"

text \<open>What a token message holds.\<close>

record token_msg =
  tm_from_rt_uuid :: "bytes \<times> u32"
  tm_tunnel_id :: "bytes \<times> u32"
  tm_port_id :: "bytes \<times> u32"
  tm_peer_port_id :: "bytes \<times> u32"
  tm_sequencenbr :: u32
  tm_data :: bytes

definition decode_token_msg :: "mp \<Rightarrow> bytes \<Rightarrow> token_msg option option" where
  "decode_token_msg mp root =
     must (cc_coder_decode_string_from_map mp root ''from_rt_uuid'') (Some None) (\<lambda>from_rt_uuid.
     must (cc_coder_decode_string_from_map mp root ''tunnel_id'') (Some None) (\<lambda>tunnel_id.
     must (cc_coder_get_value_from_map mp root ''value'') (Some None) (\<lambda>obj_value.
     must (cc_coder_decode_string_from_map mp obj_value ''peer_port_id'') (Some None) (\<lambda>port_id.
     must (cc_coder_decode_string_from_map mp obj_value ''port_id'') (Some None) (\<lambda>peer_port_id.
     must (cc_coder_decode_uint_from_map mp obj_value ''sequencenbr'') (Some None) (\<lambda>sequencenbr.
     must (cc_coder_get_value_from_map mp obj_value ''token'') (Some None) (\<lambda>obj_token.
     must (cc_coder_get_value_from_map mp obj_token ''data'') (Some None) (\<lambda>obj_data.
       Some (Some \<lparr>tm_from_rt_uuid = from_rt_uuid, tm_tunnel_id = tunnel_id, tm_port_id = port_id,
         tm_peer_port_id = peer_port_id, tm_sequencenbr = sequencenbr, tm_data = obj_data\<rparr>)))))))))"

definition proto_parse_token :: "mp \<Rightarrow> bytes \<Rightarrow> world \<Rightarrow> (cc_result \<times> world) option" where
  "proto_parse_token mp root w =
     must (decode_token_msg mp root) (Some (CC_FAIL, w)) (\<lambda>m. do {
       p \<leftarrow> cc_port_get (fst (tm_port_id m)) (snd (tm_port_id m)) w;
       (ack, w) \<leftarrow> (case p of None \<Rightarrow> Some (False, w)
         | Some port \<Rightarrow> do {
             n \<leftarrow> cc_coder_get_size_of_value mp (tm_data m);
             (r, w) \<leftarrow> cc_node_handle_token port (tm_data m) n (tm_sequencenbr m) w;
             Some (r = CC_SUCCESS, w) });
       proto_send 400 (msg_token_reply mp (n_id w) (tm_from_rt_uuid m) (tm_tunnel_id m) (tm_sequencenbr m)
         (tm_port_id m) (tm_peer_port_id m) ack) w })"

definition proto_parse_token_reply :: "mp \<Rightarrow> bytes \<Rightarrow> world \<Rightarrow> (cc_result \<times> world) option" where
  "proto_parse_token_reply mp root w =
     must (cc_coder_get_value_from_map mp root ''value'') (Some (CC_FAIL, w)) (\<lambda>value.
     must (cc_coder_decode_string_from_map mp value ''port_id'') (Some (CC_FAIL, w)) (\<lambda>(port_id, port_id_len).
     must (cc_coder_decode_string_from_map mp value ''value'') (Some (CC_FAIL, w)) (\<lambda>(status, status_len).
     must (cc_coder_decode_uint_from_map mp value ''sequencenbr'') (Some (CC_FAIL, w)) (\<lambda>sequencenbr.
     let answer = (\<lambda>reply_type. map_option (Pair CC_SUCCESS)
                     (cc_node_handle_token_reply port_id port_id_len reply_type sequencenbr w))
     in if strncmp0 status ''ACK'' (unat status_len) then answer CC_PORT_REPLY_TYPE_ACK
        else if strncmp0 status ''NACK'' (unat status_len) then answer CC_PORT_REPLY_TYPE_NACK
        else if strncmp0 status ''ABORT'' (unat status_len) then answer CC_PORT_REPLY_TYPE_ABORT
        else Some (CC_FAIL, w)))))"

section \<open>Data of a tunnel\<close>

definition msg_destroy_reply :: "mp \<Rightarrow> bytes \<Rightarrow> bytes \<times> u32 \<Rightarrow> bytes \<times> u32 \<Rightarrow> bytes" where
  "msg_destroy_reply mp node_id from_rt_uuid tunnel_id =
     (let w = cc_coder_encode_map mp [] 5;
          w = cc_coder_encode_kv_str mp w ''to_rt_uuid'' (fst from_rt_uuid) (snd from_rt_uuid);
          w = kv_id mp w ''from_rt_uuid'' node_id;
          w = cc_coder_encode_kv_str mp w ''cmd'' ''TUNNEL_DATA'' 11;
          w = cc_coder_encode_kv_str mp w ''tunnel_id'' (fst tunnel_id) (snd tunnel_id);
          w = cc_coder_encode_kv_map mp w ''value'' 2;
          w = cc_coder_encode_kv_str mp w ''cmd'' ''DESTROY_REPLY'' 13
      in cc_coder_encode_kv_uint mp w ''value'' 200)"

definition proto_parse_destroy :: "mp \<Rightarrow> bytes \<Rightarrow> world \<Rightarrow> (cc_result \<times> world) option" where
  "proto_parse_destroy mp root w =
     must (cc_coder_decode_string_from_map mp root ''from_rt_uuid'') (Some (CC_FAIL, w)) (\<lambda>from_rt_uuid.
     must (cc_coder_decode_string_from_map mp root ''tunnel_id'') (Some (CC_FAIL, w)) (\<lambda>tunnel_id.
     must (cc_coder_get_value_from_map mp root ''value'') (Some (CC_FAIL, w)) (\<lambda>obj_value.
     must (cc_coder_decode_string_from_map mp obj_value ''method'') (Some (CC_FAIL, w)) (\<lambda>(method, method_len).
       let w = w\<lparr>n_state := CC_NODE_STOP, n_stop_method :=
                   (if strncmp0 method ''/migrate'' 8 then CC_NODE_STOP_MIGRATE else CC_NODE_STOP_CLEAN)\<rparr>
       in proto_send 400 (msg_destroy_reply mp (n_id w) from_rt_uuid tunnel_id) w))))"

definition parse_tunnel_reply :: "ext \<Rightarrow> bytes \<Rightarrow> bytes \<Rightarrow> world \<Rightarrow> (cc_result \<times> world) option" where
  "parse_tunnel_reply x root value w =
     must (cc_coder_decode_string_from_map (x_mp x) value ''msg_uuid'') (Some (CC_FAIL, w)) (\<lambda>(tmp, msg_uuid_len). do {
       msg_uuid \<leftarrow> strncpy_term CC_UUID_BUFFER_SIZE tmp (unat msg_uuid_len);
       case cc_node_get_pending_msg w msg_uuid of
         None \<Rightarrow> Some (CC_FAIL, w)
       | Some pending_msg \<Rightarrow> handle_pending x root msg_uuid pending_msg w })"

definition parse_tunnel_cmd :: "mp \<Rightarrow> bytes \<Rightarrow> bytes \<Rightarrow> world \<Rightarrow> (cc_result \<times> world) option" where
  "parse_tunnel_cmd mp root value w =
     must (cc_coder_decode_string_from_map mp value ''cmd'') (Some (CC_FAIL, w)) (\<lambda>(cmd, cmd_len).
       if strncmp0 cmd ''TOKEN_REPLY'' 11 then proto_parse_token_reply mp root w
       else if strncmp0 cmd ''TOKEN'' 5 then proto_parse_token mp root w
       else if strncmp0 cmd ''DESTROY'' 7 then proto_parse_destroy mp root w
       else Some (CC_FAIL, w))"

definition cc_proto_parse_tunnel_data :: "ext \<Rightarrow> bytes \<Rightarrow> world \<Rightarrow> (cc_result \<times> world) option" where
  "cc_proto_parse_tunnel_data x root w =
     must (cc_coder_get_value_from_map (x_mp x) root ''value'') (Some (CC_FAIL, w)) (\<lambda>value. do {
       reply \<leftarrow> cc_coder_has_key (x_mp x) value ''msg_uuid'';
       if reply then parse_tunnel_reply x root value w
       else do {
         has_cmd \<leftarrow> cc_coder_has_key (x_mp x) value ''cmd'';
         if has_cmd then parse_tunnel_cmd (x_mp x) root value w else Some (CC_FAIL, w) } })"

section \<open>Actors\<close>

text \<open>The sender of a request and the identifier of the message, which is copied into a buffer of its own.\<close>

definition request_head :: "mp \<Rightarrow> bytes \<Rightarrow> ((bytes \<times> u32) \<times> bytes) option option" where
  "request_head mp root =
     must (cc_coder_decode_string_from_map mp root ''from_rt_uuid'') (Some None) (\<lambda>from_rt_uuid.
     must (cc_coder_decode_string_from_map mp root ''msg_uuid'') (Some None) (\<lambda>(tmp, msg_uuid_len). do {
       msg_uuid \<leftarrow> strncpy_term CC_UUID_BUFFER_SIZE tmp (unat msg_uuid_len);
       Some (Some (from_rt_uuid, msg_uuid)) }))"

definition send_status :: "mp \<Rightarrow> (bytes \<times> u32) \<times> bytes \<Rightarrow> u32 \<Rightarrow> world \<Rightarrow> (cc_result \<times> world) option" where
  "send_status mp head status w = proto_send_reply mp (snd head) (fst (fst head)) (snd (fst head)) status w"

definition cc_proto_parse_actor_new :: "ext \<Rightarrow> bytes \<Rightarrow> world \<Rightarrow> (cc_result \<times> world) option" where
  "cc_proto_parse_actor_new x root w =
     must (request_head (x_mp x) root) (Some (CC_FAIL, w)) (\<lambda>head. do {
       (actor, w) \<leftarrow> cc_actor_create x root w;
       send_status (x_mp x) head (if actor \<noteq> None then 200 else 500) w })"

text \<open>The requirements of the deployment followed by those of the actor, in a buffer of 1000 bytes.\<close>

fun copy_reqs :: "mp \<Rightarrow> bytes \<Rightarrow> u32 \<Rightarrow> nat \<Rightarrow> bytes \<Rightarrow> bytes option option" where
  "copy_reqs mp deploy_reqs i 0 w = Some (Some w)"
| "copy_reqs mp deploy_reqs i (Suc n) w =
     must (cc_coder_get_value_from_array mp deploy_reqs i) (Some None) (\<lambda>req. do {
       sz \<leftarrow> cc_coder_get_size_of_value mp req;
       copy_reqs mp deploy_reqs (i + 1) n (w @ take sz req) })"

definition encode_requires :: "mp \<Rightarrow> bytes \<Rightarrow> unit cc_list \<Rightarrow> bytes" where
  "encode_requires mp w requires =
     (let w = cc_coder_encode_map mp w 3;
          w = cc_coder_encode_kv_str mp w ''op'' ''actor_reqs_match'' 16;
          w = cc_coder_encode_kv_str mp w ''type'' ''+'' 1;
          w = cc_coder_encode_kv_map mp w ''kwargs'' 1;
          w = cc_coder_encode_kv_array mp w ''requires'' (cc_list_count requires)
      in foldl (\<lambda>w item. cc_coder_encode_str mp w (li_id item) (of_nat (strlen (li_id item)))) w requires)"

definition cc_proto_send_req_match_with_actor_reqs ::
  "mp \<Rightarrow> cc_actor \<Rightarrow> bytes \<Rightarrow> unit cc_list \<Rightarrow> world \<Rightarrow> (cc_result \<times> world) option" where
  "cc_proto_send_req_match_with_actor_reqs mp actor deploy_reqs requires w = do {
     nbr_of_reqs \<leftarrow> cc_coder_get_size_of_array mp deploy_reqs;
     must (copy_reqs mp deploy_reqs 0 (unat nbr_of_reqs) (cc_coder_encode_array mp [] (nbr_of_reqs + 1))) (Some (CC_FAIL, w)) (\<lambda>b.
       let b = encode_requires mp b requires
       in if length b > 1000 then None
          else cc_proto_send_req_match mp actor (Some b) (length b) cc_actor_req_match_reply_handler w) }"

text \<open>The requirements an actor's type names, if it has a function for them.\<close>

definition actor_requires :: "ext \<Rightarrow> addr \<Rightarrow> world \<Rightarrow> (cc_result \<times> unit cc_list \<times> world) option" where
  "actor_requires x a w = do {
     actor \<leftarrow> h_actors w a;
     case a_impl actor of None \<Rightarrow> Some (CC_SUCCESS, [], w)
     | Some impl \<Rightarrow> (case ac_get_requires (x_actors x impl) of None \<Rightarrow> Some (CC_SUCCESS, [], w) | Some f \<Rightarrow> f a w) }"

text \<open>A reply whose result is not looked at, and the failure that follows it.\<close>

definition refuse :: "mp \<Rightarrow> (bytes \<times> u32) \<times> bytes \<Rightarrow> u32 \<Rightarrow> world \<Rightarrow> (cc_result \<times> world) option" where
  "refuse mp head status w = do { (r, w) \<leftarrow> send_status mp head status w; Some (CC_FAIL, w) }"

text \<open>Moving an actor to the runtime the request names, or to one that satisfies the requirements.\<close>

definition migrate_to_peer :: "ext \<Rightarrow> (bytes \<times> u32) \<times> bytes \<Rightarrow> bytes \<Rightarrow> addr \<Rightarrow> world \<Rightarrow> (cc_result \<times> world) option" where
  "migrate_to_peer x head root a w =
     must (cc_coder_decode_string_from_map (x_mp x) root ''peer_node_id'') (refuse (x_mp x) head 500 w) (\<lambda>(peer, peer_len). do {
       (r, w) \<leftarrow> cc_actor_migrate x a peer peer_len w;
       send_status (x_mp x) head (if r = CC_SUCCESS then 200 else 500) w })"

definition migrate_by_reqs :: "ext \<Rightarrow> (bytes \<times> u32) \<times> bytes \<Rightarrow> bytes \<Rightarrow> addr \<Rightarrow> world \<Rightarrow> (cc_result \<times> world) option" where
  "migrate_by_reqs x head root a w =
     must (cc_coder_get_value_from_map (x_mp x) root ''requirements'') (refuse (x_mp x) head 400 w) (\<lambda>requirements. do {
       (r, requires, w) \<leftarrow> actor_requires x a w;
       if r \<noteq> CC_SUCCESS then refuse (x_mp x) head 500 w
       else do {
         actor \<leftarrow> h_actors w a;
         (r, w) \<leftarrow> (if requires = [] then do {
                       n \<leftarrow> cc_coder_get_size_of_value (x_mp x) requirements;
                       cc_proto_send_req_match (x_mp x) actor (Some requirements) n cc_actor_req_match_reply_handler w }
                     else cc_proto_send_req_match_with_actor_reqs (x_mp x) actor requirements requires w);
         send_status (x_mp x) head (if r = CC_SUCCESS then 200 else 500) w } })"

definition cc_proto_parse_actor_migrate :: "ext \<Rightarrow> bytes \<Rightarrow> world \<Rightarrow> (cc_result \<times> world) option" where
  "cc_proto_parse_actor_migrate x root w =
     must (request_head (x_mp x) root) (Some (CC_FAIL, w)) (\<lambda>head.
     must (cc_coder_decode_string_from_map (x_mp x) root ''actor_id'') (refuse (x_mp x) head 400 w) (\<lambda>(actor_id, actor_id_len).
       case cc_actor_get actor_id actor_id_len w of
         None \<Rightarrow> refuse (x_mp x) head 404 w
       | Some a \<Rightarrow> do {
           has_peer \<leftarrow> cc_coder_has_key (x_mp x) root ''peer_node_id'';
           if has_peer then migrate_to_peer x head root a w else migrate_by_reqs x head root a w }))"

fun destroy_loop :: "ext \<Rightarrow> bytes \<Rightarrow> u32 \<Rightarrow> nat \<Rightarrow> world \<Rightarrow> (cc_result \<times> world) option" where
  "destroy_loop x obj_actor_uuids i 0 w = Some (CC_SUCCESS, w)"
| "destroy_loop x obj_actor_uuids i (Suc n) w =
     must (cc_coder_decode_string_from_array (x_mp x) obj_actor_uuids i) (Some (CC_FAIL, w)) (\<lambda>(actor_id, actor_id_len). do {
       w \<leftarrow> (case cc_actor_get actor_id actor_id_len w of None \<Rightarrow> Some w | Some a \<Rightarrow> cc_actor_free x (Some a) True w);
       destroy_loop x obj_actor_uuids (i + 1) n w })"

definition cc_proto_parse_app_destroy :: "ext \<Rightarrow> bytes \<Rightarrow> world \<Rightarrow> (cc_result \<times> world) option" where
  "cc_proto_parse_app_destroy x root w =
     must (request_head (x_mp x) root) (Some (CC_FAIL, w)) (\<lambda>head.
     must (cc_coder_get_value_from_map (x_mp x) root ''actor_uuids'') (Some (CC_FAIL, w)) (\<lambda>obj_actor_uuids. do {
       n \<leftarrow> cc_coder_get_size_of_array (x_mp x) obj_actor_uuids;
       (r, w) \<leftarrow> destroy_loop x obj_actor_uuids 0 (unat n) w;
       send_status (x_mp x) head (if r = CC_SUCCESS then 200 else 500) w }))"

section \<open>Ports and tunnels\<close>

definition cc_proto_parse_port_disconnect :: "mp \<Rightarrow> bytes \<Rightarrow> world \<Rightarrow> (cc_result \<times> world) option" where
  "cc_proto_parse_port_disconnect mp root w =
     must (cc_coder_decode_string_from_map mp root ''from_rt_uuid'') (Some (CC_FAIL, w)) (\<lambda>(from_rt_uuid, from_rt_uuid_len).
     must (cc_coder_decode_string_from_map mp root ''msg_uuid'') (Some (CC_FAIL, w)) (\<lambda>(msg_uuid, msg_uuid_len).
     must (cc_coder_decode_string_from_map mp root ''peer_port_id'') (Some (CC_FAIL, w)) (\<lambda>(peer_port_id, peer_port_id_len). do {
       (r, w) \<leftarrow> cc_port_handle_disconnect mp peer_port_id peer_port_id_len w;
       cc_proto_send_port_disconnect_reply mp msg_uuid msg_uuid_len from_rt_uuid from_rt_uuid_len
         (if r = CC_SUCCESS then 200 else 500) w })))"

definition cc_proto_parse_port_connect :: "mp \<Rightarrow> bytes \<Rightarrow> world \<Rightarrow> (cc_result \<times> world) option" where
  "cc_proto_parse_port_connect mp root w =
     must (cc_coder_decode_string_from_map mp root ''from_rt_uuid'') (Some (CC_FAIL, w)) (\<lambda>(from_rt_uuid, from_rt_uuid_len).
     must (cc_coder_decode_string_from_map mp root ''msg_uuid'') (Some (CC_FAIL, w)) (\<lambda>(msg_uuid, msg_uuid_len).
     must (cc_coder_decode_string_from_map mp root ''peer_port_id'') (Some (CC_FAIL, w)) (\<lambda>(peer_port_id, peer_port_id_len).
     must (cc_coder_decode_string_from_map mp root ''tunnel_id'') (Some (CC_FAIL, w)) (\<lambda>(tunnel_id, tunnel_id_len). do {
       (r, w) \<leftarrow> cc_port_handle_connect mp peer_port_id peer_port_id_len tunnel_id tunnel_id_len w;
       cc_proto_send_port_connect_reply mp msg_uuid msg_uuid_len from_rt_uuid from_rt_uuid_len
         (if r = CC_SUCCESS then 200 else 404) peer_port_id peer_port_id_len w }))))"

text \<open>The link to the sender, made when there is none. A tunnel type other than token gives no link.\<close>

definition tunnel_new_link :: "bytes \<Rightarrow> bytes \<Rightarrow> u32 \<Rightarrow> world \<Rightarrow> (addr option \<times> world) option" where
  "tunnel_new_link ty from_rt_uuid from_rt_uuid_len w =
     (if \<not> strncmp0 ty ''token'' 5 then Some (None, w)
      else do {
        l \<leftarrow> cc_link_get from_rt_uuid from_rt_uuid_len w;
        case l of Some link \<Rightarrow> Some (Some link, w)
        | None \<Rightarrow> cc_link_create from_rt_uuid from_rt_uuid_len False w })"

definition cc_proto_parse_tunnel_new :: "mp \<Rightarrow> bytes \<Rightarrow> world \<Rightarrow> (cc_result \<times> world) option" where
  "cc_proto_parse_tunnel_new mp root w =
     must (cc_coder_decode_string_from_map mp root ''from_rt_uuid'') (Some (CC_FAIL, w)) (\<lambda>(from_rt_uuid, from_rt_uuid_len).
     must (cc_coder_decode_string_from_map mp root ''msg_uuid'') (Some (CC_FAIL, w)) (\<lambda>(msg_uuid, msg_uuid_len).
     must (cc_coder_decode_string_from_map mp root ''type'') (Some (CC_FAIL, w)) (\<lambda>(ty, type_len).
     must (cc_coder_decode_string_from_map mp root ''tunnel_id'') (Some (CC_FAIL, w)) (\<lambda>(tunnel_id, tunnel_id_len). do {
       (link, w) \<leftarrow> tunnel_new_link ty from_rt_uuid from_rt_uuid_len w;
       (r, w) \<leftarrow> (if link = None then Some (CC_FAIL, w)
                  else cc_tunnel_handle_tunnel_new_request mp from_rt_uuid from_rt_uuid_len tunnel_id tunnel_id_len w);
       w \<leftarrow> (if r = CC_SUCCESS then Some w else cc_link_remove_ref link w);
       proto_send_tunnel_new_reply mp msg_uuid msg_uuid_len from_rt_uuid from_rt_uuid_len
         (if r = CC_SUCCESS then 200 else 500) tunnel_id tunnel_id_len w }))))"

section \<open>The message\<close>

text \<open>
  The reply to a join request is JSON text. The identifier of the peer is copied into a buffer that was
  cleared; one that fills the buffer leaves no terminator, a fault.
\<close>

definition proto_handle_join_reply :: "ext \<Rightarrow> bytes \<Rightarrow> u32 \<Rightarrow> world \<Rightarrow> (cc_result \<times> world) option" where
  "proto_handle_join_reply x buffer buffer_len w = (case x_jsmn x buffer (unat buffer_len) 10 of
     None \<Rightarrow> Some (CC_FAIL, w)
   | Some tokens \<Rightarrow>
       must (cc_json_get_dict_value buffer tokens ''serializer'' 10) (Some (CC_FAIL, w)) (\<lambda>ts. do {
         token \<leftarrow> (case ts of [] \<Rightarrow> None | t # _ \<Rightarrow> Some t);
         case cc_coder_get_name w of
           (None, w) \<Rightarrow> Some (CC_FAIL, w)
         | (Some serializer, w) \<Rightarrow>
             if strlen serializer \<noteq> jend token - jstart token
                \<or> \<not> strncmp0 serializer (drop (jstart token) buffer) (strlen serializer) then Some (CC_FAIL, w)
             else must (cc_json_get_dict_value buffer tokens ''id'' 2) (Some (CC_FAIL, w)) (\<lambda>ts. do {
               token \<leftarrow> (case ts of [] \<Rightarrow> None | t # _ \<Rightarrow> Some t);
               tc \<leftarrow> n_transport_client w;
               peer_id \<leftarrow> strncpy_over CC_UUID_BUFFER_SIZE [] (drop (jstart token) buffer) (jend token - jstart token);
               Some (CC_SUCCESS, w\<lparr>n_transport_client := Some (tc\<lparr>tc_peer_id := peer_id, tc_state := CC_TRANSPORT_ENABLED\<rparr>)\<rparr>) }) }))"

text \<open>
  The table of commands: eight of its nine entries are set, the last one is an empty name and a null pointer.
  An entry matches when the first \<open>cmd_len\<close> characters agree.
\<close>

datatype command =
    Cmd_reply | Cmd_tunnel_data | Cmd_actor_new | Cmd_app_destroy | Cmd_port_disconnect | Cmd_port_connect
  | Cmd_tunnel_new | Cmd_actor_migrate | Cmd_null

definition command_handlers :: "(bytes \<times> command) list" where
  "command_handlers =
     [(''REPLY'', Cmd_reply), (''TUNNEL_DATA'', Cmd_tunnel_data), (''ACTOR_NEW'', Cmd_actor_new),
      (''APP_DESTROY'', Cmd_app_destroy), (''PORT_DISCONNECT'', Cmd_port_disconnect), (''PORT_CONNECT'', Cmd_port_connect),
      (''TUNNEL_NEW'', Cmd_tunnel_new), (''ACTOR_MIGRATE'', Cmd_actor_migrate), ([], Cmd_null)]"

definition find_command :: "bytes \<Rightarrow> u32 \<Rightarrow> command option" where
  "find_command cmd cmd_len = map_option snd (find (\<lambda>(name, h). strncmp0 cmd name (unat cmd_len)) command_handlers)"

definition run_command :: "ext \<Rightarrow> command \<Rightarrow> bytes \<Rightarrow> world \<Rightarrow> (cc_result \<times> world) option" where
  "run_command x c data w = (case c of
     Cmd_reply \<Rightarrow> cc_proto_parse_reply x data w
   | Cmd_tunnel_data \<Rightarrow> cc_proto_parse_tunnel_data x data w
   | Cmd_actor_new \<Rightarrow> cc_proto_parse_actor_new x data w
   | Cmd_app_destroy \<Rightarrow> cc_proto_parse_app_destroy x data w
   | Cmd_port_disconnect \<Rightarrow> cc_proto_parse_port_disconnect (x_mp x) data w
   | Cmd_port_connect \<Rightarrow> cc_proto_parse_port_connect (x_mp x) data w
   | Cmd_tunnel_new \<Rightarrow> cc_proto_parse_tunnel_new (x_mp x) data w
   | Cmd_actor_migrate \<Rightarrow> cc_proto_parse_actor_migrate x data w
   | Cmd_null \<Rightarrow> None)"

text \<open>A command that no entry matches is answered with 500.\<close>

definition unhandled_command :: "mp \<Rightarrow> bytes \<Rightarrow> world \<Rightarrow> (cc_result \<times> world) option" where
  "unhandled_command mp data w =
     must (cc_coder_decode_string_from_map mp data ''msg_uuid'') (Some (CC_FAIL, w)) (\<lambda>(tmp, msg_uuid_len). do {
       msg_uuid \<leftarrow> strncpy_term CC_UUID_BUFFER_SIZE tmp (unat msg_uuid_len);
       must (cc_coder_decode_string_from_map mp data ''from_rt_uuid'') (Some (CC_FAIL, w)) (\<lambda>(from_rt_uuid, from_rt_uuid_len).
         proto_send_reply mp msg_uuid from_rt_uuid from_rt_uuid_len 500 w) })"

definition cc_proto_parse_message :: "ext \<Rightarrow> bytes \<Rightarrow> nat \<Rightarrow> world \<Rightarrow> (cc_result \<times> world) option" where
  "cc_proto_parse_message x data data_len w = do {
     tc \<leftarrow> n_transport_client w;
     if tc_state tc \<noteq> CC_TRANSPORT_ENABLED then proto_handle_join_reply x data (of_nat data_len) w
     else must (cc_coder_decode_string_from_map (x_mp x) data ''cmd'') (Some (CC_FAIL, w)) (\<lambda>(cmd, cmd_len).
       case find_command cmd cmd_len of
         Some c \<Rightarrow> run_command x c data w
       | None \<Rightarrow> unhandled_command (x_mp x) data w) }"

section \<open>Messages as values\<close>

text \<open>
  In MessagePack a byte below 128 is an unsigned integer of its own, so no string starts with a letter, a digit
  or an underscore. The protocol relies on it: it compares a command with \<open>TOKEN_REPLY\<close> beyond its end.
\<close>

locale msgpuck_types = msgpuck +
  assumes fixint: "of_char c < (128 :: nat) \<Longrightarrow> mp_typeof mp c = MP_UINT"

interpretation ref: msgpuck_types mp_ref
  by unfold_locales (simp add: mp_ref_def tag_type_def)

context msgpuck
begin

lemma value_at:
  assumes "points_to mp (MMap kvs) p" and "key_clear key kvs" and "no_nul key" and "length key < 2 ^ 32"
    and "map_of kvs (MStr key) = Some v"
  shows "\<exists>q. cc_coder_get_value_from_map mp p key = Some (Some q) \<and> points_to mp v q"
  using assms map_lookups(3)[OF _ assms(2-4)] by (auto simp: points_to_def finds_def simp del: enc.simps)

lemma str_at:
  assumes "points_to mp (MMap kvs) p" and "key_clear key kvs" and "no_nul key" and "length key < 2 ^ 32"
    and "map_of kvs (MStr key) = Some (MStr s)"
  shows "\<exists>r. cc_coder_decode_string_from_map mp p key = Some (Some (s @ r, of_nat (length s)))"
  using assms string_from_map_enc[OF _ assms(2-5)] by (auto simp: points_to_def simp del: enc.simps)

lemma uint_at:
  assumes "points_to mp (MMap kvs) p" and "key_clear key kvs" and "no_nul key" and "length key < 2 ^ 32"
    and "map_of kvs (MStr key) = Some (MUint n)"
  shows "cc_coder_decode_uint_from_map mp p key = Some (Some (ucast n))"
  using assms uint_from_map_enc(1)[OF _ assms(2-5)] by (auto simp: points_to_def simp del: enc.simps)

lemma has_at:
  assumes "points_to mp (MMap kvs) p" and "key_clear key kvs" and "no_nul key" and "length key < 2 ^ 32"
  shows "cc_coder_has_key mp p key = Some (map_of kvs (MStr key) \<noteq> None)"
  using assms has_key_enc[OF _ assms(2-4)] by (auto simp: points_to_def simp del: enc.simps)

lemma first_at:
  assumes "points_to mp (MMap ((MStr k, MStr s) # kvs)) p" and "no_nul k"
  shows "\<exists>rest. cc_coder_decode_string_from_map mp p k = Some (Some (s @ enc_pairs mp kvs @ rest, of_nat (length s)))"
proof -
  obtain rest where p: "p = enc mp (MMap ((MStr k, MStr s) # kvs)) @ rest" and wf: "wf_mpv (MMap ((MStr k, MStr s) # kvs))"
    using assms(1) by (auto simp: points_to_def)
  have l: "length k < 2 ^ 32" "wf_mpv (MStr s)" and ps: "wf_pairs ((MStr k, MStr s) # kvs)"
    and len: "length ((MStr k, MStr s) # kvs) < 2 ^ 32"
    using wf by simp_all
  have "strncmp0 (k @ r) k (length k)" for r using assms(2) by (simp add: strncmp0_append_left)
  then show ?thesis using l
    by (auto simp: p cc_coder_decode_string_from_map_def in_map_enc[OF len ps] find_step[OF l] decode_str_enc
        simp del: enc.simps map_find_skip.simps)
qed

end

context msgpuck_types
begin

lemma str_header: "wf_mpv (MStr s) \<Longrightarrow> first_char (enc mp (MStr s) @ r) \<noteq> CHR ''_''"
  using type_at_enc[of "MStr s" r] fixint[of "CHR ''_''"]
  by (cases "enc mp (MStr s) @ r") (auto simp: type_at_def simp del: enc.simps)

end

lemma find_tunnel_data: "find_command (''TUNNEL_DATA'' @ r) 11 = Some Cmd_tunnel_data"
  by (simp add: find_command_def command_handlers_def)

lemma wf_tunnel_data [simp]: "wf_mpv (tunnel_data_v to_rt from_rt tid v) = wf_mpv v"
  by (simp add: tunnel_data_v_def)

lemma idv_id [simp]: "no_nul s \<Longrightarrow> length s \<le> CC_UUID_BUFFER_SIZE \<Longrightarrow> idv s = MStr s"
  by (simp add: idv_def)

section \<open>Properties\<close>

text \<open>
  C24: how a message finds its handler. The command is compared over its own length only, so each name of the table
  finds its own handler, and so does every beginning of a name that is no beginning of an earlier one: \<open>T\<close> is taken for
  tunnel data and the empty command for a reply. A command that is no beginning of a name has no handler, except that a
  command that starts with the terminator matches the entry that was never set: the null pointer is called.
\<close>

theorem command_dispatch:
  assumes "length cmd < 2 ^ 32"
  shows "(no_nul cmd \<longrightarrow> find_command (cmd @ rest) (of_nat (length cmd)) = map_option snd (find (\<lambda>(name, h). prefix cmd name) command_handlers))
    \<and> (\<forall>(name, h) \<in> set (butlast command_handlers). find_command (name @ rest) (of_nat (length name)) = Some h)
    \<and> (cmd \<noteq> [] \<and> hd cmd = NUL \<longrightarrow> find_command (cmd @ rest) (of_nat (length cmd)) = Some Cmd_null \<and> run_command x Cmd_null data w = None)"
proof -
  have eq: "find_command (c @ rest) (of_nat (length c)) = map_option snd (find (\<lambda>(name, h). prefix c name) command_handlers)"
    if "no_nul c" "length c < 2 ^ 32" for c
    using that by (auto simp: find_command_def strncmp0_append_left strncmp0_prefix_right intro!: arg_cong[of _ _ "map_option snd"] find_cong)
  have "list_all (\<lambda>(name, h). no_nul name \<and> length name < 2 ^ 32 \<and> find (\<lambda>(n, h). prefix name n) command_handlers = Some (name, h))
      (butlast command_handlers)"
    by (simp add: command_handlers_def)
  then have "find_command (name @ rest) (of_nat (length name)) = Some h" if "(name, h) \<in> set (butlast command_handlers)" for name h
    using that eq by (fastforce simp: list_all_iff)
  moreover have "find_command (cmd @ rest) (of_nat (length cmd)) = Some Cmd_null" if "cmd \<noteq> []" "hd cmd = NUL"
  proof -
    from that obtain c where c: "cmd = NUL # c" by (cases cmd) auto
    then have "unat (of_nat (length cmd) :: u32) = Suc (length c)" using assms by (subst unat_of_nat_u32) simp_all
    then show ?thesis unfolding find_command_def by (simp add: c command_handlers_def)
  qed
  ultimately show ?thesis using assms eq by (auto simp: run_command_def)
qed

theorem command_dispatch_witness:
  "find_command (''TUNNEL_'' @ ''x'') 7 = Some Cmd_tunnel_data \<and> find_command ''PORT_CONNECT'' 12 = Some Cmd_port_connect"
  using command_dispatch[of "''TUNNEL_''" "''x''"] command_dispatch[of "''TUNNEL_''" "[]"]
  by (simp add: command_handlers_def)

end
