(* ===== verification/Token_Flow.thy ===== *)
theory Token_Flow
  imports Proto_Parse
begin

text \<open>
  A token between two runtimes: the message that an out port sends, what the receiver makes of it and what the
  sender makes of the answer. The messages are read as values of the MessagePack format, so the parser of one runtime is
  composed with the sending functions of the other.
\<close>

text \<open>The values of the messages about tokens.\<close>

definition token_v :: "u32 \<Rightarrow> bytes \<Rightarrow> bytes \<Rightarrow> mpv \<Rightarrow> (mpv \<times> mpv) list" where
  "token_v seq port_id peer_port_id v =
     [(MStr ''cmd'', MStr ''TOKEN''), (MStr ''sequencenbr'', MUint (ucast seq)), (MStr ''port_id'', MStr port_id),
      (MStr ''peer_port_id'', MStr peer_port_id), (MStr ''token'', MMap [(MStr ''type'', MStr ''Token''), (MStr ''data'', v)])]"

definition token_reply_v :: "u32 \<Rightarrow> bytes \<Rightarrow> bytes \<Rightarrow> bool \<Rightarrow> (mpv \<times> mpv) list" where
  "token_reply_v seq peer_port_id port_id ack =
     [(MStr ''cmd'', MStr ''TOKEN_REPLY''), (MStr ''sequencenbr'', MUint (ucast seq)),
      (MStr ''peer_port_id'', MStr peer_port_id), (MStr ''port_id'', MStr port_id),
      (MStr ''value'', MStr (if ack then ''ACK'' else ''NACK''))]"

context msgpuck
begin

lemma kv_take_enc:
  assumes "no_nul key" and "length s < 2 ^ 32"
  shows "cc_coder_encode_kv_str mp w key (s @ r) (of_nat (length s)) = w @ enc mp (MStr key) @ enc mp (MStr s)"
  using kv_encodings(1)[OF assms(1), of "of_nat (length s)" "s @ r" w] assms(2) by (simp del: enc.simps)

lemma token_reply_enc:
  assumes "length tid < 2 ^ 32" "length port < 2 ^ 32" "length peer < 2 ^ 32" and "idv to_rt = MStr s" and "idv tid0 = MStr tid"
  shows "msg_token_reply mp node (s @ r1, of_nat (length s)) (tid @ r2, of_nat (length tid)) seq
       (port @ r3, of_nat (length port)) (peer @ r4, of_nat (length peer)) ack
     = enc mp (tunnel_data_v to_rt node tid0 (MMap (token_reply_v seq port peer ack)))"
proof -
  have "wf_mpv (MStr s)" using wf_idv[of to_rt] assms(4) by simp
  then have "length s < 2 ^ 32" by simp
  with assms show ?thesis
    by (simp add: msg_token_reply_def tunnel_data_v_def token_reply_v_def kv_take_enc msg_parts)
qed

lemma parse_tunnel_message:
  assumes "n_transport_client w = Some tc" "tc_state tc = CC_TRANSPORT_ENABLED" and "x_mp x = mp"
    and "wf_mpv (MMap ((MStr ''cmd'', MStr c) # kvs))" and "key_clear ''msg_uuid'' kvs" and "map_of kvs (MStr ''msg_uuid'') = None"
    and "key_clear ''cmd'' kvs"
  shows "\<exists>rest. cc_proto_parse_message x (enc mp (tunnel_data_v to_rt from_rt tid (MMap ((MStr ''cmd'', MStr c) # kvs)))) n w
     = (let root = enc mp (tunnel_data_v to_rt from_rt tid (MMap ((MStr ''cmd'', MStr c) # kvs))); cmd = c @ enc_pairs mp kvs @ rest in
        if strncmp0 cmd ''TOKEN_REPLY'' 11 then proto_parse_token_reply mp root w
        else if strncmp0 cmd ''TOKEN'' 5 then proto_parse_token mp root w
        else if strncmp0 cmd ''DESTROY'' 7 then proto_parse_destroy mp root w
        else Some (CC_FAIL, w))"
proof -
  let ?v = "MMap ((MStr ''cmd'', MStr c) # kvs)"
  let ?root = "enc mp (tunnel_data_v to_rt from_rt tid ?v)"
  have root: "points_to mp (tunnel_data_v to_rt from_rt tid ?v) ?root" using assms(4) by (simp add: points_to_def)
  note R = root[unfolded tunnel_data_v_def]
  obtain r where cmd: "cc_coder_decode_string_from_map mp ?root ''cmd'' = Some (Some (''TUNNEL_DATA'' @ r, 11))"
    using str_at[OF R, of "''cmd''" "''TUNNEL_DATA''"] by (auto simp: idv_def tunnel_data_v_def simp del: enc.simps)
  obtain q where val: "cc_coder_get_value_from_map mp ?root ''value'' = Some (Some q)" and q: "points_to mp ?v q"
    using value_at[OF R, of "''value''"] by (auto simp: idv_def tunnel_data_v_def simp del: enc.simps)
  have "cc_coder_has_key mp q ''msg_uuid'' = Some False" "cc_coder_has_key mp q ''cmd'' = Some True"
    using has_at[OF q, of "''msg_uuid''"] has_at[OF q, of "''cmd''"] assms(5-7) by auto
  moreover obtain rest where "cc_coder_decode_string_from_map mp q ''cmd'' = Some (Some (c @ enc_pairs mp kvs @ rest, of_nat (length c)))"
    using first_at[OF q] by auto
  ultimately have "cc_proto_parse_tunnel_data x ?root w
     = (let root = ?root; cmd = c @ enc_pairs mp kvs @ rest in
        if strncmp0 cmd ''TOKEN_REPLY'' 11 then proto_parse_token_reply mp root w
        else if strncmp0 cmd ''TOKEN'' 5 then proto_parse_token mp root w
        else if strncmp0 cmd ''DESTROY'' 7 then proto_parse_destroy mp root w
        else Some (CC_FAIL, w))"
    using val assms(3) by (simp add: cc_proto_parse_tunnel_data_def parse_tunnel_cmd_def Let_def del: enc.simps strncmp0_numeral bind_Some_iff)
  then show ?thesis
    using assms(1-3) cmd
    by (intro exI[of _ rest]) (simp add: cc_proto_parse_message_def find_tunnel_data[unfolded append.simps] run_command_def del: enc.simps strncmp0_numeral bind_Some_iff)
qed

lemma decode_token:
  assumes "wf_mpv v" and "length port < 2 ^ 32" and "length peer < 2 ^ 32" and "idv from_rt = MStr s" and "idv tid0 = MStr tid"
  shows "\<exists>r1 r2 r3 r4 d. decode_token_msg mp (enc mp (tunnel_data_v to_rt from_rt tid0 (MMap (token_v seq peer port v))))
     = Some (Some \<lparr>tm_from_rt_uuid = (s @ r1, of_nat (length s)), tm_tunnel_id = (tid @ r2, of_nat (length tid)),
         tm_port_id = (port @ r3, of_nat (length port)), tm_peer_port_id = (peer @ r4, of_nat (length peer)),
         tm_sequencenbr = seq, tm_data = d\<rparr>) \<and> points_to mp v d"
proof -
  let ?root = "enc mp (tunnel_data_v to_rt from_rt tid0 (MMap (token_v seq peer port v)))"
  have root: "points_to mp (tunnel_data_v to_rt from_rt tid0 (MMap (token_v seq peer port v))) ?root"
    using assms(1-3) by (simp add: points_to_def token_v_def)
  note R = root[unfolded tunnel_data_v_def assms(4,5)]
  obtain r1 where 1: "cc_coder_decode_string_from_map mp ?root ''from_rt_uuid'' = Some (Some (s @ r1, of_nat (length s)))"
    using str_at[OF R, of "''from_rt_uuid''" s] by (auto simp: idv_def[of to_rt] tunnel_data_v_def assms(4,5) simp del: enc.simps)
  obtain r2 where 2: "cc_coder_decode_string_from_map mp ?root ''tunnel_id'' = Some (Some (tid @ r2, of_nat (length tid)))"
    using str_at[OF R, of "''tunnel_id''" tid] by (auto simp: idv_def[of to_rt] tunnel_data_v_def assms(4,5) simp del: enc.simps)
  obtain q where 3: "cc_coder_get_value_from_map mp ?root ''value'' = Some (Some q)" and q: "points_to mp (MMap (token_v seq peer port v)) q"
    using value_at[OF R, of "''value''"] by (auto simp: idv_def[of to_rt] tunnel_data_v_def assms(4,5) simp del: enc.simps)
  note Q = q[unfolded token_v_def]
  obtain r3 where 4: "cc_coder_decode_string_from_map mp q ''peer_port_id'' = Some (Some (port @ r3, of_nat (length port)))"
    using str_at[OF Q, of "''peer_port_id''" port] by auto
  obtain r4 where 5: "cc_coder_decode_string_from_map mp q ''port_id'' = Some (Some (peer @ r4, of_nat (length peer)))"
    using str_at[OF Q, of "''port_id''" peer] by auto
  have 6: "cc_coder_decode_uint_from_map mp q ''sequencenbr'' = Some (Some seq)"
    using uint_at[OF Q, of "''sequencenbr''" "ucast seq"] by (simp add: unsigned_ucast_eq)
  obtain t where 7: "cc_coder_get_value_from_map mp q ''token'' = Some (Some t)" and t: "points_to mp (MMap [(MStr ''type'', MStr ''Token''), (MStr ''data'', v)]) t"
    using value_at[OF Q, of "''token''"] by auto
  obtain d where 8: "cc_coder_get_value_from_map mp t ''data'' = Some (Some d)" and d: "points_to mp v d"
    using value_at[OF t, of "''data''" v] by auto
  show ?thesis using 1 2 3 4 5 6 7 8 d
    by (simp add: decode_token_msg_def del: enc.simps)
qed

lemma parse_token_reply:
  assumes "length port < 2 ^ 32" and "length peer < 2 ^ 32" 
  shows "\<exists>r. proto_parse_token_reply mp (enc mp (tunnel_data_v to_rt from_rt tid (MMap (token_reply_v seq peer port ack)))) w
     = map_option (Pair CC_SUCCESS) (cc_node_handle_token_reply (port @ r) (of_nat (length port))
         (if ack then CC_PORT_REPLY_TYPE_ACK else CC_PORT_REPLY_TYPE_NACK) seq w)"
proof -
  let ?root = "enc mp (tunnel_data_v to_rt from_rt tid (MMap (token_reply_v seq peer port ack)))"
  have root: "points_to mp (tunnel_data_v to_rt from_rt tid (MMap (token_reply_v seq peer port ack))) ?root"
    using assms by (simp add: points_to_def token_reply_v_def)
  obtain q where 1: "cc_coder_get_value_from_map mp ?root ''value'' = Some (Some q)" and q: "points_to mp (MMap (token_reply_v seq peer port ack)) q"
    using value_at[OF root[unfolded tunnel_data_v_def], of "''value''"] by (auto simp: idv_def tunnel_data_v_def simp del: enc.simps)
  note Q = q[unfolded token_reply_v_def]
  obtain r where 2: "cc_coder_decode_string_from_map mp q ''port_id'' = Some (Some (port @ r, of_nat (length port)))"
    using str_at[OF Q, of "''port_id''" port] by auto
  obtain r' where 3: "cc_coder_decode_string_from_map mp q ''value''
      = Some (Some ((if ack then ''ACK'' else ''NACK'') @ r', if ack then 3 else 4))"
    using str_at[OF Q, of "''value''" "if ack then ''ACK'' else ''NACK''"] by (cases ack) auto
  have 4: "cc_coder_decode_uint_from_map mp q ''sequencenbr'' = Some (Some seq)"
    using uint_at[OF Q, of "''sequencenbr''" "ucast seq"] by (simp add: unsigned_ucast_eq)
  show ?thesis using 1 2 3 4
    by (intro exI[of _ r]) (cases ack; simp add: proto_parse_token_reply_def Let_def del: enc.simps)
qed

end

text \<open>Looking up an identifier that stands in a message.\<close>

lemma strncmp0_append_right: "n \<le> length b \<Longrightarrow> strncmp0 a (b @ r) n = strncmp0 a b n"
  using strncmp0_append_left[of n b r a] by (simp add: strncmp0_sym[of a])

lemma get_n_append: "cc_list_get_n l (s @ r) (length s) = cc_list_get_n l s (length s)"
  by (induction l) (simp_all add: strncmp0_append_right)

lemma port_search_append: "port_search w l (s @ r) (length s) = port_search w l s (length s)"
  by (induction l) (simp_all add: get_n_append cong: option.case_cong)

lemma port_get_append:
  "length s < 2 ^ 32 \<Longrightarrow> cc_port_get (s @ r) (of_nat (length s)) w = cc_port_get s (of_nat (length s)) w"
  by (simp add: cc_port_get_def port_search_append)

lemma port_search_cong:
  "h_actors w' = h_actors w \<Longrightarrow> port_search w' l i n = port_search w l i n"
  by (induction l) (simp_all cong: option.case_cong)

text \<open>A message that was sent is the last frame of the environment.\<close>

lemma proto_send_frame:
  assumes "proto_send cap b w = Some (r, w')" and "n_transport_client w = Some tc" and "tc_prefix_len tc = 4"
  shows "env.more w' = env.more w \<and> e_sent w' = (if r = CC_SUCCESS then e_sent w @ [len_prefix (length b) @ b] else e_sent w)"
proof -
  have s: "cc_transport_send (Some tc) (replicate 4 NUL @ b) (4 + length b) w = Some (r, w')"
    using assms by (auto simp: proto_send_def Let_def split: if_splits)
  show ?thesis using transport_send_more[OF s] send_frame[of tc "replicate 4 NUL" b w w'] s by (auto split: if_splits)
qed

text \<open>The token message that \<open>port_send_token\<close> sends.\<close>

lemma with_fifo_sent:
  "with_fifo a op w = Some (r, w') \<Longrightarrow> e_sent w' = e_sent w \<and> n_transport_client w' = n_transport_client w"
  by (auto simp: with_fifo_def port_set_fifo_def upd_port_def)

lemma send_token_frame:
  assumes "msgpuck mp" and "h_ports w a = Some p" "p_tunnel p = Some c" "h_tunnels w c = Some t" "p_fifo p = Some f" "fifo_ok f"
    and "q_pend (fifo_abs f) = 0" "q_items (fifo_abs f) = tk # ts"
    and "tok_value tk = Some (enc mp v)" "tok_size tk = length (enc mp v)" "wf_mpv v"
    and "n_transport_client w = Some tc" "tc_prefix_len tc = 4"
    and "port_send_token mp a w = Some w'" "e_sent w' \<noteq> e_sent w"
  shows "\<exists>m. e_sent w' = e_sent w @ [len_prefix (length m) @ m] \<and> n_transport_client w' = n_transport_client w
     \<and> msg_token mp (n_id w) (t_id t) p tk (of_nat (q_base (fifo_abs f))) = Some m"
proof -
  obtain f1 where f1: "peek_token f = Some ((tk, f_tentative_read_pos f), f1)"
    using peek_token_ok[OF assms(6)] assms(7,8) by auto
  have seq: "f_tentative_read_pos f = of_nat (q_base (fifo_abs f))"
    using assms(6,7) by (simp add: fifo_abs_def fifo_ok_def word_unat_eq_iff)
  let ?w1 = "w\<lparr>h_ports := (h_ports w)(a \<mapsto> p\<lparr>p_fifo := Some f1\<rparr>)\<rparr>"
  have w1: "with_fifo a peek_token w = Some ((tk, f_tentative_read_pos f), ?w1)"
    using assms(2,5) f1 by (intro with_fifo_eq)
  have m: "msg_token mp i d (p\<lparr>p_fifo := Some f1\<rparr>) k s = msg_token mp i d p k s" for i d k s
    by (simp add: msg_token_def)
  obtain r w2 where t: "cc_proto_send_token mp (p\<lparr>p_fifo := Some f1\<rparr>) tk (f_tentative_read_pos f) ?w1 = Some (r, w2)"
      "e_sent w' = e_sent w2 \<and> n_transport_client w' = n_transport_client w2"
    using assms(2,3,14) w1 by (auto simp: port_send_token_def split: if_splits dest: with_fifo_sent)
  from t(1) assms(3,4) obtain b where s: "msg_token mp (n_id w) (t_id t) p tk (f_tentative_read_pos f) = Some b" "proto_send 1000 b ?w1 = Some (r, w2)"
    by (auto simp: cc_proto_send_token_def get_tunnel_def m)
  from proto_send_frame[OF s(2)] node_eqD(17)[of w2 ?w1] s(1) t(2) assms(12,13,15) show ?thesis
    by (auto simp: seq split: if_splits)
qed

context msgpuck_types
begin

lemma parse_token_message:
  assumes "n_transport_client w = Some tc" "tc_state tc = CC_TRANSPORT_ENABLED" and "x_mp x = mp"
    and "wf_mpv v" "length port < 2 ^ 32" "length peer < 2 ^ 32"
  shows "cc_proto_parse_message x (enc mp (tunnel_data_v to_rt from_rt tid (MMap (token_v seq peer port v)))) n w
     = proto_parse_token mp (enc mp (tunnel_data_v to_rt from_rt tid (MMap (token_v seq peer port v)))) w"
proof -
  have wf: "wf_mpv (MMap (token_v seq peer port v))" using assms(4-6) by (simp add: token_v_def)
  obtain rest where r: "cc_proto_parse_message x (enc mp (tunnel_data_v to_rt from_rt tid (MMap (token_v seq peer port v)))) n w
     = (let root = enc mp (tunnel_data_v to_rt from_rt tid (MMap (token_v seq peer port v)));
            cmd = ''TOKEN'' @ enc_pairs mp (tl (token_v seq peer port v)) @ rest in
        if strncmp0 cmd ''TOKEN_REPLY'' 11 then proto_parse_token_reply mp root w
        else if strncmp0 cmd ''TOKEN'' 5 then proto_parse_token mp root w
        else if strncmp0 cmd ''DESTROY'' 7 then proto_parse_destroy mp root w
        else Some (CC_FAIL, w))"
    using parse_tunnel_message[OF assms(1-3) wf[unfolded token_v_def], of to_rt from_rt tid n]
    by (auto simp: token_v_def simp del: enc.simps strncmp0_numeral)
  have "first_char (enc_pairs mp (tl (token_v seq peer port v)) @ rest) \<noteq> CHR ''_''"
    using str_header[of "''sequencenbr''"] by (simp add: token_v_def del: enc.simps)
  then have "\<not> strncmp0 (''TOKEN'' @ enc_pairs mp (tl (token_v seq peer port v)) @ rest) ''TOKEN_REPLY'' 11"
    by (simp del: enc.simps)
  then show ?thesis by (simp only: r Let_def if_False) simp
qed

lemma parse_reply_message:
  assumes "n_transport_client w = Some tc" "tc_state tc = CC_TRANSPORT_ENABLED" and "x_mp x = mp"
    and "length port < 2 ^ 32" "length peer < 2 ^ 32"
  shows "cc_proto_parse_message x (enc mp (tunnel_data_v to_rt from_rt tid (MMap (token_reply_v seq peer port ack)))) n w
     = map_option (Pair CC_SUCCESS) (cc_node_handle_token_reply port (of_nat (length port))
         (if ack then CC_PORT_REPLY_TYPE_ACK else CC_PORT_REPLY_TYPE_NACK) seq w)"
proof -
  have wf: "wf_mpv (MMap (token_reply_v seq peer port ack))" using assms(4,5) by (simp add: token_reply_v_def)
  obtain r where r: "proto_parse_token_reply mp (enc mp (tunnel_data_v to_rt from_rt tid (MMap (token_reply_v seq peer port ack)))) w
     = map_option (Pair CC_SUCCESS) (cc_node_handle_token_reply (port @ r) (of_nat (length port))
         (if ack then CC_PORT_REPLY_TYPE_ACK else CC_PORT_REPLY_TYPE_NACK) seq w)"
    using parse_token_reply[OF assms(4,5)] by blast
  have "cc_proto_parse_message x (enc mp (tunnel_data_v to_rt from_rt tid (MMap (token_reply_v seq peer port ack)))) n w
     = proto_parse_token_reply mp (enc mp (tunnel_data_v to_rt from_rt tid (MMap (token_reply_v seq peer port ack)))) w"
    using parse_tunnel_message[OF assms(1-3) wf[unfolded token_reply_v_def], of to_rt from_rt tid n]
    by (auto simp: token_reply_v_def simp del: enc.simps)
  then show ?thesis using r assms(4) by (simp add: cc_node_handle_token_reply_def port_get_append del: enc.simps)
qed

text \<open>A token message at a runtime that has the port.\<close>

lemma receive_token:
  assumes u: "n_transport_client u = Some tc" "tc_state tc = CC_TRANSPORT_ENABLED" "tc_prefix_len tc = 4" "x_mp x = mp" "e_alloc u = []"
    and v: "wf_mpv v" "length port < 2 ^ 32" "length peer < 2 ^ 32"
    and q: "cc_port_get port (of_nat (length port)) u = Some (Some b)" "h_ports u b = Some q"
      "h_actors u (p_actor q) = Some y" "a_state y = CC_ACTOR_ENABLED" "p_fifo q = Some g" "fifo_ok g" "fifo_fresh g"
    and fits: "\<And>ack. fits_prefixed 400 (enc mp (tunnel_data_v from_rt (n_id u) tid (MMap (token_reply_v seq port peer ack)))) u"
  defines "room \<equiv> length (q_items (fifo_abs g)) < fifo_capacity g"
  shows "\<exists>r u1 g1. cc_proto_parse_message x (enc mp (tunnel_data_v to_rt from_rt tid (MMap (token_v seq peer port v)))) n u = Some (r, u1)
     \<and> h_ports u1 = (h_ports u)(b \<mapsto> q\<lparr>p_fifo := Some g1\<rparr>) \<and> h_actors u1 = h_actors u \<and> fifo_ok g1
     \<and> (if room then fifo_abs g1 = (if q_base (fifo_abs g) + length (q_items (fifo_abs g)) \<le> unat seq
           then q_write (Some (enc mp v)) (length (enc mp v)) (fifo_abs g) else fifo_abs g) else g1 = g)
     \<and> (r = CC_SUCCESS \<longrightarrow> (\<exists>m. m = enc mp (tunnel_data_v from_rt (n_id u) tid (MMap (token_reply_v seq port peer room)))
          \<and> e_sent u1 = e_sent u @ [len_prefix (length m) @ m]))"
proof -
  let ?root = "enc mp (tunnel_data_v to_rt from_rt tid (MMap (token_v seq peer port v)))"
  obtain s d0 where ids: "idv from_rt = MStr s" "idv tid = MStr d0" by (simp add: idv_def)
  then have d0: "length d0 < 2 ^ 32" using wf_idv[of tid] by simp
  obtain r1 r2 r3 r4 d where dec: "decode_token_msg mp ?root
     = Some (Some \<lparr>tm_from_rt_uuid = (s @ r1, of_nat (length s)), tm_tunnel_id = (d0 @ r2, of_nat (length d0)),
         tm_port_id = (port @ r3, of_nat (length port)), tm_peer_port_id = (peer @ r4, of_nat (length peer)),
         tm_sequencenbr = seq, tm_data = d\<rparr>)" and d: "points_to mp v d"
    using decode_token[OF v ids] by blast
  have size: "cc_coder_get_size_of_value mp d = Some (length (enc mp v))" "take (length (enc mp v)) d = enc mp v"
    using d size_of_value_enc[of v] by (auto simp: points_to_def)
  from handle_token_effect[OF q(2-7) u(5), of d "length (enc mp v)" seq] obtain rr g1 where
    h: "cc_node_handle_token b d (length (enc mp v)) seq u = Some (rr, u\<lparr>h_ports := (h_ports u)(b \<mapsto> q\<lparr>p_fifo := Some g1\<rparr>)\<rparr>)"
      "fifo_ok g1" "rr = (if room then CC_SUCCESS else CC_FAIL)"
      "if room then fifo_abs g1 = (if q_base (fifo_abs g) + length (q_items (fifo_abs g)) \<le> unat seq
           then q_write (Some (enc mp v)) (length (enc mp v)) (fifo_abs g) else fifo_abs g) else g1 = g"
    by (auto simp: room_def size split: if_splits)
  let ?u = "u\<lparr>h_ports := (h_ports u)(b \<mapsto> q\<lparr>p_fifo := Some g1\<rparr>)\<rparr>"
  let ?m = "enc mp (tunnel_data_v from_rt (n_id u) tid (MMap (token_reply_v seq port peer room)))"
  have parse: "cc_proto_parse_message x ?root n u = proto_send 400 ?m ?u"
    using dec h(1,3) size(1) q(1) v(2)
    by (simp add: parse_token_message[OF u(1,2,4) v] proto_parse_token_def port_get_append token_reply_enc[OF d0 v(2,3) ids]
        del: enc.simps bind_Some_iff)
  have "fits_prefixed 400 ?m ?u" using fits[of room] by (simp add: fits_prefixed_def fits_def)
  then obtain r u1 where s: "proto_send 400 ?m ?u = Some (r, u1)" using proto_send_returns by blast
  from proto_send_frame[OF this _ u(3)] u(1) have f: "env.more u1 = env.more ?u"
      "e_sent u1 = (if r = CC_SUCCESS then e_sent u @ [len_prefix (length ?m) @ ?m] else e_sent u)" by auto
  show ?thesis
    using parse s f node_eqD[OF f(1)] h(2,4)
    by (intro exI[of _ r] exI[of _ u1] exI[of _ g1]) (simp del: enc.simps)
qed

end

section \<open>Properties\<close>

text \<open>A runtime that can send and receive, and a port of an enabled actor under its identifier.\<close>

definition online :: "world \<Rightarrow> bool" where
  "online w = (case n_transport_client w of None \<Rightarrow> False
     | Some tc \<Rightarrow> tc_state tc = CC_TRANSPORT_ENABLED \<and> tc_prefix_len tc = 4)"

definition live_port :: "world \<Rightarrow> bytes \<Rightarrow> addr \<Rightarrow> cc_port \<Rightarrow> cc_fifo \<Rightarrow> bool" where
  "live_port w i a p f = (no_nul i \<and> length i \<le> CC_UUID_BUFFER_SIZE \<and> cc_port_get i (of_nat (length i)) w = Some (Some a)
     \<and> h_ports w a = Some p \<and> p_fifo p = Some f \<and> fifo_ok f
     \<and> (case h_actors w (p_actor p) of None \<Rightarrow> False | Some y \<Rightarrow> a_state y = CC_ACTOR_ENABLED))"

lemma port_get_cong:
  "h_actors w' = h_actors w \<Longrightarrow> n_actors w' = n_actors w \<Longrightarrow> cc_port_get i n w' = cc_port_get i n w"
  using port_search_cong[of w' w] by (simp add: cc_port_get_def)

text \<open>What the sender has sent and keeps.\<close>

lemma transmit_sends:
  assumes "msgpuck mp" and "h_ports w a = Some p" "p_state p = CC_PORT_ENABLED" "p_direction p = CC_PORT_DIRECTION_OUT"
    and "h_actors w (p_actor p) = Some y" "a_state y = CC_ACTOR_ENABLED" "p_tunnel p = Some c" "h_tunnels w c = Some t"
    and "p_fifo p = Some f" "fifo_ok f" and tok: "q_pend (fifo_abs f) = 0" "q_items (fifo_abs f) = tk # ts"
      "tok_value tk = Some (enc mp v)" "tok_size tk = length (enc mp v)" "wf_mpv v"
    and tc: "n_transport_client w = Some tc" "tc_prefix_len tc = 4"
    and sent: "cc_port_transmit mp a w = Some w1" "e_sent w1 \<noteq> e_sent w"
    and ids: "idv (p_id p) = MStr (p_id p)" "idv (p_peer_port_id p) = MStr (p_peer_port_id p)"
  defines "m \<equiv> enc mp (tunnel_data_v (p_peer_id p) (n_id w) (t_id t)
     (MMap (token_v (of_nat (q_base (fifo_abs f))) (p_id p) (p_peer_port_id p) v)))"
  shows "\<exists>f1. e_sent w1 = e_sent w @ [len_prefix (length m) @ m] \<and> n_transport_client w1 = Some tc
     \<and> h_ports w1 = (h_ports w)(a \<mapsto> p\<lparr>p_fifo := Some f1\<rparr>) \<and> h_actors w1 = h_actors w \<and> n_actors w1 = n_actors w
     \<and> fifo_ok f1 \<and> f_read_pos f1 = f_read_pos f \<and> fifo_abs f1 = q_peek (fifo_abs f)"
proof -
  have pend: "q_pend (fifo_abs f) < length (q_items (fifo_abs f))" using tok by simp
  have send: "port_send_token mp a w = Some w1" using transmit_enabled[OF assms(2-6,9,10) pend] sent(1) by simp
  have "e_sent w1 = e_sent w @ [len_prefix (length m) @ m]" "n_transport_client w1 = Some tc"
    using send_token_frame[OF assms(1,2,7-10) tok tc send sent(2)] msgpuck.token_enc[OF assms(1) tok(3-5)] tc(1)
    by (auto simp: m_def token_v_def ids simp del: enc.simps)
  with send_token_tunnel[OF assms(2,7,9,10) pend send] sent(2) show ?thesis by auto
qed

text \<open>The answer to the token at the head of a queue of which only that one is on its way.\<close>

lemma answer_effect:
  assumes "cc_port_get i n w = Some (Some a)" "h_ports w a = Some p" "p_fifo p = Some f" "fifo_ok f" "q_pend (fifo_abs f) = 1"
  shows "\<exists>f'. cc_node_handle_token_reply i n (if ack then CC_PORT_REPLY_TYPE_ACK else CC_PORT_REPLY_TYPE_NACK) (f_read_pos f) w
       = Some (w\<lparr>h_ports := (h_ports w)(a \<mapsto> p\<lparr>p_fifo := Some f'\<rparr>)\<rparr>) \<and> fifo_ok f'
     \<and> fifo_abs f' = (if ack then q_commit (fifo_abs f) else q_cancel (fifo_abs f))"
proof -
  have base: "unat (f_read_pos f) = q_base (fifo_abs f)" by (simp add: fifo_abs_def)
  obtain f2 where f2: "cc_fifo_com_commit_read f (f_read_pos f) = Some f2" "fifo_ok f2" "fifo_abs f2 = q_commit (fifo_abs f)"
    using fifo_com_commit_ok[OF assms(4), of "f_read_pos f"] base by auto
  have "fifo_ok (cc_fifo_com_cancel_read f (f_read_pos f)) \<and> fifo_abs (cc_fifo_com_cancel_read f (f_read_pos f)) = q_cancel (fifo_abs f)"
    using fifo_com_cancel_ok[OF assms(4), of "f_read_pos f"] assms(4) by (auto simp: fifo_ok_def q_cancel_def)
  with f2 token_reply_eq[OF assms(1-3) f2(1)] show ?thesis by (cases ack) auto
qed

text \<open>
  C1: a token travels once. The out port of one runtime is connected by a tunnel to the in port of another, and the
  sequence numbers agree: what the sender still holds starts where the receiver's queue ends. The message that
  \<open>cc_port_transmit\<close> sends, handed to \<open>cc_proto_parse_message\<close> of the receiver, and the answer that the receiver
  sends, handed to the one of the sender, leave the tokens of the two queues together as they were, in their order:
  when the receiver had room the first token has moved from one to the other, else it is the next to send again;
  the sequence numbers agree again.
\<close>

theorem token_delivery:
  assumes "msgpuck_types (x_mp x)"
    and w: "online w" "live_port w (p_id p) a p f" "p_state p = CC_PORT_ENABLED" "p_direction p = CC_PORT_DIRECTION_OUT"
      "p_tunnel p = Some c" "h_tunnels w c = Some t"
    and tok: "q_pend (fifo_abs f) = 0" "q_items (fifo_abs f) = tk # ts" "tok_value tk = Some (enc (x_mp x) v)"
      "tok_size tk = length (enc (x_mp x) v)" "wf_mpv v"
    and sent: "cc_port_transmit (x_mp x) a w = Some w1" "e_sent w1 \<noteq> e_sent w"
    and u: "online u" "e_alloc u = []" "live_port u (p_peer_port_id p) b q g" "fifo_fresh g"
    and sync: "q_base (fifo_abs f) = q_base (fifo_abs g) + length (q_items (fifo_abs g))"
    and fits: "\<And>ack. fits_prefixed 400 (enc (x_mp x) (tunnel_data_v (n_id w) (n_id u) (t_id t)
        (MMap (token_reply_v (of_nat (q_base (fifo_abs f))) (p_peer_port_id p) (p_id p) ack)))) u"
  shows "\<exists>m r u1 g1. e_sent w1 = e_sent w @ [len_prefix (length m) @ m]
     \<and> cc_proto_parse_message x m (length m) u = Some (r, u1)
     \<and> h_ports u1 = (h_ports u)(b \<mapsto> q\<lparr>p_fifo := Some g1\<rparr>) \<and> fifo_ok g1
     \<and> q_items (fifo_abs g1) = q_items (fifo_abs g) @ (if length (q_items (fifo_abs g)) < fifo_capacity g then [tk] else [])
     \<and> (r = CC_SUCCESS \<longrightarrow> (\<exists>m' w2 f2. e_sent u1 = e_sent u @ [len_prefix (length m') @ m']
          \<and> cc_proto_parse_message x m' (length m') w1 = Some (CC_SUCCESS, w2)
          \<and> h_ports w2 = (h_ports w)(a \<mapsto> p\<lparr>p_fifo := Some f2\<rparr>) \<and> fifo_ok f2
          \<and> q_items (fifo_abs g1) @ q_items (fifo_abs f2) = q_items (fifo_abs g) @ q_items (fifo_abs f)
          \<and> q_items (fifo_abs f2) = (if length (q_items (fifo_abs g)) < fifo_capacity g then ts else tk # ts)
          \<and> q_pend (fifo_abs f2) = 0 \<and> q_base (fifo_abs f2) = q_base (fifo_abs g1) + length (q_items (fifo_abs g1))))"
proof -
  let ?mp = "x_mp x"
  let ?seq = "of_nat (q_base (fifo_abs f)) :: u32"
  let ?room = "length (q_items (fifo_abs g)) < fifo_capacity g"
  have mp: "msgpuck ?mp" using assms(1) by (rule msgpuck_types.axioms(1))
  obtain tc tc' where tc: "n_transport_client w = Some tc" "tc_state tc = CC_TRANSPORT_ENABLED" "tc_prefix_len tc = 4"
      "n_transport_client u = Some tc'" "tc_state tc' = CC_TRANSPORT_ENABLED" "tc_prefix_len tc' = 4"
    using w(1) u(1) by (auto simp: online_def split: option.splits)
  obtain y y' where a: "h_ports w a = Some p" "p_fifo p = Some f" "fifo_ok f" "h_actors w (p_actor p) = Some y" "a_state y = CC_ACTOR_ENABLED"
      "cc_port_get (p_id p) (of_nat (length (p_id p))) w = Some (Some a)"
    and b: "h_ports u b = Some q" "p_fifo q = Some g" "fifo_ok g" "h_actors u (p_actor q) = Some y'" "a_state y' = CC_ACTOR_ENABLED"
      "cc_port_get (p_peer_port_id p) (of_nat (length (p_peer_port_id p))) u = Some (Some b)"
    using w(2) u(3) by (auto simp: live_port_def split: option.splits)
  have ids: "idv (p_id p) = MStr (p_id p)" "idv (p_peer_port_id p) = MStr (p_peer_port_id p)"
      "length (p_id p) < 2 ^ 32" "length (p_peer_port_id p) < 2 ^ 32"
    using w(2) u(3) by (auto simp: live_port_def CC_UUID_BUFFER_SIZE_def)
  let ?m = "enc ?mp (tunnel_data_v (p_peer_id p) (n_id w) (t_id t) (MMap (token_v ?seq (p_id p) (p_peer_port_id p) v)))"
  obtain f1 where m: "e_sent w1 = e_sent w @ [len_prefix (length ?m) @ ?m]" "n_transport_client w1 = Some tc"
    and f1: "h_ports w1 = (h_ports w)(a \<mapsto> p\<lparr>p_fifo := Some f1\<rparr>)" "h_actors w1 = h_actors w" "n_actors w1 = n_actors w" "fifo_ok f1"
      "f_read_pos f1 = f_read_pos f" "fifo_abs f1 = q_peek (fifo_abs f)"
    using transmit_sends[OF mp a(1) w(3,4) a(4,5) w(5,6) a(2,3) tok tc(1,3) sent ids(1,2)] by blast
  have seq: "unat ?seq = q_base (fifo_abs f)" "?seq = f_read_pos f" by (simp_all add: fifo_abs_def)
  have le: "q_base (fifo_abs g) + length (q_items (fifo_abs g)) \<le> unat ?seq" using seq(1) sync by simp
  from msgpuck_types.receive_token[OF assms(1) tc(4-6) refl u(2) tok(5) ids(4,3) b(6,1,4,5,2,3) u(4) fits, of "p_peer_id p" "length ?m"]
  obtain r u1 g1 where g1: "cc_proto_parse_message x ?m (length ?m) u = Some (r, u1)" "h_ports u1 = (h_ports u)(b \<mapsto> q\<lparr>p_fifo := Some g1\<rparr>)" "fifo_ok g1"
      "if ?room then fifo_abs g1 = q_write (Some (enc ?mp v)) (length (enc ?mp v)) (fifo_abs g) else g1 = g"
      "r = CC_SUCCESS \<Longrightarrow> \<exists>m. m = enc ?mp (tunnel_data_v (n_id w) (n_id u) (t_id t) (MMap (token_reply_v ?seq (p_peer_port_id p) (p_id p) ?room)))
          \<and> e_sent u1 = e_sent u @ [len_prefix (length m) @ m]"
    unfolding if_P[OF le] by blast
  have p1: "h_ports w1 a = Some (p\<lparr>p_fifo := Some f1\<rparr>)" "p_fifo (p\<lparr>p_fifo := Some f1\<rparr>) = Some f1"
      "cc_port_get (p_id p) (of_nat (length (p_id p))) w1 = Some (Some a)"
    using f1(1-3) a(6) port_get_cong[of w1 w] by simp_all
  let ?m' = "enc ?mp (tunnel_data_v (n_id w) (n_id u) (t_id t) (MMap (token_reply_v ?seq (p_peer_port_id p) (p_id p) ?room)))"
  have "q_pend (fifo_abs f1) = 1" "?seq = f_read_pos f1" using f1(5,6) tok(1) seq(2) by (simp_all add: q_peek_def)
  with answer_effect[OF p1(3,1,2) f1(4)] obtain f2 where
    f2: "cc_node_handle_token_reply (p_id p) (of_nat (length (p_id p))) (if ?room then CC_PORT_REPLY_TYPE_ACK else CC_PORT_REPLY_TYPE_NACK) ?seq w1
          = Some (w1\<lparr>h_ports := (h_ports w1)(a \<mapsto> p\<lparr>p_fifo := Some f2\<rparr>)\<rparr>)"
      "fifo_ok f2" "fifo_abs f2 = (if ?room then q_commit (fifo_abs f1) else q_cancel (fifo_abs f1))"
    by fastforce
  have reply: "cc_proto_parse_message x ?m' (length ?m') w1 = Some (CC_SUCCESS, w1\<lparr>h_ports := (h_ports w1)(a \<mapsto> p\<lparr>p_fifo := Some f2\<rparr>)\<rparr>)"
    by (simp only: msgpuck_types.parse_reply_message[OF assms(1) m(2) tc(2) refl ids(3,4)] f2(1) option.map)
  have tk: "\<lparr>tok_value = Some (enc ?mp v), tok_size = length (enc ?mp v)\<rparr> = tk" using tok(3,4) by (cases tk) simp
  have items: "q_items (fifo_abs g1) = q_items (fifo_abs g) @ (if ?room then [tk] else [])"
    using g1(4) tk by (auto simp: q_write_def)
  have "q_items (fifo_abs g1) @ q_items (fifo_abs f2) = q_items (fifo_abs g) @ q_items (fifo_abs f)
      \<and> q_items (fifo_abs f2) = (if ?room then ts else tk # ts) \<and> q_pend (fifo_abs f2) = 0
      \<and> q_base (fifo_abs f2) = q_base (fifo_abs g1) + length (q_items (fifo_abs g1)) \<and> fifo_ok f2"
    using g1(4) f2(2,3) f1(6) tok(1,2) sync tk by (auto simp: q_write_def q_commit_def q_peek_def q_cancel_def)
  moreover have "h_ports (w1\<lparr>h_ports := (h_ports w1)(a \<mapsto> p\<lparr>p_fifo := Some f2\<rparr>)\<rparr>) = (h_ports w)(a \<mapsto> p\<lparr>p_fifo := Some f2\<rparr>)"
    using f1(1) by simp
  ultimately show ?thesis using m(1) g1(1-3,5) reply items by metis
qed

text \<open>The world of the examples as the receiver: its in port \<open>i\<close> has an empty queue.\<close>

definition example_receiver :: world where
  "example_receiver = (example_ports (Some 0))\<lparr>n_id := ''rt2''\<rparr>"

lemma example_reply_fits:
  "fits_prefixed 400 (enc mp_ref (tunnel_data_v ''rt1'' ''rt2'' ''t'' (MMap (token_reply_v 0 ''i'' ''o'' ack)))) example_receiver"
  by (cases ack) (simp_all add: fits_prefixed_def fits_def example_receiver_def example_ports_def example_world_def example_client_def
      tunnel_data_v_def token_reply_v_def idv_def CC_UUID_BUFFER_SIZE_def mp_ref_def enc_num_def)

theorem token_delivery_witness:
  "\<exists>w1 m r u1 g1. cc_port_transmit mp_ref 10 (example_ports (Some 0)) = Some w1 \<and> e_sent w1 = [len_prefix (length m) @ m]
     \<and> cc_proto_parse_message example_ext m (length m) example_receiver = Some (r, u1)
     \<and> h_ports u1 11 = Some ((example_in (Some 10))\<lparr>p_fifo := Some g1\<rparr>)
     \<and> q_items (fifo_abs g1) = [\<lparr>tok_value = Some (enc mp_ref (MUint 7)), tok_size = length (enc mp_ref (MUint 7))\<rparr>]"
proof -
  let ?w = "example_ports (Some 0)" and ?p = "example_out None (Some 0)" and ?q = "example_in (Some 10)"
  let ?f = "one_token (Some (enc mp_ref (MUint 7))) (length (enc mp_ref (MUint 7)))"
  let ?tk = "\<lparr>tok_value = Some (enc mp_ref (MUint 7)), tok_size = length (enc mp_ref (MUint 7))\<rparr>"
  obtain w1 where w1: "cc_port_transmit mp_ref 10 ?w = Some w1" "e_sent w1 \<noteq> []" using example_transmit by blast
  note o = one_token_ok[of "Some (enc mp_ref (MUint 7))" "length (enc mp_ref (MUint 7))"]
  have x: "x_mp example_ext = mp_ref" by (simp add: example_ext_def)
  have get: "cc_port_get ''o'' 1 ?w = Some (Some 10)" "cc_port_get ''i'' 1 example_receiver = Some (Some 11)"
    by (simp_all add: cc_port_get_def example_receiver_def example_defs CC_UUID_BUFFER_SIZE_def)
  have live: "live_port ?w (p_id ?p) 10 ?p ?f" "live_port example_receiver (p_peer_port_id ?p) 11 ?q (empty_fifo 2)"
    using get o(1) empty_ok(1)
    by (simp_all add: live_port_def example_receiver_def example_defs CC_UUID_BUFFER_SIZE_def del: enc.simps)
  have on: "online ?w" "online example_receiver" "e_alloc example_receiver = []" "e_sent ?w = []"
    by (simp_all add: online_def example_receiver_def example_ports_def example_world_def example_client_def)
  have base: "q_base (fifo_abs ?f) = q_base (fifo_abs (empty_fifo 2)) + length (q_items (fifo_abs (empty_fifo 2)))"
    using o(4) empty_ok(2) by (simp add: fifo_abs_def empty_fifo_def)
  let ?t = "\<lparr>t_id = ''t'', t_link = Some 0, t_state = CC_TUNNEL_ENABLED, t_ref_count = 1, t_type = CC_TUNNEL_TYPE_TOKEN\<rparr>"
  have p: "p_state ?p = CC_PORT_ENABLED" "p_direction ?p = CC_PORT_DIRECTION_OUT" "p_tunnel ?p = Some 0" "h_tunnels ?w 0 = Some ?t"
    by (simp_all add: example_out_def example_ports_def example_world_def)
  have f: "fits_prefixed 400 (enc (x_mp example_ext) (tunnel_data_v (n_id ?w) (n_id example_receiver) (t_id ?t)
        (MMap (token_reply_v (of_nat (q_base (fifo_abs ?f))) (p_peer_port_id ?p) (p_id ?p) ack)))) example_receiver" for ack
    using example_reply_fits[of ack] o(4) x
    by (simp add: example_receiver_def example_ports_def example_world_def example_out_def del: enc.simps)
  have tk: "tok_value ?tk = Some (enc (x_mp example_ext) (MUint 7))" "tok_size ?tk = length (enc (x_mp example_ext) (MUint 7))"
      "wf_mpv (MUint 7)" "msgpuck_types (x_mp example_ext)"
    using x ref.msgpuck_types_axioms by simp_all
  have sent: "cc_port_transmit (x_mp example_ext) 10 ?w = Some w1" "e_sent w1 \<noteq> e_sent ?w" using w1 x on(4) by simp_all
  from token_delivery[OF tk(4) on(1) live(1) p o(3,2) tk(1-3) sent on(2,3) live(2) empty_ok(3) base f]
  obtain m r u1 g1 where "e_sent w1 = e_sent ?w @ [len_prefix (length m) @ m]"
      "cc_proto_parse_message example_ext m (length m) example_receiver = Some (r, u1)"
      "h_ports u1 = (h_ports example_receiver)(11 \<mapsto> ?q\<lparr>p_fifo := Some g1\<rparr>)"
      "q_items (fifo_abs g1) = q_items (fifo_abs (empty_fifo 2)) @ (if length (q_items (fifo_abs (empty_fifo 2))) < fifo_capacity (empty_fifo 2) then [?tk] else [])"
    by blast
  then show ?thesis using w1(1) on(4) empty_ok(2,4)
    by (intro exI[of _ w1] exI[of _ m] exI[of _ r] exI[of _ u1] exI[of _ g1]) (simp del: enc.simps)
qed

lemma fifo_wr: "fifo_ok f \<Longrightarrow> wr f = q_base (fifo_abs f) + length (q_items (fifo_abs f))"
  by (simp add: fifo_abs_def fifo_ok_def)

text \<open>An actor reads a token.\<close>

lemma fifo_read_one:
  assumes "fifo_ok g" "q_pend (fifo_abs g) = 0" "q_items (fifo_abs g) = t # r"
  shows "\<exists>i g1 g2. cc_fifo_peek g = Some (i, g1) \<and> cc_fifo_commit_read g1 True = Some g2 \<and> fifo_ok g2
     \<and> fifo_abs g2 = \<lparr>q_items = r, q_pend = 0, q_base = Suc (q_base (fifo_abs g))\<rparr> \<and> fifo_capacity g2 = fifo_capacity g"
proof -
  obtain i g1 where g1: "cc_fifo_peek g = Some (i, g1)" "fifo_ok g1" "fifo_abs g1 = q_peek (fifo_abs g)"
    using fifo_peek_ok[OF assms(1)] assms(2,3) by auto
  have "fifo_capacity g1 = fifo_capacity g" using g1(1) by (auto simp: cc_fifo_peek_def Let_def fifo_capacity_def)
  moreover obtain g2 where "cc_fifo_commit_read g1 True = Some g2" "fifo_ok g2" "fifo_abs g2 = q_commit (fifo_abs g1)"
      "fifo_capacity g2 = fifo_capacity g1"
    using fifo_commit_ok[OF g1(2)] by blast
  ultimately show ?thesis using g1 assms(2,3) by (cases "fifo_abs g") (auto simp: q_commit_def q_peek_def)
qed

text \<open>The sender: two tokens sent, the first refused, the second acknowledged, the first sent again and acknowledged.\<close>

lemma sender_restarts:
  assumes "fifo_ok f" "q_pend (fifo_abs f) = 0" "q_items (fifo_abs f) = A # B # ts"
  defines "s \<equiv> f_read_pos f"
  shows "\<exists>f1 f2 f3 f4 f5. peek_token f = Some ((A, s), f1) \<and> peek_token f1 = Some ((B, s + 1), f2)
     \<and> cc_fifo_com_cancel_read f2 s = f3 \<and> cc_fifo_com_commit_read f3 (s + 1) = Some f3 \<and> peek_token f3 = Some ((A, s), f4)
     \<and> cc_fifo_com_commit_read f4 s = Some f5 \<and> q_items (fifo_abs f5) = B # ts"
proof -
  have base: "q_base (fifo_abs f) = unat s" by (simp add: fifo_abs_def s_def)
  have t: "f_tentative_read_pos f = s" using assms(1,2) by (simp add: s_def fifo_abs_def fifo_ok_def word_unat_eq_iff)
  have lt: "s < f_write_pos f" using fifo_wr[OF assms(1)] assms(3) base by (simp add: word_less_nat_alt)
  obtain f1 where f1: "peek_token f = Some ((A, s), f1)" "fifo_ok f1" "fifo_abs f1 = q_peek (fifo_abs f)" "f_read_pos f1 = s"
    using peek_token_ok[OF assms(1)] assms(2,3) t by (auto simp: s_def)
  have t1: "f_tentative_read_pos f1 = s + 1"
    using f1(1) t by (auto simp: peek_token_def cc_fifo_com_peek_def cc_fifo_peek_def Let_def split: if_splits)
  obtain f2 where f2: "peek_token f1 = Some ((B, s + 1), f2)" "fifo_ok f2" "fifo_abs f2 = q_peek (q_peek (fifo_abs f))"
      "f_read_pos f2 = s"
    using peek_token_ok[OF f1(2)] f1(3,4) assms(2,3) t1 by (auto simp: q_peek_def)
  let ?f3 = "cc_fifo_com_cancel_read f2 s"
  have f3: "fifo_ok ?f3" "fifo_abs ?f3 = fifo_abs f" "f_tentative_read_pos ?f3 = s"
    using fifo_com_cancel_ok[OF f2(2), of s] f2(2-4) assms(2)
    by (auto simp: fifo_ok_def q_peek_def cc_fifo_com_cancel_read_def)
  obtain f4 where f4: "peek_token ?f3 = Some ((A, s), f4)" "fifo_ok f4" "fifo_abs f4 = q_peek (fifo_abs f)"
    using peek_token_ok[OF f3(1)] f3(2,3) assms(2,3) by auto
  obtain f5 where f5: "cc_fifo_com_commit_read f4 s = Some f5" "fifo_abs f5 = q_commit (q_peek (fifo_abs f))"
    using fifo_com_commit_ok[OF f4(2), of s] f4(3) by (auto simp: q_peek_def fifo_abs_def s_def)
  have "s \<le> s + 1" using unat_Suc_lt[OF lt] by (simp add: word_le_nat_alt)
  then have "cc_fifo_com_commit_read ?f3 (s + 1) = Some ?f3" using f3(3) by (simp add: cc_fifo_com_commit_read_def)
  moreover have "q_items (fifo_abs f5) = B # ts" using f5(2) assms(3) by (simp add: q_commit_def q_peek_def)
  ultimately show ?thesis using f1(1) f2(1) f4(1) f5(1) by blast
qed

text \<open>The receiver: its queue is full when the first token comes, and has room for the second and for the first again.\<close>

lemma receiver_skips:
  assumes g: "fifo_ok g" "fifo_fresh g" "q_pend (fifo_abs g) = 0" "q_items (fifo_abs g) = T # rest"
      "length (q_items (fifo_abs g)) = fifo_capacity g" and s: "unat s = wr g"
  shows "\<exists>i g1 g2 g3 j g4 g5. cc_fifo_slots_available g 1 = Some False
     \<and> cc_fifo_peek g = Some (i, g1) \<and> cc_fifo_commit_read g1 True = Some g2
     \<and> cc_fifo_slots_available g2 1 = Some True \<and> cc_fifo_com_write g2 (tok_value B) (tok_size B) (s + 1) = Some (CC_SUCCESS, g3)
     \<and> q_items (fifo_abs g3) = rest @ [B]
     \<and> cc_fifo_peek g3 = Some (j, g4) \<and> cc_fifo_commit_read g4 True = Some g5
     \<and> cc_fifo_slots_available g5 1 = Some True \<and> cc_fifo_com_write g5 d n s = Some (CC_SUCCESS, g5)
     \<and> q_items (fifo_abs g5) = tl (rest @ [B])"
proof -
  have s1: "unat (s + 1) = Suc (wr g)" using g(2) s unat_Suc[of s] by (simp add: fifo_fresh_def)
  obtain i g1 g2 where g2: "cc_fifo_peek g = Some (i, g1)" "cc_fifo_commit_read g1 True = Some g2" "fifo_ok g2"
      "fifo_abs g2 = \<lparr>q_items = rest, q_pend = 0, q_base = Suc (q_base (fifo_abs g))\<rparr>" "fifo_capacity g2 = fifo_capacity g"
    using fifo_read_one[OF g(1,3,4)] by blast
  have w2: "wr g2 = wr g" using fifo_wr[OF g(1)] fifo_wr[OF g2(3)] g2(4) g(4) by simp
  then obtain g3 where w3: "cc_fifo_write g2 (tok_value B) (tok_size B) = Some (CC_SUCCESS, g3)" "fifo_ok g3"
      "fifo_abs g3 = q_write (tok_value B) (tok_size B) (fifo_abs g2)" "fifo_capacity g3 = fifo_capacity g2"
    using fifo_write_ok[OF g2(3), of "tok_value B" "tok_size B"] g(2,4,5) g2(4,5) by (auto simp: fifo_fresh_def)
  have g3: "cc_fifo_com_write g2 (tok_value B) (tok_size B) (s + 1) = Some (CC_SUCCESS, g3)" "q_items (fifo_abs g3) = rest @ [B]"
      "q_pend (fifo_abs g3) = 0"
    using w3 w2 s1 g2(4) by (simp_all add: cc_fifo_com_write_def word_le_nat_alt q_write_def)
  obtain t r where tr: "rest @ [B] = t # r" by (cases "rest @ [B]") auto
  obtain j g4 g5 where g5: "cc_fifo_peek g3 = Some (j, g4)" "cc_fifo_commit_read g4 True = Some g5" "fifo_ok g5"
      "fifo_abs g5 = \<lparr>q_items = r, q_pend = 0, q_base = Suc (q_base (fifo_abs g3))\<rparr>" "fifo_capacity g5 = fifo_capacity g3"
    using fifo_read_one[OF w3(2) g3(3)] g3(2) tr by auto
  have "wr g5 = Suc (wr g)"
    using fifo_wr[OF g5(3)] fifo_wr[OF g(1)] g5(4) w3(3) g2(4) g(4) arg_cong[OF tr, of length] by (simp add: q_write_def)
  then have drop: "cc_fifo_com_write g5 d n s = Some (CC_SUCCESS, g5)"
    using s by (simp add: cc_fifo_com_write_def word_le_nat_alt)
  have slots: "cc_fifo_slots_available g 1 = Some False" "cc_fifo_slots_available g2 1 = Some True" "cc_fifo_slots_available g5 1 = Some True"
    using fifo_slots[OF g(1), of 1] fifo_slots[OF g2(3), of 1] fifo_slots[OF g5(3), of 1] g(4,5) g2(4,5) g5(4,5) w3(4)
      arg_cong[OF tr, of length] by simp_all
  show ?thesis using slots g2(1,2) g3(1,2) g5(1,2,4) drop tr by auto
qed

text \<open>
  C17: the sequence numbers do not protect a connection with more than one token on its way. An out port sends
  its next token without waiting for the answer to the one before. When the receiver's queue is full and refuses
  the first token, but has room again when the second one arrives, it takes that one although its number is not the next
  (the code has a remark that it should be). The sender starts again with the first token, whose number now counts as
  seen: the receiver acknowledges it without taking it and the sender releases it. It is in neither queue.
\<close>

theorem pipelined_nack_loses_token:
  assumes f: "fifo_ok f" "q_pend (fifo_abs f) = 0" "q_items (fifo_abs f) = A # B # ts"
    and g: "fifo_ok g" "fifo_fresh g" "q_pend (fifo_abs g) = 0" "q_items (fifo_abs g) = T # rest"
      "length (q_items (fifo_abs g)) = fifo_capacity g"
    and sync: "q_base (fifo_abs f) = q_base (fifo_abs g) + length (q_items (fifo_abs g))"
  shows "\<exists>s f1 f2 f3 f4 f5 i g1 g2 g3 j g4 g5.
     peek_token f = Some ((A, s), f1) \<and> peek_token f1 = Some ((B, s + 1), f2)
     \<and> cc_fifo_slots_available g 1 = Some False
     \<and> cc_fifo_peek g = Some (i, g1) \<and> cc_fifo_commit_read g1 True = Some g2
     \<and> cc_fifo_slots_available g2 1 = Some True \<and> cc_fifo_com_write g2 (tok_value B) (tok_size B) (s + 1) = Some (CC_SUCCESS, g3)
     \<and> q_items (fifo_abs g3) = rest @ [B]
     \<and> cc_fifo_com_cancel_read f2 s = f3 \<and> cc_fifo_com_commit_read f3 (s + 1) = Some f3 \<and> peek_token f3 = Some ((A, s), f4)
     \<and> cc_fifo_peek g3 = Some (j, g4) \<and> cc_fifo_commit_read g4 True = Some g5
     \<and> cc_fifo_slots_available g5 1 = Some True \<and> cc_fifo_com_write g5 (tok_value A) (tok_size A) s = Some (CC_SUCCESS, g5)
     \<and> q_items (fifo_abs g5) = tl (rest @ [B])
     \<and> cc_fifo_com_commit_read f4 s = Some f5 \<and> q_items (fifo_abs f5) = B # ts"
proof -
  have "q_base (fifo_abs f) = unat (f_read_pos f)" by (simp add: fifo_abs_def)
  then have "unat (f_read_pos f) = wr g" using sync fifo_wr[OF g(1)] by simp
  from receiver_skips[OF g this, of B "tok_value A" "tok_size A"] sender_restarts[OF f] show ?thesis
    by (elim exE conjE) (intro exI conjI; assumption)
qed

text \<open>A receiver with one full slot and a sender with two tokens, one token after the start.\<close>

definition example_tok :: "bytes \<Rightarrow> cc_token" where
  "example_tok d = \<lparr>tok_value = Some d, tok_size = length d\<rparr>"

definition example_sender_queue :: cc_fifo where
  "example_sender_queue = \<lparr>f_size = 4, f_write_pos = 3, f_read_pos = 1, f_tentative_read_pos = 1,
     f_tokens = [null_token, example_tok ''a'', example_tok ''b'', null_token]\<rparr>"

lemma example_sender_ok:
  "fifo_ok example_sender_queue" "q_pend (fifo_abs example_sender_queue) = 0" "q_base (fifo_abs example_sender_queue) = 1"
  "q_items (fifo_abs example_sender_queue) = [example_tok ''a'', example_tok ''b'']"
proof -
  have c: "k = 0 \<or> k = 1 \<or> k = 2 \<or> k = 3" if "k < 4" for k :: nat using that by presburger
  have i: "{1..<3} = {1, 2 :: nat}" "[1..<3] = [1, 2 :: nat]" by (auto simp: upt_conv_Cons)
  have "\<forall>k < 4. k \<notin> (\<lambda>p. p mod 4) ` {1, 2} \<longrightarrow> tok_value ([null_token, example_tok ''a'', example_tok ''b'', null_token] ! k) = None"
  proof (intro allI impI)
    fix k :: nat assume "k < 4" "k \<notin> (\<lambda>p. p mod 4) ` {1, 2}"
    with c[of k] have "k = 0 \<or> k = 3" by auto
    then show "tok_value ([null_token, example_tok ''a'', example_tok ''b'', null_token] ! k) = None" by (auto simp: null_token_def)
  qed
  with i show "fifo_ok example_sender_queue" "q_pend (fifo_abs example_sender_queue) = 0" "q_base (fifo_abs example_sender_queue) = 1"
    "q_items (fifo_abs example_sender_queue) = [example_tok ''a'', example_tok ''b'']"
    by (simp_all add: fifo_ok_def fifo_abs_def example_sender_queue_def ring_items_def)
qed

theorem pipelined_nack_loses_token_witness:
  "\<exists>s f1 f2 i g1 g2 g3. peek_token example_sender_queue = Some ((example_tok ''a'', s), f1)
     \<and> peek_token f1 = Some ((example_tok ''b'', s + 1), f2)
     \<and> cc_fifo_peek (one_token (Some ''x'') 1) = Some (i, g1) \<and> cc_fifo_commit_read g1 True = Some g2
     \<and> cc_fifo_com_write g2 (Some ''b'') 1 (s + 1) = Some (CC_SUCCESS, g3) \<and> q_items (fifo_abs g3) = [example_tok ''b'']"
proof -
  note o = one_token_ok[of "Some ''x''" 1]
  have "fifo_fresh (one_token (Some ''x'') 1)" "fifo_capacity (one_token (Some ''x'') 1) = 1"
    by (simp_all add: fifo_fresh_def fifo_capacity_def one_token_def empty_fifo_def)
  with pipelined_nack_loses_token[OF example_sender_ok(1,2,4) o(1) this(1) o(3,2)] o(2,4) example_sender_ok(3)
  obtain s f1 f2 i g1 g2 g3 where "peek_token example_sender_queue = Some ((example_tok ''a'', s), f1)"
      "peek_token f1 = Some ((example_tok ''b'', s + 1), f2)"
      "cc_fifo_peek (one_token (Some ''x'') 1) = Some (i, g1)" "cc_fifo_commit_read g1 True = Some g2"
      "cc_fifo_com_write g2 (tok_value (example_tok ''b'')) (tok_size (example_tok ''b'')) (s + 1) = Some (CC_SUCCESS, g3)"
      "q_items (fifo_abs g3) = [] @ [example_tok ''b'']"
    by (auto simp del: append_Nil)
  then show ?thesis by (intro exI conjI) (auto simp: example_tok_def)
qed

end
