(* ===== verification/Scheduler.thy ===== *)
theory Scheduler
  imports Token_Flow
begin

text \<open>
  \<open>src/runtime/north/scheduler/np_scheduler/cc_scheduler.c\<close>: one round of the scheduler. Every actor that is enabled is
  fired, and the ports of every actor get the chance to connect or to send a token.
\<close>

section \<open>A round\<close>

fun transmit_ports :: "mp \<Rightarrow> addr cc_list \<Rightarrow> world \<Rightarrow> world option" where
  "transmit_ports mp [] w = Some w"
| "transmit_ports mp (port # ports) w = do { w \<leftarrow> cc_port_transmit mp (li_data port) w; transmit_ports mp ports w }"

text \<open>The body of the loop for an actor that is not to be deleted. An enabled actor without functions is a fault.\<close>

definition run_actor :: "ext \<Rightarrow> addr \<Rightarrow> world \<Rightarrow> (bool \<times> world) option" where
  "run_actor x a w = do {
     actor \<leftarrow> h_actors w a;
     (fired, w) \<leftarrow> (if a_state actor = CC_ACTOR_ENABLED then do { ops \<leftarrow> actor_fns x a w; ac_fire ops a w } else Some (False, w));
     actor \<leftarrow> h_actors w a;
     w \<leftarrow> transmit_ports (x_mp x) (a_in_ports actor) w;
     actor \<leftarrow> h_actors w a;
     w \<leftarrow> transmit_ports (x_mp x) (a_out_ports actor) w;
     Some (fired, w) }"

text \<open>
  The loop over the list of actors as it is when the round starts. An item that has left the list meanwhile was
  freed, and reading it is a fault; an actor that is to be deleted is freed after its successor has been read.
\<close>

fun fire_loop :: "ext \<Rightarrow> addr cc_list \<Rightarrow> bool \<Rightarrow> world \<Rightarrow> (bool \<times> world) option" where
  "fire_loop x [] fired w = Some (fired, w)"
| "fire_loop x (item # actors) fired w =
     (if item \<notin> set (n_actors w) then None
      else do {
        actor \<leftarrow> h_actors w (li_data item);
        if a_state actor = CC_ACTOR_DO_DELETE
        then do { w \<leftarrow> cc_actor_free x (Some (li_data item)) True w; fire_loop x actors fired w }
        else do { (f, w) \<leftarrow> run_actor x (li_data item) w; fire_loop x actors (fired \<or> f) w } })"

definition fire_actors :: "ext \<Rightarrow> world \<Rightarrow> (bool \<times> world) option" where
  "fire_actors x w = fire_loop x (n_actors w) False w"

section \<open>Connections on one runtime\<close>

text \<open>An out port and an in port of the same runtime that are connected, with their queues.\<close>

definition conn :: "world \<Rightarrow> addr \<Rightarrow> addr \<Rightarrow> cc_fifo \<Rightarrow> cc_fifo \<Rightarrow> bool" where
  "conn w a b f g = (\<exists>p q y. h_ports w a = Some p \<and> p_state p = CC_PORT_ENABLED \<and> p_direction p = CC_PORT_DIRECTION_OUT
     \<and> p_tunnel p = None \<and> p_peer_port p = Some b \<and> p_fifo p = Some f \<and> fifo_ok f \<and> q_pend (fifo_abs f) = 0
     \<and> h_actors w (p_actor p) = Some y \<and> a_state y = CC_ACTOR_ENABLED
     \<and> h_ports w b = Some q \<and> p_direction q = CC_PORT_DIRECTION_IN \<and> p_fifo q = Some g \<and> fifo_ok g \<and> fifo_fresh g)"

text \<open>What one transmission makes of the two queues.\<close>

definition moved :: "token_queue \<times> token_queue \<Rightarrow> nat \<Rightarrow> cc_token list \<times> cc_token list" where
  "moved qs cap = (case qs of (out, inq) \<Rightarrow>
     if q_items out \<noteq> [] \<and> length (q_items inq) < cap then (tl (q_items out), q_items inq @ [hd (q_items out)])
     else (q_items out, q_items inq))"

lemma transmit_conn:
  assumes "conn w a b f g"
  shows "\<exists>w' f' g'. cc_port_transmit mp a w = Some w' \<and> w' = w\<lparr>h_ports := h_ports w'\<rparr>
     \<and> (\<forall>c. c \<noteq> a \<and> c \<noteq> b \<longrightarrow> h_ports w' c = h_ports w c)
     \<and> map_option (p_fifo_update (\<lambda>_. None)) (h_ports w' b) = map_option (p_fifo_update (\<lambda>_. None)) (h_ports w b)
     \<and> (\<exists>p q. h_ports w' a = Some p \<and> p_fifo p = Some f' \<and> h_ports w' b = Some q \<and> p_fifo q = Some g')
     \<and> (q_items (fifo_abs f'), q_items (fifo_abs g')) = moved (fifo_abs f, fifo_abs g) (fifo_capacity g)"
proof -
  obtain p q y where c: "h_ports w a = Some p" "p_state p = CC_PORT_ENABLED" "p_direction p = CC_PORT_DIRECTION_OUT"
      "p_tunnel p = None" "p_peer_port p = Some b" "p_fifo p = Some f" "fifo_ok f" "q_pend (fifo_abs f) = 0"
      "h_actors w (p_actor p) = Some y" "a_state y = CC_ACTOR_ENABLED"
    and d: "h_ports w b = Some q" "p_direction q = CC_PORT_DIRECTION_IN" "p_fifo q = Some g" "fifo_ok g" "fifo_fresh g"
    using assms by (auto simp: conn_def)
  have ab: "a \<noteq> b" using c(1,3) d(1,2) by auto
  show ?thesis
  proof (cases "q_items (fifo_abs f)")
    case Nil
    then have "\<not> cc_fifo_tokens_available f 1" using fifo_avail[OF c(7), of 1] by simp
    then have "cc_port_transmit mp a w = Some w" using c by (simp add: cc_port_transmit_def)
    then show ?thesis using c(1,6) d(1,3) Nil by (intro exI[of _ w] exI[of _ f] exI[of _ g]) (simp add: moved_def)
  next
    case (Cons t ts)
    then have "cc_port_transmit mp a w = port_send_token mp a w"
      using transmit_enabled[OF c(1-3,9,10,6,7)] c(8) by simp
    with send_token_local[OF c(1,4,5,6,7,8) Cons ab d(1,3,4,5), of mp] obtain f' g' where
      "cc_port_transmit mp a w = Some (w\<lparr>h_ports := (h_ports w)(a \<mapsto> p\<lparr>p_fifo := Some f'\<rparr>, b \<mapsto> q\<lparr>p_fifo := Some g'\<rparr>)\<rparr>)"
      "if length (q_items (fifo_abs g)) < fifo_capacity g
        then q_items (fifo_abs f') = ts \<and> fifo_abs g' = (fifo_abs g)\<lparr>q_items := q_items (fifo_abs g) @ [t]\<rparr>
        else fifo_abs f' = fifo_abs f \<and> g' = g" by auto
    then show ?thesis using Cons ab d(1)
      by (intro exI[of _ "w\<lparr>h_ports := (h_ports w)(a \<mapsto> p\<lparr>p_fifo := Some f'\<rparr>, b \<mapsto> q\<lparr>p_fifo := Some g'\<rparr>)\<rparr>"] exI[of _ f'] exI[of _ g'])
        (auto simp: moved_def split: if_splits)
  qed
qed

text \<open>
  \<open>sent_by peer w w' A\<close>: between the worlds \<open>w\<close> and \<open>w'\<close> the out ports \<open>A\<close> have sent to their peers, and nothing else has
  changed.
\<close>

definition queue_of :: "world \<Rightarrow> addr \<Rightarrow> cc_fifo \<Rightarrow> bool" where
  "queue_of w a f = (\<exists>p. h_ports w a = Some p \<and> p_fifo p = Some f)"

definition skeleton :: "world \<Rightarrow> addr \<Rightarrow> cc_port option" where
  "skeleton w c = map_option (p_fifo_update (\<lambda>_. None)) (h_ports w c)"

definition delivered :: "world \<Rightarrow> addr \<Rightarrow> addr \<Rightarrow> cc_fifo \<Rightarrow> cc_fifo \<Rightarrow> bool" where
  "delivered w a b f g = (\<exists>f' g'. queue_of w a f' \<and> queue_of w b g'
     \<and> (q_items (fifo_abs f'), q_items (fifo_abs g')) = moved (fifo_abs f, fifo_abs g) (fifo_capacity g))"

definition sent_by :: "(addr \<Rightarrow> addr) \<Rightarrow> world \<Rightarrow> world \<Rightarrow> addr set \<Rightarrow> bool" where
  "sent_by peer w w' A = (w' = w\<lparr>h_ports := h_ports w'\<rparr> \<and> (\<forall>c. c \<notin> A \<union> peer ` A \<longrightarrow> h_ports w' c = h_ports w c)
     \<and> (\<forall>c. c \<notin> A \<longrightarrow> skeleton w' c = skeleton w c)
     \<and> (\<forall>a \<in> A. \<forall>f g. conn w a (peer a) f g \<longrightarrow> delivered w' a (peer a) f g))"

lemma sent_byI:
  assumes "w' = w\<lparr>h_ports := h_ports w'\<rparr>" and "\<And>c. c \<notin> A \<Longrightarrow> c \<notin> peer ` A \<Longrightarrow> h_ports w' c = h_ports w c"
    and "\<And>c. c \<notin> A \<Longrightarrow> skeleton w' c = skeleton w c"
    and "\<And>a f g. a \<in> A \<Longrightarrow> conn w a (peer a) f g \<Longrightarrow> delivered w' a (peer a) f g"
  shows "sent_by peer w w' A"
  unfolding sent_by_def using assms by blast

lemma sent_byD:
  assumes "sent_by peer w w' A"
  shows "w' = w\<lparr>h_ports := h_ports w'\<rparr>" and "c \<notin> A \<Longrightarrow> c \<notin> peer ` A \<Longrightarrow> h_ports w' c = h_ports w c"
    and "c \<notin> A \<Longrightarrow> skeleton w' c = skeleton w c"
    and "a \<in> A \<Longrightarrow> conn w a (peer a) f g \<Longrightarrow> delivered w' a (peer a) f g"
  using assms unfolding sent_by_def by blast+

lemma sent_by_empty [simp]: "sent_by peer w w {}"
  by (simp add: sent_by_def)

lemma sent_by_keeps: "sent_by peer w w' A \<Longrightarrow> h_actors w' = h_actors w \<and> n_actors w' = n_actors w"
  unfolding sent_by_def by (metis world.select_convs(4) world.select_convs(18) world.surjective world.update_convs(3))

lemma sent_by_one: "conn w a (peer a) f g \<Longrightarrow> \<exists>w'. cc_port_transmit mp a w = Some w' \<and> sent_by peer w w' {a}"
proof -
  assume c: "conn w a (peer a) f g"
  have unique: "f' = f \<and> g' = g" if "conn w a (peer a) f' g'" for f' g' using that c by (auto simp: conn_def)
  from transmit_conn[OF c, of mp] obtain w' f' g' where w': "cc_port_transmit mp a w = Some w'" "w' = w\<lparr>h_ports := h_ports w'\<rparr>"
      "\<forall>c. c \<noteq> a \<and> c \<noteq> peer a \<longrightarrow> h_ports w' c = h_ports w c" "skeleton w' (peer a) = skeleton w (peer a)"
      "delivered w' a (peer a) f g"
    unfolding skeleton_def queue_of_def delivered_def by blast
  have "skeleton w' c = skeleton w c" if "c \<noteq> a" for c using w'(3,4) that by (cases "c = peer a") (auto simp: skeleton_def)
  then have "sent_by peer w w' {a}"
    by (intro sent_byI w'(2)) (use w'(3,5) unique in auto)
  with w'(1) show ?thesis by blast
qed

lemma sent_by_conn:
  assumes "sent_by peer w w' A" "conn w a b f g" "a \<notin> A \<union> peer ` A" "b \<notin> A \<union> peer ` A"
  shows "conn w' a b f g"
proof -
  have "h_ports w' a = h_ports w a" "h_ports w' b = h_ports w b" using sent_byD(2)[OF assms(1)] assms(3,4) by auto
  with sent_by_keeps[OF assms(1)] assms(2) show ?thesis by (simp add: conn_def)
qed

lemma sent_by_trans:
  assumes "sent_by peer w w1 A" "sent_by peer w1 w2 B"
    and "A \<inter> B = {}" "inj_on peer (A \<union> B)" "(A \<union> B) \<inter> peer ` (A \<union> B) = {}"
  shows "sent_by peer w w2 (A \<union> B)"
proof -
  have apart: "a \<notin> B \<union> peer ` B" "peer a \<notin> B \<union> peer ` B" if "a \<in> A" for a
    using assms(3-5) that by (auto simp: inj_on_def)
  have apart': "a \<notin> A \<union> peer ` A" "peer a \<notin> A \<union> peer ` A" if "a \<in> B" for a
    using assms(3-5) that by (auto simp: inj_on_def)
  show ?thesis
  proof (rule sent_byI)
    show "w2 = w\<lparr>h_ports := h_ports w2\<rparr>"
      using sent_byD(1)[OF assms(1)] sent_byD(1)[OF assms(2)] by (metis world.update_convs(3) world.surjective)
    show "h_ports w2 c = h_ports w c" if "c \<notin> A \<union> B" "c \<notin> peer ` (A \<union> B)" for c
      using sent_byD(2)[OF assms(1), of c] sent_byD(2)[OF assms(2), of c] that by (simp add: image_Un)
    show "skeleton w2 c = skeleton w c" if "c \<notin> A \<union> B" for c
      using sent_byD(3)[OF assms(1), of c] sent_byD(3)[OF assms(2), of c] that by simp
    show "delivered w2 a (peer a) f g" if "a \<in> A \<union> B" "conn w a (peer a) f g" for a f g
    proof (cases "a \<in> A")
      case True
      then have "delivered w1 a (peer a) f g" using sent_byD(4)[OF assms(1)] that(2) by blast
      moreover have "h_ports w2 a = h_ports w1 a" "h_ports w2 (peer a) = h_ports w1 (peer a)"
        using apart[OF True] sent_byD(2)[OF assms(2)] by auto
      ultimately show ?thesis by (simp add: delivered_def queue_of_def)
    next
      case False
      then have "a \<in> B" using that by simp
      from sent_byD(4)[OF assms(2) this sent_by_conn[OF assms(1) that(2) apart'[OF this]]] show ?thesis .
    qed
  qed
qed

lemma conn_apart:
  assumes "\<And>a. a \<in> A \<Longrightarrow> \<exists>f g. conn w a (peer a) f g"
  shows "A \<inter> peer ` A = {}"
proof (rule ccontr)
  assume "A \<inter> peer ` A \<noteq> {}"
  then obtain a where a: "a \<in> A" "peer a \<in> A" by blast
  with assms[of a] assms[of "peer a"] obtain f g f' g' where "conn w a (peer a) f g" "conn w (peer a) (peer (peer a)) f' g'" by blast
  then show False by (auto simp: conn_def)
qed

lemma transmit_outs:
  assumes "\<forall>i \<in> set l. \<exists>f g. conn w (li_data i) (peer (li_data i)) f g" "distinct (map li_data l)" "inj_on peer (li_data ` set l)"
  shows "\<exists>w'. transmit_ports mp l w = Some w' \<and> sent_by peer w w' (li_data ` set l)"
  using assms
proof (induction l arbitrary: w)
  case (Cons i l)
  let ?a = "li_data i" and ?B = "li_data ` set l"
  obtain w1 where w1: "cc_port_transmit mp ?a w = Some w1" "sent_by peer w w1 {?a}"
  proof -
    obtain f g where "conn w ?a (peer ?a) f g" using Cons.prems(1) by auto
    with sent_by_one[of w ?a peer f g mp] that show thesis by blast
  qed
  have all: "\<exists>f g. conn w a (peer a) f g" if "a \<in> insert ?a ?B" for a using Cons.prems(1) that by auto
  note apart = conn_apart[of "insert ?a ?B", OF all]
  have "\<exists>f g. conn w1 (li_data j) (peer (li_data j)) f g" if j: "j \<in> set l" for j
  proof -
    obtain f g where fg: "conn w (li_data j) (peer (li_data j)) f g" using Cons.prems(1) j by auto
    have "li_data j \<noteq> ?a" using Cons.prems(2) j by (auto simp: image_iff)
    moreover from this have "peer (li_data j) \<noteq> peer ?a" using Cons.prems(3) j by (auto simp: inj_on_def)
    moreover have "li_data j \<noteq> peer ?a" "peer (li_data j) \<noteq> ?a" using apart j by (metis IntI empty_iff imageI insertCI)+
    ultimately show ?thesis using sent_by_conn[OF w1(2) fg] by blast
  qed
  with Cons.IH[of w1] Cons.prems(2,3) obtain w' where w': "transmit_ports mp l w1 = Some w'" "sent_by peer w1 w' ?B"
    by (auto simp: inj_on_def)
  have "sent_by peer w w' ({?a} \<union> ?B)"
    using sent_by_trans[OF w1(2) w'(2)] Cons.prems(2,3) apart by auto
  with w1(1) w'(1) show ?case by auto
qed simp

text \<open>An in port that is connected has nothing to send.\<close>

definition quiet_in :: "world \<Rightarrow> addr \<Rightarrow> bool" where
  "quiet_in w c = (\<exists>q. h_ports w c = Some q \<and> p_state q = CC_PORT_ENABLED \<and> p_direction q = CC_PORT_DIRECTION_IN \<and> h_actors w (p_actor q) \<noteq> None)"

lemma transmit_ins: "\<forall>i \<in> set l. quiet_in w (li_data i) \<Longrightarrow> transmit_ports mp l w = Some w"
  by (induction l) (auto simp: quiet_in_def cc_port_transmit_def)

lemma quiet_in_sent:
  assumes "sent_by peer w w' A" "quiet_in w c" "c \<notin> A"
  shows "quiet_in w' c"
proof -
  obtain q where q: "h_ports w c = Some q" "p_state q = CC_PORT_ENABLED" "p_direction q = CC_PORT_DIRECTION_IN" "h_actors w (p_actor q) \<noteq> None"
    using assms(2) by (auto simp: quiet_in_def)
  have "skeleton w' c = Some (q\<lparr>p_fifo := None\<rparr>)" using sent_byD(3)[OF assms(1,3)] q(1) by (simp add: skeleton_def)
  then obtain q' where q': "h_ports w' c = Some q'" "q'\<lparr>p_fifo := None\<rparr> = q\<lparr>p_fifo := None\<rparr>" by (auto simp: skeleton_def)
  then have "p_state q' = p_state q \<and> p_direction q' = p_direction q \<and> p_actor q' = p_actor q" by (cases q; cases q') simp
  with q q'(1) sent_by_keeps[OF assms(1)] show ?thesis by (simp add: quiet_in_def)
qed

text \<open>The out ports of the actors of a list.\<close>

fun outs_of :: "world \<Rightarrow> addr cc_list \<Rightarrow> addr list" where
  "outs_of w [] = []"
| "outs_of w (item # l) = (case h_actors w (li_data item) of None \<Rightarrow> [] | Some y \<Rightarrow> map li_data (a_out_ports y)) @ outs_of w l"

text \<open>An actor that is enabled, connected and has nothing to do when it is fired.\<close>

definition idle_actor :: "ext \<Rightarrow> (addr \<Rightarrow> addr) \<Rightarrow> world \<Rightarrow> addr \<Rightarrow> bool" where
  "idle_actor x peer w a = (\<exists>y impl. h_actors w a = Some y \<and> a_state y = CC_ACTOR_ENABLED \<and> a_impl y = Some impl
     \<and> (\<forall>w'. h_actors w' = h_actors w \<longrightarrow> ac_fire (x_actors x impl) a w' = Some (False, w'))
     \<and> (\<forall>i \<in> set (a_in_ports y). quiet_in w (li_data i))
     \<and> (\<forall>i \<in> set (a_out_ports y). \<exists>f g. conn w (li_data i) (peer (li_data i)) f g))"

lemma run_idle:
  assumes "idle_actor x peer w a" "h_actors w a = Some y" "distinct (map li_data (a_out_ports y))" "inj_on peer (li_data ` set (a_out_ports y))"
  shows "\<exists>w'. run_actor x a w = Some (False, w') \<and> sent_by peer w w' (li_data ` set (a_out_ports y))"
proof -
  obtain impl where i: "a_state y = CC_ACTOR_ENABLED" "a_impl y = Some impl" "ac_fire (x_actors x impl) a w = Some (False, w)"
      "\<forall>i \<in> set (a_in_ports y). quiet_in w (li_data i)" "\<forall>i \<in> set (a_out_ports y). \<exists>f g. conn w (li_data i) (peer (li_data i)) f g"
    using assms(1,2) by (auto simp: idle_actor_def)
  from transmit_outs[OF i(5) assms(3,4), of "x_mp x"] obtain w' where
    "transmit_ports (x_mp x) (a_out_ports y) w = Some w'" "sent_by peer w w' (li_data ` set (a_out_ports y))" by blast
  then show ?thesis using assms(2) i transmit_ins[OF i(4)] by (simp add: run_actor_def actor_fns_def)
qed

lemma idle_sent:
  assumes "sent_by peer w w' A" "idle_actor x peer w a" "h_actors w a = Some y" "\<And>c. c \<in> A \<Longrightarrow> \<exists>f g. conn w c (peer c) f g"
    and "A \<inter> li_data ` set (a_out_ports y) = {}" "inj_on peer (A \<union> li_data ` set (a_out_ports y))"
  shows "idle_actor x peer w' a"
proof -
  let ?B = "li_data ` set (a_out_ports y)"
  obtain impl where i: "a_state y = CC_ACTOR_ENABLED" "a_impl y = Some impl"
      "\<forall>w'. h_actors w' = h_actors w \<longrightarrow> ac_fire (x_actors x impl) a w' = Some (False, w')"
      "\<forall>i \<in> set (a_in_ports y). quiet_in w (li_data i)" "\<forall>i \<in> set (a_out_ports y). \<exists>f g. conn w (li_data i) (peer (li_data i)) f g"
    using assms(2,3) by (auto simp: idle_actor_def)
  have apart: "(A \<union> ?B) \<inter> peer ` (A \<union> ?B) = {}" using i(5) assms(4) by (intro conn_apart) auto
  have "quiet_in w' (li_data k)" if "k \<in> set (a_in_ports y)" for k
  proof (rule quiet_in_sent[OF assms(1)])
    show "quiet_in w (li_data k)" using i(4) that by blast
    then show "li_data k \<notin> A" using assms(4) by (fastforce simp: quiet_in_def conn_def)
  qed
  moreover have "\<exists>f g. conn w' (li_data k) (peer (li_data k)) f g" if k: "k \<in> set (a_out_ports y)" for k
  proof -
    obtain f g where fg: "conn w (li_data k) (peer (li_data k)) f g" using i(5) k by blast
    have "li_data k \<notin> A \<union> peer ` A" "peer (li_data k) \<notin> A \<union> peer ` A"
      using apart assms(5) k inj_onD[OF assms(6), of "li_data k"] by auto
    from sent_by_conn[OF assms(1) fg this] show ?thesis by blast
  qed
  moreover have "\<forall>v. h_actors v = h_actors w' \<longrightarrow> ac_fire (x_actors x impl) a v = Some (False, v)"
    using i(3) sent_by_keeps[OF assms(1)] by simp
  ultimately show ?thesis
    using i(1,2) assms(3) sent_by_keeps[OF assms(1)] unfolding idle_actor_def
    by (intro exI[of _ y] exI[of _ impl]) simp
qed

lemma outs_of_cong: "h_actors w' = h_actors w \<Longrightarrow> outs_of w' l = outs_of w l"
  by (induction l) simp_all

lemma outs_of_set:
  "set (outs_of w l) = (\<Union>j \<in> set l. case h_actors w (li_data j) of None \<Rightarrow> {} | Some y \<Rightarrow> li_data ` set (a_out_ports y))"
  by (induction l) (auto split: option.splits)

lemma idle_conn:
  assumes "\<forall>item \<in> set l. idle_actor x peer w (li_data item)" and "c \<in> set (outs_of w l)"
  shows "\<exists>f g. conn w c (peer c) f g"
proof -
  obtain j y where "j \<in> set l" "h_actors w (li_data j) = Some y" "c \<in> li_data ` set (a_out_ports y)"
    using assms(2) by (auto simp: outs_of_set split: option.splits)
  then show ?thesis using assms(1) by (auto simp: idle_actor_def)
qed

lemma fire_idle:
  assumes "\<forall>item \<in> set l. idle_actor x peer w (li_data item)" "distinct (outs_of w l)" "inj_on peer (set (outs_of w l))" "set l \<subseteq> set (n_actors w)"
  shows "\<exists>w'. fire_loop x l fired w = Some (fired, w') \<and> sent_by peer w w' (set (outs_of w l))"
  using assms
proof (induction l arbitrary: w)
  case (Cons item l)
  let ?a = "li_data item"
  obtain y where y: "h_actors w ?a = Some y" "a_state y = CC_ACTOR_ENABLED" using Cons.prems(1) by (auto simp: idle_actor_def)
  let ?A = "li_data ` set (a_out_ports y)" and ?B = "set (outs_of w l)"
  have outs: "set (outs_of w (item # l)) = ?A \<union> ?B" using y(1) by simp
  have inj: "inj_on peer (?A \<union> ?B)" and disj: "?A \<inter> ?B = {}" using Cons.prems(2,3) y(1) by auto
  have all: "\<exists>f g. conn w c (peer c) f g" if "c \<in> ?A \<union> ?B" for c
    using idle_conn[OF Cons.prems(1)] that unfolding outs by blast
  have d: "distinct (map li_data (a_out_ports y))" "inj_on peer ?A" using Cons.prems(2) y(1) inj by (auto intro: inj_on_subset)
  obtain w1 where w1: "run_actor x ?a w = Some (False, w1)" "sent_by peer w w1 ?A"
    using run_idle[OF _ y(1) d, of x] Cons.prems(1) by auto
  note keep = sent_by_keeps[OF w1(2)]
  have "idle_actor x peer w1 (li_data j)" if j: "j \<in> set l" for j
  proof -
    have idle: "idle_actor x peer w (li_data j)" using Cons.prems(1) j by simp
    then obtain z where z: "h_actors w (li_data j) = Some z" by (auto simp: idle_actor_def)
    have sub: "li_data ` set (a_out_ports z) \<subseteq> ?B" using j z by (force simp: outs_of_set)
    show ?thesis
    proof (rule idle_sent[OF w1(2) idle z])
      show "\<exists>f g. conn w c (peer c) f g" if "c \<in> ?A" for c using all[of c] that by simp
      show "?A \<inter> li_data ` set (a_out_ports z) = {}" using disj sub by blast
      show "inj_on peer (?A \<union> li_data ` set (a_out_ports z))" by (rule inj_on_subset[OF inj]) (use sub in blast)
    qed
  qed
  then obtain w' where w': "fire_loop x l fired w1 = Some (fired, w')" "sent_by peer w1 w' ?B"
    using Cons.IH[of w1] Cons.prems(2-4) keep inj outs_of_cong[of w1 w l] y(1) by (auto intro: inj_on_subset)
  have "sent_by peer w w' (?A \<union> ?B)" using sent_by_trans[OF w1(2) w'(2) disj inj] conn_apart[OF all] by blast
  moreover have "fire_loop x (item # l) fired w = Some (fired, w')"
    using Cons.prems(4) y w1(1) w'(1) by simp
  ultimately show ?case using outs by simp
qed simp

section \<open>Properties\<close>


definition example_round :: world where
  "example_round = (example_ports None)\<lparr>
     h_actors := [20 \<mapsto> (example_actor ''A'' [] [example_port_item ''o'' 10])\<lparr>a_impl := Some ''A''\<rparr>,
                  21 \<mapsto> (example_actor ''B'' [example_port_item ''i'' 11] [])\<lparr>a_impl := Some ''B''\<rparr>]\<rparr>"


end
