(* ===== verification/Actor_Base.thy ===== *)
theory Actor_Base
  imports Scheduler
begin

text \<open>
  What the builtin actors under \<open>src/actors\<close> do alike: keep a state behind the actor, open objects of calvinsys and
  remember their identifiers, report their attributes and requirements, and move tokens through their
  first in and out port. \<open>None\<close> is a fault, as everywhere.
\<close>

section \<open>The state of an instance\<close>

definition set_instance :: "addr \<Rightarrow> actor_instance \<Rightarrow> world \<Rightarrow> world option" where
  "set_instance a s w = upd_actor a (\<lambda>actor. actor\<lparr>a_instance := Some s\<rparr>) w"

definition get_instance :: "addr \<Rightarrow> world \<Rightarrow> actor_instance option" where
  "get_instance a w = do { actor \<leftarrow> h_actors w a; a_instance actor }"

text \<open>\<open>if (actor->instance_state != NULL) cc_platform_mem_free(actor->instance_state)\<close>: the pointer stays.\<close>

definition keep_pointer :: "addr \<Rightarrow> world \<Rightarrow> world option" where
  "keep_pointer a w = do { actor \<leftarrow> h_actors w a; Some w }"

text \<open>\<open>memcpy\<close> of a stored value into memory of its length.\<close>

definition copy_value :: "bytes cc_list_item \<Rightarrow> bytes option" where
  "copy_value item = (if li_data_len item \<le> length (li_data item) then Some (take (li_data_len item) (li_data item)) else None)"

section \<open>Objects of calvinsys\<close>

text \<open>\<open>cc_calvinsys_open\<close> and the copy of the identifier into the state. The inner \<open>None\<close> is the null pointer.\<close>

definition open_ref :: "ext \<Rightarrow> addr \<Rightarrow> bytes \<Rightarrow> bytes cc_list \<Rightarrow> world \<Rightarrow> (bytes option \<times> world) option" where
  "open_ref x a name kwargs w = do {
     (r, kwargs, w) \<leftarrow> cc_calvinsys_open x a name kwargs w;
     case r of None \<Rightarrow> Some (None, w)
     | Some obj_ref \<Rightarrow> do { s \<leftarrow> strncpy_term CC_UUID_BUFFER_SIZE obj_ref (strlen obj_ref); Some (Some s, w) } }"

text \<open>An identifier in an attribute, copied into the state.\<close>

definition decode_ref :: "mp \<Rightarrow> bytes \<Rightarrow> bytes option option" where
  "decode_ref mp data = do {
     d \<leftarrow> cc_coder_decode_str mp data;
     case d of None \<Rightarrow> Some None
     | Some (obj_ref, obj_ref_len) \<Rightarrow> do { s \<leftarrow> strncpy_term CC_UUID_BUFFER_SIZE obj_ref (unat obj_ref_len); Some (Some s) } }"

definition attr_ref :: "mp \<Rightarrow> bytes cc_list \<Rightarrow> bytes \<Rightarrow> bytes option option" where
  "attr_ref mp attrs key = (case cc_list_get attrs key of None \<Rightarrow> Some None | Some item \<Rightarrow> decode_ref mp (li_data item))"

text \<open>What \<open>cc_calvinsys_read\<close> leaves in the variables for the data and its size, which start as null and 0.\<close>

fun out_data :: "(bytes \<times> nat) option \<Rightarrow> bytes option \<times> nat" where
  "out_data None = (None, 0)"
| "out_data (Some (d, n)) = (Some d, n)"

section \<open>Attributes and requirements\<close>

text \<open>A new pair in the list of attributes, for a pointer the state holds and for a value in memory of \<open>cap\<close> bytes.\<close>

definition put_pointer :: "bytes \<Rightarrow> bytes option \<Rightarrow> nat \<Rightarrow> bytes option cc_list \<Rightarrow> world \<Rightarrow>
    (cc_result \<times> bytes option cc_list \<times> world) option" where
  "put_pointer key p n l w = Some (case cc_list_add_n l key (length key) p n w of
     (None, l, w) \<Rightarrow> (CC_FAIL, l, w) | (Some _, l, w) \<Rightarrow> (CC_SUCCESS, l, w))"

definition put_value :: "bytes \<Rightarrow> nat \<Rightarrow> bytes \<Rightarrow> nat \<Rightarrow> bytes option cc_list \<Rightarrow> world \<Rightarrow>
    (cc_result \<times> bytes option cc_list \<times> world) option" where
  "put_value key cap v n l w = (case mem_alloc w of
     (False, w) \<Rightarrow> Some (CC_FAIL, l, w)
   | (True, w) \<Rightarrow> if cap < length v then None else put_pointer key (Some v) n l w)"

definition put_str :: "mp \<Rightarrow> bytes \<Rightarrow> bytes \<Rightarrow> bytes option cc_list \<Rightarrow> world \<Rightarrow>
    (cc_result \<times> bytes option cc_list \<times> world) option" where
  "put_str mp key s l w =
     (let b = cc_coder_encode_str mp [] s (of_nat (strlen s))
      in put_value key (unat (cc_coder_sizeof_str mp (of_nat (strlen s)))) b (length b) l w)"

definition put_uint :: "mp \<Rightarrow> bytes \<Rightarrow> u32 \<Rightarrow> bytes option cc_list \<Rightarrow> world \<Rightarrow>
    (cc_result \<times> bytes option cc_list \<times> world) option" where
  "put_uint mp key v l w =
     (let n = unat (cc_coder_sizeof_uint mp v) in put_value key n (cc_coder_encode_uint mp [] v) n l w)"

definition put_bool :: "mp \<Rightarrow> bytes \<Rightarrow> bool \<Rightarrow> bytes option cc_list \<Rightarrow> world \<Rightarrow>
    (cc_result \<times> bytes option cc_list \<times> world) option" where
  "put_bool mp key v l w =
     (let b = cc_coder_encode_bool mp [] v in put_value key (unat (cc_coder_sizeof_bool mp v)) b (length b) l w)"

definition put_nil :: "mp \<Rightarrow> bytes \<Rightarrow> bytes option cc_list \<Rightarrow> world \<Rightarrow> (cc_result \<times> bytes option cc_list \<times> world) option" where
  "put_nil mp key l w =
     (let b = cc_coder_encode_nil mp [] in put_value key (unat (cc_coder_sizeof_nil mp)) b (length b) l w)"

text \<open>The next step after one that may have failed.\<close>

definition and_put :: "(cc_result \<times> 'l \<times> world) option \<Rightarrow> ('l \<Rightarrow> world \<Rightarrow> (cc_result \<times> 'l \<times> world) option) \<Rightarrow>
    (cc_result \<times> 'l \<times> world) option" where
  "and_put m k = do { (r, l, w) \<leftarrow> m; if r = CC_SUCCESS then k l w else Some (CC_FAIL, l, w) }"

fun put_requires :: "bytes list \<Rightarrow> unit cc_list \<Rightarrow> world \<Rightarrow> (cc_result \<times> unit cc_list \<times> world) option" where
  "put_requires [] l w = Some (CC_SUCCESS, l, w)"
| "put_requires (name # names) l w = (case cc_list_add_n l name (length name) () 0 w of
     (None, l, w) \<Rightarrow> Some (CC_FAIL, l, w)
   | (Some _, l, w) \<Rightarrow> put_requires names l w)"

section \<open>Ports\<close>

definition in_port :: "addr \<Rightarrow> world \<Rightarrow> addr option" where
  "in_port a w = do { actor \<leftarrow> h_actors w a; case a_in_ports actor of [] \<Rightarrow> None | item # _ \<Rightarrow> Some (li_data item) }"

definition out_port :: "addr \<Rightarrow> world \<Rightarrow> addr option" where
  "out_port a w = do { actor \<leftarrow> h_actors w a; case a_out_ports actor of [] \<Rightarrow> None | item # _ \<Rightarrow> Some (li_data item) }"

definition port_fifo :: "addr \<Rightarrow> world \<Rightarrow> cc_fifo option" where
  "port_fifo p w = do { port \<leftarrow> h_ports w p; p_fifo port }"

definition has_token :: "addr \<Rightarrow> world \<Rightarrow> bool option" where
  "has_token p w = do { f \<leftarrow> port_fifo p w; Some (cc_fifo_tokens_available f 1) }"

definition has_slot :: "addr \<Rightarrow> world \<Rightarrow> bool option" where
  "has_slot p w = do { f \<leftarrow> port_fifo p w; cc_fifo_slots_available f 1 }"

definition peek_port :: "addr \<Rightarrow> world \<Rightarrow> (cc_token \<times> world) option" where
  "peek_port p w = with_fifo p (\<lambda>f. do { (i, f) \<leftarrow> cc_fifo_peek f;
     if i < length (f_tokens f) then Some (f_tokens f ! i, f) else None }) w"

definition write_port :: "addr \<Rightarrow> bytes option \<times> nat \<Rightarrow> world \<Rightarrow> (cc_result \<times> world) option" where
  "write_port p d w = with_fifo p (\<lambda>f. cc_fifo_write f (fst d) (snd d)) w"

definition commit_port :: "addr \<Rightarrow> bool \<Rightarrow> world \<Rightarrow> world option" where
  "commit_port p free_token w = do { (_, w) \<leftarrow> with_fifo p (\<lambda>f. do { f \<leftarrow> cc_fifo_commit_read f free_token; Some ((), f) }) w; Some w }"

definition cancel_port :: "addr \<Rightarrow> world \<Rightarrow> world option" where
  "cancel_port p w = do { (_, w) \<leftarrow> with_fifo p (\<lambda>f. Some ((), cc_fifo_cancel_commit f)) w; Some w }"

text \<open>A value read from an object goes out as a token.\<close>

definition read_to_port :: "ext \<Rightarrow> bytes \<Rightarrow> addr \<Rightarrow> world \<Rightarrow> (bool \<times> world) option" where
  "read_to_port x obj_ref p w = do {
     (r, d, w) \<leftarrow> cc_calvinsys_read x obj_ref w;
     if r \<noteq> CC_SUCCESS then Some (False, w)
     else do { (r, w) \<leftarrow> write_port p (out_data d) w; Some (r = CC_SUCCESS, w) } }"

section \<open>Ports and their queues\<close>

text \<open>The port at \<open>p\<close> with its queue \<open>f\<close>, none of whose tokens is on its way.\<close>

definition port_queue :: "world \<Rightarrow> addr \<Rightarrow> cc_port \<Rightarrow> cc_fifo \<Rightarrow> bool" where
  "port_queue w p port f = (h_ports w p = Some port \<and> p_fifo port = Some f \<and> fifo_ok f \<and> q_pend (fifo_abs f) = 0)"

abbreviation set_queue :: "addr \<Rightarrow> cc_port \<Rightarrow> cc_fifo \<Rightarrow> world \<Rightarrow> world" where
  "set_queue p port f w \<equiv> w\<lparr>h_ports := (h_ports w)(p \<mapsto> port\<lparr>p_fifo := Some f\<rparr>)\<rparr>"

lemma port_queueD: "port_queue w p port f \<Longrightarrow> h_ports w p = Some port \<and> p_fifo port = Some f \<and> fifo_ok f \<and> q_pend (fifo_abs f) = 0"
  by (simp add: port_queue_def)

lemma has_token_eq [simp]: "port_queue w p port f \<Longrightarrow> has_token p w = Some (q_items (fifo_abs f) \<noteq> [])"
  by (auto simp: port_queue_def has_token_def port_fifo_def fifo_avail Suc_le_eq)

lemma has_slot_eq [simp]: "port_queue w p port f \<Longrightarrow> has_slot p w = Some (length (q_items (fifo_abs f)) < fifo_capacity f)"
  by (auto simp: port_queue_def has_slot_def port_fifo_def fifo_slots)

lemma write_port_ok:
  assumes "port_queue w p port f" "fifo_fresh f" "length (q_items (fifo_abs f)) < fifo_capacity f"
  shows "\<exists>f'. write_port p (d, n) w = Some (CC_SUCCESS, set_queue p port f' w) \<and> fifo_ok f' \<and> q_pend (fifo_abs f') = 0
     \<and> q_items (fifo_abs f') = q_items (fifo_abs f) @ [\<lparr>tok_value = d, tok_size = n\<rparr>]"
proof -
  obtain f' where "cc_fifo_write f d n = Some (CC_SUCCESS, f')" "fifo_ok f'" "fifo_abs f' = q_write d n (fifo_abs f)"
    using fifo_write_ok[OF _ assms(2,3), of d n] port_queueD[OF assms(1)] by blast
  then show ?thesis using port_queueD[OF assms(1)] with_fifo_eq[of w p port f "\<lambda>f. cc_fifo_write f d n" CC_SUCCESS f']
    by (intro exI[of _ f']) (simp add: write_port_def q_write_def)
qed

lemma write_port_full:
  assumes "port_queue w p port f" "\<not> length (q_items (fifo_abs f)) < fifo_capacity f"
  shows "write_port p (d, n) w = Some (CC_FAIL, w)"
proof -
  have q: "h_ports w p = Some port" "p_fifo port = Some f" "fifo_ok f" using port_queueD[OF assms(1)] by auto
  have "set_queue p port f w = w" using q(1,2) by (cases port) (simp add: fun_upd_idem)
  with with_fifo_eq[OF q(1,2), of "\<lambda>f. cc_fifo_write f d n" CC_FAIL f] fifo_write_full[OF q(3) assms(2), of d n]
  show ?thesis by (simp add: write_port_def)
qed

lemma peek_port_ok:
  assumes "port_queue w p port f" "q_items (fifo_abs f) = t # ts"
  shows "\<exists>f1. peek_port p w = Some (t, set_queue p port f1 w) \<and> fifo_ok f1 \<and> fifo_abs f1 = q_peek (fifo_abs f)"
proof -
  obtain s f1 where "peek_token f = Some ((t, s), f1)" "fifo_ok f1" "fifo_abs f1 = q_peek (fifo_abs f)"
    using peek_token_ok[of f] port_queueD[OF assms(1)] assms(2) by auto
  then have "do { (i, f) \<leftarrow> cc_fifo_peek f; if i < length (f_tokens f) then Some (f_tokens f ! i, f) else None } = Some (t, f1)"
    by (auto simp: peek_token_def cc_fifo_com_peek_def Let_def split: if_splits)
  with with_fifo_eq[of w p port f "\<lambda>f. do { (i, f) \<leftarrow> cc_fifo_peek f; if i < length (f_tokens f) then Some (f_tokens f ! i, f) else None }" t f1]
    port_queueD[OF assms(1)] \<open>fifo_ok f1\<close> \<open>fifo_abs f1 = q_peek (fifo_abs f)\<close>
  show ?thesis by (intro exI[of _ f1]) (simp add: peek_port_def del: bind_Some_iff)
qed

lemma commit_port_ok:
  assumes "h_ports w p = Some port" "p_fifo port = Some f1" "fifo_ok f1" "fifo_abs f1 = q_peek q" "q_pend q = 0" "q_items q = t # ts"
  shows "\<exists>f'. commit_port p b w = Some (set_queue p port f' w) \<and> fifo_ok f' \<and> q_pend (fifo_abs f') = 0 \<and> q_items (fifo_abs f') = ts"
proof -
  obtain f' where f': "cc_fifo_commit_read f1 b = Some f'" "fifo_ok f'" "fifo_abs f' = q_commit (fifo_abs f1)"
    using fifo_commit_ok[OF assms(3), of b] by blast
  then have "with_fifo p (\<lambda>f. do { f \<leftarrow> cc_fifo_commit_read f b; Some ((), f) }) w = Some ((), set_queue p port f' w)"
    using assms(1,2) by (intro with_fifo_eq) simp_all
  then show ?thesis using f' assms(4-6) by (intro exI[of _ f']) (simp add: commit_port_def q_commit_def q_peek_def)
qed

lemma set_queue_twist: "p \<noteq> q \<Longrightarrow> (h_ports w)(p \<mapsto> x, q \<mapsto> y, p \<mapsto> z) = (h_ports w)(p \<mapsto> z, q \<mapsto> y)"
  by (auto simp: fun_eq_iff)

section \<open>Timers the actors use\<close>

text \<open>The identifier \<open>i\<close> names a timer: the object at \<open>ob\<close>, in the state \<open>t\<close>.\<close>

definition timer_obj :: "world \<Rightarrow> bytes \<Rightarrow> addr \<Rightarrow> cc_calvinsys_timer \<Rightarrow> bool" where
  "timer_obj w i ob t = (\<exists>item y. cc_list_get (n_objects w) i = Some item \<and> li_data item = ob \<and> h_objs w ob = Some y
     \<and> o_impl y = Some Impl_timer \<and> o_state y = OS_timer t \<and> h_caps w (o_capability y) \<noteq> None)"

definition put_timer :: "addr \<Rightarrow> cc_calvinsys_timer \<Rightarrow> world \<Rightarrow> world" where
  "put_timer ob t w = w\<lparr>h_objs := (h_objs w)(ob := map_option (o_state_update (\<lambda>_. OS_timer t)) (h_objs w ob))\<rparr>"

lemma put_timer_simps [simp]:
  "h_ports (put_timer ob t w) = h_ports w" "h_actors (put_timer ob t w) = h_actors w" "e_alloc (put_timer ob t w) = e_alloc w"
  "n_objects (put_timer ob t w) = n_objects w" "h_caps (put_timer ob t w) = h_caps w" "cc_node_get_time (put_timer ob t w) = cc_node_get_time w"
  "put_timer ob t (put_timer ob t' w) = put_timer ob t w"
  by (simp_all add: put_timer_def cc_node_get_time_def option.map_comp comp_def)

lemma timer_obj_put: "timer_obj w i ob t \<Longrightarrow> timer_obj (put_timer ob t' w) i ob t'"
  by (auto simp: timer_obj_def put_timer_def)

lemma timer_obj_cong: "n_objects w' = n_objects w \<Longrightarrow> h_objs w' = h_objs w \<Longrightarrow> h_caps w' = h_caps w \<Longrightarrow> timer_obj w' i ob t = timer_obj w i ob t"
  by (simp add: timer_obj_def)

lemma timer_can_read: "timer_obj w i ob t \<Longrightarrow> cc_calvinsys_can_read x i w = Some (ct_triggered t, w)"
  by (auto simp: timer_obj_def cc_calvinsys_can_read_def obj_can_read_def cc_calvinsys_timer_can_read_def get_timer_def)

lemma timer_can_write: "timer_obj w i ob t \<Longrightarrow> cc_calvinsys_can_write x i w = Some (\<not> (ct_triggered t \<or> ct_armed t), w)"
  by (auto simp: timer_obj_def cc_calvinsys_can_write_def obj_can_write_def cc_calvinsys_timer_can_write_def get_timer_def)

definition timer_after_read :: "world \<Rightarrow> cc_calvinsys_timer \<Rightarrow> cc_calvinsys_timer" where
  "timer_after_read w t = (let t = t\<lparr>ct_triggered := False\<rparr> in if ct_repeats t then cc_calvinsys_timer_set w t (ct_timeout t) else t)"

lemma timer_read:
  assumes "timer_obj w i ob t"
  shows "cc_calvinsys_read x i w = Some (CC_SUCCESS, None, put_timer ob (timer_after_read w t) w)"
proof -
  obtain item y where "cc_list_get (n_objects w) i = Some item" "li_data item = ob" "h_objs w ob = Some y"
      "o_impl y = Some Impl_timer" "o_state y = OS_timer t" "h_caps w (o_capability y) \<noteq> None"
    using assms by (auto simp: timer_obj_def)
  then show ?thesis
    by (auto simp: cc_calvinsys_read_def obj_read_def cc_calvinsys_timer_read_def get_timer_def obj_capability_def set_obj_state_def
        upd_obj_def put_timer_def timer_after_read_def Let_def)
qed

lemma timer_write_busy:
  "timer_obj w i ob t \<Longrightarrow> ct_triggered t \<or> ct_armed t \<Longrightarrow> cc_calvinsys_write x i d n w = Some (CC_FAIL, w)"
  by (auto simp: timer_obj_def cc_calvinsys_write_def obj_write_def cc_calvinsys_timer_write_def cc_calvinsys_timer_can_write_def get_timer_def)

lemma timer_write_free:
  assumes "timer_obj w i ob t" "\<not> ct_triggered t" "\<not> ct_armed t" "cc_coder_decode_uint (x_mp x) d = Some (Some v)"
  shows "cc_calvinsys_write x i d n w = Some (CC_SUCCESS, put_timer ob (cc_calvinsys_timer_set w (t\<lparr>ct_timeout := v\<rparr>) v) w)"
proof -
  obtain item y where "cc_list_get (n_objects w) i = Some item" "li_data item = ob" "h_objs w ob = Some y"
      "o_impl y = Some Impl_timer" "o_state y = OS_timer t" "h_caps w (o_capability y) \<noteq> None"
    using assms(1) by (auto simp: timer_obj_def)
  then show ?thesis using assms(2-4)
    by (auto simp: cc_calvinsys_write_def obj_write_def cc_calvinsys_timer_write_def cc_calvinsys_timer_can_write_def get_timer_def
        obj_capability_def set_obj_state_def upd_obj_def put_timer_def)
qed

lemma timer_set_simps [simp]:
  "ct_armed (cc_calvinsys_timer_set w t v)" "ct_triggered (cc_calvinsys_timer_set w t v) = ct_triggered t"
  "ct_next_time (cc_calvinsys_timer_set w t v) = cc_node_get_time w + v" "ct_timeout (cc_calvinsys_timer_set w t v) = ct_timeout t"
  "ct_repeats (cc_calvinsys_timer_set w t v) = ct_repeats t"
  by (simp_all add: cc_calvinsys_timer_set_def)

end
