(* ===== verification/Builtin_Std.thy ===== *)
theory Builtin_Std
  imports Actor_Base
begin

text \<open>
  The actor types of \<open>src/actors/std\<close> and \<open>src/actors/test\<close>: the identity, which passes tokens on, its variant that
  marks them with the number of the replica, and the counter that is driven by a timer.
\<close>

section \<open>Identity\<close>

definition attr_bool :: "mp \<Rightarrow> bytes cc_list \<Rightarrow> bytes \<Rightarrow> bool option option" where
  "attr_bool mp attrs key = (case cc_list_get attrs key of None \<Rightarrow> Some (Some False) | Some item \<Rightarrow> cc_coder_decode_bool mp (li_data item))"

definition cc_actor_identity_init :: "ext \<Rightarrow> addr \<Rightarrow> bytes cc_list \<Rightarrow> world \<Rightarrow> (cc_result \<times> world) option" where
  "cc_actor_identity_init x a attrs w =
     must (attr_bool (x_mp x) attrs ''dump'') (Some (CC_FAIL, w)) (\<lambda>dump.
       case mem_alloc w of
         (False, w) \<Rightarrow> Some (CC_FAIL, w)
       | (True, w) \<Rightarrow> do { w \<leftarrow> set_instance a (Inst_identity \<lparr>idn_dump = dump\<rparr>) w; Some (CC_SUCCESS, w) })"

definition cc_actor_identity_set_state :: "ext \<Rightarrow> addr \<Rightarrow> bytes cc_list \<Rightarrow> world \<Rightarrow> (cc_result \<times> world) option" where
  "cc_actor_identity_set_state x a attrs w = cc_actor_identity_init x a attrs w"

definition cc_actor_identity_fire :: "addr \<Rightarrow> world \<Rightarrow> (bool \<times> world) option" where
  "cc_actor_identity_fire a w = do {
     inport \<leftarrow> in_port a w;
     outport \<leftarrow> out_port a w;
     tokens \<leftarrow> has_token inport w;
     if \<not> tokens then Some (False, w)
     else do {
       slots \<leftarrow> has_slot outport w;
       if \<not> slots then Some (False, w)
       else do {
         (token, w) \<leftarrow> peek_port inport w;
         (r, w) \<leftarrow> write_port outport (tok_value token, tok_size token) w;
         if r \<noteq> CC_SUCCESS then do { w \<leftarrow> cancel_port inport w; Some (False, w) }
         else do { w \<leftarrow> commit_port inport False w; Some (True, w) } } } }"

definition cc_actor_identity_free :: "addr \<Rightarrow> world \<Rightarrow> world option" where
  "cc_actor_identity_free a w = keep_pointer a w"

definition cc_actor_identity_get_attributes :: "ext \<Rightarrow> addr \<Rightarrow> world \<Rightarrow> (cc_result \<times> bytes option cc_list \<times> world) option" where
  "cc_actor_identity_get_attributes x a w = do {
     actor \<leftarrow> h_actors w a;
     case a_instance actor of
       None \<Rightarrow> Some (CC_FAIL, [], w)
     | Some (Inst_identity state) \<Rightarrow>
         and_put (put_bool (x_mp x) ''dump'' (idn_dump state) [] w) (put_nil (x_mp x) ''last'')
     | _ \<Rightarrow> None }"

definition cc_actor_identity_setup :: "ext \<Rightarrow> actor_ops" where
  "cc_actor_identity_setup x = \<lparr>ac_init = cc_actor_identity_init x, ac_set_state = cc_actor_identity_set_state x,
     ac_free_state = Some cc_actor_identity_free, ac_fire = cc_actor_identity_fire,
     ac_get_managed_attributes = Some (cc_actor_identity_get_attributes x), ac_will_migrate = None, ac_will_end = None,
     ac_did_migrate = None, ac_did_replicate = None, ac_get_requires = None\<rparr>"

section \<open>Identity of a replica\<close>

text \<open>A value that cannot be decoded counts as missing.\<close>

definition or_default :: "'v \<Rightarrow> (bytes \<Rightarrow> 'v option option) \<Rightarrow> bytes cc_list \<Rightarrow> bytes \<Rightarrow> 'v option" where
  "or_default v decode attrs key = (case cc_list_get attrs key of None \<Rightarrow> Some v
     | Some item \<Rightarrow> do { d \<leftarrow> decode (li_data item); Some (case d of None \<Rightarrow> v | Some v \<Rightarrow> v) })"

definition cc_actor_replica_identity_init :: "ext \<Rightarrow> addr \<Rightarrow> bytes cc_list \<Rightarrow> world \<Rightarrow> (cc_result \<times> world) option" where
  "cc_actor_replica_identity_init x a attrs w = do {
     dump \<leftarrow> or_default False (cc_coder_decode_bool (x_mp x)) attrs ''dump'';
     index \<leftarrow> or_default 0 (cc_coder_decode_uint (x_mp x)) attrs ''index'';
     case mem_alloc w of
       (False, w) \<Rightarrow> Some (CC_FAIL, w)
     | (True, w) \<Rightarrow> do {
         w \<leftarrow> set_instance a (Inst_replica_identity \<lparr>rid_dump = dump, rid_index = index\<rparr>) w; Some (CC_SUCCESS, w) } }"

definition cc_actor_replica_identity_set_state :: "ext \<Rightarrow> addr \<Rightarrow> bytes cc_list \<Rightarrow> world \<Rightarrow> (cc_result \<times> world) option" where
  "cc_actor_replica_identity_set_state x a attrs w = cc_actor_replica_identity_init x a attrs w"

definition get_replica_identity :: "addr \<Rightarrow> world \<Rightarrow> cc_actor_replica_identity_state option" where
  "get_replica_identity a w = do { s \<leftarrow> get_instance a w; case s of Inst_replica_identity st \<Rightarrow> Some st | _ \<Rightarrow> None }"

definition cc_actor_replica_identity_did_replicate :: "addr \<Rightarrow> u32 \<Rightarrow> world \<Rightarrow> world option" where
  "cc_actor_replica_identity_did_replicate a index w = do {
     state \<leftarrow> get_replica_identity a w;
     set_instance a (Inst_replica_identity (state\<lparr>rid_index := index\<rparr>)) w }"

text \<open>\<open>%d\<close>, with the value read as a signed integer.\<close>

definition show_d :: "u32 \<Rightarrow> bytes" where
  "show_d v = (if sint v < 0 then CHR ''-'' # show_nat (nat (- sint v)) else show_nat (nat (sint v)))"

text \<open>
  The text has at most 23 characters and fits the buffer of 30 bytes, its encoding the memory of 40: a longer
  one would be a fault.
\<close>

definition replica_token :: "mp \<Rightarrow> u32 \<Rightarrow> u32 \<Rightarrow> bytes option" where
  "replica_token mp index token_nbr =
     (let token_str = show_d index @ CHR '':'' # show_d token_nbr;
          b = cc_coder_encode_str mp [] token_str (of_nat (length token_str))
      in if length token_str < 30 \<and> length b \<le> 40 then Some b else None)"

definition cc_actor_replica_identity_fire :: "ext \<Rightarrow> addr \<Rightarrow> world \<Rightarrow> (bool \<times> world) option" where
  "cc_actor_replica_identity_fire x a w = do {
     inport \<leftarrow> in_port a w;
     outport \<leftarrow> out_port a w;
     tokens \<leftarrow> has_token inport w;
     if \<not> tokens then Some (False, w)
     else do {
       slots \<leftarrow> has_slot outport w;
       if \<not> slots then Some (False, w)
       else do {
         (token, w) \<leftarrow> peek_port inport w;
         v \<leftarrow> tok_value token;
         must (cc_coder_decode_uint (x_mp x) v) (do { w \<leftarrow> cancel_port inport w; Some (False, w) }) (\<lambda>token_nbr. do {
         state \<leftarrow> get_replica_identity a w;
         b \<leftarrow> replica_token (x_mp x) (rid_index state) token_nbr;
         case mem_alloc w of
           (False, w) \<Rightarrow> do { w \<leftarrow> cancel_port inport w; Some (False, w) }
         | (True, w) \<Rightarrow> do {
             (r, w) \<leftarrow> write_port outport (Some b, length b) w;
             if r \<noteq> CC_SUCCESS then do { w \<leftarrow> cancel_port inport w; Some (False, w) }
             else do { w \<leftarrow> commit_port inport False w; Some (True, w) } } }) } } }"

definition cc_actor_replica_identity_free :: "addr \<Rightarrow> world \<Rightarrow> world option" where
  "cc_actor_replica_identity_free a w = keep_pointer a w"

definition cc_actor_replica_identity_get_attributes ::
  "ext \<Rightarrow> addr \<Rightarrow> world \<Rightarrow> (cc_result \<times> bytes option cc_list \<times> world) option" where
  "cc_actor_replica_identity_get_attributes x a w = do {
     actor \<leftarrow> h_actors w a;
     case a_instance actor of
       None \<Rightarrow> Some (CC_FAIL, [], w)
     | Some (Inst_replica_identity state) \<Rightarrow>
         and_put (put_bool (x_mp x) ''dump'' (rid_dump state) [] w) (put_uint (x_mp x) ''index'' (rid_index state))
     | _ \<Rightarrow> None }"

definition cc_actor_replica_identity_setup :: "ext \<Rightarrow> actor_ops" where
  "cc_actor_replica_identity_setup x = \<lparr>ac_init = cc_actor_replica_identity_init x,
     ac_set_state = cc_actor_replica_identity_set_state x, ac_free_state = Some cc_actor_replica_identity_free,
     ac_fire = cc_actor_replica_identity_fire x,
     ac_get_managed_attributes = Some (cc_actor_replica_identity_get_attributes x), ac_will_migrate = None,
     ac_will_end = None, ac_did_migrate = None, ac_did_replicate = Some cc_actor_replica_identity_did_replicate,
     ac_get_requires = None\<rparr>"

section \<open>The counter\<close>

definition get_counttimer :: "addr \<Rightarrow> world \<Rightarrow> cc_actor_counttimer_state option" where
  "get_counttimer a w = do { s \<leftarrow> get_instance a w; case s of Inst_counttimer st \<Rightarrow> Some st | _ \<Rightarrow> None }"

abbreviation set_counttimer :: "addr \<Rightarrow> cc_actor_counttimer_state \<Rightarrow> world \<Rightarrow> world option" where
  "set_counttimer a state w \<equiv> set_instance a (Inst_counttimer state) w"

text \<open>
  A number of the attributes, with the value it has when it is missing. When it cannot be decoded the code returns
  \<open>false\<close>, which is \<open>CC_SUCCESS\<close>.
\<close>

definition attr_uint :: "mp \<Rightarrow> u32 \<Rightarrow> bytes cc_list \<Rightarrow> bytes \<Rightarrow> u32 option option" where
  "attr_uint mp v attrs key = (case cc_list_get attrs key of None \<Rightarrow> Some (Some v) | Some item \<Rightarrow> cc_coder_decode_uint mp (li_data item))"

text \<open>
  A timer with the period \<open>sleep\<close>: the arguments are a list of one pair, dropped afterwards. The results are those of
  the two failures: memory (\<open>None\<close>), and the list or the object (\<open>Some None\<close>).
\<close>

definition open_timer :: "ext \<Rightarrow> addr \<Rightarrow> bytes \<Rightarrow> u32 \<Rightarrow> world \<Rightarrow> (bytes option option \<times> world) option" where
  "open_timer x a name sleep w = (case mem_alloc w of
     (False, w) \<Rightarrow> Some (None, w)
   | (True, w) \<Rightarrow>
       let data = cc_coder_encode_uint (x_mp x) [] sleep; n = unat (cc_coder_sizeof_uint (x_mp x) sleep)
       in if n < length data then None
          else case cc_list_add [] ''period'' data n w of
            (None, l, w) \<Rightarrow> Some (Some None, w)
          | (Some _, attributes, w) \<Rightarrow> do { (r, w) \<leftarrow> open_ref x a name attributes w; Some (Some r, w) })"

definition zero_counttimer :: cc_actor_counttimer_state where
  "zero_counttimer = \<lparr>cnt_timer = [], cnt_sleep = 0, cnt_start = 0, cnt_steps = 0, cnt_count = 0, cnt_stopped = False\<rparr>"

definition cc_actor_counttimer_init :: "ext \<Rightarrow> addr \<Rightarrow> bytes cc_list \<Rightarrow> world \<Rightarrow> (cc_result \<times> world) option" where
  "cc_actor_counttimer_init x a attrs w = (case mem_alloc w of
     (False, w) \<Rightarrow> Some (CC_FAIL, w)
   | (True, w) \<Rightarrow> do {
       let state = zero_counttimer;
       w \<leftarrow> set_counttimer a state w;
       must (attr_uint (x_mp x) 1 attrs ''sleep'') (Some (CC_SUCCESS, w)) (\<lambda>sleep. do {
       let state = state\<lparr>cnt_sleep := sleep\<rparr>;
       w \<leftarrow> set_counttimer a state w;
       must (attr_uint (x_mp x) 1 attrs ''start'') (Some (CC_SUCCESS, w)) (\<lambda>start. do {
       let state = state\<lparr>cnt_start := start\<rparr>;
       w \<leftarrow> set_counttimer a state w;
       must (attr_uint (x_mp x) (- 1) attrs ''steps'') (Some (CC_SUCCESS, w)) (\<lambda>steps. do {
       let state = state\<lparr>cnt_steps := steps\<rparr>;
       w \<leftarrow> set_counttimer a state w;
       (r, w) \<leftarrow> open_timer x a ''sys.timer.once'' sleep w;
       case r of
         None \<Rightarrow> Some (CC_SUCCESS, w)
       | Some None \<Rightarrow> Some (CC_FAIL, w)
       | Some (Some timer) \<Rightarrow> do {
           let state = state\<lparr>cnt_timer := timer\<rparr>;
           w \<leftarrow> set_counttimer a state w;
           must (attr_uint (x_mp x) start attrs ''count'') (Some (CC_SUCCESS, w)) (\<lambda>count. do {
           w \<leftarrow> set_counttimer a (state\<lparr>cnt_count := count, cnt_stopped := False\<rparr>) w;
           Some (CC_SUCCESS, w) }) } }) }) }) })"

text \<open>Here a missing number is a failure, and one that cannot be decoded still is not.\<close>

definition take_uint :: "mp \<Rightarrow> bytes cc_list \<Rightarrow> bytes \<Rightarrow> addr \<Rightarrow> (u32 \<Rightarrow> cc_actor_counttimer_state) \<Rightarrow> world \<Rightarrow>
    (cc_actor_counttimer_state \<Rightarrow> world \<Rightarrow> (cc_result \<times> world) option) \<Rightarrow> (cc_result \<times> world) option" where
  "take_uint mp attrs key a put w k = (case cc_list_get attrs key of
     None \<Rightarrow> Some (CC_FAIL, w)
   | Some item \<Rightarrow> must (cc_coder_decode_uint mp (li_data item)) (Some (CC_SUCCESS, w)) (\<lambda>v. do {
       w \<leftarrow> set_counttimer a (put v) w; k (put v) w }))"

definition cc_actor_counttimer_set_state :: "ext \<Rightarrow> addr \<Rightarrow> bytes cc_list \<Rightarrow> world \<Rightarrow> (cc_result \<times> world) option" where
  "cc_actor_counttimer_set_state x a attrs w = (case mem_alloc w of
     (False, w) \<Rightarrow> Some (CC_FAIL, w)
   | (True, w) \<Rightarrow> do {
       let state = zero_counttimer;
       w \<leftarrow> set_counttimer a state w;
       must (attr_ref (x_mp x) attrs ''timer'') (Some (CC_FAIL, w)) (\<lambda>timer. do {
       let state = state\<lparr>cnt_timer := timer\<rparr>;
       w \<leftarrow> set_counttimer a state w;
       take_uint (x_mp x) attrs ''sleep'' a (\<lambda>v. state\<lparr>cnt_sleep := v\<rparr>) w (\<lambda>state w.
       take_uint (x_mp x) attrs ''start'' a (\<lambda>v. state\<lparr>cnt_start := v\<rparr>) w (\<lambda>state w.
       take_uint (x_mp x) attrs ''steps'' a (\<lambda>v. state\<lparr>cnt_steps := v\<rparr>) w (\<lambda>state w.
       take_uint (x_mp x) attrs ''count'' a (\<lambda>v. state\<lparr>cnt_count := v\<rparr>) w (\<lambda>state w. do {
       w \<leftarrow> set_counttimer a (state\<lparr>cnt_stopped := False\<rparr>) w;
       Some (CC_SUCCESS, w) })))) }) })"

text \<open>A number as a token; the result tells whether the queue took it.\<close>

definition emit_uint :: "ext \<Rightarrow> addr \<Rightarrow> u32 \<Rightarrow> world \<Rightarrow> (bool \<times> world) option" where
  "emit_uint x p v w = (case mem_alloc w of
     (False, w) \<Rightarrow> Some (False, w)
   | (True, w) \<Rightarrow>
       let data = cc_coder_encode_uint (x_mp x) [] v; n = unat (cc_coder_sizeof_uint (x_mp x) v)
       in if n < length data then None
          else do { (r, w) \<leftarrow> write_port p (Some data, n) w; Some (r = CC_SUCCESS, w) })"

text \<open>
  The steps before the timer repeats. Every return inside: the failures to make a list or to open the timer return
  \<open>CC_FAIL\<close>, which is true.
\<close>

definition rearm :: "ext \<Rightarrow> cc_actor_counttimer_state \<Rightarrow> world \<Rightarrow> (bool \<times> world) option" where
  "rearm x state w = (case mem_alloc w of
     (False, w) \<Rightarrow> Some (False, w)
   | (True, w) \<Rightarrow>
       let data = cc_coder_encode_uint (x_mp x) [] (cnt_sleep state); n = unat (cc_coder_sizeof_uint (x_mp x) (cnt_sleep state))
       in if n < length data then None
          else do { (r, w) \<leftarrow> cc_calvinsys_write x (cnt_timer state) data n w; Some (True, w) })"

definition count_out :: "ext \<Rightarrow> addr \<Rightarrow> addr \<Rightarrow> cc_actor_counttimer_state \<Rightarrow> world \<Rightarrow> (bool \<times> world) option" where
  "count_out x a outport state w = do {
     (ok, w) \<leftarrow> emit_uint x outport (cnt_count state) w;
     if \<not> ok then Some (False, w)
     else do {
       (ok, w) \<leftarrow> rearm x state w;
       if \<not> ok then Some (False, w)
       else do { w \<leftarrow> set_counttimer a (state\<lparr>cnt_count := cnt_count state + 1\<rparr>) w; Some (True, w) } } }"

definition cc_actor_counttimer_step_no_periodic :: "ext \<Rightarrow> addr \<Rightarrow> world \<Rightarrow> (bool \<times> world) option" where
  "cc_actor_counttimer_step_no_periodic x a w = do {
     outport \<leftarrow> out_port a w;
     state \<leftarrow> get_counttimer a w;
     if cnt_count state \<ge> cnt_start state + 3 \<or> cnt_count state \<ge> cnt_steps state then Some (False, w)
     else do {
       (ready, w) \<leftarrow> cc_calvinsys_can_read x (cnt_timer state) w;
       if \<not> ready then Some (False, w)
       else do {
         (r, d, w) \<leftarrow> cc_calvinsys_read x (cnt_timer state) w;
         if cnt_count state = cnt_start state + 2 then do {
           w \<leftarrow> cc_calvinsys_close x (cnt_timer state) w;
           (r, w) \<leftarrow> open_timer x a ''sys.timer.repeating'' (cnt_sleep state) w;
           case r of
             None \<Rightarrow> Some (False, w)
           | Some None \<Rightarrow> Some (True, w)
           | Some (Some timer) \<Rightarrow> do {
               let state = state\<lparr>cnt_timer := timer\<rparr>;
               w \<leftarrow> set_counttimer a state w;
               count_out x a outport state w } }
         else count_out x a outport state w } } }"

definition cc_actor_counttimer_step_periodic :: "ext \<Rightarrow> addr \<Rightarrow> world \<Rightarrow> (bool \<times> world) option" where
  "cc_actor_counttimer_step_periodic x a w = do {
     outport \<leftarrow> out_port a w;
     state \<leftarrow> get_counttimer a w;
     if cnt_count state \<ge> cnt_steps state then Some (False, w)
     else do {
       (ready, w) \<leftarrow> cc_calvinsys_can_read x (cnt_timer state) w;
       if \<not> ready then Some (False, w)
       else do {
         (r, d, w) \<leftarrow> cc_calvinsys_read x (cnt_timer state) w;
         (ok, w) \<leftarrow> emit_uint x outport (cnt_count state) w;
         if \<not> ok then Some (False, w)
         else do { w \<leftarrow> set_counttimer a (state\<lparr>cnt_count := cnt_count state + 1\<rparr>) w; Some (True, w) } } } }"

definition cc_actor_counttimer_stop :: "ext \<Rightarrow> addr \<Rightarrow> world \<Rightarrow> (bool \<times> world) option" where
  "cc_actor_counttimer_stop x a w = do {
     state \<leftarrow> get_counttimer a w;
     if cnt_stopped state then Some (False, w)
     else if cnt_count state = cnt_steps state then do {
       w \<leftarrow> cc_calvinsys_close x (cnt_timer state) w;
       w \<leftarrow> set_counttimer a (state\<lparr>cnt_stopped := True\<rparr>) w;
       Some (True, w) }
     else Some (False, w) }"

definition cc_actor_counttimer_fire :: "ext \<Rightarrow> addr \<Rightarrow> world \<Rightarrow> (bool \<times> world) option" where
  "cc_actor_counttimer_fire x a w = do {
     (f1, w) \<leftarrow> cc_actor_counttimer_step_no_periodic x a w;
     (f2, w) \<leftarrow> cc_actor_counttimer_step_periodic x a w;
     (f3, w) \<leftarrow> cc_actor_counttimer_stop x a w;
     Some (f1 \<or> f2 \<or> f3, w) }"

definition cc_actor_counttimer_free :: "addr \<Rightarrow> world \<Rightarrow> world option" where
  "cc_actor_counttimer_free a w = keep_pointer a w"

definition cc_actor_counttimer_get_attributes ::
  "ext \<Rightarrow> addr \<Rightarrow> world \<Rightarrow> (cc_result \<times> bytes option cc_list \<times> world) option" where
  "cc_actor_counttimer_get_attributes x a w = do {
     state \<leftarrow> get_counttimer a w;
     and_put (put_str (x_mp x) ''timer'' (cnt_timer state) [] w) (\<lambda>l w.
     and_put (put_uint (x_mp x) ''sleep'' (cnt_sleep state) l w) (\<lambda>l w.
     and_put (put_uint (x_mp x) ''start'' (cnt_start state) l w) (\<lambda>l w.
     and_put (put_uint (x_mp x) ''steps'' (cnt_steps state) l w) (\<lambda>l w.
     put_uint (x_mp x) ''count'' (cnt_count state) l w)))) }"

definition cc_actor_counttimer_get_requires :: "addr \<Rightarrow> world \<Rightarrow> (cc_result \<times> unit cc_list \<times> world) option" where
  "cc_actor_counttimer_get_requires a w = put_requires [''sys.timer.once'', ''sys.timer.repeating''] [] w"

definition cc_actor_counttimer_setup :: "ext \<Rightarrow> actor_ops" where
  "cc_actor_counttimer_setup x = \<lparr>ac_init = cc_actor_counttimer_init x, ac_set_state = cc_actor_counttimer_set_state x,
     ac_free_state = Some cc_actor_counttimer_free, ac_fire = cc_actor_counttimer_fire x,
     ac_get_managed_attributes = Some (cc_actor_counttimer_get_attributes x), ac_will_migrate = None, ac_will_end = None,
     ac_did_migrate = None, ac_did_replicate = None, ac_get_requires = Some cc_actor_counttimer_get_requires\<rparr>"

section \<open>Passing tokens on\<close>

text \<open>
  C28: the identity moves exactly the first token of its in port to the end of its out port when there is one and the
  out port has room, and says so; otherwise it does nothing. The tokens of both queues together stay the same, in order.
\<close>

theorem identity_forwards:
  assumes "h_actors w a = Some actor" "a_in_ports actor = i # is" "a_out_ports actor = j # js" "li_data i \<noteq> li_data j"
    and "port_queue w (li_data i) p f" "port_queue w (li_data j) q g" "fifo_fresh g"
  shows "\<exists>f' g' w'. cc_actor_identity_fire a w = Some (q_items (fifo_abs f) \<noteq> [] \<and> length (q_items (fifo_abs g)) < fifo_capacity g, w')
     \<and> w' = w\<lparr>h_ports := (h_ports w)(li_data i \<mapsto> p\<lparr>p_fifo := Some f'\<rparr>, li_data j \<mapsto> q\<lparr>p_fifo := Some g'\<rparr>)\<rparr>
     \<and> fifo_ok f' \<and> fifo_ok g'
     \<and> (q_items (fifo_abs f'), q_items (fifo_abs g')) = moved (fifo_abs f, fifo_abs g) (fifo_capacity g)"
proof -
  let ?i = "li_data i" and ?j = "li_data j"
  note P = port_queueD[OF assms(5)] port_queueD[OF assms(6)]
  have ports: "in_port a w = Some ?i" "out_port a w = Some ?j" using assms(1-3) by (simp_all add: in_port_def out_port_def)
  have id: "w\<lparr>h_ports := (h_ports w)(?i \<mapsto> p\<lparr>p_fifo := Some f\<rparr>, ?j \<mapsto> q\<lparr>p_fifo := Some g\<rparr>)\<rparr> = w"
    using P by (cases p; cases q) (auto simp: fun_upd_idem)
  show ?thesis
  proof (cases "q_items (fifo_abs f) \<noteq> [] \<and> length (q_items (fifo_abs g)) < fifo_capacity g")
    case False
    then have "cc_actor_identity_fire a w = Some (False, w)"
      using ports assms(5,6) by (auto simp: cc_actor_identity_fire_def)
    with False P id show ?thesis by (intro exI[of _ f] exI[of _ g] exI[of _ w]) (auto simp: moved_def)
  next
    case True
    then obtain t ts where t: "q_items (fifo_abs f) = t # ts" by (cases "q_items (fifo_abs f)") auto
    obtain f1 where f1: "peek_port ?i w = Some (t, set_queue ?i p f1 w)" "fifo_ok f1" "fifo_abs f1 = q_peek (fifo_abs f)"
      using peek_port_ok[OF assms(5) t] by blast
    let ?w1 = "set_queue ?i p f1 w"
    have "port_queue ?w1 ?j q g" using assms(4) P by (simp add: port_queue_def)
    from write_port_ok[OF this assms(7), of "tok_value t" "tok_size t"] True obtain g' where
      g': "write_port ?j (tok_value t, tok_size t) ?w1 = Some (CC_SUCCESS, set_queue ?j q g' ?w1)" "fifo_ok g'"
        "q_items (fifo_abs g') = q_items (fifo_abs g) @ [t]" by auto
    let ?w2 = "set_queue ?j q g' ?w1"
    have "h_ports ?w2 ?i = Some (p\<lparr>p_fifo := Some f1\<rparr>)" using assms(4) by simp
    from commit_port_ok[OF this _ f1(2,3) _ t, of False] P obtain f' where
      f': "commit_port ?i False ?w2 = Some (set_queue ?i (p\<lparr>p_fifo := Some f1\<rparr>) f' ?w2)" "fifo_ok f'" "q_items (fifo_abs f') = ts" by auto
    have "cc_actor_identity_fire a w = Some (True, set_queue ?i (p\<lparr>p_fifo := Some f1\<rparr>) f' ?w2)"
      using ports assms(5,6) True f1(1) g'(1) f'(1) by (simp add: cc_actor_identity_fire_def del: bind_Some_iff)
    moreover have "set_queue ?i (p\<lparr>p_fifo := Some f1\<rparr>) f' ?w2
        = w\<lparr>h_ports := (h_ports w)(?i \<mapsto> p\<lparr>p_fifo := Some f'\<rparr>, ?j \<mapsto> q\<lparr>p_fifo := Some g'\<rparr>)\<rparr>"
      using assms(4) by (simp add: set_queue_twist)
    ultimately show ?thesis using True t g' f' by (intro exI[of _ f'] exI[of _ g'] exI) (auto simp: moved_def)
  qed
qed

section \<open>Counting\<close>

lemma decode_encode_uint: "msgpuck mp \<Longrightarrow> cc_coder_decode_uint mp (cc_coder_encode_uint mp [] v) = Some (Some v)"
  using msgpuck.type_at_enc[of mp "MUint (ucast v)" "[]"] msgpuck.uint_enc[of mp "ucast v" "[]"]
  by (simp add: cc_coder_decode_uint_def cc_coder_encode_uint_def)

lemma encode_uint_size: "msgpuck mp \<Longrightarrow> unat (cc_coder_sizeof_uint mp v) = length (cc_coder_encode_uint mp [] v)"
  by (simp add: cc_coder_sizeof_uint_def cc_coder_encode_uint_def msgpuck.sizeof_uint)

text \<open>The token that carries a number\<close>

definition uint_token :: "mp \<Rightarrow> u32 \<Rightarrow> cc_token" where
  "uint_token mp v = \<lparr>tok_value = Some (cc_coder_encode_uint mp [] v), tok_size = length (cc_coder_encode_uint mp [] v)\<rparr>"

lemma emit_uint_ok:
  assumes "msgpuck (x_mp x)" "e_alloc w = []" "port_queue w p port f" "fifo_fresh f" "length (q_items (fifo_abs f)) < fifo_capacity f"
  shows "\<exists>f'. emit_uint x p v w = Some (True, set_queue p port f' w) \<and> fifo_ok f' \<and> q_pend (fifo_abs f') = 0
     \<and> q_items (fifo_abs f') = q_items (fifo_abs f) @ [uint_token (x_mp x) v]"
  using write_port_ok[OF assms(3-5), of "Some (cc_coder_encode_uint (x_mp x) [] v)" "length (cc_coder_encode_uint (x_mp x) [] v)"] assms(2)
  by (auto simp: emit_uint_def encode_uint_size[OF assms(1)] Let_def uint_token_def)

lemma emit_uint_full:
  assumes "msgpuck (x_mp x)" "e_alloc w = []" "port_queue w p port f" "\<not> length (q_items (fifo_abs f)) < fifo_capacity f"
  shows "emit_uint x p v w = Some (False, w)"
  using write_port_full[OF assms(3,4), of "Some (cc_coder_encode_uint (x_mp x) [] v)" "length (cc_coder_encode_uint (x_mp x) [] v)"] assms(2)
  by (simp add: emit_uint_def encode_uint_size[OF assms(1)] Let_def)

text \<open>A counter at \<open>a\<close> with its state, its timer and its out port.\<close>

definition counter :: "world \<Rightarrow> addr \<Rightarrow> cc_actor_counttimer_state \<Rightarrow> addr \<Rightarrow> cc_calvinsys_timer \<Rightarrow> addr \<Rightarrow> bool" where
  "counter w a st ob t p = (timer_obj w (cnt_timer st) ob t
     \<and> (\<exists>actor j js. h_actors w a = Some actor \<and> a_instance actor = Some (Inst_counttimer st) \<and> a_out_ports actor = j # js \<and> li_data j = p))"

lemma counterD:
  "counter w a st ob t p \<Longrightarrow> timer_obj w (cnt_timer st) ob t" "counter w a st ob t p \<Longrightarrow> get_counttimer a w = Some st"
  "counter w a st ob t p \<Longrightarrow> out_port a w = Some p"
  by (auto simp: counter_def get_counttimer_def get_instance_def out_port_def)

lemma counter_set:
  assumes "counter w a st ob t p" "cnt_timer st' = cnt_timer st"
  shows "\<exists>w'. set_counttimer a st' w = Some w' \<and> counter w' a st' ob t p \<and> h_ports w' = h_ports w \<and> e_alloc w' = e_alloc w
    \<and> cc_node_get_time w' = cc_node_get_time w"
  using assms by (auto simp: counter_def set_instance_def upd_actor_def timer_obj_def cc_node_get_time_def)

lemma counter_put: "counter w a st ob t p \<Longrightarrow> counter (put_timer ob t' w) a st ob t' p"
  by (auto simp: counter_def timer_obj_put)

lemma counter_queue: "counter (set_queue q port f w) a st ob t p = counter w a st ob t p"
  by (simp add: counter_def timer_obj_def)

lemma counter_idle:
  assumes "counter w a st ob t p" "\<not> ct_triggered t" "cnt_count st \<noteq> cnt_steps st"
  shows "cc_actor_counttimer_step_no_periodic x a w = Some (False, w)" "cc_actor_counttimer_step_periodic x a w = Some (False, w)"
    "cc_actor_counttimer_stop x a w = Some (False, w)"
  using counterD[OF assms(1)] timer_can_read[of w _ ob t x] assms(2,3)
  by (simp_all add: cc_actor_counttimer_step_no_periodic_def cc_actor_counttimer_step_periodic_def cc_actor_counttimer_stop_def)

lemma port_queue_keep: "h_ports w' = h_ports w \<Longrightarrow> port_queue w' p port f = port_queue w p port f"
  by (simp add: port_queue_def)

text \<open>What a step does once the timer has been read: \<open>w\<close> is the world then, \<open>t\<close> the timer.\<close>

lemma tick_periodic:
  assumes "msgpuck (x_mp x)" "e_alloc w = []" "counter w a st ob t p" "ct_triggered t" "cnt_count st < cnt_steps st"
    and "port_queue w p port f" "fifo_fresh f" "length (q_items (fifo_abs f)) < fifo_capacity f"
  shows "\<exists>w' f'. cc_actor_counttimer_step_periodic x a w = Some (True, w')
     \<and> counter w' a (st\<lparr>cnt_count := cnt_count st + 1\<rparr>) ob (timer_after_read w t) p
     \<and> port_queue w' p (port\<lparr>p_fifo := Some f'\<rparr>) f' \<and> q_items (fifo_abs f') = q_items (fifo_abs f) @ [uint_token (x_mp x) (cnt_count st)]"
proof -
  note c = counterD[OF assms(3)]
  let ?w1 = "put_timer ob (timer_after_read w t) w"
  have q: "port_queue ?w1 p port f" using assms(6) by (simp add: port_queue_def)
  obtain f' where f': "emit_uint x p (cnt_count st) ?w1 = Some (True, set_queue p port f' ?w1)" "fifo_ok f'" "q_pend (fifo_abs f') = 0"
      "q_items (fifo_abs f') = q_items (fifo_abs f) @ [uint_token (x_mp x) (cnt_count st)]"
    using emit_uint_ok[OF assms(1) _ q assms(7,8), of "cnt_count st"] assms(2) by auto
  let ?w2 = "set_queue p port f' ?w1"
  have "counter ?w2 a st ob (timer_after_read w t) p" unfolding counter_queue by (rule counter_put[OF assms(3)])
  from counter_set[OF this, of "st\<lparr>cnt_count := cnt_count st + 1\<rparr>"] obtain w3 where
    w3: "set_counttimer a (st\<lparr>cnt_count := cnt_count st + 1\<rparr>) ?w2 = Some w3"
      "counter w3 a (st\<lparr>cnt_count := cnt_count st + 1\<rparr>) ob (timer_after_read w t) p" "h_ports w3 = h_ports ?w2" by auto
  have "cc_actor_counttimer_step_periodic x a w = Some (True, w3)"
    using c(2,3) timer_can_read[OF c(1), of x] timer_read[OF c(1), of x] f'(1) w3(1) assms(4,5)
    by (simp add: cc_actor_counttimer_step_periodic_def not_le del: bind_Some_iff)
  moreover have "port_queue w3 p (port\<lparr>p_fifo := Some f'\<rparr>) f'" using w3(3) f'(2,3) by (simp add: port_queue_def)
  ultimately show ?thesis using w3(2) f'(4) by blast
qed

lemma tick_once:
  assumes "msgpuck (x_mp x)" "e_alloc w = []" "counter w a st ob t p" "ct_triggered t" "\<not> ct_armed t" "\<not> ct_repeats t"
    and "cnt_count st < cnt_steps st" "cnt_count st < cnt_start st + 3" "cnt_count st \<noteq> cnt_start st + 2"
    and "port_queue w p port f" "fifo_fresh f" "length (q_items (fifo_abs f)) < fifo_capacity f"
  shows "\<exists>w' f' t'. cc_actor_counttimer_step_no_periodic x a w = Some (True, w')
     \<and> counter w' a (st\<lparr>cnt_count := cnt_count st + 1\<rparr>) ob t' p \<and> \<not> ct_triggered t' \<and> ct_armed t'
     \<and> ct_next_time t' = cc_node_get_time w + cnt_sleep st
     \<and> port_queue w' p (port\<lparr>p_fifo := Some f'\<rparr>) f' \<and> q_items (fifo_abs f') = q_items (fifo_abs f) @ [uint_token (x_mp x) (cnt_count st)]"
proof -
  note c = counterD[OF assms(3)]
  let ?t1 = "timer_after_read w t" let ?w1 = "put_timer ob ?t1 w"
  have t1: "\<not> ct_triggered ?t1" "\<not> ct_armed ?t1" using assms(5,6) by (simp_all add: timer_after_read_def Let_def)
  have q: "port_queue ?w1 p port f" using assms(10) by (simp add: port_queue_def)
  obtain f' where f': "emit_uint x p (cnt_count st) ?w1 = Some (True, set_queue p port f' ?w1)" "fifo_ok f'" "q_pend (fifo_abs f') = 0"
      "q_items (fifo_abs f') = q_items (fifo_abs f) @ [uint_token (x_mp x) (cnt_count st)]"
    using emit_uint_ok[OF assms(1) _ q assms(11,12), of "cnt_count st"] assms(2) by auto
  let ?w2 = "set_queue p port f' ?w1"
  have c2: "counter ?w2 a st ob ?t1 p" unfolding counter_queue by (rule counter_put[OF assms(3)])
  let ?t2 = "cc_calvinsys_timer_set ?w2 (?t1\<lparr>ct_timeout := cnt_sleep st\<rparr>) (cnt_sleep st)" let ?w3 = "put_timer ob ?t2 ?w2"
  have "cc_calvinsys_write x (cnt_timer st) (cc_coder_encode_uint (x_mp x) [] (cnt_sleep st)) n ?w2 = Some (CC_SUCCESS, ?w3)" for n
    using timer_write_free[OF counterD(1)[OF c2] t1] decode_encode_uint[OF assms(1)] by blast
  then have r: "rearm x st ?w2 = Some (True, ?w3)"
    using assms(2) by (simp add: rearm_def encode_uint_size[OF assms(1)] Let_def del: bind_Some_iff)
  from counter_set[OF counter_put[OF c2, of ?t2], of "st\<lparr>cnt_count := cnt_count st + 1\<rparr>"] obtain w4 where
    w4: "set_counttimer a (st\<lparr>cnt_count := cnt_count st + 1\<rparr>) ?w3 = Some w4"
      "counter w4 a (st\<lparr>cnt_count := cnt_count st + 1\<rparr>) ob ?t2 p" "h_ports w4 = h_ports ?w3" by auto
  have "cc_actor_counttimer_step_no_periodic x a w = Some (True, w4)"
    using c(2,3) timer_can_read[OF c(1), of x] timer_read[OF c(1), of x] f'(1) r w4(1) assms(4,7-9)
    by (simp add: cc_actor_counttimer_step_no_periodic_def count_out_def not_le del: bind_Some_iff)
  moreover have "port_queue w4 p (port\<lparr>p_fifo := Some f'\<rparr>) f'" using w4(3) f'(2,3) by (simp add: port_queue_def)
  moreover have "cc_node_get_time ?w2 = cc_node_get_time w" by (simp add: put_timer_def cc_node_get_time_def)
  ultimately show ?thesis using w4(2) f'(4) t1 by (intro exI[of _ w4] exI[of _ f'] exI[of _ ?t2]) simp
qed


text \<open>
  A counter whose out port is full when its timer expires never counts again. The expiry is consumed before the
  queue is asked, the timer is not set again, and from then on the actor does nothing, whether the port drains or time
  passes.
\<close>

lemma counttimer_stalls:
  assumes "msgpuck (x_mp x)" "e_alloc w = []" "counter w a st ob t p" "ct_triggered t" "\<not> ct_armed t" "\<not> ct_repeats t"
    and "cnt_count st < cnt_steps st" "cnt_count st < cnt_start st + 3" "cnt_count st \<noteq> cnt_start st + 2"
    and "port_queue w p port f" "\<not> length (q_items (fifo_abs f)) < fifo_capacity f"
  shows "\<exists>w' t'. cc_actor_counttimer_fire x a w = Some (False, w') \<and> counter w' a st ob t' p
     \<and> (\<forall>now timeout. check_timer now t' timeout = (t', timeout))
     \<and> (\<forall>u. counter u a st ob t' p \<longrightarrow> cc_actor_counttimer_fire x a u = Some (False, u))"
proof -
  note c = counterD[OF assms(3)]
  let ?t1 = "timer_after_read w t" let ?w1 = "put_timer ob ?t1 w"
  have t1: "\<not> ct_triggered ?t1" "\<not> ct_armed ?t1" using assms(5,6) by (simp_all add: timer_after_read_def Let_def)
  have c1: "counter ?w1 a st ob ?t1 p" by (rule counter_put[OF assms(3)])
  have ne: "cnt_count st \<noteq> cnt_steps st" using assms(7) by simp
  have q: "port_queue ?w1 p port f" using assms(10) by (simp add: port_queue_def)
  have "emit_uint x p (cnt_count st) ?w1 = Some (False, ?w1)" using emit_uint_full[OF assms(1) _ q assms(11)] assms(2) by simp
  then have "cc_actor_counttimer_step_no_periodic x a w = Some (False, ?w1)"
    using c(2,3) timer_can_read[OF c(1), of x] timer_read[OF c(1), of x] assms(4,7-9)
    by (simp add: cc_actor_counttimer_step_no_periodic_def count_out_def not_le del: bind_Some_iff)
  then have "cc_actor_counttimer_fire x a w = Some (False, ?w1)"
    using counter_idle(2,3)[OF c1 t1(1) ne, of x] by (simp add: cc_actor_counttimer_fire_def)
  moreover have "cc_actor_counttimer_fire x a u = Some (False, u)" if "counter u a st ob ?t1 p" for u
    using counter_idle[OF that t1(1) ne, of x] by (simp add: cc_actor_counttimer_fire_def)
  moreover have "check_timer now ?t1 timeout = (?t1, timeout)" for now timeout using t1(2) by (simp add: check_timer_def)
  ultimately show ?thesis using c1 by blast
qed

section \<open>Examples\<close>

text \<open>An actor with one in and one out port, and an actor that counts.\<close>

definition example_pipe :: world where
  "example_pipe = example_world\<lparr>
     h_ports := [11 \<mapsto> (example_in None)\<lparr>p_fifo := Some (one_token (Some ''x'') 1)\<rparr>, 10 \<mapsto> (example_out None None)\<lparr>p_fifo := Some (empty_fifo 2)\<rparr>],
     h_actors := [20 \<mapsto> example_actor ''A'' [example_port_item ''i'' 11] [example_port_item ''o'' 10]],
     n_actors := [example_port_item ''A'' 20]\<rparr>"

theorem identity_forwards_witness:
  "\<exists>w' g'. cc_actor_identity_fire 20 example_pipe = Some (True, w') \<and> queue_of w' 10 g'
     \<and> q_items (fifo_abs g') = [\<lparr>tok_value = Some ''x'', tok_size = 1\<rparr>]"
proof -
  let ?w = example_pipe and ?p = "(example_in None)\<lparr>p_fifo := Some (one_token (Some ''x'') 1)\<rparr>"
  let ?q = "(example_out None None)\<lparr>p_fifo := Some (empty_fifo 2)\<rparr>"
  have a: "h_actors ?w 20 = Some (example_actor ''A'' [example_port_item ''i'' 11] [example_port_item ''o'' 10])"
    by (simp add: example_pipe_def)
  have q: "port_queue ?w 11 ?p (one_token (Some ''x'') 1)" "port_queue ?w 10 ?q (empty_fifo 2)"
    using one_token_ok[of "Some ''x''" 1] empty_ok
    by (simp_all add: port_queue_def example_pipe_def) (simp add: fifo_abs_def empty_fifo_def)
  from identity_forwards[OF a, of "example_port_item ''i'' 11" "[]" "example_port_item ''o'' 10" "[]" ?p _ ?q] q empty_ok(3)
  obtain f' g' w' where "cc_actor_identity_fire 20 ?w = Some (q_items (fifo_abs (one_token (Some ''x'') 1)) \<noteq> []
       \<and> length (q_items (fifo_abs (empty_fifo 2))) < fifo_capacity (empty_fifo 2), w')"
      "w' = ?w\<lparr>h_ports := (h_ports ?w)(11 \<mapsto> ?p\<lparr>p_fifo := Some f'\<rparr>, 10 \<mapsto> ?q\<lparr>p_fifo := Some g'\<rparr>)\<rparr>"
      "(q_items (fifo_abs f'), q_items (fifo_abs g'))
         = moved (fifo_abs (one_token (Some ''x'') 1), fifo_abs (empty_fifo 2)) (fifo_capacity (empty_fifo 2))"
    by (fastforce simp: example_actor_def example_port_item_def)
  then show ?thesis by (intro exI[of _ w'] exI[of _ g']) (auto simp: moved_def one_token_ok empty_ok queue_of_def)
qed

definition example_count_state :: cc_actor_counttimer_state where
  "example_count_state = \<lparr>cnt_timer = ''tm'', cnt_sleep = 5, cnt_start = 1, cnt_steps = 100, cnt_count = 1, cnt_stopped = False\<rparr>"

definition example_expired :: cc_calvinsys_timer where
  "example_expired = \<lparr>ct_timeout = 5, ct_armed = False, ct_next_time = 0, ct_repeats = False, ct_triggered = True\<rparr>"

definition example_count :: "cc_fifo \<Rightarrow> world" where
  "example_count f = example_world\<lparr>
     h_ports := [10 \<mapsto> (example_out None None)\<lparr>p_fifo := Some f\<rparr>],
     h_actors := [20 \<mapsto> (example_actor ''A'' [] [example_port_item ''o'' 10])\<lparr>a_instance := Some (Inst_counttimer example_count_state)\<rparr>],
     h_caps := [2 \<mapsto> example_cap], h_objs := [3 \<mapsto> (example_obj ''tm'' 0)\<lparr>o_state := OS_timer example_expired\<rparr>],
     n_objects := [example_port_item ''tm'' 3]\<rparr>"

lemma example_count_ok:
  assumes "fifo_ok f" "q_pend (fifo_abs f) = 0"
  shows "counter (example_count f) 20 example_count_state 3 example_expired 10" "e_alloc (example_count f) = []"
    "port_queue (example_count f) 10 ((example_out None None)\<lparr>p_fifo := Some f\<rparr>) f"
    "ct_triggered example_expired" "\<not> ct_armed example_expired" "\<not> ct_repeats example_expired"
    "cnt_count example_count_state < cnt_steps example_count_state" "cnt_count example_count_state < cnt_start example_count_state + 3"
    "cnt_count example_count_state \<noteq> cnt_start example_count_state + 2" "cnt_count example_count_state + 1 \<noteq> cnt_steps example_count_state"
  using assms
  by (simp_all add: counter_def timer_obj_def port_queue_def example_count_def example_count_state_def example_expired_def
      example_world_def example_actor_def example_port_item_def example_obj_def example_cap_def CC_UUID_BUFFER_SIZE_def)

lemma example_ext_mp: "x_mp example_ext = mp_ref" "msgpuck (x_mp example_ext)"
  using ref.msgpuck_axioms by (simp_all add: example_ext_def)


end
