(* ===== verification/Builtin_Io.thy ===== *)
theory Builtin_Io
  imports Actor_Base
begin

text \<open>
  The actor types of \<open>src/actors/io\<close>, \<open>src/actors/context\<close> and \<open>src/actors/media\<close>: button, light, log, attribute of the
  registry and camera.
\<close>

section \<open>Button\<close>

definition get_button :: "addr \<Rightarrow> world \<Rightarrow> cc_actor_button_state option" where
  "get_button a w = do { s \<leftarrow> get_instance a w; case s of Inst_button st \<Rightarrow> Some st | _ \<Rightarrow> None }"

text \<open>The copy of the attribute \<open>text\<close> into the state.\<close>

definition button_text :: "addr \<Rightarrow> cc_actor_button_state \<Rightarrow> bytes cc_list_item \<Rightarrow> world \<Rightarrow> (cc_result \<times> world) option" where
  "button_text a state item w = (case mem_alloc w of
     (False, w) \<Rightarrow> Some (CC_FAIL, w)
   | (True, w) \<Rightarrow> do {
       text \<leftarrow> copy_value item;
       w \<leftarrow> set_instance a (Inst_button (state\<lparr>btn_text := Some text, btn_text_len := of_nat (li_data_len item)\<rparr>)) w;
       Some (CC_SUCCESS, w) })"

definition cc_actor_button_init :: "ext \<Rightarrow> addr \<Rightarrow> bytes cc_list \<Rightarrow> world \<Rightarrow> (cc_result \<times> world) option" where
  "cc_actor_button_init x a attrs w = (case mem_alloc w of
     (False, w) \<Rightarrow> Some (CC_FAIL, w)
   | (True, w) \<Rightarrow> do {
       let state = \<lparr>btn_button = [], btn_text = None, btn_text_len = 0\<rparr>;
       w \<leftarrow> set_instance a (Inst_button state) w;
       (r, w) \<leftarrow> open_ref x a ''io.button'' [] w;
       case r of None \<Rightarrow> Some (CC_FAIL, w) | Some button \<Rightarrow> do {
       let state = state\<lparr>btn_button := button\<rparr>;
       w \<leftarrow> set_instance a (Inst_button state) w;
       case cc_list_get attrs ''text'' of
         None \<Rightarrow> Some (CC_SUCCESS, w)
       | Some item \<Rightarrow> button_text a state item w } })"

definition cc_actor_button_set_state :: "ext \<Rightarrow> addr \<Rightarrow> bytes cc_list \<Rightarrow> world \<Rightarrow> (cc_result \<times> world) option" where
  "cc_actor_button_set_state x a attrs w = (case mem_alloc w of
     (False, w) \<Rightarrow> Some (CC_FAIL, w)
   | (True, w) \<Rightarrow> do {
       let state = \<lparr>btn_button = [], btn_text = None, btn_text_len = 0\<rparr>;
       w \<leftarrow> set_instance a (Inst_button state) w;
       must (attr_ref (x_mp x) attrs ''button'') (Some (CC_FAIL, w)) (\<lambda>button. do {
       let state = state\<lparr>btn_button := button\<rparr>;
       w \<leftarrow> set_instance a (Inst_button state) w;
       case cc_list_get attrs ''text'' of
         None \<Rightarrow> Some (CC_FAIL, w)
       | Some item \<Rightarrow> button_text a state item w }) })"

definition cc_actor_button_fire :: "ext \<Rightarrow> addr \<Rightarrow> world \<Rightarrow> (bool \<times> world) option" where
  "cc_actor_button_fire x a w = do {
     outport \<leftarrow> out_port a w;
     state \<leftarrow> get_button a w;
     (ready, w) \<leftarrow> cc_calvinsys_can_read x (btn_button state) w;
     if \<not> ready then Some (False, w)
     else do {
       slots \<leftarrow> has_slot outport w;
       if \<not> slots then Some (False, w) else read_to_port x (btn_button state) outport w } }"

text \<open>The text moves from the state into the list.\<close>

definition cc_actor_button_get_attributes :: "ext \<Rightarrow> addr \<Rightarrow> world \<Rightarrow> (cc_result \<times> bytes option cc_list \<times> world) option" where
  "cc_actor_button_get_attributes x a w = do {
     state \<leftarrow> get_button a w;
     and_put (put_str (x_mp x) ''button'' (btn_button state) [] w) (\<lambda>l w.
     and_put (put_pointer ''text'' (btn_text state) (unat (btn_text_len state)) l w) (\<lambda>l w. do {
     w \<leftarrow> set_instance a (Inst_button (state\<lparr>btn_text := None, btn_text_len := 0\<rparr>)) w;
     Some (CC_SUCCESS, l, w) })) }"

definition cc_actor_button_get_requires :: "addr \<Rightarrow> world \<Rightarrow> (cc_result \<times> unit cc_list \<times> world) option" where
  "cc_actor_button_get_requires a w = put_requires [''io.button''] [] w"

definition cc_actor_button_free :: "addr \<Rightarrow> world \<Rightarrow> world option" where
  "cc_actor_button_free a w = upd_actor a (\<lambda>actor. actor\<lparr>a_instance := None\<rparr>) w"

definition cc_actor_button_setup :: "ext \<Rightarrow> actor_ops" where
  "cc_actor_button_setup x = \<lparr>ac_init = cc_actor_button_init x, ac_set_state = cc_actor_button_set_state x,
     ac_free_state = Some cc_actor_button_free, ac_fire = cc_actor_button_fire x,
     ac_get_managed_attributes = Some (cc_actor_button_get_attributes x), ac_will_migrate = None, ac_will_end = None,
     ac_did_migrate = None, ac_did_replicate = None, ac_get_requires = Some cc_actor_button_get_requires\<rparr>"

section \<open>Light\<close>

definition get_light :: "addr \<Rightarrow> world \<Rightarrow> cc_actor_light_state option" where
  "get_light a w = do { s \<leftarrow> get_instance a w; case s of Inst_light st \<Rightarrow> Some st | _ \<Rightarrow> None }"

definition cc_actor_light_init :: "ext \<Rightarrow> addr \<Rightarrow> bytes cc_list \<Rightarrow> world \<Rightarrow> (cc_result \<times> world) option" where
  "cc_actor_light_init x a attrs w = (case mem_alloc w of
     (False, w) \<Rightarrow> Some (CC_FAIL, w)
   | (True, w) \<Rightarrow> do {
       w \<leftarrow> set_instance a (Inst_light \<lparr>lgt_light = []\<rparr>) w;
       (r, w) \<leftarrow> open_ref x a ''io.light'' [] w;
       case r of None \<Rightarrow> Some (CC_FAIL, w) | Some light \<Rightarrow> do {
       w \<leftarrow> set_instance a (Inst_light \<lparr>lgt_light = light\<rparr>) w;
       Some (CC_SUCCESS, w) } })"

definition cc_actor_light_set_state :: "ext \<Rightarrow> addr \<Rightarrow> bytes cc_list \<Rightarrow> world \<Rightarrow> (cc_result \<times> world) option" where
  "cc_actor_light_set_state x a attrs w = (case cc_list_get attrs ''light'' of
     None \<Rightarrow> Some (CC_FAIL, w)
   | Some item \<Rightarrow> (case mem_alloc w of
       (False, w) \<Rightarrow> Some (CC_FAIL, w)
     | (True, w) \<Rightarrow> do {
         w \<leftarrow> set_instance a (Inst_light \<lparr>lgt_light = []\<rparr>) w;
         must (decode_ref (x_mp x) (li_data item)) (Some (CC_FAIL, w)) (\<lambda>light. do {
         w \<leftarrow> set_instance a (Inst_light \<lparr>lgt_light = light\<rparr>) w;
         Some (CC_SUCCESS, w) }) }))"

definition cc_actor_light_fire :: "ext \<Rightarrow> addr \<Rightarrow> world \<Rightarrow> (bool \<times> world) option" where
  "cc_actor_light_fire x a w = do {
     inport \<leftarrow> in_port a w;
     tokens \<leftarrow> has_token inport w;
     if \<not> tokens then Some (False, w)
     else do {
       (token, w) \<leftarrow> peek_port inport w;
       state \<leftarrow> get_light a w;
       v \<leftarrow> tok_value token;
       (r, w) \<leftarrow> cc_calvinsys_write x (lgt_light state) v (tok_size token) w;
       if r \<noteq> CC_SUCCESS then do { w \<leftarrow> cancel_port inport w; Some (False, w) }
       else do { w \<leftarrow> commit_port inport True w; Some (True, w) } } }"

definition cc_actor_light_get_attributes :: "ext \<Rightarrow> addr \<Rightarrow> world \<Rightarrow> (cc_result \<times> bytes option cc_list \<times> world) option" where
  "cc_actor_light_get_attributes x a w = do { state \<leftarrow> get_light a w; put_str (x_mp x) ''light'' (lgt_light state) [] w }"

definition cc_actor_light_get_requires :: "addr \<Rightarrow> world \<Rightarrow> (cc_result \<times> unit cc_list \<times> world) option" where
  "cc_actor_light_get_requires a w = put_requires [''io.light''] [] w"

definition cc_actor_light_free :: "addr \<Rightarrow> world \<Rightarrow> world option" where
  "cc_actor_light_free a w = keep_pointer a w"

definition cc_actor_light_setup :: "ext \<Rightarrow> actor_ops" where
  "cc_actor_light_setup x = \<lparr>ac_init = cc_actor_light_init x, ac_set_state = cc_actor_light_set_state x,
     ac_free_state = Some cc_actor_light_free, ac_fire = cc_actor_light_fire x,
     ac_get_managed_attributes = Some (cc_actor_light_get_attributes x), ac_will_migrate = None, ac_will_end = None,
     ac_did_migrate = None, ac_did_replicate = None, ac_get_requires = Some cc_actor_light_get_requires\<rparr>"

section \<open>Log\<close>

definition get_log :: "addr \<Rightarrow> world \<Rightarrow> cc_actor_log_state option" where
  "get_log a w = do { s \<leftarrow> get_instance a w; case s of Inst_log st \<Rightarrow> Some st | _ \<Rightarrow> None }"

text \<open>Without the attribute the memory is not allocated, but the copy from the null item is made all the same: a fault.\<close>

definition cc_actor_log_init :: "ext \<Rightarrow> addr \<Rightarrow> bytes cc_list \<Rightarrow> world \<Rightarrow> (cc_result \<times> world) option" where
  "cc_actor_log_init x a attrs w = (case mem_alloc w of
     (False, w) \<Rightarrow> Some (CC_FAIL, w)
   | (True, w) \<Rightarrow> do {
       w \<leftarrow> set_instance a (Inst_log \<lparr>log_loglevel = None, log_loglevel_size = 0\<rparr>) w;
       case cc_list_get attrs ''loglevel'' of
         None \<Rightarrow> None
       | Some item \<Rightarrow> (case mem_alloc w of
           (False, w) \<Rightarrow> Some (CC_FAIL, w)
         | (True, w) \<Rightarrow> do {
             v \<leftarrow> copy_value item;
             w \<leftarrow> set_instance a (Inst_log \<lparr>log_loglevel = Some v, log_loglevel_size = li_data_len item\<rparr>) w;
             Some (CC_SUCCESS, w) }) })"

definition cc_actor_log_set_state :: "ext \<Rightarrow> addr \<Rightarrow> bytes cc_list \<Rightarrow> world \<Rightarrow> (cc_result \<times> world) option" where
  "cc_actor_log_set_state x a attrs w = (case mem_alloc w of
     (False, w) \<Rightarrow> Some (CC_FAIL, w)
   | (True, w) \<Rightarrow> do {
       w \<leftarrow> set_instance a (Inst_log \<lparr>log_loglevel = None, log_loglevel_size = 0\<rparr>) w;
       case cc_list_get attrs ''loglevel'' of
         None \<Rightarrow> Some (CC_FAIL, w)
       | Some item \<Rightarrow> (case mem_alloc w of
           (False, w) \<Rightarrow> Some (CC_FAIL, w)
         | (True, w) \<Rightarrow> do {
             v \<leftarrow> copy_value item;
             w \<leftarrow> set_instance a (Inst_log \<lparr>log_loglevel = Some v, log_loglevel_size = li_data_len item\<rparr>) w;
             Some (CC_SUCCESS, w) }) })"

text \<open>
  What is printed is not modelled. A value of another type is reported with a conversion that has no argument,
  which is undefined.
\<close>

definition log_value :: "mp \<Rightarrow> bytes \<Rightarrow> unit option" where
  "log_value mp v = do {
     ty \<leftarrow> cc_coder_type_of mp v;
     if ty = CC_CODER_NIL then Some ()
     else if ty = CC_CODER_STR then do { _ \<leftarrow> cc_coder_decode_str mp v; Some () }
     else if ty = CC_CODER_UINT then do { _ \<leftarrow> cc_coder_decode_uint mp v; Some () }
     else if ty = CC_CODER_INT then do { _ \<leftarrow> cc_coder_decode_int mp v; Some () }
     else if ty = CC_CODER_BOOL then do { _ \<leftarrow> cc_coder_decode_bool mp v; Some () }
     else if ty = CC_CODER_FLOAT then do { _ \<leftarrow> cc_coder_decode_float mp v; Some () }
     else if ty = CC_CODER_DOUBLE then do { _ \<leftarrow> cc_coder_decode_double mp v; Some () }
     else None }"

definition cc_actor_log_fire :: "ext \<Rightarrow> addr \<Rightarrow> world \<Rightarrow> (bool \<times> world) option" where
  "cc_actor_log_fire x a w = do {
     inport \<leftarrow> in_port a w;
     tokens \<leftarrow> has_token inport w;
     if \<not> tokens then Some (False, w)
     else do {
       (token, w) \<leftarrow> peek_port inport w;
       v \<leftarrow> tok_value token;
       _ \<leftarrow> log_value (x_mp x) v;
       w \<leftarrow> commit_port inport True w;
       Some (True, w) } }"

definition cc_actor_log_free :: "addr \<Rightarrow> world \<Rightarrow> world option" where
  "cc_actor_log_free a w = keep_pointer a w"

definition cc_actor_log_get_attributes :: "ext \<Rightarrow> addr \<Rightarrow> world \<Rightarrow> (cc_result \<times> bytes option cc_list \<times> world) option" where
  "cc_actor_log_get_attributes x a w = do {
     state \<leftarrow> get_log a w;
     and_put (put_pointer ''loglevel'' (log_loglevel state) (log_loglevel_size state) [] w) (\<lambda>l w. do {
     w \<leftarrow> set_instance a (Inst_log (state\<lparr>log_loglevel := None\<rparr>)) w;
     Some (CC_SUCCESS, l, w) }) }"

definition cc_actor_log_get_requires :: "addr \<Rightarrow> world \<Rightarrow> (cc_result \<times> unit cc_list \<times> world) option" where
  "cc_actor_log_get_requires a w = Some (CC_SUCCESS, [], w)"

definition cc_actor_log_setup :: "ext \<Rightarrow> actor_ops" where
  "cc_actor_log_setup x = \<lparr>ac_init = cc_actor_log_init x, ac_set_state = cc_actor_log_set_state x,
     ac_free_state = Some cc_actor_log_free, ac_fire = cc_actor_log_fire x,
     ac_get_managed_attributes = Some (cc_actor_log_get_attributes x), ac_will_migrate = None, ac_will_end = None,
     ac_did_migrate = None, ac_did_replicate = None, ac_get_requires = Some cc_actor_log_get_requires\<rparr>"

section \<open>Attribute of the registry\<close>

definition cc_actor_registry_attribute_init :: "ext \<Rightarrow> addr \<Rightarrow> bytes cc_list \<Rightarrow> world \<Rightarrow> (cc_result \<times> world) option" where
  "cc_actor_registry_attribute_init x a attrs w = (case cc_list_get attrs ''attribute'' of
     None \<Rightarrow> Some (CC_FAIL, w)
   | Some item \<Rightarrow> do {
       (r, _, w) \<leftarrow> cc_calvinsys_open x a ''sys.attribute.indexed'' [] w;
       case r of None \<Rightarrow> Some (CC_FAIL, w) | Some obj_ref \<Rightarrow> do {
       (r, w) \<leftarrow> cc_calvinsys_write x obj_ref (li_data item) (li_data_len item) w;
       if r \<noteq> CC_SUCCESS then Some (CC_FAIL, w)
       else (case mem_alloc w of
         (False, w) \<Rightarrow> Some (CC_FAIL, w)
       | (True, w) \<Rightarrow> do {
           registry \<leftarrow> strncpy_term CC_UUID_BUFFER_SIZE obj_ref (strlen obj_ref);
           w \<leftarrow> set_instance a (Inst_registry \<lparr>reg_registry = registry\<rparr>) w;
           Some (CC_SUCCESS, w) }) } })"

text \<open>\<open>state->registry\<close> is the first member of the state, so both pointers are the same.\<close>

definition cc_actor_registry_attribute_set_state :: "ext \<Rightarrow> addr \<Rightarrow> bytes cc_list \<Rightarrow> world \<Rightarrow> (cc_result \<times> world) option" where
  "cc_actor_registry_attribute_set_state x a attrs w = (case cc_list_get attrs ''registry'' of
     None \<Rightarrow> Some (CC_FAIL, w)
   | Some item \<Rightarrow> must (cc_coder_decode_str (x_mp x) (li_data item)) (Some (CC_FAIL, w)) (\<lambda>(obj_ref, obj_ref_len).
       case mem_alloc w of
         (False, w) \<Rightarrow> Some (CC_FAIL, w)
       | (True, w) \<Rightarrow> do {
           registry \<leftarrow> strncpy_term CC_UUID_BUFFER_SIZE obj_ref (unat obj_ref_len);
           w \<leftarrow> set_instance a (Inst_registry \<lparr>reg_registry = registry\<rparr>) w;
           Some (CC_SUCCESS, w) }))"

text \<open>Without a state the result is \<open>CC_FAIL\<close>, which is true.\<close>

definition cc_actor_registry_attribute_fire :: "ext \<Rightarrow> addr \<Rightarrow> world \<Rightarrow> (bool \<times> world) option" where
  "cc_actor_registry_attribute_fire x a w = do {
     inport \<leftarrow> in_port a w;
     outport \<leftarrow> out_port a w;
     actor \<leftarrow> h_actors w a;
     case a_instance actor of
       None \<Rightarrow> Some (True, w)
     | Some (Inst_registry state) \<Rightarrow> do {
         (ready, w) \<leftarrow> cc_calvinsys_can_read x (reg_registry state) w;
         if \<not> ready then Some (False, w)
         else do {
           tokens \<leftarrow> has_token inport w;
           if \<not> tokens then Some (False, w)
           else do {
             slots \<leftarrow> has_slot outport w;
             if \<not> slots then Some (False, w)
             else do {
               (r, d, w) \<leftarrow> cc_calvinsys_read x (reg_registry state) w;
               if r \<noteq> CC_SUCCESS then Some (False, w)
               else do {
                 (token, w) \<leftarrow> peek_port inport w;
                 (r, w) \<leftarrow> write_port outport (out_data d) w;
                 if r \<noteq> CC_SUCCESS then do { w \<leftarrow> cancel_port inport w; Some (False, w) }
                 else do { w \<leftarrow> commit_port inport True w; Some (True, w) } } } } } }
     | _ \<Rightarrow> None }"

definition cc_actor_registry_attribute_get_attributes ::
  "ext \<Rightarrow> addr \<Rightarrow> world \<Rightarrow> (cc_result \<times> bytes option cc_list \<times> world) option" where
  "cc_actor_registry_attribute_get_attributes x a w = do {
     actor \<leftarrow> h_actors w a;
     case a_instance actor of
       None \<Rightarrow> Some (CC_FAIL, [], w)
     | Some (Inst_registry state) \<Rightarrow> put_str (x_mp x) ''registry'' (reg_registry state) [] w
     | _ \<Rightarrow> None }"

definition cc_actor_registry_attribute_free :: "addr \<Rightarrow> world \<Rightarrow> world option" where
  "cc_actor_registry_attribute_free a w = keep_pointer a w"

definition cc_actor_registry_attribute_get_requires :: "addr \<Rightarrow> world \<Rightarrow> (cc_result \<times> unit cc_list \<times> world) option" where
  "cc_actor_registry_attribute_get_requires a w = put_requires [''sys.attribute.indexed''] [] w"

definition cc_actor_registry_attribute_setup :: "ext \<Rightarrow> actor_ops" where
  "cc_actor_registry_attribute_setup x = \<lparr>ac_init = cc_actor_registry_attribute_init x,
     ac_set_state = cc_actor_registry_attribute_set_state x, ac_free_state = Some cc_actor_registry_attribute_free,
     ac_fire = cc_actor_registry_attribute_fire x,
     ac_get_managed_attributes = Some (cc_actor_registry_attribute_get_attributes x), ac_will_migrate = None,
     ac_will_end = None, ac_did_migrate = None, ac_did_replicate = None,
     ac_get_requires = Some cc_actor_registry_attribute_get_requires\<rparr>"

section \<open>Camera\<close>

text \<open>The state is the pointer to the identifier inside the object's list item.\<close>

definition cc_actor_camera_init :: "ext \<Rightarrow> addr \<Rightarrow> bytes cc_list \<Rightarrow> world \<Rightarrow> (cc_result \<times> world) option" where
  "cc_actor_camera_init x a attrs w = do {
     (r, _, w) \<leftarrow> cc_calvinsys_open x a ''media.camerahandler'' [] w;
     case r of None \<Rightarrow> Some (CC_FAIL, w)
     | Some obj_ref \<Rightarrow> do { w \<leftarrow> set_instance a (Inst_camera obj_ref) w; Some (CC_SUCCESS, w) } }"

definition cc_actor_camera_set_state :: "ext \<Rightarrow> addr \<Rightarrow> bytes cc_list \<Rightarrow> world \<Rightarrow> (cc_result \<times> world) option" where
  "cc_actor_camera_set_state x a attrs w = cc_actor_camera_init x a attrs w"

text \<open>
  The token that triggers a picture stays peeked when the write fails. The variables for the data that is read are
  not initialised, so a read that leaves them alone is a fault when they are used.
\<close>

definition cc_actor_camera_fire :: "ext \<Rightarrow> addr \<Rightarrow> world \<Rightarrow> (bool \<times> world) option" where
  "cc_actor_camera_fire x a w = do {
     actor \<leftarrow> h_actors w a;
     case a_instance actor of
       None \<Rightarrow> Some (False, w)
     | Some (Inst_camera obj_ref) \<Rightarrow> do {
         inport \<leftarrow> in_port a w;
         outport \<leftarrow> out_port a w;
         tokens \<leftarrow> has_token inport w;
         if tokens then do {
           (token, w) \<leftarrow> peek_port inport w;
           (r, w) \<leftarrow> cc_calvinsys_write x obj_ref ''trigger'' 7 w;
           if r \<noteq> CC_SUCCESS then Some (False, w)
           else do { w \<leftarrow> commit_port inport False w; Some (True, w) } }
         else do {
           (ready, w) \<leftarrow> cc_calvinsys_can_read x obj_ref w;
           if \<not> ready then Some (False, w)
           else do {
             (r, d, w) \<leftarrow> cc_calvinsys_read x obj_ref w;
             slots \<leftarrow> has_slot outport w;
             if \<not> slots then Some (False, w)
             else do {
               (data, n) \<leftarrow> d;
               (r, w) \<leftarrow> write_port outport (Some data, n) w;
               Some (r = CC_SUCCESS, w) } } } }
     | _ \<Rightarrow> None }"

definition cc_actor_camera_get_requires :: "addr \<Rightarrow> world \<Rightarrow> (cc_result \<times> unit cc_list \<times> world) option" where
  "cc_actor_camera_get_requires a w = put_requires [''media.camerahandler''] [] w"

definition cc_actor_camera_setup :: "ext \<Rightarrow> actor_ops" where
  "cc_actor_camera_setup x = \<lparr>ac_init = cc_actor_camera_init x, ac_set_state = cc_actor_camera_set_state x,
     ac_free_state = None, ac_fire = cc_actor_camera_fire x, ac_get_managed_attributes = None, ac_will_migrate = None,
     ac_will_end = None, ac_did_migrate = None, ac_did_replicate = None, ac_get_requires = Some cc_actor_camera_get_requires\<rparr>"

end
