(* ===== verification/Builtin_Sensor.thy ===== *)
theory Builtin_Sensor
  imports Builtin_Std
begin

text \<open>
  The actor types of \<open>src/actors/sensor\<close>: accelerometer and gyroscope, a source over CoAP, soil moisture, and three
  kinds of thermometer.
\<close>

section \<open>Accelerometer and gyroscope\<close>

text \<open>The two files differ in the name of the capability, the argument \<open>name\<close>.\<close>

definition get_motion :: "addr \<Rightarrow> world \<Rightarrow> cc_motion_state option" where
  "get_motion a w = do { s \<leftarrow> get_instance a w; case s of Inst_motion st \<Rightarrow> Some st | _ \<Rightarrow> None }"

definition motion_init :: "bytes \<Rightarrow> ext \<Rightarrow> addr \<Rightarrow> bytes cc_list \<Rightarrow> world \<Rightarrow> (cc_result \<times> world) option" where
  "motion_init name x a attrs w = (case cc_list_get attrs ''period'' of
     None \<Rightarrow> Some (CC_FAIL, w)
   | Some item \<Rightarrow> do {
       (r, _, w) \<leftarrow> cc_calvinsys_open x a name attrs w;
       case r of None \<Rightarrow> Some (CC_FAIL, w) | Some obj_ref \<Rightarrow>
       (case mem_alloc w of (False, w) \<Rightarrow> Some (CC_FAIL, w) | (True, w) \<Rightarrow>
       (case mem_alloc w of (False, w) \<Rightarrow> Some (CC_FAIL, w) | (True, w) \<Rightarrow> do {
         period \<leftarrow> copy_value item;
         level \<leftarrow> strncpy_term CC_UUID_BUFFER_SIZE obj_ref (strlen obj_ref);
         w \<leftarrow> set_instance a (Inst_motion \<lparr>mot_level = level, mot_period = Some period, mot_period_size = li_data_len item\<rparr>) w;
         Some (CC_SUCCESS, w) })) })"

definition motion_set_state :: "ext \<Rightarrow> addr \<Rightarrow> bytes cc_list \<Rightarrow> world \<Rightarrow> (cc_result \<times> world) option" where
  "motion_set_state x a attrs w = (case mem_alloc w of
     (False, w) \<Rightarrow> Some (CC_FAIL, w)
   | (True, w) \<Rightarrow> do {
       let state = \<lparr>mot_level = [], mot_period = None, mot_period_size = 0\<rparr>;
       w \<leftarrow> set_instance a (Inst_motion state) w;
       must (attr_ref (x_mp x) attrs ''level'') (Some (CC_FAIL, w)) (\<lambda>level. do {
       let state = state\<lparr>mot_level := level\<rparr>;
       w \<leftarrow> set_instance a (Inst_motion state) w;
       case cc_list_get attrs ''period'' of
         None \<Rightarrow> Some (CC_FAIL, w)
       | Some item \<Rightarrow> (case mem_alloc w of
           (False, w) \<Rightarrow> Some (CC_FAIL, w)
         | (True, w) \<Rightarrow> do {
             period \<leftarrow> copy_value item;
             w \<leftarrow> set_instance a (Inst_motion (state\<lparr>mot_period := Some period, mot_period_size := li_data_len item\<rparr>)) w;
             Some (CC_SUCCESS, w) }) }) })"

text \<open>The state is read as a string: \<open>level\<close> is its first member.\<close>

definition motion_fire :: "ext \<Rightarrow> addr \<Rightarrow> world \<Rightarrow> (bool \<times> world) option" where
  "motion_fire x a w = do {
     outport \<leftarrow> out_port a w;
     state \<leftarrow> get_motion a w;
     (ready, w) \<leftarrow> cc_calvinsys_can_read x (mot_level state) w;
     if \<not> ready then Some (False, w)
     else do {
       slots \<leftarrow> has_slot outport w;
       if \<not> slots then Some (False, w) else read_to_port x (mot_level state) outport w } }"

definition motion_get_attributes :: "ext \<Rightarrow> addr \<Rightarrow> world \<Rightarrow> (cc_result \<times> bytes option cc_list \<times> world) option" where
  "motion_get_attributes x a w = do {
     state \<leftarrow> get_motion a w;
     and_put (put_str (x_mp x) ''level'' (mot_level state) [] w) (\<lambda>l w.
     and_put (put_pointer ''period'' (mot_period state) (mot_period_size state) l w) (\<lambda>l w. do {
     w \<leftarrow> set_instance a (Inst_motion (state\<lparr>mot_period := None\<rparr>)) w;
     Some (CC_SUCCESS, l, w) })) }"

definition cc_actor_accelerometer_init :: "ext \<Rightarrow> addr \<Rightarrow> bytes cc_list \<Rightarrow> world \<Rightarrow> (cc_result \<times> world) option" where
  "cc_actor_accelerometer_init = motion_init ''io.accelerometer''"

definition cc_actor_accelerometer_set_state :: "ext \<Rightarrow> addr \<Rightarrow> bytes cc_list \<Rightarrow> world \<Rightarrow> (cc_result \<times> world) option" where
  "cc_actor_accelerometer_set_state = motion_set_state"

definition cc_actor_accelerometer_fire :: "ext \<Rightarrow> addr \<Rightarrow> world \<Rightarrow> (bool \<times> world) option" where
  "cc_actor_accelerometer_fire = motion_fire"

definition cc_actor_accelerometer_free :: "addr \<Rightarrow> world \<Rightarrow> world option" where
  "cc_actor_accelerometer_free a w = keep_pointer a w"

definition cc_actor_accelerometer_get_attributes ::
  "ext \<Rightarrow> addr \<Rightarrow> world \<Rightarrow> (cc_result \<times> bytes option cc_list \<times> world) option" where
  "cc_actor_accelerometer_get_attributes = motion_get_attributes"

definition cc_actor_accelerometer_get_requires :: "addr \<Rightarrow> world \<Rightarrow> (cc_result \<times> unit cc_list \<times> world) option" where
  "cc_actor_accelerometer_get_requires a w = put_requires [''io.accelerometer''] [] w"

definition cc_actor_accelerometer_setup :: "ext \<Rightarrow> actor_ops" where
  "cc_actor_accelerometer_setup x = \<lparr>ac_init = cc_actor_accelerometer_init x, ac_set_state = cc_actor_accelerometer_set_state x,
     ac_free_state = Some cc_actor_accelerometer_free, ac_fire = cc_actor_accelerometer_fire x,
     ac_get_managed_attributes = Some (cc_actor_accelerometer_get_attributes x), ac_will_migrate = None, ac_will_end = None,
     ac_did_migrate = None, ac_did_replicate = None, ac_get_requires = Some cc_actor_accelerometer_get_requires\<rparr>"

definition cc_actor_gyroscope_init :: "ext \<Rightarrow> addr \<Rightarrow> bytes cc_list \<Rightarrow> world \<Rightarrow> (cc_result \<times> world) option" where
  "cc_actor_gyroscope_init = motion_init ''io.gyroscope''"

definition cc_actor_gyroscope_set_state :: "ext \<Rightarrow> addr \<Rightarrow> bytes cc_list \<Rightarrow> world \<Rightarrow> (cc_result \<times> world) option" where
  "cc_actor_gyroscope_set_state = motion_set_state"

definition cc_actor_gyroscope_fire :: "ext \<Rightarrow> addr \<Rightarrow> world \<Rightarrow> (bool \<times> world) option" where
  "cc_actor_gyroscope_fire = motion_fire"

definition cc_actor_gyroscope_free :: "addr \<Rightarrow> world \<Rightarrow> world option" where
  "cc_actor_gyroscope_free a w = keep_pointer a w"

definition cc_actor_gyroscope_get_attributes ::
  "ext \<Rightarrow> addr \<Rightarrow> world \<Rightarrow> (cc_result \<times> bytes option cc_list \<times> world) option" where
  "cc_actor_gyroscope_get_attributes = motion_get_attributes"

definition cc_actor_gyroscope_get_requires :: "addr \<Rightarrow> world \<Rightarrow> (cc_result \<times> unit cc_list \<times> world) option" where
  "cc_actor_gyroscope_get_requires a w = put_requires [''io.gyroscope''] [] w"

definition cc_actor_gyroscope_setup :: "ext \<Rightarrow> actor_ops" where
  "cc_actor_gyroscope_setup x = \<lparr>ac_init = cc_actor_gyroscope_init x, ac_set_state = cc_actor_gyroscope_set_state x,
     ac_free_state = Some cc_actor_gyroscope_free, ac_fire = cc_actor_gyroscope_fire x,
     ac_get_managed_attributes = Some (cc_actor_gyroscope_get_attributes x), ac_will_migrate = None, ac_will_end = None,
     ac_did_migrate = None, ac_did_replicate = None, ac_get_requires = Some cc_actor_gyroscope_get_requires\<rparr>"

section \<open>Source over CoAP\<close>

definition get_coap :: "addr \<Rightarrow> world \<Rightarrow> cc_actor_coap_state option" where
  "get_coap a w = do { s \<leftarrow> get_instance a w; case s of Inst_coap st \<Rightarrow> Some st | _ \<Rightarrow> None }"

definition coap_requires :: "addr \<Rightarrow> world \<Rightarrow> bytes option" where
  "coap_requires a w = do { actor \<leftarrow> h_actors w a; a_requires actor }"

text \<open>\<open>strchr(name, '.')\<close> and the step behind it\<close>

definition after_dot :: "bytes \<Rightarrow> bytes option" where
  "after_dot name = (case dropWhile (\<lambda>c. c \<noteq> CHR ''.'') (cstr name) of [] \<Rightarrow> None | _ # s \<Rightarrow> Some s)"

text \<open>The byte of the encoded value true\<close>

definition encoded_true :: bytes where
  "encoded_true = [CHR 0xC3]"

text \<open>When the object does not take the first write the code returns \<open>false\<close>, which is \<open>CC_SUCCESS\<close>.\<close>

definition cc_actor_coap_init :: "ext \<Rightarrow> addr \<Rightarrow> bytes cc_list \<Rightarrow> world \<Rightarrow> (cc_result \<times> world) option" where
  "cc_actor_coap_init x a attrs w = (case mem_alloc w of
     (False, w) \<Rightarrow> Some (CC_FAIL, w)
   | (True, w) \<Rightarrow> do {
       w \<leftarrow> set_instance a (Inst_coap \<lparr>coap_source = []\<rparr>) w;
       requires \<leftarrow> coap_requires a w;
       (r, w) \<leftarrow> open_ref x a requires [] w;
       case r of None \<Rightarrow> Some (CC_FAIL, w) | Some source \<Rightarrow> do {
       w \<leftarrow> set_instance a (Inst_coap \<lparr>coap_source = source\<rparr>) w;
       (r, w) \<leftarrow> cc_calvinsys_write x source encoded_true 1 w;
       Some (CC_SUCCESS, w) } })"

definition cc_actor_coap_set_state :: "ext \<Rightarrow> addr \<Rightarrow> bytes cc_list \<Rightarrow> world \<Rightarrow> (cc_result \<times> world) option" where
  "cc_actor_coap_set_state x a attrs w = do {
     requires \<leftarrow> coap_requires a w;
     case after_dot requires of None \<Rightarrow> Some (CC_FAIL, w) | Some name \<Rightarrow>
     (case mem_alloc w of (False, w) \<Rightarrow> Some (CC_FAIL, w) | (True, w) \<Rightarrow>
     must (attr_ref (x_mp x) attrs name) (Some (CC_FAIL, w)) (\<lambda>source. do {
     w \<leftarrow> set_instance a (Inst_coap \<lparr>coap_source = source\<rparr>) w;
     (r, w) \<leftarrow> cc_calvinsys_write x source encoded_true 1 w;
     Some (if r = CC_SUCCESS then CC_SUCCESS else CC_FAIL, w) })) }"

definition cc_actor_coap_read_measurement :: "ext \<Rightarrow> addr \<Rightarrow> world \<Rightarrow> (bool \<times> world) option" where
  "cc_actor_coap_read_measurement x a w = do {
     port \<leftarrow> out_port a w;
     slots \<leftarrow> has_slot port w;
     if \<not> slots then Some (False, w)
     else do {
       state \<leftarrow> get_coap a w;
       (ready, w) \<leftarrow> cc_calvinsys_can_read x (coap_source state) w;
       if \<not> ready then Some (False, w) else read_to_port x (coap_source state) port w } }"

definition cc_actor_coap_fire :: "ext \<Rightarrow> addr \<Rightarrow> world \<Rightarrow> (bool \<times> world) option" where
  "cc_actor_coap_fire x a w = cc_actor_coap_read_measurement x a w"

definition cc_actor_coap_free :: "addr \<Rightarrow> world \<Rightarrow> world option" where
  "cc_actor_coap_free a w = keep_pointer a w"

definition cc_actor_coap_get_attributes :: "ext \<Rightarrow> addr \<Rightarrow> world \<Rightarrow> (cc_result \<times> bytes option cc_list \<times> world) option" where
  "cc_actor_coap_get_attributes x a w = do {
     requires \<leftarrow> coap_requires a w;
     case after_dot requires of None \<Rightarrow> Some (CC_FAIL, [], w)
     | Some name \<Rightarrow> do { state \<leftarrow> get_coap a w; put_str (x_mp x) name (coap_source state) [] w } }"

definition cc_actor_coap_get_requires :: "addr \<Rightarrow> world \<Rightarrow> (cc_result \<times> unit cc_list \<times> world) option" where
  "cc_actor_coap_get_requires a w = do { requires \<leftarrow> coap_requires a w; put_requires [cstr requires] [] w }"

definition cc_actor_coap_setup :: "ext \<Rightarrow> actor_ops" where
  "cc_actor_coap_setup x = \<lparr>ac_init = cc_actor_coap_init x, ac_set_state = cc_actor_coap_set_state x,
     ac_free_state = Some cc_actor_coap_free, ac_fire = cc_actor_coap_fire x,
     ac_get_managed_attributes = Some (cc_actor_coap_get_attributes x), ac_will_migrate = None, ac_will_end = None,
     ac_did_migrate = None, ac_did_replicate = None, ac_get_requires = Some cc_actor_coap_get_requires\<rparr>"

section \<open>Soil moisture\<close>

text \<open>
  The identifiers are copied without a terminator into memory that is not cleared. \<open>fill\<close> is the buffer after the
  copy, \<open>buffer_string\<close> the string that is read from it later: without a terminator in the buffer it is a fault.
\<close>

definition fill :: "bytes \<Rightarrow> nat \<Rightarrow> bytes \<Rightarrow> bytes" where
  "fill buffer n s = take n s @ drop n buffer"

definition buffer_string :: "bytes \<Rightarrow> bytes option" where
  "buffer_string buffer = (if NUL \<in> set buffer then Some (cstr buffer) else None)"

text \<open>\<open>strnlen\<close> of memory that ends without a terminator before the limit is a fault.\<close>

definition strnlen_mem :: "bytes \<Rightarrow> nat \<Rightarrow> nat option" where
  "strnlen_mem s n = (if NUL \<in> set s \<or> n \<le> length s then Some (strnlen s n) else None)"

definition get_soil :: "addr \<Rightarrow> world \<Rightarrow> cc_actor_soil_moisture_state option" where
  "get_soil a w = do { s \<leftarrow> get_instance a w; case s of Inst_soil_moisture st \<Rightarrow> Some st | _ \<Rightarrow> None }"

definition fresh_soil :: "ext \<Rightarrow> world \<Rightarrow> cc_actor_soil_moisture_state" where
  "fresh_soil x w = \<lparr>soil_soilmoisture = take CC_UUID_BUFFER_SIZE (x_fresh x w),
     soil_timer = take CC_UUID_BUFFER_SIZE (drop CC_UUID_BUFFER_SIZE (x_fresh x w))\<rparr>"

definition cc_actor_soil_moisture_init :: "ext \<Rightarrow> addr \<Rightarrow> bytes cc_list \<Rightarrow> world \<Rightarrow> (cc_result \<times> world) option" where
  "cc_actor_soil_moisture_init x a attrs w = (case mem_alloc w of
     (False, w) \<Rightarrow> Some (CC_FAIL, w)
   | (True, w) \<Rightarrow> do {
       let state = fresh_soil x w;
       (r, _, w) \<leftarrow> cc_calvinsys_open x a ''io.soilmoisture'' [] w;
       case r of None \<Rightarrow> Some (CC_FAIL, w) | Some obj_ref \<Rightarrow> do {
       let state = state\<lparr>soil_soilmoisture := fill (soil_soilmoisture state) (strnlen obj_ref CC_UUID_BUFFER_SIZE) obj_ref\<rparr>;
       (r, _, w) \<leftarrow> cc_calvinsys_open x a ''sys.timer.once'' attrs w;
       case r of None \<Rightarrow> Some (CC_FAIL, w) | Some obj_ref \<Rightarrow> do {
       let state = state\<lparr>soil_timer := fill (soil_timer state) (strnlen obj_ref CC_UUID_BUFFER_SIZE) obj_ref\<rparr>;
       w \<leftarrow> set_instance a (Inst_soil_moisture state) w;
       Some (CC_SUCCESS, w) } } })"

text \<open>The string inside the encoded attribute has no terminator either.\<close>

definition soil_ref :: "mp \<Rightarrow> bytes cc_list \<Rightarrow> bytes \<Rightarrow> bytes \<Rightarrow> bytes option option" where
  "soil_ref mp attrs key buffer = (case cc_list_get attrs key of None \<Rightarrow> Some None
     | Some item \<Rightarrow> do {
         d \<leftarrow> cc_coder_decode_str mp (li_data item);
         case d of None \<Rightarrow> Some None
         | Some (obj_ref, _) \<Rightarrow> do { n \<leftarrow> strnlen_mem obj_ref CC_UUID_BUFFER_SIZE; Some (Some (fill buffer n obj_ref)) } })"

definition cc_actor_soil_moisture_set_state :: "ext \<Rightarrow> addr \<Rightarrow> bytes cc_list \<Rightarrow> world \<Rightarrow> (cc_result \<times> world) option" where
  "cc_actor_soil_moisture_set_state x a attrs w = (case mem_alloc w of
     (False, w) \<Rightarrow> Some (CC_FAIL, w)
   | (True, w) \<Rightarrow>
       let state = fresh_soil x w
       in must (soil_ref (x_mp x) attrs ''soilmoisture'' (soil_soilmoisture state)) (Some (CC_FAIL, w)) (\<lambda>soilmoisture.
          must (soil_ref (x_mp x) attrs ''timer'' (soil_timer state)) (Some (CC_FAIL, w)) (\<lambda>timer. do {
          w \<leftarrow> set_instance a (Inst_soil_moisture \<lparr>soil_soilmoisture = soilmoisture, soil_timer = timer\<rparr>) w;
          Some (CC_SUCCESS, w) })))"

text \<open>The value true, encoded into memory of the right size and written to the timer: whether that worked.\<close>

definition write_true :: "ext \<Rightarrow> bytes \<Rightarrow> world \<Rightarrow> (bool \<times> world) option" where
  "write_true x timer w = (case mem_alloc w of
     (False, w) \<Rightarrow> Some (False, w)
   | (True, w) \<Rightarrow>
       let data = cc_coder_encode_bool (x_mp x) [] True; n = unat (cc_coder_sizeof_bool (x_mp x) True)
       in if n < length data then None
          else do { (r, w) \<leftarrow> cc_calvinsys_write x timer data n w; Some (r = CC_SUCCESS, w) })"

definition cc_actor_soil_moisture_fire :: "ext \<Rightarrow> addr \<Rightarrow> world \<Rightarrow> (bool \<times> world) option" where
  "cc_actor_soil_moisture_fire x a w = do {
     outport \<leftarrow> out_port a w;
     state \<leftarrow> get_soil a w;
     timer \<leftarrow> buffer_string (soil_timer state);
     (ready, w) \<leftarrow> cc_calvinsys_can_read x timer w;
     if \<not> ready then Some (False, w)
     else do {
       soilmoisture \<leftarrow> buffer_string (soil_soilmoisture state);
       (ready, w) \<leftarrow> cc_calvinsys_can_read x soilmoisture w;
       if \<not> ready then Some (False, w)
       else do {
         slots \<leftarrow> has_slot outport w;
         if \<not> slots then Some (False, w)
         else do {
           (ok, w) \<leftarrow> write_true x timer w;
           if \<not> ok then Some (False, w) else read_to_port x soilmoisture outport w } } } }"

definition cc_actor_soil_moisture_get_attributes ::
  "ext \<Rightarrow> addr \<Rightarrow> world \<Rightarrow> (cc_result \<times> bytes option cc_list \<times> world) option" where
  "cc_actor_soil_moisture_get_attributes x a w = do {
     actor \<leftarrow> h_actors w a;
     case a_instance actor of
       None \<Rightarrow> Some (CC_FAIL, [], w)
     | Some (Inst_soil_moisture state) \<Rightarrow> do {
         timer \<leftarrow> buffer_string (soil_timer state);
         and_put (put_str (x_mp x) ''timer'' timer [] w) (\<lambda>l w. do {
         soilmoisture \<leftarrow> buffer_string (soil_soilmoisture state);
         put_str (x_mp x) ''soilmoisture'' soilmoisture l w }) }
     | _ \<Rightarrow> None }"

definition cc_actor_soil_moisture_free :: "addr \<Rightarrow> world \<Rightarrow> world option" where
  "cc_actor_soil_moisture_free a w = keep_pointer a w"

definition cc_actor_soil_moisture_get_requires :: "addr \<Rightarrow> world \<Rightarrow> (cc_result \<times> unit cc_list \<times> world) option" where
  "cc_actor_soil_moisture_get_requires a w = put_requires [''io.soilmoisture'', ''sys.timer.once''] [] w"

definition cc_actor_soil_moisture_setup :: "ext \<Rightarrow> actor_ops" where
  "cc_actor_soil_moisture_setup x = \<lparr>ac_init = cc_actor_soil_moisture_init x, ac_set_state = cc_actor_soil_moisture_set_state x,
     ac_free_state = Some cc_actor_soil_moisture_free, ac_fire = cc_actor_soil_moisture_fire x,
     ac_get_managed_attributes = Some (cc_actor_soil_moisture_get_attributes x), ac_will_migrate = None, ac_will_end = None,
     ac_did_migrate = None, ac_did_replicate = None, ac_get_requires = Some cc_actor_soil_moisture_get_requires\<rparr>"

section \<open>Thermometer\<close>

definition get_temperature :: "addr \<Rightarrow> world \<Rightarrow> cc_actor_temperature_state option" where
  "get_temperature a w = do { s \<leftarrow> get_instance a w; case s of Inst_temperature st \<Rightarrow> Some st | _ \<Rightarrow> None }"

definition zero_temperature :: cc_actor_temperature_state where
  "zero_temperature = \<lparr>tmp_temperature = [], tmp_timer = [], tmp_period = None, tmp_period_size = 0\<rparr>"

definition cc_actor_temperature_init :: "ext \<Rightarrow> addr \<Rightarrow> bytes cc_list \<Rightarrow> world \<Rightarrow> (cc_result \<times> world) option" where
  "cc_actor_temperature_init x a attrs w = (case mem_alloc w of
     (False, w) \<Rightarrow> Some (CC_FAIL, w)
   | (True, w) \<Rightarrow> do {
       let state = zero_temperature;
       w \<leftarrow> set_instance a (Inst_temperature state) w;
       case cc_list_get attrs ''period'' of None \<Rightarrow> Some (CC_FAIL, w) | Some item \<Rightarrow>
       (case mem_alloc w of (False, w) \<Rightarrow> Some (CC_FAIL, w) | (True, w) \<Rightarrow> do {
       period \<leftarrow> copy_value item;
       let state = state\<lparr>tmp_period := Some period, tmp_period_size := li_data_len item\<rparr>;
       w \<leftarrow> set_instance a (Inst_temperature state) w;
       (r, w) \<leftarrow> open_ref x a ''io.temperature'' [] w;
       case r of None \<Rightarrow> Some (CC_FAIL, w) | Some temperature \<Rightarrow> do {
       let state = state\<lparr>tmp_temperature := temperature\<rparr>;
       w \<leftarrow> set_instance a (Inst_temperature state) w;
       case cc_list_add [] ''period'' period (li_data_len item) w of
         (None, l, w) \<Rightarrow> Some (CC_FAIL, w)
       | (Some _, attributes, w) \<Rightarrow> do {
           (r, w) \<leftarrow> open_ref x a ''sys.timer.once'' attributes w;
           case r of None \<Rightarrow> Some (CC_FAIL, w) | Some timer \<Rightarrow> do {
           w \<leftarrow> set_instance a (Inst_temperature (state\<lparr>tmp_timer := timer\<rparr>)) w;
           Some (CC_SUCCESS, w) } } } }) })"

definition cc_actor_temperature_set_state :: "ext \<Rightarrow> addr \<Rightarrow> bytes cc_list \<Rightarrow> world \<Rightarrow> (cc_result \<times> world) option" where
  "cc_actor_temperature_set_state x a attrs w = (case mem_alloc w of
     (False, w) \<Rightarrow> Some (CC_FAIL, w)
   | (True, w) \<Rightarrow> do {
       let state = zero_temperature;
       w \<leftarrow> set_instance a (Inst_temperature state) w;
       must (attr_ref (x_mp x) attrs ''temperature'') (Some (CC_FAIL, w)) (\<lambda>temperature. do {
       let state = state\<lparr>tmp_temperature := temperature\<rparr>;
       w \<leftarrow> set_instance a (Inst_temperature state) w;
       must (attr_ref (x_mp x) attrs ''timer'') (Some (CC_FAIL, w)) (\<lambda>timer. do {
       let state = state\<lparr>tmp_timer := timer\<rparr>;
       w \<leftarrow> set_instance a (Inst_temperature state) w;
       case cc_list_get attrs ''period'' of
         None \<Rightarrow> Some (CC_FAIL, w)
       | Some item \<Rightarrow> (case mem_alloc w of
           (False, w) \<Rightarrow> Some (CC_FAIL, w)
         | (True, w) \<Rightarrow> do {
             period \<leftarrow> copy_value item;
             w \<leftarrow> set_instance a (Inst_temperature (state\<lparr>tmp_period := Some period, tmp_period_size := li_data_len item\<rparr>)) w;
             Some (CC_SUCCESS, w) }) }) }) })"

text \<open>A period that has been handed out is a null pointer, and writing it to the timer is a fault.\<close>

definition cc_actor_temperature_read_measurement :: "ext \<Rightarrow> addr \<Rightarrow> world \<Rightarrow> (bool \<times> world) option" where
  "cc_actor_temperature_read_measurement x a w = do {
     state \<leftarrow> get_temperature a w;
     outport \<leftarrow> out_port a w;
     (ready, w) \<leftarrow> cc_calvinsys_can_read x (tmp_temperature state) w;
     if \<not> ready then Some (False, w)
     else do {
       (free, w) \<leftarrow> cc_calvinsys_can_write x (tmp_timer state) w;
       if \<not> free then Some (False, w)
       else do {
         slots \<leftarrow> has_slot outport w;
         if \<not> slots then Some (False, w)
         else do {
           (ok, w) \<leftarrow> read_to_port x (tmp_temperature state) outport w;
           if \<not> ok then Some (False, w)
           else do {
             period \<leftarrow> tmp_period state;
             (r, w) \<leftarrow> cc_calvinsys_write x (tmp_timer state) period (tmp_period_size state) w;
             Some (r = CC_SUCCESS, w) } } } } }"

definition cc_actor_temperature_start_measurement :: "ext \<Rightarrow> addr \<Rightarrow> world \<Rightarrow> (bool \<times> world) option" where
  "cc_actor_temperature_start_measurement x a w = do {
     state \<leftarrow> get_temperature a w;
     (ready, w) \<leftarrow> cc_calvinsys_can_read x (tmp_timer state) w;
     if \<not> ready then Some (False, w)
     else do {
       (free, w) \<leftarrow> cc_calvinsys_can_write x (tmp_temperature state) w;
       if \<not> free then Some (False, w)
       else do {
         (r, d, w) \<leftarrow> cc_calvinsys_read x (tmp_timer state) w;
         if r \<noteq> CC_SUCCESS then Some (False, w)
         else do {
           (r, w) \<leftarrow> cc_calvinsys_write x (tmp_temperature state) encoded_true 1 w;
           Some (r = CC_SUCCESS, w) } } } }"

definition cc_actor_temperature_fire :: "ext \<Rightarrow> addr \<Rightarrow> world \<Rightarrow> (bool \<times> world) option" where
  "cc_actor_temperature_fire x a w = do {
     (f1, w) \<leftarrow> cc_actor_temperature_read_measurement x a w;
     (f2, w) \<leftarrow> cc_actor_temperature_start_measurement x a w;
     Some (f1 \<or> f2, w) }"

definition cc_actor_temperature_free :: "addr \<Rightarrow> world \<Rightarrow> world option" where
  "cc_actor_temperature_free a w = keep_pointer a w"

definition cc_actor_temperature_get_attributes ::
  "ext \<Rightarrow> addr \<Rightarrow> world \<Rightarrow> (cc_result \<times> bytes option cc_list \<times> world) option" where
  "cc_actor_temperature_get_attributes x a w = do {
     state \<leftarrow> get_temperature a w;
     and_put (put_str (x_mp x) ''timer'' (tmp_timer state) [] w) (\<lambda>l w.
     and_put (put_str (x_mp x) ''temperature'' (tmp_temperature state) l w) (\<lambda>l w.
     and_put (put_pointer ''period'' (tmp_period state) (tmp_period_size state) l w) (\<lambda>l w. do {
     w \<leftarrow> set_instance a (Inst_temperature (state\<lparr>tmp_period := None\<rparr>)) w;
     Some (CC_SUCCESS, l, w) }))) }"

definition cc_actor_temperature_get_requires :: "addr \<Rightarrow> world \<Rightarrow> (cc_result \<times> unit cc_list \<times> world) option" where
  "cc_actor_temperature_get_requires a w = put_requires [''io.temperature'', ''sys.timer.once''] [] w"

definition cc_actor_temperature_setup :: "ext \<Rightarrow> actor_ops" where
  "cc_actor_temperature_setup x = \<lparr>ac_init = cc_actor_temperature_init x, ac_set_state = cc_actor_temperature_set_state x,
     ac_free_state = Some cc_actor_temperature_free, ac_fire = cc_actor_temperature_fire x,
     ac_get_managed_attributes = Some (cc_actor_temperature_get_attributes x), ac_will_migrate = None, ac_will_end = None,
     ac_did_migrate = None, ac_did_replicate = None, ac_get_requires = Some cc_actor_temperature_get_requires\<rparr>"

section \<open>Thermometer with tagged values\<close>

definition cc_actor_temperature_tagged_init :: "ext \<Rightarrow> addr \<Rightarrow> bytes cc_list \<Rightarrow> world \<Rightarrow> (cc_result \<times> world) option" where
  "cc_actor_temperature_tagged_init x a attrs w = (case mem_alloc w of
     (False, w) \<Rightarrow> Some (CC_FAIL, w)
   | (True, w) \<Rightarrow> do {
       (r, w) \<leftarrow> open_ref x a ''io.temperature'' [] w;
       case r of None \<Rightarrow> Some (CC_FAIL, w) | Some temperature \<Rightarrow> do {
       (r, w) \<leftarrow> open_ref x a ''sys.timer.once'' attrs w;
       case r of None \<Rightarrow> Some (CC_FAIL, w) | Some timer \<Rightarrow> do {
       w \<leftarrow> set_instance a (Inst_temperature_tagged \<lparr>tag_temperature = temperature, tag_timer = timer\<rparr>) w;
       Some (CC_SUCCESS, w) } } })"

text \<open>An identifier in the attributes that belongs to an object.\<close>

definition attr_object :: "mp \<Rightarrow> bytes cc_list \<Rightarrow> bytes \<Rightarrow> world \<Rightarrow> bytes option option" where
  "attr_object mp attrs key w = (case cc_list_get attrs key of None \<Rightarrow> Some None
     | Some item \<Rightarrow> do {
         d \<leftarrow> cc_coder_decode_str mp (li_data item);
         case d of None \<Rightarrow> Some None
         | Some (obj_ref, obj_ref_len) \<Rightarrow>
             if cc_list_get_n (n_objects w) obj_ref (unat obj_ref_len) = None then Some None
             else do { s \<leftarrow> strncpy_term CC_UUID_BUFFER_SIZE obj_ref (unat obj_ref_len); Some (Some s) } })"

definition cc_actor_temperature_tagged_set_state :: "ext \<Rightarrow> addr \<Rightarrow> bytes cc_list \<Rightarrow> world \<Rightarrow> (cc_result \<times> world) option" where
  "cc_actor_temperature_tagged_set_state x a attrs w = (case mem_alloc w of
     (False, w) \<Rightarrow> Some (CC_FAIL, w)
   | (True, w) \<Rightarrow>
       must (attr_object (x_mp x) attrs ''temperature'' w) (Some (CC_FAIL, w)) (\<lambda>temperature.
       must (attr_object (x_mp x) attrs ''timer'' w) (Some (CC_FAIL, w)) (\<lambda>timer. do {
       w \<leftarrow> set_instance a (Inst_temperature_tagged \<lparr>tag_temperature = temperature, tag_timer = timer\<rparr>) w;
       Some (CC_SUCCESS, w) })))"

text \<open>The value that was read, with the node and the time; the memory has 200 bytes.\<close>

definition tagged_token :: "mp \<Rightarrow> (bytes \<times> nat) option \<Rightarrow> world \<Rightarrow> bytes option" where
  "tagged_token mp d w = (case out_data d of (data_temp, n) \<Rightarrow> do {
     b \<leftarrow> cc_coder_encode_kv_value mp (cc_coder_encode_map mp [] 3) ''value'' data_temp n;
     let b = cc_coder_encode_kv_str mp b ''node_id'' (n_id w) (of_nat (strlen (n_id w)));
     let b = cc_coder_encode_kv_uint mp b ''time'' (cc_node_get_time w);
     if length b \<le> 200 then Some b else None })"

definition get_tagged :: "addr \<Rightarrow> world \<Rightarrow> cc_actor_temperature_tagged_state option" where
  "get_tagged a w = do { s \<leftarrow> get_instance a w; case s of Inst_temperature_tagged st \<Rightarrow> Some st | _ \<Rightarrow> None }"

definition cc_actor_temperature_tagged_fire :: "ext \<Rightarrow> addr \<Rightarrow> world \<Rightarrow> (bool \<times> world) option" where
  "cc_actor_temperature_tagged_fire x a w = do {
     outport \<leftarrow> out_port a w;
     state \<leftarrow> get_tagged a w;
     (ready, w) \<leftarrow> cc_calvinsys_can_read x (tag_timer state) w;
     if \<not> ready then Some (False, w)
     else do {
       (ready, w) \<leftarrow> cc_calvinsys_can_read x (tag_temperature state) w;
       if \<not> ready then Some (False, w)
       else do {
         slots \<leftarrow> has_slot outport w;
         if \<not> slots then Some (False, w)
         else do {
           (ok, w) \<leftarrow> write_true x (tag_timer state) w;
           if \<not> ok then Some (False, w)
           else do {
             (r, d, w) \<leftarrow> cc_calvinsys_read x (tag_temperature state) w;
             if r \<noteq> CC_SUCCESS then Some (False, w)
             else (case mem_alloc w of
               (False, w) \<Rightarrow> Some (False, w)
             | (True, w) \<Rightarrow> do {
                 b \<leftarrow> tagged_token (x_mp x) d w;
                 (r, w) \<leftarrow> write_port outport (Some b, length b) w;
                 Some (r = CC_SUCCESS, w) }) } } } } }"

definition cc_actor_temperature_tagged_free :: "addr \<Rightarrow> world \<Rightarrow> world option" where
  "cc_actor_temperature_tagged_free a w = keep_pointer a w"

definition cc_actor_temperature_tagged_get_attributes ::
  "ext \<Rightarrow> addr \<Rightarrow> world \<Rightarrow> (cc_result \<times> bytes option cc_list \<times> world) option" where
  "cc_actor_temperature_tagged_get_attributes x a w = do {
     actor \<leftarrow> h_actors w a;
     case a_instance actor of
       None \<Rightarrow> Some (CC_FAIL, [], w)
     | Some (Inst_temperature_tagged state) \<Rightarrow>
         and_put (put_str (x_mp x) ''timer'' (tag_timer state) [] w) (put_str (x_mp x) ''temperature'' (tag_temperature state))
     | _ \<Rightarrow> None }"

definition cc_actor_temperature_tagged_get_requires :: "addr \<Rightarrow> world \<Rightarrow> (cc_result \<times> unit cc_list \<times> world) option" where
  "cc_actor_temperature_tagged_get_requires a w = put_requires [''io.temperature'', ''sys.timer.once''] [] w"

definition cc_actor_temperature_tagged_setup :: "ext \<Rightarrow> actor_ops" where
  "cc_actor_temperature_tagged_setup x = \<lparr>ac_init = cc_actor_temperature_tagged_init x,
     ac_set_state = cc_actor_temperature_tagged_set_state x, ac_free_state = Some cc_actor_temperature_tagged_free,
     ac_fire = cc_actor_temperature_tagged_fire x,
     ac_get_managed_attributes = Some (cc_actor_temperature_tagged_get_attributes x), ac_will_migrate = None,
     ac_will_end = None, ac_did_migrate = None, ac_did_replicate = None,
     ac_get_requires = Some cc_actor_temperature_tagged_get_requires\<rparr>"

section \<open>Triggered thermometer\<close>

definition get_triggered :: "addr \<Rightarrow> world \<Rightarrow> cc_actor_triggered_temperature_state option" where
  "get_triggered a w = do { s \<leftarrow> get_instance a w; case s of Inst_triggered_temperature st \<Rightarrow> Some st | _ \<Rightarrow> None }"

definition cc_actor_triggered_temperature_init :: "ext \<Rightarrow> addr \<Rightarrow> bytes cc_list \<Rightarrow> world \<Rightarrow> (cc_result \<times> world) option" where
  "cc_actor_triggered_temperature_init x a attrs w = (case mem_alloc w of
     (False, w) \<Rightarrow> Some (CC_FAIL, w)
   | (True, w) \<Rightarrow> do {
       (r, w) \<leftarrow> open_ref x a ''io.temperature'' [] w;
       case r of None \<Rightarrow> Some (CC_FAIL, w) | Some temperature \<Rightarrow> do {
       w \<leftarrow> set_instance a (Inst_triggered_temperature \<lparr>trg_temperature = temperature\<rparr>) w;
       Some (CC_SUCCESS, w) } })"

definition cc_actor_triggered_temperature_set_state :: "ext \<Rightarrow> addr \<Rightarrow> bytes cc_list \<Rightarrow> world \<Rightarrow> (cc_result \<times> world) option" where
  "cc_actor_triggered_temperature_set_state x a attrs w = (case mem_alloc w of
     (False, w) \<Rightarrow> Some (CC_FAIL, w)
   | (True, w) \<Rightarrow> must (attr_ref (x_mp x) attrs ''temperature'') (Some (CC_FAIL, w)) (\<lambda>temperature. do {
       w \<leftarrow> set_instance a (Inst_triggered_temperature \<lparr>trg_temperature = temperature\<rparr>) w;
       Some (CC_SUCCESS, w) }))"

definition cc_actor_triggered_temperature_read_measurement :: "ext \<Rightarrow> addr \<Rightarrow> world \<Rightarrow> (bool \<times> world) option" where
  "cc_actor_triggered_temperature_read_measurement x a w = do {
     port \<leftarrow> out_port a w;
     slots \<leftarrow> has_slot port w;
     if \<not> slots then Some (False, w)
     else do {
       state \<leftarrow> get_triggered a w;
       (ready, w) \<leftarrow> cc_calvinsys_can_read x (trg_temperature state) w;
       if \<not> ready then Some (False, w) else read_to_port x (trg_temperature state) port w } }"

definition cc_actor_triggered_temperature_trigger_measurement :: "ext \<Rightarrow> addr \<Rightarrow> world \<Rightarrow> (bool \<times> world) option" where
  "cc_actor_triggered_temperature_trigger_measurement x a w = do {
     port \<leftarrow> in_port a w;
     tokens \<leftarrow> has_token port w;
     if \<not> tokens then Some (False, w)
     else do {
       state \<leftarrow> get_triggered a w;
       (free, w) \<leftarrow> cc_calvinsys_can_write x (trg_temperature state) w;
       if \<not> free then Some (False, w)
       else do {
         (token, w) \<leftarrow> peek_port port w;
         w \<leftarrow> commit_port port True w;
         (r, w) \<leftarrow> cc_calvinsys_write x (trg_temperature state) encoded_true 1 w;
         Some (r = CC_SUCCESS, w) } } }"

definition cc_actor_triggered_temperature_fire :: "ext \<Rightarrow> addr \<Rightarrow> world \<Rightarrow> (bool \<times> world) option" where
  "cc_actor_triggered_temperature_fire x a w = do {
     (f1, w) \<leftarrow> cc_actor_triggered_temperature_read_measurement x a w;
     (f2, w) \<leftarrow> cc_actor_triggered_temperature_trigger_measurement x a w;
     Some (f1 \<or> f2, w) }"

definition cc_actor_triggered_temperature_free :: "addr \<Rightarrow> world \<Rightarrow> world option" where
  "cc_actor_triggered_temperature_free a w = keep_pointer a w"

definition cc_actor_triggered_temperature_get_attributes ::
  "ext \<Rightarrow> addr \<Rightarrow> world \<Rightarrow> (cc_result \<times> bytes option cc_list \<times> world) option" where
  "cc_actor_triggered_temperature_get_attributes x a w = do {
     state \<leftarrow> get_triggered a w; put_str (x_mp x) ''temperature'' (trg_temperature state) [] w }"

definition cc_actor_triggered_temperature_get_requires :: "addr \<Rightarrow> world \<Rightarrow> (cc_result \<times> unit cc_list \<times> world) option" where
  "cc_actor_triggered_temperature_get_requires a w = put_requires [''io.temperature''] [] w"

definition cc_actor_triggered_temperature_setup :: "ext \<Rightarrow> actor_ops" where
  "cc_actor_triggered_temperature_setup x = \<lparr>ac_init = cc_actor_triggered_temperature_init x,
     ac_set_state = cc_actor_triggered_temperature_set_state x, ac_free_state = Some cc_actor_triggered_temperature_free,
     ac_fire = cc_actor_triggered_temperature_fire x,
     ac_get_managed_attributes = Some (cc_actor_triggered_temperature_get_attributes x), ac_will_migrate = None,
     ac_will_end = None, ac_did_migrate = None, ac_did_replicate = None,
     ac_get_requires = Some cc_actor_triggered_temperature_get_requires\<rparr>"

section \<open>Values and their pace\<close>

text \<open>A sensor that says whether it has a value without changing anything.\<close>

definition asks_quietly :: "ext \<Rightarrow> bytes \<Rightarrow> bool" where
  "asks_quietly x i = (\<forall>w b w'. cc_calvinsys_can_read x i w = Some (b, w') \<longrightarrow> w' = w)"

lemma write_true_busy:
  assumes "timer_obj w i ob t" "ct_triggered t" "write_true x i w = Some (ok, w')"
  shows "\<not> ok \<and> h_ports w' = h_ports w"
proof -
  obtain b w1 where m: "mem_alloc w = (b, w1)" by (cases "mem_alloc w")
  note e = node_eqD[OF conjunct1[OF mem_alloc_more[OF m]]]
  have "timer_obj w1 i ob t" using assms(1) e by (simp add: timer_obj_def)
  from timer_write_busy[OF this, of x] assms(2,3) m e(3) show ?thesis
    by (cases b) (auto simp: write_true_def Let_def split: if_splits)
qed

text \<open>
  The thermometer with tagged values, used with a timer, never sends anything. It asks the timer whether it has expired and
  then writes to it; a timer that has expired and not been read refuses every write, so the actor gives up
  each time.
\<close>

lemma tagged_never_fires:
  assumes "get_tagged a w = Some st" "timer_obj w (tag_timer st) ob t" "asks_quietly x (tag_temperature st)"
    and "cc_actor_temperature_tagged_fire x a w = Some (fired, w')"
  shows "\<not> fired \<and> h_ports w' = h_ports w"
proof (cases "ct_triggered t")
  case False
  then show ?thesis using assms(1,4) timer_can_read[OF assms(2), of x]
    by (auto simp: cc_actor_temperature_tagged_fire_def)
next
  case True
  obtain p b w1 where r: "cc_calvinsys_can_read x (tag_temperature st) w = Some (b, w1)" "out_port a w = Some p"
    using assms(1,4) timer_can_read[OF assms(2), of x] True by (auto simp: cc_actor_temperature_tagged_fire_def)
  have "w1 = w" using assms(3) r(1) by (auto simp: asks_quietly_def)
  then show ?thesis using assms(1,4) timer_can_read[OF assms(2), of x] True r write_true_busy[OF assms(2) True, of x]
    by (auto simp: cc_actor_temperature_tagged_fire_def split: if_splits)
qed

text \<open>A thermometer that has a value to send, with its timer at rest and room in its out port.\<close>

definition measured :: "ext \<Rightarrow> world \<Rightarrow> addr \<Rightarrow> cc_actor_temperature_state \<Rightarrow> addr \<Rightarrow> cc_calvinsys_timer \<Rightarrow> addr \<Rightarrow> cc_port \<Rightarrow> cc_fifo \<Rightarrow>
    (bytes \<times> nat) option \<Rightarrow> world \<Rightarrow> bool" where
  "measured x w a st ob t p port f d w1 = (get_temperature a w = Some st \<and> out_port a w = Some p
     \<and> cc_calvinsys_can_read x (tmp_temperature st) w = Some (True, w) \<and> timer_obj w (tmp_timer st) ob t \<and> \<not> ct_triggered t \<and> \<not> ct_armed t
     \<and> port_queue w p port f \<and> fifo_fresh f \<and> length (q_items (fifo_abs f)) < fifo_capacity f
     \<and> cc_calvinsys_read x (tmp_temperature st) w = Some (CC_SUCCESS, d, w1)
     \<and> h_ports w1 = h_ports w \<and> timer_obj w1 (tmp_timer st) ob t \<and> get_temperature a w1 = Some st \<and> cc_node_get_time w1 = cc_node_get_time w)"

lemma read_to_port_ok:
  assumes "measured x w a st ob t p port f d w1"
  shows "\<exists>f'. read_to_port x (tmp_temperature st) p w = Some (True, set_queue p port f' w1) \<and> fifo_ok f' \<and> q_pend (fifo_abs f') = 0
     \<and> q_items (fifo_abs f') = q_items (fifo_abs f) @ [\<lparr>tok_value = fst (out_data d), tok_size = snd (out_data d)\<rparr>]"
proof -
  have "port_queue w1 p port f" using assms by (simp add: measured_def port_queue_def)
  from write_port_ok[OF this, of "fst (out_data d)" "snd (out_data d)"] assms show ?thesis
    by (auto simp: read_to_port_def measured_def)
qed

text \<open>
  A thermometer sends the value it has read and waits for its period. The value becomes the last token of the out port and
  the timer, which was at rest, is set to expire one period later; no measurement is started before.
\<close>

lemma temperature_paces:
  assumes "measured x w a st ob t p port f d w1" "tmp_period st = Some b" "cc_coder_decode_uint (x_mp x) b = Some (Some period)"
  shows "\<exists>w' f' t'. cc_actor_temperature_fire x a w = Some (True, w') \<and> timer_obj w' (tmp_timer st) ob t'
     \<and> ct_armed t' \<and> \<not> ct_triggered t' \<and> ct_next_time t' = cc_node_get_time w + period
     \<and> port_queue w' p (port\<lparr>p_fifo := Some f'\<rparr>) f'
     \<and> q_items (fifo_abs f') = q_items (fifo_abs f) @ [\<lparr>tok_value = fst (out_data d), tok_size = snd (out_data d)\<rparr>]"
proof -
  obtain f' where f': "read_to_port x (tmp_temperature st) p w = Some (True, set_queue p port f' w1)" "fifo_ok f'" "q_pend (fifo_abs f') = 0"
      "q_items (fifo_abs f') = q_items (fifo_abs f) @ [\<lparr>tok_value = fst (out_data d), tok_size = snd (out_data d)\<rparr>]"
    using read_to_port_ok[OF assms(1)] by blast
  have m: "get_temperature a w = Some st" "out_port a w = Some p" "cc_calvinsys_can_read x (tmp_temperature st) w = Some (True, w)"
      "timer_obj w (tmp_timer st) ob t" "\<not> ct_triggered t" "\<not> ct_armed t" "port_queue w p port f"
      "length (q_items (fifo_abs f)) < fifo_capacity f" "timer_obj w1 (tmp_timer st) ob t" "get_temperature a w1 = Some st"
      "cc_node_get_time w1 = cc_node_get_time w"
    using assms(1) by (auto simp: measured_def)
  let ?w2 = "set_queue p port f' w1" let ?t' = "cc_calvinsys_timer_set ?w2 (t\<lparr>ct_timeout := period\<rparr>) period" let ?w3 = "put_timer ob ?t' ?w2"
  have t2: "timer_obj ?w2 (tmp_timer st) ob t" using m(9) by (simp add: timer_obj_def)
  have "cc_actor_temperature_read_measurement x a w = Some (True, ?w3)"
    using m f'(1) assms(2) timer_can_write[OF m(4), of x] timer_write_free[OF t2 m(5,6) assms(3)]
    by (simp add: cc_actor_temperature_read_measurement_def)
  moreover have t3: "timer_obj ?w3 (tmp_timer st) ob ?t'" by (rule timer_obj_put[OF t2])
  then have "cc_calvinsys_can_read x (tmp_timer st) ?w3 = Some (False, ?w3)" using timer_can_read[OF t3, of x] m(5) by simp
  moreover have "get_temperature a ?w3 = Some st" using m(10) by (simp add: get_temperature_def get_instance_def)
  moreover have "cc_node_get_time ?w2 = cc_node_get_time w" using m(11) by (simp add: cc_node_get_time_def)
  ultimately show ?thesis using t3 f'(2-4) m(5)
    by (intro exI[of _ ?w3] exI[of _ f'] exI[of _ ?t'])
      (simp add: cc_actor_temperature_fire_def cc_actor_temperature_start_measurement_def port_queue_def)
qed

text \<open>
  Reporting its attributes breaks a running thermometer. The period moves from the actor into the list of
  attributes, and the next value the actor has to send makes it write a null pointer to its timer. A runtime that writes its
  state out while it runs reports the attributes of all its actors.
\<close>

lemma temperature_report_fault:
  assumes "cc_actor_temperature_get_attributes x a w0 = Some (CC_SUCCESS, l, w')" "get_temperature a w = get_temperature a w'"
    and "measured x w a st ob t p port f d w1"
  shows "cc_actor_temperature_fire x a w = None"
proof -
  have "tmp_period st = None"
  proof -
    obtain w2 st2 where "set_instance a (Inst_temperature (st2\<lparr>tmp_period := None\<rparr>)) w2 = Some w'"
      using assms(1) by (auto simp: cc_actor_temperature_get_attributes_def and_put_def split: if_splits)
    then have "get_temperature a w' = Some (st2\<lparr>tmp_period := None\<rparr>)"
      by (auto simp: set_instance_def upd_actor_def get_temperature_def get_instance_def)
    with assms(2,3) show ?thesis by (auto simp: measured_def)
  qed
  moreover obtain f' where "read_to_port x (tmp_temperature st) p w = Some (True, set_queue p port f' w1)"
    using read_to_port_ok[OF assms(3)] by blast
  ultimately have "cc_actor_temperature_read_measurement x a w = None"
    using assms(3) timer_can_write[of w "tmp_timer st" ob t x] by (auto simp: measured_def cc_actor_temperature_read_measurement_def)
  then show ?thesis by (simp add: cc_actor_temperature_fire_def)
qed

section \<open>Examples\<close>

text \<open>A platform whose sensor always has the value true.\<close>

definition example_sensor :: cap_ops where
  "example_sensor = example_caps\<lparr>xo_can_read := Some (\<lambda>a w. Some (True, w)), xo_read := Some (\<lambda>a w. Some (CC_SUCCESS, Some (encoded_true, 1), w))\<rparr>"

definition sensor_ext :: ext where
  "sensor_ext = example_ext\<lparr>x_caps := \<lambda>name. example_sensor\<rparr>"

definition example_temperature :: "actor_instance \<Rightarrow> cc_calvinsys_timer \<Rightarrow> world" where
  "example_temperature s t = example_world\<lparr>
     h_ports := [10 \<mapsto> (example_out None None)\<lparr>p_fifo := Some (empty_fifo 2)\<rparr>],
     h_actors := [20 \<mapsto> (example_actor ''A'' [] [example_port_item ''o'' 10])\<lparr>a_instance := Some s\<rparr>],
     h_caps := [2 \<mapsto> example_cap],
     h_objs := [3 \<mapsto> (example_obj ''tm'' 0)\<lparr>o_state := OS_timer t\<rparr>, 4 \<mapsto> (example_obj ''te'' 0)\<lparr>o_impl := Some (Impl_ext ''s''), o_state := OS_null\<rparr>],
     n_objects := [example_port_item ''tm'' 3, example_port_item ''te'' 4]\<rparr>"

definition example_rest :: cc_calvinsys_timer where
  "example_rest = \<lparr>ct_timeout = 5, ct_armed = False, ct_next_time = 0, ct_repeats = False, ct_triggered = False\<rparr>"

definition example_thermometer :: cc_actor_temperature_state where
  "example_thermometer = \<lparr>tmp_temperature = ''te'', tmp_timer = ''tm'', tmp_period = Some (cc_coder_encode_uint mp_ref [] 5), tmp_period_size = 1\<rparr>"

lemmas sensor_defs = sensor_ext_def example_sensor_def example_temperature_def example_world_def example_actor_def example_port_item_def
  example_obj_def example_cap_def CC_UUID_BUFFER_SIZE_def

lemma example_te:
  "cc_calvinsys_can_read sensor_ext ''te'' (example_temperature s t) = Some (True, example_temperature s t)"
  "cc_calvinsys_read sensor_ext ''te'' (example_temperature s t) = Some (CC_SUCCESS, Some (encoded_true, 1), example_temperature s t)"
  "timer_obj (example_temperature s t) ''tm'' 3 t" "out_port 20 (example_temperature s t) = Some 10"
  "port_queue (example_temperature s t) 10 ((example_out None None)\<lparr>p_fifo := Some (empty_fifo 2)\<rparr>) (empty_fifo 2)"
  using empty_ok(1)
  by (simp_all add: cc_calvinsys_can_read_def cc_calvinsys_read_def obj_can_read_def obj_read_def timer_obj_def out_port_def port_queue_def
      sensor_defs) (simp add: fifo_abs_def empty_fifo_def)

lemma example_measured:
  assumes "tmp_temperature st = ''te''" "tmp_timer st = ''tm''"
  shows "measured sensor_ext (example_temperature (Inst_temperature st) example_rest) 20 st 3 example_rest 10
    ((example_out None None)\<lparr>p_fifo := Some (empty_fifo 2)\<rparr>) (empty_fifo 2) (Some (encoded_true, 1))
    (example_temperature (Inst_temperature st) example_rest)"
proof -
  have "get_temperature 20 (example_temperature (Inst_temperature st) t) = Some st" for t
    by (simp add: get_temperature_def get_instance_def example_temperature_def)
  moreover have "\<not> ct_triggered example_rest" "\<not> ct_armed example_rest" by (simp_all add: example_rest_def)
  ultimately show ?thesis using example_te[of "Inst_temperature st" example_rest] empty_ok assms by (simp add: measured_def)
qed

lemma sensor_mp: "x_mp sensor_ext = mp_ref" "msgpuck (x_mp sensor_ext)"
  using example_ext_mp by (simp_all add: sensor_ext_def)

lemma sensor_quiet: "obj_can_read sensor_ext impl ob w = Some (b, w') \<Longrightarrow> w' = w"
  by (cases impl) (auto simp: obj_can_read_def sensor_ext_def example_sensor_def)

end
