(* ===== verification/Actor_Migration.thy ===== *)
theory Actor_Migration
  imports Builtin_Io Builtin_Sensor
begin

text \<open>
  The state of the builtin actors through a migration: the attributes an actor reports, their encoding in
  \<open>cc_actor_serialize\<close>, the list that \<open>cc_actor_get_attributes\<close> makes of them on the receiving runtime, and the
  callback of the type that restores the state from that list. The locale \<open>restorable\<close> is the contract between
  an actor type and the runtime; the types of the last sections keep it.
\<close>

section \<open>Attributes through a message\<close>

text \<open>The attributes an actor reports, and the list the receiver makes of them.\<close>

definition reported :: "mp \<Rightarrow> (bytes \<times> mpv) list \<Rightarrow> bytes option cc_list" where
  "reported mp kvs = map (\<lambda>(k, v). \<lparr>li_id = k, li_id_len = length k, li_data = Some (enc mp v), li_data_len = length (enc mp v), li_free_id = True\<rparr>) kvs"

definition received :: "mp \<Rightarrow> (bytes \<times> mpv) list \<Rightarrow> bytes cc_list" where
  "received mp kvs = map (\<lambda>(k, v). \<lparr>li_id = k, li_id_len = length k, li_data = enc mp v, li_data_len = length (enc mp v), li_free_id = True\<rparr>) kvs"

text \<open>Keys that are plain: no private ones, and short enough for the list.\<close>

fun attr_key :: "bytes \<Rightarrow> bool" where
  "attr_key [] = False"
| "attr_key (c # k) = (c \<noteq> CHR ''_'' \<and> no_nul (c # k) \<and> length k < 49)"

definition attr_pairs :: "(bytes \<times> mpv) list \<Rightarrow> bool" where
  "attr_pairs kvs = (length kvs < 2 ^ 32 \<and> (\<forall>(k, v) \<in> set kvs. attr_key k \<and> wf_mpv v))"

lemma attr_keyD: "attr_key k \<Longrightarrow> no_nul k \<and> length k < 50 \<and> (\<exists>c s. k = c # s \<and> c \<noteq> CHR ''_'')"
  by (cases k) auto

lemma encode_reported:
  assumes "msgpuck mp" "attr_pairs kvs"
  shows "encode_managed mp (reported mp kvs) b = Some (b @ concat (map (\<lambda>(k, v). enc mp (MStr k) @ enc mp v) kvs))"
  using assms(2)
proof (induction kvs arbitrary: b)
  case (Cons kv kvs)
  obtain k v where kv: "kv = (k, v)" by (cases kv)
  have "no_nul k" "attr_pairs kvs" using Cons.prems kv by (auto simp: attr_pairs_def dest!: attr_keyD)
  then show ?case using Cons.IH kv by (simp add: reported_def cc_coder_encode_kv_value_def encode_key_def Let_def)
qed (simp add: reported_def)

lemma attrs_loop:
  assumes "msgpuck mp" "attr_pairs kvs" "e_alloc u = []"
  shows "get_attributes_loop mp b (length kvs) (concat (map (\<lambda>(k, v). enc mp (MStr k) @ enc mp v) kvs) @ rest) l False u
     = Some (CC_SUCCESS, l @ received mp kvs, u)"
  using assms(2)
proof (induction kvs arbitrary: l)
  case (Cons kv kvs)
  obtain k v where kv: "kv = (k, v)" by (cases kv)
  have k: "attr_key k" "wf_mpv v" "attr_pairs kvs" using Cons.prems kv by (auto simp: attr_pairs_def)
  obtain c s where cs: "k = c # s" "c \<noteq> CHR ''_''" using attr_keyD[OF k(1)] by auto
  have len: "length k < 2 ^ 32" "no_nul k" using attr_keyD[OF k(1)] by auto
  let ?r = "concat (map (\<lambda>(k, v). enc mp (MStr k) @ enc mp v) kvs) @ rest"
  have d: "cc_coder_decode_str mp (enc mp (MStr k) @ enc mp v @ ?r) = Some (Some (k @ enc mp v @ ?r, of_nat (length k)))"
    by (rule msgpuck.decode_str_enc[OF assms(1) len(1)])
  have n: "cc_coder_decode_map_next mp (enc mp (MStr k) @ enc mp v @ ?r) = Some (enc mp v @ ?r)"
      "cc_coder_decode_map_next mp (enc mp v @ ?r) = Some ?r"
    using msgpuck.next_enc[OF assms(1), of "MStr k"] msgpuck.next_enc[OF assms(1) k(2)] len(1)
    by (simp_all add: cc_coder_decode_map_next_def del: enc.simps)
  have z: "cc_coder_get_size_of_value mp (enc mp v @ ?r) = Some (length (enc mp v))"
    using msgpuck.next_enc[OF assms(1) k(2)] by (simp add: cc_coder_get_size_of_value_def)
  have no: "\<not> strncmp0 (k @ q) (CHR ''_'' # t) (Suc m)" for q t m using cs by simp
  have keys: "\<not> strncmp0 (k @ q) ''_shadow_args'' 12" "\<not> strncmp0 (k @ q) ''_id'' (strlen ''_id'')"
      "\<not> strncmp0 (k @ q) ''_name'' (strlen ''_name'')" for q
    using no[of q] cs by (simp_all add: numeral_eq_Suc)
  have "cstr (take (length k) (k @ q)) = k" for q using len(2) by simp
  then show ?case using Cons.IH[OF k(3)] d n z keys len assms(3) kv
    by (simp add: take_string_def cc_list_add_n_def cc__list_add_def Let_def received_def del: enc.simps bind_Some_iff)
qed (simp add: received_def)

lemma received_get:
  assumes "attr_pairs kvs" "attr_key key"
  shows "cc_list_get (received mp kvs) key = map_option (\<lambda>v. \<lparr>li_id = key, li_id_len = length key, li_data = enc mp v,
     li_data_len = length (enc mp v), li_free_id = True\<rparr>) (map_of kvs key)"
  using assms(1)
proof (induction kvs)
  case (Cons kv kvs)
  obtain k v where kv: "kv = (k, v)" by (cases kv)
  have k: "attr_key k" "attr_pairs kvs" using Cons.prems kv by (auto simp: attr_pairs_def)
  have "strnlen k CC_UUID_BUFFER_SIZE = length k" "strnlen key CC_UUID_BUFFER_SIZE = length key"
    using attr_keyD[OF k(1)] attr_keyD[OF assms(2)] by (auto simp: CC_UUID_BUFFER_SIZE_def)
  moreover have "length k = length key \<and> strncmp0 k key (length k) \<longleftrightarrow> k = key"
    using attr_keyD[OF k(1)] attr_keyD[OF assms(2)] by (auto simp: strncmp0_take)
  ultimately show ?case using Cons.IH[OF k(2)] kv by (auto simp: received_def)
qed (simp add: received_def)

section \<open>What is reported\<close>

lemma put_pointer_ok:
  assumes "attr_key key" "e_alloc w = []"
  shows "put_pointer key p n l w
     = Some (CC_SUCCESS, l @ [\<lparr>li_id = key, li_id_len = length key, li_data = p, li_data_len = n, li_free_id = True\<rparr>], w)"
  using assms attr_keyD[OF assms(1)] by (simp add: put_pointer_def cc_list_add_n_def cc__list_add_def Let_def)

lemma put_enc:
  assumes "attr_key key" "e_alloc w = []"
  shows "put_pointer key (Some (enc mp v)) (length (enc mp v)) (reported mp kvs) w = Some (CC_SUCCESS, reported mp (kvs @ [(key, v)]), w)"
  using put_pointer_ok[OF assms] by (simp add: reported_def)

text \<open>The head of a string takes at most five bytes.\<close>

locale msgpuck_sizes = msgpuck +
  assumes str_head: "unat (mp_sizeof_str mp n) \<le> 5"
begin

lemma put_str_ok:
  assumes "attr_key key" "e_alloc w = []" "no_nul s" "length s < CC_UUID_BUFFER_SIZE"
  shows "put_str mp key s (reported mp kvs) w = Some (CC_SUCCESS, reported mp (kvs @ [(key, MStr s)]), w)"
proof -
  have n: "unat (of_nat (length s) :: u32) = length s" using assms(4) by (simp add: CC_UUID_BUFFER_SIZE_def)
  have "length (mp_encode_str mp s (of_nat (length s))) = unat (mp_sizeof_str mp (of_nat (length s))) + length s"
    using sizeof_str[of "of_nat (length s)" s] n by simp
  moreover have "unat (cc_coder_sizeof_str mp (of_nat (length s))) = unat (mp_sizeof_str mp (of_nat (length s))) + length s"
    using str_head[of "of_nat (length s)"] n assms(4)
    by (simp add: cc_coder_sizeof_str_def unat_word_ariths CC_UUID_BUFFER_SIZE_def)
  ultimately show ?thesis using put_enc[OF assms(1,2), of mp "MStr s" kvs] assms(2,3)
    by (simp add: put_str_def put_value_def cc_coder_encode_str_def Let_def)
qed

lemma put_uint_ok:
  "attr_key key \<Longrightarrow> e_alloc w = [] \<Longrightarrow> put_uint mp key v (reported mp kvs) w = Some (CC_SUCCESS, reported mp (kvs @ [(key, MUint (ucast v))]), w)"
  using put_enc[of key w mp "MUint (ucast v)" kvs] sizeof_uint[of "ucast v"]
  by (simp add: put_uint_def put_value_def cc_coder_encode_uint_def cc_coder_sizeof_uint_def Let_def)

lemma put_bool_ok:
  "attr_key key \<Longrightarrow> e_alloc w = [] \<Longrightarrow> put_bool mp key v (reported mp kvs) w = Some (CC_SUCCESS, reported mp (kvs @ [(key, MBool v)]), w)"
  using put_enc[of key w mp "MBool v" kvs] sizeof_bool[of v]
  by (simp add: put_bool_def put_value_def cc_coder_encode_bool_def cc_coder_sizeof_bool_def Let_def)

lemma put_nil_ok:
  "attr_key key \<Longrightarrow> e_alloc w = [] \<Longrightarrow> put_nil mp key (reported mp kvs) w = Some (CC_SUCCESS, reported mp (kvs @ [(key, MNil)]), w)"
  using put_enc[of key w mp MNil kvs] sizeof_nil
  by (simp add: put_nil_def put_value_def cc_coder_encode_nil_def cc_coder_sizeof_nil_def Let_def)

lemma attr_ref_ok:
  assumes "attr_pairs kvs" "attr_key key" "map_of kvs key = Some (MStr s)" "no_nul s" "length s < CC_UUID_BUFFER_SIZE"
  shows "attr_ref mp (received mp kvs) key = Some (Some s)"
  using assms decode_str_enc[of s "[]"]
  by (simp add: attr_ref_def received_get decode_ref_def CC_UUID_BUFFER_SIZE_def strncpy_term_def del: enc.simps)

lemma attr_uint_ok:
  "cc_coder_decode_uint mp (enc mp (MUint (ucast (v :: u32)))) = Some (Some v)"
  using type_at_enc[of "MUint (ucast v)" "[]"] uint_enc[of "ucast v" "[]"] by (simp add: cc_coder_decode_uint_def)

lemma attr_bool_ok: "cc_coder_decode_bool mp (enc mp (MBool b)) = Some (Some b)"
  using type_at_enc[of "MBool b" "[]"] bool_enc[of b "[]"] by (simp add: cc_coder_decode_bool_def)

end

interpretation ref_sizes: msgpuck_sizes mp_ref
proof (unfold_locales)
  show "unat (mp_sizeof_str mp_ref n) \<le> 5" for n
    using enc_num_size(1)[of "0xa0" 32 "unat n"] by (simp add: mp_ref_def unat_ref_size)
qed

section \<open>Actors that can be restored\<close>

text \<open>
  The contract between an actor type and the runtime that moves its actors: the type reports its state as pairs of
  plain keys and encoded values, and the same pairs, read on another runtime, give the state again. \<open>good\<close> is what holds
  of the states of the type, \<open>ready\<close> what the receiving runtime has to have.
\<close>

definition survives :: "mp \<Rightarrow> (addr \<Rightarrow> world \<Rightarrow> (cc_result \<times> bytes option cc_list \<times> world) option) \<Rightarrow>
    (addr \<Rightarrow> bytes cc_list \<Rightarrow> world \<Rightarrow> (cc_result \<times> world) option) \<Rightarrow> (world \<Rightarrow> bool) \<Rightarrow> actor_instance \<Rightarrow> actor_instance \<Rightarrow> bool" where
  "survives mp get put ready s s' = (\<forall>w a y. h_actors w a = Some y \<and> a_instance y = Some s \<and> e_alloc w = [] \<longrightarrow>
     (\<exists>l w' buffer. get a w = Some (CC_SUCCESS, l, w') \<and> encode_managed mp l (cc_coder_encode_map mp [] (cc_list_count l)) = Some buffer
       \<and> (\<forall>u b z rest. h_actors u b = Some z \<and> e_alloc u = [] \<and> ready u \<longrightarrow>
            (\<exists>attrs u'. cc_actor_get_attributes mp b (buffer @ rest) [] False u = Some (CC_SUCCESS, attrs, u)
              \<and> put b attrs u = Some (CC_SUCCESS, u') \<and> get_instance b u' = Some s'))))"

locale restorable = msgpuck mp for mp +
  fixes get :: "addr \<Rightarrow> world \<Rightarrow> (cc_result \<times> bytes option cc_list \<times> world) option"
    and put :: "addr \<Rightarrow> bytes cc_list \<Rightarrow> world \<Rightarrow> (cc_result \<times> world) option"
    and inst :: "'s \<Rightarrow> actor_instance" and good :: "'s \<Rightarrow> bool" and ready :: "'s \<Rightarrow> world \<Rightarrow> bool"
    and pairs :: "'s \<Rightarrow> (bytes \<times> mpv) list" and again :: "'s \<Rightarrow> 's"
  assumes plain: "good s \<Longrightarrow> attr_pairs (pairs s)"
    and report: "good s \<Longrightarrow> h_actors w a = Some y \<Longrightarrow> a_instance y = Some (inst s) \<Longrightarrow> e_alloc w = [] \<Longrightarrow>
      \<exists>w'. get a w = Some (CC_SUCCESS, reported mp (pairs s), w')"
    and restore: "good s \<Longrightarrow> h_actors u b = Some z \<Longrightarrow> e_alloc u = [] \<Longrightarrow> ready s u \<Longrightarrow>
      \<exists>u'. put b (received mp (pairs s)) u = Some (CC_SUCCESS, u') \<and> get_instance b u' = Some (inst (again s))"
begin

lemma read_reported:
  assumes "good s" "e_alloc u = []"
  shows "cc_actor_get_attributes mp b (cc_coder_encode_map mp [] (of_nat (length (pairs s)))
       @ concat (map (\<lambda>(k, v). enc mp (MStr k) @ enc mp v) (pairs s)) @ rest) [] False u = Some (CC_SUCCESS, received mp (pairs s), u)"
proof -
  have "length (pairs s) < 2 ^ 32" using plain[OF assms(1)] by (simp add: attr_pairs_def)
  then show ?thesis using attrs_loop[OF msgpuck_axioms plain[OF assms(1)] assms(2), of b rest "[]"]
    by (simp add: cc_actor_get_attributes_def cc_coder_encode_map_def cc_coder_decode_map_def map_enc del: enc.simps)
qed

lemma state_survives: "good s \<Longrightarrow> survives mp get put (ready s) (inst s) (inst (again s))"
  unfolding survives_def
proof (intro allI impI, elim conjE)
  fix w :: world and a y assume s: "good s" and w: "h_actors w a = Some y" "a_instance y = Some (inst s)" "e_alloc w = []"
  obtain w' where r: "get a w = Some (CC_SUCCESS, reported mp (pairs s), w')" using report[OF s w] by blast
  let ?l = "reported mp (pairs s)" and ?b = "cc_coder_encode_map mp [] (of_nat (length (pairs s))) @ concat (map (\<lambda>(k, v). enc mp (MStr k) @ enc mp v) (pairs s))"
  have c: "cc_list_count ?l = of_nat (length (pairs s))" by (simp add: list_count_length reported_def)
  have "encode_managed mp ?l (cc_coder_encode_map mp [] (cc_list_count ?l)) = Some ?b"
    using encode_reported[OF msgpuck_axioms plain[OF s]] c by simp
  moreover have "\<exists>attrs u'. cc_actor_get_attributes mp b (?b @ rest) [] False u = Some (CC_SUCCESS, attrs, u)
      \<and> put b attrs u = Some (CC_SUCCESS, u') \<and> get_instance b u' = Some (inst (again s))"
    if "h_actors u b = Some z" "e_alloc u = []" "ready s u" for u b z rest
    using restore[OF s that] read_reported[OF s that(2), of b rest] by auto
  ultimately show "\<exists>l w' buffer. get a w = Some (CC_SUCCESS, l, w') \<and> encode_managed mp l (cc_coder_encode_map mp [] (cc_list_count l)) = Some buffer
       \<and> (\<forall>u b z rest. h_actors u b = Some z \<and> e_alloc u = [] \<and> ready s u \<longrightarrow>
            (\<exists>attrs u'. cc_actor_get_attributes mp b (buffer @ rest) [] False u = Some (CC_SUCCESS, attrs, u)
              \<and> put b attrs u = Some (CC_SUCCESS, u') \<and> get_instance b u' = Some (inst (again s))))"
    using r by (intro exI[of _ ?l] exI[of _ w'] exI[of _ ?b]) blast
qed

end

section \<open>The builtin types keep the contract\<close>

definition ref_ok :: "bytes \<Rightarrow> bool" where
  "ref_ok s = (no_nul s \<and> length s < CC_UUID_BUFFER_SIZE)"

lemmas report_defs = and_put_def get_instance_def set_instance_def upd_actor_def

lemma set_get_instance: "h_actors w a = Some y \<Longrightarrow> \<exists>w'. set_instance a s w = Some w' \<and> get_instance a w' = Some s
    \<and> h_actors w' a = Some (y\<lparr>a_instance := Some s\<rparr>) \<and> e_alloc w' = e_alloc w \<and> n_objects w' = n_objects w"
  by (simp add: report_defs)

lemma copy_enc [simp]: "copy_value \<lparr>li_id = k, li_id_len = n, li_data = enc mp v, li_data_len = length (enc mp v), li_free_id = b\<rparr> = Some (enc mp v)"
  by (simp add: copy_value_def)

context msgpuck_sizes
begin

lemma reported_Nil: "reported mp [] = []"
  by (simp add: reported_def)

lemmas first_str = put_str_ok[of _ _ _ "[]", unfolded reported_Nil append_Nil]
lemmas first_bool = put_bool_ok[of _ _ _ "[]", unfolded reported_Nil append_Nil]
lemmas first_pointer = put_enc[of _ _ mp _ "[]", unfolded reported_Nil append_Nil]

lemma identity_restorable:
  assumes "x_mp x = mp"
  shows "restorable mp (cc_actor_identity_get_attributes x) (cc_actor_identity_set_state x) Inst_identity (\<lambda>s. True) (\<lambda>s w. True)
     (\<lambda>s. [(''dump'', MBool (idn_dump s)), (''last'', MNil)]) (\<lambda>s. s)"
proof (unfold_locales, goal_cases)
  case (1 s)
  then show ?case by (simp add: attr_pairs_def)
next
  case (2 s w a y)
  then show ?case using first_bool[of "''dump''" w] put_nil_ok[of "''last''" w "[(''dump'', MBool (idn_dump s))]"] assms
    by (simp add: cc_actor_identity_get_attributes_def and_put_def)
next
  case (3 s u b z)
  have "attr_pairs [(''dump'', MBool (idn_dump s)), (''last'', MNil)]" by (simp add: attr_pairs_def)
  from received_get[OF this, of "''dump''" mp] set_get_instance[OF 3(2), of "Inst_identity s"] 3 assms
  show ?case by (cases s) (auto simp: cc_actor_identity_set_state_def cc_actor_identity_init_def attr_bool_def attr_bool_ok simp del: enc.simps)
qed

lemma replica_identity_restorable:
  assumes "x_mp x = mp"
  shows "restorable mp (cc_actor_replica_identity_get_attributes x) (cc_actor_replica_identity_set_state x) Inst_replica_identity (\<lambda>s. True) (\<lambda>s w. True)
     (\<lambda>s. [(''dump'', MBool (rid_dump s)), (''index'', MUint (ucast (rid_index s)))]) (\<lambda>s. s)"
proof (unfold_locales, goal_cases)
  case (1 s)
  then show ?case by (simp add: attr_pairs_def)
next
  case (2 s w a y)
  then show ?case using first_bool[of "''dump''" w] put_uint_ok[of "''index''" w "rid_index s" "[(''dump'', MBool (rid_dump s))]"] assms
    by (simp add: cc_actor_replica_identity_get_attributes_def and_put_def)
next
  case (3 s u b z)
  have p: "attr_pairs [(''dump'', MBool (rid_dump s)), (''index'', MUint (ucast (rid_index s)))]" by (simp add: attr_pairs_def)
  from received_get[OF p, of "''dump''" mp] received_get[OF p, of "''index''" mp] set_get_instance[OF 3(2), of "Inst_replica_identity s"] 3 assms
  show ?case
    by (cases s) (auto simp: cc_actor_replica_identity_set_state_def cc_actor_replica_identity_init_def or_default_def attr_bool_ok attr_uint_ok simp del: enc.simps)
qed

lemma light_restorable:
  assumes "x_mp x = mp"
  shows "restorable mp (cc_actor_light_get_attributes x) (cc_actor_light_set_state x) Inst_light (\<lambda>s. ref_ok (lgt_light s)) (\<lambda>s w. True)
     (\<lambda>s. [(''light'', MStr (lgt_light s))]) (\<lambda>s. s)"
proof (unfold_locales, goal_cases)
  case (1 s)
  then show ?case by (simp add: attr_pairs_def ref_ok_def CC_UUID_BUFFER_SIZE_def)
next
  case (2 s w a y)
  then show ?case using first_str[of "''light''" w "lgt_light s"] assms
    by (simp add: cc_actor_light_get_attributes_def get_light_def get_instance_def ref_ok_def)
next
  case (3 s u b z)
  have p: "attr_pairs [(''light'', MStr (lgt_light s))]" using 3(1) by (simp add: attr_pairs_def ref_ok_def CC_UUID_BUFFER_SIZE_def)
  have d: "decode_ref mp (enc mp (MStr (lgt_light s))) = Some (Some (lgt_light s))"
    using attr_ref_ok[OF p, of "''light''" "lgt_light s"] 3(1) received_get[OF p, of "''light''" mp]
    by (simp add: attr_ref_def ref_ok_def del: enc.simps)
  obtain u1 where u1: "set_instance b (Inst_light \<lparr>lgt_light = []\<rparr>) u = Some u1" "h_actors u1 b = Some (z\<lparr>a_instance := Some (Inst_light \<lparr>lgt_light = []\<rparr>)\<rparr>)"
    using set_get_instance[OF 3(2)] by blast
  from received_get[OF p, of "''light''" mp] set_get_instance[OF u1(2), of "Inst_light s"] u1(1) 3 assms d
  show ?case by (cases s) (auto simp: cc_actor_light_set_state_def simp del: enc.simps)
qed

end

text \<open>The thermometer keeps a period as it was received: the state is given by the two identifiers and that value.\<close>

definition temperature_state :: "mp \<Rightarrow> bytes \<times> bytes \<times> mpv \<Rightarrow> cc_actor_temperature_state" where
  "temperature_state mp s = (case s of (temperature, timer, period) \<Rightarrow>
     \<lparr>tmp_temperature = temperature, tmp_timer = timer, tmp_period = Some (enc mp period), tmp_period_size = length (enc mp period)\<rparr>)"

context msgpuck_sizes
begin

lemma counttimer_restorable:
  assumes x: "x_mp x = mp"
  shows "restorable mp (cc_actor_counttimer_get_attributes x) (cc_actor_counttimer_set_state x) Inst_counttimer (\<lambda>s. ref_ok (cnt_timer s)) (\<lambda>s w. True)
     (\<lambda>s. [(''timer'', MStr (cnt_timer s)), (''sleep'', MUint (ucast (cnt_sleep s))), (''start'', MUint (ucast (cnt_start s))),
        (''steps'', MUint (ucast (cnt_steps s))), (''count'', MUint (ucast (cnt_count s)))]) (\<lambda>s. s\<lparr>cnt_stopped := False\<rparr>)"
proof (unfold_locales, goal_cases)
  case (1 s)
  then show ?case by (simp add: attr_pairs_def ref_ok_def CC_UUID_BUFFER_SIZE_def)
next
  case (2 s w a y)
  then have "get_counttimer a w = Some s" by (simp add: get_counttimer_def get_instance_def)
  with 2 x first_str[of "''timer''" w "cnt_timer s"] show ?case
    by (simp add: cc_actor_counttimer_get_attributes_def and_put_def ref_ok_def put_uint_ok)
next
  case (3 s u b z)
  let ?kvs = "[(''timer'', MStr (cnt_timer s)), (''sleep'', MUint (ucast (cnt_sleep s))), (''start'', MUint (ucast (cnt_start s))),
        (''steps'', MUint (ucast (cnt_steps s))), (''count'', MUint (ucast (cnt_count s)))]"
  have p: "attr_pairs ?kvs" using 3(1) by (simp add: attr_pairs_def ref_ok_def CC_UUID_BUFFER_SIZE_def)
  have t: "attr_ref mp (received mp ?kvs) ''timer'' = Some (Some (cnt_timer s))" using attr_ref_ok[OF p, of "''timer''" "cnt_timer s"] 3(1) by (simp add: ref_ok_def)
  show ?case using received_get[OF p, where mp = mp] t 3(2,3) x
    by (cases s) (simp add: cc_actor_counttimer_set_state_def take_uint_def attr_uint_ok zero_counttimer_def report_defs del: enc.simps)
qed

lemma temperature_restorable:
  assumes x: "x_mp x = mp"
  shows "restorable mp (cc_actor_temperature_get_attributes x) (cc_actor_temperature_set_state x) (\<lambda>s. Inst_temperature (temperature_state mp s))
     (\<lambda>(temperature, timer, period). ref_ok temperature \<and> ref_ok timer \<and> wf_mpv period) (\<lambda>s w. True)
     (\<lambda>(temperature, timer, period). [(''timer'', MStr timer), (''temperature'', MStr temperature), (''period'', period)]) (\<lambda>s. s)"
proof (unfold_locales, goal_cases)
  case (1 s)
  then show ?case by (cases s) (simp add: attr_pairs_def ref_ok_def CC_UUID_BUFFER_SIZE_def)
next
  case (2 s w a y)
  obtain m t v where s: "s = (m, t, v)" by (cases s)
  have "get_temperature a w = Some (temperature_state mp s)" using 2 by (simp add: get_temperature_def get_instance_def)
  with 2 x s first_str[of "''timer''" w t] put_str_ok[of "''temperature''" w m "[(''timer'', MStr t)]"]
    put_enc[of "''period''" w mp v "[(''timer'', MStr t), (''temperature'', MStr m)]"] show ?case
    by (simp add: cc_actor_temperature_get_attributes_def and_put_def ref_ok_def temperature_state_def set_instance_def upd_actor_def)
next
  case (3 s u b z)
  obtain m t v where s: "s = (m, t, v)" by (cases s)
  let ?kvs = "[(''timer'', MStr t), (''temperature'', MStr m), (''period'', v)]"
  have g: "ref_ok m" "ref_ok t" "wf_mpv v" using 3(1) s by auto
  have p: "attr_pairs ?kvs" using g by (simp add: attr_pairs_def ref_ok_def CC_UUID_BUFFER_SIZE_def)
  have "attr_ref mp (received mp ?kvs) ''timer'' = Some (Some t)" "attr_ref mp (received mp ?kvs) ''temperature'' = Some (Some m)"
    using attr_ref_ok[OF p, of "''timer''" t] attr_ref_ok[OF p, of "''temperature''" m] g by (simp_all add: ref_ok_def)
  then show ?case using received_get[OF p, of "''period''" mp] 3(2,3) x s
    by (simp add: cc_actor_temperature_set_state_def temperature_state_def zero_temperature_def report_defs del: enc.simps)
qed

lemma triggered_restorable:
  assumes "x_mp x = mp"
  shows "restorable mp (cc_actor_triggered_temperature_get_attributes x) (cc_actor_triggered_temperature_set_state x) Inst_triggered_temperature
     (\<lambda>s. ref_ok (trg_temperature s)) (\<lambda>s w. True) (\<lambda>s. [(''temperature'', MStr (trg_temperature s))]) (\<lambda>s. s)"
proof (unfold_locales, goal_cases)
  case (1 s)
  then show ?case by (simp add: attr_pairs_def ref_ok_def CC_UUID_BUFFER_SIZE_def)
next
  case (2 s w a y)
  then show ?case using first_str[of "''temperature''" w "trg_temperature s"] assms
    by (simp add: cc_actor_triggered_temperature_get_attributes_def get_triggered_def get_instance_def ref_ok_def)
next
  case (3 s u b z)
  have p: "attr_pairs [(''temperature'', MStr (trg_temperature s))]" using 3(1) by (simp add: attr_pairs_def ref_ok_def CC_UUID_BUFFER_SIZE_def)
  show ?case using attr_ref_ok[OF p, of "''temperature''" "trg_temperature s"] 3 assms
    by (cases s) (simp add: cc_actor_triggered_temperature_set_state_def ref_ok_def report_defs)
qed

end

text \<open>The reference encoding and the platform of the examples give instances of the contract.\<close>

interpretation ref_counttimer: restorable mp_ref "cc_actor_counttimer_get_attributes example_ext" "cc_actor_counttimer_set_state example_ext"
  Inst_counttimer "\<lambda>s. ref_ok (cnt_timer s)" "\<lambda>s w. True"
  "\<lambda>s. [(''timer'', MStr (cnt_timer s)), (''sleep'', MUint (ucast (cnt_sleep s))), (''start'', MUint (ucast (cnt_start s))),
     (''steps'', MUint (ucast (cnt_steps s))), (''count'', MUint (ucast (cnt_count s)))]" "\<lambda>s. s\<lparr>cnt_stopped := False\<rparr>"
  by (rule ref_sizes.counttimer_restorable) (simp add: example_ext_def)


definition example_light :: cc_actor_light_state where
  "example_light = \<lparr>lgt_light = ''0123''\<rparr>"


end
