(* ===== verification/Platform_Files.thy ===== *)
theory Platform_Files
  imports Proto_Send
begin

text \<open>
  The files of the platforms. What the runtime uses of them is the record \<open>cc_platform\<close>. The functions of
  \<open>src/runtime/south/platform/x86/cc_platform_x86.c\<close> are over the file system of the world; Android and the spritzer board have the
  same ones. The sizes of files are those of their contents, and \<open>malloc\<close> is the allocation of the environment.
\<close>

section \<open>The platform\<close>

datatype cc_stat = CC_STAT_NO_EXIST | CC_STAT_DIR | CC_STAT_FILE

record cc_platform =
  pl_file_stat :: "bytes \<Rightarrow> world \<Rightarrow> cc_stat"
  pl_file_read :: "bytes \<Rightarrow> world \<Rightarrow> bytes option \<times> world"
  pl_file_write :: "bytes \<Rightarrow> bytes \<Rightarrow> world \<Rightarrow> cc_result \<times> world"

definition CC_STATE_FILE :: bytes where
  "CC_STATE_FILE = ''calvin.msgpack''"

definition x86_file_stat :: "bytes \<Rightarrow> world \<Rightarrow> cc_stat" where
  "x86_file_stat path w = (case entry_at (w_fs w) path of
     None \<Rightarrow> CC_STAT_NO_EXIST | Some Dir \<Rightarrow> CC_STAT_DIR | Some (File _) \<Rightarrow> CC_STAT_FILE)"

definition x86_file_read :: "os \<Rightarrow> bytes \<Rightarrow> world \<Rightarrow> bytes option \<times> world" where
  "x86_file_read os path w = (case os_content os path (w_fs w) of
     None \<Rightarrow> (None, w)
   | Some content \<Rightarrow> (case mem_alloc w of (False, w) \<Rightarrow> (None, w) | (True, w) \<Rightarrow> (Some content, w)))"

text \<open>The loop at position \<open>i\<close>: \<open>done\<close> are the characters before it, at least one, and the others those from it on.\<close>

fun create_dirs_loop :: "os \<Rightarrow> bytes \<Rightarrow> bytes \<Rightarrow> world \<Rightarrow> cc_result \<times> world" where
  "create_dirs_loop os done [] w = (CC_SUCCESS, w)"
| "create_dirs_loop os done (c # path) w =
     (if c = CHR ''/'' then
        (case mem_alloc w of
           (False, w) \<Rightarrow> (CC_FAIL, w)
         | (True, w) \<Rightarrow>
             if x86_file_stat done w = CC_STAT_NO_EXIST then
               (case os_mkdir_call os done (w_fs w) of
                  None \<Rightarrow> (CC_FAIL, w)
                | Some fs \<Rightarrow> create_dirs_loop os (done @ [c]) path (w\<lparr>w_fs := fs\<rparr>))
             else create_dirs_loop os (done @ [c]) path w)
      else create_dirs_loop os (done @ [c]) path w)"

definition cc_platform_create_dirs :: "os \<Rightarrow> bytes \<Rightarrow> world \<Rightarrow> cc_result \<times> world" where
  "cc_platform_create_dirs os path w = create_dirs_loop os (take 1 path) (drop 1 path) w"

definition x86_file_write :: "os \<Rightarrow> bytes \<Rightarrow> bytes \<Rightarrow> world \<Rightarrow> cc_result \<times> world" where
  "x86_file_write os path content w = (case cc_platform_create_dirs os path w of
     (CC_SUCCESS, w) \<Rightarrow>
       (case os_create os path (w_fs w) of
          None \<Rightarrow> (CC_FAIL, w)
        | Some (l, fs) \<Rightarrow>
            (case os_fwrite os l content fs of (len, fs) \<Rightarrow>
               (if len \<noteq> length content then CC_FAIL else CC_SUCCESS, w\<lparr>w_fs := fs\<rparr>)))
   | (_, w) \<Rightarrow> (CC_FAIL, w))"

definition x86_file_del :: "os \<Rightarrow> bytes \<Rightarrow> world \<Rightarrow> cc_result \<times> world" where
  "x86_file_del os path w = (case os_unlink os path (w_fs w) of None \<Rightarrow> (CC_FAIL, w) | Some fs \<Rightarrow> (CC_SUCCESS, w\<lparr>w_fs := fs\<rparr>))"

definition x86_platform :: "os \<Rightarrow> cc_platform" where
  "x86_platform os = \<lparr>pl_file_stat = x86_file_stat, pl_file_read = x86_file_read os, pl_file_write = x86_file_write os\<rparr>"

section \<open>What making directories changes\<close>

text \<open>
  \<open>dirs_made fs fs'\<close>: where there was something it is still there, and what is new is a directory.
\<close>

definition dirs_made :: "fs \<Rightarrow> fs \<Rightarrow> bool" where
  "dirs_made fs fs' = (fs_cwd fs' = fs_cwd fs \<and> (\<forall>l. fs_entries fs' l = fs_entries fs l \<or> fs_entries fs l = None \<and> fs_entries fs' l = Some Dir))"

lemma dirs_made_refl [simp]: "dirs_made fs fs"
  by (simp add: dirs_made_def)

lemma dirs_made_trans: "dirs_made fs1 fs2 \<Longrightarrow> dirs_made fs2 fs3 \<Longrightarrow> dirs_made fs1 fs3"
  unfolding dirs_made_def by metis

lemma dirs_made_grows: "dirs_made fs fs' \<Longrightarrow> grows (fs_entries fs) (fs_entries fs')"
  unfolding dirs_made_def grows_def by (metis option.distinct(1))

lemma dirs_made_file: "dirs_made fs fs' \<Longrightarrow> fs_entries fs l = Some (File b) \<Longrightarrow> fs_entries fs' l = Some (File b)"
  unfolding dirs_made_def by (metis option.distinct(1))

lemma mkdir_dirs_made: "os_mkdir_call os path fs = Some fs' \<Longrightarrow> dirs_made fs fs'"
  by (auto simp: os_mkdir_call_def dirs_made_def split: if_splits)

lemma mem_alloc_fs: "mem_alloc w = (b, w') \<Longrightarrow> w_fs w' = w_fs w"
  by (auto simp: mem_alloc_def split: list.splits)

lemma create_dirs_loop_made: "create_dirs_loop os done path w = (r, w') \<Longrightarrow> dirs_made (w_fs w) (w_fs w')"
proof (induction os "done" path w rule: create_dirs_loop.induct)
  case (2 os "done" c path w)
  obtain b w1 where a: "mem_alloc w = (b, w1)" by (cases "mem_alloc w")
  note fs = mem_alloc_fs[OF a]
  consider (name) "c \<noteq> CHR ''/''" | (no_memory) "c = CHR ''/''" "\<not> b"
    | (there) "c = CHR ''/''" b "x86_file_stat done w1 \<noteq> CC_STAT_NO_EXIST" | (new) "c = CHR ''/''" b "x86_file_stat done w1 = CC_STAT_NO_EXIST"
    by blast
  then show ?case
  proof cases
    case new
    show ?thesis
    proof (cases "os_mkdir_call os done (w_fs w1)")
      case (Some fs1)
      then have "dirs_made (w_fs w1) fs1" by (rule mkdir_dirs_made)
      moreover have "dirs_made fs1 (w_fs w')" using 2(1,4) new a Some by simp
      ultimately show ?thesis using fs dirs_made_trans by metis
    qed (use 2(4) new a fs in auto)
  qed (use 2 a fs in auto)
qed simp

lemmas create_dirs_made = create_dirs_loop_made[of _ "take 1 path" "drop 1 path" for path, folded cc_platform_create_dirs_def]

section \<open>Writing and reading\<close>

lemma locate_write:
  assumes "locate fs path = Some l" "fs_entries fs l \<noteq> Some Dir"
  shows "locate (fs\<lparr>fs_entries := (fs_entries fs)(l \<mapsto> File b)\<rparr>) path = Some l"
  by (rule locate_grows[OF _ _ assms(1)]) (use assms(2) in \<open>auto simp: grows_def\<close>)

text \<open>What a write that gets as far as the file does: \<open>l\<close> is the place of the file and \<open>n\<close> the number of bytes there is room for.\<close>

lemma file_write_effect:
  assumes "cc_platform_create_dirs os path w = (CC_SUCCESS, w1)" "os_create os path (w_fs w1) = Some (l, fs)"
  shows "x86_file_write os path content w = (if length content \<le> os_room os l then CC_SUCCESS else CC_FAIL,
      w1\<lparr>w_fs := (w_fs w1)\<lparr>fs_entries := (fs_entries (w_fs w1))(l \<mapsto> File (take (os_room os l) content))\<rparr>\<rparr>)"
  using assms by (auto simp: x86_file_write_def os_create_def os_fwrite_def Let_def min_def split: if_splits)

lemma file_write_cases:
  assumes "x86_file_write os path content w = (r, w')"
  obtains (no_dirs) "r = CC_FAIL" "dirs_made (w_fs w) (w_fs w')"
  | (written) w1 l where "cc_platform_create_dirs os path w = (CC_SUCCESS, w1)" "dirs_made (w_fs w) (w_fs w1)" "locate (w_fs w1) path = Some l"
      "fs_entries (w_fs w1) l \<noteq> Some Dir" "os_open os l" "r = (if length content \<le> os_room os l then CC_SUCCESS else CC_FAIL)"
      "w' = w1\<lparr>w_fs := (w_fs w1)\<lparr>fs_entries := (fs_entries (w_fs w1))(l \<mapsto> File (take (os_room os l) content))\<rparr>\<rparr>"
proof -
  obtain r1 w1 where d: "cc_platform_create_dirs os path w = (r1, w1)" by (cases "cc_platform_create_dirs os path w")
  note made = create_dirs_made[OF d]
  show ?thesis
  proof (cases "r1 = CC_SUCCESS")
    case True
    show ?thesis
    proof (cases "os_create os path (w_fs w1)")
      case None
      then show ?thesis using assms d True made no_dirs by (auto simp: x86_file_write_def)
    next
      case (Some lf)
      obtain l fs where lf: "lf = (l, fs)" by (cases lf)
      have "locate (w_fs w1) path = Some l" "fs_entries (w_fs w1) l \<noteq> Some Dir" "os_open os l"
        using Some lf by (auto simp: os_create_def split: if_splits)
      with file_write_effect[OF d[unfolded True] Some[unfolded lf], of content] assms d made True written show ?thesis by auto
    qed
  next
    case False
    then have "x86_file_write os path content w = (CC_FAIL, w1)" using d by (cases r1) (auto simp: x86_file_write_def)
    then show ?thesis using assms made no_dirs by simp
  qed
qed

lemma content_iff: "os_content os path fs = Some b \<longleftrightarrow> (\<exists>l. locate fs path = Some l \<and> fs_entries fs l = Some (File b) \<and> os_open os l)"
proof (cases "locate fs path")
  case (Some l)
  then show ?thesis by (cases "fs_entries fs l"; cases "the (fs_entries fs l)") (auto simp: os_content_def)
qed (simp add: os_content_def)

lemma content_stat: "os_content os path (w_fs w) = Some b \<Longrightarrow> x86_file_stat path w = CC_STAT_FILE"
  by (auto simp: content_iff x86_file_stat_def entry_at_def)

lemma write_content:
  assumes "x86_file_write os path content w = (CC_SUCCESS, w')"
  shows "os_content os path (w_fs w') = Some content"
  using assms
proof (cases rule: file_write_cases)
  case (written w1 l)
  then have "take (os_room os l) content = content" by (simp split: if_splits)
  then show ?thesis using locate_write[OF written(3,4), of content] written(5,7) by (simp add: content_iff)
qed simp


text \<open>A path of plain names, from the root or from the working directory.\<close>

fun path_of :: "bytes list \<Rightarrow> bytes" where
  "path_of [] = []"
| "path_of [n] = n"
| "path_of (n # ns) = n @ CHR ''/'' # path_of ns"

definition dirs_path :: "bool \<Rightarrow> bytes list \<Rightarrow> bytes" where
  "dirs_path rooted ns = (if rooted then ''/'' else []) @ concat (map (\<lambda>n. n @ ''/'') ns)"

definition start_of :: "bool \<Rightarrow> fs \<Rightarrow> location" where
  "start_of rooted fs = (if rooted then [] else fs_cwd fs)"

lemma path_names_dirs: "list_all plain_name ns \<Longrightarrow> plain_name n \<Longrightarrow> path_names (dirs_path rooted ns @ n) = (if rooted then [[]] else []) @ ns @ [n]"
proof -
  have "list_all plain_name ns \<Longrightarrow> path_names (concat (map (\<lambda>n. n @ ''/'') ns) @ n) = ns @ [n]" if "plain_name n" for ns
    by (induction ns) (use that in \<open>simp_all add: plain_name_def path_names_plain path_names_slash\<close>)
  then show "list_all plain_name ns \<Longrightarrow> plain_name n \<Longrightarrow> path_names (dirs_path rooted ns @ n) = (if rooted then [[]] else []) @ ns @ [n]"
    by (simp add: dirs_path_def)
qed

lemma absolute_dirs: "list_all plain_name ns \<Longrightarrow> plain_name n \<Longrightarrow> absolute (dirs_path rooted ns @ n) = rooted"
  by (cases ns; cases "hd (ns @ [n])") (auto simp: absolute_def dirs_path_def plain_name_def hd_append)

lemma locate_dirs:
  assumes "list_all plain_name ns" "plain_name n" "\<And>k. k \<le> length ns \<Longrightarrow> fs_entries fs (start_of rooted fs @ take k ns) = Some Dir"
  shows "locate fs (dirs_path rooted ns @ n) = Some (start_of rooted fs @ ns @ [n])"
proof -
  have "walk (fs_entries fs) (start_of rooted fs) (ns @ [n]) = Some (start_of rooted fs @ ns @ [n])"
    using assms by (intro walk_plain) (simp_all add: take_Cons')
  moreover have "dirs_path rooted ns @ n \<noteq> []" using assms(2) by (simp add: plain_name_def)
  moreover have "fs_entries fs (start_of rooted fs) = Some Dir" using assms(3)[of 0] by simp
  ultimately show ?thesis using assms(1,2) by (cases rooted) (simp_all add: locate_def absolute_dirs path_names_dirs start_of_def)
qed

lemma create_dirs_name: "CHR ''/'' \<notin> set n \<Longrightarrow> create_dirs_loop os done (n @ path) w = create_dirs_loop os (done @ n) path w"
  by (induction n arbitrary: "done") auto

lemma stat_none: "x86_file_stat path w = CC_STAT_NO_EXIST \<longleftrightarrow> entry_at (w_fs w) path = None"
  by (auto simp: x86_file_stat_def split: option.splits entry.splits)

text \<open>
  The directories on the way to the last name are made one after the other; \<open>pre\<close> are those that are there.
\<close>

definition way_free :: "os \<Rightarrow> (location \<rightharpoonup> entry) \<Rightarrow> location \<Rightarrow> bytes list \<Rightarrow> bool" where
  "way_free os m d ns = (\<forall>k < length ns. m (d @ take k ns) = Some Dir \<or> m (d @ take k ns) = None \<and> os_mkdir os (d @ take k ns))"

lemma create_dirs_step:
  assumes "e_alloc w = []" "list_all plain_name pre" "plain_name n" "\<And>k. k \<le> length pre \<Longrightarrow> fs_entries (w_fs w) (start_of rooted (w_fs w) @ take k pre) = Some Dir"
    and l_def: "l = start_of rooted (w_fs w) @ pre @ [n]"
    and free: "fs_entries (w_fs w) l = Some Dir \<or> fs_entries (w_fs w) l = None \<and> os_mkdir os l"
  shows "create_dirs_loop os (dirs_path rooted pre) (n @ CHR ''/'' # path) w
     = create_dirs_loop os (dirs_path rooted (pre @ [n])) path (w\<lparr>w_fs := (w_fs w)\<lparr>fs_entries := (fs_entries (w_fs w))(l \<mapsto> Dir)\<rparr>\<rparr>)"
proof -
  have loc: "locate (w_fs w) (dirs_path rooted pre @ n) = Some l" using locate_dirs[OF assms(2-4)] l_def by simp
  have d: "(dirs_path rooted pre @ n) @ ''/'' = dirs_path rooted (pre @ [n])" by (simp add: dirs_path_def)
  have n: "CHR ''/'' \<notin> set n" using assms(3) by (simp add: plain_name_def)
  show ?thesis
  proof (cases "fs_entries (w_fs w) l")
    case None
    then have "x86_file_stat (dirs_path rooted pre @ n) w = CC_STAT_NO_EXIST" using loc by (simp add: stat_none entry_at_def)
    then show ?thesis using None free loc assms(1) d by (simp add: create_dirs_name[OF n] os_mkdir_call_def)
  next
    case (Some e)
    then have "e = Dir" using free by simp
    then have "x86_file_stat (dirs_path rooted pre @ n) w \<noteq> CC_STAT_NO_EXIST" using loc Some by (simp add: stat_none entry_at_def)
    moreover have "w\<lparr>w_fs := (w_fs w)\<lparr>fs_entries := (fs_entries (w_fs w))(l \<mapsto> Dir)\<rparr>\<rparr> = w" using Some \<open>e = Dir\<close> by (simp add: fun_upd_idem)
    ultimately show ?thesis using assms(1) d by (simp add: create_dirs_name[OF n])
  qed
qed

lemma create_dirs_way:
  assumes "e_alloc w = []" "list_all plain_name (pre @ ns)" "ns \<noteq> []"
    "\<And>k. k \<le> length pre \<Longrightarrow> fs_entries (w_fs w) (start_of rooted (w_fs w) @ take k pre) = Some Dir"
    "way_free os (fs_entries (w_fs w)) (start_of rooted (w_fs w)) (pre @ ns)"
  shows "\<exists>m. create_dirs_loop os (dirs_path rooted pre) (path_of ns) w = (CC_SUCCESS, w\<lparr>w_fs := (w_fs w)\<lparr>fs_entries := m\<rparr>\<rparr>)
     \<and> (\<forall>k < length (pre @ ns). m (start_of rooted (w_fs w) @ take k (pre @ ns)) = Some Dir)
     \<and> m (start_of rooted (w_fs w) @ pre @ ns) = fs_entries (w_fs w) (start_of rooted (w_fs w) @ pre @ ns)"
  using assms
proof (induction ns arbitrary: pre w rule: path_of.induct)
  case (2 n)
  have "create_dirs_loop os (dirs_path rooted pre) n w = (CC_SUCCESS, w)"
    using create_dirs_name[of n os "dirs_path rooted pre" "[]" w] 2 by (simp add: plain_name_def)
  then show ?case using 2 by (intro exI[of _ "fs_entries (w_fs w)"]) (simp add: take_Cons' le_less_Suc_eq)
next
  case (3 n n2 ns)
  let ?b = "start_of rooted (w_fs w)" and ?l = "start_of rooted (w_fs w) @ pre @ [n]"
  let ?m = "(fs_entries (w_fs w))(?l \<mapsto> Dir)" and ?w = "w\<lparr>w_fs := (w_fs w)\<lparr>fs_entries := (fs_entries (w_fs w))(?l \<mapsto> Dir)\<rparr>\<rparr>"
  have b: "start_of rooted (w_fs ?w) = ?b" by (simp add: start_of_def)
  have free: "fs_entries (w_fs w) ?l = Some Dir \<or> fs_entries (w_fs w) ?l = None \<and> os_mkdir os ?l"
    using 3(6)[unfolded way_free_def, rule_format, of "Suc (length pre)"] by simp
  have step: "create_dirs_loop os (dirs_path rooted pre) (path_of (n # n2 # ns)) w = create_dirs_loop os (dirs_path rooted (pre @ [n])) (path_of (n2 # ns)) ?w"
    using create_dirs_step[OF 3(2) _ _ 3(5) refl free] 3(3) by simp
  have there: "fs_entries (w_fs ?w) (start_of rooted (w_fs ?w) @ take k (pre @ [n])) = Some Dir" if "k \<le> length (pre @ [n])" for k
    using 3(5)[of k] that unfolding b by (cases "k \<le> length pre") (auto simp: le_Suc_eq)
  have way: "way_free os (fs_entries (w_fs ?w)) (start_of rooted (w_fs ?w)) ((pre @ [n]) @ n2 # ns)"
    using 3(6) unfolding b by (auto simp: way_free_def)
  show ?case using 3(1)[of ?w "pre @ [n]", OF _ _ _ there way] 3(2,3) unfolding b step by simp
next
  case 1
  from 1(3) show ?case by simp
qed

lemma plain_hd: "plain_name n \<Longrightarrow> n \<noteq> [] \<and> hd n \<noteq> CHR ''/''"
  by (cases n) (auto simp: plain_name_def)

lemma path_of_dirs: "dirs_path rooted [] @ path_of (ns @ [n]) = dirs_path rooted ns @ n"
proof -
  have "path_of (ns @ [n]) = concat (map (\<lambda>n. n @ ''/'') ns) @ n"
  proof (induction ns)
    case (Cons a ns)
    then show ?case by (cases "ns @ [n]") simp_all
  qed simp
  then show ?thesis by (simp add: dirs_path_def)
qed

lemma path_of_hd: "list_all plain_name (ns @ [n]) \<Longrightarrow> path_of (ns @ [n]) \<noteq> [] \<and> hd (path_of (ns @ [n])) \<noteq> CHR ''/''"
  using path_of_dirs[of False ns n] plain_hd[of n] plain_hd[of "hd ns"] by (cases ns) (simp_all add: dirs_path_def)

lemma file_write_way:
  assumes "list_all plain_name (ns @ [n])" "e_alloc w = []" and d_def: "d = start_of rooted (w_fs w)"
    and "fs_entries (w_fs w) d = Some Dir" "way_free os (fs_entries (w_fs w)) d (ns @ [n])"
    and "fs_entries (w_fs w) (d @ ns @ [n]) \<noteq> Some Dir" "os_open os (d @ ns @ [n])" "length content \<le> os_room os (d @ ns @ [n])"
  shows "\<exists>m. x86_file_write os (dirs_path rooted ns @ n) content w
       = (CC_SUCCESS, w\<lparr>w_fs := (w_fs w)\<lparr>fs_entries := m(d @ ns @ [n] \<mapsto> File content)\<rparr>\<rparr>)
     \<and> (\<forall>k \<le> length ns. m (d @ take k ns) = Some Dir)"
proof -
  obtain m where m: "create_dirs_loop os (dirs_path rooted []) (path_of (ns @ [n])) w = (CC_SUCCESS, w\<lparr>w_fs := (w_fs w)\<lparr>fs_entries := m\<rparr>\<rparr>)"
      and dirs: "\<forall>k < length (ns @ [n]). m (d @ take k (ns @ [n])) = Some Dir" and last: "m (d @ ns @ [n]) = fs_entries (w_fs w) (d @ ns @ [n])"
    using create_dirs_way[of w "[]" "ns @ [n]" rooted os] assms by auto
  let ?fs = "(w_fs w)\<lparr>fs_entries := m\<rparr>"
  have c: "cc_platform_create_dirs os (dirs_path rooted ns @ n) w = (CC_SUCCESS, w\<lparr>w_fs := ?fs\<rparr>)"
  proof -
    obtain c p where p: "path_of (ns @ [n]) = c # p" "c \<noteq> CHR ''/''" using path_of_hd[OF assms(1)] by (cases "path_of (ns @ [n])") auto
    have "dirs_path rooted ns @ n = dirs_path rooted [] @ c # p" using path_of_dirs[of rooted ns n] p(1) by simp
    then show ?thesis using m p unfolding cc_platform_create_dirs_def by (cases rooted) (simp_all add: dirs_path_def)
  qed
  have b: "start_of rooted ?fs = d" by (simp add: d_def start_of_def)
  have t: "m (d @ take k ns) = Some Dir" if "k \<le> length ns" for k using dirs[rule_format, of k] that by simp
  have "locate ?fs (dirs_path rooted ns @ n) = Some (d @ ns @ [n])"
    using locate_dirs[of ns n ?fs rooted] assms(1) t unfolding b by simp
  then have "os_create os (dirs_path rooted ns @ n) ?fs = Some (d @ ns @ [n], ?fs\<lparr>fs_entries := m(d @ ns @ [n] \<mapsto> File [])\<rparr>)"
    using last assms(6,7) by (simp add: os_create_def)
  then show ?thesis using file_write_effect[OF c, of "d @ ns @ [n]" _ content] t assms(8) by auto
qed

text \<open>
  C33: a file in directories that do not exist. A path of plain names, from the root or from the working directory, can be written
  when nothing on the way is a regular file, the directories that are missing may be made, the file may be opened, and there is
  room: \<open>cc_platform_file_write\<close> makes the directories and reports success.
\<close>

theorem file_write_makes_dirs:
  assumes "list_all plain_name (ns @ [n])" "e_alloc w = []" and d_def: "d = start_of rooted (w_fs w)"
    and "fs_entries (w_fs w) d = Some Dir" "way_free os (fs_entries (w_fs w)) d (ns @ [n])"
    and "fs_entries (w_fs w) (d @ ns @ [n]) \<noteq> Some Dir" "os_open os (d @ ns @ [n])" "length content \<le> os_room os (d @ ns @ [n])"
  shows "\<exists>w'. x86_file_write os (dirs_path rooted ns @ n) content w = (CC_SUCCESS, w')
     \<and> fs_entries (w_fs w') (d @ ns @ [n]) = Some (File content)
     \<and> (\<forall>k \<le> length ns. fs_entries (w_fs w') (d @ take k ns) = Some Dir)"
proof -
  have "take k ns \<noteq> ns @ [n]" for k by (auto dest: arg_cong[of _ _ length])
  then show ?thesis using file_write_way[OF assms] by auto
qed

section \<open>Writing over a file\<close>

lemma path_names_append: "path_names (a @ CHR ''/'' # b) = path_names a @ path_names b"
  by (induction a) (auto split: list.splits)

lemma locate_parent:
  assumes "locate fs (a @ CHR ''/'' # b) = Some l" "a \<noteq> []"
  shows "\<exists>d. locate fs a = Some d \<and> fs_entries fs d = Some Dir"
proof -
  obtain n ns where b: "path_names b = n # ns" by (cases "path_names b") auto
  have "absolute (a @ CHR ''/'' # b) = absolute a" using assms(2) by (simp add: absolute_def)
  then show ?thesis using assms by (auto simp: locate_def path_names_append walk_append b split: if_splits)
qed

lemma create_dirs_nothing:
  "locate (w_fs w) (done @ path) = Some l \<Longrightarrow> done \<noteq> [] \<Longrightarrow> e_alloc w = [] \<Longrightarrow> create_dirs_loop os done path w = (CC_SUCCESS, w)"
proof (induction path arbitrary: "done")
  case (Cons c path)
  have "x86_file_stat done w \<noteq> CC_STAT_NO_EXIST" if "c = CHR ''/''"
    using locate_parent[of "w_fs w" "done" path l] Cons.prems that by (auto simp: stat_none entry_at_def)
  moreover have "create_dirs_loop os (done @ [c]) path w = (CC_SUCCESS, w)" using Cons by simp
  ultimately show ?case using Cons.prems(3) by (cases "c = CHR ''/''") simp_all
qed simp

text \<open>A file that is there is emptied before it is written.\<close>

lemma file_write_over:
  assumes "os_content os path (w_fs w) = Some old" "locate (w_fs w) path = Some l" "e_alloc w = []"
  shows "x86_file_write os path content w = (if length content \<le> os_room os l then CC_SUCCESS else CC_FAIL,
      w\<lparr>w_fs := (w_fs w)\<lparr>fs_entries := (fs_entries (w_fs w))(l \<mapsto> File (take (os_room os l) content))\<rparr>\<rparr>)"
proof (rule file_write_effect)
  have "path \<noteq> []" using assms(2) by (auto simp: locate_def)
  then show "cc_platform_create_dirs os path w = (CC_SUCCESS, w)"
    using create_dirs_nothing[of w "take 1 path" "drop 1 path" l os] assms(2,3) by (simp add: cc_platform_create_dirs_def)
  show "os_create os path (w_fs w) = Some (l, (w_fs w)\<lparr>fs_entries := (fs_entries (w_fs w))(l \<mapsto> File [])\<rparr>)"
    using assms(1,2) by (auto simp: os_create_def content_iff)
qed

lemma content_after_write:
  assumes "os_content os path (w_fs w) = Some old" "locate (w_fs w) path = Some l" "e_alloc w = []"
  shows "os_content os path (w_fs (snd (x86_file_write os path content w))) = Some (take (os_room os l) content)"
  using file_write_over[OF assms] assms(1,2) locate_write[OF assms(2)] by (auto simp: content_iff)

section \<open>Examples\<close>

definition free_os :: "nat \<Rightarrow> os" where
  "free_os room = \<lparr>os_mkdir = \<lambda>_. True, os_open = \<lambda>_. True, os_room = \<lambda>_. room\<rparr>"

theorem file_write_makes_dirs_witness:
  "\<exists>w'. x86_file_write (free_os 100) ''/mnt/spif/calvin'' ''abc'' example_world = (CC_SUCCESS, w')
     \<and> fs_entries (w_fs w') [''mnt'', ''spif'', ''calvin''] = Some (File ''abc'')"
proof -
  let ?w = "example_world"
  have "way_free (free_os 100) (fs_entries (w_fs ?w)) [] ([''mnt'', ''spif''] @ [''calvin''])"
    by (auto simp: way_free_def free_os_def example_world_def less_Suc_eq)
  then show ?thesis
    using file_write_makes_dirs[of "[''mnt'', ''spif'']" "''calvin''" ?w "[]" True "free_os 100" "''abc''"]
    by (auto simp: plain_name_def start_of_def example_world_def free_os_def dirs_path_def)
qed


end
