(* ===== verification/Node_State.thy ===== *)
theory Node_State
  imports Scheduler Platform_Files
begin

text \<open>
  The state file of a node, \<open>src/runtime/north/cc_node.c\<close>: writing it, starting from it, resetting the node when
  that fails. The platform's files are a parameter, the record \<open>cc_platform\<close>; the functions of the x86 platform give an instance.
  What is chosen when the runtime is compiled is the record \<open>cc_config\<close>. The runtime is compiled without TLS.
\<close>

section \<open>The configuration\<close>

record cc_config =
  cf_use_storage :: bool
  cf_use_checkpointing :: bool
  cf_use_sleep :: bool
  cf_inactivity_timeout :: u32
  cf_sleep_time :: u32

section \<open>Reading the state\<close>

text \<open>The numbers of the states; a number that is none of them is a fault.\<close>

definition node_state_nr :: "cc_node_state \<Rightarrow> u32" where
  "node_state_nr s = (case s of CC_NODE_DO_START \<Rightarrow> 0 | CC_NODE_DO_SLEEP \<Rightarrow> 1 | CC_NODE_PENDING \<Rightarrow> 2 | CC_NODE_STARTED \<Rightarrow> 3
     | CC_NODE_STOP \<Rightarrow> 4)"

definition node_state_of :: "u32 \<Rightarrow> cc_node_state option" where
  "node_state_of n = (if n = 0 then Some CC_NODE_DO_START else if n = 1 then Some CC_NODE_DO_SLEEP else if n = 2 then Some CC_NODE_PENDING
     else if n = 3 then Some CC_NODE_STARTED else if n = 4 then Some CC_NODE_STOP else None)"

definition state_id :: "mp \<Rightarrow> bytes \<Rightarrow> world \<Rightarrow> (cc_result \<times> world) option" where
  "state_id mp buffer w = must (cc_coder_decode_string_from_map mp buffer ''id'') (Some (CC_FAIL, w)) (\<lambda>(value, value_len). do {
     s \<leftarrow> strncpy_term CC_UUID_BUFFER_SIZE value (unat value_len);
     Some (CC_SUCCESS, w\<lparr>n_id := s\<rparr>) })"

definition state_attributes :: "mp \<Rightarrow> bytes \<Rightarrow> world \<Rightarrow> (cc_result \<times> world) option" where
  "state_attributes mp buffer w = do {
     h \<leftarrow> (if n_attributes w = None then cc_coder_has_key mp buffer ''attributes'' else Some False);
     if \<not> h then Some (CC_SUCCESS, w)
     else must (cc_coder_get_value_from_map mp buffer ''attributes'') (Some (CC_FAIL, w)) (\<lambda>tmp. do {
       t \<leftarrow> cc_coder_type_of mp tmp;
       if t \<noteq> CC_CODER_STR then Some (CC_SUCCESS, w)
       else must (cc_coder_decode_string_from_map mp buffer ''attributes'') (Some (CC_FAIL, w)) (\<lambda>(value, value_len).
         case mem_alloc w of
           (False, w) \<Rightarrow> Some (CC_FAIL, w)
         | (True, w) \<Rightarrow> Some (CC_SUCCESS, w\<lparr>n_attributes := Some (cstr (take (unat value_len) value))\<rparr>)) }) }"

text \<open>A string of the array that cannot be decoded is left out.\<close>

fun uris_loop :: "mp \<Rightarrow> bytes \<Rightarrow> nat list \<Rightarrow> world \<Rightarrow> (cc_result \<times> world) option" where
  "uris_loop mp array_value [] w = Some (CC_SUCCESS, w)"
| "uris_loop mp array_value (i # is) w = must (cc_coder_decode_string_from_array mp array_value (of_nat i))
     (uris_loop mp array_value is w) (\<lambda>(value, value_len).
     case cc_list_add_n (n_proxy_uris w) value (unat value_len) () 0 w of
       (None, l, w) \<Rightarrow> Some (CC_FAIL, w\<lparr>n_proxy_uris := l\<rparr>)
     | (Some _, l, w) \<Rightarrow> uris_loop mp array_value is (w\<lparr>n_proxy_uris := l\<rparr>))"

text \<open>\<open>cc_coder_has_key\<close>, \<open>cc_coder_get_value_from_map\<close> and the indexes of the array behind the key.\<close>

definition with_array :: "mp \<Rightarrow> bytes \<Rightarrow> bytes \<Rightarrow> world \<Rightarrow> (bytes \<Rightarrow> nat list \<Rightarrow> (cc_result \<times> world) option) \<Rightarrow> (cc_result \<times> world) option" where
  "with_array mp buffer key w loop = do {
     h \<leftarrow> cc_coder_has_key mp buffer key;
     if \<not> h then Some (CC_SUCCESS, w)
     else must (cc_coder_get_value_from_map mp buffer key) (Some (CC_SUCCESS, w)) (\<lambda>array_value. do {
       array_size \<leftarrow> cc_coder_get_size_of_array mp array_value;
       loop array_value [0..<unat array_size] }) }"

definition state_uris :: "mp \<Rightarrow> bytes \<Rightarrow> world \<Rightarrow> (cc_result \<times> world) option" where
  "state_uris mp buffer w =
     (if n_proxy_uris w \<noteq> [] then Some (CC_SUCCESS, w)
      else with_array mp buffer ''proxy_uris'' w (\<lambda>array_value is. uris_loop mp array_value is w))"

definition state_state :: "mp \<Rightarrow> bytes \<Rightarrow> world \<Rightarrow> world option" where
  "state_state mp buffer w = do {
     h \<leftarrow> cc_coder_has_key mp buffer ''state'';
     if \<not> h then Some w
     else must (cc_coder_decode_uint_from_map mp buffer ''state'') (Some w) (\<lambda>n. do {
       s \<leftarrow> node_state_of n;
       Some (w\<lparr>n_state := if s = CC_NODE_DO_SLEEP then CC_NODE_STARTED else s\<rparr>) }) }"

fun links_loop :: "mp \<Rightarrow> bytes \<Rightarrow> nat list \<Rightarrow> world \<Rightarrow> (cc_result \<times> world) option" where
  "links_loop mp array_value [] w = Some (CC_SUCCESS, w)"
| "links_loop mp array_value (i # is) w = must (cc_coder_get_value_from_array mp array_value (of_nat i))
     (links_loop mp array_value is w) (\<lambda>value. do {
     (l, w) \<leftarrow> cc_link_deserialize mp value w;
     case l of
       None \<Rightarrow> Some (CC_FAIL, w)
     | Some a \<Rightarrow> do {
         link \<leftarrow> h_links w a;
         links_loop mp array_value is (if l_is_proxy link then w\<lparr>n_proxy_link := Some a\<rparr> else w) } })"

fun tunnels_loop :: "mp \<Rightarrow> bytes \<Rightarrow> nat list \<Rightarrow> world \<Rightarrow> (cc_result \<times> world) option" where
  "tunnels_loop mp array_value [] w = Some (CC_SUCCESS, w)"
| "tunnels_loop mp array_value (i # is) w = must (cc_coder_get_value_from_array mp array_value (of_nat i))
     (tunnels_loop mp array_value is w) (\<lambda>value. do {
     (t, w) \<leftarrow> cc_tunnel_deserialize mp value w;
     case t of
       None \<Rightarrow> Some (CC_FAIL, w)
     | Some a \<Rightarrow> do {
         tunnel \<leftarrow> h_tunnels w a;
         tunnels_loop mp array_value is
           (if t_type tunnel = CC_TUNNEL_TYPE_STORAGE then w\<lparr>n_storage_tunnel := Some a\<rparr>
            else if t_type tunnel = CC_TUNNEL_TYPE_PROXY then w\<lparr>n_proxy_tunnel := Some a\<rparr> else w) } })"

fun actors_loop :: "ext \<Rightarrow> bytes \<Rightarrow> nat list \<Rightarrow> world \<Rightarrow> (cc_result \<times> world) option" where
  "actors_loop x array_value [] w = Some (CC_SUCCESS, w)"
| "actors_loop x array_value (i # is) w = must (cc_coder_get_value_from_array (x_mp x) array_value (of_nat i))
     (actors_loop x array_value is w) (\<lambda>value. do {
     (a, w) \<leftarrow> cc_actor_create x value w;
     case a of None \<Rightarrow> Some (CC_FAIL, w) | Some _ \<Rightarrow> actors_loop x array_value is w })"

text \<open>The steps one after the other, each unless one failed.\<close>

definition and_then :: "(cc_result \<times> world) option \<Rightarrow> (world \<Rightarrow> (cc_result \<times> world) option) \<Rightarrow> (cc_result \<times> world) option" where
  "and_then m k = do { (r, w) \<leftarrow> m; if r = CC_SUCCESS then k w else Some (CC_FAIL, w) }"

definition cc_node_get_state :: "ext \<Rightarrow> cc_platform \<Rightarrow> world \<Rightarrow> (cc_result \<times> world) option" where
  "cc_node_get_state x pl w = (case pl_file_read pl CC_STATE_FILE w of
     (None, w) \<Rightarrow> Some (CC_FAIL, w)
   | (Some buffer, w) \<Rightarrow>
       and_then (state_id (x_mp x) buffer w) (\<lambda>w.
       and_then (state_attributes (x_mp x) buffer w) (\<lambda>w.
       and_then (state_uris (x_mp x) buffer w) (\<lambda>w. do {
       w \<leftarrow> state_state (x_mp x) buffer w;
       and_then (with_array (x_mp x) buffer ''links'' w (\<lambda>array_value is. links_loop (x_mp x) array_value is w)) (\<lambda>w.
       and_then (with_array (x_mp x) buffer ''tunnels'' w (\<lambda>array_value is. tunnels_loop (x_mp x) array_value is w)) (\<lambda>w.
       with_array (x_mp x) buffer ''actors'' w (\<lambda>array_value is. actors_loop x array_value is w))) }))))"

section \<open>Writing the state\<close>

fun encode_uris :: "mp \<Rightarrow> unit cc_list \<Rightarrow> bytes \<Rightarrow> bytes" where
  "encode_uris mp [] tmp = tmp"
| "encode_uris mp (item # uris) tmp =
     encode_uris mp uris (cc_coder_encode_str mp tmp (li_id item) (of_nat (strnlen (li_id item) CC_MAX_URI_LEN)))"

fun encode_links :: "mp \<Rightarrow> world \<Rightarrow> addr cc_list \<Rightarrow> bytes \<Rightarrow> bytes option" where
  "encode_links mp w [] tmp = Some tmp"
| "encode_links mp w (item # links) tmp = do {
     link \<leftarrow> h_links w (li_data item); encode_links mp w links (cc_link_serialize mp link tmp) }"

fun encode_tunnels :: "mp \<Rightarrow> world \<Rightarrow> addr cc_list \<Rightarrow> bytes \<Rightarrow> bytes option" where
  "encode_tunnels mp w [] tmp = Some tmp"
| "encode_tunnels mp w (item # tunnels) tmp = do {
     tunnel \<leftarrow> h_tunnels w (li_data item);
     tmp \<leftarrow> cc_tunnel_serialize mp w tunnel tmp;
     encode_tunnels mp w tunnels tmp }"

text \<open>A null pointer from \<open>cc_actor_serialize\<close> is written through or subtracted from, a fault.\<close>

fun encode_actors :: "ext \<Rightarrow> addr cc_list \<Rightarrow> bytes \<Rightarrow> world \<Rightarrow> (bytes \<times> world) option" where
  "encode_actors x [] tmp w = Some (tmp, w)"
| "encode_actors x (item # actors) tmp w = do {
     (r, w) \<leftarrow> cc_actor_serialize x (li_data item) (cc_coder_encode_map (x_mp x) tmp 1) True w;
     tmp \<leftarrow> r;
     encode_actors x actors tmp w }"

definition encode_identity :: "mp \<Rightarrow> u32 \<Rightarrow> world \<Rightarrow> bytes" where
  "encode_identity mp nbr_of_attributes w =
     (let tmp = cc_coder_encode_map mp [] nbr_of_attributes;
          tmp = cc_coder_encode_kv_str mp tmp ''id'' (n_id w) (of_nat (strlen (n_id w)));
          tmp = (case n_attributes w of
              None \<Rightarrow> cc_coder_encode_kv_nil mp tmp ''attributes''
            | Some a \<Rightarrow> cc_coder_encode_kv_str mp tmp ''attributes'' a (of_nat (strnlen a CC_MAX_ATTRIBUTES_LEN)));
          tmp = cc_coder_encode_kv_array mp tmp ''proxy_uris'' (cc_list_count (n_proxy_uris w))
      in encode_uris mp (n_proxy_uris w) tmp)"

definition encode_network :: "mp \<Rightarrow> world \<Rightarrow> bytes \<Rightarrow> bytes option" where
  "encode_network mp w tmp = do {
     let tmp = cc_coder_encode_kv_uint mp tmp ''state'' (node_state_nr (n_state w));
     tmp \<leftarrow> encode_links mp w (n_links w) (cc_coder_encode_kv_array mp tmp ''links'' (cc_list_count (n_links w)));
     encode_tunnels mp w (n_tunnels w) (cc_coder_encode_kv_array mp tmp ''tunnels'' (cc_list_count (n_tunnels w))) }"

text \<open>
  The buffer has 500 bytes, and 2000 more for each actor, as a number of 32 bits; a state that is longer is written past
  its end.
\<close>

definition cc_node_set_state :: "ext \<Rightarrow> cc_platform \<Rightarrow> bool \<Rightarrow> world \<Rightarrow> world option" where
  "cc_node_set_state x pl include_state w = (case mem_alloc w of
     (False, w) \<Rightarrow> Some w
   | (True, w) \<Rightarrow> do {
       let buffer_size = 500 + (if include_state then unat (cc_list_count (n_actors w) * 2000) else 0);
       let tmp = encode_identity (x_mp x) (if include_state then 7 else 3) w;
       (tmp, w) \<leftarrow> (if include_state then do {
           tmp \<leftarrow> encode_network (x_mp x) w tmp;
           encode_actors x (n_actors w) (cc_coder_encode_kv_array (x_mp x) tmp ''actors'' (cc_list_count (n_actors w))) w }
         else Some (tmp, w));
       if buffer_size < length tmp then None
       else Some (snd (pl_file_write pl CC_STATE_FILE tmp w)) })"

section \<open>Starting over\<close>

text \<open>The loops take the first item off the list before they free what it points to.\<close>

partial_function (option) free_actors :: "ext \<Rightarrow> world \<Rightarrow> world option" where
  "free_actors x w = (case n_actors w of
     [] \<Rightarrow> Some w
   | item # actors \<Rightarrow> do {
       w \<leftarrow> cc_actor_free x (Some (li_data item)) True (w\<lparr>n_actors := actors\<rparr>);
       free_actors x w })"

partial_function (option) free_tunnels :: "world \<Rightarrow> world option" where
  "free_tunnels w = (case n_tunnels w of
     [] \<Rightarrow> Some w
   | item # tunnels \<Rightarrow> do {
       w \<leftarrow> cc_tunnel_free (Some (li_data item)) False (w\<lparr>n_tunnels := tunnels\<rparr>);
       free_tunnels w })"

partial_function (option) free_links :: "world \<Rightarrow> world option" where
  "free_links w = (case n_links w of
     [] \<Rightarrow> Some w
   | item # links \<Rightarrow> do {
       w \<leftarrow> cc_link_free (li_data item) (w\<lparr>n_links := links\<rparr>);
       free_links w })"

definition free_network :: "world \<Rightarrow> world option" where
  "free_network w = do {
     w \<leftarrow> free_tunnels w;
     w \<leftarrow> free_links (w\<lparr>n_storage_tunnel := None, n_proxy_tunnel := None\<rparr>);
     Some (w\<lparr>n_proxy_link := None\<rparr>) }"

definition cc_node_reset :: "ext \<Rightarrow> cc_platform \<Rightarrow> world \<Rightarrow> world option" where
  "cc_node_reset x pl w = do {
     w \<leftarrow> free_actors x w;
     w \<leftarrow> free_network w;
     cc_node_set_state x pl False (w\<lparr>n_pending_msgs := []\<rparr>) }"

definition cc_node_setup :: "ext \<Rightarrow> cc_platform \<Rightarrow> cc_config \<Rightarrow> world \<Rightarrow> (cc_result \<times> world) option" where
  "cc_node_setup x pl cfg w = do {
     (done, w) \<leftarrow>
       (if cf_use_storage cfg \<and> pl_file_stat pl CC_STATE_FILE w = CC_STAT_FILE then do {
          (r, w) \<leftarrow> cc_node_get_state x pl w;
          if r = CC_SUCCESS then Some (True, w)
          else do { w \<leftarrow> cc_node_reset x pl w; Some (False, w) } }
        else Some (False, w));
     if done then Some (CC_SUCCESS, w)
     else case cc_gen_uuid None w of (i, w) \<Rightarrow> Some (CC_SUCCESS, w\<lparr>n_id := i\<rparr>) }"

section \<open>Messages\<close>

definition cc_node_handle_message :: "ext \<Rightarrow> cc_platform \<Rightarrow> cc_config \<Rightarrow> bytes \<Rightarrow> nat \<Rightarrow> world \<Rightarrow> (cc_result \<times> world) option" where
  "cc_node_handle_message x pl cfg buffer len w = do {
     (r, w) \<leftarrow> cc_proto_parse_message x buffer len w;
     if r = CC_SUCCESS then do {
       w \<leftarrow> (if cf_use_storage cfg \<and> cf_use_checkpointing cfg \<and> n_state w = CC_NODE_STARTED
             then cc_node_set_state x pl True w else Some w);
       Some (CC_SUCCESS, w) }
     else Some (CC_FAIL, w) }"

section \<open>Starting over comes to an end\<close>

lemma list_remove_set: "set (cc_list_remove xs i) \<subseteq> set xs"
  by (induction xs i rule: cc_list_remove.induct) auto

lemma list_remove_distinct: "distinct (map f xs) \<Longrightarrow> distinct (map f (cc_list_remove xs i))"
proof (induction xs)
  case (Cons y xs)
  then show ?case using list_remove_set[of xs i] by auto
qed simp

lemma list_remove_length: "length (cc_list_remove xs i) \<le> length xs"
  by (induction xs i rule: cc_list_remove.induct) auto

definition live :: "(addr \<rightharpoonup> 'a) \<Rightarrow> addr cc_list \<Rightarrow> bool" where
  "live h items = (distinct (map li_data items) \<and> (\<forall>item \<in> set items. h (li_data item) \<noteq> None))"

lemma live_freed: "live h (item # items) \<Longrightarrow> live (h(li_data item := None)) (cc_list_remove items i)"
  using list_remove_set[of items i] list_remove_distinct[of li_data items i] by (fastforce simp: live_def image_iff)

lemma free_tunnels_returns:
  "live (h_tunnels w) (n_tunnels w) \<Longrightarrow>
   \<exists>w'. free_tunnels w = Some w' \<and> n_tunnels w' = [] \<and> n_links w' = n_links w \<and> h_links w' = h_links w"
proof (induction "length (n_tunnels w)" arbitrary: w rule: less_induct)
  case less
  show ?case
  proof (cases "n_tunnels w")
    case (Cons item tunnels)
    then obtain t where t: "h_tunnels w (li_data item) = Some t" using less.prems by (auto simp: live_def)
    define w1 where "w1 = w\<lparr>n_tunnels := cc_list_remove tunnels (t_id t), h_tunnels := (h_tunnels w)(li_data item := None)\<rparr>"
    have "length (n_tunnels w1) < length (n_tunnels w)" "live (h_tunnels w1) (n_tunnels w1)"
      using list_remove_length[of tunnels "t_id t"] live_freed[of "h_tunnels w" item tunnels "t_id t"] less.prems Cons
      by (simp_all add: w1_def)
    from less.hyps[OF this] show ?thesis by (subst free_tunnels.simps) (simp add: Cons cc_tunnel_free_def t w1_def)
  qed (subst free_tunnels.simps, simp)
qed

lemma free_links_returns:
  "live (h_links w) (n_links w) \<Longrightarrow> \<exists>w'. free_links w = Some w' \<and> n_links w' = [] \<and> n_tunnels w' = n_tunnels w"
proof (induction "length (n_links w)" arbitrary: w rule: less_induct)
  case less
  show ?case
  proof (cases "n_links w")
    case (Cons item links)
    then obtain l where l: "h_links w (li_data item) = Some l" using less.prems by (auto simp: live_def)
    define w1 where "w1 = w\<lparr>n_links := cc_list_remove links (l_peer_id l), h_links := (h_links w)(li_data item := None)\<rparr>"
    have "length (n_links w1) < length (n_links w)" "live (h_links w1) (n_links w1)"
      using list_remove_length[of links "l_peer_id l"] live_freed[of "h_links w" item links "l_peer_id l"] less.prems Cons
      by (simp_all add: w1_def)
    from less.hyps[OF this] show ?thesis by (subst free_links.simps) (simp add: Cons cc_link_free_def l w1_def)
  qed (subst free_links.simps, simp)
qed

text \<open>Starting over frees the tunnels and links of a node whose lists name objects that exist, each once.\<close>

lemma free_network_returns:
  assumes "live (h_tunnels w) (n_tunnels w)" and "live (h_links w) (n_links w)"
  shows "\<exists>w'. free_network w = Some w' \<and> n_tunnels w' = [] \<and> n_links w' = [] \<and> n_proxy_link w' = None"
proof -
  obtain w1 where 1: "free_tunnels w = Some w1" "n_tunnels w1 = []" "n_links w1 = n_links w" "h_links w1 = h_links w"
    using free_tunnels_returns[OF assms(1)] by blast
  let ?w = "w1\<lparr>n_storage_tunnel := None, n_proxy_tunnel := None\<rparr>"
  obtain w2 where "free_links ?w = Some w2" "n_links w2 = []" "n_tunnels w2 = []"
    using free_links_returns[of ?w] assms(2) 1 by auto
  with 1 show ?thesis by (simp add: free_network_def)
qed

section \<open>The identity of the node in the file\<close>

definition attributes_v :: "bytes option \<Rightarrow> mpv" where
  "attributes_v a = (case a of None \<Rightarrow> MNil | Some s \<Rightarrow> MStr s)"

definition identity_v :: "bytes \<Rightarrow> bytes option \<Rightarrow> bytes list \<Rightarrow> (mpv \<times> mpv) list" where
  "identity_v i a uris = [(MStr ''id'', MStr i), (MStr ''attributes'', attributes_v a), (MStr ''proxy_uris'', MArr (map MStr uris))]"

text \<open>What the node writes fits the fields it is read into.\<close>

definition identity_ok :: "bytes \<Rightarrow> bytes option \<Rightarrow> bytes list \<Rightarrow> bool" where
  "identity_ok i a uris = (no_nul i \<and> length i < CC_UUID_BUFFER_SIZE
     \<and> (case a of None \<Rightarrow> True | Some s \<Rightarrow> no_nul s \<and> length s \<le> CC_MAX_ATTRIBUTES_LEN)
     \<and> length uris < 2 ^ 32 \<and> list_all (\<lambda>u. no_nul u \<and> length u \<le> CC_MAX_URI_LEN) uris)"

text \<open>The items of the list of addresses as \<open>cc_list_add_n\<close> makes them.\<close>

definition uri_items :: "bytes list \<Rightarrow> unit cc_list" where
  "uri_items = map (\<lambda>u. \<lparr>li_id = u, li_id_len = length u, li_data = (), li_data_len = 0, li_free_id = True\<rparr>)"

definition other_keys :: "(mpv \<times> mpv) list \<Rightarrow> bool" where
  "other_keys extra = (key_clear ''id'' extra \<and> key_clear ''attributes'' extra \<and> key_clear ''proxy_uris'' extra \<and> wf_pairs extra
     \<and> length extra < 2 ^ 31 \<and> map_of extra (MStr ''id'') = None)"

lemma identity_wf:
  assumes "identity_ok i a uris" "other_keys extra"
  shows "wf_mpv (MMap (identity_v i a uris @ extra))" "key_clear ''id'' (identity_v i a uris @ extra)"
    "key_clear ''attributes'' (identity_v i a uris @ extra)" "key_clear ''proxy_uris'' (identity_v i a uris @ extra)"
proof -
  have u: "wf_mpv (MArr (map MStr uris))"
    using assms(1) by (auto simp: identity_ok_def CC_MAX_URI_LEN_def list_all_iff)
  have a: "wf_mpv (attributes_v a)"
    using assms(1) by (simp add: identity_ok_def attributes_v_def CC_MAX_ATTRIBUTES_LEN_def split: option.splits)
  show "wf_mpv (MMap (identity_v i a uris @ extra))" using assms u a
    by (simp add: identity_ok_def identity_v_def other_keys_def CC_UUID_BUFFER_SIZE_def)
  have "key_clear k (xs @ ys) = (key_clear k xs \<and> key_clear k ys)" for k xs ys by (simp add: key_clear_def)
  then show "key_clear ''id'' (identity_v i a uris @ extra)"
    "key_clear ''attributes'' (identity_v i a uris @ extra)" "key_clear ''proxy_uris'' (identity_v i a uris @ extra)"
    using assms(2) by (simp_all add: identity_v_def other_keys_def)
qed

context msgpuck
begin

lemma encode_uris_enc:
  "list_all (\<lambda>item. no_nul (li_id item) \<and> length (li_id item) \<le> CC_MAX_URI_LEN) l \<Longrightarrow>
   encode_uris mp l b = b @ concat (map (enc mp) (map MStr (map li_id l)))"
proof (induction l arbitrary: b)
  case (Cons item l)
  then have "strnlen (li_id item) CC_MAX_URI_LEN = length (li_id item)" by (simp add: strnlen_def)
  with Cons show ?case by (simp add: cc_coder_encode_str_def)
qed simp

lemma encode_identity_enc:
  assumes "identity_ok (n_id w) (n_attributes w) (map li_id (n_proxy_uris w))"
  shows "encode_identity mp n w = mp_encode_map mp n @ enc_pairs mp (identity_v (n_id w) (n_attributes w) (map li_id (n_proxy_uris w)))"
proof -
  have "list_all (\<lambda>item. no_nul (li_id item) \<and> length (li_id item) \<le> CC_MAX_URI_LEN) (n_proxy_uris w)"
    using assms by (simp add: identity_ok_def list_all_iff)
  note uris = encode_uris_enc[OF this]
  have i: "unat (of_nat (length (n_id w)) :: u32) = length (n_id w)" "cc_list_count (n_proxy_uris w) = of_nat (length (n_proxy_uris w))"
    using assms by (simp_all add: identity_ok_def CC_UUID_BUFFER_SIZE_def list_count_length)
  show ?thesis
  proof (cases "n_attributes w")
    case None
    then show ?thesis using assms i
      by (simp add: encode_identity_def identity_v_def attributes_v_def identity_ok_def uris kv_encodings cc_coder_encode_map_def comp_def del: enc.simps)
        (simp add: comp_def)
  next
    case (Some s)
    then have "strnlen s CC_MAX_ATTRIBUTES_LEN = length s" "unat (of_nat (length s) :: u32) = length s"
      using assms by (auto simp: identity_ok_def strnlen_def CC_MAX_ATTRIBUTES_LEN_def)
    with Some show ?thesis using assms i
      by (simp add: encode_identity_def identity_v_def attributes_v_def identity_ok_def uris kv_encodings cc_coder_encode_map_def comp_def del: enc.simps)
        (simp add: comp_def)
  qed
qed

end

context msgpuck
begin

lemma string_from_array_enc:
  assumes "wf_mpv (MArr (map MStr us))" "k < length us"
  shows "\<exists>r. cc_coder_decode_string_from_array mp (enc mp (MArr (map MStr us)) @ rest) (of_nat k) = Some (Some (us ! k @ r, of_nat (length (us ! k))))"
proof -
  have u: "unat (of_nat k :: u32) = k" "unat (of_nat (length us) :: u32) = length us" using assms by simp_all
  have "list_all wf_mpv (map MStr us)" "length (us ! k) < 2 ^ 32" using assms by (simp_all add: list_all_length)
  moreover have "drop k (map MStr us) = MStr (us ! k) # drop (Suc k) (map MStr us)"
    using Cons_nth_drop_Suc[OF assms(2)] by (metis drop_map list.simps(9))
  moreover have "(of_nat k :: u32) < of_nat (length us)" using assms(2) u by (simp add: word_less_nat_alt)
  ultimately show ?thesis using assms(2) u skip_values_enc[of "map MStr us" k rest]
    by (simp add: cc_coder_decode_string_from_array_def array_enc del: enc.simps(7) bind_Some_iff)
qed

lemma uris_loop_enc:
  assumes "wf_mpv (MArr (map MStr uris))" "list_all no_nul uris" "e_alloc w = []"
  shows "uris = us1 @ us2 \<Longrightarrow> uris_loop mp (enc mp (MArr (map MStr uris)) @ rest) [length us1..<length uris] w
     = Some (CC_SUCCESS, w\<lparr>n_proxy_uris := n_proxy_uris w @ uri_items us2\<rparr>)"
  using assms(3)
proof (induction us2 arbitrary: us1 w)
  case (Cons u us2)
  have k: "length us1 < length uris" "uris ! length us1 = u" using Cons.prems by simp_all
  have u: "no_nul u" "length u < 2 ^ 32" using assms(1,2) Cons.prems by simp_all
  obtain r where "cc_coder_decode_string_from_array mp (enc mp (MArr (map MStr uris)) @ rest) (of_nat (length us1)) = Some (Some (u @ r, of_nat (length u)))"
    using string_from_array_enc[OF assms(1) k(1), of rest] k(2) by auto
  moreover have "[length us1..<length uris] = length us1 # [Suc (length us1)..<length uris]" using k(1) by (rule upt_conv_Cons)
  moreover have "uris_loop mp (enc mp (MArr (map MStr uris)) @ rest) [Suc (length us1)..<length uris]
       (w\<lparr>n_proxy_uris := n_proxy_uris w @ uri_items [u]\<rparr>) = Some (CC_SUCCESS, w\<lparr>n_proxy_uris := n_proxy_uris w @ uri_items (u # us2)\<rparr>)"
    using Cons.IH[of "us1 @ [u]" "w\<lparr>n_proxy_uris := n_proxy_uris w @ uri_items [u]\<rparr>"] Cons.prems by (simp add: uri_items_def)
  ultimately show ?case using Cons.prems(2) u
    by (simp add: cc_list_add_n_def cc__list_add_def uri_items_def Let_def del: enc.simps)
qed (simp add: uri_items_def)

lemma state_identity_enc:
  assumes "identity_ok i a uris" "other_keys extra" and b_def: "b = enc mp (MMap (identity_v i a uris @ extra)) @ rest"
  shows "state_id mp b w = Some (CC_SUCCESS, w\<lparr>n_id := i\<rparr>)"
    and "n_attributes w = None \<Longrightarrow> e_alloc w = [] \<Longrightarrow> state_attributes mp b w = Some (CC_SUCCESS, w\<lparr>n_attributes := a\<rparr>)"
    and "n_proxy_uris w = [] \<Longrightarrow> e_alloc w = [] \<Longrightarrow> state_uris mp b w = Some (CC_SUCCESS, w\<lparr>n_proxy_uris := uri_items uris\<rparr>)"
proof -
  define kvs where "kvs = identity_v i a uris @ extra"
  note wf = identity_wf[OF assms(1,2), folded kvs_def] and b = b_def[folded kvs_def]
  have m: "map_of kvs (MStr ''id'') = Some (MStr i)" "map_of kvs (MStr ''attributes'') = Some (attributes_v a)"
    "map_of kvs (MStr ''proxy_uris'') = Some (MArr (map MStr uris))"
    by (simp_all add: kvs_def identity_v_def)
  obtain r where "cc_coder_decode_string_from_map mp b ''id'' = Some (Some (i @ r, of_nat (length i)))"
    using string_from_map_enc[OF wf(1,2) _ _ m(1), of rest] by (auto simp: b simp del: enc.simps)
  then show "state_id mp b w = Some (CC_SUCCESS, w\<lparr>n_id := i\<rparr>)"
    using assms(1) by (simp add: state_id_def identity_ok_def CC_UUID_BUFFER_SIZE_def strncpy_term_def)
  have h: "cc_coder_has_key mp b ''attributes'' = Some True" "cc_coder_has_key mp b ''proxy_uris'' = Some True"
    using has_key_enc[OF wf(1,3), of rest] has_key_enc[OF wf(1,4), of rest] m by (simp_all add: b del: enc.simps)
  obtain p where p: "cc_coder_get_value_from_map mp b ''attributes'' = Some (Some p)" "points_to mp (attributes_v a) p"
    using map_lookups(3)[OF wf(1,3), of rest] m(2) by (auto simp: b finds_def simp del: enc.simps)
  then have t: "cc_coder_type_of mp p = Some (case a of None \<Rightarrow> CC_CODER_NIL | Some _ \<Rightarrow> CC_CODER_STR)"
    using type_at_enc[of "attributes_v a"] by (auto simp: points_to_def cc_coder_type_of_def attributes_v_def split: option.splits)
  show "state_attributes mp b w = Some (CC_SUCCESS, w\<lparr>n_attributes := a\<rparr>)" if "n_attributes w = None" "e_alloc w = []"
  proof (cases a)
    case (Some s)
    then obtain r where "cc_coder_decode_string_from_map mp b ''attributes'' = Some (Some (s @ r, of_nat (length s)))"
      using string_from_map_enc[OF wf(1,3), of s rest] m(2) by (auto simp: b attributes_v_def simp del: enc.simps)
    then show ?thesis using that h p(1) t Some assms(1)
      by (simp add: state_attributes_def identity_ok_def CC_MAX_ATTRIBUTES_LEN_def)
  qed (use that h p(1) t in \<open>simp add: state_attributes_def\<close>)
  obtain q where q: "cc_coder_get_value_from_map mp b ''proxy_uris'' = Some (Some (enc mp (MArr (map MStr uris)) @ q))"
      "wf_mpv (MArr (map MStr uris))"
    using map_lookups(3)[OF wf(1,4), of rest] m(3) by (auto simp: b finds_def points_to_def simp del: enc.simps)
  then have "cc_coder_get_size_of_array mp (enc mp (MArr (map MStr uris)) @ q) = Some (of_nat (length uris))"
    by (simp add: cc_coder_get_size_of_array_def array_enc)
  then show "state_uris mp b w = Some (CC_SUCCESS, w\<lparr>n_proxy_uris := uri_items uris\<rparr>)" if "n_proxy_uris w = []" "e_alloc w = []"
    using that h(2) q uris_loop_enc[OF q(2) _ that(2), of "[]" uris q] assms(1)
    by (simp add: state_uris_def with_array_def identity_ok_def list_all_iff del: enc.simps bind_Some_iff)
qed

end

section \<open>The contract of the platform's storage\<close>

locale storage =
  fixes pl :: cc_platform and stored :: "world \<Rightarrow> bytes option"
  assumes stat: "stored w \<noteq> None \<Longrightarrow> pl_file_stat pl CC_STATE_FILE w = CC_STAT_FILE"
    and read: "stored w = Some b \<Longrightarrow> e_alloc w = [] \<Longrightarrow> pl_file_read pl CC_STATE_FILE w = (Some b, w)"
    and written: "pl_file_write pl CC_STATE_FILE b w = (CC_SUCCESS, w') \<Longrightarrow> stored w' = Some b"

locale node_storage = storage pl stored + msgpuck mp
  for pl stored mp +
  fixes x :: ext
  assumes x_mp: "x_mp x = mp"
begin

lemma set_state_stores:
  assumes "e_alloc w = []" "identity_ok (n_id w) (n_attributes w) (map li_id (n_proxy_uris w))"
    "length (encode_identity mp 3 w) \<le> 500" "\<And>b. length b \<le> 500 \<Longrightarrow> fst (pl_file_write pl CC_STATE_FILE b w) = CC_SUCCESS"
  shows "\<exists>w'. cc_node_set_state x pl False w = Some w'
     \<and> stored w' = Some (enc mp (MMap (identity_v (n_id w) (n_attributes w) (map li_id (n_proxy_uris w)))))"
proof -
  let ?b = "encode_identity mp 3 w"
  obtain w' where w': "pl_file_write pl CC_STATE_FILE ?b w = (CC_SUCCESS, w')" using assms(3) assms(4)[of ?b] by (cases "pl_file_write pl CC_STATE_FILE ?b w") auto
  have "?b = enc mp (MMap (identity_v (n_id w) (n_attributes w) (map li_id (n_proxy_uris w))))"
    using encode_identity_enc[OF assms(2), of 3] by (simp add: identity_v_def)
  then show ?thesis using written[OF w'] w' assms(1,3) by (simp add: cc_node_set_state_def x_mp)
qed

text \<open>A file with the identity and nothing else.\<close>

lemma get_state_identity:
  assumes "stored u = Some (enc mp (MMap (identity_v i a uris)))" "identity_ok i a uris"
    "e_alloc u = []" "n_attributes u = None" "n_proxy_uris u = []"
  shows "cc_node_get_state x pl u = Some (CC_SUCCESS, u\<lparr>n_id := i, n_attributes := a, n_proxy_uris := uri_items uris\<rparr>)"
proof -
  let ?b = "enc mp (MMap (identity_v i a uris))"
  have o: "other_keys []" by (simp add: other_keys_def)
  note s = state_identity_enc[where extra = "[]" and rest = "[]", unfolded append_Nil2, OF assms(2) o refl]
  have "cc_coder_has_key mp ?b k = Some False" if "k \<in> {''state'', ''links'', ''tunnels'', ''actors''}" for k
    using has_key_enc[of "identity_v i a uris" k "[]"] identity_wf[OF assms(2) o] that by (auto simp: identity_v_def simp del: enc.simps)
  then have n: "cc_coder_has_key mp ?b ''state'' = Some False" "cc_coder_has_key mp ?b ''links'' = Some False"
    "cc_coder_has_key mp ?b ''tunnels'' = Some False" "cc_coder_has_key mp ?b ''actors'' = Some False" by simp_all
  show ?thesis using read[OF assms(1,3)] s n assms(3-5)
    by (simp add: cc_node_get_state_def x_mp and_then_def state_state_def with_array_def del: enc.simps bind_Some_iff)
qed

lemma identity_survives:
  assumes "e_alloc w = []" "identity_ok (n_id w) (n_attributes w) (map li_id (n_proxy_uris w))"
    "length (encode_identity mp 3 w) \<le> 500" "\<And>b. length b \<le> 500 \<Longrightarrow> fst (pl_file_write pl CC_STATE_FILE b w) = CC_SUCCESS" "cf_use_storage cfg"
  shows "\<exists>w'. cc_node_set_state x pl False w = Some w'
     \<and> (\<forall>u. e_alloc u = [] \<and> n_attributes u = None \<and> n_proxy_uris u = [] \<and> stored u = stored w' \<longrightarrow>
       cc_node_setup x pl cfg u = Some (CC_SUCCESS,
         u\<lparr>n_id := n_id w, n_attributes := n_attributes w, n_proxy_uris := uri_items (map li_id (n_proxy_uris w))\<rparr>))"
proof -
  obtain w' where w': "cc_node_set_state x pl False w = Some w'"
      "stored w' = Some (enc mp (MMap (identity_v (n_id w) (n_attributes w) (map li_id (n_proxy_uris w)))))"
    using set_state_stores[OF assms(1-4)] by blast
  have "cc_node_setup x pl cfg u = Some (CC_SUCCESS,
         u\<lparr>n_id := n_id w, n_attributes := n_attributes w, n_proxy_uris := uri_items (map li_id (n_proxy_uris w))\<rparr>)"
    if "e_alloc u = []" "n_attributes u = None" "n_proxy_uris u = []" "stored u = stored w'" for u
    using get_state_identity[OF _ assms(2) that(1-3)] that(4) w'(2) stat[of u] assms(5) by (simp add: cc_node_setup_def)
  with w'(1) show ?thesis by blast
qed

end

definition x86_stored :: "os \<Rightarrow> world \<Rightarrow> bytes option" where
  "x86_stored os w = os_content os CC_STATE_FILE (w_fs w)"

interpretation x86: storage "x86_platform os" "x86_stored os" for os
  by unfold_locales (auto simp: x86_platform_def x86_stored_def x86_file_read_def content_stat write_content)

interpretation x86_example: node_storage "x86_platform os" "x86_stored os" mp_ref example_ext for os
  by unfold_locales (simp add: example_ext_def)

text \<open>The state file can be written: its directory is there, it is no directory itself, may be opened and has room for 500 bytes.\<close>

definition state_writable :: "os \<Rightarrow> world \<Rightarrow> bool" where
  "state_writable os w = (let d = fs_cwd (w_fs w) in fs_entries (w_fs w) d = Some Dir \<and> fs_entries (w_fs w) (d @ [CC_STATE_FILE]) \<noteq> Some Dir
     \<and> os_open os (d @ [CC_STATE_FILE]) \<and> 500 \<le> os_room os (d @ [CC_STATE_FILE]))"

lemma state_file_written:
  assumes "state_writable os w" "e_alloc w = []" "length b \<le> 500"
  shows "fst (x86_file_write os CC_STATE_FILE b w) = CC_SUCCESS"
  using file_write_way[of "[]" CC_STATE_FILE w "fs_cwd (w_fs w)" False os b] assms
  by (auto simp: state_writable_def way_free_def plain_name_def CC_STATE_FILE_def start_of_def dirs_path_def Let_def)

text \<open>
  C10: a node keeps its identity over a restart. When the state file can be written and the identifier, attributes
  and proxy addresses fit the buffer of 500 bytes, \<open>cc_node_set_state\<close> leaves a file system in which \<open>cc_node_setup\<close> of a
  node that was given neither attributes nor addresses restores exactly these three and nothing else.
\<close>

theorem node_identity_survives:
  assumes "msgpuck (x_mp x)" "e_alloc w = []" "identity_ok (n_id w) (n_attributes w) (map li_id (n_proxy_uris w))"
    "length (encode_identity (x_mp x) 3 w) \<le> 500" "state_writable os w" "cf_use_storage cfg"
  shows "\<exists>w'. cc_node_set_state x (x86_platform os) False w = Some w'
     \<and> (\<forall>u. e_alloc u = [] \<and> n_attributes u = None \<and> n_proxy_uris u = [] \<and> w_fs u = w_fs w' \<longrightarrow>
       cc_node_setup x (x86_platform os) cfg u = Some (CC_SUCCESS,
         u\<lparr>n_id := n_id w, n_attributes := n_attributes w, n_proxy_uris := uri_items (map li_id (n_proxy_uris w))\<rparr>))"
proof -
  have "node_storage (x86_platform os) (x86_stored os) (x_mp x) x"
    using assms(1) x86.storage_axioms by (simp add: node_storage_def node_storage_axioms_def)
  moreover have "fst (pl_file_write (x86_platform os) CC_STATE_FILE b w) = CC_SUCCESS" if "length b \<le> 500" for b
    using state_file_written[OF assms(5,2) that] by (simp add: x86_platform_def)
  ultimately show ?thesis using node_storage.identity_survives[of "x86_platform os" "x86_stored os" "x_mp x" x w cfg] assms(2-4,6)
    by (fastforce simp: x86_stored_def)
qed

text \<open>
  C34: a full disk costs the state. \<open>cc_node_set_state\<close> empties the file before it writes and does not look at the result: when there
  is no room for the new state, the function returns as usual, and of a complete older state in the file
  nothing is left but the beginning of the new one.
\<close>

theorem state_lost_when_full:
  assumes "e_alloc w = []" "x86_stored os w = Some old" "locate (w_fs w) CC_STATE_FILE = Some l"
    and b_def: "b = encode_identity (x_mp x) 3 w" and "length b \<le> 500" "os_room os l < length b"
  shows "\<exists>w'. cc_node_set_state x (x86_platform os) False w = Some w' \<and> x86_stored os w' = Some (take (os_room os l) b)
     \<and> take (os_room os l) b \<noteq> b"
proof -
  have "length (take (os_room os l) b) \<noteq> length b" using assms(6) by simp
  then have "take (os_room os l) b \<noteq> b" by metis
  with content_after_write[OF assms(2)[unfolded x86_stored_def] assms(3,1), of b] assms(1,5) show ?thesis
    by (simp add: cc_node_set_state_def x86_platform_def x86_stored_def b_def)
qed


definition example_boot :: world where
  "example_boot = example_world\<lparr>n_id := []\<rparr>"

definition example_named_node :: world where
  "example_named_node = example_world\<lparr>n_attributes := Some ''{}'', n_proxy_uris := uri_items [''calvinip://10.0.0.1:5000'']\<rparr>"

definition example_config :: cc_config where
  "example_config = \<lparr>cf_use_storage = True, cf_use_checkpointing = False, cf_use_sleep = False, cf_inactivity_timeout = 2, cf_sleep_time = 60\<rparr>"

theorem node_identity_survives_witness:
  "\<exists>w'. cc_node_set_state example_ext (x86_platform (free_os 1000)) False example_named_node = Some w'
     \<and> cc_node_setup example_ext (x86_platform (free_os 1000)) example_config (example_boot\<lparr>w_fs := w_fs w'\<rparr>)
     = Some (CC_SUCCESS, example_boot\<lparr>w_fs := w_fs w', n_id := ''rt1'', n_attributes := Some ''{}'',
         n_proxy_uris := uri_items [''calvinip://10.0.0.1:5000'']\<rparr>)"
proof -
  let ?w = example_named_node
  have w: "e_alloc ?w = []" "n_id ?w = ''rt1''" "n_attributes ?w = Some ''{}''" "map li_id (n_proxy_uris ?w) = [''calvinip://10.0.0.1:5000'']"
    by (simp_all add: example_named_node_def example_world_def uri_items_def)
  have i: "identity_ok (n_id ?w) (n_attributes ?w) (map li_id (n_proxy_uris ?w))"
    unfolding w by (simp add: identity_ok_def CC_UUID_BUFFER_SIZE_def CC_MAX_ATTRIBUTES_LEN_def CC_MAX_URI_LEN_def)
  have "length (encode_identity mp_ref 3 ?w) \<le> 500"
    unfolding ref.encode_identity_enc[OF i] w by (simp add: identity_v_def attributes_v_def mp_ref_def enc_num_def)
  moreover have "state_writable (free_os 1000) ?w"
    by (simp add: state_writable_def example_named_node_def example_world_def free_os_def CC_STATE_FILE_def)
  ultimately show ?thesis using node_identity_survives[of example_ext ?w "free_os 1000" example_config] ref.msgpuck_axioms w i
    by (auto simp: example_ext_def example_config_def example_boot_def example_world_def)
qed

definition example_full :: world where
  "example_full = example_world\<lparr>w_fs := \<lparr>fs_entries = [[] \<mapsto> Dir, [CC_STATE_FILE] \<mapsto> File ''old''], fs_cwd = []\<rparr>\<rparr>"

theorem state_lost_when_full_witness:
  "\<exists>w'. cc_node_set_state example_ext (x86_platform (free_os 2)) False example_full = Some w'
     \<and> x86_stored (free_os 2) example_full = Some ''old''
     \<and> x86_stored (free_os 2) w' = Some (take 2 (encode_identity mp_ref 3 example_full)) \<and> take 2 (encode_identity mp_ref 3 example_full) \<noteq> encode_identity mp_ref 3 example_full"
proof -
  let ?w = example_full
  have i: "identity_ok (n_id ?w) (n_attributes ?w) (map li_id (n_proxy_uris ?w))"
    by (simp add: example_full_def example_world_def identity_ok_def CC_UUID_BUFFER_SIZE_def CC_MAX_ATTRIBUTES_LEN_def)
  have l: "length (encode_identity mp_ref 3 ?w) \<le> 500" "2 < length (encode_identity mp_ref 3 ?w)"
    unfolding ref.encode_identity_enc[OF i] by (simp_all add: example_full_def example_world_def identity_v_def attributes_v_def mp_ref_def enc_num_def)
  have s: "x86_stored (free_os 2) ?w = Some ''old''" "locate (w_fs ?w) CC_STATE_FILE = Some [CC_STATE_FILE]"
    by (simp_all add: x86_stored_def content_iff locate_def absolute_def example_full_def CC_STATE_FILE_def free_os_def)
  show ?thesis using state_lost_when_full[OF _ s refl, of example_ext] l s(1)
    by (simp add: example_ext_def free_os_def example_full_def example_world_def)
qed


end
