(* ===== verification/App_Manager.thy ===== *)
theory App_Manager
  imports Node_State
begin

text \<open>
  Loading an application from a script, \<open>src/runtime/north/cc_app_manager.c\<close>: the actors, their arguments and
  ports, and the connections between them. As everywhere the outer \<open>None\<close> is a fault; several failures of a script
  end in one, because the code goes on with a null pointer.
\<close>

section \<open>Connections\<close>

text \<open>\<open>strchr(s, '.') - s\<close>; without a dot before the terminator the difference is taken from a null pointer.\<close>

definition delimiter :: "bytes \<Rightarrow> nat option" where
  "delimiter s = (let k = length (takeWhile (\<lambda>c. c \<noteq> CHR ''.'' \<and> c \<noteq> NUL) s)
     in if k < length s \<and> s ! k = CHR ''.'' then Some k else None)"

fun port_connections_loop :: "mp \<Rightarrow> addr \<Rightarrow> bytes \<Rightarrow> nat list \<Rightarrow> world \<Rightarrow> (cc_result \<times> world) option" where
  "port_connections_loop mp p obj_connections [] w = Some (CC_SUCCESS, w)"
| "port_connections_loop mp p obj_connections (i # is) w =
     must (cc_coder_decode_string_from_array mp obj_connections (of_nat i)) (Some (CC_FAIL, w)) (\<lambda>(connection_name, connection_name_len). do {
     n \<leftarrow> delimiter connection_name;
     must (cc_actor_get_from_name connection_name (of_nat n) w) (Some (CC_FAIL, w)) (\<lambda>dest_actor.
     must (cc_port_get_from_name dest_actor (drop (n + 1) connection_name) (unat (connection_name_len - (of_nat n + 1)))
             CC_PORT_DIRECTION_IN w) (Some (CC_FAIL, w)) (\<lambda>d. do {
     dest_port \<leftarrow> h_ports w d;
     w \<leftarrow> upd_port p (\<lambda>port. port\<lparr>p_peer_port_id := cstr (take CC_UUID_BUFFER_SIZE (p_id dest_port))\<rparr>) w;
     (r, w) \<leftarrow> cc_port_connect_local mp p w;
     if r = CC_SUCCESS then port_connections_loop mp p obj_connections is w else Some (CC_FAIL, w) })) })"

definition cc_app_manager_setup_port_connections :: "mp \<Rightarrow> addr \<Rightarrow> bytes \<Rightarrow> world \<Rightarrow> (cc_result \<times> world) option" where
  "cc_app_manager_setup_port_connections mp p obj_connections w = do {
     connection_count \<leftarrow> cc_coder_get_size_of_array mp obj_connections;
     port_connections_loop mp p obj_connections [0..<unat connection_count] w }"

section \<open>Ports\<close>

text \<open>A port without a queue is added to the list all the same and freed afterwards, which reads the queue.\<close>

definition app_new_port :: "mp \<Rightarrow> addr \<Rightarrow> bytes \<times> u32 \<Rightarrow> bytes \<times> u32 \<Rightarrow> world \<Rightarrow> (cc_result \<times> world) option" where
  "app_new_port mp a name direction w = (case mem_alloc w of
     (False, w) \<Rightarrow> Some (CC_FAIL, w)
   | (True, w) \<Rightarrow> (case cc_gen_uuid (Some ''PORT_'') w of (i, w) \<Rightarrow> do {
       let p = h_next w;
       s_name \<leftarrow> strncpy_term CC_MAX_PORT_NAME_LENGTH (fst name) (unat (snd name));
       let dir = (if snd direction = 3 \<and> strncmp0 (fst direction) ''out'' 3 then CC_PORT_DIRECTION_OUT else CC_PORT_DIRECTION_IN);
       let (fifo, w) = cc_fifo_init_empty w;
       let port = \<lparr>p_id = i, p_name = s_name, p_peer_port_id = [], p_peer_id = [], p_direction = dir, p_peer_port = None,
             p_tunnel = None, p_state = CC_PORT_DISCONNECTED, p_fifo = fifo, p_retries = 0, p_actor = a\<rparr>;
       (ok, w) \<leftarrow> actor_add_port a p dir (w\<lparr>h_next := p + 1, h_ports := (h_ports w)(p \<mapsto> port)\<rparr>);
       if fifo \<noteq> None \<and> ok then Some (CC_SUCCESS, w)
       else do { w \<leftarrow> cc_port_free mp p False w; Some (CC_FAIL, w) } }))"

fun app_ports_loop :: "mp \<Rightarrow> addr \<Rightarrow> bytes \<Rightarrow> nat list \<Rightarrow> world \<Rightarrow> (cc_result \<times> world) option" where
  "app_ports_loop mp a obj_portproperties [] w = Some (CC_SUCCESS, w)"
| "app_ports_loop mp a obj_portproperties (i # is) w =
     must (cc_coder_get_value_from_array mp obj_portproperties (of_nat i)) (Some (CC_FAIL, w)) (\<lambda>obj_port.
     must (cc_coder_decode_string_from_map mp obj_port ''port'') (Some (CC_FAIL, w)) (\<lambda>name.
     must (cc_coder_decode_string_from_map mp obj_port ''direction'') (Some (CC_FAIL, w)) (\<lambda>direction.
     must (cc_coder_get_value_from_map mp obj_port ''properties'') (Some (CC_FAIL, w)) (\<lambda>obj_properties.
     must (cc_coder_decode_uint_from_map mp obj_properties ''nbr_peers'') (Some (CC_FAIL, w)) (\<lambda>nbr_peers.
     and_then (app_new_port mp a name direction w) (app_ports_loop mp a obj_portproperties is))))))"

definition cc_app_manager_create_ports :: "mp \<Rightarrow> addr \<Rightarrow> bytes \<Rightarrow> world \<Rightarrow> (cc_result \<times> world) option" where
  "cc_app_manager_create_ports mp a obj_portproperties w = do {
     port_count \<leftarrow> cc_coder_get_size_of_array mp obj_portproperties;
     app_ports_loop mp a obj_portproperties [0..<unat port_count] w }"

section \<open>Actors\<close>

definition cc_app_manager_add_actor_args :: "mp \<Rightarrow> addr \<Rightarrow> bytes \<Rightarrow> world \<Rightarrow> (cc_result \<times> world) option" where
  "cc_app_manager_add_actor_args mp a obj_arg w =
     must (cc_coder_decode_str mp obj_arg) (Some (CC_FAIL, w)) (\<lambda>(name, name_len). do {
     obj_arg \<leftarrow> cc_coder_decode_map_next mp obj_arg;
     n \<leftarrow> cc_coder_get_size_of_value mp obj_arg;
     case mem_alloc w of
       (False, w) \<Rightarrow> Some (CC_FAIL, w)
     | (True, w) \<Rightarrow> do {
         actor \<leftarrow> h_actors w a;
         case cc_list_add_n (a_managed_attributes actor) name (unat name_len) (take n obj_arg) n w of (r, l, w) \<Rightarrow> do {
         w \<leftarrow> upd_actor a (\<lambda>actor. actor\<lparr>a_managed_attributes := l\<rparr>) w;
         Some (if r = None then CC_FAIL else CC_SUCCESS, w) } } })"

fun app_args_loop :: "mp \<Rightarrow> addr \<Rightarrow> nat \<Rightarrow> bytes \<Rightarrow> world \<Rightarrow> (cc_result \<times> world) option" where
  "app_args_loop mp a 0 args w = Some (CC_SUCCESS, w)"
| "app_args_loop mp a (Suc n) args w = and_then (cc_app_manager_add_actor_args mp a args w) (\<lambda>w. do {
     args \<leftarrow> cc_coder_decode_map_next mp args;
     args \<leftarrow> cc_coder_decode_map_next mp args;
     app_args_loop mp a n args w })"

text \<open>
  When the name, the type or the arguments cannot be read, the type is not known or there is no memory for the name, the
  code fills the identifier of an actor or at an address that is null. Only the later failures are reported; then the actor is
  freed and stays in the list of the node.
\<close>

definition cc_app_manager_create_actor :: "ext \<Rightarrow> bytes \<Rightarrow> world \<Rightarrow> (addr option \<times> world) option" where
  "cc_app_manager_create_actor x obj_actor w =
     must (cc_coder_decode_str (x_mp x) obj_actor) None (\<lambda>(actor_name, actor_name_len). do {
     obj_actor \<leftarrow> cc_coder_decode_map_next (x_mp x) obj_actor;
     must (cc_coder_decode_string_from_map (x_mp x) obj_actor ''actor_type'') None (\<lambda>(actor_type, actor_type_len).
     must (cc_coder_get_value_from_map (x_mp x) obj_actor ''args'') None (\<lambda>args. do {
     _ \<leftarrow> cc_coder_decode_map_next (x_mp x) obj_actor;
     case cc_actor_create_from_type actor_type actor_type_len w of
       (None, w) \<Rightarrow> None
     | (Some a, w) \<Rightarrow> (case mem_alloc w of (False, w) \<Rightarrow> None | (True, w) \<Rightarrow> do {
         w \<leftarrow> upd_actor a (\<lambda>actor. actor\<lparr>a_name := Some (cstr (take (unat actor_name_len) actor_name))\<rparr>) w;
         (r, w) \<leftarrow> (case mem_alloc w of
             (False, w) \<Rightarrow> Some (CC_FAIL, w)
           | (True, w) \<Rightarrow> (case cc_gen_uuid (Some ''ACTOR_'') w of (i, w) \<Rightarrow> do {
               w \<leftarrow> upd_actor a (\<lambda>actor. actor\<lparr>a_id := Some i\<rparr>) w;
               case cc_list_add (n_actors w) i a 0 w of (it, l, w) \<Rightarrow>
                 Some (if it = None then CC_FAIL else CC_SUCCESS, w\<lparr>n_actors := l\<rparr>) }));
         (args_count, args) \<leftarrow> cc_coder_decode_map (x_mp x) args;
         (r, w) \<leftarrow> (if r = CC_SUCCESS then app_args_loop (x_mp x) a (unat args_count) args w else Some (CC_FAIL, w));
         Some (if r = CC_SUCCESS then (Some a, w) else (None, w\<lparr>h_actors := (h_actors w)(a := None)\<rparr>)) }) })) })"

section \<open>Scripts\<close>

text \<open>The ports of a new actor and its initialisation; the arguments are freed in every case, and their list is not read again.\<close>

definition app_init_actor :: "ext \<Rightarrow> bytes \<Rightarrow> addr \<Rightarrow> world \<Rightarrow> (cc_result \<times> world) option" where
  "app_init_actor x obj_port_properties a w = do {
     actor \<leftarrow> h_actors w a;
     name \<leftarrow> a_name actor;
     (r, w) \<leftarrow> must (cc_coder_get_value_from_map (x_mp x) obj_port_properties name) (Some (CC_FAIL, w)) (\<lambda>obj_port_property.
       and_then (cc_app_manager_create_ports (x_mp x) a obj_port_property w) (\<lambda>w. do {
         ops \<leftarrow> actor_fns x a w;
         actor \<leftarrow> h_actors w a;
         ac_init ops a (a_managed_attributes actor) w }));
     w \<leftarrow> upd_actor a (\<lambda>actor. actor\<lparr>a_managed_attributes := []\<rparr>) w;
     Some (r, w) }"

fun app_actors_loop :: "ext \<Rightarrow> bytes \<Rightarrow> nat \<Rightarrow> bytes \<Rightarrow> world \<Rightarrow> (cc_result \<times> world) option" where
  "app_actors_loop x obj_port_properties 0 obj_actors w = Some (CC_SUCCESS, w)"
| "app_actors_loop x obj_port_properties (Suc n) obj_actors w = do {
     (p, w) \<leftarrow> cc_app_manager_create_actor x obj_actors w;
     case p of
       None \<Rightarrow> Some (CC_FAIL, w)
     | Some a \<Rightarrow> do {
         (r, w) \<leftarrow> app_init_actor x obj_port_properties a w;
         obj_actors \<leftarrow> cc_coder_decode_map_next (x_mp x) obj_actors;
         obj_actors \<leftarrow> cc_coder_decode_map_next (x_mp x) obj_actors;
         if r = CC_SUCCESS then app_actors_loop x obj_port_properties n obj_actors w else Some (r, w) } }"

text \<open>
  The full name of a port goes into a buffer of 100 bytes. The result of the last port that has connections is the
  result of the whole.
\<close>

fun app_connect_ports :: "mp \<Rightarrow> bytes \<Rightarrow> bytes \<Rightarrow> addr cc_list \<Rightarrow> cc_result \<Rightarrow> world \<Rightarrow> (cc_result \<times> world) option" where
  "app_connect_ports mp obj_connections actor_name [] result w = Some (result, w)"
| "app_connect_ports mp obj_connections actor_name (item # ports) result w = do {
     port \<leftarrow> h_ports w (li_data item);
     let port_fullname = actor_name @ ''.'' @ p_name port;
     if 100 \<le> length port_fullname then None
     else do {
       v \<leftarrow> cc_coder_get_value_from_map mp obj_connections port_fullname;
       (result, w) \<leftarrow> (case v of None \<Rightarrow> Some (result, w)
         | Some obj_port_connections \<Rightarrow> cc_app_manager_setup_port_connections mp (li_data item) obj_port_connections w);
       app_connect_ports mp obj_connections actor_name ports result w } }"

fun app_connect_actors :: "mp \<Rightarrow> bytes \<Rightarrow> addr cc_list \<Rightarrow> cc_result \<Rightarrow> world \<Rightarrow> (cc_result \<times> world) option" where
  "app_connect_actors mp obj_connections [] result w = Some (result, w)"
| "app_connect_actors mp obj_connections (item # actors) result w = do {
     actor \<leftarrow> h_actors w (li_data item);
     (result, w) \<leftarrow> (case a_out_ports actor of [] \<Rightarrow> Some (result, w)
       | ports \<Rightarrow> do { name \<leftarrow> a_name actor; app_connect_ports mp obj_connections name ports result w });
     app_connect_actors mp obj_connections actors result w }"

text \<open>
  A script that is not valid, or that has no name or no actors, is read through a null pointer. An empty file is reported as
  a success.
\<close>

definition cc_app_manager_load_script :: "ext \<Rightarrow> cc_platform \<Rightarrow> bytes \<Rightarrow> world \<Rightarrow> (cc_result \<times> world) option" where
  "cc_app_manager_load_script x pl script w = (case pl_file_read pl script w of
     (None, w) \<Rightarrow> Some (CC_FAIL, w)
   | (Some buffer, w) \<Rightarrow>
       if buffer = [] then Some (CC_SUCCESS, w)
       else
         must (cc_coder_decode_string_from_map (x_mp x) buffer ''name'') None (\<lambda>script_name.
         must (cc_coder_decode_bool_from_map (x_mp x) buffer ''valid'') None (\<lambda>valid.
         if \<not> valid then None
         else must (cc_coder_get_value_from_map (x_mp x) buffer ''actors'') None (\<lambda>obj_actors. do {
           port_properties \<leftarrow> cc_coder_get_value_from_map (x_mp x) buffer ''port_properties'';
           connections \<leftarrow> (case port_properties of None \<Rightarrow> Some None
             | Some _ \<Rightarrow> cc_coder_get_value_from_map (x_mp x) buffer ''connections'');
           (actor_count, obj_actors) \<leftarrow> cc_coder_decode_map (x_mp x) obj_actors;
           case (port_properties, connections) of
             (Some obj_port_properties, Some obj_connections) \<Rightarrow>
               and_then (app_actors_loop x obj_port_properties (unat actor_count) obj_actors w) (\<lambda>w.
                 app_connect_actors (x_mp x) obj_connections (n_actors w) CC_SUCCESS w)
           | _ \<Rightarrow> Some (CC_FAIL, w) }))))"

end
