(* ===== verification/App_Load.thy ===== *)
theory App_Load
  imports App_Manager Actor_Migration
begin

text \<open>
  What the application manager makes of a script: its arguments are read like the attributes of a migrated actor, and the actor it
  creates is the one the script describes. The theorems rest on the reading of attributes in \<open>Actor_Migration\<close>.
\<close>

section \<open>Arguments\<close>

abbreviation arg_map :: "(bytes \<times> mpv) list \<Rightarrow> mpv" where
  "arg_map kvs \<equiv> MMap (map (\<lambda>(k, v). (MStr k, v)) kvs)"

definition arg_bytes :: "mp \<Rightarrow> (bytes \<times> mpv) list \<Rightarrow> bytes" where
  "arg_bytes mp kvs = concat (map (\<lambda>(k, v). enc mp (MStr k) @ enc mp v) kvs)"

lemma arg_bytes_simps:
  "arg_bytes mp [] = []" "arg_bytes mp ((k, v) # kvs) = enc mp (MStr k) @ enc mp v @ arg_bytes mp kvs"
  by (simp_all add: arg_bytes_def)

lemma decode_arg_map:
  assumes "msgpuck mp" "attr_pairs kvs"
  shows "cc_coder_decode_map mp (enc mp (arg_map kvs) @ rest) = Some (of_nat (length kvs), arg_bytes mp kvs @ rest)"
proof -
  have "length kvs < 2 ^ 32" using assms(2) by (simp add: attr_pairs_def)
  moreover have "enc mp (arg_map kvs) = mp_encode_map mp (of_nat (length kvs)) @ arg_bytes mp kvs"
    by (simp add: arg_bytes_def o_def split_def)
  ultimately show ?thesis using msgpuck.map_enc[OF assms(1)] by (simp add: cc_coder_decode_map_def)
qed

lemma add_arg_ok:
  assumes "msgpuck mp" "attr_key k" "wf_mpv v" "e_alloc w = []" "h_actors w a = Some y"
  shows "cc_app_manager_add_actor_args mp a (enc mp (MStr k) @ enc mp v @ rest) w
     = Some (CC_SUCCESS, w\<lparr>h_actors := (h_actors w)(a \<mapsto> y\<lparr>a_managed_attributes := a_managed_attributes y @ received mp [(k, v)]\<rparr>)\<rparr>)"
proof -
  have len: "length k < 2 ^ 32" "no_nul k" using attr_keyD[OF assms(2)] by auto
  have d: "cc_coder_decode_str mp (enc mp (MStr k) @ enc mp v @ rest) = Some (Some (k @ enc mp v @ rest, of_nat (length k)))"
    by (rule msgpuck.decode_str_enc[OF assms(1) len(1)])
  have n: "cc_coder_decode_map_next mp (enc mp (MStr k) @ enc mp v @ rest) = Some (enc mp v @ rest)"
    using msgpuck.next_enc[OF assms(1), of "MStr k"] len(1) by (simp add: cc_coder_decode_map_next_def del: enc.simps)
  have z: "cc_coder_get_size_of_value mp (enc mp v @ rest) = Some (length (enc mp v))"
    using msgpuck.next_enc[OF assms(1,3)] by (simp add: cc_coder_get_size_of_value_def)
  show ?thesis using d n z len assms(4,5)
    by (simp add: cc_app_manager_add_actor_args_def cc_list_add_n_def cc__list_add_def Let_def received_def upd_actor_def
        del: enc.simps bind_Some_iff)
qed

lemma app_args_ok:
  assumes "msgpuck mp"
  shows "attr_pairs kvs \<Longrightarrow> e_alloc w = [] \<Longrightarrow> h_actors w a = Some y \<Longrightarrow>
     app_args_loop mp a (length kvs) (arg_bytes mp kvs @ rest) w
     = Some (CC_SUCCESS, w\<lparr>h_actors := (h_actors w)(a \<mapsto> y\<lparr>a_managed_attributes := a_managed_attributes y @ received mp kvs\<rparr>)\<rparr>)"
proof (induction kvs arbitrary: w y)
  case Nil
  then show ?case by (cases w, cases y) (auto simp: received_def)
next
  case (Cons kv kvs)
  obtain k v where kv: "kv = (k, v)" by (cases kv)
  have k: "attr_key k" "wf_mpv v" "attr_pairs kvs" using Cons.prems kv by (auto simp: attr_pairs_def)
  let ?r = "arg_bytes mp kvs @ rest" and ?y = "y\<lparr>a_managed_attributes := a_managed_attributes y @ received mp [(k, v)]\<rparr>"
  have len: "length k < 2 ^ 32" using attr_keyD[OF k(1)] by auto
  have n: "cc_coder_decode_map_next mp (enc mp (MStr k) @ enc mp v @ ?r) = Some (enc mp v @ ?r)"
      "cc_coder_decode_map_next mp (enc mp v @ ?r) = Some ?r"
    using msgpuck.next_enc[OF assms, of "MStr k"] msgpuck.next_enc[OF assms k(2)] len
    by (simp_all add: cc_coder_decode_map_next_def del: enc.simps)
  have r: "?y\<lparr>a_managed_attributes := a_managed_attributes ?y @ received mp kvs\<rparr>
      = y\<lparr>a_managed_attributes := a_managed_attributes y @ received mp (kv # kvs)\<rparr>"
    using kv by (simp add: received_def)
  have "app_args_loop mp a (length kvs) ?r (w\<lparr>h_actors := (h_actors w)(a \<mapsto> ?y)\<rparr>)
      = Some (CC_SUCCESS, w\<lparr>h_actors := (h_actors w)(a \<mapsto> y\<lparr>a_managed_attributes := a_managed_attributes y @ received mp (kv # kvs)\<rparr>)\<rparr>)"
    using Cons.IH[OF k(3), of "w\<lparr>h_actors := (h_actors w)(a \<mapsto> ?y)\<rparr>" ?y, unfolded r] Cons.prems(2)
    by (simp add: fun_upd_def cong: if_cong)
  then show ?case using add_arg_ok[OF assms k(1,2) Cons.prems(2,3), of ?r] n kv
    by (simp add: arg_bytes_simps and_then_def fun_upd_def del: enc.simps bind_Some_iff)
qed

text \<open>
  C13: the arguments of a script and the attributes of a message are read alike. For the same map of plain keys, the loop of
  \<open>cc_app_manager_create_actor\<close> leaves in the actor the very list that \<open>cc_actor_get_attributes\<close> makes of the map when an
  actor arrives from another runtime, and nothing else changes: the callbacks of a type need not tell the two apart.
\<close>

theorem script_arguments_equivalent:
  assumes "msgpuck mp" "attr_pairs kvs" "e_alloc w = []" "h_actors w a = Some y" "a_managed_attributes y = []"
  shows "do { (args_count, args) \<leftarrow> cc_coder_decode_map mp (enc mp (arg_map kvs) @ rest); app_args_loop mp a (unat args_count) args w }
     = do { (r, attributes, w) \<leftarrow> cc_actor_get_attributes mp a (enc mp (arg_map kvs) @ rest) [] False w;
            w \<leftarrow> upd_actor a (\<lambda>actor. actor\<lparr>a_managed_attributes := attributes\<rparr>) w; Some (r, w) }
     \<and> (\<exists>attributes. cc_actor_get_attributes mp a (enc mp (arg_map kvs) @ rest) [] False w = Some (CC_SUCCESS, attributes, w))"
proof -
  have n: "unat (of_nat (length kvs) :: u32) = length kvs" using assms(2) by (simp add: attr_pairs_def unat_of_nat)
  have g: "cc_actor_get_attributes mp a (enc mp (arg_map kvs) @ rest) [] False w = Some (CC_SUCCESS, received mp kvs, w)"
    using attrs_loop[OF assms(1-3), of a rest "[]"] decode_arg_map[OF assms(1,2), of rest] n
    by (simp add: cc_actor_get_attributes_def arg_bytes_def del: enc.simps bind_Some_iff)
  then show ?thesis using app_args_ok[OF assms(1-4), of rest] assms(4,5) n decode_arg_map[OF assms(1,2), of rest]
    by (simp add: upd_actor_def del: enc.simps bind_Some_iff)
qed

section \<open>Actors of a script\<close>

text \<open>The actor a script describes: its type and its name as given, a new identifier, the arguments, and nothing else.\<close>

definition script_actor :: "mp \<Rightarrow> bytes \<Rightarrow> bytes \<Rightarrow> bytes \<Rightarrow> cc_actor_type \<Rightarrow> (bytes \<times> mpv) list \<Rightarrow> cc_actor" where
  "script_actor mp name ty i t kvs = \<lparr>a_type = Some ty, a_id = Some i, a_name = Some name,
     a_state_was = CC_STATE_WAS_ACTOR, a_migrate_to = [], a_state = CC_ACTOR_PENDING,
     a_instance = None, a_in_ports = [], a_out_ports = [], a_private_attributes = [],
     a_managed_attributes = received mp kvs, a_impl = Some (ty_impl t), a_requires = ty_requires t\<rparr>"

lemma script_actor_made:
  assumes mp: "msgpuck (x_mp x)" and a: "attr_pairs kvs" "e_alloc w = []"
    and n: "no_nul name" "length name < 2 ^ 32" and t: "no_nul ty" "length ty < 2 ^ 32"
    and m: "wf_mpv (MMap m)" "key_clear ''actor_type'' m" "key_clear ''args'' m"
      "map_of m (MStr ''actor_type'') = Some (MStr ty)" "map_of m (MStr ''args'') = Some (arg_map kvs)"
    and it: "cc_list_get_n (n_actor_types w) ty (length ty) = Some item"
  shows "\<exists>i w'. cc_app_manager_create_actor x (enc (x_mp x) (MStr name) @ enc (x_mp x) (MMap m) @ rest) w = Some (Some (h_next w), w')
     \<and> h_actors w' = (h_actors w)(h_next w \<mapsto> script_actor (x_mp x) name ty i (li_data item) kvs) \<and> key_of 42 i
     \<and> n_actors w' = n_actors w @ [\<lparr>li_id = i, li_id_len = 42, li_data = h_next w, li_data_len = 0, li_free_id = False\<rparr>]"
proof -
  let ?mp = "x_mp x" and ?b = "enc (x_mp x) (MMap m) @ rest"
  obtain r1 where ty: "cc_coder_decode_string_from_map ?mp ?b ''actor_type'' = Some (Some (ty @ r1, of_nat (length ty)))"
    using msgpuck.string_from_map_enc[OF mp m(1,2) _ _ m(4), of rest] by auto
  obtain r2 where args: "cc_coder_get_value_from_map ?mp ?b ''args'' = Some (Some (enc ?mp (arg_map kvs) @ r2))"
    using msgpuck.map_lookups(3)[OF mp m(1,3), of rest] m(5) by (auto simp: finds_def points_to_def simp del: enc.simps)
  have nm: "cc_coder_decode_str ?mp (enc ?mp (MStr name) @ ?b) = Some (Some (name @ ?b, of_nat (length name)))"
    by (rule msgpuck.decode_str_enc[OF mp n(2)])
  have nx: "cc_coder_decode_map_next ?mp (enc ?mp (MStr name) @ ?b) = Some ?b" "cc_coder_decode_map_next ?mp ?b = Some rest"
    using msgpuck.next_enc[OF mp, of "MStr name" ?b] msgpuck.next_enc[OF mp m(1), of rest] n(2)
    by (simp_all add: cc_coder_decode_map_next_def del: enc.simps)
  have len: "unat (of_nat (length ty) :: u32) = length ty" "unat (of_nat (length name) :: u32) = length name"
      "unat (of_nat (length kvs) :: u32) = length kvs"
    using t(2) n(2) a(1) by (simp_all add: attr_pairs_def unat_of_nat)
  define y0 where "y0 = (script_actor ?mp name ty [] (li_data item) kvs)\<lparr>a_id := None, a_name := None, a_managed_attributes := []\<rparr>"
  let ?a = "h_next w" and ?y = "\<lambda>i. y0\<lparr>a_name := Some name, a_id := Some i\<rparr>"
  define v where "v = w\<lparr>h_next := Suc ?a, h_actors := (h_actors w)(?a \<mapsto> y0\<lparr>a_name := Some name\<rparr>)\<rparr>"
  obtain i w1 where g: "cc_gen_uuid (Some ''ACTOR_'') v = (i, w1)" by (cases "cc_gen_uuid (Some ''ACTOR_'') v")
  have i: "key_of 42 i" using gen_uuid_shape[of "''ACTOR_''" v] g by (auto simp: strlen_def cstr_def)
  note f = node_eqD[OF conjunct1[OF gen_uuid_more[OF g]]]
  let ?l = "n_actors w @ [\<lparr>li_id = i, li_id_len = 42, li_data = ?a, li_data_len = 0, li_free_id = False\<rparr>]"
  have e: "e_alloc w1 = []" "h_actors w1 ?a = Some (y0\<lparr>a_name := Some name\<rparr>)" "n_actors w1 = n_actors w"
    using gen_uuid_quiet[OF g] a(2) f by (simp_all add: v_def)
  define w2 where "w2 = w1\<lparr>h_actors := (h_actors w1)(?a \<mapsto> ?y i), n_actors := ?l\<rparr>"
  have m0: "a_managed_attributes y0 = []" by (simp add: y0_def)
  have loop: "app_args_loop ?mp ?a (length kvs) (arg_bytes ?mp kvs @ r2) w2 = Some (CC_SUCCESS,
      w2\<lparr>h_actors := (h_actors w2)(?a \<mapsto> (?y i)\<lparr>a_managed_attributes := received ?mp kvs\<rparr>)\<rparr>)"
    using app_args_ok[OF mp a(1), of w2 ?a "?y i" r2] e(1) m0 by (simp add: w2_def)
  have made: "cc_actor_create_from_type (ty @ r1) (of_nat (length ty)) w = (Some ?a, w\<lparr>h_next := Suc ?a, h_actors := (h_actors w)(?a \<mapsto> y0)\<rparr>)"
    using it len t a(2) cc_list_get_n_append_left[OF t(1) refl, of "n_actor_types w" r1]
    by (simp add: cc_actor_create_from_type_def script_actor_def y0_def Let_def)
  have "cc_app_manager_create_actor x (enc ?mp (MStr name) @ ?b) w = Some (Some ?a,
      w2\<lparr>h_actors := (h_actors w2)(?a \<mapsto> (?y i)\<lparr>a_managed_attributes := received ?mp kvs\<rparr>)\<rparr>)"
    using loop made nm nx ty args len(2,3) g i e a(2) n(1) decode_arg_map[OF mp a(1), of r2]
    by (simp add: cc_app_manager_create_actor_def upd_actor_def v_def[symmetric] cc_list_add_def cc__list_add_def w2_def[symmetric] Let_def
        del: enc.simps bind_Some_iff)
  moreover have "h_actors (w2\<lparr>h_actors := (h_actors w2)(?a \<mapsto> (?y i)\<lparr>a_managed_attributes := received ?mp kvs\<rparr>)\<rparr>)
      = (h_actors w)(?a \<mapsto> script_actor ?mp name ty i (li_data item) kvs)"
    using f by (simp add: w2_def v_def y0_def script_actor_def fun_upd_def cong: if_cong)
  ultimately show ?thesis using i by (auto simp: w2_def)
qed

text \<open>
  C14: an actor made from a script. For a type the node knows and a map of plain arguments,
  \<open>cc_app_manager_create_actor\<close> succeeds, adds the actor to the node under a new identifier with the arguments as managed attributes,
  and leaves the other actors alone. But it gives the actor no private attributes, and \<open>cc_actor_serialize\<close>
  takes an actor without any for an error: the actor cannot be migrated or stored, although the callers of
  \<open>cc_actor_serialize\<close> go on with its null pointer.
\<close>

theorem script_actor_created:
  assumes "msgpuck (x_mp x)" "attr_pairs kvs" "e_alloc w = []" "no_nul name" "length name < 2 ^ 32" "no_nul ty" "length ty < 2 ^ 32"
    and m: "wf_mpv (MMap m)" "key_clear ''actor_type'' m" "key_clear ''args'' m"
      "map_of m (MStr ''actor_type'') = Some (MStr ty)" "map_of m (MStr ''args'') = Some (arg_map kvs)"
    and "cc_list_get_n (n_actor_types w) ty (length ty) = Some item"
  shows "\<exists>i w'. cc_app_manager_create_actor x (enc (x_mp x) (MStr name) @ enc (x_mp x) (MMap m) @ rest) w = Some (Some (h_next w), w')
     \<and> h_actors w' = (h_actors w)(h_next w \<mapsto> script_actor (x_mp x) name ty i (li_data item) kvs) \<and> key_of 42 i
     \<and> n_actors w' = n_actors w @ [\<lparr>li_id = i, li_id_len = 42, li_data = h_next w, li_data_len = 0, li_free_id = False\<rparr>]
     \<and> cc_actor_serialize x (h_next w) buffer include_state w' = Some (None, w')"
proof -
  obtain i w' where w': "cc_app_manager_create_actor x (enc (x_mp x) (MStr name) @ enc (x_mp x) (MMap m) @ rest) w = Some (Some (h_next w), w')"
      "h_actors w' = (h_actors w)(h_next w \<mapsto> script_actor (x_mp x) name ty i (li_data item) kvs)" "key_of 42 i"
      "n_actors w' = n_actors w @ [\<lparr>li_id = i, li_id_len = 42, li_data = h_next w, li_data_len = 0, li_free_id = False\<rparr>]"
    using script_actor_made[OF assms, of rest] by auto
  have "cc_actor_serialize x (h_next w) buffer include_state w' = Some (None, w')"
    using w'(2) by (simp add: cc_actor_serialize_def script_actor_def)
  then show ?thesis using w' by auto
qed

definition example_types :: world where
  "example_types = example_world\<lparr>n_actor_types := [\<lparr>li_id = ''std.Identity'', li_id_len = 12, li_data = \<lparr>ty_impl = ''std.Identity'', ty_requires = None\<rparr>,
     li_data_len = 0, li_free_id = True\<rparr>], h_actors := [0 \<mapsto> script_actor mp_ref ''a'' ''std.Identity'' ''A'' \<lparr>ty_impl = ''std.Identity'', ty_requires = None\<rparr> []]\<rparr>"

abbreviation example_args :: "(bytes \<times> mpv) list" where
  "example_args \<equiv> [(''dump'', MBool True)]"

abbreviation example_script_map :: "(mpv \<times> mpv) list" where
  "example_script_map \<equiv> [(MStr ''actor_type'', MStr ''std.Identity''), (MStr ''args'', arg_map example_args)]"

theorem script_arguments_equivalent_witness:
  "do { (args_count, args) \<leftarrow> cc_coder_decode_map mp_ref (enc mp_ref (arg_map example_args)); app_args_loop mp_ref 0 (unat args_count) args example_types }
     = do { (r, attributes, w) \<leftarrow> cc_actor_get_attributes mp_ref 0 (enc mp_ref (arg_map example_args)) [] False example_types;
            w \<leftarrow> upd_actor 0 (\<lambda>actor. actor\<lparr>a_managed_attributes := attributes\<rparr>) w; Some (r, w) }"
proof -
  have p: "attr_pairs example_args" by (simp add: attr_pairs_def)
  have w: "e_alloc example_types = []" "h_actors example_types 0 = Some (script_actor mp_ref ''a'' ''std.Identity'' ''A'' \<lparr>ty_impl = ''std.Identity'', ty_requires = None\<rparr> [])"
    by (simp_all add: example_types_def example_world_def)
  show ?thesis using script_arguments_equivalent[OF ref.msgpuck_axioms p w, of "[]"] unfolding append_Nil2
    by (simp add: script_actor_def received_def del: enc.simps bind_Some_iff)
qed

theorem script_actor_created_witness:
  "\<exists>i w'. cc_app_manager_create_actor example_ext (enc mp_ref (MStr ''id'') @ enc mp_ref (MMap example_script_map)) example_types = Some (Some 1, w')
     \<and> h_actors w' 1 = Some (script_actor mp_ref ''id'' ''std.Identity'' i \<lparr>ty_impl = ''std.Identity'', ty_requires = None\<rparr> example_args)
     \<and> cc_actor_serialize example_ext 1 [] True w' = Some (None, w')"
proof -
  have p: "attr_pairs example_args" by (simp add: attr_pairs_def)
  have w: "e_alloc example_types = []" "h_next example_types = 1"
      "cc_list_get_n (n_actor_types example_types) ''std.Identity'' (length ''std.Identity'') = Some \<lparr>li_id = ''std.Identity'', li_id_len = 12,
        li_data = \<lparr>ty_impl = ''std.Identity'', ty_requires = None\<rparr>, li_data_len = 0, li_free_id = True\<rparr>"
    by (simp_all add: example_types_def example_world_def CC_UUID_BUFFER_SIZE_def)
  have x: "x_mp example_ext = mp_ref" by (simp add: example_ext_def)
  have m: "wf_mpv (MMap example_script_map)" "key_clear ''actor_type'' example_script_map" "key_clear ''args'' example_script_map" by simp_all
  show ?thesis
    using script_actor_created[where x = example_ext, unfolded x, OF ref.msgpuck_axioms p w(1) _ _ _ _ m _ _ w(3), of "''id''" "[]" "[]" True] w(2)
    by (auto simp del: enc.simps)
qed

end
