(* ===== verification/Node.thy ===== *)
theory Node
  imports App_Manager
begin

text \<open>
  The node of \<open>src/runtime/north/cc_node.c\<close> from its start to its end: initialisation, the connection to a proxy, the main
  loop, sleep and stop, with the calls of \<open>src/cc_api.c\<close>, and the waiting of the x86 platform. What happens outside
  while the node waits is a list of events; a node that waits when the list is over is left \<open>Waiting\<close>, so the
  loops are total functions and whether a run comes to its end is a question of its result.
\<close>

section \<open>Runs\<close>

text \<open>
  \<open>Faulted\<close> is a fault, \<open>Waiting\<close> a run that waits for an event that never comes, and \<open>Asleep\<close> the end of the
  process in \<open>cc_platform_deepsleep\<close>.
\<close>

datatype 'a run = Returned 'a | Faulted | Waiting | Asleep

fun run_bind :: "'a run \<Rightarrow> ('a \<Rightarrow> 'b run) \<Rightarrow> 'b run" where
  "run_bind (Returned v) k = k v"
| "run_bind Faulted k = Faulted"
| "run_bind Waiting k = Waiting"
| "run_bind Asleep k = Asleep"

fun of_option :: "'a option \<Rightarrow> 'a run" where
  "of_option None = Faulted"
| "of_option (Some v) = Returned v"

lemma run_bind_cong [fundef_cong]:
  "m = m' \<Longrightarrow> (\<And>v. m' = Returned v \<Longrightarrow> k v = k' v) \<Longrightarrow> run_bind m k = run_bind m' k'"
  by (cases m') auto

lemma run_bind_Returned [simp]: "run_bind m k = Returned y \<longleftrightarrow> (\<exists>v. m = Returned v \<and> k v = Returned y)"
  by (cases m) auto

lemma of_option_Returned [simp]: "of_option m = Returned v \<longleftrightarrow> m = Some v"
  by (cases m) auto

section \<open>Waiting on the x86 platform\<close>

datatype cc_platform_evt_wait_status = CC_PLATFORM_EVT_WAIT_DATA_READ | CC_PLATFORM_EVT_WAIT_FAIL | CC_PLATFORM_EVT_WAIT_TIMEOUT

text \<open>
  What one \<open>select\<close> comes to: a failure, a timeout, or descriptors that are ready. \<open>Select_ready fds m\<close> are descriptors of calvinsys, and
  the transport's socket if \<open>m\<close> is not \<open>None\<close>, with the pieces that have arrived. Meanwhile the embedding application may have
  called \<open>cc_api_runtime_stop\<close>, and \<open>ev_time\<close> is the time afterwards.
\<close>

datatype select_result = Select_failed | Select_timeout | Select_ready "int list" "bytes list option"

record event =
  ev_time :: u32
  ev_stop :: bool
  ev_select :: select_result

record outside =
  o_events :: "event list"
  o_inbox :: "bytes list"

text \<open>
  What the node uses of the layers below it. \<open>sys_connect\<close> and \<open>sys_disconnect\<close> are the functions of the transport client.
\<close>

record sys =
  sys_platform :: cc_platform
  sys_config :: cc_config
  sys_transports :: "(bytes \<times> (world \<Rightarrow> bytes \<Rightarrow> (cc_transport_client option \<times> world) option)) list"
  sys_connect :: "cc_transport_client \<Rightarrow> world \<Rightarrow> (cc_result \<times> cc_transport_client \<times> world) option"
  sys_disconnect :: "cc_transport_client \<Rightarrow> world \<Rightarrow> world option"
  sys_capabilities :: "cc_calvinsys_capability list"
  sys_actor_types :: "(bytes \<times> (world \<Rightarrow> cc_actor_type option \<times> world)) list"

definition cc_api_runtime_stop :: "world \<Rightarrow> cc_result \<times> world" where
  "cc_api_runtime_stop w = (CC_SUCCESS, w\<lparr>n_state := CC_NODE_STOP\<rparr>)"

text \<open>
  \<open>cc_transport_handle_data(node, node->transport_client, cc_node_handle_message)\<close>: the loop hands over at most one
  message, as its last step.
\<close>

definition node_handle_data :: "ext \<Rightarrow> sys \<Rightarrow> bytes list \<Rightarrow> world \<Rightarrow> (cc_result \<times> bytes list \<times> world) option" where
  "node_handle_data x s inbox w = do {
     tc \<leftarrow> n_transport_client w;
     (r, msg, rx, inbox, w) \<leftarrow> cc_transport_handle_data (\<lambda>_ data. Some (Some data)) None (tc_rx_buffer tc) inbox w;
     let w = w\<lparr>n_transport_client := Some (tc\<lparr>tc_rx_buffer := rx\<rparr>)\<rparr>;
     case msg of
       None \<Rightarrow> Some (r, inbox, w)
     | Some data \<Rightarrow> do {
         (_, w) \<leftarrow> cc_node_handle_message x (sys_platform s) (sys_config s) data (length data) w;
         Some (r, inbox, w) } }"

text \<open>
  The timeout only bounds the time that the event brings. \<open>waits_for\<close> are the descriptors of calvinsys in the set. When there is no
  transport to wait for, \<open>transport_fd\<close> is 0, which is not in the set.
\<close>

definition transport_waits :: "world \<Rightarrow> bool" where
  "transport_waits w = (case n_transport_client w of None \<Rightarrow> False
     | Some tc \<Rightarrow> tc_state tc = CC_TRANSPORT_PENDING \<or> tc_state tc = CC_TRANSPORT_ENABLED)"

definition waits_for :: "world \<Rightarrow> int list" where
  "waits_for w = filter (\<lambda>fd. fd \<noteq> - 1) (n_fds w)"

definition cc_platform_evt_wait :: "ext \<Rightarrow> sys \<Rightarrow> u32 \<Rightarrow> outside \<Rightarrow> world \<Rightarrow> (cc_platform_evt_wait_status \<times> outside \<times> world) run" where
  "cc_platform_evt_wait x s timeout_seconds out w = (case o_events out of
     [] \<Rightarrow> Waiting
   | ev # events \<Rightarrow>
       let transport = transport_waits w;
           out = out\<lparr>o_events := events\<rparr>;
           w = (if ev_stop ev then snd (cc_api_runtime_stop (w\<lparr>e_time := ev_time ev\<rparr>)) else w\<lparr>e_time := ev_time ev\<rparr>)
       in if \<not> transport \<and> waits_for w = [] then Returned (CC_PLATFORM_EVT_WAIT_TIMEOUT, out, w\<lparr>n_ready := []\<rparr>)
          else case ev_select ev of
            Select_failed \<Rightarrow> Returned (CC_PLATFORM_EVT_WAIT_FAIL, out, w\<lparr>n_ready := waits_for w\<rparr>)
          | Select_timeout \<Rightarrow> Returned (CC_PLATFORM_EVT_WAIT_TIMEOUT, out, w\<lparr>n_ready := []\<rparr>)
          | Select_ready fds m \<Rightarrow>
              let w = w\<lparr>n_ready := filter (\<lambda>fd. fd \<in> set fds) (waits_for w)\<rparr>
              in case (if transport then m else None) of
                None \<Rightarrow> Returned (CC_PLATFORM_EVT_WAIT_DATA_READ, out, w)
              | Some pieces \<Rightarrow>
                  run_bind (of_option (node_handle_data x s (o_inbox out @ pieces) w)) (\<lambda>(r, inbox, w).
                    Returned (if r = CC_SUCCESS then CC_PLATFORM_EVT_WAIT_DATA_READ else CC_PLATFORM_EVT_WAIT_FAIL, out\<lparr>o_inbox := inbox\<rparr>, w)))"

lemma evt_wait_less: "cc_platform_evt_wait x s timeout_seconds out w = Returned (st, out', w') \<Longrightarrow> length (o_events out') < length (o_events out)"
  by (auto simp: cc_platform_evt_wait_def Let_def split: list.splits if_splits select_result.splits option.splits)

section \<open>Connecting to a proxy\<close>

definition CONNECT_TIMEOUT :: u32 where
  "CONNECT_TIMEOUT = 10"

text \<open>\<open>while (cond) if (cc_platform_evt_wait(node, CONNECT_TIMEOUT) == CC_PLATFORM_EVT_WAIT_FAIL) return CC_FAIL\<close>\<close>

function wait_while :: "ext \<Rightarrow> sys \<Rightarrow> (world \<Rightarrow> bool option) \<Rightarrow> outside \<Rightarrow> world \<Rightarrow> (cc_result \<times> outside \<times> world) run" where
  "wait_while x s cond out w = (case cond w of
     None \<Rightarrow> Faulted
   | Some False \<Rightarrow> Returned (CC_SUCCESS, out, w)
   | Some True \<Rightarrow> run_bind (cc_platform_evt_wait x s CONNECT_TIMEOUT out w) (\<lambda>(st, out, w).
       if st = CC_PLATFORM_EVT_WAIT_FAIL then Returned (CC_FAIL, out, w) else wait_while x s cond out w))"
  by pat_completeness auto
termination
  by (relation "measure (\<lambda>(x, s, cond, out, w). length (o_events out))") (auto dest: evt_wait_less)

declare wait_while.simps [simp del]

text \<open>The conditions; the transport client and the tunnels are only looked at when the node is not stopping.\<close>

definition transport_is :: "cc_transport_state \<Rightarrow> world \<Rightarrow> bool option" where
  "transport_is st w = (if n_state w = CC_NODE_STOP then Some False else do { tc \<leftarrow> n_transport_client w; Some (tc_state tc = st) })"

definition tunnels_pending :: "world \<Rightarrow> bool option" where
  "tunnels_pending w = do {
     storage \<leftarrow> get_tunnel w (n_storage_tunnel w);
     pending \<leftarrow> (if t_state storage = CC_TUNNEL_PENDING then Some True
                 else do { proxy \<leftarrow> get_tunnel w (n_proxy_tunnel w); Some (t_state proxy = CC_TUNNEL_PENDING) });
     if \<not> pending then Some False else transport_is CC_TRANSPORT_ENABLED w }"

definition not_started :: "world \<Rightarrow> bool option" where
  "not_started w = (if n_state w = CC_NODE_STARTED then Some False else transport_is CC_TRANSPORT_ENABLED w)"

text \<open>A step of \<open>cc_node_connect_to_proxy\<close> after one that may have failed.\<close>

definition if_ok :: "(cc_result \<times> outside \<times> world) run \<Rightarrow> (outside \<Rightarrow> world \<Rightarrow> (cc_result \<times> outside \<times> world) run) \<Rightarrow>
    (cc_result \<times> outside \<times> world) run" where
  "if_ok m k = run_bind m (\<lambda>(r, out, w). if r = CC_SUCCESS then k out w else Returned (CC_FAIL, out, w))"

definition step_ok :: "outside \<Rightarrow> (cc_result \<times> world) option \<Rightarrow> (cc_result \<times> outside \<times> world) run" where
  "step_ok out m = run_bind (of_option m) (\<lambda>(r, w). Returned (r, out, w))"

definition make_transport :: "sys \<Rightarrow> bytes \<Rightarrow> world \<Rightarrow> (cc_result \<times> world) option" where
  "make_transport s uri w = (case n_transport_client w of
     Some _ \<Rightarrow> Some (CC_SUCCESS, w)
   | None \<Rightarrow> do {
       (tc, w) \<leftarrow> cc_transport_create (sys_transports s) w uri;
       Some (if tc = None then CC_FAIL else CC_SUCCESS, w\<lparr>n_transport_client := tc\<rparr>) })"

definition connect_transport :: "sys \<Rightarrow> world \<Rightarrow> (cc_result \<times> world) option" where
  "connect_transport s w = do {
     tc \<leftarrow> n_transport_client w;
     (r, tc, w) \<leftarrow> sys_connect s tc w;
     Some (r, w\<lparr>n_transport_client := Some tc\<rparr>) }"

definition join_transport :: "world \<Rightarrow> (cc_result \<times> world) option" where
  "join_transport w = do {
     tc \<leftarrow> n_transport_client w;
     (r, tc, w) \<leftarrow> cc_transport_join tc w;
     Some (r, w\<lparr>n_transport_client := Some tc\<rparr>) }"

fun disconnect_actors :: "mp \<Rightarrow> addr cc_list \<Rightarrow> world \<Rightarrow> world option" where
  "disconnect_actors mp [] w = Some w"
| "disconnect_actors mp (item # actors) w = do { w \<leftarrow> cc_actor_disconnect mp (li_data item) False w; disconnect_actors mp actors w }"

text \<open>The old proxy is dropped when the runtime that has answered is another one.\<close>

definition drop_proxy :: "mp \<Rightarrow> bytes \<Rightarrow> nat \<Rightarrow> world \<Rightarrow> (bool \<times> world) option" where
  "drop_proxy mp peer_id peer_id_len w = (case n_proxy_link w of
     None \<Rightarrow> Some (True, w)
   | Some l \<Rightarrow> do {
       link \<leftarrow> h_links w l;
       if strncmp0 (l_peer_id link) peer_id peer_id_len then Some (False, w)
       else do {
         w \<leftarrow> free_network w;
         w \<leftarrow> disconnect_actors mp (n_actors w) w;
         Some (True, w) } })"

definition proxy_link :: "bytes \<Rightarrow> nat \<Rightarrow> world \<Rightarrow> (cc_result \<times> world) option" where
  "proxy_link peer_id peer_id_len w = (case n_proxy_link w of
     Some _ \<Rightarrow> Some (CC_SUCCESS, w)
   | None \<Rightarrow> do {
       (l, w) \<leftarrow> cc_link_create peer_id (of_nat peer_id_len) True w;
       Some (if l = None then CC_FAIL else CC_SUCCESS, w\<lparr>n_proxy_link := l\<rparr>) })"

definition storage_tunnel :: "mp \<Rightarrow> bytes \<Rightarrow> nat \<Rightarrow> world \<Rightarrow> (cc_result \<times> world) option" where
  "storage_tunnel mp peer_id peer_id_len w = (case n_storage_tunnel w of
     Some _ \<Rightarrow> Some (CC_SUCCESS, w)
   | None \<Rightarrow> do {
       (t, w) \<leftarrow> cc_tunnel_create mp CC_TUNNEL_TYPE_STORAGE CC_TUNNEL_DISCONNECTED peer_id (of_nat peer_id_len) None w;
       let w = w\<lparr>n_storage_tunnel := t\<rparr>;
       if t = None then Some (CC_FAIL, w) else do { w \<leftarrow> cc_tunnel_add_ref t w; Some (CC_SUCCESS, w) } })"

definition proxy_tunnel :: "mp \<Rightarrow> bytes \<Rightarrow> nat \<Rightarrow> world \<Rightarrow> (cc_result \<times> world) option" where
  "proxy_tunnel mp peer_id peer_id_len w = (case n_proxy_tunnel w of
     Some _ \<Rightarrow> Some (CC_SUCCESS, w)
   | None \<Rightarrow> do {
       (t, w) \<leftarrow> cc_tunnel_create mp CC_TUNNEL_TYPE_PROXY CC_TUNNEL_DISCONNECTED peer_id (of_nat peer_id_len) None w;
       let w = w\<lparr>n_proxy_tunnel := t\<rparr>;
       if t = None then Some (CC_FAIL, w) else do { w \<leftarrow> cc_tunnel_add_ref t w; Some (CC_SUCCESS, w) } })"

definition tunnels_enabled :: "world \<Rightarrow> (cc_result \<times> world) option" where
  "tunnels_enabled w = do {
     storage \<leftarrow> get_tunnel w (n_storage_tunnel w);
     if t_state storage \<noteq> CC_TUNNEL_ENABLED then Some (CC_FAIL, w)
     else do {
       proxy \<leftarrow> get_tunnel w (n_proxy_tunnel w);
       Some (if t_state proxy \<noteq> CC_TUNNEL_ENABLED then CC_FAIL else CC_SUCCESS, w) } }"

fun connect_actors :: "mp \<Rightarrow> addr cc_list \<Rightarrow> world \<Rightarrow> world option" where
  "connect_actors mp [] w = Some w"
| "connect_actors mp (item # actors) w = do { w \<leftarrow> cc_actor_connect_ports mp (li_data item) w; connect_actors mp actors w }"

text \<open>The part behind the transport: the peer, its link and tunnels, and the set-up of the node.\<close>

definition connect_peer :: "ext \<Rightarrow> sys \<Rightarrow> outside \<Rightarrow> world \<Rightarrow> (cc_result \<times> outside \<times> world) run" where
  "connect_peer x s out w =
     (case n_transport_client w of None \<Rightarrow> Faulted | Some tc \<Rightarrow>
      let peer_id = tc_peer_id tc; peer_id_len = strnlen peer_id CC_UUID_BUFFER_SIZE; mp = x_mp x
      in run_bind (of_option (drop_proxy mp peer_id peer_id_len w)) (\<lambda>(new_proxy, w).
         if_ok (step_ok out (proxy_link peer_id peer_id_len w)) (\<lambda>out w.
         if_ok (step_ok out (storage_tunnel mp peer_id peer_id_len w)) (\<lambda>out w.
         if_ok (step_ok out (proxy_tunnel mp peer_id peer_id_len w)) (\<lambda>out w.
         if_ok (wait_while x s tunnels_pending out w) (\<lambda>out w.
         if_ok (step_ok out (tunnels_enabled w)) (\<lambda>out w.
         if_ok (step_ok out (if new_proxy then cc_proto_send_node_setup mp cc_node_setup_reply_handler w
                             else cc_proto_send_wake_signal mp cc_node_setup_reply_handler w)) (\<lambda>out w.
         if_ok (wait_while x s not_started out w) (\<lambda>out w.
         if n_state w \<noteq> CC_NODE_STARTED then Returned (CC_FAIL, out, w)
         else run_bind (of_option (connect_actors mp (n_actors w) w)) (\<lambda>w. Returned (CC_SUCCESS, out, w)))))))))))"

definition cc_node_connect_to_proxy :: "ext \<Rightarrow> sys \<Rightarrow> bytes \<Rightarrow> outside \<Rightarrow> world \<Rightarrow> (cc_result \<times> outside \<times> world) run" where
  "cc_node_connect_to_proxy x s uri out w =
     if_ok (step_ok out (make_transport s uri w)) (\<lambda>out w.
     if_ok (wait_while x s (transport_is CC_TRANSPORT_INTERFACE_DOWN) out w) (\<lambda>out w.
     if_ok (step_ok out (connect_transport s w)) (\<lambda>out w.
     if_ok (wait_while x s (transport_is CC_TRANSPORT_PENDING) out w) (\<lambda>out w.
     if_ok (step_ok out (join_transport w)) (\<lambda>out w.
     if_ok (wait_while x s (transport_is CC_TRANSPORT_PENDING) out w) (\<lambda>out w.
     if n_state w = CC_NODE_STOP then Returned (CC_FAIL, out, w)
     else run_bind (of_option (n_transport_client w)) (\<lambda>tc.
       if tc_state tc \<noteq> CC_TRANSPORT_ENABLED then Returned (CC_FAIL, out, w) else connect_peer x s out w)))))))"

text \<open>The addresses in turn until one answers.\<close>

fun try_proxies :: "ext \<Rightarrow> sys \<Rightarrow> unit cc_list \<Rightarrow> outside \<Rightarrow> world \<Rightarrow> (outside \<times> world) run" where
  "try_proxies x s [] out w = Returned (out, w)"
| "try_proxies x s (item # items) out w =
     (if n_state w = CC_NODE_STOP then Returned (out, w)
      else run_bind (cc_node_connect_to_proxy x s (li_id item) out (w\<lparr>n_state := CC_NODE_DO_START\<rparr>)) (\<lambda>(r, out, w).
        if r = CC_SUCCESS then Returned (out, w) else try_proxies x s items out w))"

section \<open>Stopping\<close>

text \<open>Whether the replica is to end with the node. A value that is no boolean leaves it.\<close>

definition terminates_with_node :: "mp \<Rightarrow> cc_actor \<Rightarrow> bool option" where
  "terminates_with_node mp actor = (case cc_list_get (a_private_attributes actor) ''_replication_id'' of
     None \<Rightarrow> Some False
   | Some item \<Rightarrow> do {
       t \<leftarrow> cc_coder_type_of mp (li_data item);
       if t \<noteq> CC_CODER_MAP then Some False
       else do {
         terminate \<leftarrow> must (cc_coder_get_value_from_map mp (li_data item) ''_terminate_with_node'') (Some False) (\<lambda>obj_terminate. do {
           b \<leftarrow> cc_coder_decode_bool mp obj_terminate;
           Some (case b of None \<Rightarrow> False | Some b \<Rightarrow> b) });
         _ \<leftarrow> cc_coder_decode_string_from_map mp (li_data item) ''id'';
         Some terminate } })"

fun stop_actors :: "ext \<Rightarrow> addr cc_list \<Rightarrow> world \<Rightarrow> world option" where
  "stop_actors x [] w = Some w"
| "stop_actors x (item # items) w = do {
     let a = li_data item;
     actor \<leftarrow> h_actors w a;
     terminate \<leftarrow> terminates_with_node (x_mp x) actor;
     w \<leftarrow> (if n_stop_method w \<noteq> CC_NODE_STOP_MIGRATE then cc_actor_free x (Some a) True w
           else if terminate then do {
             w \<leftarrow> cc_actor_disconnect (x_mp x) a True w;
             actor \<leftarrow> h_actors w a;
             (_, w) \<leftarrow> cc_proto_send_remove_replica (x_mp x) actor True replica_remove_reply_handler w;
             cc_actor_free x (Some a) True w }
           else do {
             l \<leftarrow> n_proxy_link w;
             link \<leftarrow> h_links w l;
             (_, w) \<leftarrow> cc_actor_migrate x a (l_peer_id link) (of_nat (strlen (l_peer_id link))) w;
             cc_actor_free x (Some a) False w });
     stop_actors x items w }"

definition cc_node_stop :: "ext \<Rightarrow> world \<Rightarrow> world option" where
  "cc_node_stop x w = do {
     w \<leftarrow> stop_actors x (n_actors w) w;
     w \<leftarrow> (if n_proxy_tunnel w = None then Some w else do {
            w \<leftarrow> cc_tunnel_remove_ref (x_mp x) (n_proxy_tunnel w) w; Some (w\<lparr>n_proxy_tunnel := None\<rparr>) });
     if n_storage_tunnel w = None then Some w else do {
       w \<leftarrow> cc_tunnel_remove_ref (x_mp x) (n_storage_tunnel w) w; Some (w\<lparr>n_storage_tunnel := None\<rparr>) } }"

section \<open>Freeing the node\<close>

fun release_actors :: "ext \<Rightarrow> bool \<Rightarrow> addr cc_list \<Rightarrow> world \<Rightarrow> world option" where
  "release_actors x cleanup [] w = Some w"
| "release_actors x cleanup (item # items) w = do { w \<leftarrow> cc_actor_free x (Some (li_data item)) cleanup w; release_actors x cleanup items w }"

fun release_tunnels :: "addr cc_list \<Rightarrow> world \<Rightarrow> world option" where
  "release_tunnels [] w = Some w"
| "release_tunnels (item # items) w = do { w \<leftarrow> cc_tunnel_free (Some (li_data item)) False w; release_tunnels items w }"

fun release_links :: "addr cc_list \<Rightarrow> world \<Rightarrow> world option" where
  "release_links [] w = Some w"
| "release_links (item # items) w = do { w \<leftarrow> cc_link_free (li_data item) w; release_links items w }"

fun release_capabilities :: "addr cc_list \<Rightarrow> world \<Rightarrow> world option" where
  "release_capabilities [] w = Some w"
| "release_capabilities (item # items) w = do { w \<leftarrow> cc_calvinsys_delete_capability (li_id item) w; release_capabilities items w }"

text \<open>The node itself goes last; what is left of the world is what is not the node's.\<close>

definition cc_node_free :: "ext \<Rightarrow> sys \<Rightarrow> bool \<Rightarrow> world \<Rightarrow> world option" where
  "cc_node_free x s cleanup w = do {
     let w = w\<lparr>n_proxy_uris := [], n_actor_types := []\<rparr>;
     w \<leftarrow> release_actors x cleanup (n_actors w) w;
     w \<leftarrow> release_tunnels (n_tunnels w) w;
     w \<leftarrow> release_links (n_links w) w;
     w \<leftarrow> release_capabilities (n_capabilities w) w;
     let w = w\<lparr>n_attributes := None, n_pending_msgs := []\<rparr>;
     case n_transport_client w of
       None \<Rightarrow> Some w
     | Some tc \<Rightarrow> do { w \<leftarrow> sys_disconnect s tc w; Some (w\<lparr>n_transport_client := None\<rparr>) } }"

section \<open>Sleep\<close>

text \<open>Going to sleep ends the process; a failed request or one that is not granted returns to the loop.\<close>

definition sleep_now :: "ext \<Rightarrow> sys \<Rightarrow> world \<Rightarrow> (outside \<times> world) run" where
  "sleep_now x s w = run_bind (of_option (do {
       w \<leftarrow> (if cf_use_storage (sys_config s) then cc_node_set_state x (sys_platform s) True w else Some w);
       cc_node_free x s False w })) (\<lambda>_. Asleep)"

definition cc_node_enter_sleep :: "ext \<Rightarrow> sys \<Rightarrow> u32 \<Rightarrow> outside \<Rightarrow> world \<Rightarrow> (outside \<times> world) run" where
  "cc_node_enter_sleep x s seconds_to_sleep out w = (case n_transport_client w of
     None \<Rightarrow> sleep_now x s w
   | Some tc \<Rightarrow>
       if tc_state tc \<noteq> CC_TRANSPORT_ENABLED then sleep_now x s w
       else run_bind (of_option (cc_proto_send_sleep_request (x_mp x) seconds_to_sleep cc_node_enter_sleep_reply_handler w)) (\<lambda>(r, w).
         if r \<noteq> CC_SUCCESS then Returned (out, w\<lparr>n_state := CC_NODE_STARTED\<rparr>)
         else run_bind (cc_platform_evt_wait x s CONNECT_TIMEOUT out (w\<lparr>n_state := CC_NODE_PENDING\<rparr>)) (\<lambda>(_, out, w).
           if n_state w \<noteq> CC_NODE_DO_SLEEP then Returned (out, w\<lparr>n_state := CC_NODE_STARTED\<rparr>) else sleep_now x s w)))"

section \<open>The main loop\<close>

definition needs_proxy :: "world \<Rightarrow> bool" where
  "needs_proxy w = (n_proxy_uris w \<noteq> [] \<and> (case n_transport_client w of None \<Rightarrow> True | Some tc \<Rightarrow> tc_state tc \<noteq> CC_TRANSPORT_ENABLED))"

text \<open>The wait at the end of a turn, with what follows from it.\<close>

definition idle_wait :: "ext \<Rightarrow> sys \<Rightarrow> outside \<Rightarrow> world \<Rightarrow> (outside \<times> world) run" where
  "idle_wait x s out w =
     run_bind (of_option (cc_calvinsys_timers_check (cf_inactivity_timeout (sys_config s)) w)) (\<lambda>(wait_timeout, w).
     let wait_timeout = (if cf_use_sleep (sys_config s) then min wait_timeout (cf_inactivity_timeout (sys_config s)) else wait_timeout)
     in run_bind (cc_platform_evt_wait x s wait_timeout out w) (\<lambda>(waitstatus, out, w).
     case waitstatus of
       CC_PLATFORM_EVT_WAIT_TIMEOUT \<Rightarrow>
         if \<not> cf_use_sleep (sys_config s) then Returned (out, w)
         else run_bind (of_option (cc_calvinsys_timers_check (cf_sleep_time (sys_config s)) w)) (\<lambda>(sleep_timeout, w).
           if sleep_timeout > cf_inactivity_timeout (sys_config s) then cc_node_enter_sleep x s sleep_timeout out w
           else Returned (out, w))
     | CC_PLATFORM_EVT_WAIT_DATA_READ \<Rightarrow> Returned (out, w)
     | CC_PLATFORM_EVT_WAIT_FAIL \<Rightarrow>
         Returned (out, w\<lparr>n_transport_client := map_option (\<lambda>tc. tc\<lparr>tc_state := CC_TRANSPORT_DISCONNECTED\<rparr>) (n_transport_client w)\<rparr>)))"

definition node_turn :: "ext \<Rightarrow> sys \<Rightarrow> u32 \<Rightarrow> outside \<Rightarrow> world \<Rightarrow> (u32 \<times> outside \<times> world) run" where
  "node_turn x s next_timer_timeout out w =
     run_bind (if needs_proxy w then try_proxies x s (n_proxy_uris w) out w else Returned (out, w)) (\<lambda>(out, w).
     run_bind (of_option (cc_calvinsys_timers_check next_timer_timeout w)) (\<lambda>(next_timer_timeout, w).
     run_bind (of_option (fire_actors x w)) (\<lambda>(fired, w).
     if fired then run_bind (cc_platform_evt_wait x s 1 out w) (\<lambda>(_, out, w). Returned (next_timer_timeout, out, w))
     else run_bind (idle_wait x s out w) (\<lambda>(out, w). Returned (next_timer_timeout, out, w)))))"

lemma wait_while_le: "wait_while x s cond out w = Returned (r, out', w') \<Longrightarrow> length (o_events out') \<le> length (o_events out)"
proof (induction x s cond out w rule: wait_while.induct)
  case (1 x s cond out w)
  show ?case
  proof (cases "cond w = Some True")
    case True
    then obtain st out1 w1 where m: "cc_platform_evt_wait x s CONNECT_TIMEOUT out w = Returned (st, out1, w1)"
      and k: "(if st = CC_PLATFORM_EVT_WAIT_FAIL then Returned (CC_FAIL, out1, w1) else wait_while x s cond out1 w1) = Returned (r, out', w')"
      using 1(2) by (subst (asm) wait_while.simps) auto
    show ?thesis using evt_wait_less[OF m] k 1(1)[OF True refl m refl refl] by (cases "st = CC_PLATFORM_EVT_WAIT_FAIL") auto
  next
    case False
    then show ?thesis using 1(2) by (subst (asm) wait_while.simps) (auto split: option.splits bool.splits)
  qed
qed

text \<open>No step of the connection gives events back.\<close>

definition within :: "nat \<Rightarrow> (cc_result \<times> outside \<times> world) run \<Rightarrow> bool" where
  "within n m = (\<forall>r out w. m = Returned (r, out, w) \<longrightarrow> length (o_events out) \<le> n)"

lemma within_intros:
  "length (o_events out) \<le> n \<Longrightarrow> within n (Returned (r, out, w))" "within n Faulted" "within n Waiting" "within n Asleep"
  "length (o_events out) \<le> n \<Longrightarrow> within n (step_ok out st)"
  "length (o_events out) \<le> n \<Longrightarrow> within n (wait_while x s cond out w)"
  "(\<And>v. within n (f v)) \<Longrightarrow> within n (run_bind (of_option o1) f)"
  by (auto simp: within_def step_ok_def split: if_splits dest: wait_while_le)

lemma within_if_ok:
  assumes "within n m" "\<And>out w. length (o_events out) \<le> n \<Longrightarrow> within n (k out w)"
  shows "within n (if_ok m k)"
  using assms unfolding within_def if_ok_def by (fastforce split: if_splits)

lemma connect_peer_within: "length (o_events out) \<le> n \<Longrightarrow> within n (connect_peer x s out w)"
  unfolding connect_peer_def Let_def
  by (auto intro!: within_intros within_if_ok split: option.splits)

lemma connect_within: "length (o_events out) \<le> n \<Longrightarrow> within n (cc_node_connect_to_proxy x s uri out w)"
  unfolding cc_node_connect_to_proxy_def
  by (auto intro!: within_intros within_if_ok connect_peer_within)

lemma try_proxies_le: "try_proxies x s items out w = Returned (out', w') \<Longrightarrow> length (o_events out') \<le> length (o_events out)"
proof (induction items arbitrary: out w)
  case (Cons item items)
  show ?case
  proof (cases "n_state w = CC_NODE_STOP")
    case False
    with Cons.prems obtain r out1 w1 where c: "cc_node_connect_to_proxy x s (li_id item) out (w\<lparr>n_state := CC_NODE_DO_START\<rparr>) = Returned (r, out1, w1)"
        "r = CC_SUCCESS \<and> out1 = out' \<or> try_proxies x s items out1 w1 = Returned (out', w')"
      by (auto split: if_splits)
    have "length (o_events out1) \<le> length (o_events out)"
      using connect_within[of out "length (o_events out)" x s "li_id item" "w\<lparr>n_state := CC_NODE_DO_START\<rparr>"] c(1) by (simp add: within_def)
    with c(2) Cons.IH show ?thesis by fastforce
  qed (use Cons.prems in simp)
qed simp

lemma enter_sleep_le: "cc_node_enter_sleep x s t out w = Returned (out', w') \<Longrightarrow> length (o_events out') \<le> length (o_events out)"
  by (auto simp: cc_node_enter_sleep_def sleep_now_def split: option.splits if_splits dest!: evt_wait_less)

lemma idle_wait_less: "idle_wait x s out w = Returned (out', w') \<Longrightarrow> length (o_events out') < length (o_events out)"
  by (auto simp: idle_wait_def Let_def split: cc_platform_evt_wait_status.splits if_splits dest!: evt_wait_less enter_sleep_le)
    (metis cc_platform_evt_wait_status.exhaust)+

lemma node_turn_less: "node_turn x s t out w = Returned (t', out', w') \<Longrightarrow> length (o_events out') < length (o_events out)"
  by (auto simp: node_turn_def split: if_splits dest!: evt_wait_less idle_wait_less try_proxies_le)

function node_loop :: "ext \<Rightarrow> sys \<Rightarrow> u32 \<Rightarrow> outside \<Rightarrow> world \<Rightarrow> (outside \<times> world) run" where
  "node_loop x s next_timer_timeout out w =
     (if n_state w = CC_NODE_STOP then Returned (out, w)
      else run_bind (node_turn x s next_timer_timeout out w) (\<lambda>(next_timer_timeout, out, w). node_loop x s next_timer_timeout out w))"
  by pat_completeness auto
termination
  by (relation "measure (\<lambda>(x, s, t, out, w). length (o_events out))") (auto dest: node_turn_less)

declare node_loop.simps [simp del]

definition cc_node_run :: "ext \<Rightarrow> sys \<Rightarrow> bytes option \<Rightarrow> outside \<Rightarrow> world \<Rightarrow> (cc_result \<times> outside \<times> world) run" where
  "cc_node_run x s script out w =
     (let w = (if n_proxy_uris w = [] then w\<lparr>n_state := CC_NODE_STARTED\<rparr> else w)
      in run_bind (of_option (case script of None \<Rightarrow> Some (CC_SUCCESS, w)
           | Some path \<Rightarrow> cc_app_manager_load_script x (sys_platform s) path w)) (\<lambda>(r, w).
         if r \<noteq> CC_SUCCESS then Returned (CC_FAIL, out, w)
         else run_bind (node_loop x s 0 out w) (\<lambda>(out, w).
           run_bind (of_option (do {
             w \<leftarrow> cc_node_stop x w;
             w \<leftarrow> (if cf_use_storage (sys_config s) then cc_node_set_state x (sys_platform s) False w else Some w);
             cc_node_free x s False w })) (\<lambda>w. Returned (CC_SUCCESS, out, w)))))"

section \<open>Initialisation\<close>

text \<open>The tokens behind the array are its elements; a token that was not parsed is a fault.\<close>

fun add_uris :: "bytes \<Rightarrow> jsmntok list \<Rightarrow> nat list \<Rightarrow> world \<Rightarrow> (cc_result \<times> world) option" where
  "add_uris proxy_uris uris [] w = Some (CC_SUCCESS, w)"
| "add_uris proxy_uris uris (i # is) w =
     (if length uris \<le> i then None
      else case cc_list_add_n (n_proxy_uris w) (drop (jstart (uris ! i)) proxy_uris) (jend (uris ! i) - jstart (uris ! i)) () 0 w of
        (None, l, w) \<Rightarrow> Some (CC_FAIL, w\<lparr>n_proxy_uris := l\<rparr>)
      | (Some _, l, w) \<Rightarrow> add_uris proxy_uris uris is (w\<lparr>n_proxy_uris := l\<rparr>))"

definition parse_uris :: "ext \<Rightarrow> bytes option \<Rightarrow> world \<Rightarrow> (cc_result \<times> world) option" where
  "parse_uris x proxy_uris w = (case proxy_uris of
     None \<Rightarrow> Some (CC_SUCCESS, w)
   | Some proxy_uris \<Rightarrow> (case x_jsmn x proxy_uris (strlen proxy_uris) 10 of
       None \<Rightarrow> Some (CC_FAIL, w)
     | Some [] \<Rightarrow> Some (CC_FAIL, w)
     | Some (t # ts) \<Rightarrow>
         if jtype t \<noteq> JSMN_ARRAY then Some (CC_FAIL, w) else add_uris proxy_uris (t # ts) [1..<Suc (jsize t)] w))"

definition blank_node :: "world \<Rightarrow> world" where
  "blank_node w = w\<lparr>n_state := CC_NODE_DO_START, n_stop_method := CC_NODE_STOP_CLEAN, n_transport_client := None, n_proxy_link := None,
     n_links := [], n_storage_tunnel := None, n_proxy_tunnel := None, n_tunnels := [], n_actors := [], n_seconds_since_epoch := 0,
     n_time_at_sync := 0, n_actor_types := [], n_ready := []\<rparr>"

definition take_attributes :: "bytes option \<Rightarrow> world \<Rightarrow> cc_result \<times> world" where
  "take_attributes attributes w = (case attributes of
     None \<Rightarrow> (CC_SUCCESS, w)
   | Some a \<Rightarrow>
       if CC_MAX_ATTRIBUTES_LEN < strlen a then (CC_FAIL, w)
       else case mem_alloc w of (False, w) \<Rightarrow> (CC_FAIL, w) | (True, w) \<Rightarrow> (CC_SUCCESS, w\<lparr>n_attributes := Some (cstr a)\<rparr>))"

definition cc_node_init :: "ext \<Rightarrow> sys \<Rightarrow> bytes option \<Rightarrow> bytes option \<Rightarrow> world \<Rightarrow> (cc_result \<times> world) option" where
  "cc_node_init x s attributes proxy_uris w =
     and_then (parse_uris x proxy_uris w) (\<lambda>w.
     and_then (Some (take_attributes attributes (blank_node w))) (\<lambda>w.
     and_then (Some (cc_calvinsys_init w)) (\<lambda>w.
     and_then (Some (cc_calvinsys_timer_create w)) (\<lambda>w.
     and_then (Some (cc_calvinsys_attribute_create w)) (\<lambda>w.
     and_then (Some (cc_calvinsys_schedule_create w)) (\<lambda>w.
     and_then (Some (cc_calvinsys_add_capabilities (sys_capabilities s) w)) (\<lambda>w.
     and_then (Some (cc_actor_store_init (sys_actor_types s) w)) (\<lambda>w.
     cc_node_setup x (sys_platform s) (sys_config s) w))))))))"

section \<open>The application's interface\<close>

text \<open>The memory of a new node is cleared.\<close>

definition cc_api_runtime_init :: "ext \<Rightarrow> sys \<Rightarrow> (world \<Rightarrow> cc_result \<times> world) \<Rightarrow> bytes option \<Rightarrow> bytes option \<Rightarrow> world \<Rightarrow>
    (cc_result \<times> world) option" where
  "cc_api_runtime_init x s late_init attributes uris w = (case mem_alloc w of
     (False, w) \<Rightarrow> Some (CC_FAIL, w)
   | (True, w) \<Rightarrow>
       and_then (cc_node_init x s attributes uris
         ((blank_node w)\<lparr>n_id := [], n_attributes := None, n_pending_msgs := [], n_proxy_uris := [], n_capabilities := [], n_objects := []\<rparr>))
         (\<lambda>w. Some (late_init w)))"

definition cc_api_runtime_start :: "ext \<Rightarrow> sys \<Rightarrow> bytes option \<Rightarrow> outside \<Rightarrow> world \<Rightarrow> (cc_result \<times> outside \<times> world) run" where
  "cc_api_runtime_start x s script out w = run_bind (cc_node_run x s script out w) (\<lambda>(_, out, w). Returned (CC_SUCCESS, out, w))"

definition cc_api_runtime_serialize_and_stop :: "ext \<Rightarrow> sys \<Rightarrow> world \<Rightarrow> (cc_result \<times> world) option" where
  "cc_api_runtime_serialize_and_stop x s w = do {
     w \<leftarrow> (if cf_use_storage (sys_config s) \<and> n_state w = CC_NODE_STARTED then cc_node_set_state x (sys_platform s) True w else Some w);
     Some (cc_api_runtime_stop w) }"

definition cc_api_reconnect :: "world \<Rightarrow> (cc_result \<times> world) option" where
  "cc_api_reconnect w = do {
     tc \<leftarrow> n_transport_client w;
     Some (CC_SUCCESS, if tc_state tc = CC_TRANSPORT_ENABLED
       then w\<lparr>n_transport_client := Some (tc\<lparr>tc_state := CC_TRANSPORT_INTERFACE_DOWN\<rparr>)\<rparr> else w) }"

text \<open>
  The path goes into an array of \<open>strlen(CC_STATE_FILE) + strlen(filedir) + 1\<close> bytes, which has no room for a slash that has to
  be added; the name of the directory must not be empty. \<open>unlink\<close> is the call of the operating system.
\<close>

definition cc_api_clear_serialization_file :: "(bytes \<Rightarrow> world \<Rightarrow> bool \<times> world) \<Rightarrow> bytes \<Rightarrow> world \<Rightarrow> (cc_result \<times> world) option" where
  "cc_api_clear_serialization_file unlink filedir w =
     (let dir = cstr filedir;
          path = dir @ (if last dir = CHR ''/'' then [] else ''/'') @ CC_STATE_FILE
      in if dir = [] \<or> length CC_STATE_FILE + length dir + 1 < length path + 1 then None
         else case unlink path w of (ok, w) \<Rightarrow> Some (if ok then CC_SUCCESS else CC_FAIL, w))"

lemma clear_serialization_slash:
  assumes "cstr filedir \<noteq> []"
  shows "cc_api_clear_serialization_file unlink filedir w \<noteq> None \<longleftrightarrow> last (cstr filedir) = CHR ''/''"
  using assms by (simp add: cc_api_clear_serialization_file_def Let_def split: prod.split)

end
