(* ===== verification/Node_Stop.thy ===== *)
theory Node_Stop
  imports Node
begin

text \<open>
  How a node stops: the operations that a round of the scheduler uses keep the state of the node, every wait of the connection to
  a proxy ends with a request to stop, and so does the main loop. A request to sleep is the exception.
\<close>

section \<open>What leaves the state of the node alone\<close>

lemma same_node_state: "same_node w w' \<Longrightarrow> n_state w' = n_state w"
  by (rule same_nodeD)

lemma env_state: "env.more w' = env.more w \<Longrightarrow> n_state w' = n_state (w :: world)"
  by (cases w, cases w') simp

named_theorems state_kept \<open>operations that leave the state of the node\<close>

lemma upd_kept [state_kept]:
  "upd_port a f w = Some w' \<Longrightarrow> n_state w' = n_state w" "upd_actor a f' w = Some w' \<Longrightarrow> n_state w' = n_state w"
  "upd_tunnel a g w = Some w' \<Longrightarrow> n_state w' = n_state w" "upd_link a h w = Some w' \<Longrightarrow> n_state w' = n_state w"
  by (auto simp: upd_port_def upd_actor_def upd_tunnel_def upd_link_def)

lemma link_remove_ref_kept [state_kept]: "cc_link_remove_ref p w = Some w' \<Longrightarrow> n_state w' = n_state w"
  by (auto simp: cc_link_remove_ref_def cc_link_free_def split: option.splits if_splits dest!: state_kept)

lemma tunnel_free_kept [state_kept]: "cc_tunnel_free p b w = Some w' \<Longrightarrow> n_state w' = n_state w"
  by (auto simp: cc_tunnel_free_def split: option.splits if_splits dest!: state_kept)

lemma tunnel_remove_ref_kept [state_kept]: "cc_tunnel_remove_ref mp p w = Some w' \<Longrightarrow> n_state w' = n_state w"
  by (auto simp: cc_tunnel_remove_ref_def split: option.splits if_splits
      dest!: state_kept send_tunnel_destroy_same[THEN same_node_state])

lemma with_fifo_kept [state_kept]: "with_fifo a f w = Some (r, w') \<Longrightarrow> n_state w' = n_state w"
  by (auto simp: with_fifo_def port_set_fifo_def dest!: state_kept)

lemma port_set_state_kept [state_kept]: "cc_port_set_state a s w = Some w' \<Longrightarrow> n_state w' = n_state w"
  by (auto simp: cc_port_set_state_def cc_actor_port_state_changed_def cc_actor_set_state_def Let_def dest!: state_kept)

lemma port_drop_tunnel_kept [state_kept]: "port_drop_tunnel mp a w = Some w' \<Longrightarrow> n_state w' = n_state w"
  by (auto simp: port_drop_tunnel_def split: if_splits dest!: state_kept)

lemma send_port_connect_same: "cc_proto_send_port_connect mp a p h w = Some (r, w') \<Longrightarrow> same_node w w'"
  by (cases "cc_gen_uuid (Some ''MSGID_'') w") (auto simp: cc_proto_send_port_connect_def intro: uuid_pending_same)

lemma pending_tunnel_kept [state_kept]: "cc_port_connect_with_pending_tunnel mp a w = Some (r, w') \<Longrightarrow> n_state w' = n_state w"
  by (auto simp: cc_port_connect_with_pending_tunnel_def split: if_splits
      dest!: state_kept send_port_connect_same[THEN same_node_state])

lemma port_transmit_kept [state_kept]: "cc_port_transmit mp a w = Some w' \<Longrightarrow> n_state w' = n_state w"
  by (auto simp: cc_port_transmit_def port_send_token_def split: if_splits option.splits
      dest!: state_kept send_token_same(1)[THEN env_state])

lemma transmit_ports_kept [state_kept]: "transmit_ports mp l w = Some w' \<Longrightarrow> n_state w' = n_state w"
  by (induction l arbitrary: w) (auto dest!: state_kept)

lemma port_free_kept [state_kept]: "cc_port_free mp a rm w = Some w' \<Longrightarrow> n_state w' = n_state w"
  by (auto simp: cc_port_free_def split: if_splits dest!: state_kept remove_port_same[THEN same_node_state])

lemma free_ports_kept [state_kept]: "free_ports_loop mp l rm w = Some w' \<Longrightarrow> n_state w' = n_state w"
  by (induction l arbitrary: w) (auto dest!: state_kept)

lemma actor_release_kept [state_kept]: "actor_release mp a rm w = Some w' \<Longrightarrow> n_state w' = n_state w"
  by (auto simp: actor_release_def split: option.splits if_splits dest!: state_kept remove_actor_same[THEN same_node_state])

lemma timers_loop_kept: "timers_loop now l t w = Some (t', w') \<Longrightarrow> n_state w' = n_state w"
proof (induction l arbitrary: t w)
  case (Cons item l)
  then obtain u t1 where "timers_loop now l t1 u = Some (t', w')" "n_state u = n_state w"
    by (auto simp: set_obj_state_def upd_obj_def Let_def split_beta simp del: strncmp0_numeral split: if_splits)
  with Cons.IH show ?case by simp
qed simp

lemma timers_check_kept [state_kept]: "cc_calvinsys_timers_check t w = Some (t', w') \<Longrightarrow> n_state w' = n_state w"
  by (auto simp: cc_calvinsys_timers_check_def dest: timers_loop_kept)

text \<open>
  The functions of actor types and of the platform's capabilities have no business with the state of the node: what a round
  of the scheduler calls of them leaves it.
\<close>

definition minds_own_state :: "ext \<Rightarrow> bool" where
  "minds_own_state x = (\<forall>name a w.
     always (\<lambda>(_, w'). n_state w' = n_state w) (ac_fire (x_actors x name) a w)
     \<and> (case ac_will_end (x_actors x name) of None \<Rightarrow> True | Some f \<Rightarrow> always (\<lambda>w'. n_state w' = n_state w) (f a w))
     \<and> (case ac_free_state (x_actors x name) of None \<Rightarrow> True | Some f \<Rightarrow> always (\<lambda>w'. n_state w' = n_state w) (f a w))
     \<and> (case xo_close (x_caps x name) of None \<Rightarrow> True | Some f \<Rightarrow> always (\<lambda>(_, w'). n_state w' = n_state w) (f a w)))"

lemma minds_own_stateD:
  assumes "minds_own_state x"
  shows "ac_fire (x_actors x name) a w = Some (b, w') \<Longrightarrow> n_state w' = n_state w"
    and "ac_will_end (x_actors x name) = Some f \<Longrightarrow> f a w = Some w' \<Longrightarrow> n_state w' = n_state w"
    and "ac_free_state (x_actors x name) = Some f \<Longrightarrow> f a w = Some w' \<Longrightarrow> n_state w' = n_state w"
    and "xo_close (x_caps x name) = Some g \<Longrightarrow> g a w = Some (r, w') \<Longrightarrow> n_state w' = n_state w"
  using assms by (auto 0 3 simp: minds_own_state_def always_def dest!: spec[of _ name] spec[of _ a] spec[of _ w])

lemma obj_close_kept:
  assumes "minds_own_state x"
  shows "obj_close x impl a w = Some (r, w') \<Longrightarrow> n_state w' = n_state w"
  by (cases impl)
    (auto simp: obj_close_def cc_calvinsys_timer_close_def cc_calvinsys_schedule_close_def cc_calvinsys_attribute_close_def
      set_obj_state_def upd_obj_def split: option.splits dest: minds_own_stateD(4)[OF assms])

lemma close_kept:
  assumes "minds_own_state x" "cc_calvinsys_close x i w = Some w'"
  shows "n_state w' = n_state w"
proof (cases "cc_list_get (n_objects w) i")
  case (Some item)
  with assms(2) obtain obj where o: "h_objs w (li_data item) = Some obj" by (auto simp: cc_calvinsys_close_def)
  show ?thesis using assms(2) Some o
    by (cases "o_impl obj") (auto simp: cc_calvinsys_close_def free_obj_def dest!: obj_close_kept[OF assms(1)])
qed (use assms(2) in \<open>simp add: cc_calvinsys_close_def\<close>)

lemma close_loop_kept:
  assumes "minds_own_state x"
  shows "close_loop x a l w = Some w' \<Longrightarrow> n_state w' = n_state w"
  by (induction l arbitrary: w) (auto split: if_splits dest!: close_kept[OF assms])

lemma call_hook_kept:
  assumes "\<And>f name. hook (x_actors x name) = Some f \<Longrightarrow> f a w = Some w' \<Longrightarrow> n_state w' = n_state w" "call_hook x hook a w = Some w'"
  shows "n_state w' = n_state w"
proof -
  obtain actor where a: "h_actors w a = Some actor" using assms(2) by (auto simp: call_hook_def)
  show ?thesis
  proof (cases "a_impl actor")
    case (Some impl)
    then show ?thesis using assms a by (cases "hook (x_actors x impl)") (auto simp: call_hook_def)
  qed (use assms(2) a in \<open>simp add: call_hook_def\<close>)
qed

lemma actor_free_kept:
  assumes "minds_own_state x" "cc_actor_free x p rm w = Some w'"
  shows "n_state w' = n_state w"
proof (cases p)
  case (Some a)
  then obtain w1 w2 w3 where s: "call_hook x ac_will_end a w = Some w1" "call_hook x ac_free_state a w1 = Some w2 \<or> w2 = w1"
      "close_loop x a (n_objects w2) w2 = Some w3" "actor_release (x_mp x) a rm w3 = Some w'"
    using assms(2) by (auto simp: cc_actor_free_def split: if_splits intro: that)
  have "n_state w1 = n_state w" using s(1) by (rule call_hook_kept[rotated]) (rule minds_own_stateD(2)[OF assms(1)])
  moreover have "n_state w2 = n_state w1"
    using s(2) call_hook_kept[of ac_free_state x a w1 w2] minds_own_stateD(3)[OF assms(1)] by auto
  ultimately show ?thesis using close_loop_kept[OF assms(1) s(3)] actor_release_kept[OF s(4)] by simp
qed (use assms(2) in \<open>simp add: cc_actor_free_def\<close>)

lemma run_actor_kept:
  assumes "minds_own_state x"
  shows "run_actor x a w = Some (f, w') \<Longrightarrow> n_state w' = n_state w"
  by (auto simp: run_actor_def actor_fns_def split: if_splits dest!: state_kept minds_own_stateD(1)[OF assms])

lemma fire_loop_kept:
  assumes "minds_own_state x"
  shows "fire_loop x l f w = Some (f', w') \<Longrightarrow> n_state w' = n_state w"
  by (induction l arbitrary: f w) (auto split: if_splits dest!: actor_free_kept[OF assms] run_actor_kept[OF assms])

lemma fire_actors_kept: "minds_own_state x \<Longrightarrow> fire_actors x w = Some (f, w') \<Longrightarrow> n_state w' = n_state w"
  by (auto simp: fire_actors_def dest: fire_loop_kept)

section \<open>Stop requests\<close>

text \<open>An event that brings no message, and a list of events none of which is a stop request.\<close>

fun silent :: "event \<Rightarrow> bool" where
  "silent ev = (case ev_select ev of Select_ready _ (Some _) \<Rightarrow> False | _ \<Rightarrow> True)"

abbreviation no_stop :: "event list \<Rightarrow> bool" where
  "no_stop evs \<equiv> \<forall>ev \<in> set evs. \<not> ev_stop ev"

text \<open>
  \<open>heeds b out m\<close>: \<open>m\<close> is a part of a run that starts with the events of \<open>out\<close>, after a stop request when \<open>b\<close>. It
  takes no event after a stop request, leaves the node stopping after one, only waits for ever when there was none, and
  does not go to sleep.
\<close>

definition heeds_to :: "bool \<Rightarrow> outside \<Rightarrow> outside \<Rightarrow> world \<Rightarrow> bool" where
  "heeds_to b out out' w' = (\<exists>taken. o_events out = taken @ o_events out' \<and>
     (if b then taken = [] \<and> n_state w' = CC_NODE_STOP
      else no_stop taken \<or> (\<exists>p e. taken = p @ [e] \<and> no_stop p \<and> ev_stop e \<and> n_state w' = CC_NODE_STOP)))"

fun heeds :: "bool \<Rightarrow> outside \<Rightarrow> (cc_result \<times> outside \<times> world) run \<Rightarrow> bool" where
  "heeds b out (Returned (r, out', w')) = heeds_to b out out' w'"
| "heeds b out Waiting = (\<not> b \<and> no_stop (o_events out))"
| "heeds b out Faulted = True"
| "heeds b out Asleep = False"

lemma heeds_to_same: "(b \<Longrightarrow> n_state w = CC_NODE_STOP) \<Longrightarrow> heeds_to b out out w"
  by (simp add: heeds_to_def)

lemma heeds_to_trans:
  assumes "heeds_to b out out1 w1" "\<And>b'. (b' \<Longrightarrow> n_state w1 = CC_NODE_STOP) \<Longrightarrow> heeds_to b' out1 out2 w2"
  shows "heeds_to b out out2 w2"
proof -
  obtain t1 where t1: "o_events out = t1 @ o_events out1" and c1: "if b then t1 = [] \<and> n_state w1 = CC_NODE_STOP
      else no_stop t1 \<or> (\<exists>p e. t1 = p @ [e] \<and> no_stop p \<and> ev_stop e \<and> n_state w1 = CC_NODE_STOP)"
    using assms(1) by (auto simp: heeds_to_def)
  show ?thesis
  proof (cases "b \<or> \<not> no_stop t1")
    case True
    then have "n_state w1 = CC_NODE_STOP" using c1 by (auto split: if_splits)
    with assms(2)[of True] have "o_events out1 = o_events out2" "n_state w2 = CC_NODE_STOP" by (auto simp: heeds_to_def)
    with t1 c1 show ?thesis by (auto simp: heeds_to_def)
  next
    case False
    obtain t2 where t2: "o_events out1 = t2 @ o_events out2"
        "no_stop t2 \<or> (\<exists>p e. t2 = p @ [e] \<and> no_stop p \<and> ev_stop e \<and> n_state w2 = CC_NODE_STOP)"
      using assms(2)[of False] by (auto simp: heeds_to_def)
    from t2(2) show ?thesis
    proof (elim disjE exE conjE)
      assume "no_stop t2"
      with t1 t2(1) False show ?thesis by (auto simp: heeds_to_def intro!: exI[of _ "t1 @ t2"])
    next
      fix p e assume "t2 = p @ [e]" "no_stop p" "ev_stop e" "n_state w2 = CC_NODE_STOP"
      with t1 t2(1) False show ?thesis
        by (auto simp: heeds_to_def intro!: exI[of _ "t1 @ t2"] exI[of _ "t1 @ p"] exI[of _ e])
    qed
  qed
qed

lemma heeds_to_waiting:
  "heeds_to b out out1 w1 \<Longrightarrow> n_state w1 \<noteq> CC_NODE_STOP \<Longrightarrow> no_stop (o_events out1) \<Longrightarrow> \<not> b \<and> no_stop (o_events out)"
  by (auto simp: heeds_to_def split: if_splits)

lemma heeds_if_ok:
  assumes "heeds b out m" "\<And>b' out' w'. (b' \<Longrightarrow> n_state w' = CC_NODE_STOP) \<Longrightarrow> list_all silent (o_events out') \<Longrightarrow> heeds b' out' (k out' w')"
    "list_all silent (o_events out)"
  shows "heeds b out (if_ok m k)"
proof (cases m)
  case (Returned v)
  obtain r out1 w1 where v: "v = (r, out1, w1)" by (cases v)
  have h: "heeds_to b out out1 w1" using assms(1) Returned v by simp
  have s: "list_all silent (o_events out1)" using h assms(3) by (auto simp: heeds_to_def)
  show ?thesis
  proof (cases "k out1 w1")
    case (Returned v2)
    obtain r2 out2 w2 where v2: "v2 = (r2, out2, w2)" by (cases v2)
    have "heeds_to b out out2 w2" by (rule heeds_to_trans[OF h]) (use assms(2)[OF _ s, of _ w1] Returned v2 in simp)
    with h show ?thesis using \<open>m = Returned v\<close> v Returned v2 by (simp add: if_ok_def)
  next
    case Waiting
    with h assms(2)[OF _ s, of "n_state w1 = CC_NODE_STOP" w1] show ?thesis using \<open>m = Returned v\<close> v
      heeds_to_waiting[OF h] by (auto simp: if_ok_def)
  qed (use h assms(2)[OF _ s, of False w1] \<open>m = Returned v\<close> v in \<open>simp_all add: if_ok_def\<close>)
qed (use assms(1) in \<open>simp_all add: if_ok_def\<close>)

text \<open>Before a stop request the steps without a wait may do as they please.\<close>

lemma heeds_step_first:
  assumes "\<And>w'. heeds False out (k out w')"
  shows "heeds False out (if_ok (step_ok out m) k)"
proof (cases m)
  case (Some v)
  then show ?thesis using assms by (cases v) (simp add: if_ok_def step_ok_def heeds_to_def)
qed (simp add: if_ok_def step_ok_def)

lemma heeds_step:
  assumes "\<And>r w'. m = Some (r, w') \<Longrightarrow> b \<Longrightarrow> n_state w' = CC_NODE_STOP"
  shows "heeds b out (step_ok out m)"
proof (cases m)
  case (Some v)
  then show ?thesis using assms by (cases v) (auto simp: step_ok_def intro: heeds_to_same)
qed (simp add: step_ok_def)

lemma evt_wait_silent:
  assumes "o_events out = ev # evs" "silent ev"
  shows "\<exists>st w'. cc_platform_evt_wait x s t out w = Returned (st, out\<lparr>o_events := evs\<rparr>, w')
     \<and> n_state w' = (if ev_stop ev then CC_NODE_STOP else n_state w)"
  using assms by (auto simp: cc_platform_evt_wait_def cc_api_runtime_stop_def Let_def split: select_result.splits option.splits)

lemma wait_while_heeds:
  assumes "\<And>w. n_state w = CC_NODE_STOP \<Longrightarrow> always (\<lambda>c. \<not> c) (cond w)"
  shows "list_all silent (o_events out) \<Longrightarrow> (b \<Longrightarrow> n_state w = CC_NODE_STOP) \<Longrightarrow> heeds b out (wait_while x s cond out w)"
proof (induction "length (o_events out)" arbitrary: out w b)
  case 0
  then show ?case using assms[of w]
    by (subst wait_while.simps) (auto simp: cc_platform_evt_wait_def heeds_to_same split: option.split bool.split)
next
  case (Suc n)
  then obtain ev evs where ev: "o_events out = ev # evs" "silent ev" "list_all silent evs" "n = length evs" by (cases "o_events out") auto
  show ?case
  proof (cases "cond w = Some True")
    case True
    then have nb: "\<not> b" using assms[of w] Suc.prems(2) by auto
    obtain st w' where w': "cc_platform_evt_wait x s CONNECT_TIMEOUT out w = Returned (st, out\<lparr>o_events := evs\<rparr>, w')"
        "n_state w' = (if ev_stop ev then CC_NODE_STOP else n_state w)"
      using evt_wait_silent[OF ev(1,2)] by blast
    have h: "heeds_to False out (out\<lparr>o_events := evs\<rparr>) w'" using ev(1) w'(2) by (auto simp: heeds_to_def)
    have "heeds (ev_stop ev) (out\<lparr>o_events := evs\<rparr>) (wait_while x s cond (out\<lparr>o_events := evs\<rparr>) w')"
      by (rule Suc.hyps(1)) (use ev w'(2) in \<open>auto\<close>)
    moreover have "wait_while x s cond out w = (if st = CC_PLATFORM_EVT_WAIT_FAIL then Returned (CC_FAIL, out\<lparr>o_events := evs\<rparr>, w')
        else wait_while x s cond (out\<lparr>o_events := evs\<rparr>) w')"
      using True w'(1) by (subst wait_while.simps) simp
    ultimately show ?thesis using nb h ev(1) w'(2)
      by (cases "wait_while x s cond (out\<lparr>o_events := evs\<rparr>) w'") (auto simp: heeds_to_def split: if_splits)
  next
    case False
    then show ?thesis using Suc.prems(2) by (subst wait_while.simps) (auto simp: heeds_to_same split: option.split bool.split)
  qed
qed

declare silent.simps [simp del]

lemma transport_is_stop: "n_state w = CC_NODE_STOP \<Longrightarrow> always (\<lambda>c. \<not> c) (transport_is st w)"
  by (simp add: transport_is_def)

lemma tunnels_pending_stop: "n_state w = CC_NODE_STOP \<Longrightarrow> always (\<lambda>c. \<not> c) (tunnels_pending w)"
  by (cases "get_tunnel w (n_storage_tunnel w)"; cases "get_tunnel w (n_proxy_tunnel w)")
    (simp_all add: tunnels_pending_def transport_is_def del: bind_Some_iff)

lemma not_started_stop: "n_state w = CC_NODE_STOP \<Longrightarrow> always (\<lambda>c. \<not> c) (not_started w)"
  by (simp add: not_started_def transport_is_def)

lemma node_setup_kept: "cc_proto_send_node_setup mp h w = Some (r, w') \<Longrightarrow> n_state w' = n_state w"
  by (cases "cc_gen_uuid (Some ''MSGID_'') w")
    (auto simp: cc_proto_send_node_setup_def split: if_splits intro: uuid_pending_same[THEN same_node_state])

lemma wake_signal_kept: "cc_proto_send_wake_signal mp h w = Some (r, w') \<Longrightarrow> n_state w' = n_state w"
  by (cases "cc_gen_uuid (Some ''MSGID_'') w")
    (auto simp: cc_proto_send_wake_signal_def split: if_splits intro: uuid_pending_same[THEN same_node_state])

lemma join_request_kept: "cc_proto_send_join_request tc ser w = Some (r, w') \<Longrightarrow> n_state w' = n_state w"
  by (cases "cc_gen_uuid (Some ''MSGID_'') w")
    (auto simp: cc_proto_send_join_request_def Let_def split: if_splits dest!: transport_send_more gen_uuid_more env_state)

lemma join_kept:
  assumes "join_transport w = Some (r, w')"
  shows "n_state w' = n_state w"
proof -
  obtain tc where tc: "n_transport_client w = Some tc" using assms by (auto simp: join_transport_def)
  obtain m w1 where m: "cc_coder_get_name w = (m, w1)" by (cases "cc_coder_get_name w")
  have "n_state w1 = n_state w" using m by (auto simp: cc_coder_get_name_def mem_alloc_def split: list.splits bool.splits)
  then show ?thesis using assms tc m
    by (cases m) (auto simp: join_transport_def cc_transport_join_def split: if_splits dest!: join_request_kept)
qed

lemma tunnels_enabled_kept: "tunnels_enabled w = Some (r, w') \<Longrightarrow> w' = w"
  by (auto simp: tunnels_enabled_def split: if_splits)

text \<open>The transport has no business with the state of the node either.\<close>

definition connect_minds_state :: "sys \<Rightarrow> bool" where
  "connect_minds_state s = (\<forall>tc w. always (\<lambda>(_, _, w'). n_state w' = n_state w) (sys_connect s tc w))"

lemma connect_transport_kept: "connect_minds_state s \<Longrightarrow> connect_transport s w = Some (r, w') \<Longrightarrow> n_state w' = n_state w"
proof -
  assume m: "connect_minds_state s" and c: "connect_transport s w = Some (r, w')"
  obtain tc where tc: "n_transport_client w = Some tc" using c by (auto simp: connect_transport_def)
  obtain r1 tc1 w1 where r1: "sys_connect s tc w = Some (r1, tc1, w1)" using c tc by (auto simp: connect_transport_def)
  have "n_state w1 = n_state w" using m[unfolded connect_minds_state_def, rule_format, of w tc] r1 by simp
  then show ?thesis using c tc r1 by (auto simp: connect_transport_def)
qed

lemma heeds_of_option: "(\<And>v w. heeds b out (k v w)) \<Longrightarrow> heeds b out (run_bind (of_option m) (\<lambda>(v, w). k v w))"
  by (cases m) auto

lemma heeds_wait:
  assumes "\<And>w. n_state w = CC_NODE_STOP \<Longrightarrow> always (\<lambda>c. \<not> c) (cond w)" "list_all silent (o_events out)" "b \<Longrightarrow> n_state w = CC_NODE_STOP"
    "\<And>b' out' w'. (b' \<Longrightarrow> n_state w' = CC_NODE_STOP) \<Longrightarrow> list_all silent (o_events out') \<Longrightarrow> heeds b' out' (k out' w')"
  shows "heeds b out (if_ok (wait_while x s cond out w) k)"
  by (rule heeds_if_ok[OF wait_while_heeds[OF assms(1)] assms(4) assms(2)]) (use assms(2,3) in simp_all)

lemma heeds_next:
  assumes "\<And>r w'. m = Some (r, w') \<Longrightarrow> n_state w' = n_state w" "list_all silent (o_events out)" "b \<Longrightarrow> n_state w = CC_NODE_STOP"
    "\<And>b' out' w'. (b' \<Longrightarrow> n_state w' = CC_NODE_STOP) \<Longrightarrow> list_all silent (o_events out') \<Longrightarrow> heeds b' out' (k out' w')"
  shows "heeds b out (if_ok (step_ok out m) k)"
  by (rule heeds_if_ok[OF heeds_step assms(4) assms(2)]) (use assms(1,3) in auto)

lemma connect_end_heeds:
  assumes "b \<Longrightarrow> n_state w = CC_NODE_STOP"
  shows "heeds b out (if n_state w \<noteq> CC_NODE_STARTED then Returned (CC_FAIL, out, w)
     else run_bind (of_option (connect_actors mp (n_actors w) w)) (\<lambda>w. Returned (CC_SUCCESS, out, w)))"
proof (cases "n_state w = CC_NODE_STARTED")
  case True
  then have "\<not> b" using assms by auto
  with True show ?thesis by (cases "connect_actors mp (n_actors w) w") (simp_all add: heeds_to_def)
qed (use assms in \<open>simp add: heeds_to_same\<close>)

lemma connect_peer_heeds:
  assumes "list_all silent (o_events out)"
  shows "heeds False out (connect_peer x s out w)"
proof (cases "n_transport_client w")
  case (Some tc)
  have send: "(if n then cc_proto_send_node_setup mp h w else cc_proto_send_wake_signal mp h w) = Some (r, w') \<Longrightarrow> n_state w' = n_state w"
    for n mp h w r w' by (auto split: if_splits dest: node_setup_kept wake_signal_kept)
  show ?thesis unfolding connect_peer_def Let_def Some option.case
    by (rule heeds_of_option heeds_step_first heeds_wait[OF tunnels_pending_stop] heeds_wait[OF not_started_stop]
        heeds_next[OF tunnels_enabled_kept[THEN arg_cong[of _ _ n_state]]] heeds_next[OF send] connect_end_heeds assms | assumption | simp)+
qed (simp add: connect_peer_def)

lemma connect_heeds:
  assumes "connect_minds_state s" "list_all silent (o_events out)"
  shows "heeds False out (cc_node_connect_to_proxy x s uri out w)"
proof -
  have fin: "heeds b out (if n_state w = CC_NODE_STOP then Returned (CC_FAIL, out, w)
     else run_bind (of_option (n_transport_client w)) (\<lambda>tc.
       if tc_state tc \<noteq> CC_TRANSPORT_ENABLED then Returned (CC_FAIL, out, w) else connect_peer x s out w))"
    if "b \<Longrightarrow> n_state w = CC_NODE_STOP" "list_all silent (o_events out)" for b out w
    using that connect_peer_heeds[OF that(2)] by (cases "n_transport_client w"; cases b) (auto intro: heeds_to_same)
  show ?thesis unfolding cc_node_connect_to_proxy_def
    by (rule heeds_step_first heeds_wait[OF transport_is_stop] heeds_next[OF connect_transport_kept[OF assms(1)]]
        heeds_next[OF join_kept] fin assms(2) | assumption | simp)+
qed

lemma try_proxies_heeds:
  assumes "connect_minds_state s"
  shows "list_all silent (o_events out) \<Longrightarrow> (b \<Longrightarrow> n_state w = CC_NODE_STOP) \<Longrightarrow>
     heeds b out (run_bind (try_proxies x s items out w) (\<lambda>p. Returned (CC_SUCCESS, p)))"
proof (induction items arbitrary: out w b)
  case (Cons item items)
  show ?case
  proof (cases "n_state w = CC_NODE_STOP")
    case False
    then have b: "\<not> b" using Cons.prems(2) by auto
    let ?m = "cc_node_connect_to_proxy x s (li_id item) out (w\<lparr>n_state := CC_NODE_DO_START\<rparr>)"
    have h: "heeds False out ?m" by (rule connect_heeds[OF assms Cons.prems(1)])
    show ?thesis
    proof (cases ?m)
      case (Returned v)
      obtain r out1 w1 where v: "v = (r, out1, w1)" by (cases v)
      show ?thesis
      proof (cases "r = CC_SUCCESS")
        case True
        then show ?thesis using h Returned v False b by simp
      next
        case r: False
        have "heeds False out (if_ok (Returned (CC_SUCCESS, out1, w1)) (\<lambda>out w. run_bind (try_proxies x s items out w) (\<lambda>p. Returned (CC_SUCCESS, p))))"
          using h Returned v Cons.prems(1) by (intro heeds_if_ok Cons.IH) simp_all
        then show ?thesis using Returned v False b r by (simp add: if_ok_def)
      qed
    qed (use h False b in simp_all)
  qed (use Cons.prems in \<open>simp add: heeds_to_same\<close>)
qed (simp add: heeds_to_same)

section \<open>The main loop\<close>

lemma of_option_end [simp]:
  "run_bind (of_option m) (\<lambda>v. Returned (f v)) \<noteq> Waiting" "run_bind (of_option m) (\<lambda>v. Returned (f v)) \<noteq> Asleep"
  by (cases m; simp)+

text \<open>
  A turn ends with a wait of its own, so it takes at most one event after a stop request that came while it connected.
\<close>

definition heeds_late :: "outside \<Rightarrow> outside \<Rightarrow> world \<Rightarrow> bool" where
  "heeds_late out out' w' = (\<exists>taken. o_events out = taken @ o_events out' \<and>
     (no_stop taken \<or> (\<exists>p e q. taken = p @ e # q \<and> no_stop p \<and> length q \<le> 1) \<and> n_state w' = CC_NODE_STOP))"

fun turn_heeds :: "outside \<Rightarrow> ('a \<times> outside \<times> world) run \<Rightarrow> bool" where
  "turn_heeds out (Returned (t, out', w')) = heeds_late out out' w'"
| "turn_heeds out Waiting = no_stop (butlast (o_events out))"
| "turn_heeds out Faulted = True"
| "turn_heeds out Asleep = False"

lemma wait_turn_heeds:
  assumes "heeds_to False out out1 w1" "list_all silent (o_events out)"
    "\<And>st out2 w2. \<exists>t w3. k (st, out2, w2) = Returned (t, out2, w3) \<and> n_state w3 = n_state w2"
  shows "turn_heeds out (run_bind (cc_platform_evt_wait x s t out1 w1) k)"
proof -
  obtain taken where t: "o_events out = taken @ o_events out1"
      "no_stop taken \<or> (\<exists>p e. taken = p @ [e] \<and> no_stop p \<and> ev_stop e \<and> n_state w1 = CC_NODE_STOP)"
    using assms(1) by (auto simp: heeds_to_def)
  show ?thesis
  proof (cases "o_events out1")
    case Nil
    with t show ?thesis by (auto simp: cc_platform_evt_wait_def dest: in_set_butlastD)
  next
    case (Cons ev evs)
    then have "silent ev" using assms(2) t(1) by simp
    then obtain st w2 where w2: "cc_platform_evt_wait x s t out1 w1 = Returned (st, out1\<lparr>o_events := evs\<rparr>, w2)"
        "n_state w2 = (if ev_stop ev then CC_NODE_STOP else n_state w1)"
      using evt_wait_silent[OF Cons] by blast
    obtain v w3 where w3: "k (st, out1\<lparr>o_events := evs\<rparr>, w2) = Returned (v, out1\<lparr>o_events := evs\<rparr>, w3)" "n_state w3 = n_state w2"
      using assms(3) by blast
    have "no_stop (taken @ [ev]) \<or> (\<exists>p e q. taken @ [ev] = p @ e # q \<and> no_stop p \<and> length q \<le> 1) \<and> n_state w3 = CC_NODE_STOP"
      using t(2)
    proof (elim disjE exE conjE)
      fix p e assume "taken = p @ [e]" "no_stop p" "n_state w1 = CC_NODE_STOP"
      then show ?thesis using w2(2) w3(2) by (intro disjI2 conjI exI[of _ p] exI[of _ e] exI[of _ "[ev]"]) simp_all
    next
      assume "no_stop taken"
      then show ?thesis
      proof (cases "ev_stop ev")
        case True
        then show ?thesis using \<open>no_stop taken\<close> w2(2) w3(2)
          by (intro disjI2 conjI exI[of _ taken] exI[of _ ev] exI[of _ "[]"]) simp_all
      qed simp
    qed
    then show ?thesis using t(1) Cons w2 w3 by (auto simp: heeds_late_def)
  qed
qed

lemma heeds_to_kept: "heeds_to b out out1 w1 \<Longrightarrow> n_state w2 = n_state w1 \<Longrightarrow> heeds_to b out out1 w2"
  by (cases b) (simp_all add: heeds_to_def)

lemma idle_turn_heeds:
  assumes "\<not> cf_use_sleep (sys_config s)" "list_all silent (o_events out)" "heeds_to False out out1 w1"
  shows "turn_heeds out (run_bind (idle_wait x s out1 w1) (\<lambda>(out, w). Returned (t, out, w)))"
proof (cases "cc_calvinsys_timers_check (cf_inactivity_timeout (sys_config s)) w1")
  case (Some v)
  obtain t2 w2 where v: "v = (t2, w2)" by (cases v)
  define k where "k = (\<lambda>(waitstatus, out :: outside, w :: world). case waitstatus of
      CC_PLATFORM_EVT_WAIT_FAIL \<Rightarrow> Returned (t, out, w\<lparr>n_transport_client := map_option (\<lambda>tc. tc\<lparr>tc_state := CC_TRANSPORT_DISCONNECTED\<rparr>) (n_transport_client w)\<rparr>)
    | _ \<Rightarrow> Returned (t, out, w))"
  have "run_bind (idle_wait x s out1 w1) (\<lambda>(out, w). Returned (t, out, w)) = run_bind (cc_platform_evt_wait x s t2 out1 w2) k"
    using Some v assms(1) by (cases "cc_platform_evt_wait x s t2 out1 w2")
      (auto simp: idle_wait_def k_def split: cc_platform_evt_wait_status.split)
  moreover have "turn_heeds out (run_bind (cc_platform_evt_wait x s t2 out1 w2) k)"
    by (rule wait_turn_heeds[OF heeds_to_kept[OF assms(3)] assms(2)])
      (use Some v in \<open>auto simp: k_def timers_check_kept split: cc_platform_evt_wait_status.split\<close>)
  ultimately show ?thesis by simp
qed (simp add: idle_wait_def)

lemma node_turn_heeds:
  assumes "\<not> cf_use_sleep (sys_config s)" "minds_own_state x" "connect_minds_state s" "list_all silent (o_events out)"
    "n_state w \<noteq> CC_NODE_STOP"
  shows "turn_heeds out (node_turn x s t out w)"
proof -
  let ?m = "if needs_proxy w then try_proxies x s (n_proxy_uris w) out w else Returned (out, w)"
  have h: "heeds False out (run_bind ?m (\<lambda>p. Returned (CC_SUCCESS, p)))"
    using try_proxies_heeds[OF assms(3,4), of False] by (simp add: heeds_to_same)
  show ?thesis
  proof (cases ?m)
    case (Returned v)
    obtain out1 w1 where v: "v = (out1, w1)" by (cases v)
    have h1: "heeds_to False out out1 w1" using h Returned v by simp
    show ?thesis
    proof (cases "do { (t1, w) \<leftarrow> cc_calvinsys_timers_check t w1; (f, w) \<leftarrow> fire_actors x w; Some (t1, f, w) }")
      case None
      then show ?thesis using Returned v
        by (cases "cc_calvinsys_timers_check t w1"; cases "fire_actors x (snd (the (cc_calvinsys_timers_check t w1)))") (auto simp: node_turn_def)
    next
      case (Some u)
      obtain t1 f w2 w3 where u: "cc_calvinsys_timers_check t w1 = Some (t1, w2)" "fire_actors x w2 = Some (f, w3)"
        using Some by auto
      have h3: "heeds_to False out out1 w3"
        by (rule heeds_to_kept[OF h1]) (use timers_check_kept[OF u(1)] fire_actors_kept[OF assms(2) u(2)] in simp)
      show ?thesis
      proof (cases f)
        case True
        then have "node_turn x s t out w = run_bind (cc_platform_evt_wait x s 1 out1 w3) (\<lambda>(_, out, w). Returned (t1, out, w))"
          using Returned v u by (simp add: node_turn_def)
        then show ?thesis using wait_turn_heeds[OF h3 assms(4), of "\<lambda>(_, out, w). Returned (t1, out, w)"] by auto
      next
        case False
        then show ?thesis using idle_turn_heeds[OF assms(1,4) h3] Returned v u by (simp add: node_turn_def)
      qed
    qed
  qed (use h assms in \<open>auto simp: node_turn_def dest: in_set_butlastD\<close>)
qed

text \<open>A node in the loop comes to its end when a stop request is followed by one more event.\<close>

lemma heeds_late_trans:
  assumes "heeds_late out out1 w1" "n_state w1 \<noteq> CC_NODE_STOP" "heeds_late out1 out2 w2"
  shows "heeds_late out out2 w2"
proof -
  obtain t1 where t1: "o_events out = t1 @ o_events out1" "no_stop t1" using assms(1,2) by (auto simp: heeds_late_def)
  obtain t2 where t2: "o_events out1 = t2 @ o_events out2"
      "no_stop t2 \<or> (\<exists>p e q. t2 = p @ e # q \<and> no_stop p \<and> length q \<le> 1) \<and> n_state w2 = CC_NODE_STOP"
    using assms(3) by (auto simp: heeds_late_def)
  from t2(2) show ?thesis
  proof (elim disjE exE conjE)
    fix p e q assume "t2 = p @ e # q" "no_stop p" "length q \<le> 1" "n_state w2 = CC_NODE_STOP"
    with t1 t2(1) have "o_events out = ((t1 @ p) @ e # q) @ o_events out2" "no_stop (t1 @ p)" by auto
    with \<open>length q \<le> 1\<close> \<open>n_state w2 = CC_NODE_STOP\<close> show ?thesis unfolding heeds_late_def by blast
  qed (use t1 t2(1) in \<open>auto simp: heeds_late_def intro!: exI[of _ "t1 @ t2"]\<close>)
qed

lemma heeds_late_waiting:
  assumes "heeds_late out out1 w1" "n_state w1 \<noteq> CC_NODE_STOP" "no_stop (butlast (o_events out1))"
  shows "no_stop (butlast (o_events out))"
proof -
  obtain t1 where t1: "o_events out = t1 @ o_events out1" "no_stop t1" using assms(1,2) by (auto simp: heeds_late_def)
  show ?thesis
  proof (cases "o_events out1 = []")
    case True
    with t1 show ?thesis by (metis append_Nil2 in_set_butlastD)
  qed (use t1 assms(3) in \<open>auto simp: butlast_append\<close>)
qed

lemma node_loop_heeds:
  assumes "\<not> cf_use_sleep (sys_config s)" "minds_own_state x" "connect_minds_state s"
  shows "list_all silent (o_events out) \<Longrightarrow> turn_heeds out (run_bind (node_loop x s t out w) (\<lambda>p. Returned ((), p)))"
proof (induction "length (o_events out)" arbitrary: t out w rule: less_induct)
  case less
  show ?case
  proof (cases "n_state w = CC_NODE_STOP")
    case True
    then show ?thesis by (subst node_loop.simps) (simp add: heeds_late_def)
  next
    case False
    have h: "turn_heeds out (node_turn x s t out w)" by (rule node_turn_heeds[OF assms less.prems False])
    show ?thesis
    proof (cases "node_turn x s t out w")
      case (Returned v)
      obtain t1 out1 w1 where v: "v = (t1, out1, w1)" by (cases v)
      have l: "node_loop x s t out w = node_loop x s t1 out1 w1" using False Returned v by (subst node_loop.simps) simp
      have h1: "heeds_late out out1 w1" using h Returned v by simp
      then have "list_all silent (o_events out1)" using less.prems by (auto simp: heeds_late_def)
      then have r: "turn_heeds out1 (run_bind (node_loop x s t1 out1 w1) (\<lambda>p. Returned ((), p)))"
        using less.hyps node_turn_less[OF Returned[unfolded v]] by blast
      show ?thesis
      proof (cases "n_state w1 = CC_NODE_STOP")
        case True
        then show ?thesis unfolding l using h1 by (subst node_loop.simps) simp
      next
        case False
        show ?thesis unfolding l using r heeds_late_trans[OF h1 False] heeds_late_waiting[OF h1 False]
          by (cases "node_loop x s t1 out1 w1") auto
      qed
    qed (use h False in \<open>simp_all add: node_loop.simps[of x s t out w]\<close>)
  qed
qed

lemma heeds_late_end:
  assumes "heeds_late out out' w'" "o_events out = es1 @ e # e2 # es2" "ev_stop e"
  shows "length es2 \<le> length (o_events out')"
proof -
  obtain taken where t: "o_events out = taken @ o_events out'"
      "no_stop taken \<or> (\<exists>p e q. taken = p @ e # q \<and> no_stop p \<and> length q \<le> 1)"
    using assms(1) by (auto simp: heeds_late_def)
  have shorter: "length p \<le> length es1" if "no_stop p" "o_events out = p @ r" for p r
  proof (rule ccontr)
    assume long: "\<not> length p \<le> length es1"
    then have "e = p ! length es1" using arg_cong[OF that(2), of "\<lambda>l. l ! length es1"] assms(2) by (simp add: nth_append)
    then show False using that(1) assms(3) long by simp
  qed
  from t(2) have "length taken \<le> Suc (Suc (length es1))"
  proof (elim disjE exE conjE)
    fix p e' q assume "taken = p @ e' # q" "no_stop p" "length q \<le> 1"
    then show ?thesis using shorter[of p "e' # q @ o_events out'"] t(1) by simp
  qed (use shorter t(1) in fastforce)
  then show ?thesis using arg_cong[OF t(1), of length] assms(2) by simp
qed

text \<open>
  C5: a request to stop is heard. Let the events be such that no message arrives, a stop request (\<open>cc_api_runtime_stop\<close>)
  among them with one more event behind it, and let the node be built without sleep. Then \<open>cc_node_run\<close>
  neither waits for ever nor goes to sleep, whatever the proxies, actors and timers do; and it comes back before it has
  taken more than one event after the request, from the connection to a proxy as well as from the idle wait.
\<close>

theorem node_run_stops:
  assumes "\<not> cf_use_sleep (sys_config s)" "minds_own_state x" "connect_minds_state s"
    "list_all silent (o_events out)" "o_events out = es1 @ e # e2 # es2" "ev_stop e"
  shows "case cc_node_run x s script out w of
      Returned (r, out', w') \<Rightarrow> length es2 \<le> length (o_events out')
    | Faulted \<Rightarrow> True | Waiting \<Rightarrow> False | Asleep \<Rightarrow> False"
proof -
  have loop: "turn_heeds out (run_bind (node_loop x s t out u) (\<lambda>p. Returned ((), p)))" for t u
    by (rule node_loop_heeds[OF assms(1-4)])
  have w: "e \<in> set (butlast (o_events out))" using assms(5) by (simp add: butlast_append)
  define u where "u = (if n_proxy_uris w = [] then w\<lparr>n_state := CC_NODE_STARTED\<rparr> else w)"
  show ?thesis
  proof (cases "case script of None \<Rightarrow> Some (CC_SUCCESS, u) | Some path \<Rightarrow> cc_app_manager_load_script x (sys_platform s) path u")
    case (Some v)
    then show ?thesis
    proof (cases "node_loop x s 0 out (snd v)")
      case (Returned p)
      with loop[of 0 "snd v"] have "length es2 \<le> length (o_events (fst p))"
        using heeds_late_end[OF _ assms(5,6)] by (cases p) simp
      then show ?thesis using Some Returned assms(5) by (cases v, cases p)
        (auto simp: cc_node_run_def u_def[symmetric] Let_def split: run.split simp del: bind_Some_iff)
    qed (use loop[of 0 "snd v"] w assms(5,6) in \<open>cases v; auto simp: cc_node_run_def u_def[symmetric] Let_def\<close>)+
  qed (simp add: cc_node_run_def u_def[symmetric] Let_def)
qed

text \<open>
  C31: the price of a request to sleep. With the transport enabled, \<open>cc_node_enter_sleep\<close> sends its request, waits for one event
  and goes back to the loop as a started node when that event brings no answer - also when the event is a stop request
  of the application, whose state \<open>CC_NODE_STOP\<close> is overwritten: the node goes on running.
\<close>

theorem sleep_drops_stop:
  assumes "n_transport_client w = Some tc" "tc_state tc = CC_TRANSPORT_ENABLED"
    "cc_proto_send_sleep_request (x_mp x) t cc_node_enter_sleep_reply_handler w = Some (r, w1)"
    "o_events out = ev # evs" "silent ev"
  shows "\<exists>out' w'. cc_node_enter_sleep x s t out w = Returned (out', w') \<and> n_state w' = CC_NODE_STARTED
     \<and> o_events out' = (if r = CC_SUCCESS then evs else o_events out)"
proof (cases "r = CC_SUCCESS")
  case True
  obtain st w2 where w2: "cc_platform_evt_wait x s CONNECT_TIMEOUT out (w1\<lparr>n_state := CC_NODE_PENDING\<rparr>)
      = Returned (st, out\<lparr>o_events := evs\<rparr>, w2)" "n_state w2 = (if ev_stop ev then CC_NODE_STOP else CC_NODE_PENDING)"
    using evt_wait_silent[OF assms(4,5), of x s CONNECT_TIMEOUT "w1\<lparr>n_state := CC_NODE_PENDING\<rparr>"] by auto
  then show ?thesis using assms True by (auto simp: cc_node_enter_sleep_def)
qed (use assms in \<open>simp add: cc_node_enter_sleep_def\<close>)

definition example_event :: "bool \<Rightarrow> event" where
  "example_event b = \<lparr>ev_time = 1, ev_stop = b, ev_select = Select_timeout\<rparr>"

definition example_sys :: sys where
  "example_sys = \<lparr>sys_platform = x86_platform (free_os 1000), sys_config = example_config\<lparr>cf_use_storage := False\<rparr>,
     sys_transports = [], sys_connect = \<lambda>tc w. Some (CC_FAIL, tc, w), sys_disconnect = \<lambda>tc w. Some w, sys_capabilities = [], sys_actor_types = []\<rparr>"

definition example_out :: "bool list \<Rightarrow> outside" where
  "example_out bs = \<lparr>o_events = map example_event bs, o_inbox = []\<rparr>"

theorem sleep_drops_stop_witness:
  "\<exists>out' w'. cc_node_enter_sleep example_ext example_sys 60 (example_out [True]) (example_world\<lparr>n_proxy_tunnel := Some 0\<rparr>)
     = Returned (out', w') \<and> n_state w' = CC_NODE_STARTED"
proof -
  let ?w = "example_world\<lparr>n_proxy_tunnel := Some 0\<rparr>" and ?h = cc_node_enter_sleep_reply_handler
  obtain u w0 where g: "cc_gen_uuid (Some ''MSGID_'') ?w = (u, w0)" by (cases "cc_gen_uuid (Some ''MSGID_'') ?w")
  then have u: "key_of 42 u" using gen_uuid_key[of ?w] by simp
  let ?m = "msg_sleep_request mp_ref ''rt2'' ''rt1'' ''t'' u 60"
  note f = node_eqD[OF conjunct1[OF gen_uuid_more[OF g]]]
  have "length ?m \<le> 900"
    using u by (simp add: ref.sleep_request_enc idv_def CC_UUID_BUFFER_SIZE_def tunnel_data_v_def) (simp add: mp_ref_def enc_num_def)
  then have "fits_prefixed 1000 ?m w0" by (simp add: fits_prefixed_def fits_def f example_world_def example_client_def)
  then obtain r w1 where "send_pending 1000 ?m u ?h MD_null w0 = Some (r, w1)" using send_pending_returns by blast
  then have s: "cc_proto_send_sleep_request mp_ref 60 ?h ?w = Some (r, w1)"
    using g by (simp add: cc_proto_send_sleep_request_def proxy_tunnel_peer_def get_tunnel_def get_link_def f example_world_def)
  show ?thesis
    using sleep_drops_stop[of ?w example_client example_ext 60 r w1 "example_out [True]" "example_event True" "[]" example_sys] s
    by (auto simp: example_ext_def example_world_def example_client_def example_out_def example_event_def silent.simps)
qed

theorem node_run_stops_witness:
  "\<exists>w'. cc_node_run example_ext example_sys None (example_out [False, True, False, False]) (example_world\<lparr>n_transport_client := None\<rparr>)
     = Returned (CC_SUCCESS, example_out [False, False], w')
   \<and> 1 \<le> length (o_events (example_out [False, False]))"
proof -
  have x: "minds_own_state example_ext" "connect_minds_state example_sys" "\<not> cf_use_sleep (sys_config example_sys)"
    by (auto simp: minds_own_state_def connect_minds_state_def example_ext_def example_sys_def example_actor_ops_def
        example_caps_def example_config_def)
  have "\<exists>w'. cc_node_run example_ext example_sys None (example_out [False, True, False, False]) (example_world\<lparr>n_transport_client := None\<rparr>)
     = Returned (CC_SUCCESS, example_out [False, False], w')"
    by (simp add: cc_node_run_def node_loop.simps node_turn_def idle_wait_def cc_platform_evt_wait_def example_out_def example_event_def
        example_sys_def example_config_def example_world_def needs_proxy_def cc_calvinsys_timers_check_def fire_actors_def
        transport_waits_def waits_for_def cc_node_stop_def cc_node_free_def cc_api_runtime_stop_def)
  then show ?thesis
    using node_run_stops[OF x(3,1,2), of "example_out [False, True, False, False]" "[example_event False]" "example_event True"
        "example_event False" "[example_event False]" None "example_world\<lparr>n_transport_client := None\<rparr>"]
    by (auto simp: example_out_def example_event_def silent.simps)
qed

end
