(* ===== verification/Transport_Clients.thy ===== *)
theory Transport_Clients
  imports Transport Common
begin

text \<open>
  The transport clients of \<open>src/runtime/south/transport\<close>: the socket client with its discovery of a proxy over SSDP, the clients of
  the spritzer board and of Firebase Cloud Messaging, and the client of lwIP. The calls of the operating system and of the network
  stack are parameters. The bytes that \<open>send\<close> and \<open>recv\<close> of a socket move are those of the theory \<open>Transport\<close>.
\<close>

section \<open>The C library\<close>

text \<open>\<open>strchr\<close> and \<open>strstr\<close>: how many characters before the first occurrence; the arguments are strings up to their terminator.\<close>

fun strstr :: "bytes \<Rightarrow> bytes \<Rightarrow> nat option" where
  "strstr [] needle = (if needle = [] then Some 0 else None)"
| "strstr (c # s) needle = (if prefix needle (c # s) then Some 0 else map_option Suc (strstr s needle))"

definition strchr :: "bytes \<Rightarrow> char \<Rightarrow> nat option" where
  "strchr s c = strstr s [c]"

text \<open>
  \<open>strtol\<close>: white space, a sign, \<open>0x\<close> before a digit for base 16, and digits, saturated to 64 bits; the second result is the number of
  characters taken, 0 when there is no number.
\<close>

definition is_space :: "char \<Rightarrow> bool" where
  "is_space c = (c = CHR '' '' \<or> (9 \<le> (of_char c :: nat) \<and> (of_char c :: nat) \<le> 13))"

definition digit_of :: "nat \<Rightarrow> char \<Rightarrow> nat option" where
  "digit_of base c = (let n = of_char c;
       d = (if 48 \<le> n \<and> n \<le> 57 then n - 48 else if 97 \<le> n \<and> n \<le> 122 then n - 87 else if 65 \<le> n \<and> n \<le> 90 then n - 55 else base)
     in if d < base then Some d else None)"

abbreviation is_digit :: "nat \<Rightarrow> char \<Rightarrow> bool" where
  "is_digit base c \<equiv> digit_of base c \<noteq> None"

definition digits_value :: "nat \<Rightarrow> bytes \<Rightarrow> int" where
  "digits_value base ds = foldl (\<lambda>v c. int base * v + int (the (digit_of base c))) 0 ds"

definition strtol :: "nat \<Rightarrow> bytes \<Rightarrow> int \<times> nat" where
  "strtol base s = (let k = length (takeWhile is_space s); t = drop k s;
       sign = (case t of c # _ \<Rightarrow> c = CHR ''-'' \<or> c = CHR ''+'' | _ \<Rightarrow> False);
       u = (if sign then tl t else t);
       x = (case u of c # d # e # _ \<Rightarrow> base = 16 \<and> c = CHR ''0'' \<and> (d = CHR ''x'' \<or> d = CHR ''X'') \<and> is_digit 16 e | _ \<Rightarrow> False);
       ds = takeWhile (is_digit base) (if x then drop 2 u else u);
       v = (if sign \<and> hd t = CHR ''-'' then - digits_value base ds else digits_value base ds)
     in if ds = [] then (0, 0)
        else (max (- (2 ^ 63)) (min (2 ^ 63 - 1) v), k + (if sign then 1 else 0) + (if x then 2 else 0) + length ds))"

text \<open>The assignment of a \<open>long\<close> to an \<open>int\<close>\<close>

definition long_to_int :: "int \<Rightarrow> int" where
  "long_to_int v = sint (word_of_int v :: 32 word)"

text \<open>\<open>%d\<close> of an \<open>int\<close>\<close>

definition show_int :: "int \<Rightarrow> bytes" where
  "show_int v = (if v < 0 then CHR ''-'' # show_nat (nat (- v)) else show_nat (nat v))"

section \<open>Addresses\<close>

text \<open>\<open>while (pos > 11) { if (uri[pos] == ':') ...; pos--; }\<close>; the terminator at \<open>strlen(uri)\<close> is no colon.\<close>

fun last_colon :: "bytes \<Rightarrow> nat \<Rightarrow> nat option" where
  "last_colon uri pos = (if pos \<le> 11 then None
     else if pos < length uri \<and> uri ! pos = CHR '':'' then Some pos else last_colon uri (pos - 1))"

declare last_colon.simps [simp del]

text \<open>The address, as a pointer into the text with a length, and the port.\<close>

definition cc_transport_socket_parse_uri :: "bytes \<Rightarrow> (bytes \<times> nat \<times> int) option" where
  "cc_transport_socket_parse_uri uri =
     (if strncmp0 uri ''calvinip://'' 11 then
        (case last_colon (cstr uri) (strlen uri) of
           None \<Rightarrow> None
         | Some pos \<Rightarrow> Some (drop 11 (cstr uri), pos - 11, long_to_int (fst (strtol 10 (drop (pos + 1) (cstr uri))))))
      else None)"

section \<open>The network\<close>

text \<open>
  The calls of the operating system. \<open>net_ssdp\<close> and \<open>net_http\<close> are an exchange of one request for one answer of at most
  512 bytes; \<open>None\<close> is a failure of any of their calls or no answer within the timeout. \<open>net_fd\<close> is what memory from
  \<open>malloc\<close> holds where a descriptor will be.
\<close>

record 'w net =
  net_socket :: "'w \<Rightarrow> int \<times> 'w"
  net_connect :: "int \<Rightarrow> bytes \<Rightarrow> 16 word \<Rightarrow> 'w \<Rightarrow> bool \<times> 'w"
  net_close :: "int \<Rightarrow> 'w \<Rightarrow> 'w"
  net_ssdp :: "bytes \<Rightarrow> 'w \<Rightarrow> bytes option \<times> 'w"
  net_http :: "bytes \<Rightarrow> 16 word \<Rightarrow> bytes \<Rightarrow> 'w \<Rightarrow> bytes option \<times> 'w"
  net_fd :: int

definition CC_LOCATION_SIZE :: nat where
  "CC_LOCATION_SIZE = 200"

definition CC_RECV_BUF_SIZE :: nat where
  "CC_RECV_BUF_SIZE = 512"

definition crlf :: bytes where
  "crlf = [CHR 0x0D, CHR 0x0A]"

definition ssdp_request :: bytes where
  "ssdp_request = ''M-SEARCH * HTTP/1.1'' @ crlf @ ''HOST: 239.255.255.250:1900'' @ crlf @ ''MAN: '' @ CHR 0x22 # ''ssdp:discover'' @ CHR 0x22 # crlf
     @ ''MX: 2'' @ crlf @ ''ST: uuid:1693326a-abb9-11e4-8dfb-9cb654a16426'' @ crlf @ crlf"

text \<open>
  An answer that fills the buffer has its terminator written behind it. The location starts one character behind \<open>LOCATION:\<close>; when
  the answer ends there, the search goes on behind its terminator.
\<close>

definition cc_transport_socket_discover_location :: "'w net \<Rightarrow> 'w \<Rightarrow> (bytes option \<times> 'w) option" where
  "cc_transport_socket_discover_location net w = (case net_ssdp net ssdp_request w of
     (None, w) \<Rightarrow> Some (None, w)
   | (Some buffer, w) \<Rightarrow>
       if CC_RECV_BUF_SIZE \<le> length buffer then None
       else if \<not> strncmp0 buffer ''HTTP/1.1 200 OK'' 15 then Some (None, w)
       else (case strstr (cstr buffer) ''LOCATION:'' of
           None \<Rightarrow> Some (None, w)
         | Some n \<Rightarrow>
             if length (cstr buffer) < n + 10 then None
             else (case strstr (drop (n + 10) (cstr buffer)) crlf of
                 None \<Rightarrow> Some (None, w)
               | Some len \<Rightarrow>
                   if CC_LOCATION_SIZE < len + 1 then Some (None, w)
                   else Some (Some (take len (drop (n + 10) (cstr buffer))), w))))"

text \<open>The address is copied into an array of 100 bytes whatever its length.\<close>

definition cc_transport_socket_get_ip_uri :: "'w net \<Rightarrow> bytes \<Rightarrow> nat \<Rightarrow> int \<Rightarrow> bytes \<Rightarrow> 'w \<Rightarrow> (bytes option \<times> 'w) option" where
  "cc_transport_socket_get_ip_uri net ip ip_len port path w = (case net_http net (take ip_len ip) (word_of_int port) (''GET '' @ path @ '' HTTP/1.0'' @ crlf @ crlf) w of
     (None, w) \<Rightarrow> Some (None, w)
   | (Some buffer, w) \<Rightarrow>
       if CC_RECV_BUF_SIZE \<le> length buffer then None
       else if \<not> strncmp0 buffer ''HTTP/1.0 200 OK'' 15 then Some (None, w)
       else (case strstr (cstr buffer) ''calvinip://'' of
           None \<Rightarrow> Some (None, w)
         | Some n \<Rightarrow> (case strchr (drop n (cstr buffer)) (CHR 0x22) of
             None \<Rightarrow> Some (None, w)
           | Some len \<Rightarrow> if 100 \<le> len then None else Some (Some (take len (drop n (cstr buffer))), w))))"

definition cc_transport_socket_discover_proxy :: "'w net \<Rightarrow> 'w \<Rightarrow> (bytes option \<times> 'w) option" where
  "cc_transport_socket_discover_proxy net w = do {
     (l, w) \<leftarrow> cc_transport_socket_discover_location net w;
     case l of
       None \<Rightarrow> Some (None, w)
     | Some location \<Rightarrow>
         if \<not> strncmp0 location ''http://'' 7 then Some (None, w)
         else (let ip = drop 7 location in case strchr ip CHR '':'' of
             None \<Rightarrow> Some (None, w)
           | Some ip_len \<Rightarrow> (case strchr ip CHR ''/'' of
               None \<Rightarrow> Some (None, w)
             | Some n \<Rightarrow> (case strtol 10 (drop (ip_len + 1) ip) of (port, taken) \<Rightarrow>
                 if taken = 0 then Some (None, w)
                 else cc_transport_socket_get_ip_uri net ip ip_len (long_to_int port) (drop n ip) w))) }"

section \<open>The client\<close>

text \<open>The address of the client is printed into its array of \<open>CC_MAX_URI_LEN\<close> bytes whatever its length.\<close>

definition socket_uri :: "bytes \<Rightarrow> int \<Rightarrow> bytes" where
  "socket_uri ip port = ''calvinip://'' @ ip @ CHR '':'' # show_int port"

definition socket_client :: "'w net \<Rightarrow> bytes \<times> nat \<times> int \<Rightarrow> 'a env_scheme \<Rightarrow> (cc_transport_client option \<times> 'a env_scheme) option" where
  "socket_client net address w = (case address of (ip, ip_len, port) \<Rightarrow>
     (case mem_alloc w of (False, w) \<Rightarrow> Some (None, w) | (True, w) \<Rightarrow>
     (case mem_alloc w of (False, w) \<Rightarrow> Some (None, w) | (True, w) \<Rightarrow> do {
       ip \<leftarrow> strncpy_term 40 ip ip_len;
       let uri = socket_uri ip port;
       if CC_MAX_URI_LEN \<le> length uri then None
       else Some (Some \<lparr>tc_transport_type = CC_TRANSPORT_SOCKET_TYPE, tc_uri = uri, tc_peer_id = [], tc_state = CC_TRANSPORT_INTERFACE_UP,
         tc_rx_buffer = rx_idle, tc_client_state = Some \<lparr>sc_fd = net_fd net, sc_ip = ip, sc_port = port\<rparr>,
         tc_prefix_len = of_nat CC_TRANSPORT_LEN_PREFIX_SIZE\<rparr>, w) })))"

definition cc_transport_socket_create :: "'a env_scheme net \<Rightarrow> 'a env_scheme \<Rightarrow> bytes \<Rightarrow> (cc_transport_client option \<times> 'a env_scheme) option" where
  "cc_transport_socket_create net w uri = do {
     (u, w) \<leftarrow> (if strncmp0 uri ''ssdp'' 4 then cc_transport_socket_discover_proxy net w else Some (Some uri, w));
     case Option.bind u cc_transport_socket_parse_uri of
       None \<Rightarrow> Some (None, w)
     | Some address \<Rightarrow> socket_client net address w }"

definition cc_transport_socket_connect :: "'w net \<Rightarrow> cc_transport_client \<Rightarrow> 'w \<Rightarrow> (cc_result \<times> cc_transport_client \<times> 'w) option" where
  "cc_transport_socket_connect net client w = do {
     socket \<leftarrow> tc_client_state client;
     let (fd, w) = net_socket net w;
     let client = client\<lparr>tc_client_state := Some (socket\<lparr>sc_fd := fd\<rparr>)\<rparr>;
     if fd < 0 then Some (CC_FAIL, client, w)
     else case net_connect net fd (sc_ip socket) (word_of_int (sc_port socket)) w of
         (False, w) \<Rightarrow> Some (CC_FAIL, client, w)
       | (True, w) \<Rightarrow> Some (CC_SUCCESS, client\<lparr>tc_state := CC_TRANSPORT_CONNECTED\<rparr>, w) }"

text \<open>
  The descriptor is read from the client itself instead of its \<open>client_state\<close>: the first member of the client is its
  type, whose number is closed.
\<close>

definition transport_type_nr :: "cc_transport_type \<Rightarrow> int" where
  "transport_type_nr ty = (case ty of CC_TRANSPORT_SOCKET_TYPE \<Rightarrow> 0 | CC_TRANSPORT_BT_TYPE \<Rightarrow> 1 | CC_TRANSPORT_FCM_TYPE \<Rightarrow> 2
     | CC_TRANSPORT_SPRITZER_TYPE \<Rightarrow> 3)"

definition cc_transport_socket_disconnect :: "'w net \<Rightarrow> cc_transport_client \<Rightarrow> 'w \<Rightarrow> 'w option" where
  "cc_transport_socket_disconnect net client w =
     Some (if tc_state client \<noteq> CC_TRANSPORT_DISCONNECTED then net_close net (transport_type_nr (tc_transport_type client)) w else w)"

section \<open>The client of the spritzer board\<close>

definition cc_transport_spritzer_parse_uri :: "bytes \<Rightarrow> (bytes \<times> nat \<times> int) option" where
  "cc_transport_spritzer_parse_uri uri =
     (if \<not> strncmp0 uri ''calvinip://'' 11 then None
      else case last_colon (cstr uri) (strlen uri) of
           None \<Rightarrow> None
         | Some pos \<Rightarrow> Some (drop 11 (cstr uri), pos - 11, long_to_int (fst (strtol 10 (drop (pos + 1) (cstr uri))))))"

text \<open>The memory of the client is allocated before the address is read.\<close>

definition cc_transport_spritzer_create :: "'w net \<Rightarrow> 'a env_scheme \<Rightarrow> bytes \<Rightarrow> (cc_transport_client option \<times> 'a env_scheme) option" where
  "cc_transport_spritzer_create net w uri =
     (case mem_alloc w of (False, w) \<Rightarrow> Some (None, w) | (True, w) \<Rightarrow>
     (case mem_alloc w of (False, w) \<Rightarrow> Some (None, w) | (True, w) \<Rightarrow>
     (case cc_transport_spritzer_parse_uri uri of None \<Rightarrow> Some (None, w) | Some (ip, ip_len, port) \<Rightarrow> do {
       ip \<leftarrow> strncpy_term 20 ip ip_len;
       Some (Some \<lparr>tc_transport_type = CC_TRANSPORT_SPRITZER_TYPE, tc_uri = cstr (take CC_MAX_URI_LEN uri), tc_peer_id = [],
         tc_state = CC_TRANSPORT_INTERFACE_UP, tc_rx_buffer = rx_idle,
         tc_client_state = Some \<lparr>sc_fd = net_fd net, sc_ip = ip, sc_port = port\<rparr>,
         tc_prefix_len = of_nat CC_TRANSPORT_LEN_PREFIX_SIZE\<rparr>, w) })))"

definition cc_transport_spritzer_connect :: "'w net \<Rightarrow> cc_transport_client \<Rightarrow> 'w \<Rightarrow> (cc_result \<times> cc_transport_client \<times> 'w) option" where
  "cc_transport_spritzer_connect net client w = do {
     transport \<leftarrow> tc_client_state client;
     let (fd, w) = net_socket net w;
     let client = client\<lparr>tc_client_state := Some (transport\<lparr>sc_fd := fd\<rparr>)\<rparr>;
     if fd < 0 then Some (CC_FAIL, client, w)
     else case net_connect net fd (sc_ip transport) (word_of_int (sc_port transport)) w of
         (False, w) \<Rightarrow> Some (CC_FAIL, client, w)
       | (True, w) \<Rightarrow> Some (CC_SUCCESS, client\<lparr>tc_state := CC_TRANSPORT_CONNECTED\<rparr>, w) }"

definition cc_transport_spritzer_disconnect :: "'w net \<Rightarrow> cc_transport_client \<Rightarrow> 'w \<Rightarrow> (cc_transport_client \<times> 'w) option" where
  "cc_transport_spritzer_disconnect net client w =
     (let w = (if tc_state client \<noteq> CC_TRANSPORT_DISCONNECTED then net_close net (transport_type_nr (tc_transport_type client)) w else w)
      in Some (client\<lparr>tc_state := CC_TRANSPORT_DISCONNECTED, tc_rx_buffer := rx_idle\<rparr>, w))"

section \<open>The client of Firebase Cloud Messaging\<close>

text \<open>
  \<open>send\<close> is \<open>send_upstream_platform_message\<close> of the Android platform, with the command it is given; it returns the number of
  bytes, as does the transport's own \<open>send\<close>. The memory for the address is not checked.
\<close>

definition PLATFORM_ANDROID_COMMAND_SIZE :: nat where
  "PLATFORM_ANDROID_COMMAND_SIZE = 2"

definition transport_fcm_connect :: "('w \<Rightarrow> int \<times> 'w) \<Rightarrow> cc_transport_client \<Rightarrow> 'w \<Rightarrow> (cc_result \<times> cc_transport_client \<times> 'w) option" where
  "transport_fcm_connect send client w = (case send w of (n, w) \<Rightarrow>
     if n > 0 then Some (CC_SUCCESS, client\<lparr>tc_state := CC_TRANSPORT_PENDING\<rparr>, w)
     else Some (CC_FAIL, client\<lparr>tc_state := CC_TRANSPORT_INTERFACE_DOWN\<rparr>, w))"

definition transport_fcm_disconnect :: "cc_transport_client \<Rightarrow> 'w \<Rightarrow> 'w option" where
  "transport_fcm_disconnect client w = Some w"

definition cc_transport_fcm_create :: "'a env_scheme \<Rightarrow> bytes \<Rightarrow> (cc_transport_client option \<times> 'a env_scheme) option" where
  "cc_transport_fcm_create w uri =
     (case mem_alloc w of (False, w) \<Rightarrow> Some (None, w) | (True, w) \<Rightarrow>
     (case mem_alloc w of (False, w) \<Rightarrow> Some (None, w) | (True, w) \<Rightarrow>
       if CC_MAX_URI_LEN \<le> strlen uri then None
       else Some (Some \<lparr>tc_transport_type = CC_TRANSPORT_FCM_TYPE, tc_uri = cstr uri, tc_peer_id = [], tc_state = CC_TRANSPORT_INTERFACE_UP,
         tc_rx_buffer = rx_idle, tc_client_state = None,
         tc_prefix_len = of_nat (CC_TRANSPORT_LEN_PREFIX_SIZE + PLATFORM_ANDROID_COMMAND_SIZE)\<rparr>, w)))"

section \<open>The client of lwIP\<close>

text \<open>
  The stack calls \<open>cc_transport_lwip_data_handler\<close> with what has arrived and the runtime fetches it with \<open>recv\<close>; \<open>lw_rx\<close> are the
  first \<open>size\<close> bytes of the buffer between them. The client is one for the whole program.
\<close>

record cc_transport_lwip_client =
  lw_mac :: bytes
  lw_rx :: bytes

definition CC_TRANSPORT_RX_BUFFER_SIZE :: nat where
  "CC_TRANSPORT_RX_BUFFER_SIZE = 512"

text \<open>The packet is \<open>None\<close> when the peer has closed the connection: the stack passes a null pointer without an error.\<close>

definition cc_transport_lwip_data_handler :: "bytes option \<Rightarrow> bool \<Rightarrow> cc_transport_lwip_client \<Rightarrow> cc_transport_lwip_client option" where
  "cc_transport_lwip_data_handler buffer err_ok state =
     (if \<not> err_ok then Some state
      else do {
        b \<leftarrow> buffer;
        Some (if CC_TRANSPORT_RX_BUFFER_SIZE - length (lw_rx state) < length b then state else state\<lparr>lw_rx := lw_rx state @ b\<rparr>) })"

definition cc_transport_lwip_has_data :: "cc_transport_lwip_client \<Rightarrow> bool" where
  "cc_transport_lwip_has_data state = (0 < length (lw_rx state))"

text \<open>
  \<open>cc_transport_lwip_recv\<close> after its wait for data, which is over at once when there is some; \<open>None\<close> is the result \<open>-1\<close>.
\<close>

definition cc_transport_lwip_recv :: "nat \<Rightarrow> cc_transport_lwip_client \<Rightarrow> bytes option \<times> cc_transport_lwip_client" where
  "cc_transport_lwip_recv n state =
     (if n < length (lw_rx state) then (None, state) else (Some (lw_rx state), state\<lparr>lw_rx := []\<rparr>))"

text \<open>
  \<open>cc_transport_lwip_send\<close>: each turn hands over as much as the stack has room for and waits until it is sent. A turn is the room, whether
  the stack took the data and whether it was sent in the end; \<open>Inl False\<close> is the result \<open>-1\<close> and \<open>Inl True\<close> a wait without end.
\<close>

fun cc_transport_lwip_send :: "(nat \<times> bool \<times> bool) list \<Rightarrow> bytes \<Rightarrow> nat \<Rightarrow> bytes \<Rightarrow> (bool + nat) \<times> bytes" where
  "cc_transport_lwip_send turns buffer written wire =
     (if length buffer \<le> written then (Inr written, wire)
      else case turns of
          [] \<Rightarrow> (Inl True, wire)
        | (room, taken, sent) # turns \<Rightarrow>
            let to_write = min room (length buffer - written)
            in if \<not> taken then (Inl False, wire)
               else let wire = wire @ take to_write (drop written buffer)
                    in if \<not> sent then (Inl True, wire)
                       else cc_transport_lwip_send turns buffer (written + to_write) wire)"

declare cc_transport_lwip_send.simps [simp del]

definition cc_transport_lwip_connection_callback :: "bool \<Rightarrow> cc_transport_client \<Rightarrow> cc_transport_client" where
  "cc_transport_lwip_connection_callback err_ok client =
     (if err_ok then client\<lparr>tc_state := CC_TRANSPORT_CONNECTED\<rparr> else client\<lparr>tc_state := CC_TRANSPORT_INTERFACE_DOWN\<rparr>)"

definition cc_transport_lwip_write_complete :: "cc_transport_client \<Rightarrow> cc_transport_client" where
  "cc_transport_lwip_write_complete client = client\<lparr>tc_state := CC_TRANSPORT_ENABLED\<rparr>"

definition mac_byte :: "bytes \<Rightarrow> nat \<Rightarrow> 8 word" where
  "mac_byte mac i = word_of_int (fst (strtol 16 (drop (3 * i) mac)))"

definition hex_digit :: "nat \<Rightarrow> char" where
  "hex_digit d = char_of (if d < 10 then 48 + d else 87 + d)"

definition show_02x :: "8 word \<Rightarrow> bytes" where
  "show_02x b = [hex_digit (unat b div 16), hex_digit (unat b mod 16)]"

definition cc_transport_lwip_convert_mac_to_link_local :: "bytes \<Rightarrow> bytes" where
  "cc_transport_lwip_convert_mac_to_link_local mac =
     ''fe80::'' @ show_02x (mac_byte mac 0 XOR 2) @ show_02x (mac_byte mac 1) @ '':'' @ show_02x (mac_byte mac 2) @ ''ff:fe'' @ show_02x (mac_byte mac 3)
     @ '':'' @ show_02x (mac_byte mac 4) @ show_02x (mac_byte mac 5)"

section \<open>Reading what was printed\<close>

lemma of_char_digit: "d < 10 \<Longrightarrow> of_char (char_of (48 + d :: nat) :: char) = (48 + d :: nat)"
  by simp

lemma digit_of_digit [simp]: "d < 10 \<Longrightarrow> digit_of 10 (char_of (48 + d)) = Some d"
  by (simp add: digit_of_def Let_def of_char_digit)

lemma digit_plain: "is_digit 10 c \<Longrightarrow> \<not> is_space c \<and> c \<noteq> CHR ''-'' \<and> c \<noteq> CHR ''+'' \<and> c \<noteq> CHR '':'' \<and> c \<noteq> NUL"
  by (auto simp: digit_of_def is_space_def Let_def split: if_splits)

lemma show_nat_digits: "list_all (is_digit 10) (show_nat n) \<and> show_nat n \<noteq> []"
proof (induction n rule: show_nat.induct)
  case (1 n)
  then show ?case by (subst (1 2) show_nat.simps) auto
qed

lemma show_nat_value: "digits_value 10 (show_nat n) = int n"
proof (induction n rule: show_nat.induct)
  case (1 n)
  show ?case
  proof (cases "n < 10")
    case False
    then have "digits_value 10 (show_nat n) = 10 * int (n div 10) + int (n mod 10)"
      using 1 by (subst show_nat.simps) (simp add: digits_value_def)
    then show ?thesis using div_mult_mod_eq[of n 10] by presburger
  qed (subst show_nat.simps, simp add: digits_value_def)
qed

lemma show_nat_no_nul: "no_nul (show_nat n)" "CHR '':'' \<notin> set (show_nat n)"
  using show_nat_digits[of n] digit_plain[of NUL] digit_plain[of "CHR '':''"] unfolding list_all_iff by blast+

lemma strtol_show:
  assumes "n < 2 ^ 63"
  shows "strtol 10 (show_nat n) = (int n, length (show_nat n))"
proof -
  have ne: "show_nat n \<noteq> []" and d: "list_all (is_digit 10) (show_nat n)" using show_nat_digits by blast+
  have c: "\<not> is_space (hd (show_nat n))" "hd (show_nat n) \<noteq> CHR ''-''" "hd (show_nat n) \<noteq> CHR ''+''"
    using d ne digit_plain[of "hd (show_nat n)"] by (auto simp: list_all_iff)
  have t: "takeWhile (is_digit 10) (show_nat n) = show_nat n" using d by (simp add: takeWhile_eq_all_conv list_all_iff)
  have k: "takeWhile is_space (show_nat n) = []" using c(1) ne by (cases "show_nat n") auto
  show ?thesis unfolding strtol_def Let_def k t using c ne t assms show_nat_value[of n]
    by (simp add: list.case_eq_if t del: takeWhile_eq_all_conv)
qed

lemma last_colon_at:
  assumes "CHR '':'' \<notin> set b" "12 \<le> length a"
  shows "length a \<le> pos \<Longrightarrow> last_colon (a @ CHR '':'' # b) pos = Some (length a)"
proof (induction pos rule: less_induct)
  case (less pos)
  show ?case
  proof (cases "pos = length a")
    case True
    then show ?thesis using assms(2) by (subst last_colon.simps) simp
  next
    case False
    have "(a @ CHR '':'' # b) ! pos \<noteq> CHR '':''" if "pos < length (a @ CHR '':'' # b)"
      using that False less.prems assms(1) by (auto simp: nth_append nth_Cons split: nat.splits simp: in_set_conv_nth)
    moreover have "last_colon (a @ CHR '':'' # b) (pos - 1) = Some (length a)" using less False assms(2) by simp
    ultimately show ?thesis using False less.prems assms(2) by (subst last_colon.simps) auto
  qed
qed

lemma long_to_int_id: "- (2 ^ 31) \<le> v \<Longrightarrow> v < 2 ^ 31 \<Longrightarrow> long_to_int v = v"
  by (simp add: long_to_int_def sint_sbintrunc' signed_take_bit_int_eq_self)

definition address_ok :: "bytes \<Rightarrow> int \<Rightarrow> bool" where
  "address_ok ip port = (ip \<noteq> [] \<and> no_nul ip \<and> 0 \<le> port \<and> port < 2 ^ 31)"

lemma parse_printed:
  assumes "address_ok ip port"
  shows "cc_transport_socket_parse_uri (socket_uri ip port) = Some (ip @ CHR '':'' # show_int port, length ip, port)"
proof -
  obtain n where n: "port = int n" "n < 2 ^ 31" using assms by (auto simp: address_ok_def nonneg_int_cases intro!: that[of "nat port"])
  have s: "show_int port = show_nat n" using n by (simp add: show_int_def)
  let ?a = "''calvinip://'' @ ip"
  have u: "socket_uri ip port = ?a @ CHR '':'' # show_nat n" by (simp add: socket_uri_def s)
  have c: "cstr (socket_uri ip port) = socket_uri ip port" using assms show_nat_no_nul(1)[of n] unfolding u address_ok_def by (intro cstr_no_nul) auto
  have "12 \<le> length ?a" using assms by (cases ip) (simp_all add: address_ok_def)
  then have l: "last_colon (socket_uri ip port) (strlen (socket_uri ip port)) = Some (length ?a)"
    using last_colon_at[OF show_nat_no_nul(2), of ?a "strlen (socket_uri ip port)" n] c u by (simp add: strlen_def)
  have d: "drop (length ?a + 1) (socket_uri ip port) = show_nat n" unfolding u by simp
  have i: "long_to_int (int n) = int n" using n(2) by (intro long_to_int_id) simp_all
  have "strncmp0 (socket_uri ip port) ''calvinip://'' 11" by (simp add: socket_uri_def)
  then show ?thesis unfolding cc_transport_socket_parse_uri_def c l
    using d strtol_show[of n] n i by (simp add: socket_uri_def s)
qed

section \<open>Clients over sockets\<close>

lemma mem_alloc_quiet: "e_alloc w = [] \<Longrightarrow> mem_alloc w = (True, w)"
  by (simp add: mem_alloc_def)

text \<open>
  C35: a client and its address. The client that \<open>cc_transport_socket_create\<close> makes for an address and a port has them, and its own
  \<open>uri\<close>, made from them again, is the text it was created from; for this the text and the address have to fit their
  arrays. The ports of the network are among those for which it holds, also with an address that has colons.
\<close>

theorem socket_client_address:
  assumes "e_alloc w = []" "address_ok ip port" "length ip < 40" "length (socket_uri ip port) < CC_MAX_URI_LEN"
  shows "\<exists>client. cc_transport_socket_create net w (socket_uri ip port) = Some (Some client, w)
     \<and> tc_uri client = socket_uri ip port \<and> tc_state client = CC_TRANSPORT_INTERFACE_UP \<and> tc_rx_buffer client = rx_idle
     \<and> tc_client_state client = Some \<lparr>sc_fd = net_fd net, sc_ip = ip, sc_port = port\<rparr>"
proof -
  have "\<not> strncmp0 (socket_uri ip port) ''ssdp'' 4" by (simp add: socket_uri_def)
  moreover have "cstr (take (length ip) (ip @ CHR '':'' # show_int port)) = ip" using assms(2) by (simp add: address_ok_def)
  ultimately show ?thesis using assms mem_alloc_quiet[OF assms(1)]
    by (simp add: cc_transport_socket_create_def parse_printed socket_client_def strncpy_term_def Let_def)
qed

lemma socket_client_state:
  assumes "cc_transport_socket_create net w uri = Some (Some client, w1)"
  shows "tc_transport_type client = CC_TRANSPORT_SOCKET_TYPE \<and> tc_client_state client \<noteq> None"
proof -
  obtain u v where u: "(if strncmp0 uri ''ssdp'' 4 then cc_transport_socket_discover_proxy net w else Some (Some uri, w)) = Some (u, v)"
    using assms by (auto simp: cc_transport_socket_create_def simp del: strncmp0_numeral split: if_splits)
  then obtain ip n port where "Option.bind u cc_transport_socket_parse_uri = Some (ip, n, port)" "socket_client net (ip, n, port) v = Some (Some client, w1)"
    using assms by (auto simp: cc_transport_socket_create_def simp del: strncmp0_numeral split: option.splits)
  then show ?thesis by (auto simp: socket_client_def Let_def split: prod.splits bool.splits if_splits)
qed


section \<open>The header over lwIP\<close>

text \<open>What arrives and the requests for the header of a message, in any order; the answers to the requests.\<close>

datatype lwip_event = Arrives bytes | Asks_header

fun lwip_run :: "lwip_event list \<Rightarrow> cc_transport_lwip_client \<Rightarrow> bytes option list" where
  "lwip_run [] state = []"
| "lwip_run (Arrives b # evs) state = (case cc_transport_lwip_data_handler (Some b) True state of None \<Rightarrow> [] | Some state \<Rightarrow> lwip_run evs state)"
| "lwip_run (Asks_header # evs) state = (case cc_transport_lwip_recv CC_TRANSPORT_LEN_PREFIX_SIZE state of (r, state) \<Rightarrow> r # lwip_run evs state)"

text \<open>
  More than a header is lost. \<open>cc_transport_handle_data\<close> asks for the four bytes of a header first, and
  \<open>cc_transport_lwip_recv\<close> refuses a request for less than there is. Once more than four bytes have arrived, every request for a
  header fails, whatever arrives later: no further message reaches the runtime.
\<close>

lemma lwip_header_refused:
  assumes "CC_TRANSPORT_LEN_PREFIX_SIZE < length (lw_rx state)"
  shows "list_all (\<lambda>r. r = None) (lwip_run evs state)"
  using assms
proof (induction evs arbitrary: state)
  case (Cons ev evs)
  then show ?case
    by (cases ev) (auto simp: cc_transport_lwip_data_handler_def cc_transport_lwip_recv_def)
qed simp

text \<open>Sending over lwIP hands over the whole message in order when it returns its length.\<close>

lemma lwip_send_sends:
  assumes "cc_transport_lwip_send turns buffer written wire = (Inr n, wire')" "written \<le> length buffer"
  shows "n = length buffer \<and> wire' = wire @ drop written buffer"
  using assms
proof (induction turns arbitrary: written wire)
  case Nil
  then show ?case by (subst (asm) cc_transport_lwip_send.simps) (auto split: if_splits)
next
  case (Cons turn turns)
  obtain room taken sent where turn: "turn = (room, taken, sent)" by (cases turn)
  show ?case
  proof (cases "length buffer \<le> written")
    case True
    then show ?thesis using Cons.prems by (subst (asm) cc_transport_lwip_send.simps) auto
  next
    case False
    let ?k = "min room (length buffer - written)"
    have r: "cc_transport_lwip_send turns buffer (written + ?k) (wire @ take ?k (drop written buffer)) = (Inr n, wire')"
      using Cons.prems(1) False turn by (subst (asm) cc_transport_lwip_send.simps) (auto simp: Let_def split: if_splits)
    have "take ?k (drop written buffer) @ drop (written + ?k) buffer = drop written buffer"
      by (metis append_take_drop_id drop_drop add.commute)
    with Cons.IH[OF r] False show ?thesis by auto
  qed
qed

section \<open>Examples\<close>

text \<open>A network in which every connection succeeds with descriptor 5; the time of the environment tells what was closed last.\<close>

definition example_net :: "env net" where
  "example_net = \<lparr>net_socket = \<lambda>w. (5, w), net_connect = \<lambda>fd ip port w. (True, w), net_close = \<lambda>fd w. w\<lparr>e_time := word_of_int fd\<rparr>,
     net_ssdp = \<lambda>request w. (None, w), net_http = \<lambda>ip port request w. (None, w), net_fd = 77\<rparr>"

lemma example_address: "address_ok ''10.0.0.1'' 5000" "socket_uri ''10.0.0.1'' 5000 = ''calvinip://10.0.0.1:5000''"
  by (simp add: address_ok_def) (simp add: socket_uri_def show_int_def show_nat.simps char_of_def bit_0)

theorem socket_client_address_witness:
  "\<exists>client. cc_transport_socket_create example_net quiet_env ''calvinip://10.0.0.1:5000'' = Some (Some client, quiet_env)
     \<and> tc_uri client = ''calvinip://10.0.0.1:5000'' \<and> map_option sc_ip (tc_client_state client) = Some ''10.0.0.1''"
proof -
  have "e_alloc quiet_env = []" by (simp add: quiet_env_def)
  from socket_client_address[OF this example_address(1), of example_net] show ?thesis
    unfolding example_address(2) by (auto simp: CC_MAX_URI_LEN_def)
qed


end
