(* ===== verification/Drivers.thy ===== *)
theory Drivers
  imports Calvinsys "HOL-Library.Log_Nat"
begin

text \<open>
  The capabilities of the platforms: \<open>src/runtime/south/platform/x86/calvinsys\<close> (pins and a thermometer for tests),
  \<open>esp-open-rtos/calvinsys\<close> (pins, the thermometer DS18B20 and the soil sensor YL-69), \<open>spritzer/calvinsys\<close> (a thermometer) and
  \<open>android/calvinsys\<close> (accelerometer and gyroscope). What the hardware answers is the record \<open>board\<close>; what is asked of it
  is recorded in \<open>e_hw\<close>.
\<close>

section \<open>Numbers\<close>

text \<open>
  The bits of the floating point number \<open>m * 2 ^ - s\<close>, with \<open>p\<close> fraction and \<open>w\<close> exponent bits, for a number that
  has no more than \<open>p + 1\<close> significant bits and is neither too big nor too small.
\<close>

definition ieee :: "nat \<Rightarrow> nat \<Rightarrow> nat \<Rightarrow> int \<Rightarrow> nat" where
  "ieee p w s m = (if m = 0 then 0
     else let a = nat \<bar>m\<bar>; e = floorlog 2 a - 1
          in (if m < 0 then 2 ^ (p + w) else 0) + (2 ^ (w - 1) - 1 + e - s) * 2 ^ p + (a * 2 ^ p div 2 ^ e - 2 ^ p))"

definition float_bits :: "nat \<Rightarrow> int \<Rightarrow> u32" where
  "float_bits s m = of_nat (ieee 23 8 s m)"

definition double_bits :: "nat \<Rightarrow> int \<Rightarrow> u64" where
  "double_bits s m = of_nat (ieee 52 11 s m)"

text \<open>The sum of two \<open>float\<close> numbers in halves, rounded to 24 bits, ties to even.\<close>

definition round_24 :: "nat \<Rightarrow> nat" where
  "round_24 n = (let k = floorlog 2 n - 24; q = n div 2 ^ k; r = n mod 2 ^ k
     in (if 2 ^ k < 2 * r \<or> 2 * r = 2 ^ k \<and> 0 < k \<and> odd q then q + 1 else q) * 2 ^ k)"

definition float_add :: "int \<Rightarrow> int \<Rightarrow> int" where
  "float_add h d = sgn (h + d) * int (round_24 (nat \<bar>h + d\<bar>))"

section \<open>What the drivers share\<close>

record board =
  hw_adc :: "world \<Rightarrow> 16 word"
  hw_ds18b20_scan :: "u32 \<Rightarrow> world \<Rightarrow> int \<times> u64"
  hw_ds18b20_read :: "u32 \<Rightarrow> u64 \<Rightarrow> world \<Rightarrow> u32"
  hw_sensor :: "bytes \<Rightarrow> world \<Rightarrow> bool"
  hw_fresh_float :: "world \<Rightarrow> u32"

definition hw :: "hw_call \<Rightarrow> world \<Rightarrow> world" where
  "hw c w = w\<lparr>e_hw := e_hw w @ [c]\<rparr>"

text \<open>\<open>obj->capability->init_args\<close>; a null pointer is a fault, because it is read.\<close>

definition init_args_of :: "addr \<Rightarrow> world \<Rightarrow> bytes option" where
  "init_args_of a w = do { ob \<leftarrow> h_objs w a; capability \<leftarrow> h_caps w (o_capability ob); cap_init_args capability }"

text \<open>Memory of \<open>n\<close> bytes, filled with \<open>b\<close>; more than \<open>n\<close> bytes are a fault. \<open>len\<close> is the size that is reported.\<close>

definition boxed :: "u32 \<Rightarrow> bytes \<Rightarrow> nat \<Rightarrow> world \<Rightarrow> ((bytes \<times> nat) option \<times> world) option" where
  "boxed n b len w = (case mem_alloc w of
     (False, w) \<Rightarrow> Some (None, w)
   | (True, w) \<Rightarrow> if unat n < length b then None else Some (Some (b, len), w))"

definition free_state :: "addr \<Rightarrow> world \<Rightarrow> (cc_result \<times> world) option" where
  "free_state a w = do { w \<leftarrow> set_obj_state a OS_null w; Some (CC_SUCCESS, w) }"

section \<open>Pins of the x86 tests\<close>

definition get_gpio :: "addr \<Rightarrow> world \<Rightarrow> cc_gpio_state option" where
  "get_gpio a w = do { ob \<leftarrow> h_objs w a; case o_state ob of OS_gpio s \<Rightarrow> Some s | _ \<Rightarrow> None }"

definition cc_gpio_can_write :: "addr \<Rightarrow> world \<Rightarrow> (bool \<times> world) option" where
  "cc_gpio_can_write a w = Some (True, w)"

definition cc_gpio_write :: "mp \<Rightarrow> addr \<Rightarrow> bytes \<Rightarrow> nat \<Rightarrow> world \<Rightarrow> (cc_result \<times> world) option" where
  "cc_gpio_write mp a data n w = do {
     v \<leftarrow> cc_coder_decode_uint mp data;
     case v of Some value \<Rightarrow> Some (CC_SUCCESS, w) | None \<Rightarrow> Some (CC_FAIL, w) }"

definition cc_gpio_can_read :: "addr \<Rightarrow> world \<Rightarrow> (bool \<times> world) option" where
  "cc_gpio_can_read a w = do { s \<leftarrow> get_gpio a w; Some (gp_readings s < 5, w) }"

definition cc_gpio_read :: "mp \<Rightarrow> addr \<Rightarrow> world \<Rightarrow> (cc_result \<times> (bytes \<times> nat) option \<times> world) option" where
  "cc_gpio_read mp a w = do {
     s \<leftarrow> get_gpio a w;
     let s = (if gp_value s = 1 then s\<lparr>gp_value := 0\<rparr> else s\<lparr>gp_value := 0\<rparr>);
     w \<leftarrow> set_obj_state a (OS_gpio s) w;
     let b = cc_coder_encode_uint mp [] (gp_value s);
     (d, w) \<leftarrow> boxed (cc_coder_sizeof_uint mp (gp_value s)) b (length b) w;
     case d of
       None \<Rightarrow> Some (CC_FAIL, None, w)
     | Some d \<Rightarrow> do {
         w \<leftarrow> set_obj_state a (OS_gpio (s\<lparr>gp_readings := gp_readings s + 1\<rparr>)) w;
         Some (CC_SUCCESS, Some d, w) } }"

definition cc_gpio_close :: "addr \<Rightarrow> world \<Rightarrow> (cc_result \<times> world) option" where
  "cc_gpio_close a w = free_state a w"

text \<open>The direction is compared over its own length, so that an empty text is an output as well.\<close>

definition cc_test_gpio_open :: "mp \<Rightarrow> addr \<Rightarrow> bytes cc_list \<Rightarrow> world \<Rightarrow> (cc_result \<times> world) option" where
  "cc_test_gpio_open mp a kwargs w = do {
     init_args \<leftarrow> init_args_of a w;
     d \<leftarrow> cc_coder_decode_string_from_map mp init_args ''direction'';
     case d of None \<Rightarrow> Some (CC_FAIL, w) | Some (direction, len) \<Rightarrow> do {
     p \<leftarrow> cc_coder_decode_uint_from_map mp init_args ''pin'';
     case p of None \<Rightarrow> Some (CC_FAIL, w) | Some pin \<Rightarrow>
     (case mem_alloc w of (False, w) \<Rightarrow> Some (CC_FAIL, w) | (True, w) \<Rightarrow> do {
       w \<leftarrow> install a (Impl_ext ''cc_test_gpio_open'') (OS_gpio \<lparr>gp_pin = pin,
              gp_direction = (if strncmp0 direction ''out'' (unat len) then CC_GPIO_OUT else CC_GPIO_IN), gp_value = 0, gp_readings = 0\<rparr>) w;
       Some (CC_SUCCESS, w) }) } }"

definition test_gpio :: "mp \<Rightarrow> cap_ops" where
  "test_gpio mp = \<lparr>xo_open = cc_test_gpio_open mp, xo_deserialize = cc_test_gpio_open mp, xo_can_write = Some cc_gpio_can_write,
     xo_write = Some (cc_gpio_write mp), xo_can_read = Some cc_gpio_can_read, xo_read = Some (cc_gpio_read mp), xo_close = Some cc_gpio_close,
     xo_serialize = None\<rparr>"

section \<open>The thermometers of the x86 tests and of the spritzer board\<close>

definition get_temperature :: "addr \<Rightarrow> world \<Rightarrow> cc_temperature_state option" where
  "get_temperature a w = do { ob \<leftarrow> h_objs w a; case o_state ob of OS_temperature s \<Rightarrow> Some s | _ \<Rightarrow> None }"

definition cc_temperature_can_read :: "addr \<Rightarrow> world \<Rightarrow> (bool \<times> world) option" where
  "cc_temperature_can_read a w = do { s \<leftarrow> get_temperature a w; Some (te_can_read s, w) }"

text \<open>The next value and direction: up to 20 degrees and down to 10.\<close>

definition next_temperature :: "bool \<Rightarrow> int \<Rightarrow> int \<times> bool" where
  "next_temperature add v = (let v = float_add v (if add then 2 else - 2);
       add = (if 40 \<le> v then False else add);
       add = (if v \<le> 20 then True else add)
     in (v, add))"

definition cc_temperature_read :: "mp \<Rightarrow> addr \<Rightarrow> world \<Rightarrow> (cc_result \<times> (bytes \<times> nat) option \<times> world) option" where
  "cc_temperature_read mp a w = do {
     s \<leftarrow> get_temperature a w;
     if \<not> te_can_read s then Some (CC_FAIL, None, w)
     else do {
       let d = double_bits 1 (te_value s);
       let n = cc_coder_sizeof_double mp d;
       (d, w) \<leftarrow> boxed n (cc_coder_encode_double mp [] d) (unat n) w;
       case d of
         None \<Rightarrow> Some (CC_FAIL, None, w)
       | Some d \<Rightarrow> (case next_temperature (e_temperature_add w) (te_value s) of (v, add) \<Rightarrow> do {
           w \<leftarrow> set_obj_state a (OS_temperature (s\<lparr>te_value := v, te_can_read := False\<rparr>)) (w\<lparr>e_temperature_add := add\<rparr>);
           Some (CC_SUCCESS, Some d, w) }) } }"

definition cc_temperature_can_write :: "addr \<Rightarrow> world \<Rightarrow> (bool \<times> world) option" where
  "cc_temperature_can_write a w = Some (True, w)"

definition cc_temperature_write :: "mp \<Rightarrow> addr \<Rightarrow> bytes \<Rightarrow> nat \<Rightarrow> world \<Rightarrow> (cc_result \<times> world) option" where
  "cc_temperature_write mp a data n w = do {
     s \<leftarrow> get_temperature a w;
     v \<leftarrow> cc_coder_decode_bool mp data;
     case v of
       None \<Rightarrow> Some (CC_FAIL, w)
     | Some b \<Rightarrow> do { w \<leftarrow> set_obj_state a (OS_temperature (s\<lparr>te_can_read := b\<rparr>)) w; Some (CC_SUCCESS, w) } }"

definition cc_temperature_close :: "addr \<Rightarrow> world \<Rightarrow> (cc_result \<times> world) option" where
  "cc_temperature_close a w = free_state a w"

definition cc_test_temperature_open :: "addr \<Rightarrow> bytes cc_list \<Rightarrow> world \<Rightarrow> (cc_result \<times> world) option" where
  "cc_test_temperature_open a kwargs w = (case mem_alloc w of (False, w) \<Rightarrow> Some (CC_FAIL, w) | (True, w) \<Rightarrow> do {
     w \<leftarrow> install a (Impl_ext ''cc_test_temperature_open'') (OS_temperature \<lparr>te_can_read = False, te_value = 31\<rparr>) w;
     Some (CC_SUCCESS, w) })"

definition test_temperature :: "mp \<Rightarrow> cap_ops" where
  "test_temperature mp = \<lparr>xo_open = cc_test_temperature_open, xo_deserialize = cc_test_temperature_open, xo_can_write = Some cc_temperature_can_write,
     xo_write = Some (cc_temperature_write mp), xo_can_read = Some cc_temperature_can_read, xo_read = Some (cc_temperature_read mp),
     xo_close = Some cc_temperature_close, xo_serialize = None\<rparr>"

definition cc_calvinsys_temp_sensor_can_write :: "addr \<Rightarrow> world \<Rightarrow> (bool \<times> world) option" where
  "cc_calvinsys_temp_sensor_can_write a w = Some (True, w)"

definition cc_calvinsys_temp_sensor_write :: "mp \<Rightarrow> addr \<Rightarrow> bytes \<Rightarrow> nat \<Rightarrow> world \<Rightarrow> (cc_result \<times> world) option" where
  "cc_calvinsys_temp_sensor_write mp a data n w = do {
     s \<leftarrow> get_temperature a w;
     v \<leftarrow> cc_coder_decode_bool mp data;
     case v of
       None \<Rightarrow> Some (CC_FAIL, w)
     | Some b \<Rightarrow> do { w \<leftarrow> set_obj_state a (OS_temperature (s\<lparr>te_can_read := b\<rparr>)) w; Some (CC_SUCCESS, w) } }"

definition cc_calvinsys_temp_sensor_can_read :: "addr \<Rightarrow> world \<Rightarrow> (bool \<times> world) option" where
  "cc_calvinsys_temp_sensor_can_read a w = do { s \<leftarrow> get_temperature a w; Some (te_can_read s, w) }"

definition cc_calvinsys_temp_sensor_read :: "mp \<Rightarrow> addr \<Rightarrow> world \<Rightarrow> (cc_result \<times> (bytes \<times> nat) option \<times> world) option" where
  "cc_calvinsys_temp_sensor_read mp a w = do {
     s \<leftarrow> get_temperature a w;
     if \<not> te_can_read s then Some (CC_FAIL, None, w)
     else do {
       let d = double_bits 1 (te_value s);
       let n = cc_coder_sizeof_double mp d;
       (d, w) \<leftarrow> boxed n (cc_coder_encode_double mp [] d) (unat n) w;
       case d of
         None \<Rightarrow> Some (CC_FAIL, None, w)
       | Some d \<Rightarrow> do {
           w \<leftarrow> set_obj_state a (OS_temperature (s\<lparr>te_value := float_add (te_value s) 2, te_can_read := False\<rparr>)) w;
           Some (CC_SUCCESS, Some d, w) } } }"

definition cc_calvinsys_temp_sensor_close :: "addr \<Rightarrow> world \<Rightarrow> (cc_result \<times> world) option" where
  "cc_calvinsys_temp_sensor_close a w = free_state a w"

definition cc_calvinsys_temp_sensor_open :: "addr \<Rightarrow> bytes cc_list \<Rightarrow> world \<Rightarrow> (cc_result \<times> world) option" where
  "cc_calvinsys_temp_sensor_open a kwargs w = (case mem_alloc w of (False, w) \<Rightarrow> Some (CC_FAIL, w) | (True, w) \<Rightarrow> do {
     w \<leftarrow> install a (Impl_ext ''cc_calvinsys_temp_sensor_open'') (OS_temperature \<lparr>te_can_read = False, te_value = 11\<rparr>) w;
     Some (CC_SUCCESS, w) })"

text \<open>A capability without a function to deserialise: calling the null pointer is a fault.\<close>

definition temp_sensor :: "mp \<Rightarrow> cap_ops" where
  "temp_sensor mp = \<lparr>xo_open = cc_calvinsys_temp_sensor_open, xo_deserialize = \<lambda>a kwargs w. None, xo_can_write = Some cc_calvinsys_temp_sensor_can_write,
     xo_write = Some (cc_calvinsys_temp_sensor_write mp), xo_can_read = Some cc_calvinsys_temp_sensor_can_read,
     xo_read = Some (cc_calvinsys_temp_sensor_read mp), xo_close = Some cc_calvinsys_temp_sensor_close, xo_serialize = None\<rparr>"

section \<open>The ESP8266\<close>

definition get_esp_gpio :: "addr \<Rightarrow> world \<Rightarrow> cc_calvinsys_gpio_state option" where
  "get_esp_gpio a w = do { ob \<leftarrow> h_objs w a; case o_state ob of OS_esp_gpio s \<Rightarrow> Some s | _ \<Rightarrow> None }"

definition cc_calvinsys_gpio_can_write :: "addr \<Rightarrow> world \<Rightarrow> (bool \<times> world) option" where
  "cc_calvinsys_gpio_can_write a w = do { s \<leftarrow> get_esp_gpio a w; Some (eg_direction s = CC_GPIO_OUT, w) }"

definition cc_calvinsys_gpio_write :: "mp \<Rightarrow> addr \<Rightarrow> bytes \<Rightarrow> nat \<Rightarrow> world \<Rightarrow> (cc_result \<times> world) option" where
  "cc_calvinsys_gpio_write mp a data n w = do {
     v \<leftarrow> cc_coder_decode_uint mp data;
     case v of
       None \<Rightarrow> Some (CC_FAIL, w)
     | Some value \<Rightarrow> do { s \<leftarrow> get_esp_gpio a w; Some (CC_SUCCESS, hw (Gpio_write (ucast (eg_pin s)) value) w) } }"

definition cc_calvinsys_gpio_close :: "addr \<Rightarrow> world \<Rightarrow> (cc_result \<times> world) option" where
  "cc_calvinsys_gpio_close a w = do {
     s \<leftarrow> get_esp_gpio a w;
     free_state a (hw (Gpio_disable (ucast (eg_pin s))) w) }"

definition cc_calvinsys_gpio_open :: "mp \<Rightarrow> addr \<Rightarrow> bytes cc_list \<Rightarrow> world \<Rightarrow> (cc_result \<times> world) option" where
  "cc_calvinsys_gpio_open mp a kwargs w = do {
     init_args \<leftarrow> init_args_of a w;
     d \<leftarrow> cc_coder_decode_string_from_map mp init_args ''direction'';
     case d of None \<Rightarrow> Some (CC_FAIL, w) | Some (direction, len) \<Rightarrow> do {
     p \<leftarrow> cc_coder_decode_uint_from_map mp init_args ''pin'';
     case p of None \<Rightarrow> Some (CC_FAIL, w) | Some pin \<Rightarrow>
     (case mem_alloc w of (False, w) \<Rightarrow> Some (CC_FAIL, w) | (True, w) \<Rightarrow>
       if strncmp0 direction ''out'' (unat len) then do {
         w \<leftarrow> install a (Impl_ext ''cc_calvinsys_gpio_open'') (OS_esp_gpio \<lparr>eg_pin = ucast pin, eg_direction = CC_GPIO_OUT\<rparr>)
                (hw (Gpio_write pin 0) (hw (Gpio_enable pin) w));
         Some (CC_SUCCESS, w) }
       else Some (CC_FAIL, w)) } }"

definition esp_gpio :: "mp \<Rightarrow> cap_ops" where
  "esp_gpio mp = \<lparr>xo_open = cc_calvinsys_gpio_open mp, xo_deserialize = \<lambda>a kwargs w. None, xo_can_write = Some cc_calvinsys_gpio_can_write,
     xo_write = Some (cc_calvinsys_gpio_write mp), xo_can_read = None, xo_read = None, xo_close = Some cc_calvinsys_gpio_close,
     xo_serialize = None\<rparr>"

definition get_ds18b20 :: "addr \<Rightarrow> world \<Rightarrow> cc_calvinsys_temperature_state option" where
  "get_ds18b20 a w = do { ob \<leftarrow> h_objs w a; case o_state ob of OS_ds18b20 s \<Rightarrow> Some s | _ \<Rightarrow> None }"

definition cc_calvinsys_ds18b20_can_write :: "addr \<Rightarrow> world \<Rightarrow> (bool \<times> world) option" where
  "cc_calvinsys_ds18b20_can_write a w = Some (True, w)"

definition cc_calvinsys_ds18b20_write :: "board \<Rightarrow> mp \<Rightarrow> addr \<Rightarrow> bytes \<Rightarrow> nat \<Rightarrow> world \<Rightarrow> (cc_result \<times> world) option" where
  "cc_calvinsys_ds18b20_write brd mp a data n w = do {
     s \<leftarrow> get_ds18b20 a w;
     v \<leftarrow> cc_coder_decode_bool mp data;
     case v of
       None \<Rightarrow> do { w \<leftarrow> set_obj_state a (OS_ds18b20 (s\<lparr>ds_can_read := False\<rparr>)) w; Some (CC_FAIL, w) }
     | Some b \<Rightarrow> do {
         let s = s\<lparr>ds_can_read := b\<rparr>;
         w \<leftarrow> set_obj_state a (OS_ds18b20 s) w;
         if b then (case hw_ds18b20_scan brd (ds_pin s) w of (nsensors, sensor) \<Rightarrow>
           if nsensors < 1 then Some (CC_FAIL, w)
           else do {
             w \<leftarrow> set_obj_state a (OS_ds18b20 (s\<lparr>ds_temp := hw_ds18b20_read brd (ds_pin s) sensor w\<rparr>)) w;
             Some (CC_SUCCESS, w) })
         else Some (CC_SUCCESS, w) } }"

definition cc_calvinsys_ds18b20_can_read :: "addr \<Rightarrow> world \<Rightarrow> (bool \<times> world) option" where
  "cc_calvinsys_ds18b20_can_read a w = do { s \<leftarrow> get_ds18b20 a w; Some (ds_can_read s, w) }"

definition cc_calvinsys_ds18b20_read :: "mp \<Rightarrow> addr \<Rightarrow> world \<Rightarrow> (cc_result \<times> (bytes \<times> nat) option \<times> world) option" where
  "cc_calvinsys_ds18b20_read mp a w = do {
     s \<leftarrow> get_ds18b20 a w;
     let n = cc_coder_sizeof_float mp (ds_temp s);
     (d, w) \<leftarrow> boxed n (cc_coder_encode_float mp [] (ds_temp s)) (unat n) w;
     case d of
       None \<Rightarrow> Some (CC_FAIL, None, w)
     | Some d \<Rightarrow> do { w \<leftarrow> set_obj_state a (OS_ds18b20 (s\<lparr>ds_can_read := False\<rparr>)) w; Some (CC_SUCCESS, Some d, w) } }"

definition cc_calvinsys_ds18b20_close :: "addr \<Rightarrow> world \<Rightarrow> (cc_result \<times> world) option" where
  "cc_calvinsys_ds18b20_close a w = free_state a w"

text \<open>The temperature of a new object is what its memory holds.\<close>

definition cc_calvinsys_ds18b20_open :: "board \<Rightarrow> mp \<Rightarrow> addr \<Rightarrow> bytes cc_list \<Rightarrow> world \<Rightarrow> (cc_result \<times> world) option" where
  "cc_calvinsys_ds18b20_open brd mp a kwargs w = (case mem_alloc w of (False, w) \<Rightarrow> Some (CC_FAIL, w) | (True, w) \<Rightarrow> do {
     init_args \<leftarrow> init_args_of a w;
     p \<leftarrow> cc_coder_decode_uint_from_map mp init_args ''pin'';
     case p of None \<Rightarrow> Some (CC_FAIL, w) | Some pin \<Rightarrow> do {
     w \<leftarrow> install a (Impl_ext ''cc_calvinsys_ds18b20_open'') (OS_ds18b20 \<lparr>ds_pin = pin, ds_can_read = False, ds_temp = hw_fresh_float brd w\<rparr>) w;
     Some (CC_SUCCESS, w) } })"

definition ds18b20 :: "board \<Rightarrow> mp \<Rightarrow> cap_ops" where
  "ds18b20 brd mp = \<lparr>xo_open = cc_calvinsys_ds18b20_open brd mp, xo_deserialize = \<lambda>a kwargs w. None, xo_can_write = Some cc_calvinsys_ds18b20_can_write,
     xo_write = Some (cc_calvinsys_ds18b20_write brd mp), xo_can_read = Some cc_calvinsys_ds18b20_can_read,
     xo_read = Some (cc_calvinsys_ds18b20_read mp), xo_close = Some cc_calvinsys_ds18b20_close, xo_serialize = None\<rparr>"

definition cc_calvinsys_yl69_can_read :: "addr \<Rightarrow> world \<Rightarrow> (bool \<times> world) option" where
  "cc_calvinsys_yl69_can_read a w = Some (True, w)"

text \<open>
  \<open>(1024 - adc_value) / 1024 * 100\<close> in \<open>float\<close>: each step is exact, because the reading has 16 bits.
\<close>

definition yl69_humidity :: "16 word \<Rightarrow> u32" where
  "yl69_humidity adc_value = float_bits 10 ((1024 - uint adc_value) * 100)"

definition cc_calvinsys_yl69_read :: "board \<Rightarrow> mp \<Rightarrow> addr \<Rightarrow> world \<Rightarrow> (cc_result \<times> (bytes \<times> nat) option \<times> world) option" where
  "cc_calvinsys_yl69_read brd mp a w = do {
     let humidity = yl69_humidity (hw_adc brd w);
     let n = cc_coder_sizeof_float mp humidity;
     (d, w) \<leftarrow> boxed n (cc_coder_encode_float mp [] humidity) (unat n) w;
     Some (case d of None \<Rightarrow> CC_FAIL | Some _ \<Rightarrow> CC_SUCCESS, d, w) }"

text \<open>The state of the object stays a null pointer.\<close>

definition cc_calvinsys_yl69_open :: "addr \<Rightarrow> bytes cc_list \<Rightarrow> world \<Rightarrow> (cc_result \<times> world) option" where
  "cc_calvinsys_yl69_open a kwargs w = do { w \<leftarrow> install a (Impl_ext ''cc_calvinsys_yl69_open'') OS_null w; Some (CC_SUCCESS, w) }"

definition yl69 :: "board \<Rightarrow> mp \<Rightarrow> cap_ops" where
  "yl69 brd mp = \<lparr>xo_open = cc_calvinsys_yl69_open, xo_deserialize = \<lambda>a kwargs w. None, xo_can_write = None, xo_write = None,
     xo_can_read = Some cc_calvinsys_yl69_can_read, xo_read = Some (cc_calvinsys_yl69_read brd mp), xo_close = None, xo_serialize = None\<rparr>"

section \<open>Accelerometer and gyroscope of Android\<close>

text \<open>
  The two files are the same up to the sensor, which is the argument \<open>sensor\<close>. The size of the data is unset at first, where
  there is no data either.
\<close>

definition get_sensor :: "addr \<Rightarrow> world \<Rightarrow> cc_android_sensor_data option" where
  "get_sensor a w = do { ob \<leftarrow> h_objs w a; case o_state ob of OS_android_sensor s \<Rightarrow> Some s | _ \<Rightarrow> None }"

definition has_data :: "bytes option \<Rightarrow> nat \<Rightarrow> bool" where
  "has_data data data_size = (data \<noteq> None \<and> 0 < data_size)"

definition cc_accelerometer_can_read :: "addr \<Rightarrow> world \<Rightarrow> (bool \<times> world) option" where
  "cc_accelerometer_can_read a w = do { s \<leftarrow> get_sensor a w; Some (has_data (as_data s) (as_data_size s), w) }"

definition cc_accelerometer_read :: "addr \<Rightarrow> world \<Rightarrow> (cc_result \<times> (bytes \<times> nat) option \<times> world) option" where
  "cc_accelerometer_read a w = do {
     s \<leftarrow> get_sensor a w;
     case as_data s of
       Some data \<Rightarrow>
         if 0 < as_data_size s then do {
           w \<leftarrow> set_obj_state a (OS_android_sensor (s\<lparr>as_data := None, as_data_size := 0\<rparr>)) w;
           Some (CC_SUCCESS, Some (data, as_data_size s), w) }
         else Some (CC_FAIL, None, w)
     | None \<Rightarrow> Some (CC_FAIL, None, w) }"

definition cc_accelerometer_close :: "bytes \<Rightarrow> addr \<Rightarrow> world \<Rightarrow> (cc_result \<times> world) option" where
  "cc_accelerometer_close sensor a w = do { s \<leftarrow> get_sensor a w; free_state a (hw (Sensor_disable sensor) w) }"

text \<open>
  The system calls \<open>cc_accelerometer_looper_callback\<close> with the object when there is a new event; \<open>None\<close> is a failure to get it. The
  result tells whether the callback stays registered. The memory for the message has 50 bytes more than the three numbers.
\<close>

definition cc_accelerometer_looper_callback :: "mp \<Rightarrow> (u32 \<times> u32 \<times> u32) option \<Rightarrow> addr \<Rightarrow> world \<Rightarrow> (bool \<times> world) option" where
  "cc_accelerometer_looper_callback mp event a w = do {
     s \<leftarrow> get_sensor a w;
     case event of None \<Rightarrow> Some (True, w) | Some (x, y, z) \<Rightarrow> do {
     let n = 50 + cc_coder_sizeof_float mp x + cc_coder_sizeof_float mp y + cc_coder_sizeof_float mp z;
     let b = cc_coder_encode_map mp [] 3;
     let b = cc_coder_encode_kv_float mp b ''x'' x;
     let b = cc_coder_encode_kv_float mp b ''y'' y;
     let b = cc_coder_encode_kv_float mp b ''z'' z;
     (d, w) \<leftarrow> boxed n b (length b) w;
     w \<leftarrow> set_obj_state a (OS_android_sensor (case d of None \<Rightarrow> s\<lparr>as_data := None\<rparr> | Some (b, len) \<Rightarrow> s\<lparr>as_data := Some b, as_data_size := len\<rparr>)) w;
     Some (d \<noteq> None, w) } }"

definition cc_accelerometer_serialize :: "mp \<Rightarrow> bytes \<Rightarrow> addr \<Rightarrow> bytes \<Rightarrow> world \<Rightarrow> bytes option option" where
  "cc_accelerometer_serialize mp i a buffer w = do {
     s \<leftarrow> get_sensor a w;
     Some (Some (cc_coder_encode_kv_uint mp (cc_coder_encode_kv_map mp buffer ''obj'' 1) ''period'' (as_period s))) }"

definition cc_accelerometer_open :: "board \<Rightarrow> mp \<Rightarrow> bytes \<Rightarrow> bytes \<Rightarrow> addr \<Rightarrow> bytes cc_list \<Rightarrow> world \<Rightarrow> (cc_result \<times> world) option" where
  "cc_accelerometer_open brd mp impl sensor a kwargs w = (case cc_list_get kwargs ''period'' of
     None \<Rightarrow> Some (CC_FAIL, w)
   | Some item \<Rightarrow> do {
       p \<leftarrow> cc_coder_decode_uint mp (li_data item);
       case p of None \<Rightarrow> Some (CC_FAIL, w) | Some period \<Rightarrow>
       (case mem_alloc w of (False, w) \<Rightarrow> Some (CC_FAIL, w) | (True, w) \<Rightarrow>
         if \<not> hw_sensor brd sensor w then Some (CC_FAIL, w)
         else do {
           w \<leftarrow> install a (Impl_ext impl) (OS_android_sensor \<lparr>as_data = None, as_data_size = 0, as_period = period\<rparr>)
                  (hw (Sensor_enable sensor period) w);
           Some (CC_SUCCESS, w) }) })"

definition android_sensor :: "board \<Rightarrow> mp \<Rightarrow> bytes \<Rightarrow> bytes \<Rightarrow> cap_ops" where
  "android_sensor brd mp impl sensor = \<lparr>xo_open = cc_accelerometer_open brd mp impl sensor, xo_deserialize = cc_accelerometer_open brd mp impl sensor,
     xo_can_write = None, xo_write = None, xo_can_read = Some cc_accelerometer_can_read, xo_read = Some cc_accelerometer_read,
     xo_close = Some (cc_accelerometer_close sensor), xo_serialize = Some (cc_accelerometer_serialize mp)\<rparr>"

section \<open>The contract of a driver\<close>

text \<open>
  \<open>stays\<close>: only the object changes, and it remains one of its kind.
\<close>

definition stays :: "bytes \<Rightarrow> (obj_state \<Rightarrow> bool) \<Rightarrow> addr \<Rightarrow> world \<Rightarrow> world \<Rightarrow> bool" where
  "stays name valid a w w' = (only_obj a w w' \<and> (typed_obj (Impl_ext name) valid a w \<longrightarrow> typed_obj (Impl_ext name) valid a w'))"

lemma stays_refl [simp]: "stays name valid a w w"
  by (simp add: stays_def)

lemma stays_trans: "stays name valid a w w1 \<Longrightarrow> stays name valid a w1 w2 \<Longrightarrow> stays name valid a w w2"
  by (auto simp: stays_def intro: only_obj_trans)

lemma stays_only: "stays name valid a w w' \<Longrightarrow> only_obj a w w'"
  by (simp add: stays_def)

lemma stays_env: "env.more w' = env.more w \<Longrightarrow> e_sent w' = e_sent w \<Longrightarrow> stays name valid a w w'"
  by (cases w; cases w') (simp add: stays_def only_obj_def typed_obj_def)

lemma stays_set: "set_obj_state a s w = Some w' \<Longrightarrow> valid s \<Longrightarrow> stays name valid a w w'"
  by (auto simp: stays_def typed_obj_def dest: set_obj_state_only) (auto simp: set_obj_state_def upd_obj_def)

lemma stays_alloc: "mem_alloc w = (b, w') \<Longrightarrow> stays name valid a w w'"
  by (rule stays_env) (auto dest: mem_alloc_more)

lemma stays_hw [simp]: "stays name valid a w (hw c w)"
  by (rule stays_env) (simp_all add: hw_def)

lemma stays_boxed: "boxed n b len w = Some (d, w') \<Longrightarrow> stays name valid a w w'"
  by (cases "mem_alloc w") (auto simp: boxed_def split: bool.splits if_splits dest: stays_alloc)

lemma installed_typed: "install a (Impl_ext name) s w = Some w' \<Longrightarrow> valid s \<Longrightarrow> typed_obj (Impl_ext name) valid a w'"
  by (auto simp: install_def upd_obj_def typed_obj_def)

locale driver =
  fixes ops :: cap_ops and name :: bytes and valid :: "obj_state \<Rightarrow> bool"
  assumes opens: "xo_open ops a kwargs w = Some (r, w') \<Longrightarrow> only_obj a w w'"
    and opens_typed: "xo_open ops a kwargs w = Some (CC_SUCCESS, w') \<Longrightarrow> typed_obj (Impl_ext name) valid a w'"
    and deserializes: "xo_deserialize ops a kwargs w = Some (r, w') \<Longrightarrow> only_obj a w w'"
    and can_writes: "xo_can_write ops = Some can_write \<Longrightarrow> can_write a w = Some (b, w') \<Longrightarrow> w' = w"
    and writes: "xo_write ops = Some write_fun \<Longrightarrow> write_fun a data n w = Some (r, w') \<Longrightarrow> stays name valid a w w'"
    and can_reads: "xo_can_read ops = Some can_read \<Longrightarrow> can_read a w = Some (b, w') \<Longrightarrow> w' = w"
    and reads: "xo_read ops = Some read_fun \<Longrightarrow> read_fun a w = Some (r, d, w') \<Longrightarrow> stays name valid a w w'"
    and closes: "xo_close ops = Some close_fun \<Longrightarrow> close_fun a w = Some (r, w') \<Longrightarrow> only_obj a w w'"
    and closes_typed: "xo_close ops = Some close_fun \<Longrightarrow> typed_obj (Impl_ext name) valid a w \<Longrightarrow> \<exists>r w'. close_fun a w = Some (r, w')"
begin

lemma is_capability:
  assumes "x_caps x name = ops"
  shows "capability x (Impl_ext name) valid"
proof
  fix a w w' b
  show "obj_can_write x (Impl_ext name) a w = Some (b, w') \<Longrightarrow> only_obj a w w'"
    and "typed_obj (Impl_ext name) valid a w \<Longrightarrow> obj_can_write x (Impl_ext name) a w = Some (b, w') \<Longrightarrow> typed_obj (Impl_ext name) valid a w'"
    using can_writes[of _ a w b w'] assms by (auto simp: obj_can_write_def split: option.splits)
  show "obj_can_read x (Impl_ext name) a w = Some (b, w') \<Longrightarrow> only_obj a w w'"
    and "typed_obj (Impl_ext name) valid a w \<Longrightarrow> obj_can_read x (Impl_ext name) a w = Some (b, w') \<Longrightarrow> typed_obj (Impl_ext name) valid a w'"
    using can_reads[of _ a w b w'] assms by (auto simp: obj_can_read_def split: option.splits)
next
  fix a w w' r data n
  show "obj_write x (Impl_ext name) a data n w = Some (r, w') \<Longrightarrow> only_obj a w w'"
    and "typed_obj (Impl_ext name) valid a w \<Longrightarrow> obj_write x (Impl_ext name) a data n w = Some (r, w') \<Longrightarrow> typed_obj (Impl_ext name) valid a w'"
    using writes[of _ a data n w r w'] assms by (auto simp: obj_write_def stays_def split: option.splits)
next
  fix a w w' r d
  show "obj_read x (Impl_ext name) a w = Some (r, d, w') \<Longrightarrow> only_obj a w w'"
    and "typed_obj (Impl_ext name) valid a w \<Longrightarrow> obj_read x (Impl_ext name) a w = Some (r, d, w') \<Longrightarrow> typed_obj (Impl_ext name) valid a w'"
    using reads[of _ a w r d w'] assms by (auto simp: obj_read_def stays_def split: option.splits)
next
  fix a w w' r kwargs
  show "obj_open x (Impl_ext name) a kwargs w = Some (r, w') \<Longrightarrow> only_obj a w w'"
    "obj_open x (Impl_ext name) a kwargs w = Some (CC_SUCCESS, w') \<Longrightarrow> typed_obj (Impl_ext name) valid a w'"
    "obj_deserialize x (Impl_ext name) a kwargs w = Some (r, w') \<Longrightarrow> only_obj a w w'"
    using opens[of a kwargs w r w'] opens_typed[of a kwargs w w'] deserializes[of a kwargs w r w'] assms by (auto simp: obj_open_def obj_deserialize_def)
  show "obj_close x (Impl_ext name) a w = Some (r, w') \<Longrightarrow> only_obj a w w'"
    "typed_obj (Impl_ext name) valid a w \<Longrightarrow> \<exists>r w'. obj_close x (Impl_ext name) a w = Some (r, w')"
    using closes[of _ a w r w'] closes_typed[of _ a w] assms by (auto simp: obj_close_def split: option.splits)
qed

end

section \<open>The drivers keep the contract\<close>

lemma free_state_only: "free_state a w = Some (r, w') \<Longrightarrow> only_obj a w w'"
  by (auto simp: free_state_def dest: set_obj_state_only)

lemma free_state_returns [simp]: "(\<exists>r w'. free_state a w = Some (r, w')) = (h_objs w a \<noteq> None)"
  by (auto simp: free_state_def set_obj_state_def upd_obj_def)

lemma hw_only: "only_obj a w (hw c w)"
  by (rule stays_only[OF stays_hw])

lemma hw_objs [simp]: "h_objs (hw c w) = h_objs w"
  by (simp add: hw_def)

text \<open>Steps that leave the object one of its kind, for any kind of result, and the flow of control.\<close>

lemma stays_after:
  "stays name valid a w w1 \<Longrightarrow> stays name valid a w (hw c w1)"
  "stays name valid a w w1 \<Longrightarrow> stays name valid a w (w1\<lparr>e_temperature_add := add\<rparr>)"
  by (rule stays_trans, assumption, rule stays_env, simp_all add: hw_def)+

lemma always_set:
  "stays name valid a w w1 \<Longrightarrow> valid s \<Longrightarrow> (\<And>w2. stays name valid a w w2 \<Longrightarrow> always P (f w2)) \<Longrightarrow> always P (Option.bind (set_obj_state a s w1) f)"
  by (cases "set_obj_state a s w1") (auto dest: stays_set stays_trans)

lemma always_boxed:
  "stays name valid a w w1 \<Longrightarrow> (\<And>d w2. stays name valid a w w2 \<Longrightarrow> always P (f d w2)) \<Longrightarrow>
   always P (Option.bind (boxed k b l w1) (\<lambda>(d, w). f d w))"
  by (cases "boxed k b l w1") (auto dest: stays_boxed stays_trans)

lemma always_alloc:
  "stays name valid a w w1 \<Longrightarrow> (\<And>w2. stays name valid a w w2 \<Longrightarrow> always P (f w2)) \<Longrightarrow> (\<And>w2. stays name valid a w w2 \<Longrightarrow> always P (g w2)) \<Longrightarrow>
   always P (case mem_alloc w1 of (True, w2) \<Rightarrow> f w2 | (False, w2) \<Rightarrow> g w2)"
  by (cases "mem_alloc w1") (auto dest: stays_alloc[of w1] stays_trans split: bool.split)

lemma always_install:
  "stays name valid a w w1 \<Longrightarrow> valid s \<Longrightarrow> (\<And>w2. only_obj a w w2 \<and> typed_obj (Impl_ext name) valid a w2 \<Longrightarrow> always P (f w2)) \<Longrightarrow>
   always P (Option.bind (install a (Impl_ext name) s w1) f)"
  by (cases "install a (Impl_ext name) s w1") (auto dest: install_only installed_typed stays_only intro: only_obj_trans)

lemma always_flow:
  "always P m \<Longrightarrow> always P n \<Longrightarrow> always P (if b then m else n)"
  "always P m \<Longrightarrow> (\<And>y. always P (g y)) \<Longrightarrow> always P (case v of None \<Rightarrow> m | Some y \<Rightarrow> g y)"
  "(\<And>y z. always P (h y z)) \<Longrightarrow> always P (case q of (y, z) \<Rightarrow> h y z)"
  by (simp_all split: option.split prod.split)

lemma always_any: "(\<And>y. always P (f y)) \<Longrightarrow> always P (Option.bind m f)"
  by (cases m) simp_all

lemma always_done: "P y \<Longrightarrow> always P (Some y)"
  by simp

lemmas driver_steps = always_set always_boxed always_alloc always_install stays_after stays_refl

text \<open>What an operation that returns does, by its kind.\<close>

abbreviation opens_as :: "bytes \<Rightarrow> (obj_state \<Rightarrow> bool) \<Rightarrow> addr \<Rightarrow> world \<Rightarrow> cc_result \<times> world \<Rightarrow> bool" where
  "opens_as name valid a w \<equiv> \<lambda>(r, w'). only_obj a w w' \<and> (r = CC_SUCCESS \<longrightarrow> typed_obj (Impl_ext name) valid a w')"

lemma opens_fails: "stays name valid a w w1 \<Longrightarrow> opens_as name valid a w (CC_FAIL, w1)"
  by (simp add: stays_def)

lemma opens_works: "only_obj a w w1 \<and> typed_obj (Impl_ext name) valid a w1 \<Longrightarrow> opens_as name valid a w (r, w1)"
  by simp

lemma test_gpio_open: "always (opens_as ''cc_test_gpio_open'' (\<lambda>s. \<exists>t. s = OS_gpio t) a w) (cc_test_gpio_open mp a kwargs w)"
  unfolding cc_test_gpio_open_def Let_def
  by (rule driver_steps[where name = "''cc_test_gpio_open''" and valid = "\<lambda>s. \<exists>t. s = OS_gpio t" and a = a and w = w] always_flow | rule always_any | rule always_done
      | rule opens_fails opens_works | assumption | simp)+

lemma test_gpio_write: "always (\<lambda>(r, w'). stays ''cc_test_gpio_open'' (\<lambda>s. \<exists>t. s = OS_gpio t) a w w') (cc_gpio_write mp a data n w)"
  unfolding cc_gpio_write_def Let_def
  by (rule driver_steps[where name = "''cc_test_gpio_open''" and valid = "\<lambda>s. \<exists>t. s = OS_gpio t" and a = a and w = w] always_flow | rule always_any | rule always_done
      | rule opens_fails opens_works | assumption | simp)+

lemma test_gpio_read: "always (\<lambda>(r, d, w'). stays ''cc_test_gpio_open'' (\<lambda>s. \<exists>t. s = OS_gpio t) a w w') (cc_gpio_read mp a w)"
  unfolding cc_gpio_read_def Let_def
  by (rule driver_steps[where name = "''cc_test_gpio_open''" and valid = "\<lambda>s. \<exists>t. s = OS_gpio t" and a = a and w = w] always_flow | rule always_any | rule always_done
      | rule opens_fails opens_works | assumption | simp)+

interpretation test_gpio: driver "test_gpio mp" "''cc_test_gpio_open''" "\<lambda>s. \<exists>t. s = OS_gpio t" for mp
  by unfold_locales
    (auto simp: test_gpio_def cc_gpio_can_write_def cc_gpio_can_read_def cc_gpio_close_def typed_obj_def  dest!: alwaysD[OF test_gpio_open] alwaysD[OF test_gpio_write] alwaysD[OF test_gpio_read] free_state_only dest: stays_only only_obj_trans[OF hw_only])

lemma test_temperature_open: "always (opens_as ''cc_test_temperature_open'' (\<lambda>s. \<exists>t. s = OS_temperature t) a w) (cc_test_temperature_open a kwargs w)"
  unfolding cc_test_temperature_open_def Let_def
  by (rule driver_steps[where name = "''cc_test_temperature_open''" and valid = "\<lambda>s. \<exists>t. s = OS_temperature t" and a = a and w = w] always_flow | rule always_any | rule always_done
      | rule opens_fails opens_works | assumption | simp)+

lemma test_temperature_write: "always (\<lambda>(r, w'). stays ''cc_test_temperature_open'' (\<lambda>s. \<exists>t. s = OS_temperature t) a w w') (cc_temperature_write mp a data n w)"
  unfolding cc_temperature_write_def Let_def
  by (rule driver_steps[where name = "''cc_test_temperature_open''" and valid = "\<lambda>s. \<exists>t. s = OS_temperature t" and a = a and w = w] always_flow | rule always_any | rule always_done
      | rule opens_fails opens_works | assumption | simp)+

lemma test_temperature_read: "always (\<lambda>(r, d, w'). stays ''cc_test_temperature_open'' (\<lambda>s. \<exists>t. s = OS_temperature t) a w w') (cc_temperature_read mp a w)"
  unfolding cc_temperature_read_def Let_def
  by (rule driver_steps[where name = "''cc_test_temperature_open''" and valid = "\<lambda>s. \<exists>t. s = OS_temperature t" and a = a and w = w] always_flow | rule always_any | rule always_done
      | rule opens_fails opens_works | assumption | simp)+

interpretation test_temperature: driver "test_temperature mp" "''cc_test_temperature_open''" "\<lambda>s. \<exists>t. s = OS_temperature t" for mp
  by unfold_locales
    (auto simp: test_temperature_def cc_temperature_can_write_def cc_temperature_can_read_def cc_temperature_close_def typed_obj_def  dest!: alwaysD[OF test_temperature_open] alwaysD[OF test_temperature_write] alwaysD[OF test_temperature_read] free_state_only dest: stays_only only_obj_trans[OF hw_only])

lemma temp_sensor_open: "always (opens_as ''cc_calvinsys_temp_sensor_open'' (\<lambda>s. \<exists>t. s = OS_temperature t) a w) (cc_calvinsys_temp_sensor_open a kwargs w)"
  unfolding cc_calvinsys_temp_sensor_open_def Let_def
  by (rule driver_steps[where name = "''cc_calvinsys_temp_sensor_open''" and valid = "\<lambda>s. \<exists>t. s = OS_temperature t" and a = a and w = w] always_flow | rule always_any | rule always_done
      | rule opens_fails opens_works | assumption | simp)+

lemma temp_sensor_write: "always (\<lambda>(r, w'). stays ''cc_calvinsys_temp_sensor_open'' (\<lambda>s. \<exists>t. s = OS_temperature t) a w w') (cc_calvinsys_temp_sensor_write mp a data n w)"
  unfolding cc_calvinsys_temp_sensor_write_def Let_def
  by (rule driver_steps[where name = "''cc_calvinsys_temp_sensor_open''" and valid = "\<lambda>s. \<exists>t. s = OS_temperature t" and a = a and w = w] always_flow | rule always_any | rule always_done
      | rule opens_fails opens_works | assumption | simp)+

lemma temp_sensor_read: "always (\<lambda>(r, d, w'). stays ''cc_calvinsys_temp_sensor_open'' (\<lambda>s. \<exists>t. s = OS_temperature t) a w w') (cc_calvinsys_temp_sensor_read mp a w)"
  unfolding cc_calvinsys_temp_sensor_read_def Let_def
  by (rule driver_steps[where name = "''cc_calvinsys_temp_sensor_open''" and valid = "\<lambda>s. \<exists>t. s = OS_temperature t" and a = a and w = w] always_flow | rule always_any | rule always_done
      | rule opens_fails opens_works | assumption | simp)+

interpretation temp_sensor: driver "temp_sensor mp" "''cc_calvinsys_temp_sensor_open''" "\<lambda>s. \<exists>t. s = OS_temperature t" for mp
  by unfold_locales
    (auto simp: temp_sensor_def cc_calvinsys_temp_sensor_can_write_def cc_calvinsys_temp_sensor_can_read_def cc_calvinsys_temp_sensor_close_def typed_obj_def  dest!: alwaysD[OF temp_sensor_open] alwaysD[OF temp_sensor_write] alwaysD[OF temp_sensor_read] free_state_only dest: stays_only only_obj_trans[OF hw_only])

lemma esp_gpio_open: "always (opens_as ''cc_calvinsys_gpio_open'' (\<lambda>s. \<exists>t. s = OS_esp_gpio t) a w) (cc_calvinsys_gpio_open mp a kwargs w)"
  unfolding cc_calvinsys_gpio_open_def Let_def
  by (rule driver_steps[where name = "''cc_calvinsys_gpio_open''" and valid = "\<lambda>s. \<exists>t. s = OS_esp_gpio t" and a = a and w = w] always_flow | rule always_any | rule always_done
      | rule opens_fails opens_works | assumption | simp)+

lemma esp_gpio_write: "always (\<lambda>(r, w'). stays ''cc_calvinsys_gpio_open'' (\<lambda>s. \<exists>t. s = OS_esp_gpio t) a w w') (cc_calvinsys_gpio_write mp a data n w)"
  unfolding cc_calvinsys_gpio_write_def Let_def
  by (rule driver_steps[where name = "''cc_calvinsys_gpio_open''" and valid = "\<lambda>s. \<exists>t. s = OS_esp_gpio t" and a = a and w = w] always_flow | rule always_any | rule always_done
      | rule opens_fails opens_works | assumption | simp)+

interpretation esp_gpio: driver "esp_gpio mp" "''cc_calvinsys_gpio_open''" "\<lambda>s. \<exists>t. s = OS_esp_gpio t" for mp
  by unfold_locales
    (auto simp: esp_gpio_def cc_calvinsys_gpio_can_write_def cc_calvinsys_gpio_close_def typed_obj_def get_esp_gpio_def dest!: alwaysD[OF esp_gpio_open] alwaysD[OF esp_gpio_write] free_state_only dest: stays_only only_obj_trans[OF hw_only])

lemma ds18b20_open: "always (opens_as ''cc_calvinsys_ds18b20_open'' (\<lambda>s. \<exists>t. s = OS_ds18b20 t) a w) (cc_calvinsys_ds18b20_open brd mp a kwargs w)"
  unfolding cc_calvinsys_ds18b20_open_def Let_def
  by (rule driver_steps[where name = "''cc_calvinsys_ds18b20_open''" and valid = "\<lambda>s. \<exists>t. s = OS_ds18b20 t" and a = a and w = w] always_flow | rule always_any | rule always_done
      | rule opens_fails opens_works | assumption | simp)+

lemma ds18b20_write: "always (\<lambda>(r, w'). stays ''cc_calvinsys_ds18b20_open'' (\<lambda>s. \<exists>t. s = OS_ds18b20 t) a w w') (cc_calvinsys_ds18b20_write brd mp a data n w)"
  unfolding cc_calvinsys_ds18b20_write_def Let_def
  by (rule driver_steps[where name = "''cc_calvinsys_ds18b20_open''" and valid = "\<lambda>s. \<exists>t. s = OS_ds18b20 t" and a = a and w = w] always_flow | rule always_any | rule always_done
      | rule opens_fails opens_works | assumption | simp)+

lemma ds18b20_read: "always (\<lambda>(r, d, w'). stays ''cc_calvinsys_ds18b20_open'' (\<lambda>s. \<exists>t. s = OS_ds18b20 t) a w w') (cc_calvinsys_ds18b20_read mp a w)"
  unfolding cc_calvinsys_ds18b20_read_def Let_def
  by (rule driver_steps[where name = "''cc_calvinsys_ds18b20_open''" and valid = "\<lambda>s. \<exists>t. s = OS_ds18b20 t" and a = a and w = w] always_flow | rule always_any | rule always_done
      | rule opens_fails opens_works | assumption | simp)+

interpretation ds18b20: driver "ds18b20 brd mp" "''cc_calvinsys_ds18b20_open''" "\<lambda>s. \<exists>t. s = OS_ds18b20 t" for brd mp
  by unfold_locales
    (auto simp: ds18b20_def cc_calvinsys_ds18b20_can_write_def cc_calvinsys_ds18b20_can_read_def cc_calvinsys_ds18b20_close_def typed_obj_def  dest!: alwaysD[OF ds18b20_open] alwaysD[OF ds18b20_write] alwaysD[OF ds18b20_read] free_state_only dest: stays_only only_obj_trans[OF hw_only])

lemma yl69_open: "always (opens_as ''cc_calvinsys_yl69_open'' (\<lambda>s. s = OS_null) a w) (cc_calvinsys_yl69_open a kwargs w)"
  unfolding cc_calvinsys_yl69_open_def Let_def
  by (rule driver_steps[where name = "''cc_calvinsys_yl69_open''" and valid = "\<lambda>s. s = OS_null" and a = a and w = w] always_flow | rule always_any | rule always_done
      | rule opens_fails opens_works | assumption | simp)+

lemma yl69_read: "always (\<lambda>(r, d, w'). stays ''cc_calvinsys_yl69_open'' (\<lambda>s. s = OS_null) a w w') (cc_calvinsys_yl69_read brd mp a w)"
  unfolding cc_calvinsys_yl69_read_def Let_def
  by (rule driver_steps[where name = "''cc_calvinsys_yl69_open''" and valid = "\<lambda>s. s = OS_null" and a = a and w = w] always_flow | rule always_any | rule always_done
      | rule opens_fails opens_works | assumption | simp)+

interpretation yl69: driver "yl69 brd mp" "''cc_calvinsys_yl69_open''" "\<lambda>s. s = OS_null" for brd mp
  by unfold_locales
    (auto simp: yl69_def cc_calvinsys_yl69_can_read_def  typed_obj_def  dest!: alwaysD[OF yl69_open] alwaysD[OF yl69_read] free_state_only dest: stays_only only_obj_trans[OF hw_only])

lemma android_sensor_open: "always (opens_as impl (\<lambda>s. \<exists>t. s = OS_android_sensor t) a w) (cc_accelerometer_open brd mp impl sensor a kwargs w)"
  unfolding cc_accelerometer_open_def Let_def
  by (rule driver_steps[where name = "impl" and valid = "\<lambda>s. \<exists>t. s = OS_android_sensor t" and a = a and w = w] always_flow | rule always_any | rule always_done
      | rule opens_fails opens_works | assumption | simp)+

lemma android_sensor_read: "always (\<lambda>(r, d, w'). stays impl (\<lambda>s. \<exists>t. s = OS_android_sensor t) a w w') (cc_accelerometer_read a w)"
  unfolding cc_accelerometer_read_def Let_def
  by (rule driver_steps[where name = "impl" and valid = "\<lambda>s. \<exists>t. s = OS_android_sensor t" and a = a and w = w] always_flow | rule always_any | rule always_done
      | rule opens_fails opens_works | assumption | simp)+

interpretation android_sensor: driver "android_sensor brd mp impl sensor" "impl" "\<lambda>s. \<exists>t. s = OS_android_sensor t" for brd mp impl sensor
  by unfold_locales
    (auto simp: android_sensor_def cc_accelerometer_can_read_def cc_accelerometer_close_def typed_obj_def get_sensor_def dest!: alwaysD[OF android_sensor_open] alwaysD[OF android_sensor_read] free_state_only dest: stays_only only_obj_trans[OF hw_only])

section \<open>The drivers of the platforms\<close>

text \<open>A runtime that is linked with all of them, each under the name of the function that opens it, and the state it keeps.\<close>

definition platform_caps :: "board \<Rightarrow> mp \<Rightarrow> (bytes \<Rightarrow> cap_ops) \<Rightarrow> bytes \<Rightarrow> cap_ops" where
  "platform_caps brd mp caps = caps(
     ''cc_test_gpio_open'' := test_gpio mp,
     ''cc_test_temperature_open'' := test_temperature mp,
     ''cc_calvinsys_temp_sensor_open'' := temp_sensor mp,
     ''cc_calvinsys_gpio_open'' := esp_gpio mp,
     ''cc_calvinsys_ds18b20_open'' := ds18b20 brd mp,
     ''cc_calvinsys_yl69_open'' := yl69 brd mp,
     ''cc_accelerometer_open'' := android_sensor brd mp ''cc_accelerometer_open'' ''accelerometer'',
     ''cc_gyroscope_open'' := android_sensor brd mp ''cc_gyroscope_open'' ''gyroscope'')"

definition with_drivers :: "board \<Rightarrow> ext \<Rightarrow> ext" where
  "with_drivers brd x = x\<lparr>x_caps := platform_caps brd (x_mp x) (x_caps x)\<rparr>"

definition driver_state :: "bytes \<rightharpoonup> (obj_state \<Rightarrow> bool)" where
  "driver_state = [
     ''cc_test_gpio_open'' \<mapsto> (\<lambda>s. \<exists>t. s = OS_gpio t),
     ''cc_test_temperature_open'' \<mapsto> (\<lambda>s. \<exists>t. s = OS_temperature t),
     ''cc_calvinsys_temp_sensor_open'' \<mapsto> (\<lambda>s. \<exists>t. s = OS_temperature t),
     ''cc_calvinsys_gpio_open'' \<mapsto> (\<lambda>s. \<exists>t. s = OS_esp_gpio t),
     ''cc_calvinsys_ds18b20_open'' \<mapsto> (\<lambda>s. \<exists>t. s = OS_ds18b20 t),
     ''cc_calvinsys_yl69_open'' \<mapsto> (\<lambda>s. s = OS_null),
     ''cc_accelerometer_open'' \<mapsto> (\<lambda>s. \<exists>t. s = OS_android_sensor t),
     ''cc_gyroscope_open'' \<mapsto> (\<lambda>s. \<exists>t. s = OS_android_sensor t)]"

lemma driver_capability: "driver_state name = Some valid \<Longrightarrow> capability (with_drivers brd x) (Impl_ext name) valid"
  by (auto simp: driver_state_def with_drivers_def platform_caps_def split: if_splits
      intro: test_gpio.is_capability test_temperature.is_capability temp_sensor.is_capability esp_gpio.is_capability ds18b20.is_capability
        yl69.is_capability android_sensor.is_capability)


section \<open>Readings as numbers\<close>

lemma floorlog_bounds: "0 < a \<Longrightarrow> 2 ^ (floorlog 2 a - 1) \<le> a \<and> a < 2 ^ (floorlog 2 a - 1 + 1)"
  using floorlog_bounds[of a 2] by (auto simp: floorlog_def)

text \<open>The truncation that the coder applies to a floating point number gives back the integral part.\<close>

lemma ieee_trunc_positive:
  assumes "f < 2 ^ 23" "0 < ex" "ex < 255"
    and "mag = (if ex \<ge> 150 then (2 ^ 23 + f) * 2 ^ (ex - 150) else (2 ^ 23 + f) div 2 ^ (150 - ex))" "mag < 2 ^ 32"
  shows "ieee_trunc 23 8 (ex * 2 ^ 23 + f) = Some (of_nat mag)"
proof -
  have "(ex * 2 ^ 23 + f) div 2 ^ 23 = ex" "(ex * 2 ^ 23 + f) mod 2 ^ 23 = f" "(ex * 2 ^ 23 + f) div 2 ^ 31 = 0"
    using assms(1,3) by simp_all
  moreover have "ex - 127 - 23 = ex - 150" by simp
  moreover have "ex mod 256 = ex" using assms(3) by simp
  ultimately show ?thesis using assms(2,3,5) unfolding ieee_trunc_def Let_def assms(4) by (simp split: if_splits)
qed

lemma ieee_trunc_ieee:
  assumes "0 < a" "a < 2 ^ 24" "s \<le> 100"
  shows "ieee_trunc 23 8 (ieee 23 8 s (int a)) = Some (of_nat (a div 2 ^ s)) \<and> ieee 23 8 s (int a) < 2 ^ 31"
proof -
  define e where "e = floorlog 2 a - 1"
  have e: "2 ^ e \<le> a" "a < 2 ^ (e + 1)" using floorlog_bounds[OF assms(1)] by (simp_all add: e_def)
  have "(2::nat) ^ e < 2 ^ 24" using e(1) assms(2) by (rule le_less_trans)
  then have "e < 24" by (rule power_less_imp_less_exp[rotated]) simp
  then have e23: "e \<le> 23" by simp
  define k where "k = 23 - e"
  have k: "e + k = 23" using e23 by (simp add: k_def)
  have split: "a * 2 ^ 23 = (a * 2 ^ k) * 2 ^ e" by (simp only: k[symmetric] power_add mult_ac)
  have m: "a * 2 ^ 23 div 2 ^ e = a * 2 ^ k" unfolding split by simp
  have lo: "2 ^ 23 \<le> a * 2 ^ k" using mult_le_mono1[OF e(1), of "2 ^ k"] by (simp only: k power_add[symmetric])
  have hi: "a * 2 ^ k < 2 ^ 24"
  proof -
    have "a * 2 ^ k < 2 ^ (e + 1) * 2 ^ k" using e(2) by simp
    also have "\<dots> = 2 ^ (e + k + 1)" by (simp only: power_add mult_ac)
    finally show ?thesis unfolding k by simp
  qed
  define f where "f = a * 2 ^ k - 2 ^ 23"
  define ex where "ex = 127 + e - s"
  have f: "f < 2 ^ 23" "2 ^ 23 + f = a * 2 ^ k" using lo hi by (simp_all add: f_def)
  have ex: "0 < ex" "ex < 255" using e23 assms(3) by (simp_all add: ex_def)
  have n: "ieee 23 8 s (int a) = ex * 2 ^ 23 + f"
    using assms(1) m by (simp add: ieee_def Let_def f_def ex_def) (simp add: e_def)
  have "a div 2 ^ s = (if ex \<ge> 150 then (2 ^ 23 + f) * 2 ^ (ex - 150) else (2 ^ 23 + f) div 2 ^ (150 - ex))"
  proof (cases "ex \<ge> 150")
    case True
    then have "s = 0" "k = 0" "ex = 150" using e23 k by (auto simp: ex_def)
    then show ?thesis using f(2) by simp
  next
    case False
    then have "150 - ex = k + s" using k assms(3) by (simp add: ex_def)
    then show ?thesis using False f(2) by (simp add: power_add div_mult2_eq)
  qed
  moreover have "a div 2 ^ s < 2 ^ 32" using le_less_trans[OF div_le_dividend assms(2), of "2 ^ s"] by (rule less_trans) simp
  moreover have "ex * 2 ^ 23 + f < 2 ^ 31" using f(1) ex(2) by simp
  ultimately show ?thesis using ieee_trunc_positive[OF f(1) ex] unfolding n by blast
qed

text \<open>The size of a \<open>float\<close> is that of its encoding.\<close>

locale msgpuck_floats = msgpuck +
  assumes sizeof_float: "unat (mp_sizeof_float mp f) = length (mp_encode_float mp f)"
begin

lemma boxed_float:
  "e_alloc w = [] \<Longrightarrow> boxed (cc_coder_sizeof_float mp f) (cc_coder_encode_float mp [] f) (unat (cc_coder_sizeof_float mp f)) w
     = Some (Some (enc mp (MFloat f), length (enc mp (MFloat f))), w)"
  using sizeof_float[of f] by (simp add: boxed_def cc_coder_sizeof_float_def cc_coder_encode_float_def)

lemma yl69_reads:
  assumes "e_alloc w = []"
  shows "cc_calvinsys_yl69_read brd mp a w
     = Some (CC_SUCCESS, Some (enc mp (MFloat (yl69_humidity (hw_adc brd w))), length (enc mp (MFloat (yl69_humidity (hw_adc brd w))))), w)"
  using boxed_float[OF assms] by (simp add: cc_calvinsys_yl69_read_def Let_def)

lemma decode_float_enc: "cc_coder_decode_uint mp (enc mp (MFloat f)) = Option.bind (float_to_u32 f) (\<lambda>n. Some (Some n))"
  using type_at_enc[of "MFloat f" "[]"] float_enc[of f "[]"] by (simp add: cc_coder_decode_uint_def)

end

interpretation ref_floats: msgpuck_floats mp_ref
  by unfold_locales (simp add: mp_ref_def)

text \<open>
  C37: the humidity of the soil. For a reading of at most 1024 the sensor YL-69 delivers one \<open>float\<close>, and the number an actor
  decodes from it is the integral part of the percentage \<open>100 * (1024 - adc) / 1024\<close>: nothing is lost to rounding.
\<close>

theorem yl69_percentage:
  assumes "msgpuck_floats mp" "e_alloc w = []" "hw_adc brd w \<le> 1024"
  shows "\<exists>data n. cc_calvinsys_yl69_read brd mp a w = Some (CC_SUCCESS, Some (data, n), w) \<and> n = length data
     \<and> cc_coder_decode_uint mp data = Some (Some (of_nat (100 * (1024 - unat (hw_adc brd w)) div 1024)))"
proof -
  define k where "k = 100 * (1024 - unat (hw_adc brd w))"
  have "unat (hw_adc brd w) \<le> 1024" using assms(3) by (simp add: word_le_nat_alt)
  then have i: "(1024 - uint (hw_adc brd w)) * 100 = int k" by (simp add: k_def of_nat_diff)
  have "float_to_u32 (yl69_humidity (hw_adc brd w)) = Some (of_nat (k div 1024))"
  proof (cases "k = 0")
    case True
    then show ?thesis unfolding yl69_humidity_def i by (simp add: float_bits_def ieee_def float_to_u32_def ieee_trunc_def)
  next
    case False
    then have t: "ieee_trunc 23 8 (ieee 23 8 10 (int k)) = Some (of_nat (k div 1024))" "ieee 23 8 10 (int k) < 2 ^ 31"
      using ieee_trunc_ieee[of k 10] by (simp_all add: k_def)
    have "unat (of_nat (ieee 23 8 10 (int k)) :: u32) = ieee 23 8 10 (int k)" using t(2) by (intro unat_of_nat_u32) simp
    then show ?thesis using t(1) unfolding yl69_humidity_def i float_bits_def float_to_u32_def by simp
  qed
  then show ?thesis
    using msgpuck_floats.yl69_reads[OF assms(1,2), of brd a] msgpuck_floats.decode_float_enc[OF assms(1)]
    by (simp add: k_def del: enc.simps)
qed

text \<open>
  A temperature that was not measured. When the scan finds no thermometer, writing to a DS18B20 fails, but the object can be
  read afterwards, and the reading, reported as a success, is the temperature of an earlier measurement, or, for a new object, what
  its memory held.
\<close>

lemma ds18b20_reads_unmeasured:
  assumes "msgpuck_floats mp" "e_alloc w = []" "h_objs w a = Some ob" "o_state ob = OS_ds18b20 s" "fst (hw_ds18b20_scan brd (ds_pin s) w1) < 1"
    and "set_obj_state a (OS_ds18b20 (s\<lparr>ds_can_read := True\<rparr>)) w = Some w1"
  shows "cc_calvinsys_ds18b20_write brd mp a (enc mp (MBool True)) n w = Some (CC_FAIL, w1)
     \<and> cc_calvinsys_ds18b20_can_read a w1 = Some (True, w1)
     \<and> (\<exists>w2. cc_calvinsys_ds18b20_read mp a w1 = Some (CC_SUCCESS, Some (enc mp (MFloat (ds_temp s)), length (enc mp (MFloat (ds_temp s)))), w2))"
proof -
  have m: "msgpuck mp" using assms(1) by (simp add: msgpuck_floats_def)
  have g: "get_ds18b20 a w = Some s" using assms(3,4) by (simp add: get_ds18b20_def)
  have w1: "h_objs w1 a = Some (ob\<lparr>o_state := OS_ds18b20 (s\<lparr>ds_can_read := True\<rparr>)\<rparr>)" "e_alloc w1 = []"
    using assms(2,3,6) by (auto simp: set_obj_state_def upd_obj_def)
  have g1: "get_ds18b20 a w1 = Some (s\<lparr>ds_can_read := True\<rparr>)" using w1 by (simp add: get_ds18b20_def)
  have "cc_coder_decode_bool mp (enc mp (MBool True)) = Some (Some True)" using msgpuck.decode_bool_enc[OF m, of True "[]"] by simp
  then have "cc_calvinsys_ds18b20_write brd mp a (enc mp (MBool True)) n w = Some (CC_FAIL, w1)"
    using g assms(5,6) by (cases "hw_ds18b20_scan brd (ds_pin s) w1") (simp add: cc_calvinsys_ds18b20_write_def Let_def del: enc.simps)
  moreover have "\<exists>w2. cc_calvinsys_ds18b20_read mp a w1 = Some (CC_SUCCESS, Some (enc mp (MFloat (ds_temp s)), length (enc mp (MFloat (ds_temp s)))), w2)"
    using g1 w1 msgpuck_floats.boxed_float[OF assms(1) w1(2)]
    by (simp add: cc_calvinsys_ds18b20_read_def Let_def set_obj_state_def upd_obj_def del: enc.simps)
  ultimately show ?thesis using g1 by (simp add: cc_calvinsys_ds18b20_can_read_def)
qed

section \<open>Examples\<close>

definition example_board :: board where
  "example_board = \<lparr>hw_adc = \<lambda>w. 300, hw_ds18b20_scan = \<lambda>pin w. (0, 0), hw_ds18b20_read = \<lambda>pin sensor w. 0, hw_sensor = \<lambda>s w. True,
     hw_fresh_float = \<lambda>w. 0\<rparr>"

definition example_thermometer :: world where
  "example_thermometer = example_target\<lparr>h_caps := [2 \<mapsto> example_cap\<lparr>cap_name := ''io.temperature'',
     cap_open := Some (Impl_ext ''cc_test_temperature_open''), cap_deserialize := Some (Impl_ext ''cc_test_temperature_open'')\<rparr>],
     n_capabilities := [example_obj_item ''io.temperature'' 2]\<rparr>"

lemmas example_driver_defs = example_thermometer_def example_calvinsys_defs


theorem yl69_percentage_witness:
  "\<exists>data n. cc_calvinsys_yl69_read example_board mp_ref 9 example_target = Some (CC_SUCCESS, Some (data, n), example_target)
     \<and> cc_coder_decode_uint mp_ref data = Some (Some 70)"
proof -
  have "e_alloc example_target = []" "hw_adc example_board example_target \<le> 1024" "hw_adc example_board example_target = 300"
    by (simp_all add: example_calvinsys_defs example_board_def)
  then show ?thesis using yl69_percentage[OF ref_floats.msgpuck_floats_axioms, of example_target example_board 9] by auto
qed

end
