(* ===== verification/Driver_Actors.thy ===== *)
theory Driver_Actors
  imports Drivers Builtin_Io Builtin_Sensor
begin

text \<open>
  Actors on the drivers of a platform: the capabilities and actors that the configurations
  \<open>src/runtime/south/platform/x86/cc_config_x86.h\<close> and \<open>esp-open-rtos/cc_config_esp8266.h\<close> put together.
\<close>

section \<open>The capabilities of the configurations\<close>

definition configured :: "bytes \<Rightarrow> bytes \<Rightarrow> bool \<Rightarrow> bytes option \<Rightarrow> cc_calvinsys_capability" where
  "configured name open_fun deserializes init_args = \<lparr>cap_name = name, cap_open = Some (Impl_ext open_fun),
     cap_deserialize = (if deserializes then Some (Impl_ext open_fun) else None), cap_init_args = init_args, cap_free_init_args = False,
     cap_python_module = None\<rparr>"

text \<open>\<open>"\x82\xa9" "direction" "\xa3" "out" "\xa3" "pin" "\x00"\<close>: an encoded map with the two arguments.\<close>

definition pin_args :: "bytes \<Rightarrow> char \<Rightarrow> bytes" where
  "pin_args direction pin = [CHR 0x82, CHR 0xA9] @ ''direction'' @ direction @ [CHR 0xA3] @ ''pin'' @ [pin]"

definition x86_capabilities :: "cc_calvinsys_capability list" where
  "x86_capabilities = [
     configured ''io.temperature'' ''cc_test_temperature_open'' True None,
     configured ''io.light'' ''cc_test_gpio_open'' True (Some (pin_args (CHR 0xA3 # ''out'') (CHR 0x00))),
     configured ''io.button'' ''cc_test_gpio_open'' True (Some (pin_args (CHR 0xA2 # ''in'') (CHR 0x01)))]"

definition esp_capabilities :: "cc_calvinsys_capability list" where
  "esp_capabilities = [
     configured ''io.temperature'' ''cc_calvinsys_ds18b20_open'' False (Some ([CHR 0x81, CHR 0xA3] @ ''pin'' @ [CHR 0x05])),
     configured ''io.light'' ''cc_calvinsys_gpio_open'' False (Some (pin_args (CHR 0xA3 # ''out'') (CHR 0x00))),
     configured ''io.soil_moisture'' ''cc_calvinsys_yl69_open'' False None]"

section \<open>Names\<close>

text \<open>Capabilities that are not called \<open>k\<close>, listed under their whole names.\<close>

definition called_otherwise :: "bytes \<Rightarrow> addr cc_list \<Rightarrow> bool" where
  "called_otherwise k l = list_all (\<lambda>i. key_of (li_id_len i) (li_id i) \<and> length (li_id i) < CC_UUID_BUFFER_SIZE \<and> li_id i \<noteq> k) l"

lemma called_otherwise_get:
  assumes "no_nul k" "length k < CC_UUID_BUFFER_SIZE"
  shows "called_otherwise k l \<Longrightarrow> cc_list_get l k = None"
proof (induction l)
  case (Cons i l)
  have i: "no_nul (li_id i)" "li_id_len i = length (li_id i)" "length (li_id i) < CC_UUID_BUFFER_SIZE" "li_id i \<noteq> k"
    using Cons.prems by (auto simp: called_otherwise_def)
  have "\<not> (strnlen (li_id i) CC_UUID_BUFFER_SIZE = strnlen k CC_UUID_BUFFER_SIZE \<and> strncmp0 (li_id i) k (li_id_len i))"
  proof
    assume e: "strnlen (li_id i) CC_UUID_BUFFER_SIZE = strnlen k CC_UUID_BUFFER_SIZE \<and> strncmp0 (li_id i) k (li_id_len i)"
    have "strnlen (li_id i) CC_UUID_BUFFER_SIZE = length (li_id i)" "strnlen k CC_UUID_BUFFER_SIZE = length k" using i assms by (simp_all add: strnlen_def)
    moreover have "prefix (li_id i) k" using e strncmp0_prefix_right[OF i(1,2)] by simp
    ultimately show False using e i(4) by (auto simp: prefix_def)
  qed
  then show ?case using Cons by (auto simp: called_otherwise_def)
qed simp

lemma add_capabilities_called:
  "cc_calvinsys_add_capabilities cs w = (r, w') \<Longrightarrow> called_otherwise k (n_capabilities w) \<Longrightarrow>
   list_all (\<lambda>c. no_nul (cap_name c) \<and> length (cap_name c) < CC_UUID_BUFFER_SIZE \<and> cap_name c \<noteq> k) cs \<Longrightarrow> called_otherwise k (n_capabilities w')"
proof (induction cs arbitrary: w)
  case (Cons c cs)
  obtain r1 w1 where n: "new_capability (cap_name c) (\<lambda>name. c\<lparr>cap_name := name, cap_free_init_args := False\<rparr>) w = (r1, w1)" by fastforce
  have "called_otherwise k (n_capabilities w1)"
    using n Cons.prems(2,3) by (auto simp: called_otherwise_def new_capability_def cc_list_add_n_def cc__list_add_def mem_alloc_def Let_def
        split: if_splits list.splits prod.splits option.splits bool.splits)
  with Cons n show ?case by (cases r1) auto
qed simp

text \<open>
  The configuration of the ESP8266 has the actor \<open>sensor.SoilMoisture\<close> and a sensor for it, but the actor opens
  \<open>io.soilmoisture\<close> and the capability is called \<open>io.soil_moisture\<close>. With these capabilities, and none under the first name before,
  the actor can never be initialised.
\<close>

lemma soil_moisture_refused:
  assumes "called_otherwise ''io.soilmoisture'' (n_capabilities w)" "cc_calvinsys_add_capabilities esp_capabilities w = (r, w1)"
    and "n_capabilities v = n_capabilities w1"
  shows "\<exists>v'. cc_actor_soil_moisture_init x a attrs v = Some (CC_FAIL, v')"
proof -
  have "list_all (\<lambda>c. no_nul (cap_name c) \<and> length (cap_name c) < CC_UUID_BUFFER_SIZE \<and> cap_name c \<noteq> ''io.soilmoisture'') esp_capabilities"
    by (simp add: esp_capabilities_def configured_def CC_UUID_BUFFER_SIZE_def)
  then have "called_otherwise ''io.soilmoisture'' (n_capabilities v)" using add_capabilities_called[OF assms(2,1)] assms(3) by simp
  then have g: "cc_list_get (n_capabilities v) ''io.soilmoisture'' = None" by (rule called_otherwise_get[rotated 2]) (simp_all add: CC_UUID_BUFFER_SIZE_def)
  obtain ok v1 where m: "mem_alloc v = (ok, v1)" by fastforce
  obtain u v2 where u: "cc_gen_uuid None v1 = (u, v2)" by fastforce
  have "n_capabilities v2 = n_capabilities v"
    using node_eqD[OF conjunct1[OF gen_uuid_more[OF u]]] node_eqD[OF mem_alloc_more[OF m, THEN conjunct1]] by simp
  then show ?thesis using g m u by (cases ok) (simp_all add: cc_actor_soil_moisture_init_def cc_calvinsys_open_def Let_def del: strncmp0_numeral)
qed

section \<open>The light on a pin\<close>

lemma cancel_port_ok:
  assumes "h_ports w p = Some port" "p_fifo port = Some f1" "fifo_ok f1" "fifo_abs f1 = q_peek q" "q_pend q = 0"
  shows "\<exists>f'. cancel_port p w = Some (set_queue p port f' w) \<and> fifo_ok f' \<and> fifo_abs f' = q"
proof -
  have "fifo_ok (cc_fifo_cancel_commit f1)" "fifo_abs (cc_fifo_cancel_commit f1) = q_cancel (q_peek q)"
    using fifo_cancel_ok[OF assms(3)] assms(4) by (simp_all add: cc_fifo_cancel_commit_def cc_fifo_cancel_def)
  then show ?thesis using assms with_fifo_eq[OF assms(1,2), of "\<lambda>f. Some ((), cc_fifo_cancel_commit f)"]
    by (intro exI[of _ "cc_fifo_cancel_commit f1"]) (simp add: cancel_port_def q_cancel_def q_peek_def)
qed

text \<open>The actor's light is a pin of the ESP8266.\<close>

definition light_on_pin :: "addr \<Rightarrow> cc_calvinsys_gpio_state \<Rightarrow> world \<Rightarrow> bool" where
  "light_on_pin a s w = (case get_light a w of None \<Rightarrow> False | Some st \<Rightarrow>
     (case cc_list_get (n_objects w) (lgt_light st) of None \<Rightarrow> False | Some oi \<Rightarrow>
     (case h_objs w (li_data oi) of None \<Rightarrow> False
      | Some ob \<Rightarrow> o_impl ob = Some (Impl_ext ''cc_calvinsys_gpio_open'') \<and> o_state ob = OS_esp_gpio s)))"

lemma pin_written:
  assumes "light_on_pin a s w" "get_light a w = Some st" "cc_coder_decode_uint (x_mp y) d = Some v"
  shows "cc_calvinsys_write (with_drivers brd y) (lgt_light st) d n w
     = Some (case v of None \<Rightarrow> (CC_FAIL, w) | Some value \<Rightarrow> (CC_SUCCESS, hw (Gpio_write (ucast (eg_pin s)) value) w))"
  using assms by (auto simp: light_on_pin_def cc_calvinsys_write_def obj_write_def with_drivers_def platform_caps_def esp_gpio_def
      cc_calvinsys_gpio_write_def get_esp_gpio_def split: option.splits)

text \<open>
  C38: a light on a pin. When a token with a number comes in, the actor sets its pin to the number, once, and the token is consumed. When the
  token is no number, the pin is left alone, the firing fails and the token stays first in the queue.
\<close>

theorem light_sets_pin:
  assumes "light_on_pin a s w" "in_port a w = Some p" "port_queue w p port f" "q_items (fifo_abs f) = t # ts" "tok_value t = Some d"
    and "cc_coder_decode_uint (x_mp y) d = Some v"
  shows "\<exists>f'. fifo_ok f' \<and> q_pend (fifo_abs f') = 0
     \<and> (case v of
          Some value \<Rightarrow> q_items (fifo_abs f') = ts
            \<and> cc_actor_light_fire (with_drivers brd y) a w = Some (True, hw (Gpio_write (ucast (eg_pin s)) value) (set_queue p port f' w))
        | None \<Rightarrow> q_items (fifo_abs f') = t # ts \<and> cc_actor_light_fire (with_drivers brd y) a w = Some (False, set_queue p port f' w))"
proof -
  obtain st where st: "get_light a w = Some st" using assms(1) by (auto simp: light_on_pin_def split: option.splits)
  have q0: "q_pend (fifo_abs f) = 0" using port_queueD[OF assms(3)] by simp
  obtain f1 where f1: "peek_port p w = Some (t, set_queue p port f1 w)" "fifo_ok f1" "fifo_abs f1 = q_peek (fifo_abs f)"
    using peek_port_ok[OF assms(3,4)] by blast
  let ?w1 = "set_queue p port f1 w"
  have g: "get_light a ?w1 = Some st" using st by (simp add: get_light_def get_instance_def del: bind_Some_iff)
  then have l: "light_on_pin a s ?w1" using assms(1) st by (auto simp: light_on_pin_def split: option.splits)
  note wr = pin_written[OF l g assms(6), of brd "tok_size t"]
  have p1: "h_ports ?w1 p = Some (port\<lparr>p_fifo := Some f1\<rparr>)" "p_fifo (port\<lparr>p_fifo := Some f1\<rparr>) = Some f1" by simp_all
  show ?thesis
  proof (cases v)
    case None
    obtain f' where "cancel_port p ?w1 = Some (set_queue p (port\<lparr>p_fifo := Some f1\<rparr>) f' ?w1)" "fifo_ok f'" "fifo_abs f' = fifo_abs f"
      using cancel_port_ok[OF p1 f1(2,3) q0] by (elim exE conjE) (rule that)
    then show ?thesis using assms(2-5) q0 f1(1) g wr None by (intro exI[of _ f']) (simp add: cc_actor_light_fire_def)
  next
    case (Some val)
    have "h_ports (hw (Gpio_write (ucast (eg_pin s)) val) ?w1) p = Some (port\<lparr>p_fifo := Some f1\<rparr>)" by (simp add: hw_def)
    from commit_port_ok[OF this p1(2) f1(2,3) q0 assms(4), where b = True] obtain f' where f':
        "commit_port p True (hw (Gpio_write (ucast (eg_pin s)) val) ?w1) = Some (set_queue p (port\<lparr>p_fifo := Some f1\<rparr>) f' (hw (Gpio_write (ucast (eg_pin s)) val) ?w1))"
        "fifo_ok f'" "q_pend (fifo_abs f') = 0" "q_items (fifo_abs f') = ts"
      by (elim exE conjE) (rule that)
    then show ?thesis using assms(2-5) q0 f1(1) g wr Some by (intro exI[of _ f']) (simp add: cc_actor_light_fire_def hw_def)
  qed
qed

definition example_lit :: world where
  "example_lit = example_pipe\<lparr>h_ports := [11 \<mapsto> (example_in None)\<lparr>p_fifo := Some (one_token (Some (enc mp_ref (MUint 1))) 1)\<rparr>],
     h_actors := [20 \<mapsto> (example_actor ''A'' [example_port_item ''i'' 11] [])\<lparr>a_instance := Some (Inst_light \<lparr>lgt_light = ''L''\<rparr>)\<rparr>],
     n_objects := [example_obj_item ''L'' 30],
     h_objs := [30 \<mapsto> (example_obj ''L'' 0)\<lparr>o_impl := Some (Impl_ext ''cc_calvinsys_gpio_open''), o_state := OS_esp_gpio \<lparr>eg_pin = 4, eg_direction = CC_GPIO_OUT\<rparr>\<rparr>]\<rparr>"

theorem light_sets_pin_witness:
  "\<exists>w'. cc_actor_light_fire (with_drivers example_board example_ext) 20 example_lit = Some (True, w') \<and> e_hw w' = [Gpio_write 4 1]"
proof -
  let ?d = "enc mp_ref (MUint 1)" and ?s = "\<lparr>eg_pin = 4, eg_direction = CC_GPIO_OUT\<rparr>"
  let ?f = "one_token (Some ?d) 1" and ?t = "\<lparr>tok_value = Some ?d, tok_size = 1\<rparr>"
  let ?p = "(example_in None)\<lparr>p_fifo := Some ?f\<rparr>"
  have l: "light_on_pin 20 ?s example_lit" "in_port 20 example_lit = Some 11"
    by (simp_all add: light_on_pin_def get_light_def get_instance_def in_port_def example_lit_def example_obj_item_def example_obj_def
        example_actor_def example_port_item_def CC_UUID_BUFFER_SIZE_def del: enc.simps)
  have q: "port_queue example_lit 11 ?p ?f" "q_items (fifo_abs ?f) = [?t]"
    using one_token_ok[of "Some ?d" 1] by (simp_all add: port_queue_def example_lit_def)
  have d: "cc_coder_decode_uint (x_mp example_ext) ?d = Some (Some 1)" using ref.decode_uint_enc[of 1 "[]"] by (simp add: example_ext_def)
  have "e_hw example_lit = []" by (simp add: example_lit_def example_pipe_def example_world_def)
  then show ?thesis using light_sets_pin[OF l q _ d, of example_board] by (auto simp: hw_def)
qed

end
