(* ===== verification/Coap_Client.thy ===== *)
theory Coap_Client
  imports Drivers
begin

text \<open>
  The capability of the x86 platform that observes CoAP resources,
  \<open>src/runtime/south/platform/x86/calvinsys/cc_libcoap_client.c\<close>, and what it adds to the runtime from its arguments, a JSON text. The library
  libcoap and the sockets are parameters, the record \<open>coap\<close>.
\<close>

section \<open>The library and the sockets\<close>

datatype coap_option = COAP_OPTION_OBSERVE bool | COAP_OPTION_URI_PORT u32 | COAP_OPTION_URI_PATH bytes | COAP_OPTION_CONTENT_FORMAT nat | COAP_OPTION_ACCEPT bytes

record coap_uri =
  cu_host :: bytes
  cu_port :: u32
  cu_path :: bytes

record coap_reply =
  cr_class :: nat
  cr_confirmable :: bool
  cr_tid :: "16 word"
  cr_data :: "bytes option"

text \<open>
  \<open>co_pdu mid options\<close> is a confirmable \<open>GET\<close> as it is sent, \<open>None\<close> when it cannot be made; \<open>co_ack\<close> an acknowledgement. An address that
  \<open>getaddrinfo\<close> finds: whether it is a datagram address of IPv4, the descriptor of a socket for it, and whether that connects.
\<close>

record address =
  ad_inet_dgram :: bool
  ad_socket :: int
  ad_connects :: bool

record coap =
  co_split_uri :: "bytes \<Rightarrow> coap_uri option"
  co_split_path :: "bytes \<Rightarrow> bytes list"
  co_pdu :: "16 word \<Rightarrow> coap_option list \<Rightarrow> bytes option"
  co_ack :: "16 word \<Rightarrow> bytes option"
  co_parse :: "bytes \<Rightarrow> coap_reply option"
  co_getaddrinfo :: "bytes \<Rightarrow> u32 \<Rightarrow> world \<Rightarrow> address list option"
  co_nonblocking :: "int \<Rightarrow> world \<Rightarrow> bool"
  co_send :: "int \<Rightarrow> bytes \<Rightarrow> world \<Rightarrow> bool"
  co_recv :: "int \<Rightarrow> world \<Rightarrow> bytes option"

definition COAP_DEFAULT_PORT :: u32 where
  "COAP_DEFAULT_PORT = 5683"

section \<open>Requests\<close>

definition get_coap_state :: "addr \<Rightarrow> world \<Rightarrow> cc_coap_state option" where
  "get_coap_state a w = do { ob \<leftarrow> h_objs w a; case o_state ob of OS_coap s \<Rightarrow> Some s | _ \<Rightarrow> None }"

text \<open>The options of the request, in the order of their numbers. The parts of the address point into the arguments of the capability.\<close>

definition coap_options :: "coap \<Rightarrow> coap_uri \<Rightarrow> bool \<Rightarrow> coap_option list" where
  "coap_options co uri start =
     [COAP_OPTION_OBSERVE start] @ (if cu_port uri \<noteq> COAP_DEFAULT_PORT then [COAP_OPTION_URI_PORT (cu_port uri)] else [])
     @ (if cu_path uri \<noteq> [] then map COAP_OPTION_URI_PATH (co_split_path co (cu_path uri)) else [])
     @ [COAP_OPTION_CONTENT_FORMAT 0, COAP_OPTION_ACCEPT []]"

definition cc_coap_send_pdu :: "coap \<Rightarrow> addr \<Rightarrow> bool \<Rightarrow> world \<Rightarrow> (cc_result \<times> world) option" where
  "cc_coap_send_pdu co a start w = do {
     s \<leftarrow> get_coap_state a w;
     uri \<leftarrow> co_split_uri co (co_uri s);
     w \<leftarrow> set_obj_state a (OS_coap (s\<lparr>co_message_id := co_message_id s + 1\<rparr>)) w;
     Some (case co_pdu co (co_message_id s) (coap_options co uri start) of
         None \<Rightarrow> (CC_FAIL, w)
       | Some pdu \<Rightarrow> (if co_send co (co_fd s) pdu w then CC_SUCCESS else CC_FAIL, hw (Socket_send (co_fd s) pdu) w)) }"

definition cc_coap_can_read :: "addr \<Rightarrow> world \<Rightarrow> (bool \<times> world) option" where
  "cc_coap_can_read a w = do { s \<leftarrow> get_coap_state a w; _ \<leftarrow> obj_capability a w; Some (co_fd s \<in> set (n_ready w), w) }"

definition cc_coap_send_ack :: "coap \<Rightarrow> int \<Rightarrow> 16 word \<Rightarrow> world \<Rightarrow> cc_result \<times> world" where
  "cc_coap_send_ack co fd tid w = (case co_ack co tid of
     None \<Rightarrow> (CC_FAIL, w)
   | Some pdu \<Rightarrow> (if co_send co fd pdu w then CC_SUCCESS else CC_FAIL, hw (Socket_send fd pdu) w))"

text \<open>The payload is delivered even when the response is an error, with the result \<open>CC_FAIL\<close>.\<close>

definition cc_coap_read :: "coap \<Rightarrow> mp \<Rightarrow> addr \<Rightarrow> world \<Rightarrow> (cc_result \<times> (bytes \<times> nat) option \<times> world) option" where
  "cc_coap_read co mp a w = do {
     s \<leftarrow> get_coap_state a w;
     case co_recv co (co_fd s) w of
       None \<Rightarrow> Some (CC_FAIL, None, w)
     | Some b \<Rightarrow> do {
         _ \<leftarrow> obj_capability a w;
         let w = w\<lparr>n_ready := filter (\<lambda>fd. fd \<noteq> co_fd s) (n_ready w)\<rparr>;
         case co_parse co b of
           None \<Rightarrow> Some (CC_FAIL, None, w)
         | Some pdu \<Rightarrow> do {
             let w = (if cr_confirmable pdu then snd (cc_coap_send_ack co (co_fd s) (cr_tid pdu) w) else w);
             case cr_data pdu of
               None \<Rightarrow> Some (CC_FAIL, None, w)
             | Some payload \<Rightarrow> do {
                 let e = cc_coder_encode_str mp [] payload (of_nat (length payload));
                 (d, w) \<leftarrow> boxed (cc_coder_sizeof_str mp (of_nat (length payload))) e (length e) w;
                 Some (if d \<noteq> None \<and> cr_class pdu = 2 then CC_SUCCESS else CC_FAIL, d, w) } } } }"

definition cc_coap_can_write :: "addr \<Rightarrow> world \<Rightarrow> (bool \<times> world) option" where
  "cc_coap_can_write a w = Some (True, w)"

definition cc_coap_write :: "coap \<Rightarrow> addr \<Rightarrow> bytes \<Rightarrow> nat \<Rightarrow> world \<Rightarrow> (cc_result \<times> world) option" where
  "cc_coap_write co a data n w = cc_coap_send_pdu co a True w"

section \<open>Opening and closing\<close>

text \<open>The first slot that holds \<open>fd\<close> is set to \<open>v\<close>; \<open>None\<close> when there is none.\<close>

fun replace_first :: "int \<Rightarrow> int \<Rightarrow> int list \<Rightarrow> int list option" where
  "replace_first fd v [] = None"
| "replace_first fd v (f # fds) = (if f = fd then Some (v # fds) else map_option (Cons f) (replace_first fd v fds))"

definition cc_coap_close :: "coap \<Rightarrow> addr \<Rightarrow> world \<Rightarrow> (cc_result \<times> world) option" where
  "cc_coap_close co a w = do {
     s \<leftarrow> get_coap_state a w;
     _ \<leftarrow> obj_capability a w;
     let w = w\<lparr>n_fds := (case replace_first (co_fd s) (- 1) (n_fds w) of None \<Rightarrow> n_fds w | Some fds \<Rightarrow> fds)\<rparr>;
     (_, w) \<leftarrow> cc_coap_send_pdu co a False w;
     free_state a (hw (Socket_close (co_fd s)) w) }"

text \<open>The addresses in turn until one connects.\<close>

fun connect_first :: "address list \<Rightarrow> world \<Rightarrow> int option \<times> world" where
  "connect_first [] w = (None, w)"
| "connect_first (ad # ads) w =
     (if \<not> ad_inet_dgram ad \<or> ad_socket ad = - 1 then connect_first ads w
      else if ad_connects ad then (Some (ad_socket ad), w)
      else connect_first ads (hw (Socket_close (ad_socket ad)) w))"

definition cc_coap_setup :: "coap \<Rightarrow> bytes \<Rightarrow> u32 \<Rightarrow> world \<Rightarrow> int option \<times> world" where
  "cc_coap_setup co ip port w = (case co_getaddrinfo co ip port w of
     None \<Rightarrow> (None, w)
   | Some ads \<Rightarrow> (case connect_first ads w of
       (None, w) \<Rightarrow> (None, w)
     | (Some fd, w) \<Rightarrow> if co_nonblocking co fd w then (Some fd, w) else (None, hw (Socket_close fd) w)))"

text \<open>The name of the host goes into an array of 40 bytes; one that fills it has no end.\<close>

definition cc_coap_init :: "coap \<Rightarrow> mp \<Rightarrow> bytes \<Rightarrow> world \<Rightarrow> ((int \<times> bytes) option \<times> world) option" where
  "cc_coap_init co mp init_args w = do {
     u \<leftarrow> cc_coder_decode_string_from_map mp init_args ''uri'';
     case u of
       None \<Rightarrow> Some (None, w)
     | Some (uri, len) \<Rightarrow>
         (case co_split_uri co (take (unat len) uri) of
            None \<Rightarrow> Some (None, w)
          | Some parts \<Rightarrow> do {
              ip \<leftarrow> strncpy_term 40 (cu_host parts) (length (cu_host parts));
              Some (case cc_coap_setup co ip (cu_port parts) w of
                  (None, w) \<Rightarrow> (None, w) | (Some fd, w) \<Rightarrow> (Some (fd, take (unat len) uri), w)) }) }"

definition cc_calvinsys_coap_open :: "coap \<Rightarrow> mp \<Rightarrow> addr \<Rightarrow> bytes cc_list \<Rightarrow> world \<Rightarrow> (cc_result \<times> world) option" where
  "cc_calvinsys_coap_open co mp a kwargs w = do {
     c \<leftarrow> obj_capability a w;
     if - 1 \<notin> set (n_fds w) then Some (CC_FAIL, w)
     else case mem_alloc w of
       (False, w) \<Rightarrow> Some (CC_FAIL, w)
     | (True, w) \<Rightarrow> do {
         init_args \<leftarrow> cap_init_args c;
         (r, w) \<leftarrow> cc_coap_init co mp init_args w;
         case r of
           None \<Rightarrow> Some (CC_FAIL, w)
         | Some (fd, uri) \<Rightarrow> do {
             w \<leftarrow> install a (Impl_ext ''cc_calvinsys_coap_open'') (OS_coap \<lparr>co_fd = fd, co_uri = uri, co_message_id = 0\<rparr>) w;
             fds \<leftarrow> replace_first (- 1) fd (n_fds w);
             Some (CC_SUCCESS, w\<lparr>n_fds := fds\<rparr>) } } }"

definition coap_client :: "coap \<Rightarrow> mp \<Rightarrow> cap_ops" where
  "coap_client co mp = \<lparr>xo_open = cc_calvinsys_coap_open co mp, xo_deserialize = cc_calvinsys_coap_open co mp, xo_can_write = Some cc_coap_can_write,
     xo_write = Some (cc_coap_write co), xo_can_read = Some cc_coap_can_read, xo_read = Some (cc_coap_read co mp), xo_close = Some (cc_coap_close co),
     xo_serialize = None\<rparr>"

section \<open>The arguments\<close>

text \<open>Names go into an array of 100 bytes.\<close>

definition coap_name :: "bytes \<Rightarrow> jsmntok \<Rightarrow> bytes option" where
  "coap_name args t = strncpy_term 100 (drop (jstart t) args) (jend t - jstart t)"

text \<open>
  The tokens behind the object, two for each of its entries; a value with tokens of its own shifts the rest. When the list cannot be
  extended, an array on the stack is freed, a fault.
\<close>

fun add_coap_actors :: "bytes \<Rightarrow> nat \<Rightarrow> jsmntok list \<Rightarrow> world \<Rightarrow> (cc_result \<times> world) option" where
  "add_coap_actors args 0 ts w = Some (CC_SUCCESS, w)"
| "add_coap_actors args (Suc n) (k # v # ts) w = (case mem_alloc w of
     (False, w) \<Rightarrow> Some (CC_FAIL, w)
   | (True, w) \<Rightarrow> do {
       name \<leftarrow> coap_name args k;
       case mem_alloc w of
         (False, w) \<Rightarrow> Some (CC_FAIL, w)
       | (True, w) \<Rightarrow>
           (case cc_list_add_n (n_actor_types w) name (strlen name)
                   \<lparr>ty_impl = ''cc_actor_coap_setup'', ty_requires = Some (cstr (take (jend v - jstart v) (drop (jstart v) args)))\<rparr> 0 w of
              (None, l, w) \<Rightarrow> None
            | (Some _, l, w) \<Rightarrow> add_coap_actors args n ts (w\<lparr>n_actor_types := l\<rparr>)) })"
| "add_coap_actors args (Suc n) ts w = None"

fun add_coap_capabilities :: "mp \<Rightarrow> bytes \<Rightarrow> nat \<Rightarrow> jsmntok list \<Rightarrow> world \<Rightarrow> (cc_result \<times> world) option" where
  "add_coap_capabilities mp args 0 ts w = Some (CC_SUCCESS, w)"
| "add_coap_capabilities mp args (Suc n) (k # v # ts) w = do {
     name \<leftarrow> coap_name args k;
     let len = of_nat (jend v - jstart v);
     let tmp = cc_coder_encode_kv_str mp (cc_coder_encode_map mp [] 1) ''uri'' (drop (jstart v) args) len;
     (d, w) \<leftarrow> boxed (cc_coder_sizeof_str mp len + 10) tmp (length tmp) w;
     case d of
       None \<Rightarrow> Some (CC_FAIL, w)
     | Some (init_args, _) \<Rightarrow>
         (case cc_calvinsys_create_capability name (Some (Impl_ext ''cc_calvinsys_coap_open'')) (Some (Impl_ext ''cc_calvinsys_coap_open'')) (Some init_args) True w of
            (CC_SUCCESS, w) \<Rightarrow> add_coap_capabilities mp args n ts w
          | (_, w) \<Rightarrow> Some (CC_FAIL, w)) }"
| "add_coap_capabilities mp args (Suc n) ts w = None"

definition cc_libcoap_create :: "ext \<Rightarrow> bytes \<Rightarrow> world \<Rightarrow> (cc_result \<times> world) option" where
  "cc_libcoap_create x args w = (case x_jsmn x args (strlen args) 128 of
     None \<Rightarrow> Some (CC_FAIL, w)
   | Some [] \<Rightarrow> Some (CC_FAIL, w)
   | Some (t # ts) \<Rightarrow>
       if jtype t \<noteq> JSMN_OBJECT then Some (CC_FAIL, w)
       else do {
         c \<leftarrow> cc_json_get_dict_value args (t # ts) ''coap'' 4;
         case c of None \<Rightarrow> Some (CC_FAIL, w) | Some obj_coap \<Rightarrow> do {
         v \<leftarrow> cc_json_get_dict_value args obj_coap ''actors'' 6;
         case v of None \<Rightarrow> Some (CC_FAIL, w) | Some [] \<Rightarrow> None | Some (obj_actors # actors) \<Rightarrow> do {
         (r, w) \<leftarrow> add_coap_actors args (jsize obj_actors) actors w;
         if r \<noteq> CC_SUCCESS then Some (CC_FAIL, w)
         else do {
           v \<leftarrow> cc_json_get_dict_value args obj_coap ''capabilities'' 12;
           case v of None \<Rightarrow> Some (CC_FAIL, w) | Some [] \<Rightarrow> None
           | Some (obj_capabilities # capabilities) \<Rightarrow> add_coap_capabilities (x_mp x) args (jsize obj_capabilities) capabilities w } } } })"

section \<open>Descriptors\<close>

lemma replace_first_some: "fd \<in> set fds \<Longrightarrow> \<exists>fds'. replace_first fd v fds = Some fds' \<and> length fds' = length fds \<and> v \<in> set fds'"
  by (induction fds) auto

lemma replace_first_back: "replace_first old v fds = Some fds' \<Longrightarrow> v \<notin> set fds \<Longrightarrow> v \<noteq> old \<Longrightarrow> replace_first v old fds' = Some fds"
  by (induction fds arbitrary: fds') (auto split: if_splits)

lemma replace_first_mem: "replace_first fd v fds = Some fds' \<Longrightarrow> fd \<in> set fds"
  by (induction fds arbitrary: fds') (auto split: if_splits)

lemma hw_more [simp]: "env.more (hw c w) = env.more w"
  by (simp add: hw_def)

lemma connect_first_more: "connect_first ads w = (r, w') \<Longrightarrow> env.more w' = env.more w"
  by (induction ads arbitrary: w) (auto split: if_splits)

lemma coap_setup_more: "cc_coap_setup co ip port w = (r, w') \<Longrightarrow> env.more w' = env.more w"
  by (auto simp: cc_coap_setup_def split: option.splits prod.splits if_splits dest: connect_first_more)

lemma coap_init_more:
  assumes "cc_coap_init co mp args w = Some (r, w')"
  shows "env.more w' = env.more w"
proof -
  obtain u where u: "cc_coder_decode_string_from_map mp args ''uri'' = Some u" using assms by (auto simp: cc_coap_init_def)
  show ?thesis
  proof (cases u)
    case (Some l)
    obtain uri len where l: "l = (uri, len)" by (cases l)
    show ?thesis
    proof (cases "co_split_uri co (take (unat len) uri)")
      case (Some parts)
      obtain ip where ip: "strncpy_term 40 (cu_host parts) (length (cu_host parts)) = Some ip" using assms u \<open>u = Some l\<close> l Some by (auto simp: cc_coap_init_def)
      obtain r' w2 where "cc_coap_setup co ip (cu_port parts) w = (r', w2)" by fastforce
      then show ?thesis using assms u \<open>u = Some l\<close> l Some ip coap_setup_more by (cases r') (auto simp: cc_coap_init_def)
    qed (use assms u Some l in \<open>simp add: cc_coap_init_def\<close>)
  qed (use assms u in \<open>simp add: cc_coap_init_def\<close>)
qed

text \<open>What opening does when it succeeds, and that it does nothing without a free place.\<close>

lemma coap_open_effect:
  assumes "cc_calvinsys_coap_open co mp a kwargs w = Some (CC_SUCCESS, w1)"
  obtains ob c fds fd uri where "h_objs w a = Some ob" "h_caps w (o_capability ob) = Some c"
    "h_objs w1 = (h_objs w)(a \<mapsto> ob\<lparr>o_impl := Some (Impl_ext ''cc_calvinsys_coap_open''), o_state := OS_coap \<lparr>co_fd = fd, co_uri = uri, co_message_id = 0\<rparr>\<rparr>)"
    "h_caps w1 = h_caps w" "replace_first (- 1) fd (n_fds w) = Some fds" "n_fds w1 = fds"
proof -
  obtain c where c: "obj_capability a w = Some c" "- 1 \<in> set (n_fds w)" using assms by (auto simp: cc_calvinsys_coap_open_def split: if_splits)
  obtain wm where m: "mem_alloc w = (True, wm)" using assms c by (cases "mem_alloc w") (auto simp: cc_calvinsys_coap_open_def split: bool.splits)
  obtain init_args fd uri w2 where i: "cc_coap_init co mp init_args wm = Some (Some (fd, uri), w2)"
    and k: "do { w \<leftarrow> install a (Impl_ext ''cc_calvinsys_coap_open'') (OS_coap \<lparr>co_fd = fd, co_uri = uri, co_message_id = 0\<rparr>) w2;
             fds \<leftarrow> replace_first (- 1) fd (n_fds w); Some (CC_SUCCESS, w\<lparr>n_fds := fds\<rparr>) } = Some (CC_SUCCESS, w1)"
    using assms c m by (auto simp: cc_calvinsys_coap_open_def split: option.splits)
  have e: "env.more w2 = env.more w" using coap_init_more[OF i] mem_alloc_more[OF m] by simp
  have n: "h_objs w2 = h_objs w" "h_caps w2 = h_caps w" "n_fds w2 = n_fds w" using e by (cases w; cases w2; simp)+
  show thesis using k c n that by (fastforce simp: install_def upd_obj_def obj_capability_def)
qed

lemma coap_no_place: "obj_capability a w \<noteq> None \<Longrightarrow> - 1 \<notin> set (n_fds w) \<Longrightarrow> cc_calvinsys_coap_open co mp a kwargs w = Some (CC_FAIL, w)"
  by (auto simp: cc_calvinsys_coap_open_def)

lemma coap_send_returns:
  assumes "get_coap_state a w = Some s" "co_split_uri co (co_uri s) = Some parts"
  shows "\<exists>r w'. cc_coap_send_pdu co a start w = Some (r, w') \<and> n_fds w' = n_fds w \<and> h_objs w' a \<noteq> None"
proof -
  obtain ob where "h_objs w a = Some ob" using assms(1) by (auto simp: get_coap_state_def)
  then show ?thesis using assms
    by (cases "co_pdu co (co_message_id s) (coap_options co parts start)") (simp_all add: cc_coap_send_pdu_def set_obj_state_def upd_obj_def hw_def)
qed

text \<open>
  C40: descriptors are given back. Opening a CoAP resource takes one of the ten places for the descriptors the node waits for. Closing the
  object asks the server to stop, closes the socket and leaves the places as they were before.
\<close>

theorem coap_place_returned:
  assumes "cc_calvinsys_coap_open co mp a kwargs w = Some (CC_SUCCESS, w1)" "h_objs w1 a = Some ob" "o_state ob = OS_coap s"
    and "co_fd s \<notin> set (n_fds w)" "co_split_uri co (co_uri s) \<noteq> None"
  shows "\<exists>w2. cc_coap_close co a w1 = Some (CC_SUCCESS, w2) \<and> co_fd s \<in> set (n_fds w1) \<and> length (n_fds w1) = length (n_fds w)
     \<and> n_fds w2 = n_fds w \<and> last (e_hw w2) = Socket_close (co_fd s)"
  using assms(1)
proof (cases rule: coap_open_effect)
  case (1 ob0 c fds fd uri)
  have s: "co_fd s = fd" "get_coap_state a w1 = Some s" using assms(2,3) 1(3) by (auto simp: get_coap_state_def)
  have m: "- 1 \<in> set (n_fds w)" using 1(5) by (rule replace_first_mem)
  then have f: "fd \<noteq> - 1" using assms(4) s(1) by auto
  have p: "length fds = length (n_fds w)" "fd \<in> set fds" using replace_first_some[OF m, of fd] 1(5) by auto
  have b: "replace_first fd (- 1) fds = Some (n_fds w)" using replace_first_back[OF 1(5)] assms(4) s(1) f by simp
  obtain parts where u: "co_split_uri co (co_uri s) = Some parts" using assms(5) by auto
  have c: "obj_capability a w1 = Some c" using 1(2-4) by (simp add: obj_capability_def)
  let ?w = "w1\<lparr>n_fds := n_fds w\<rparr>"
  have "get_coap_state a ?w = Some s" using s(2) by (simp add: get_coap_state_def del: bind_Some_iff)
  then obtain r w' where "cc_coap_send_pdu co a False ?w = Some (r, w')" "n_fds w' = n_fds w" "h_objs w' a \<noteq> None"
    using coap_send_returns[OF _ u, of a ?w False] by auto
  then show ?thesis using s c b p 1(6)
    by (auto simp: cc_coap_close_def Let_def set_obj_state_def upd_obj_def free_state_def hw_def)
qed

definition example_coap :: coap where
  "example_coap = \<lparr>co_split_uri = \<lambda>u. Some \<lparr>cu_host = ''10.0.0.2'', cu_port = 5683, cu_path = ''t''\<rparr>, co_split_path = \<lambda>p. [p],
     co_pdu = \<lambda>i os. Some [], co_ack = \<lambda>i. Some [], co_parse = \<lambda>b. None,
     co_getaddrinfo = \<lambda>h p w. Some [\<lparr>ad_inet_dgram = True, ad_socket = 7, ad_connects = True\<rparr>], co_nonblocking = \<lambda>fd w. True,
     co_send = \<lambda>fd b w. True, co_recv = \<lambda>fd w. None\<rparr>"

definition example_resource :: world where
  "example_resource = example_target\<lparr>h_caps := [2 \<mapsto> example_cap\<lparr>cap_init_args := Some (enc mp_ref (MMap [(MStr ''uri'', MStr ''coap://10.0.0.2/t'')]))\<rparr>],
     h_objs := [9 \<mapsto> example_obj ''C'' 0]\<rparr>"

theorem coap_place_returned_witness:
  "\<exists>w1 w2. cc_calvinsys_coap_open example_coap mp_ref 9 [] example_resource = Some (CC_SUCCESS, w1) \<and> cc_coap_close example_coap 9 w1 = Some (CC_SUCCESS, w2)
     \<and> 7 \<in> set (n_fds w1) \<and> n_fds w2 = n_fds example_resource"
proof -
  let ?kvs = "[(MStr ''uri'', MStr ''coap://10.0.0.2/t'')]" and ?w = example_resource
  obtain r where d: "cc_coder_decode_string_from_map mp_ref (enc mp_ref (MMap ?kvs)) ''uri'' = Some (Some (''coap://10.0.0.2/t'' @ r, 17))"
    using ref.string_from_map_enc[of ?kvs "''uri''" "''coap://10.0.0.2/t''" "[]"] by (auto simp: key_clear_def simp del: enc.simps)
  have f: "n_fds ?w = replicate 10 (- 1)" by (simp add: example_resource_def example_calvinsys_defs)
  obtain w1 ob s where o: "cc_calvinsys_coap_open example_coap mp_ref 9 [] ?w = Some (CC_SUCCESS, w1)" "h_objs w1 9 = Some ob" "o_state ob = OS_coap s" "co_fd s = 7"
    using d by (auto simp: cc_calvinsys_coap_open_def obj_capability_def cc_coap_init_def cc_coap_setup_def install_def upd_obj_def
        example_resource_def example_calvinsys_defs example_coap_def strncpy_term_def numeral_eq_Suc simp del: enc.simps)
  moreover have "co_fd s \<notin> set (n_fds ?w)" "co_split_uri example_coap (co_uri s) \<noteq> None" using o(4) f by (auto simp: example_coap_def)
  ultimately show ?thesis using coap_place_returned[OF o(1-3)] by auto
qed

end
