(* ===== verification/Platform_Esp.thy ===== *)
theory Platform_Esp
  imports Node Drivers
begin

text \<open>
  The platform of the ESP8266, \<open>src/runtime/south/platform/esp-open-rtos/cc_platform_esp8266.c\<close>: files in the flash memory, the access
  point through which a new device gets its configuration, the connection to the wireless network, waiting for data and the
  task that runs the node. The file system SPIFFS, the sockets and the radio are not part of the program: what they do is
  the record \<open>spiffs\<close> with the laws of the locale \<open>flash\<close>, and the record \<open>radio\<close>.
\<close>

section \<open>Files\<close>

text \<open>
  \<open>SPIFFS_stat\<close>: whether it succeeds, and what the size field holds afterwards. \<open>SPIFFS_create\<close> is \<open>SPIFFS_open\<close> with
  \<open>SPIFFS_CREAT | SPIFFS_TRUNC | SPIFFS_RDWR\<close>, \<open>None\<close> a negative descriptor. A descriptor is named by its path.
\<close>

record spiffs =
  SPIFFS_stat :: "bytes \<Rightarrow> fs \<Rightarrow> bool \<times> nat"
  SPIFFS_create :: "bytes \<Rightarrow> fs \<Rightarrow> fs option"
  SPIFFS_write :: "bytes \<Rightarrow> bytes \<Rightarrow> fs \<Rightarrow> int \<times> fs"
  SPIFFS_open_read :: "bytes \<Rightarrow> fs \<Rightarrow> bool"
  SPIFFS_read :: "bytes \<Rightarrow> nat \<Rightarrow> fs \<Rightarrow> bytes option"
  SPIFFS_mount :: "fs \<Rightarrow> bool"
  SPIFFS_format :: "fs \<Rightarrow> fs option"
  SPIFFS_remove :: "bytes \<Rightarrow> fs \<Rightarrow> fs"

definition CC_WIFI_CONFIG_FILE :: bytes where
  "CC_WIFI_CONFIG_FILE = ''wifi.msgpack''"

definition CC_ESP_BUFFER_SIZE :: nat where
  "CC_ESP_BUFFER_SIZE = 1024"

definition esp_file_stat :: "spiffs \<Rightarrow> bytes \<Rightarrow> world \<Rightarrow> cc_stat" where
  "esp_file_stat sp path w = (if fst (SPIFFS_stat sp path (w_fs w)) then CC_STAT_FILE else CC_STAT_NO_EXIST)"

definition esp_file_write :: "spiffs \<Rightarrow> bytes \<Rightarrow> bytes \<Rightarrow> world \<Rightarrow> cc_result \<times> world" where
  "esp_file_write sp path content w = (case SPIFFS_create sp path (w_fs w) of
     None \<Rightarrow> (CC_FAIL, w)
   | Some fs \<Rightarrow> (case SPIFFS_write sp path content fs of (res, fs) \<Rightarrow>
       (if res \<noteq> int (length content) then CC_FAIL else CC_SUCCESS, w\<lparr>w_fs := fs\<rparr>)))"

definition esp_file_read :: "spiffs \<Rightarrow> bytes \<Rightarrow> world \<Rightarrow> bytes option \<times> world" where
  "esp_file_read sp path w =
     (if \<not> SPIFFS_open_read sp path (w_fs w) then (None, w)
      else let n = snd (SPIFFS_stat sp path (w_fs w))
           in case mem_alloc w of
             (False, w) \<Rightarrow> (None, w)
           | (True, w) \<Rightarrow> (case SPIFFS_read sp path n (w_fs w) of
               None \<Rightarrow> (None, w)
             | Some b \<Rightarrow> if length b \<noteq> n then (None, w) else (Some b, w)))"

text \<open>Not implemented: the file stays.\<close>

definition esp_file_del :: "bytes \<Rightarrow> world \<Rightarrow> cc_result \<times> world" where
  "esp_file_del path w = (CC_SUCCESS, w)"

definition esp_platform :: "spiffs \<Rightarrow> cc_platform" where
  "esp_platform sp = \<lparr>pl_file_stat = esp_file_stat sp, pl_file_read = esp_file_read sp, pl_file_write = esp_file_write sp\<rparr>"

section \<open>Writing the configuration\<close>

text \<open>The tokens behind the array are its elements; a token that was not parsed is a fault.\<close>

fun esp_encode_uris :: "mp \<Rightarrow> bytes \<Rightarrow> jsmntok list \<Rightarrow> nat list \<Rightarrow> bytes \<Rightarrow> bytes option" where
  "esp_encode_uris mp proxy_uris uris [] tmp = Some tmp"
| "esp_encode_uris mp proxy_uris uris (i # is) tmp =
     (if length uris \<le> i then None
      else esp_encode_uris mp proxy_uris uris is
        (cc_coder_encode_str mp tmp (drop (jstart (uris ! i)) proxy_uris) (of_nat (jend (uris ! i) - jstart (uris ! i)))))"

text \<open>More bytes than the buffer on the stack has are written past its end, a fault.\<close>

definition cc_platform_esp_write_calvin_config :: "ext \<Rightarrow> spiffs \<Rightarrow> bytes \<Rightarrow> nat \<Rightarrow> bytes \<Rightarrow> nat \<Rightarrow> world \<Rightarrow> (cc_result \<times> world) option" where
  "cc_platform_esp_write_calvin_config x sp attributes attributes_len proxy_uris proxy_uris_len w = (case cc_gen_uuid None w of (i, w) \<Rightarrow> do {
     let tmp = cc_coder_encode_map (x_mp x) [] 3;
     let tmp = cc_coder_encode_kv_str (x_mp x) tmp ''id'' i (of_nat (strnlen i CC_UUID_BUFFER_SIZE));
     let tmp = cc_coder_encode_kv_str (x_mp x) tmp ''attributes'' attributes (of_nat attributes_len);
     if CC_ESP_BUFFER_SIZE < length tmp then None
     else case x_jsmn x proxy_uris proxy_uris_len 10 of
       None \<Rightarrow> Some (CC_FAIL, w)
     | Some [] \<Rightarrow> Some (CC_FAIL, w)
     | Some (t # ts) \<Rightarrow>
         if jtype t \<noteq> JSMN_ARRAY then Some (CC_FAIL, w)
         else do {
           tmp \<leftarrow> esp_encode_uris (x_mp x) proxy_uris (t # ts) [1..<Suc (jsize t)]
                    (cc_coder_encode_kv_array (x_mp x) tmp ''proxy_uris'' (of_nat (jsize t)));
           if CC_ESP_BUFFER_SIZE < length tmp then None else Some (esp_file_write sp CC_STATE_FILE tmp w) } })"

definition cc_platform_esp_write_wifi_config :: "ext \<Rightarrow> spiffs \<Rightarrow> bytes \<Rightarrow> nat \<Rightarrow> bytes \<Rightarrow> nat \<Rightarrow> world \<Rightarrow> (cc_result \<times> world) option" where
  "cc_platform_esp_write_wifi_config x sp ssid ssid_len password password_len w = do {
     let tmp = cc_coder_encode_map (x_mp x) [] 2;
     let tmp = cc_coder_encode_kv_str (x_mp x) tmp ''ssid'' ssid (of_nat ssid_len);
     let tmp = cc_coder_encode_kv_str (x_mp x) tmp ''password'' password (of_nat password_len);
     if CC_ESP_BUFFER_SIZE < length tmp then None else Some (esp_file_write sp CC_WIFI_CONFIG_FILE tmp w) }"

section \<open>The access point\<close>

text \<open>
  A connection: \<open>accept\<close> or \<open>read\<close> fails, or the bytes of the one \<open>read\<close>, from the descriptor \<open>fd\<close>. The status of the station is asked for up to ten times.
\<close>

datatype request = Accept_failed | Read_failed int | Read_data int bytes

datatype station_status = STATION_IDLE | STATION_CONNECTING | STATION_WRONG_PASSWORD | STATION_NO_AP_FOUND | STATION_CONNECT_FAIL | STATION_GOT_IP

record radio =
  ra_socket :: bool
  ra_bind :: bool
  ra_requests :: "request list"
  ra_ssid_size :: nat
  ra_password_size :: nat
  ra_status :: "nat \<Rightarrow> station_status"

text \<open>\<open>cc_json_get_dict_value\<close> for one key: without it the connection is closed and the server waits for the next.\<close>

definition with_value :: "bytes \<Rightarrow> jsmntok list \<Rightarrow> bytes \<Rightarrow> int \<Rightarrow> world \<Rightarrow> (nat \<Rightarrow> nat \<Rightarrow> (bool \<times> world) option) \<Rightarrow> (bool \<times> world) option" where
  "with_value json tokens key fd w k = do {
     v \<leftarrow> cc_json_get_dict_value json tokens key (length key);
     case v of
       None \<Rightarrow> Some (False, hw (Socket_close fd) w)
     | Some [] \<Rightarrow> None
     | Some (t # _) \<Rightarrow> k (jstart t) (jend t - jstart t) }"

text \<open>
  The buffer is cleared before \<open>read\<close>. When \<open>read\<close> fills it, the text has no end, and \<open>strstr\<close> and \<open>strlen\<close> read past the buffer, unless the
  data has a null character itself. Without a brace \<open>json\<close> is a null pointer, and \<open>strlen\<close> reads it.
\<close>

definition esp_handle_request :: "ext \<Rightarrow> spiffs \<Rightarrow> int \<Rightarrow> bytes \<Rightarrow> world \<Rightarrow> (bool \<times> world) option" where
  "esp_handle_request x sp fd data w =
     (if CC_ESP_BUFFER_SIZE \<le> length data \<and> no_nul data then None
      else let json = dropWhile (\<lambda>c. c \<noteq> CHR ''{'') (cstr data)
           in if json = [] then None
           else case x_jsmn x json (length json) 40 of
             None \<Rightarrow> Some (False, hw (Socket_close fd) w)
           | Some tokens \<Rightarrow>
               with_value json tokens ''attributes'' fd w (\<lambda>attributes attributes_len.
               with_value json tokens ''uris'' fd w (\<lambda>uris uris_len.
               with_value json tokens ''ssid'' fd w (\<lambda>ssid ssid_len.
               with_value json tokens ''password'' fd w (\<lambda>password password_len. do {
                 (r, w) \<leftarrow> cc_platform_esp_write_calvin_config x sp (drop attributes json) attributes_len (drop uris json) uris_len w;
                 (r, w) \<leftarrow> (if r = CC_SUCCESS
                           then cc_platform_esp_write_wifi_config x sp (drop ssid json) ssid_len (drop password json) password_len w
                           else Some (CC_FAIL, w));
                 let w = hw (Socket_send fd (if r = CC_SUCCESS then ''HTTP/1.0 200 OK'' @ [CHR 0x0D, CHR 0x0A]
                                             else ''HTTP/1.0 500 Internal Server Error'' @ [CHR 0x0D, CHR 0x0A])) w;
                 Some (r = CC_SUCCESS, hw (Socket_close fd) w) })))))"

fun esp_serve :: "ext \<Rightarrow> spiffs \<Rightarrow> request list \<Rightarrow> world \<Rightarrow> (cc_result \<times> world) run" where
  "esp_serve x sp [] w = Waiting"
| "esp_serve x sp (Accept_failed # requests) w = esp_serve x sp requests w"
| "esp_serve x sp (Read_failed fd # requests) w = esp_serve x sp requests (hw (Socket_close fd) w)"
| "esp_serve x sp (Read_data fd data # requests) w =
     run_bind (of_option (esp_handle_request x sp fd data w)) (\<lambda>(done, w).
       if done then Returned (CC_SUCCESS, w) else esp_serve x sp requests w)"

definition cc_platform_esp_get_config :: "ext \<Rightarrow> spiffs \<Rightarrow> radio \<Rightarrow> world \<Rightarrow> (cc_result \<times> world) run" where
  "cc_platform_esp_get_config x sp ra w =
     (if \<not> ra_socket ra \<or> \<not> ra_bind ra then Returned (CC_FAIL, w) else esp_serve x sp (ra_requests ra) w)"

section \<open>The station\<close>

text \<open>
  The name and the password are copied out of the buffer after it was freed: \<open>freed\<close> is what is read through a pointer into freed memory, \<open>None\<close>
  when that is a fault. A text as long as its field or longer is written past the end of the field.
\<close>

definition copy_field :: "nat \<Rightarrow> bytes \<Rightarrow> u32 \<Rightarrow> bytes option" where
  "copy_field n src len = strncpy_term n src (unat len)"

fun station_wait :: "(nat \<Rightarrow> station_status) \<Rightarrow> nat \<Rightarrow> cc_result" where
  "station_wait status 0 = CC_FAIL"
| "station_wait status (Suc retries) = (case status retries of
     STATION_GOT_IP \<Rightarrow> CC_SUCCESS
   | STATION_WRONG_PASSWORD \<Rightarrow> CC_FAIL
   | _ \<Rightarrow> station_wait status retries)"

definition cc_platform_esp_start_station_mode :: "ext \<Rightarrow> spiffs \<Rightarrow> radio \<Rightarrow> (bytes \<Rightarrow> bytes option) \<Rightarrow> world \<Rightarrow>
    (cc_result \<times> (bytes \<times> bytes) option \<times> world) option" where
  "cc_platform_esp_start_station_mode x sp ra freed w = (case esp_file_read sp CC_WIFI_CONFIG_FILE w of
     (None, w) \<Rightarrow> Some (CC_FAIL, None, w)
   | (Some buffer, w) \<Rightarrow>
       must (cc_coder_decode_string_from_map (x_mp x) buffer ''ssid'') (Some (CC_FAIL, None, w)) (\<lambda>(ssid, ssid_len).
       must (cc_coder_decode_string_from_map (x_mp x) buffer ''password'') (Some (CC_FAIL, None, w)) (\<lambda>(password, password_len). do {
         ssid \<leftarrow> freed ssid;
         ssid \<leftarrow> copy_field (ra_ssid_size ra) ssid ssid_len;
         password \<leftarrow> freed password;
         password \<leftarrow> copy_field (ra_password_size ra) password password_len;
         Some (station_wait (ra_status ra) 10, Some (ssid, password), w) })))"

section \<open>Waiting\<close>

text \<open>
  The result of \<open>select\<close> is not looked at: after a failure the set is as it was, so that the socket counts as ready, though
  nothing has arrived.
\<close>

definition esp_socket_ready :: "select_result \<Rightarrow> bytes list option" where
  "esp_socket_ready r = (case r of Select_failed \<Rightarrow> Some [] | Select_timeout \<Rightarrow> None | Select_ready fds m \<Rightarrow> m)"

definition disconnected :: "world \<Rightarrow> world option" where
  "disconnected w = do { tc \<leftarrow> n_transport_client w; Some (w\<lparr>n_transport_client := Some (tc\<lparr>tc_state := CC_TRANSPORT_DISCONNECTED\<rparr>)\<rparr>) }"

definition esp_evt_wait :: "ext \<Rightarrow> sys \<Rightarrow> u32 \<Rightarrow> outside \<Rightarrow> world \<Rightarrow> (cc_platform_evt_wait_status \<times> outside \<times> world) run" where
  "esp_evt_wait x s timeout_seconds out w = (case o_events out of
     [] \<Rightarrow> Waiting
   | ev # events \<Rightarrow>
       let transport = transport_waits w;
           out = out\<lparr>o_events := events\<rparr>;
           w = (if ev_stop ev then snd (cc_api_runtime_stop (w\<lparr>e_time := ev_time ev\<rparr>)) else w\<lparr>e_time := ev_time ev\<rparr>)
       in case (if transport then esp_socket_ready (ev_select ev) else None) of
            None \<Rightarrow> Returned (CC_PLATFORM_EVT_WAIT_TIMEOUT, out, w)
          | Some pieces \<Rightarrow>
              run_bind (of_option (node_handle_data x s (o_inbox out @ pieces) w)) (\<lambda>(r, inbox, w).
                if r = CC_SUCCESS then Returned (CC_PLATFORM_EVT_WAIT_DATA_READ, out\<lparr>o_inbox := inbox\<rparr>, w)
                else run_bind (of_option (disconnected w)) (\<lambda>w. Returned (CC_PLATFORM_EVT_WAIT_FAIL, out\<lparr>o_inbox := inbox\<rparr>, w))))"

section \<open>The task\<close>

definition esp_mount :: "spiffs \<Rightarrow> world \<Rightarrow> bool \<times> world" where
  "esp_mount sp w =
     (if SPIFFS_mount sp (w_fs w) then (True, w)
      else case SPIFFS_format sp (w_fs w) of None \<Rightarrow> (False, w) | Some fs \<Rightarrow> (SPIFFS_mount sp fs, w\<lparr>w_fs := fs\<rparr>))"

text \<open>
  \<open>cc_api_runtime_start\<close>, which is called without the argument for the script, is the parameter \<open>start\<close>. After the task the system starts
  again.
\<close>

definition calvin_task :: "ext \<Rightarrow> sys \<Rightarrow> spiffs \<Rightarrow> radio \<Rightarrow> (bytes \<Rightarrow> bytes option) \<Rightarrow> (world \<Rightarrow> world run) \<Rightarrow> world \<Rightarrow> world run" where
  "calvin_task x s sp ra freed start w = (case esp_mount sp w of (mounted, w) \<Rightarrow>
     run_bind (if \<not> mounted then Returned (CC_FAIL, w)
               else if fst (SPIFFS_stat sp CC_WIFI_CONFIG_FILE (w_fs w)) then Returned (CC_SUCCESS, w)
               else cc_platform_esp_get_config x sp ra w) (\<lambda>(r, w).
       if r \<noteq> CC_SUCCESS then Returned (w\<lparr>w_fs := SPIFFS_remove sp CC_STATE_FILE (SPIFFS_remove sp CC_WIFI_CONFIG_FILE (w_fs w))\<rparr>)
       else run_bind (of_option (cc_platform_esp_start_station_mode x sp ra freed w)) (\<lambda>(r, _, w).
         if r \<noteq> CC_SUCCESS then Returned w
         else run_bind (of_option (cc_api_runtime_init x s (\<lambda>w. (CC_SUCCESS, w)) None None w)) (\<lambda>(r, w).
           if r = CC_SUCCESS then start w else Returned w))))"

section \<open>The contract of the flash memory\<close>

text \<open>\<open>content fs path\<close> is what the file at \<open>path\<close> holds.\<close>

locale flash =
  fixes sp :: spiffs and content :: "fs \<Rightarrow> bytes \<rightharpoonup> bytes"
  assumes stat_file: "content fs path = Some b \<Longrightarrow> SPIFFS_stat sp path fs = (True, length b)"
    and created: "SPIFFS_create sp path fs = Some fs' \<Longrightarrow> content fs' = (content fs)(path \<mapsto> [])"
    and appended: "SPIFFS_write sp path b fs = (int (length b), fs') \<Longrightarrow> content fs path = Some [] \<Longrightarrow> content fs' = (content fs)(path \<mapsto> b)"
    and opened: "content fs path = Some b \<Longrightarrow> SPIFFS_open_read sp path fs"
    and read_whole: "content fs path = Some b \<Longrightarrow> SPIFFS_read sp path (length b) fs = Some b"
begin

lemma esp_write_content:
  assumes "esp_file_write sp path b w = (CC_SUCCESS, w')"
  shows "content (w_fs w') = (content (w_fs w))(path \<mapsto> b) \<and> e_alloc w' = e_alloc w"
proof -
  obtain fs fs' where "SPIFFS_create sp path (w_fs w) = Some fs" "SPIFFS_write sp path b fs = (int (length b), fs')" "w' = w\<lparr>w_fs := fs'\<rparr>"
    using assms by (auto simp: esp_file_write_def split: option.splits prod.splits if_splits)
  then show ?thesis using created appended[of path b fs fs'] by auto
qed

lemma esp_read_content: "content (w_fs w) path = Some b \<Longrightarrow> e_alloc w = [] \<Longrightarrow> esp_file_read sp path w = (Some b, w)"
  using stat_file[of "w_fs w" path b] opened[of "w_fs w" path b] read_whole[of "w_fs w" path b] by (simp add: esp_file_read_def Let_def)

end

sublocale flash \<subseteq> storage "esp_platform sp" "\<lambda>w. content (w_fs w) CC_STATE_FILE"
  by unfold_locales (auto simp: esp_platform_def esp_file_stat_def esp_read_content dest: stat_file esp_write_content)

section \<open>What a request asks for\<close>

fun extent :: "jtree \<Rightarrow> nat \<times> nat" where
  "extent (JPrim s t) = (s, t)"
| "extent (JStr s t n) = (s, t)"
| "extent (JArr s t vs) = (s, t)"
| "extent (JObj s t kvs) = (s, t)"

text \<open>The value of the first entry with this key has the text from \<open>a\<close> to \<open>b\<close>.\<close>

definition says :: "bytes \<Rightarrow> (jtree \<times> jtree) list \<Rightarrow> bytes \<Rightarrow> nat \<Rightarrow> nat \<Rightarrow> bool" where
  "says json kvs key a b = (case find (\<lambda>(k, v). jtext json k = key) kvs of
     None \<Rightarrow> False | Some (k, v) \<Rightarrow> extent v = (a, b) \<and> a \<le> b \<and> b \<le> length json)"

definition between :: "bytes \<Rightarrow> nat \<Rightarrow> nat \<Rightarrow> bytes" where
  "between json a b = take (b - a) (drop a json)"

definition array_spans :: "(nat \<times> nat) list \<Rightarrow> jtree list" where
  "array_spans = map (\<lambda>(a, b). JStr a b 0)"

lemma jflat_head: "\<exists>t ts. jflat v = t # ts \<and> (jstart t, jend t) = extent v"
  by (cases v) simp_all

lemma with_value_says:
  assumes "json_ok json kvs" "no_nul key" "says json kvs key a b"
  shows "with_value json (jflat (JObj s t kvs)) key fd w k = k a (b - a)"
proof -
  obtain kt v where f: "find (\<lambda>(k, v). jtext json k = key) kvs = Some (kt, v)" "extent v = (a, b)"
    using assms(3) by (auto simp: says_def split: option.splits)
  obtain rest where "cc_json_get_dict_value json (jflat (JObj s t kvs)) key (length key) = Some (Some (jflat v @ rest))"
    using json_find_pairs[OF assms(1,2), of "[]"] f(1) by (auto simp: cc_json_get_dict_value_def)
  then show ?thesis using jflat_head[of v] f(2) by (auto simp: with_value_def)
qed

lemma says_length: "says json kvs key a b \<Longrightarrow> length (between json a b) = b - a \<and> b - a \<le> length json"
  by (auto simp: says_def between_def split: option.splits)

lemma between_no_nul: "no_nul json \<Longrightarrow> no_nul (between json a b)"
  unfolding between_def by (meson in_set_dropD in_set_takeD)

context msgpuck
begin

lemma esp_encode_uris_enc:
  assumes "list_all (\<lambda>(a, b). a \<le> b \<and> b \<le> length text \<and> b < 2 ^ 32) spans" "drop i toks = concat (map jflat (array_spans spans))"
  shows "esp_encode_uris mp text toks [i..<i + length spans] tmp
     = Some (tmp @ concat (map (\<lambda>(a, b). enc mp (MStr (between text a b))) spans))"
  using assms
proof (induction spans arbitrary: i tmp)
  case (Cons s spans)
  obtain a b where s: "s = (a, b)" "a \<le> b" "b \<le> length text" "b < 2 ^ 32" using Cons.prems(1) by (cases s) auto
  have d: "drop i toks = \<lparr>jtype = JSMN_STRING, jstart = a, jend = b, jsize = 0\<rparr> # concat (map jflat (array_spans spans))"
    using Cons.prems(2) s(1) by (simp add: array_spans_def)
  then have i: "i < length toks" by (metis drop_all list.distinct(1) not_le)
  then have t: "toks ! i = \<lparr>jtype = JSMN_STRING, jstart = a, jend = b, jsize = 0\<rparr>" "drop (Suc i) toks = concat (map jflat (array_spans spans))"
    using d Cons_nth_drop_Suc[OF i] by simp_all
  have "unat (of_nat (b - a) :: u32) = b - a" using s(4) by (simp add: unat_of_nat_u32)
  then have e: "mp_encode_str mp (drop a text) (of_nat (b - a)) = enc mp (MStr (between text a b))"
    using encode_str_enc[of "of_nat (b - a)" "drop a text"] s(2,3) by (simp add: between_def del: enc.simps)
  have "[i..<i + length (s # spans)] = i # [Suc i..<Suc i + length spans]" 
    using upt_conv_Cons[of i "i + length (s # spans)"] by (simp del: upt_Suc)
  then show ?case using Cons.IH[OF _ t(2)] Cons.prems(1) i t(1) e s(1)
    by (simp add: cc_coder_encode_str_def del: enc.simps upt_Suc)
qed simp

end


section \<open>Provisioning\<close>

text \<open>The wireless network in its file.\<close>

definition wifi_v :: "bytes \<Rightarrow> bytes \<Rightarrow> (mpv \<times> mpv) list" where
  "wifi_v ssid password = [(MStr ''ssid'', MStr ssid), (MStr ''password'', MStr password)]"

locale device = flash sp content + msgpuck mp
  for sp content mp +
  fixes x :: ext
  assumes x_mp: "x_mp x = mp"
begin

lemma kv_str_between:
  assumes "no_nul key" "says json kvs k a b" "length json < 2 ^ 32"
  shows "cc_coder_encode_kv_str mp tmp key (drop a json) (of_nat (b - a)) = tmp @ enc mp (MStr key) @ enc mp (MStr (between json a b))"
proof -
  have l: "b - a \<le> length (drop a json)" using assms(2) by (auto simp: says_def split: option.splits)
  then have "b - a < 2 ^ 32" using assms(3) by simp
  then have "unat (of_nat (b - a) :: u32) = b - a" by (rule unat_of_nat_u32)
  with l show ?thesis using kv_encodings(1)[OF assms(1), of "of_nat (b - a)" "drop a json" tmp] by (simp add: between_def del: enc.simps)
qed

lemma write_calvin_config:
  assumes "says json kvs k a a'" "length json < 1024" "cc_gen_uuid None w = (i, w1)" "no_nul i" "length i = 36"
    and "x_jsmn x text n 10 = Some (jflat (JArr s t (array_spans spans)))"
    and "list_all (\<lambda>(a, b). a \<le> b \<and> b \<le> length text) spans" "length text < 1024"
    and b_def: "b = enc mp (MMap (identity_v i (Some (between json a a')) (map (\<lambda>(a, b). between text a b) spans)))"
    and "length b \<le> CC_ESP_BUFFER_SIZE" "length spans < 2 ^ 32"
  shows "cc_platform_esp_write_calvin_config x sp (drop a json) (a' - a) text n w = Some (esp_file_write sp CC_STATE_FILE b w1)"
proof -
  let ?us = "map (\<lambda>(a, b). between text a b) spans"
  have j: "length json < 2 ^ 32" using assms(2) by simp
  have l: "unat (of_nat (length i) :: u32) = length i" "strnlen i CC_UUID_BUFFER_SIZE = length i"
    using assms(4,5) by (simp_all add: strnlen_def CC_UUID_BUFFER_SIZE_def)
  let ?tmp = "mp_encode_map mp 3 @ enc mp (MStr ''id'') @ enc mp (MStr i) @ enc mp (MStr ''attributes'') @ enc mp (MStr (between json a a'))"
  have tmp: "cc_coder_encode_kv_str mp (cc_coder_encode_kv_str mp (cc_coder_encode_map mp [] 3) ''id'' i (of_nat (strnlen i CC_UUID_BUFFER_SIZE)))
       ''attributes'' (drop a json) (of_nat (a' - a)) = ?tmp"
    using l kv_encodings(1)[of "''id''" "of_nat (length i)" i] kv_str_between[OF _ assms(1) j, of "''attributes''"]
    by (simp add: cc_coder_encode_map_def del: enc.simps)
  have b: "b = ?tmp @ enc mp (MStr ''proxy_uris'') @ mp_encode_array mp (of_nat (length spans)) @ concat (map (\<lambda>(a, b). enc mp (MStr (between text a b))) spans)"
    unfolding b_def by (simp add: identity_v_def attributes_v_def comp_def case_prod_unfold del: enc.simps(3)) 
  have "list_all (\<lambda>(a, b). a \<le> b \<and> b \<le> length text \<and> b < 2 ^ 32) spans" using assms(7,8) by (auto simp: list_all_iff)
  note u = esp_encode_uris_enc[OF this, of 1 "jflat (JArr s t (array_spans spans))"]
  have "length ?tmp \<le> CC_ESP_BUFFER_SIZE" using assms(10) b by simp
  then show ?thesis using assms(3,6,10) tmp u b
    by (simp add: cc_platform_esp_write_calvin_config_def Let_def x_mp kv_encodings array_spans_def del: enc.simps upt_Suc)
qed

end

context device
begin

lemma write_wifi_config:
  assumes "says json kvs k1 a a'" "says json kvs k2 b b'" "length json < 1024"
    and c_def: "c = enc mp (MMap (wifi_v (between json a a') (between json b b')))" and "length c \<le> CC_ESP_BUFFER_SIZE"
  shows "cc_platform_esp_write_wifi_config x sp (drop a json) (a' - a) (drop b json) (b' - b) w = Some (esp_file_write sp CC_WIFI_CONFIG_FILE c w)"
proof -
  have j: "length json < 2 ^ 32" using assms(3) by simp
  note kv = kv_str_between[OF _ assms(1) j, of "''ssid''"] kv_str_between[OF _ assms(2) j, of "''password''"]
  have "c = mp_encode_map mp 2 @ enc mp (MStr ''ssid'') @ enc mp (MStr (between json a a')) @ enc mp (MStr ''password'') @ enc mp (MStr (between json b b'))"
    unfolding c_def by (simp add: wifi_v_def del: enc.simps(1-9))
  then show ?thesis using kv assms(5) by (simp add: cc_platform_esp_write_wifi_config_def x_mp cc_coder_encode_map_def Let_def del: enc.simps)
qed

lemma station_mode:
  assumes "content (w_fs w) CC_WIFI_CONFIG_FILE = Some (enc mp (MMap (wifi_v ssid password)))" "e_alloc w = []"
    and "no_nul ssid" "no_nul password" "length ssid < 2 ^ 32" "length password < 2 ^ 32"
  shows "cc_platform_esp_start_station_mode x sp ra Some w
     = (if length ssid < ra_ssid_size ra \<and> length password < ra_password_size ra
        then Some (station_wait (ra_status ra) 10, Some (ssid, password), w) else None)"
proof -
  let ?kvs = "wifi_v ssid password"
  have wf: "wf_mpv (MMap ?kvs)" "key_clear ''ssid'' ?kvs" "key_clear ''password'' ?kvs" using assms(5,6) by (simp_all add: wifi_v_def key_clear_def)
  obtain r where r: "cc_coder_decode_string_from_map mp (enc mp (MMap ?kvs)) ''ssid'' = Some (Some (ssid @ r, of_nat (length ssid)))"
    using string_from_map_enc[OF wf(1,2), of ssid "[]"] by (auto simp: wifi_v_def simp del: enc.simps)
  obtain q where q: "cc_coder_decode_string_from_map mp (enc mp (MMap ?kvs)) ''password'' = Some (Some (password @ q, of_nat (length password)))"
    using string_from_map_enc[OF wf(1,3), of password "[]"] by (auto simp: wifi_v_def simp del: enc.simps)
  show ?thesis using esp_read_content[OF assms(1,2)] r q assms(3-6)
    by (simp add: cc_platform_esp_start_station_mode_def x_mp copy_field_def strncpy_term_def del: enc.simps bind_Some_iff)
qed

end

text \<open>A request with everything in it.\<close>

record config_request =
  rq_pairs :: "(jtree \<times> jtree) list"
  rq_attributes :: "nat \<times> nat"
  rq_uris :: "nat \<times> nat"
  rq_ssid :: "nat \<times> nat"
  rq_password :: "nat \<times> nat"
  rq_spans :: "(nat \<times> nat) list"

definition part :: "bytes \<Rightarrow> nat \<times> nat \<Rightarrow> bytes" where
  "part json p = between json (fst p) (snd p)"

definition requested_uris :: "bytes \<Rightarrow> config_request \<Rightarrow> bytes list" where
  "requested_uris json rq = map (\<lambda>(a, b). between (drop (fst (rq_uris rq)) json) a b) (rq_spans rq)"

text \<open>\<open>jsmn\<close> finds in \<open>json\<close> an object with the four keys, and in the value of \<open>uris\<close> an array of strings.\<close>

definition asks :: "ext \<Rightarrow> bytes \<Rightarrow> config_request \<Rightarrow> bool" where
  "asks x json rq = (let u = rq_uris rq; text = drop (fst u) json in
     x_jsmn x json (length json) 40 = Some (jflat (JObj 0 (length json) (rq_pairs rq))) \<and> json_ok json (rq_pairs rq)
     \<and> says json (rq_pairs rq) ''attributes'' (fst (rq_attributes rq)) (snd (rq_attributes rq))
     \<and> says json (rq_pairs rq) ''uris'' (fst u) (snd u)
     \<and> says json (rq_pairs rq) ''ssid'' (fst (rq_ssid rq)) (snd (rq_ssid rq))
     \<and> says json (rq_pairs rq) ''password'' (fst (rq_password rq)) (snd (rq_password rq))
     \<and> x_jsmn x text (snd u - fst u) 10 = Some (jflat (JArr 0 (snd u - fst u) (array_spans (rq_spans rq))))
     \<and> list_all (\<lambda>(a, b). a \<le> b \<and> b \<le> length text) (rq_spans rq) \<and> length (rq_spans rq) < 10)"

text \<open>What is asked for fits the buffers and the fields.\<close>

definition config_fits :: "ext \<Rightarrow> radio \<Rightarrow> bytes \<Rightarrow> bytes \<Rightarrow> config_request \<Rightarrow> bool" where
  "config_fits x ra i json rq = (list_all (\<lambda>u. length u \<le> CC_MAX_URI_LEN) (requested_uris json rq)
     \<and> length (enc (x_mp x) (MMap (identity_v i (Some (part json (rq_attributes rq))) (requested_uris json rq)))) \<le> CC_ESP_BUFFER_SIZE
     \<and> length (enc (x_mp x) (MMap (wifi_v (part json (rq_ssid rq)) (part json (rq_password rq))))) \<le> CC_ESP_BUFFER_SIZE
     \<and> length (part json (rq_ssid rq)) < ra_ssid_size ra \<and> length (part json (rq_password rq)) < ra_password_size ra)"

lemma gen_uuid_none: "cc_gen_uuid None w = (i, w1) \<Longrightarrow> no_nul i \<and> length i = 36"
  using gen_uuid_key0[of w] by simp

context device
begin

text \<open>The two files after a request that was granted.\<close>

lemma request_granted:
  assumes "asks x json rq" "config_fits x ra i json rq" "cc_gen_uuid None w = (i, w1)" "json \<noteq> []" "length data < CC_ESP_BUFFER_SIZE" "no_nul data"
    and json: "json = dropWhile (\<lambda>c. c \<noteq> CHR ''{'') data"
    and room: "\<And>path b w. length b \<le> CC_ESP_BUFFER_SIZE \<Longrightarrow> fst (esp_file_write sp path b w) = CC_SUCCESS"
  shows "\<exists>w'. esp_handle_request x sp fd data w = Some (True, w') \<and> e_alloc w' = e_alloc w
     \<and> content (w_fs w') CC_STATE_FILE = Some (enc mp (MMap (identity_v i (Some (part json (rq_attributes rq))) (requested_uris json rq))))
     \<and> content (w_fs w') CC_WIFI_CONFIG_FILE = Some (enc mp (MMap (wifi_v (part json (rq_ssid rq)) (part json (rq_password rq)))))"
proof -
  define utext where "utext = drop (fst (rq_uris rq)) json"
  have len: "length json < 1024" "length utext < 1024"
    using assms(5) length_dropWhile_le[of "\<lambda>c. c \<noteq> CHR ''{''" data] by (simp_all add: json utext_def CC_ESP_BUFFER_SIZE_def)
  have i: "no_nul i" "length i = 36" using gen_uuid_none[OF assms(3)] by simp_all
  have a: "says json (rq_pairs rq) ''attributes'' (fst (rq_attributes rq)) (snd (rq_attributes rq))"
      "says json (rq_pairs rq) ''uris'' (fst (rq_uris rq)) (snd (rq_uris rq))"
      "says json (rq_pairs rq) ''ssid'' (fst (rq_ssid rq)) (snd (rq_ssid rq))"
      "says json (rq_pairs rq) ''password'' (fst (rq_password rq)) (snd (rq_password rq))"
    and tok: "x_jsmn x json (length json) 40 = Some (jflat (JObj 0 (length json) (rq_pairs rq)))" "json_ok json (rq_pairs rq)"
    and arr: "x_jsmn x utext (snd (rq_uris rq) - fst (rq_uris rq)) 10 = Some (jflat (JArr 0 (snd (rq_uris rq) - fst (rq_uris rq)) (array_spans (rq_spans rq))))"
      "list_all (\<lambda>(a, b). a \<le> b \<and> b \<le> length utext) (rq_spans rq)" "length (rq_spans rq) < 2 ^ 32"
    using assms(1) by (simp_all add: asks_def Let_def utext_def del: jflat.simps)
  let ?b = "enc mp (MMap (identity_v i (Some (part json (rq_attributes rq))) (requested_uris json rq)))"
  let ?c = "enc mp (MMap (wifi_v (part json (rq_ssid rq)) (part json (rq_password rq))))"
  have b: "?b = enc mp (MMap (identity_v i (Some (between json (fst (rq_attributes rq)) (snd (rq_attributes rq)))) (map (\<lambda>(a, b). between utext a b) (rq_spans rq))))"
    and c: "?c = enc mp (MMap (wifi_v (between json (fst (rq_ssid rq)) (snd (rq_ssid rq))) (between json (fst (rq_password rq)) (snd (rq_password rq)))))"
    by (simp_all add: part_def requested_uris_def utext_def)
  have f: "length ?b \<le> CC_ESP_BUFFER_SIZE" "length ?c \<le> CC_ESP_BUFFER_SIZE" using assms(2) by (simp_all add: config_fits_def x_mp)
  obtain w2 where w2: "esp_file_write sp CC_STATE_FILE ?b w1 = (CC_SUCCESS, w2)" using room[OF f(1)] by (metis prod.collapse)
  obtain w3 where w3: "esp_file_write sp CC_WIFI_CONFIG_FILE ?c w2 = (CC_SUCCESS, w3)" using room[OF f(2)] by (metis prod.collapse)
  have "cc_platform_esp_write_calvin_config x sp (drop (fst (rq_attributes rq)) json) (snd (rq_attributes rq) - fst (rq_attributes rq)) utext
      (snd (rq_uris rq) - fst (rq_uris rq)) w = Some (CC_SUCCESS, w2)"
    using write_calvin_config[OF a(1) len(1) assms(3) i arr(1,2) len(2) b f(1) arr(3)] w2 by simp
  moreover have "cc_platform_esp_write_wifi_config x sp (drop (fst (rq_ssid rq)) json) (snd (rq_ssid rq) - fst (rq_ssid rq))
      (drop (fst (rq_password rq)) json) (snd (rq_password rq) - fst (rq_password rq)) w2 = Some (CC_SUCCESS, w3)"
    using write_wifi_config[OF a(3,4) len(1) c f(2)] w3 by simp
  moreover have "with_value json (jflat (JObj 0 (length json) (rq_pairs rq))) key fd w k = k v (v' - v)"
    if "says json (rq_pairs rq) key v v'" "no_nul key" for key k v v'
    using with_value_says[OF tok(2) that(2,1)] by simp
  ultimately have "esp_handle_request x sp fd data w = Some (True, hw (Socket_close fd) (hw (Socket_send fd (''HTTP/1.0 200 OK'' @ [CHR 0x0D, CHR 0x0A])) w3))"
    using a tok(1) assms(4-6) by (simp add: esp_handle_request_def Let_def json[symmetric] utext_def del: jflat.simps bind_Some_iff)
  then show ?thesis
    using esp_write_content[OF w2] esp_write_content[OF w3] gen_uuid_quiet[OF assms(3)]
    by (auto simp: hw_def CC_STATE_FILE_def CC_WIFI_CONFIG_FILE_def simp del: enc.simps) 
qed

lemma provisions:
  assumes "asks x json rq" "config_fits x ra i json rq" "cc_gen_uuid None w = (i, w1)" "json \<noteq> []" "length data < CC_ESP_BUFFER_SIZE" "no_nul data" "e_alloc w = []"
    and "json = dropWhile (\<lambda>c. c \<noteq> CHR ''{'') data" "\<And>path b w. length b \<le> CC_ESP_BUFFER_SIZE \<Longrightarrow> fst (esp_file_write sp path b w) = CC_SUCCESS"
  shows "\<exists>w'. esp_serve x sp (Read_data fd data # requests) w = Returned (CC_SUCCESS, w')
     \<and> cc_platform_esp_start_station_mode x sp ra Some w'
         = Some (station_wait (ra_status ra) 10, Some (part json (rq_ssid rq), part json (rq_password rq)), w')
     \<and> (\<forall>u cfg. cf_use_storage cfg \<and> e_alloc u = [] \<and> n_attributes u = None \<and> n_proxy_uris u = [] \<and> w_fs u = w_fs w' \<longrightarrow>
          cc_node_setup x (esp_platform sp) cfg u = Some (CC_SUCCESS,
            u\<lparr>n_id := i, n_attributes := Some (part json (rq_attributes rq)), n_proxy_uris := uri_items (requested_uris json rq)\<rparr>))"
proof -
  obtain w' where h: "esp_handle_request x sp fd data w = Some (True, w')" "e_alloc w' = []"
      "content (w_fs w') CC_STATE_FILE = Some (enc mp (MMap (identity_v i (Some (part json (rq_attributes rq))) (requested_uris json rq))))"
      "content (w_fs w') CC_WIFI_CONFIG_FILE = Some (enc mp (MMap (wifi_v (part json (rq_ssid rq)) (part json (rq_password rq)))))"
    using request_granted[OF assms(1-6,8,9), of fd] assms(7) by auto
  have j: "no_nul json" "length json < 1024" using assms(5,6,8) length_dropWhile_le[of "\<lambda>c. c \<noteq> CHR ''{''" data]
    by (auto simp: CC_ESP_BUFFER_SIZE_def dest: set_dropWhileD)
  have p: "no_nul (part json q)" "length (part json q) < 1024" for q
    using between_no_nul[OF j(1)] j(2) by (simp_all add: part_def) (simp add: between_def)
  have u: "list_all no_nul (requested_uris json rq)"
    using between_no_nul[of "drop (fst (rq_uris rq)) json"] j(1) by (auto simp: requested_uris_def list_all_iff dest: in_set_dropD)
  have ok: "identity_ok i (Some (part json (rq_attributes rq))) (requested_uris json rq)"
    using gen_uuid_none[OF assms(3)] p[of "rq_attributes rq"] u assms(1,2)
    by (auto simp: identity_ok_def config_fits_def asks_def Let_def requested_uris_def list_all_iff CC_UUID_BUFFER_SIZE_def CC_MAX_ATTRIBUTES_LEN_def)
  have s: "length (part json q) < 2 ^ 32" for q using p(2)[of q] by simp
  have "node_storage (esp_platform sp) (\<lambda>w. content (w_fs w) CC_STATE_FILE) mp x" by unfold_locales (rule x_mp)
  note get = node_storage.get_state_identity[OF this _ ok]
  have "cc_node_setup x (esp_platform sp) cfg v = Some (CC_SUCCESS,
      v\<lparr>n_id := i, n_attributes := Some (part json (rq_attributes rq)), n_proxy_uris := uri_items (requested_uris json rq)\<rparr>)"
    if "cf_use_storage cfg" "e_alloc v = []" "n_attributes v = None" "n_proxy_uris v = []" "w_fs v = w_fs w'" for v cfg
    using get[of v] stat[of v] h(3) that by (simp add: cc_node_setup_def del: enc.simps)
  then show ?thesis using h(1) station_mode[OF h(4,2) p(1) p(1) s s, of ra] assms(2) by (auto simp: config_fits_def)
qed

end


text \<open>
  The access point can be stopped with one request. Whatever came before it without success, data that has no opening brace makes the
  server read a null pointer.
\<close>

lemma esp_request_without_json:
  assumes "CHR ''{'' \<notin> set (cstr data)" "list_all (\<lambda>r. case r of Read_data fd d \<Rightarrow> False | _ \<Rightarrow> True) before"
  shows "esp_serve x sp (before @ Read_data fd data # requests) w = Faulted"
  using assms(2)
proof (induction before arbitrary: w)
  case Nil
  have "dropWhile (\<lambda>c. c \<noteq> CHR ''{'') (cstr data) = []" using assms(1) by auto
  then show ?case by (simp add: esp_handle_request_def)
next
  case (Cons r before)
  then show ?case by (cases r) simp_all
qed

section \<open>Examples\<close>

text \<open>Flash memory without limits.\<close>

definition flat_content :: "fs \<Rightarrow> bytes \<rightharpoonup> bytes" where
  "flat_content fs path = (case fs_entries fs [path] of Some (File b) \<Rightarrow> Some b | _ \<Rightarrow> None)"

definition flat_put :: "bytes \<Rightarrow> bytes \<Rightarrow> fs \<Rightarrow> fs" where
  "flat_put path b fs = fs\<lparr>fs_entries := (fs_entries fs)([path] \<mapsto> File b)\<rparr>"

definition flat_flash :: spiffs where
  "flat_flash = \<lparr>SPIFFS_stat = \<lambda>path fs. (case flat_content fs path of None \<Rightarrow> (False, 0) | Some b \<Rightarrow> (True, length b)),
     SPIFFS_create = \<lambda>path fs. Some (flat_put path [] fs),
     SPIFFS_write = \<lambda>path b fs. (case flat_content fs path of None \<Rightarrow> (- 1, fs) | Some old \<Rightarrow> (int (length b), flat_put path (old @ b) fs)),
     SPIFFS_open_read = \<lambda>path fs. flat_content fs path \<noteq> None,
     SPIFFS_read = \<lambda>path n fs. map_option (take n) (flat_content fs path),
     SPIFFS_mount = \<lambda>fs. True, SPIFFS_format = Some,
     SPIFFS_remove = \<lambda>path fs. fs\<lparr>fs_entries := (fs_entries fs)([path] := None)\<rparr>\<rparr>"

lemma flat_put_content: "flat_content (flat_put path b fs) = (flat_content fs)(path \<mapsto> b)"
  by (auto simp: flat_content_def flat_put_def)

interpretation flat: flash flat_flash flat_content
  by unfold_locales (auto simp: flat_flash_def flat_put_content)

lemma flat_room: "fst (esp_file_write flat_flash path b w) = CC_SUCCESS"
  by (simp add: esp_file_write_def flat_flash_def flat_put_content)

definition example_json_text :: bytes where
  "example_json_text = ''{\"attributes\":{},\"uris\":[\"ssdp\"],\"ssid\":\"net\",\"password\":\"pw\"}''"

definition example_request :: config_request where
  "example_request = \<lparr>rq_pairs = [(JStr 2 12 1, JObj 14 16 []), (JStr 18 22 1, JArr 24 32 [JStr 26 30 0]), (JStr 34 38 1, JStr 41 44 0),
       (JStr 47 55 1, JStr 58 60 0)],
     rq_attributes = (14, 16), rq_uris = (24, 32), rq_ssid = (41, 44), rq_password = (58, 60), rq_spans = [(2, 6)]\<rparr>"

definition example_parser :: ext where
  "example_parser = example_ext\<lparr>x_jsmn := \<lambda>js n k. if k = 40 then Some (jflat (JObj 0 62 (rq_pairs example_request)))
     else Some (jflat (JArr 0 8 [JStr 2 6 0]))\<rparr>"

definition example_radio :: radio where
  "example_radio = \<lparr>ra_socket = True, ra_bind = True, ra_requests = [], ra_ssid_size = 32, ra_password_size = 64, ra_status = \<lambda>n. STATION_GOT_IP\<rparr>"

interpretation flat_device: device flat_flash flat_content mp_ref example_parser
  by unfold_locales (simp add: example_parser_def example_ext_def)

lemma example_parts:
  "part example_json_text (rq_attributes example_request) = ''{}''" "part example_json_text (rq_ssid example_request) = ''net''"
  "part example_json_text (rq_password example_request) = ''pw''" "requested_uris example_json_text example_request = [''ssdp'']"
  by (simp_all add: part_def between_def requested_uris_def example_request_def example_json_text_def)

lemma example_asks: "asks example_parser example_json_text example_request"
  by (simp add: asks_def says_def json_ok_def example_request_def example_parser_def example_json_text_def array_spans_def)

lemma example_config_fits: "length i = 36 \<Longrightarrow> config_fits example_parser example_radio i example_json_text example_request"
  by (simp add: config_fits_def example_parts)
    (simp add: example_parser_def example_ext_def identity_v_def attributes_v_def wifi_v_def mp_ref_def enc_num_def example_radio_def
      CC_MAX_URI_LEN_def CC_ESP_BUFFER_SIZE_def)


end
