(* ===== verification/Platform_Android.thy ===== *)
theory Platform_Android
  imports Node_Stop Drivers Transport_Clients
begin

text \<open>
  The platform of Android, \<open>src/runtime/south/platform/android/cc_platform_android.c\<close>, and the functions an application calls,
  \<open>cc_jni_api.c\<close>. The application and the runtime exchange commands over two pipes: a prefix with the length, the two letters of the
  command and its payload. The files are those of \<open>Platform_Files\<close>. What the operating system does is the record \<open>android\<close>.
\<close>

section \<open>The pipes\<close>

text \<open>
  \<open>an_write\<close> is the result of \<open>write\<close> to the pipe of the application; \<open>an_slack\<close> the number of bytes behind an array on the stack that can be
  overwritten without harm. The language promises none.
\<close>

record android =
  an_write :: "bytes \<Rightarrow> world \<Rightarrow> int"
  an_slack :: nat

definition send_upstream_platform_message :: "android \<Rightarrow> bytes \<Rightarrow> bytes \<Rightarrow> world \<Rightarrow> int \<times> world" where
  "send_upstream_platform_message an cmd body w =
     (let msg = len_prefix (PLATFORM_ANDROID_COMMAND_SIZE + length body) @ cmd @ body; res = an_write an msg w
      in (res, hw (Pipe_write (take (nat res) msg)) w))"

text \<open>\<open>pipe\<close> is what is in the pipe to the application, \<open>n\<close> the size of its buffer. One \<open>read\<close> takes what is there, at most the size asked for.\<close>

definition read_upstream :: "bytes \<Rightarrow> nat \<Rightarrow> bytes option \<times> bytes" where
  "read_upstream pipe n =
     (let p = take CC_TRANSPORT_LEN_PREFIX_SIZE pipe; pipe = drop CC_TRANSPORT_LEN_PREFIX_SIZE pipe
      in if length p < CC_TRANSPORT_LEN_PREFIX_SIZE then (None, pipe)
         else let datasize = unat (cc_transport_get_message_len p)
              in if datasize > n - CC_TRANSPORT_LEN_PREFIX_SIZE then (None, pipe)
                 else if length pipe < datasize then (None, [])
                 else (Some (p @ take datasize pipe), drop datasize pipe))"

section \<open>Commands of the application\<close>

definition platform_message :: "bytes \<Rightarrow> bytes \<Rightarrow> bytes" where
  "platform_message cmd payload = len_prefix (PLATFORM_ANDROID_COMMAND_SIZE + length payload) @ cmd @ payload"

definition jni_runtimeCalvinPayload :: "bytes \<Rightarrow> bytes" where
  "jni_runtimeCalvinPayload data = platform_message ''CM'' data"

definition jni_fcmTransportConnected :: bytes where
  "jni_fcmTransportConnected = platform_message ''FR'' []"

definition jni_runtimeSerializeAndStop :: bytes where
  "jni_runtimeSerializeAndStop = platform_message ''RA'' []"

definition jni_triggerConnectivityChange :: bytes where
  "jni_triggerConnectivityChange = platform_message ''RC'' []"

definition jni_registerExternalCalvinsys :: "bytes \<Rightarrow> bytes" where
  "jni_registerExternalCalvinsys name = platform_message ''CS'' (cstr name)"

definition jni_writeCalvinsysPayload :: "bytes \<Rightarrow> bytes" where
  "jni_writeCalvinsysPayload data = platform_message ''CP'' data"

text \<open>\<open>CC_NODE_DO_SLEEP\<close> has no number: the function ends without a value, here \<open>None\<close>.\<close>

definition jni_getNodeState :: "world option \<Rightarrow> nat option" where
  "jni_getNodeState node = (case node of
     None \<Rightarrow> Some 3
   | Some w \<Rightarrow> (case n_state w of CC_NODE_DO_START \<Rightarrow> Some 0 | CC_NODE_PENDING \<Rightarrow> Some 1 | CC_NODE_STARTED \<Rightarrow> Some 2 | CC_NODE_STOP \<Rightarrow> Some 3
       | CC_NODE_DO_SLEEP \<Rightarrow> None))"

text \<open>The array has three bytes more than the message, which are read past the end of the buffer when the message fills it.\<close>

definition jni_readUpstreamData :: "bytes \<Rightarrow> (bytes option \<times> bytes) option" where
  "jni_readUpstreamData pipe = (case read_upstream pipe CC_TRANSPORT_RX_BUFFER_SIZE of
     (None, pipe) \<Rightarrow> Some (None, pipe)
   | (Some msg, pipe) \<Rightarrow>
       if CC_TRANSPORT_RX_BUFFER_SIZE < length msg + 3 then None else Some (Some (msg @ replicate 3 NUL), pipe))"

section \<open>Capabilities of other applications\<close>

definition get_external :: "addr \<Rightarrow> world \<Rightarrow> platform_android_external_state option" where
  "get_external a w = do { ob \<leftarrow> h_objs w a; case o_state ob of OS_android_external s \<Rightarrow> Some s | _ \<Rightarrow> None }"

text \<open>The identifier of an object, for which its capability is looked at as well.\<close>

definition external_id :: "addr \<Rightarrow> world \<Rightarrow> (bytes \<times> bytes) option" where
  "external_id a w = do { ob \<leftarrow> h_objs w a; c \<leftarrow> h_caps w (o_capability ob); Some (o_id ob, cap_name c) }"

definition platform_external_can_write :: "addr \<Rightarrow> world \<Rightarrow> (bool \<times> world) option" where
  "platform_external_can_write a w = do { _ \<leftarrow> obj_capability a w; Some (n_transport_client w \<noteq> None, w) }"

definition platform_external_write :: "android \<Rightarrow> mp \<Rightarrow> addr \<Rightarrow> bytes \<Rightarrow> nat \<Rightarrow> world \<Rightarrow> (cc_result \<times> world) option" where
  "platform_external_write an mp a data n w = do {
     (i, _) \<leftarrow> external_id a w;
     let b = cc_coder_encode_map mp [] 2;
     let b = cc_coder_encode_kv_str mp b ''id'' i (of_nat (strlen i));
     let b = cc_coder_encode_kv_bin mp b ''payload'' data (of_nat n);
     if 100 + n < 6 + length b then None
     else case send_upstream_platform_message an ''CP'' b w of (res, w) \<Rightarrow> Some (if res > 0 then CC_SUCCESS else CC_FAIL, w) }"

definition platform_external_can_read :: "addr \<Rightarrow> world \<Rightarrow> (bool \<times> world) option" where
  "platform_external_can_read a w = do { s \<leftarrow> get_external a w; Some (has_data (ax_data s) (ax_data_size s), w) }"

definition platform_external_read :: "addr \<Rightarrow> world \<Rightarrow> (cc_result \<times> (bytes \<times> nat) option \<times> world) option" where
  "platform_external_read a w = do {
     s \<leftarrow> get_external a w;
     case ax_data s of
       Some data \<Rightarrow>
         if 0 < ax_data_size s then do {
           w \<leftarrow> set_obj_state a (OS_android_external (s\<lparr>ax_data := None, ax_data_size := 0\<rparr>)) w;
           Some (CC_SUCCESS, Some (data, ax_data_size s), w) }
         else Some (CC_FAIL, None, w)
     | None \<Rightarrow> Some (CC_FAIL, None, w) }"

definition platform_external_close :: "android \<Rightarrow> mp \<Rightarrow> addr \<Rightarrow> world \<Rightarrow> (cc_result \<times> world) option" where
  "platform_external_close an mp a w = do {
     s \<leftarrow> get_external a w;
     (i, _) \<leftarrow> external_id a w;
     let b = cc_coder_encode_kv_str mp (cc_coder_encode_map mp [] 1) ''id'' i (of_nat (strlen i));
     if 100 < 6 + length b then None
     else case send_upstream_platform_message an ''CD'' b w of (res, w) \<Rightarrow>
       if res > 0 then free_state a w else Some (CC_FAIL, w) }"

definition platform_external_open :: "android \<Rightarrow> mp \<Rightarrow> addr \<Rightarrow> bytes cc_list \<Rightarrow> world \<Rightarrow> (cc_result \<times> world) option" where
  "platform_external_open an mp a kwargs w = (case mem_alloc w of (False, w) \<Rightarrow> Some (CC_FAIL, w) | (True, w) \<Rightarrow> do {
     w \<leftarrow> install a (Impl_ext ''platform_external_open'') (OS_android_external \<lparr>ax_data = None, ax_data_size = 0\<rparr>) w;
     (i, name) \<leftarrow> external_id a w;
     let b = cc_coder_encode_map mp [] 2;
     let b = cc_coder_encode_kv_str mp b ''id'' i (of_nat (strlen i));
     let b = cc_coder_encode_kv_str mp b ''name'' name (of_nat (strlen name));
     if 500 < 6 + length b then None
     else case send_upstream_platform_message an ''CI'' b w of (res, w) \<Rightarrow>
       if res \<noteq> int (6 + length b) then do { w \<leftarrow> set_obj_state a OS_null w; Some (CC_FAIL, w) } else Some (CC_SUCCESS, w) })"

definition external :: "android \<Rightarrow> mp \<Rightarrow> cap_ops" where
  "external an mp = \<lparr>xo_open = platform_external_open an mp, xo_deserialize = \<lambda>a kwargs w. None, xo_can_write = Some platform_external_can_write,
     xo_write = Some (platform_external_write an mp), xo_can_read = Some platform_external_can_read, xo_read = Some platform_external_read,
     xo_close = Some (platform_external_close an mp), xo_serialize = None\<rparr>"

section \<open>Handling commands\<close>

definition command_calvin_msg :: "ext \<Rightarrow> sys \<Rightarrow> bytes \<Rightarrow> nat \<Rightarrow> world \<Rightarrow> (cc_result \<times> world) option" where
  "command_calvin_msg x s payload n w =
     (if length payload < 4 then None
      else cc_node_handle_message x (sys_platform s) (sys_config s) (drop 4 payload) (unat (cc_transport_get_message_len payload)) w)"

definition command_transport_connected :: "bytes \<Rightarrow> nat \<Rightarrow> world \<Rightarrow> (cc_result \<times> world) option" where
  "command_transport_connected payload n w = do {
     tc \<leftarrow> n_transport_client w; Some (CC_SUCCESS, w\<lparr>n_transport_client := Some (tc\<lparr>tc_state := CC_TRANSPORT_CONNECTED\<rparr>)\<rparr>) }"

definition command_rt_stop :: "bytes \<Rightarrow> nat \<Rightarrow> world \<Rightarrow> (cc_result \<times> world) option" where
  "command_rt_stop payload n w = Some (cc_api_runtime_stop w)"

definition platform_serialize_and_stop :: "ext \<Rightarrow> sys \<Rightarrow> bytes \<Rightarrow> nat \<Rightarrow> world \<Rightarrow> (cc_result \<times> world) option" where
  "platform_serialize_and_stop x s payload n w = cc_api_runtime_serialize_and_stop x s w"

definition platform_trigger_reconnect :: "bytes \<Rightarrow> nat \<Rightarrow> world \<Rightarrow> (cc_result \<times> world) option" where
  "platform_trigger_reconnect payload n w = cc_api_reconnect w"

definition platform_register_external_calvinsys :: "ext \<Rightarrow> bytes \<Rightarrow> nat \<Rightarrow> world \<Rightarrow> (cc_result \<times> world) option" where
  "platform_register_external_calvinsys x payload n w = (case mem_alloc w of (False, w) \<Rightarrow> Some (CC_FAIL, w) | (True, w) \<Rightarrow>
     (case cc_calvinsys_create_capability (cstr (take n payload)) (Some (Impl_ext ''platform_external_open'')) None None False w of
        (CC_SUCCESS, w) \<Rightarrow> cc_proto_send_node_setup (x_mp x) platform_node_setup_reply_handler w
      | (_, w) \<Rightarrow> Some (CC_FAIL, w)))"

text \<open>
  The result of \<open>cc_list_get_n\<close>, an item of the list, is taken for the object that the item points to. The member \<open>state\<close> of an object is where the
  item has ended, so that reading it is a fault.
\<close>

definition platform_handle_external_calvinsys_data :: "ext \<Rightarrow> bytes \<Rightarrow> nat \<Rightarrow> world \<Rightarrow> (cc_result \<times> world) option" where
  "platform_handle_external_calvinsys_data x data n w =
     must (cc_coder_decode_string_from_map (x_mp x) data ''calvinsys'') (Some (CC_FAIL, w)) (\<lambda>(name, name_len).
     must (cc_coder_decode_string_from_map (x_mp x) data ''id'') (Some (CC_FAIL, w)) (\<lambda>(i, id_len).
     must (cc_coder_decode_bin_from_map (x_mp x) data ''payload'') (Some (CC_FAIL, w)) (\<lambda>(payload, payload_len).
     case cc_list_get_n (n_objects w) i (unat id_len) of
       None \<Rightarrow> Some (CC_FAIL, w)
     | Some item \<Rightarrow> None)))"

definition platform_command_handlers :: "ext \<Rightarrow> sys \<Rightarrow> (bytes \<times> (bytes \<Rightarrow> nat \<Rightarrow> world \<Rightarrow> (cc_result \<times> world) option)) list" where
  "platform_command_handlers x s = [
     (''FR'', command_transport_connected),
     (''RS'', command_rt_stop),
     (''CM'', command_calvin_msg x s),
     (''RA'', platform_serialize_and_stop x s),
     (''RC'', platform_trigger_reconnect),
     (''CS'', platform_register_external_calvinsys x),
     (''CP'', platform_handle_external_calvinsys_data x)]"

text \<open>
  \<open>data_buffer\<close> has room for the message without its prefix, but the prefix is copied to its start and the message read behind it. The
  results of \<open>read\<close> are not looked at: with less than a prefix and a command in the pipe, what was not read is read from the arrays.
\<close>

definition handle_platform_call :: "ext \<Rightarrow> sys \<Rightarrow> android \<Rightarrow> bytes \<Rightarrow> world \<Rightarrow> (cc_result \<times> bytes \<times> world) option" where
  "handle_platform_call x s an pipe w =
     (if length pipe < 4 then None
      else let total_msg_size = unat (cc_transport_get_message_len pipe);
               data = take total_msg_size (drop 4 pipe);
               pipe = drop (4 + total_msg_size) pipe
           in if total_msg_size + an_slack an < 4 + length data \<or> length data < 2 then None
              else case find (\<lambda>(command, handler). strncmp0 command data 2) (platform_command_handlers x s) of
                None \<Rightarrow> Some (CC_FAIL, pipe, w)
              | Some (command, handler) \<Rightarrow> do {
                  (_, w) \<leftarrow> handler (drop 2 data) (total_msg_size - 2) w;
                  Some (CC_SUCCESS, pipe, w) })"

definition platform_android_handle_data :: "ext \<Rightarrow> sys \<Rightarrow> android \<Rightarrow> bytes \<Rightarrow> world \<Rightarrow> (cc_result \<times> bytes \<times> world) option" where
  "platform_android_handle_data x s an pipe w = handle_platform_call x s an pipe w"

section \<open>Waiting\<close>

text \<open>
  What the looper has done when it returns: the callbacks it called, in this order, with what had arrived before each. A timeout counts as
  data that was read.
\<close>

datatype callback = Fcm_fd bytes | Socket_fd "bytes list"

datatype poll = Poll_wake | Poll_error | Poll_timeout | Poll_callback "callback list"

fun run_callbacks :: "ext \<Rightarrow> sys \<Rightarrow> android \<Rightarrow> callback list \<Rightarrow> bytes \<Rightarrow> bytes list \<Rightarrow> world \<Rightarrow> (bytes \<times> bytes list \<times> world) option" where
  "run_callbacks x s an [] pipe inbox w = Some (pipe, inbox, w)"
| "run_callbacks x s an (Fcm_fd data # callbacks) pipe inbox w = do {
     (_, pipe, w) \<leftarrow> platform_android_handle_data x s an (pipe @ data) w;
     run_callbacks x s an callbacks pipe inbox w }"
| "run_callbacks x s an (Socket_fd pieces # callbacks) pipe inbox w = do {
     (_, inbox, w) \<leftarrow> node_handle_data x s (inbox @ pieces) w;
     run_callbacks x s an callbacks pipe inbox w }"

definition android_evt_wait :: "ext \<Rightarrow> sys \<Rightarrow> android \<Rightarrow> poll \<Rightarrow> bytes \<Rightarrow> bytes list \<Rightarrow> world \<Rightarrow>
    (cc_platform_evt_wait_status \<times> bytes \<times> bytes list \<times> world) option" where
  "android_evt_wait x s an poll pipe inbox w =
     (if \<not> transport_waits w then Some (CC_PLATFORM_EVT_WAIT_TIMEOUT, pipe, inbox, w)
      else case poll of
        Poll_callback callbacks \<Rightarrow> do {
          (pipe, inbox, w) \<leftarrow> run_callbacks x s an callbacks pipe inbox w;
          Some (CC_PLATFORM_EVT_WAIT_DATA_READ, pipe, inbox, w) }
      | Poll_timeout \<Rightarrow> Some (CC_PLATFORM_EVT_WAIT_DATA_READ, pipe, inbox, w)
      | _ \<Rightarrow> Some (CC_PLATFORM_EVT_WAIT_TIMEOUT, pipe, inbox, w))"

section \<open>Start and stop\<close>

definition android_node_started :: "android \<Rightarrow> world \<Rightarrow> cc_result \<times> world" where
  "android_node_started an w = (case send_upstream_platform_message an ''RR'' [] w of (res, w) \<Rightarrow> (if res < 0 then CC_FAIL else CC_SUCCESS, w))"

definition android_stop :: "android \<Rightarrow> world \<Rightarrow> cc_result \<times> world" where
  "android_stop an w = (case send_upstream_platform_message an ''RS'' [] w of (res, w) \<Rightarrow> (if res < 0 then CC_FAIL else CC_SUCCESS, w))"

datatype sensor_type = ASENSOR_TYPE_ACCELEROMETER | ASENSOR_TYPE_GYROSCOPE | Other_sensor

fun add_sensors :: "sensor_type list \<Rightarrow> world \<Rightarrow> cc_result \<times> world" where
  "add_sensors [] w = (CC_SUCCESS, w)"
| "add_sensors (ty # types) w = (case ty of
     Other_sensor \<Rightarrow> add_sensors types w
   | ASENSOR_TYPE_ACCELEROMETER \<Rightarrow>
       (case cc_calvinsys_create_capability ''io.accelerometer'' (Some (Impl_ext ''cc_accelerometer_open'')) (Some (Impl_ext ''cc_accelerometer_open'')) None False w of
          (CC_SUCCESS, w) \<Rightarrow> add_sensors types w | (_, w) \<Rightarrow> (CC_FAIL, w))
   | ASENSOR_TYPE_GYROSCOPE \<Rightarrow>
       (case cc_calvinsys_create_capability ''io.gyroscope'' (Some (Impl_ext ''cc_gyroscope_open'')) (Some (Impl_ext ''cc_gyroscope_open'')) None False w of
          (CC_SUCCESS, w) \<Rightarrow> add_sensors types w | (_, w) \<Rightarrow> (CC_FAIL, w)))"

definition android_late_init :: "bool \<Rightarrow> sensor_type list \<Rightarrow> world \<Rightarrow> cc_result \<times> world" where
  "android_late_init pipes_open sensors w = (case mem_alloc w of (False, w) \<Rightarrow> (CC_FAIL, w) | (True, w) \<Rightarrow>
     if \<not> pipes_open then (CC_FAIL, w) else add_sensors sensors w)"

section \<open>Commands arrive\<close>

lemma find_map_of: "list_all (\<lambda>(k, v). p k = (k = c)) l \<Longrightarrow> map_of l c = Some h \<Longrightarrow> find (\<lambda>(k, v). p k) l = Some (c, h)"
  by (induction l) (auto split: if_splits)

lemma commands_named: "list_all (\<lambda>(k, v). length k = 2 \<and> no_nul k) (platform_command_handlers x s)"
  by (simp add: platform_command_handlers_def)

lemma command_found:
  assumes "map_of (platform_command_handlers x s) cmd = Some handler"
  shows "length cmd = 2" "find (\<lambda>(command, handler). strncmp0 command (cmd @ payload) 2) (platform_command_handlers x s) = Some (cmd, handler)"
proof -
  have k: "length k = 2 \<and> no_nul k" if "(k, v) \<in> set (platform_command_handlers x s)" for k v
    using commands_named[of x s] that by (auto simp: list_all_iff)
  show l: "length cmd = 2" using k map_of_SomeD[OF assms] by blast
  have "strncmp0 k (cmd @ payload) 2 = (k = cmd)" if "(k, v) \<in> set (platform_command_handlers x s)" for k v
    using strncmp0_prefix_right[of k 2 "cmd @ payload"] k[OF that] l
    by (auto simp: prefix_def append_eq_append_conv simp del: strncmp0_numeral)
  then show "find (\<lambda>(command, handler). strncmp0 command (cmd @ payload) 2) (platform_command_handlers x s) = Some (cmd, handler)"
    using assms by (intro find_map_of) (auto simp: list_all_iff)
qed

text \<open>
  C39: a command of the application reaches its handler with exactly its payload, and the next command stays in the pipe. That holds if
  the four bytes behind the array of the message may be overwritten. As the array is too small by the prefix, every
  complete command writes past its end.
\<close>

theorem android_command_arrives:
  assumes "map_of (platform_command_handlers x s) cmd = Some handler" "length payload < 2 ^ 31"
  shows "handle_platform_call x s an (platform_message cmd payload @ rest) w
     = (if an_slack an < 4 then None else do { (_, w) \<leftarrow> handler payload (length payload) w; Some (CC_SUCCESS, rest, w) })"
proof -
  note c = command_found[OF assms(1)]
  have n: "cc_transport_get_message_len (platform_message cmd payload @ rest) = of_nat (2 + length payload)"
    by (simp only: platform_message_def PLATFORM_ANDROID_COMMAND_SIZE_def append_assoc get_message_len_prefix)
  have "unat (of_nat (2 + length payload) :: u32) = 2 + length payload" using assms(2) by (intro unat_of_nat_u32) simp
  then have u: "unat (cc_transport_get_message_len (platform_message cmd payload @ rest)) = 2 + length payload" unfolding n .
  have d: "drop 4 (platform_message cmd payload @ rest) = cmd @ payload @ rest" by (simp add: platform_message_def)
  have t: "take (2 + length payload) (cmd @ payload @ rest) = cmd @ payload" "drop (4 + (2 + length payload)) (platform_message cmd payload @ rest) = rest"
    using c(1) by (simp_all add: platform_message_def)
  show ?thesis unfolding handle_platform_call_def Let_def u d t using c by (simp add: platform_message_def)
qed

text \<open>Data for an object that exists is a fault; it is never stored.\<close>

lemma external_data_faults:
  assumes "cc_coder_decode_string_from_map (x_mp x) data ''calvinsys'' = Some (Some name)" "cc_coder_decode_string_from_map (x_mp x) data ''id'' = Some (Some (i, len))"
    and "cc_coder_decode_bin_from_map (x_mp x) data ''payload'' = Some (Some payload)" "cc_list_get_n (n_objects w) i (unat len) \<noteq> None"
  shows "platform_handle_external_calvinsys_data x data n w = None"
  using assms by (auto simp: platform_handle_external_calvinsys_data_def split: prod.splits)

section \<open>Messages to the application\<close>

lemma upstream_read:
  assumes "length cmd = 2" "length body < 2 ^ 31" and "msg = platform_message cmd body"
  shows "read_upstream (msg @ rest) n = (if n < length msg then (None, drop 4 msg @ rest) else (Some msg, rest))"
proof -
  have n: "cc_transport_get_message_len (len_prefix (2 + length body)) = of_nat (2 + length body)"
    using get_message_len_prefix[of "2 + length body" "[]"] by simp
  have u: "unat (of_nat (2 + length body) :: u32) = 2 + length body" using assms(2) by (intro unat_of_nat_u32) simp
  have p: "take 4 (msg @ rest) = len_prefix (2 + length body)" "drop 4 (msg @ rest) = cmd @ body @ rest" "length msg = 6 + length body"
    using assms(1,3) by (simp_all add: platform_message_def PLATFORM_ANDROID_COMMAND_SIZE_def)
  show ?thesis unfolding read_upstream_def Let_def CC_TRANSPORT_LEN_PREFIX_SIZE_def p(1,2) n u
    using assms p(3) by (auto simp: platform_message_def PLATFORM_ANDROID_COMMAND_SIZE_def)
qed

lemma upstream_data:
  assumes "length cmd = 2" "length body < 2 ^ 31" and "msg = platform_message cmd body"
  shows "jni_readUpstreamData (msg @ rest) =
     (if length msg \<le> 509 then Some (Some (msg @ replicate 3 NUL), rest) else if length msg \<le> 512 then None else Some (None, drop 4 msg @ rest))"
  using upstream_read[OF assms, of rest 512] by (auto simp: jni_readUpstreamData_def CC_TRANSPORT_RX_BUFFER_SIZE_def)

section \<open>Sensors\<close>

text \<open>A phone with two sensors of one type cannot start the runtime.\<close>

lemma cc_list_get_append: "cc_list_get l i \<noteq> None \<Longrightarrow> cc_list_get (l @ l') i \<noteq> None"
  by (induction l) auto

lemma create_capability_keeps:
  assumes "cc_calvinsys_create_capability name open_impl deserialize_impl init_args free_init_args w = (r, w')" "cc_list_get (n_capabilities w) k \<noteq> None"
  shows "cc_list_get (n_capabilities w') k \<noteq> None"
proof -
  have "\<exists>l. n_capabilities w' = n_capabilities w @ l"
    using assms(1) by (auto simp: cc_calvinsys_create_capability_def new_capability_def cc_list_add_n_def cc__list_add_def mem_alloc_def Let_def
        split: if_splits list.splits prod.splits option.splits bool.splits)
  then show ?thesis using cc_list_get_append[OF assms(2)] by auto
qed

lemma add_known_sensor:
  "cc_list_get (n_capabilities w) ''io.accelerometer'' \<noteq> None \<Longrightarrow> ASENSOR_TYPE_ACCELEROMETER \<in> set sensors \<Longrightarrow> fst (add_sensors sensors w) = CC_FAIL"
proof (induction sensors arbitrary: w)
  case (Cons ty sensors)
  show ?case
  proof (cases ty)
    case ASENSOR_TYPE_GYROSCOPE
    obtain r w' where c: "cc_calvinsys_create_capability ''io.gyroscope'' (Some (Impl_ext ''cc_gyroscope_open'')) (Some (Impl_ext ''cc_gyroscope_open'')) None False w = (r, w')"
      by fastforce
    show ?thesis using Cons create_capability_keeps[OF c Cons.prems(1)] c ASENSOR_TYPE_GYROSCOPE by (cases r) auto
  qed (use Cons in \<open>auto simp: cc_calvinsys_create_capability_def\<close>)
qed simp

lemma cc_list_get_last: "li_id item = i \<Longrightarrow> cc_list_get (l @ [item]) i \<noteq> None"
  by (induction l) auto

lemma two_accelerometers:
  assumes "ASENSOR_TYPE_ACCELEROMETER \<in> set sensors"
  shows "fst (add_sensors (ASENSOR_TYPE_ACCELEROMETER # sensors) w) = CC_FAIL"
proof -
  obtain r w' where c: "cc_calvinsys_create_capability ''io.accelerometer'' (Some (Impl_ext ''cc_accelerometer_open'')) (Some (Impl_ext ''cc_accelerometer_open'')) None False w = (r, w')"
    by fastforce
  show ?thesis
  proof (cases "r = CC_SUCCESS")
    case True
    then obtain item where i: "n_capabilities w' = n_capabilities w @ [item]" "li_id item = ''io.accelerometer''"
      using c by (auto simp: cc_calvinsys_create_capability_def new_capability_def cc_list_add_n_def cc__list_add_def mem_alloc_def Let_def
          split: if_splits list.splits prod.splits option.splits bool.splits)
    have "cc_list_get (n_capabilities w') ''io.accelerometer'' \<noteq> None"
      using cc_list_get_last[OF i(2)] i(1) by simp
    then show ?thesis using add_known_sensor[OF _ assms] c True by simp
  qed (use c in \<open>cases r; auto\<close>)
qed

theorem android_command_arrives_witness:
  "\<exists>w'. handle_platform_call example_ext example_sys \<lparr>an_write = \<lambda>m w. 0, an_slack = 4\<rparr> (platform_message ''RS'' [] @ platform_message ''RC'' []) example_world
      = Some (CC_SUCCESS, platform_message ''RC'' [], w') \<and> n_state w' = CC_NODE_STOP"
  using android_command_arrives[of example_ext example_sys "''RS''" command_rt_stop "[]" "\<lparr>an_write = \<lambda>m w. 0, an_slack = 4\<rparr>" "platform_message ''RC'' []" example_world]
  by (simp add: platform_command_handlers_def command_rt_stop_def cc_api_runtime_stop_def)

end
